(* ===== verification/Prelude.thy ===== *)
theory Prelude
  imports Complex_Main
begin

text \<open>
  Shared vocabulary of the development.

  \<^item> Python values the components have in common: exceptions with their class hierarchy, wall-clock
    readings and stored time stamps, insertion-ordered dictionaries, SQLite tables with a primary
    key, ASCII string operations.
  \<^item> Two interfaces the components rely on, stated as locales: \<open>keyed_store\<close> (what a lookup returns
    after a write or a delete) and \<open>op_system\<close> (an invariant kept by every operation is kept by
    every sequence of operations).

  Conventions. A Python \<open>float\<close>, a \<open>datetime\<close> and \<open>time.time()\<close> are a \<^typ>\<open>real\<close> (seconds for the
  last two): rounding of floating-point operations is not modelled. A Python \<open>int\<close> is an \<^typ>\<open>int\<close>;
  \<open>str\<close> is \<^typ>\<open>string\<close> over ASCII; \<open>X | None\<close> is an option. A method that mutates \<open>self\<close> takes the
  object and returns the new one. Locks are not modelled: every operation the code runs under its
  lock is one atomic step.
\<close>

named_theorems exn_simps \<open>evaluation of exception classes\<close>
named_theorems dict_simps \<open>lookups in dictionaries and tables\<close>

section \<open>Definitions\<close>

subsection \<open>Exceptions\<close>

datatype exn_class =
    KeyError | ValueError | TypeError | OSError | RuntimeError | AttributeError
  | ConnectionError | TimeoutError | ImportError | JSONDecodeError | SqliteError
  | PersistenceError | DatabaseError | ReconciliationError | BrokerConnectionError
  | CircuitBreakerOpenException | ArithmeticError | ZeroDivisionError | OverflowError | OtherExn string

datatype exn = Exn (exn_cls: exn_class) (exn_msg: string)

text \<open>The direct base class, where the code catches by base class.\<close>

fun exn_base :: "exn_class \<Rightarrow> exn_class option" where
  "exn_base ConnectionError = Some OSError"
| "exn_base TimeoutError = Some OSError"
| "exn_base JSONDecodeError = Some ValueError"
| "exn_base DatabaseError = Some PersistenceError"
| "exn_base ZeroDivisionError = Some ArithmeticError"
| "exn_base OverflowError = Some ArithmeticError"
| "exn_base _ = None"

definition exn_isa :: "exn_class \<Rightarrow> exn_class \<Rightarrow> bool" where
  "exn_isa c d \<longleftrightarrow> c = d \<or> exn_base c = Some d"

text \<open>\<open>except (C1, ..., Cn)\<close> catches \<open>e\<close>.\<close>

definition caught :: "exn_class list \<Rightarrow> exn \<Rightarrow> bool" where
  "caught cs e \<longleftrightarrow> list_ex (exn_isa (exn_cls e)) cs"

text \<open>\<open>type(e).__name__\<close>\<close>

fun exn_name :: "exn_class \<Rightarrow> string" where
  "exn_name KeyError = ''KeyError''"
| "exn_name ValueError = ''ValueError''"
| "exn_name TypeError = ''TypeError''"
| "exn_name OSError = ''OSError''"
| "exn_name RuntimeError = ''RuntimeError''"
| "exn_name AttributeError = ''AttributeError''"
| "exn_name ConnectionError = ''ConnectionError''"
| "exn_name TimeoutError = ''TimeoutError''"
| "exn_name ImportError = ''ImportError''"
| "exn_name JSONDecodeError = ''JSONDecodeError''"
| "exn_name SqliteError = ''Error''"
| "exn_name PersistenceError = ''PersistenceError''"
| "exn_name DatabaseError = ''DatabaseError''"
| "exn_name ReconciliationError = ''ReconciliationError''"
| "exn_name BrokerConnectionError = ''BrokerConnectionError''"
| "exn_name CircuitBreakerOpenException = ''CircuitBreakerOpenException''"
| "exn_name ArithmeticError = ''ArithmeticError''"
| "exn_name ZeroDivisionError = ''ZeroDivisionError''"
| "exn_name OverflowError = ''OverflowError''"
| "exn_name (OtherExn n) = n"

subsection \<open>Time stamps\<close>

text \<open>
  A stored time stamp is a string. \<open>At t\<close> is a string the code's parser accepts, denoting the
  instant \<open>t\<close>; \<open>Junk s\<close> is a string it rejects with \<open>ValueError\<close> (the empty string among them).
\<close>

datatype stamp = At real | Junk string

text \<open>\<open>time_provider.format_ts()\<close>: the format has whole seconds.\<close>

definition format_ts :: "real \<Rightarrow> stamp" where
  "format_ts now = At (of_int \<lfloor>now\<rfloor>)"

fun stamp_truthy :: "stamp \<Rightarrow> bool" where
  "stamp_truthy (At _) = True"
| "stamp_truthy (Junk s) = (s \<noteq> [])"

subsection \<open>Strings\<close>

definition truthy :: "string option \<Rightarrow> bool" where
  "truthy x \<longleftrightarrow> (case x of None \<Rightarrow> False | Some s \<Rightarrow> s \<noteq> [])"

text \<open>\<open>x or d\<close> for an optional string.\<close>

definition str_or :: "string option \<Rightarrow> string \<Rightarrow> string" where
  "str_or x d = (case x of None \<Rightarrow> d | Some s \<Rightarrow> if s = [] then d else s)"

definition upper_char :: "char \<Rightarrow> char" where
  "upper_char c = (if 97 \<le> (of_char c :: nat) \<and> (of_char c :: nat) \<le> 122
                   then char_of ((of_char c :: nat) - 32) else c)"

definition lower_char :: "char \<Rightarrow> char" where
  "lower_char c = (if 65 \<le> (of_char c :: nat) \<and> (of_char c :: nat) \<le> 90
                   then char_of ((of_char c :: nat) + 32) else c)"

abbreviation str_upper :: "string \<Rightarrow> string" where "str_upper \<equiv> map upper_char"
abbreviation str_lower :: "string \<Rightarrow> string" where "str_lower \<equiv> map lower_char"

text \<open>\<open>p in s\<close> for strings.\<close>

fun str_contains :: "string \<Rightarrow> string \<Rightarrow> bool" where
  "str_contains p [] = (p = [])"
| "str_contains p (c # cs) = (take (length p) (c # cs) = p \<or> str_contains p cs)"

text \<open>Decimal numerals, and \<open>f"{x:.0f}"\<close>: the nearest integer, ties to the even one.\<close>

fun show_nat :: "nat \<Rightarrow> string" where
  "show_nat n = (if n < 10 then [char_of (48 + n)] else show_nat (n div 10) @ [char_of (48 + n mod 10)])"

declare show_nat.simps [simp del]

definition show_int :: "int \<Rightarrow> string" where
  "show_int i = (if i < 0 then ''-'' @ show_nat (nat (- i)) else show_nat (nat i))"

definition round_half_even :: "real \<Rightarrow> int" where
  "round_half_even x =
     (let n = \<lfloor>x\<rfloor>; d = x - of_int n
      in if d < 1 / 2 then n else if d > 1 / 2 then n + 1 else if even n then n else n + 1)"

definition fmt_0f :: "real \<Rightarrow> string" where
  "fmt_0f x = (if x < 0 then ''-'' @ show_nat (nat (round_half_even (- x)))
               else show_nat (nat (round_half_even x)))"

subsection \<open>Dictionaries\<close>

text \<open>
  A \<open>dict\<close> keeps its insertion order: an assignment to a present key keeps the key's place, an
  assignment to a new key appends.
\<close>

type_synonym ('k, 'v) dict = "('k \<times> 'v) list"

fun dict_set :: "'k \<Rightarrow> 'v \<Rightarrow> ('k, 'v) dict \<Rightarrow> ('k, 'v) dict" where
  "dict_set k v [] = [(k, v)]"
| "dict_set k v ((a, b) # d) = (if a = k then (k, v) # d else (a, b) # dict_set k v d)"

definition dict_del :: "'k \<Rightarrow> ('k, 'v) dict \<Rightarrow> ('k, 'v) dict" where
  "dict_del k d = filter (\<lambda>p. fst p \<noteq> k) d"

definition dict_keys :: "('k, 'v) dict \<Rightarrow> 'k list" where
  "dict_keys d = map fst d"

definition dict_vals :: "('k, 'v) dict \<Rightarrow> 'v list" where
  "dict_vals d = map snd d"

definition dict_ok :: "('k, 'v) dict \<Rightarrow> bool" where
  "dict_ok d \<longleftrightarrow> distinct (dict_keys d)"

subsection \<open>Tables\<close>

text \<open>
  A SQLite table with a primary key is the list of its rows; \<open>key\<close> reads the primary key.
  \<open>INSERT OR REPLACE\<close> deletes the row with the same key and adds the new row last;
  \<open>UPDATE ... WHERE\<close> and \<open>DELETE ... WHERE\<close> act on the rows a condition selects;
  \<open>ORDER BY\<close> on one column sorts the selected rows stably.
\<close>

definition tbl_get :: "('r \<Rightarrow> 'k) \<Rightarrow> 'k \<Rightarrow> 'r list \<Rightarrow> 'r option" where
  "tbl_get key k t = find (\<lambda>r. key r = k) t"

definition tbl_replace :: "('r \<Rightarrow> 'k) \<Rightarrow> 'r \<Rightarrow> 'r list \<Rightarrow> 'r list" where
  "tbl_replace key r t = filter (\<lambda>x. key x \<noteq> key r) t @ [r]"

definition tbl_update :: "('r \<Rightarrow> bool) \<Rightarrow> ('r \<Rightarrow> 'r) \<Rightarrow> 'r list \<Rightarrow> 'r list" where
  "tbl_update P f t = map (\<lambda>r. if P r then f r else r) t"

definition tbl_delete :: "('r \<Rightarrow> bool) \<Rightarrow> 'r list \<Rightarrow> 'r list" where
  "tbl_delete P t = filter (\<lambda>r. \<not> P r) t"

definition tbl_ok :: "('r \<Rightarrow> 'k) \<Rightarrow> 'r list \<Rightarrow> bool" where
  "tbl_ok key t \<longleftrightarrow> distinct (map key t)"

subsection \<open>Results\<close>

text \<open>A call that returns a value or raises: \<open>Inr\<close> the value, \<open>Inl\<close> the exception.\<close>

definition res_bind :: "'e + 'a \<Rightarrow> ('a \<Rightarrow> 'e + 'b) \<Rightarrow> 'e + 'b" where
  "res_bind x f = (case x of Inl e \<Rightarrow> Inl e | Inr a \<Rightarrow> f a)"

text \<open>A list comprehension whose element expression may raise.\<close>

fun res_map :: "('a \<Rightarrow> 'e + 'b) \<Rightarrow> 'a list \<Rightarrow> 'e + 'b list" where
  "res_map f [] = Inr []"
| "res_map f (x # xs) =
     (case f x of Inl e \<Rightarrow> Inl e
      | Inr y \<Rightarrow> (case res_map f xs of Inl e \<Rightarrow> Inl e | Inr ys \<Rightarrow> Inr (y # ys)))"

text \<open>A \<open>for\<close> loop whose body may raise, in which case the loop ends with the state reached so far.\<close>

fun for_each :: "('a \<Rightarrow> 's \<Rightarrow> 'e option \<times> 's) \<Rightarrow> 'a list \<Rightarrow> 's \<Rightarrow> 'e option \<times> 's" where
  "for_each body [] s = (None, s)"
| "for_each body (x # xs) s =
     (case body x s of (Some e, s') \<Rightarrow> (Some e, s') | (None, s') \<Rightarrow> for_each body xs s')"

section \<open>Generic lemmas\<close>

lemma for_each_inv:
  "I s \<Longrightarrow> (\<And>x s. x \<in> set xs \<Longrightarrow> I s \<Longrightarrow> I (snd (body x s))) \<Longrightarrow> I (snd (for_each body xs s))"
proof (induction xs arbitrary: s)
  case Nil
  then show ?case by simp
next
  case (Cons x xs)
  from Cons.prems have step: "I (snd (body x s))" by simp
  show ?case
  proof (cases "body x s")
    case (Pair r s')
    with step have "I s'" by simp
    with Cons have "I (snd (for_each body xs s'))" by simp
    with Pair \<open>I s'\<close> show ?thesis by (cases r) simp_all
  qed
qed

lemma for_each_no_raise:
  "(\<And>x s. x \<in> set xs \<Longrightarrow> fst (body x s) = None) \<Longrightarrow>
     for_each body xs s = (None, fold (\<lambda>x s. snd (body x s)) xs s)"
proof (induction xs arbitrary: s)
  case Nil
  then show ?case by simp
next
  case (Cons x xs)
  then have "fst (body x s) = None" by simp
  then obtain s' where "body x s = (None, s')" by (cases "body x s") auto
  with Cons show ?case by simp
qed

lemma res_bind_simps [simp]: "res_bind (Inl e) f = Inl e" "res_bind (Inr a) f = f a"
  by (simp_all add: res_bind_def)

lemma res_bind_Inr: "res_bind x f = Inr b \<longleftrightarrow> (\<exists>a. x = Inr a \<and> f a = Inr b)"
  by (cases x) simp_all

lemma res_map_Inr: "(\<And>x. x \<in> set xs \<Longrightarrow> f x = Inr (g x)) \<Longrightarrow> res_map f xs = Inr (map g xs)"
  by (induction xs) auto

lemma caught_Cons [exn_simps]: "caught (c # cs) e \<longleftrightarrow> exn_isa (exn_cls e) c \<or> caught cs e"
  by (simp add: caught_def)

lemma caught_Nil [exn_simps]: "\<not> caught [] e"
  by (simp add: caught_def)

lemmas [exn_simps] = exn_isa_def

lemma truthy_simps [simp]: "\<not> truthy None" "truthy (Some s) \<longleftrightarrow> s \<noteq> []"
  by (simp_all add: truthy_def)

lemma truthyE: "truthy x \<Longrightarrow> (\<And>s. x = Some s \<Longrightarrow> s \<noteq> [] \<Longrightarrow> P) \<Longrightarrow> P"
  by (cases x) auto

lemma str_or_simps [simp]: "str_or None d = d" "str_or (Some s) d = (if s = [] then d else s)"
  by (simp_all add: str_or_def)

lemma str_contains_iff: "str_contains p s \<longleftrightarrow> (\<exists>u v. s = u @ p @ v)"
proof (induction s)
  case Nil
  then show ?case by auto
next
  case (Cons c cs)
  have "take (length p) (c # cs) = p \<longleftrightarrow> (\<exists>v. c # cs = p @ v)"
    by (metis append_eq_conv_conj)
  moreover have "(\<exists>u v. c # cs = u @ p @ v) \<longleftrightarrow>
      (\<exists>v. c # cs = p @ v) \<or> (\<exists>u v. cs = u @ p @ v)"
    by (metis Cons_eq_append_conv append_Cons append_Nil)
  ultimately show ?case using Cons.IH by simp
qed

subsection \<open>Dictionaries\<close>

lemma map_of_dict_set [simp, dict_simps]: "map_of (dict_set k v d) = (map_of d)(k \<mapsto> v)"
  by (induction d) (auto simp: fun_eq_iff)

lemma map_of_dict_del [simp, dict_simps]: "map_of (dict_del k d) = (map_of d)(k := None)"
  by (induction d) (auto simp: dict_del_def fun_eq_iff)

lemma dict_keys_set: "dict_keys (dict_set k v d) = (if k \<in> set (dict_keys d) then dict_keys d else dict_keys d @ [k])"
  by (induction d) (force simp: dict_keys_def)+

lemma dict_keys_del: "dict_keys (dict_del k d) = filter (\<lambda>a. a \<noteq> k) (dict_keys d)"
  by (induction d) (auto simp: dict_keys_def dict_del_def)

lemma dict_ok_Nil [simp]: "dict_ok []"
  by (simp add: dict_ok_def dict_keys_def)

lemma dict_ok_set [simp]: "dict_ok d \<Longrightarrow> dict_ok (dict_set k v d)"
  by (simp add: dict_ok_def dict_keys_set)

lemma dict_ok_del [simp]: "dict_ok d \<Longrightarrow> dict_ok (dict_del k d)"
  by (simp add: dict_ok_def dict_keys_del)

lemma dict_keys_dom: "set (dict_keys d) = dom (map_of d)"
  by (simp add: dict_keys_def dom_map_of_conv_image_fst)

lemma dict_set_length: "length (dict_set k v d) = length d + (if k \<in> dom (map_of d) then 0 else 1)"
proof -
  have "length (dict_set k v d) = length (dict_keys (dict_set k v d))"
    by (simp add: dict_keys_def)
  then show ?thesis
    by (auto simp: dict_keys_set dict_keys_dom) (simp_all add: dict_keys_def)
qed

lemma dict_set_same: "map_of d k = Some v \<Longrightarrow> dict_set k v d = d"
  by (induction d) auto

lemma dict_ok_Cons: "dict_ok ((k, v) # d) \<longleftrightarrow> map_of d k = None \<and> dict_ok d"
  by (simp add: dict_ok_def dict_keys_def map_of_eq_None_iff)

lemma dict_ok_filter: "dict_ok d \<Longrightarrow> dict_ok (filter P d)"
  by (simp add: dict_ok_def dict_keys_def distinct_map_filter)

lemma map_of_filter_dict:
  "dict_ok d \<Longrightarrow> map_of (filter (\<lambda>(a, b). P a b) d) k =
     (case map_of d k of None \<Rightarrow> None | Some v \<Rightarrow> if P k v then Some v else None)"
proof (induction d)
  case Nil
  then show ?case by simp
next
  case (Cons p d)
  obtain a b where p: "p = (a, b)" by (cases p)
  from Cons.prems p have none: "map_of d a = None" and ok: "dict_ok d"
    by (simp_all add: dict_ok_Cons)
  show ?case using Cons.IH [OF ok] none p by (auto split: option.splits)
qed

subsection \<open>Tables\<close>

lemma tbl_get_replace [dict_simps]:
  "tbl_get key k (tbl_replace key r t) = (if key r = k then Some r else tbl_get key k t)"
proof (induction t)
  case Nil
  then show ?case by (simp add: tbl_get_def tbl_replace_def)
next
  case (Cons x t)
  then show ?case by (auto simp: tbl_get_def tbl_replace_def)
qed

lemma tbl_get_delete_key [dict_simps]:
  "tbl_get key k (tbl_delete (\<lambda>r. key r = k') t) = (if k = k' then None else tbl_get key k t)"
  by (induction t) (auto simp: tbl_get_def tbl_delete_def)

lemma tbl_get_key: "tbl_get key k t = Some r \<Longrightarrow> key r = k \<and> r \<in> set t"
  by (auto simp: tbl_get_def find_Some_iff)

lemma tbl_get_None: "tbl_get key k t = None \<longleftrightarrow> (\<forall>r \<in> set t. key r \<noteq> k)"
  by (auto simp: tbl_get_def find_None_iff)

lemma tbl_get_update:
  assumes "\<And>r. key (f r) = key r"
  shows "tbl_get key k (tbl_update P f t) =
    map_option (\<lambda>r. if P r then f r else r) (tbl_get key k t)"
  using assms by (induction t) (auto simp: tbl_get_def tbl_update_def)

lemma tbl_update_keys:
  assumes "\<And>r. key (f r) = key r"
  shows "map key (tbl_update P f t) = map key t"
  using assms by (simp add: tbl_update_def)

lemma tbl_ok_Nil [simp]: "tbl_ok key []"
  by (simp add: tbl_ok_def)

lemma tbl_ok_replace [simp]: "tbl_ok key t \<Longrightarrow> tbl_ok key (tbl_replace key r t)"
  by (auto simp: tbl_ok_def tbl_replace_def distinct_map_filter)

lemma tbl_ok_delete [simp]: "tbl_ok key t \<Longrightarrow> tbl_ok key (tbl_delete P t)"
  by (simp add: tbl_ok_def tbl_delete_def distinct_map_filter)

lemma tbl_ok_update: "(\<And>r. key (f r) = key r) \<Longrightarrow> tbl_ok key t \<Longrightarrow> tbl_ok key (tbl_update P f t)"
  by (simp add: tbl_ok_def tbl_update_keys)

lemma tbl_get_member: "tbl_ok key t \<Longrightarrow> r \<in> set t \<Longrightarrow> tbl_get key (key r) t = Some r"
proof (induction t)
  case Nil
  then show ?case by simp
next
  case (Cons x t)
  then show ?case by (auto simp: tbl_ok_def tbl_get_def)
qed

section \<open>Interfaces\<close>

text \<open>
  A keyed store: what the clients of a dictionary and of a table with a primary key rely on.
\<close>

locale keyed_store =
  fixes get :: "'k \<Rightarrow> 's \<Rightarrow> 'v option"
    and put :: "'k \<Rightarrow> 'v \<Rightarrow> 's \<Rightarrow> 's"
    and remove :: "'k \<Rightarrow> 's \<Rightarrow> 's"
    and wf_val :: "'k \<Rightarrow> 'v \<Rightarrow> bool"
    and invar :: "'s \<Rightarrow> bool"
  assumes get_put: "wf_val k v \<Longrightarrow> get k' (put k v s) = (if k' = k then Some v else get k' s)"
    and get_remove: "get k' (remove k s) = (if k' = k then None else get k' s)"
    and invar_put: "wf_val k v \<Longrightarrow> invar s \<Longrightarrow> invar (put k v s)"
    and invar_remove: "invar s \<Longrightarrow> invar (remove k s)"
begin

lemma put_put: "wf_val k v \<Longrightarrow> wf_val k w \<Longrightarrow> get k' (put k v (put k w s)) = get k' (put k v s)"
  by (simp add: get_put)

lemma put_commute:
  "k \<noteq> l \<Longrightarrow> wf_val k v \<Longrightarrow> wf_val l w \<Longrightarrow> get k' (put k v (put l w s)) = get k' (put l w (put k v s))"
  by (simp add: get_put)

lemma remove_put: "wf_val k v \<Longrightarrow> get k' (remove k (put k v s)) = get k' (remove k s)"
  by (simp add: get_put get_remove)

lemma fold_put_other:
  "(\<And>v. v \<in> set vs \<Longrightarrow> wf_val (kf v) v \<and> kf v \<noteq> k) \<Longrightarrow>
     get k (fold (\<lambda>v. put (kf v) v) vs s) = get k s"
proof (induction vs arbitrary: s)
  case Nil
  then show ?case by simp
next
  case (Cons v vs)
  from Cons.prems have "wf_val (kf v) v" and "k \<noteq> kf v" by force+
  then have "get k (put (kf v) v s) = get k s" by (simp add: get_put)
  with Cons show ?case by simp
qed

end

text \<open>Dictionaries are a keyed store, for values of any kind.\<close>

interpretation dict: keyed_store "\<lambda>k d. map_of d k" dict_set dict_del "\<lambda>_ _. True" dict_ok
  by unfold_locales auto

text \<open>A table with primary key \<open>key\<close>; a row may be stored under its own key only.\<close>

lemma table_keyed_store:
  "keyed_store (tbl_get key) (\<lambda>k r. tbl_replace key r) (\<lambda>k. tbl_delete (\<lambda>r. key r = k))
     (\<lambda>k r. key r = k) (tbl_ok key)"
  by unfold_locales (auto simp: tbl_get_replace tbl_get_delete_key)

text \<open>
  A component as a system of operations: \<open>step op s\<close> is the state after one operation. An
  invariant that every operation keeps is kept by every sequence of operations, and a relation
  between states that is reflexive, transitive and contains every step holds between the first
  and the last state of a run.
\<close>

locale op_system =
  fixes step :: "'op \<Rightarrow> 's \<Rightarrow> 's"
    and inv :: "'s \<Rightarrow> bool"
  assumes step_inv: "inv s \<Longrightarrow> inv (step x s)"
begin

lemma run_inv: "inv s \<Longrightarrow> inv (fold step ops s)"
  by (induction ops arbitrary: s) (auto intro: step_inv)

lemma run_prefix_inv: "inv s \<Longrightarrow> inv (fold step (take n ops) s)"
  by (rule run_inv)

end

locale op_order = op_system +
  fixes le :: "'s \<Rightarrow> 's \<Rightarrow> bool"
  assumes le_refl: "le s s"
    and le_trans: "le s t \<Longrightarrow> le t u \<Longrightarrow> le s u"
    and step_le: "inv s \<Longrightarrow> le s (step x s)"
begin

lemma run_le: "inv s \<Longrightarrow> le s (fold step ops s)"
proof (induction ops arbitrary: s)
  case Nil
  then show ?case by (simp add: le_refl)
next
  case (Cons x ops)
  from Cons.prems have "le s (step x s)" by (rule step_le)
  moreover from Cons.prems have "le (step x s) (fold step ops (step x s))"
    by (intro Cons.IH step_inv)
  ultimately show ?case by (auto intro: le_trans)
qed

end

end
