(* ===== verification/Durable_State.thy ===== *)
theory Durable_State
  imports Prelude
begin

text \<open>
  The durable execution store, \<open>core/execution/durable_state.py\<close>: one table of execution records
  keyed by \<open>intent_id\<close>, written by the execution service and read by crash recovery.

  The table holds text: the state column is the enum's value and the two time columns are ISO
  strings, so reading a row back parses them (\<open>row_to_record\<close>) and may raise \<open>ValueError\<close>. The
  argument \<open>up\<close> says whether the database answers; when it does not, the call raises
  \<open>sqlite3.Error\<close>, \<open>DatabaseError\<close> or \<open>OSError\<close>, which every method catches. ISO strings written by
  \<open>isoformat()\<close> compare as the instants they denote, so the text comparisons of the SQL
  (\<open>ORDER BY updated_at\<close>, \<open>updated_at < ?\<close>) are comparisons of instants.
\<close>

section \<open>Definitions\<close>

datatype durable_state =
    DS_PENDING | DS_SUBMITTED | DS_PARTIALLY_FILLED | DS_FILLED
  | DS_CANCELLED | DS_REJECTED | DS_FAILED | DS_UNKNOWN

fun durable_value :: "durable_state \<Rightarrow> string" where
  "durable_value DS_PENDING = ''PENDING''"
| "durable_value DS_SUBMITTED = ''SUBMITTED''"
| "durable_value DS_PARTIALLY_FILLED = ''PARTIALLY_FILLED''"
| "durable_value DS_FILLED = ''FILLED''"
| "durable_value DS_CANCELLED = ''CANCELLED''"
| "durable_value DS_REJECTED = ''REJECTED''"
| "durable_value DS_FAILED = ''FAILED''"
| "durable_value DS_UNKNOWN = ''UNKNOWN''"

definition all_durable_states :: "durable_state list" where
  "all_durable_states = [DS_PENDING, DS_SUBMITTED, DS_PARTIALLY_FILLED, DS_FILLED,
     DS_CANCELLED, DS_REJECTED, DS_FAILED, DS_UNKNOWN]"

text \<open>\<open>ExecutionState(v)\<close>: the enum member with value \<open>v\<close>.\<close>

definition durable_of_value :: "string \<Rightarrow> durable_state option" where
  "durable_of_value v = find (\<lambda>s. durable_value s = v) all_durable_states"

definition durable_terminal :: "durable_state list" where
  "durable_terminal = [DS_FILLED, DS_CANCELLED, DS_REJECTED, DS_FAILED]"

definition allowed_update_cols :: "string list" where
  "allowed_update_cols =
     [''state'', ''updated_at'', ''broker_order_id'', ''filled_quantity'', ''average_price'', ''reject_reason'']"

text \<open>The record class and the table row differ in the types of the state and time columns.\<close>

record ('st, 't) exec_rec =
  er_intent_id :: string
  er_client_order_id :: string
  er_symbol :: string
  er_direction :: string
  er_quantity :: int
  er_strike_price :: real
  er_state :: 'st
  er_broker_order_id :: "string option"
  er_filled_quantity :: int
  er_average_price :: real
  er_reject_reason :: "string option"
  er_created_at :: 't
  er_updated_at :: 't
  er_retry_count :: int

type_synonym durable_rec = "(durable_state, real) exec_rec"
type_synonym exec_row = "(string, stamp) exec_rec"
type_synonym exec_table = "exec_row list"

definition record_to_row :: "durable_rec \<Rightarrow> exec_row" where
  "record_to_row r = \<lparr>
     er_intent_id = er_intent_id r, er_client_order_id = er_client_order_id r,
     er_symbol = er_symbol r, er_direction = er_direction r, er_quantity = er_quantity r,
     er_strike_price = er_strike_price r, er_state = durable_value (er_state r),
     er_broker_order_id = er_broker_order_id r, er_filled_quantity = er_filled_quantity r,
     er_average_price = er_average_price r, er_reject_reason = er_reject_reason r,
     er_created_at = At (er_created_at r), er_updated_at = At (er_updated_at r),
     er_retry_count = er_retry_count r\<rparr>"

definition row_to_record :: "exec_row \<Rightarrow> exn + durable_rec" where
  "row_to_record row =
     (case durable_of_value (er_state row) of
        None \<Rightarrow> Inl (Exn ValueError ''not a valid ExecutionState'')
      | Some st \<Rightarrow>
        (case er_created_at row of
           Junk _ \<Rightarrow> Inl (Exn ValueError ''Invalid isoformat string'')
         | At c \<Rightarrow>
           (case er_updated_at row of
              Junk _ \<Rightarrow> Inl (Exn ValueError ''Invalid isoformat string'')
            | At u \<Rightarrow> Inr \<lparr>
                er_intent_id = er_intent_id row, er_client_order_id = er_client_order_id row,
                er_symbol = er_symbol row, er_direction = er_direction row,
                er_quantity = er_quantity row, er_strike_price = er_strike_price row,
                er_state = st,
                er_broker_order_id = er_broker_order_id row,
                er_filled_quantity = er_filled_quantity row,
                er_average_price = er_average_price row, er_reject_reason = er_reject_reason row,
                er_created_at = c, er_updated_at = u, er_retry_count = er_retry_count row\<rparr>)))"

text \<open>The text order of the time column; strings that are no time stamp do not occur in it.\<close>

definition stamp_time :: "stamp \<Rightarrow> real" where
  "stamp_time s = (case s of At t \<Rightarrow> t | Junk _ \<Rightarrow> 0)"

definition row_terminal :: "exec_row \<Rightarrow> bool" where
  "row_terminal row \<longleftrightarrow> er_state row \<in> set (map durable_value durable_terminal)"

definition save_execution :: "bool \<Rightarrow> durable_rec \<Rightarrow> exec_table \<Rightarrow> exec_table \<times> bool" where
  "save_execution up r t =
     (if up then (tbl_replace er_intent_id (record_to_row r) t, True) else (t, False))"

definition get_execution :: "bool \<Rightarrow> string \<Rightarrow> exec_table \<Rightarrow> exn + durable_rec option" where
  "get_execution up i t =
     (if up then
        (case tbl_get er_intent_id i t of
           None \<Rightarrow> Inr None
         | Some row \<Rightarrow> res_bind (row_to_record row) (\<lambda>r. Inr (Some r)))
      else Inr None)"

definition get_non_terminal_executions :: "bool \<Rightarrow> exec_table \<Rightarrow> exn + durable_rec list" where
  "get_non_terminal_executions up t =
     (if up then
        res_map row_to_record
          (sort_key (\<lambda>row. stamp_time (er_updated_at row)) (filter (\<lambda>row. \<not> row_terminal row) t))
      else Inr [])"

definition durable_is_duplicate :: "bool \<Rightarrow> string \<Rightarrow> exec_table \<Rightarrow> exn + bool" where
  "durable_is_duplicate up i t =
     res_bind (get_execution up i t) (\<lambda>r. case r of
         None \<Rightarrow> Inr False
       | Some rc \<Rightarrow> Inr (er_state rc \<notin> set durable_terminal))"

text \<open>The columns \<open>update_state\<close> assigns, in order.\<close>

definition update_columns ::
    "string option \<Rightarrow> int \<Rightarrow> real \<Rightarrow> string option \<Rightarrow> string list" where
  "update_columns bid fq ap rr =
     [''state'', ''updated_at'']
     @ (if bid \<noteq> None then [''broker_order_id''] else [])
     @ (if fq > 0 then [''filled_quantity''] else [])
     @ (if ap > 0 then [''average_price''] else [])
     @ (if rr \<noteq> None then [''reject_reason''] else [])"

definition update_row ::
    "real \<Rightarrow> durable_state \<Rightarrow> string option \<Rightarrow> int \<Rightarrow> real \<Rightarrow> string option \<Rightarrow> exec_row \<Rightarrow> exec_row" where
  "update_row now st bid fq ap rr row = row\<lparr>
     er_state := durable_value st,
     er_updated_at := At now,
     er_broker_order_id := (if bid \<noteq> None then bid else er_broker_order_id row),
     er_filled_quantity := (if fq > 0 then fq else er_filled_quantity row),
     er_average_price := (if ap > 0 then ap else er_average_price row),
     er_reject_reason := (if rr \<noteq> None then rr else er_reject_reason row)\<rparr>"

definition update_state ::
    "bool \<Rightarrow> real \<Rightarrow> string \<Rightarrow> durable_state \<Rightarrow> string option \<Rightarrow> int \<Rightarrow> real \<Rightarrow> string option
      \<Rightarrow> exec_table \<Rightarrow> exec_table \<times> bool" where
  "update_state up now i st bid fq ap rr t =
     (if \<not> up then (t, False)
      else if list_all (\<lambda>c. c \<in> set allowed_update_cols) (update_columns bid fq ap rr)
      then (tbl_update (\<lambda>row. er_intent_id row = i) (update_row now st bid fq ap rr) t, True)
      else (t, False))"

definition increment_retry :: "bool \<Rightarrow> real \<Rightarrow> string \<Rightarrow> exec_table \<Rightarrow> exec_table \<times> int" where
  "increment_retry up now i t =
     (if up then
        (let t' = tbl_update (\<lambda>row. er_intent_id row = i)
                    (\<lambda>row. row\<lparr>er_retry_count := er_retry_count row + 1, er_updated_at := At now\<rparr>) t
         in (t', if list_ex (\<lambda>row. er_intent_id row = i) t
                 then (case tbl_get er_intent_id i t' of None \<Rightarrow> 0 | Some row \<Rightarrow> er_retry_count row)
                 else 0))
      else (t, 0))"

definition durable_clear_in_flight :: "bool \<Rightarrow> real \<Rightarrow> string \<Rightarrow> exec_table \<Rightarrow> exec_table \<times> bool" where
  "durable_clear_in_flight up now i t =
     update_state up now i DS_FAILED None 0 0 (Some ''Cleared for retry'') t"

definition cleanup_old_records :: "bool \<Rightarrow> real \<Rightarrow> int \<Rightarrow> exec_table \<Rightarrow> exec_table \<times> int" where
  "cleanup_old_records up now hours t =
     (if up then
        (let cutoff = now - of_int hours * 3600;
             old = (\<lambda>row. row_terminal row \<and> stamp_time (er_updated_at row) < cutoff)
         in (tbl_delete old t, int (length (filter old t))))
      else (t, 0))"

definition durable_get_stats :: "bool \<Rightarrow> exec_table \<Rightarrow> (string, int) dict" where
  "durable_get_stats up t =
     (if up then
        map (\<lambda>s. (durable_value s, int (length (filter (\<lambda>row. er_state row = durable_value s) t))))
          all_durable_states
      else [])"

text \<open>
  \<open>reconcile_with_broker\<close>: the broker port may lack \<open>get_order_status\<close> (\<open>None\<close>), and a query
  returns a status, \<open>None\<close>, or raises. \<open>upw i\<close> says whether the write for record \<open>i\<close> succeeds.
\<close>

type_synonym status_port = "(string \<Rightarrow> exn + string option) option"

record recon_counts =
  rc_checked :: int
  rc_filled :: int
  rc_still_pending :: int
  rc_unknown :: int
  rc_repaired :: int

text \<open>One round of the loop; the state is the table and the counters.\<close>

definition reconcile_one ::
    "(string \<Rightarrow> bool) \<Rightarrow> status_port \<Rightarrow> real \<Rightarrow> durable_rec
      \<Rightarrow> exec_table \<times> recon_counts \<Rightarrow> exn option \<times> exec_table \<times> recon_counts" where
  "reconcile_one upw port now r = (\<lambda>(t, c).
     if \<not> truthy (er_broker_order_id r)
     then (None, t, c\<lparr>rc_still_pending := rc_still_pending c + 1\<rparr>)
     else case port of
       None \<Rightarrow> (None, t, c)
     | Some query \<Rightarrow>
       (case query (the (er_broker_order_id r)) of
          Inl e \<Rightarrow>
            (if caught [DatabaseError, SqliteError, OSError, ConnectionError] e
             then (None, t, c\<lparr>rc_unknown := rc_unknown c + 1\<rparr>)
             else (Some e, t, c))
        | Inr status \<Rightarrow>
            (if status = Some ''FILLED'' \<or> status = Some ''COMPLETE''
             then (None,
                   fst (update_state (upw (er_intent_id r)) now (er_intent_id r) DS_FILLED
                          None (er_quantity r) 0 None t),
                   c\<lparr>rc_filled := rc_filled c + 1\<rparr>)
             else if status = Some ''CANCELLED'' \<or> status = Some ''REJECTED''
             then (None,
                   fst (update_state (upw (er_intent_id r)) now (er_intent_id r)
                          (if status = Some ''CANCELLED'' then DS_CANCELLED else DS_REJECTED)
                          None 0 0 None t),
                   c\<lparr>rc_repaired := rc_repaired c + 1\<rparr>)
             else (None, t, c))))"

definition reconcile_with_broker ::
    "bool \<Rightarrow> (string \<Rightarrow> bool) \<Rightarrow> status_port \<Rightarrow> real \<Rightarrow> exec_table
      \<Rightarrow> (exn + recon_counts) \<times> exec_table" where
  "reconcile_with_broker up upw port now t =
     (case get_non_terminal_executions up t of
        Inl e \<Rightarrow> (Inl e, t)
      | Inr rs \<Rightarrow>
        (case for_each (reconcile_one upw port now) rs
                (t, \<lparr>rc_checked = int (length rs), rc_filled = 0, rc_still_pending = 0,
                     rc_unknown = 0, rc_repaired = 0\<rparr>) of
           (Some e, t', c) \<Rightarrow> (Inl e, t')
         | (None, t', c) \<Rightarrow> (Inr c, t')))"

text \<open>The operations of the store as one step function, for statements about sequences of calls.\<close>

datatype durable_op =
    Save bool durable_rec
  | Update bool real string durable_state "string option" int real "string option"
  | Retry bool real string
  | ClearInFlight bool real string
  | Cleanup bool real int
  | ReconcileBroker bool "string \<Rightarrow> bool" status_port real

fun durable_step :: "durable_op \<Rightarrow> exec_table \<Rightarrow> exec_table" where
  "durable_step (Save up r) t = fst (save_execution up r t)"
| "durable_step (Update up now i st bid fq ap rr) t = fst (update_state up now i st bid fq ap rr t)"
| "durable_step (Retry up now i) t = fst (increment_retry up now i t)"
| "durable_step (ClearInFlight up now i) t = fst (durable_clear_in_flight up now i t)"
| "durable_step (Cleanup up now h) t = fst (cleanup_old_records up now h t)"
| "durable_step (ReconcileBroker up upw port now) t = snd (reconcile_with_broker up upw port now t)"

text \<open>Well-formed tables: keys are unique and every row parses.\<close>

definition row_ok :: "exec_row \<Rightarrow> bool" where
  "row_ok row \<longleftrightarrow> durable_of_value (er_state row) \<noteq> None
     \<and> (\<exists>c. er_created_at row = At c) \<and> (\<exists>u. er_updated_at row = At u)"

definition exec_table_ok :: "exec_table \<Rightarrow> bool" where
  "exec_table_ok t \<longleftrightarrow> tbl_ok er_intent_id t \<and> (\<forall>row \<in> set t. row_ok row)"

text \<open>The abstraction of a table: the records it stands for.\<close>

definition durable_map :: "exec_table \<Rightarrow> string \<rightharpoonup> durable_rec" where
  "durable_map t i = (case tbl_get er_intent_id i t of
      None \<Rightarrow> None
    | Some row \<Rightarrow> (case row_to_record row of Inl _ \<Rightarrow> None | Inr r \<Rightarrow> Some r))"

definition rec_terminal :: "durable_rec \<Rightarrow> bool" where
  "rec_terminal r \<longleftrightarrow> er_state r \<in> set durable_terminal"

text \<open>The effect of \<open>update_state\<close> on a record, and of a reconciliation round on the record it is about.\<close>

definition rec_update ::
    "real \<Rightarrow> durable_state \<Rightarrow> string option \<Rightarrow> int \<Rightarrow> real \<Rightarrow> string option \<Rightarrow> durable_rec \<Rightarrow> durable_rec" where
  "rec_update now st bid fq ap rr r = r\<lparr>
     er_state := st,
     er_updated_at := now,
     er_broker_order_id := (if bid \<noteq> None then bid else er_broker_order_id r),
     er_filled_quantity := (if fq > 0 then fq else er_filled_quantity r),
     er_average_price := (if ap > 0 then ap else er_average_price r),
     er_reject_reason := (if rr \<noteq> None then rr else er_reject_reason r)\<rparr>"

definition broker_says :: "status_port \<Rightarrow> durable_rec \<Rightarrow> string option" where
  "broker_says port r =
     (if truthy (er_broker_order_id r) then
        (case port of None \<Rightarrow> None
         | Some query \<Rightarrow> (case query (the (er_broker_order_id r)) of Inl _ \<Rightarrow> None | Inr s \<Rightarrow> s))
      else None)"

definition broker_verdict :: "status_port \<Rightarrow> durable_rec \<Rightarrow> (durable_state \<times> int) option" where
  "broker_verdict port r =
     (if broker_says port r \<in> {Some ''FILLED'', Some ''COMPLETE''} then Some (DS_FILLED, er_quantity r)
      else if broker_says port r = Some ''CANCELLED'' then Some (DS_CANCELLED, 0)
      else if broker_says port r = Some ''REJECTED'' then Some (DS_REJECTED, 0)
      else None)"

definition reconciled :: "(string \<Rightarrow> bool) \<Rightarrow> status_port \<Rightarrow> real \<Rightarrow> durable_rec \<Rightarrow> durable_rec" where
  "reconciled upw port now r =
     (if rec_terminal r \<or> \<not> upw (er_intent_id r) then r
      else case broker_verdict port r of
        None \<Rightarrow> r
      | Some (d, q) \<Rightarrow> rec_update now d None q 0 None r)"

text \<open>
  The abstract store: a map from intent ids to records, with one clause per operation. A broker
  port is safe when the exceptions of its status query are among those the loop catches.
\<close>

fun durable_spec :: "durable_op \<Rightarrow> (string \<rightharpoonup> durable_rec) \<Rightarrow> (string \<rightharpoonup> durable_rec)" where
  "durable_spec (Save up r) m = (if up then m(er_intent_id r \<mapsto> r) else m)"
| "durable_spec (Update up now i st bid fq ap rr) m =
     (if up then m(i := map_option (rec_update now st bid fq ap rr) (m i)) else m)"
| "durable_spec (Retry up now i) m =
     (if up then m(i := map_option (\<lambda>r. r\<lparr>er_retry_count := er_retry_count r + 1, er_updated_at := now\<rparr>) (m i))
      else m)"
| "durable_spec (ClearInFlight up now i) m =
     (if up then m(i := map_option (rec_update now DS_FAILED None 0 0 (Some ''Cleared for retry'')) (m i)) else m)"
| "durable_spec (Cleanup up now h) m =
     (if up then (\<lambda>i. case m i of None \<Rightarrow> None
        | Some r \<Rightarrow> if rec_terminal r \<and> er_updated_at r < now - of_int h * 3600 then None else Some r)
      else m)"
| "durable_spec (ReconcileBroker up upw port now) m =
     (if up then map_option (reconciled upw port now) \<circ> m else m)"

definition port_safe :: "status_port \<Rightarrow> bool" where
  "port_safe port \<longleftrightarrow> (\<forall>query bid e. port = Some query \<longrightarrow> query bid = Inl e \<longrightarrow>
     caught [DatabaseError, SqliteError, OSError, ConnectionError] e)"

fun op_safe :: "durable_op \<Rightarrow> bool" where
  "op_safe (ReconcileBroker _ _ port _) = port_safe port"
| "op_safe _ = True"

section \<open>Rows and records\<close>

lemma durable_of_value_value [simp]: "durable_of_value (durable_value s) = Some s"
  by (cases s) (simp_all add: durable_of_value_def all_durable_states_def)

lemma durable_of_valueD: "durable_of_value v = Some s \<Longrightarrow> durable_value s = v"
  by (auto simp: durable_of_value_def find_Some_iff)

lemma durable_value_inject: "durable_value s = durable_value s' \<longleftrightarrow> s = s'"
  by (metis durable_of_value_value option.inject)

lemma row_to_record_of [simp]: "row_to_record (record_to_row r) = Inr r"
  by (simp add: row_to_record_def record_to_row_def)

lemma record_to_row_inject [simp]: "record_to_row r = record_to_row r' \<longleftrightarrow> r = r'"
  by (metis row_to_record_of sum.inject(2))

lemma record_to_row_sel [simp]:
  "er_intent_id (record_to_row r) = er_intent_id r"
  "er_state (record_to_row r) = durable_value (er_state r)"
  "er_updated_at (record_to_row r) = At (er_updated_at r)"
  by (simp_all add: record_to_row_def)

lemma row_ok_record [simp]: "row_ok (record_to_row r)"
  by (simp add: row_ok_def record_to_row_def)

lemma row_okE:
  assumes "row_ok row"
  obtains r where "row = record_to_row r"
proof -
  from assms obtain st c u where
      st: "durable_of_value (er_state row) = Some st" and
      c: "er_created_at row = At c" and u: "er_updated_at row = At u"
    by (auto simp: row_ok_def)
  define r :: durable_rec where "r = \<lparr>
     er_intent_id = er_intent_id row, er_client_order_id = er_client_order_id row,
     er_symbol = er_symbol row, er_direction = er_direction row, er_quantity = er_quantity row,
     er_strike_price = er_strike_price row, er_state = st,
     er_broker_order_id = er_broker_order_id row, er_filled_quantity = er_filled_quantity row,
     er_average_price = er_average_price row, er_reject_reason = er_reject_reason row,
     er_created_at = c, er_updated_at = u, er_retry_count = er_retry_count row\<rparr>"
  have "row = record_to_row r"
    using durable_of_valueD [OF st] c u by (simp add: r_def record_to_row_def)
  then show thesis by (rule that)
qed

lemma row_terminal_record [simp]: "row_terminal (record_to_row r) \<longleftrightarrow> rec_terminal r"
  by (auto simp: row_terminal_def rec_terminal_def durable_value_inject)

lemma update_row_record [simp]:
  "update_row now st bid fq ap rr (record_to_row r) = record_to_row (rec_update now st bid fq ap rr r)"
  by (simp add: update_row_def rec_update_def record_to_row_def)

lemma update_row_id [simp]: "er_intent_id (update_row now st bid fq ap rr row) = er_intent_id row"
  by (simp add: update_row_def)

lemma rec_update_sel [simp]:
  "er_intent_id (rec_update now st bid fq ap rr r) = er_intent_id r"
  "er_state (rec_update now st bid fq ap rr r) = st"
  by (simp_all add: rec_update_def)

lemma update_columns_allowed [simp]:
  "list_all (\<lambda>c. c \<in> set allowed_update_cols) (update_columns bid fq ap rr)"
  by (simp add: update_columns_def allowed_update_cols_def)

lemma update_state_eq:
  "update_state up now i st bid fq ap rr t =
     (if up then (tbl_update (\<lambda>row. er_intent_id row = i) (update_row now st bid fq ap rr) t, True)
      else (t, False))"
  by (simp add: update_state_def)

section \<open>The invariant\<close>

lemma exec_table_ok_Nil [simp]: "exec_table_ok []"
  by (simp add: exec_table_ok_def)

lemma save_execution_ok: "exec_table_ok t \<Longrightarrow> exec_table_ok (fst (save_execution up r t))"
  by (auto simp: exec_table_ok_def save_execution_def tbl_replace_def tbl_ok_def distinct_map_filter)

lemma tbl_update_table_ok:
  assumes "exec_table_ok t" and "\<And>row. er_intent_id (f row) = er_intent_id row"
    and "\<And>row. row_ok row \<Longrightarrow> row_ok (f row)"
  shows "exec_table_ok (tbl_update P f t)"
  using assms by (auto simp: exec_table_ok_def tbl_ok_update) (auto simp: tbl_update_def)

lemma row_ok_update_row: "row_ok row \<Longrightarrow> row_ok (update_row now st bid fq ap rr row)"
  by (auto simp: row_ok_def update_row_def)

lemma update_state_ok: "exec_table_ok t \<Longrightarrow> exec_table_ok (fst (update_state up now i st bid fq ap rr t))"
  by (simp add: update_state_eq tbl_update_table_ok row_ok_update_row)

lemma increment_retry_ok: "exec_table_ok t \<Longrightarrow> exec_table_ok (fst (increment_retry up now i t))"
  by (auto simp: increment_retry_def Let_def row_ok_def intro!: tbl_update_table_ok)

lemma cleanup_ok: "exec_table_ok t \<Longrightarrow> exec_table_ok (fst (cleanup_old_records up now h t))"
  by (auto simp: exec_table_ok_def cleanup_old_records_def Let_def) (auto simp: tbl_delete_def)

lemma reconcile_one_ok:
  "exec_table_ok (fst s) \<Longrightarrow> exec_table_ok (fst (snd (reconcile_one upw port now r s)))"
  by (cases s) (auto simp: reconcile_one_def update_state_ok split: option.splits sum.splits)

lemma reconcile_ok: "exec_table_ok t \<Longrightarrow> exec_table_ok (snd (reconcile_with_broker up upw port now t))"
proof -
  assume ok: "exec_table_ok t"
  show ?thesis
  proof (cases "get_non_terminal_executions up t")
    case (Inl e)
    with ok show ?thesis by (simp add: reconcile_with_broker_def)
  next
    case (Inr rs)
    let ?c = "\<lparr>rc_checked = int (length rs), rc_filled = 0, rc_still_pending = 0, rc_unknown = 0, rc_repaired = 0\<rparr>"
    have "exec_table_ok (fst (snd (for_each (reconcile_one upw port now) rs (t, ?c))))"
      by (rule for_each_inv [where I = "\<lambda>s. exec_table_ok (fst s)"]) (simp_all add: ok reconcile_one_ok)
    with Inr show ?thesis
      by (auto simp: reconcile_with_broker_def split: option.splits prod.splits)
  qed
qed

lemma durable_step_ok: "exec_table_ok t \<Longrightarrow> exec_table_ok (durable_step x t)"
  by (cases x)
     (simp_all add: save_execution_ok update_state_ok increment_retry_ok cleanup_ok reconcile_ok
        durable_clear_in_flight_def)

interpretation durable: op_system durable_step exec_table_ok
  by unfold_locales (rule durable_step_ok)

section \<open>The abstract store\<close>

lemma exec_table_ok_get:
  assumes "exec_table_ok t" and "tbl_get er_intent_id i t = Some row"
  obtains r where "row = record_to_row r" and "er_intent_id r = i"
proof -
  from assms have "row_ok row" and "er_intent_id row = i"
    by (auto simp: exec_table_ok_def dest: tbl_get_key)
  then show thesis by (metis row_okE record_to_row_sel(1) that)
qed

lemma durable_map_id: "exec_table_ok t \<Longrightarrow> durable_map t i = Some r \<Longrightarrow> er_intent_id r = i"
  by (auto simp: durable_map_def split: option.splits elim!: exec_table_ok_get)

lemma durable_map_tbl:
  "exec_table_ok t \<Longrightarrow> durable_map t i = Some r \<longleftrightarrow> tbl_get er_intent_id i t = Some (record_to_row r)"
  by (auto simp: durable_map_def split: option.splits elim!: exec_table_ok_get)

lemma durable_map_None: "exec_table_ok t \<Longrightarrow> durable_map t i = None \<longleftrightarrow> tbl_get er_intent_id i t = None"
  by (auto simp: durable_map_def split: option.splits elim!: exec_table_ok_get)

lemma get_execution_map: "exec_table_ok t \<Longrightarrow> get_execution True i t = Inr (durable_map t i)"
  by (auto simp: get_execution_def durable_map_def split: option.splits elim!: exec_table_ok_get)

lemma durable_map_save:
  "durable_map (fst (save_execution True r t)) = (durable_map t)(er_intent_id r \<mapsto> r)"
  by (auto simp: durable_map_def save_execution_def tbl_get_replace fun_eq_iff)

lemma durable_map_update:
  assumes "exec_table_ok t"
  shows "durable_map (fst (update_state True now i st bid fq ap rr t)) =
    (durable_map t)(i := map_option (rec_update now st bid fq ap rr) (durable_map t i))"
proof
  fix j
  have get: "tbl_get er_intent_id j (fst (update_state True now i st bid fq ap rr t)) =
     map_option (\<lambda>row. if er_intent_id row = i then update_row now st bid fq ap rr row else row)
       (tbl_get er_intent_id j t)"
    by (simp add: update_state_eq tbl_get_update)
  show "durable_map (fst (update_state True now i st bid fq ap rr t)) j =
    ((durable_map t)(i := map_option (rec_update now st bid fq ap rr) (durable_map t i))) j"
  proof (cases "tbl_get er_intent_id j t")
    case None
    with get show ?thesis by (auto simp: durable_map_def)
  next
    case (Some row)
    with assms obtain r where "row = record_to_row r" "er_intent_id r = j"
      by (rule exec_table_ok_get)
    with Some get show ?thesis by (auto simp: durable_map_def)
  qed
qed

lemma durable_is_duplicate_map:
  "exec_table_ok t \<Longrightarrow> durable_is_duplicate True i t =
     Inr (case durable_map t i of None \<Rightarrow> False | Some r \<Rightarrow> \<not> rec_terminal r)"
  by (simp add: durable_is_duplicate_def get_execution_map rec_terminal_def split: option.splits)

section \<open>Crash recovery and reconciliation\<close>

lemma non_terminal_list:
  assumes "exec_table_ok t"
  shows "\<exists>rs. get_non_terminal_executions True t = Inr rs
    \<and> distinct (map er_intent_id rs) \<and> sorted (map er_updated_at rs)
    \<and> (\<forall>r. r \<in> set rs \<longleftrightarrow> durable_map t (er_intent_id r) = Some r \<and> \<not> rec_terminal r)"
proof -
  define rows where "rows = sort_key (\<lambda>row. stamp_time (er_updated_at row)) (filter (\<lambda>row. \<not> row_terminal row) t)"
  define parse where "parse row = (case row_to_record row of Inr r \<Rightarrow> r)" for row :: exec_row
  have member: "row \<in> set rows \<longleftrightarrow> row \<in> set t \<and> \<not> row_terminal row" for row
    by (simp add: rows_def)
  have parse_rec [simp]: "parse (record_to_row r) = r" for r by (simp add: parse_def)
  have row: "row = record_to_row (parse row)" if "row \<in> set rows" for row
    using that assms unfolding member exec_table_ok_def by (metis parse_rec row_okE)
  have rec: "row_to_record r = Inr (parse r)" if "r \<in> set rows" for r
    by (metis that row row_to_record_of)
  have eq: "get_non_terminal_executions True t = Inr (map parse rows)"
    using res_map_Inr [of rows row_to_record parse] rec
    by (simp add: get_non_terminal_executions_def rows_def)
  have ids: "map (er_intent_id \<circ> parse) rows = map er_intent_id rows"
    by (rule map_cong) (simp, metis comp_apply record_to_row_sel(1) row)
  have distinct_rows: "distinct (map er_intent_id rows)"
    using assms by (simp add: rows_def exec_table_ok_def tbl_ok_def distinct_map_filter
        distinct_map inj_on_def)
  have times: "map (er_updated_at \<circ> parse) rows = map (\<lambda>row. stamp_time (er_updated_at row)) rows"
    by (rule map_cong) (simp, metis comp_apply record_to_row_sel(3) row stamp.simps(5) stamp_time_def)
  have sorted_rows: "sorted (map (\<lambda>row. stamp_time (er_updated_at row)) rows)"
    by (simp add: rows_def)
  have "r \<in> set (map parse rows) \<longleftrightarrow> record_to_row r \<in> set t \<and> \<not> rec_terminal r" for r
  proof
    assume "r \<in> set (map parse rows)"
    then obtain x where x: "x \<in> set rows" "r = parse x" by auto
    with row have "record_to_row r \<in> set rows" by metis
    then show "record_to_row r \<in> set t \<and> \<not> rec_terminal r" by (simp add: member)
  next
    assume "record_to_row r \<in> set t \<and> \<not> rec_terminal r"
    then have "record_to_row r \<in> set rows" by (simp add: member)
    then show "r \<in> set (map parse rows)" by (metis image_eqI list.set_map parse_rec)
  qed
  moreover have "record_to_row r \<in> set t \<longleftrightarrow> durable_map t (er_intent_id r) = Some r" for r
    using assms tbl_get_member [of er_intent_id t "record_to_row r"]
    by (auto simp: durable_map_tbl exec_table_ok_def dest: tbl_get_key)
  moreover have "distinct (map er_intent_id (map parse rows))"
    by (simp only: map_map ids distinct_rows)
  moreover have "sorted (map er_updated_at (map parse rows))"
    by (simp only: map_map times sorted_rows)
  ultimately show ?thesis
    using eq by blast
qed

lemma reconcile_one_eq:
  assumes "reconcile_one upw port now r (t, c) = (None, t', c')"
  shows "t' = (case broker_verdict port r of None \<Rightarrow> t
     | Some (d, q) \<Rightarrow> fst (update_state (upw (er_intent_id r)) now (er_intent_id r) d None q 0 None t))"
proof (cases "truthy (er_broker_order_id r)")
  case False
  with assms show ?thesis by (simp add: reconcile_one_def broker_verdict_def broker_says_def)
next
  case True
  show ?thesis
  proof (cases port)
    case None
    with True assms show ?thesis by (simp add: reconcile_one_def broker_verdict_def broker_says_def)
  next
    case (Some query)
    show ?thesis
    proof (cases "query (the (er_broker_order_id r))")
      case (Inl e)
      with True Some assms show ?thesis
        by (simp add: reconcile_one_def broker_verdict_def broker_says_def split: if_splits)
    next
      case (Inr status)
      with True Some assms show ?thesis
        by (auto simp: reconcile_one_def broker_verdict_def broker_says_def split: if_splits)
    qed
  qed
qed

lemma reconcile_one_map:
  assumes "exec_table_ok t" and "durable_map t (er_intent_id r) = Some r" and "\<not> rec_terminal r"
    and "reconcile_one upw port now r (t, c) = (None, t', c')"
  shows "durable_map t' = (durable_map t)(er_intent_id r \<mapsto> reconciled upw port now r)"
proof -
  have upd: "durable_map (fst (update_state (upw (er_intent_id r)) now (er_intent_id r) d None q 0 None t)) =
      (durable_map t)(er_intent_id r \<mapsto> (if upw (er_intent_id r) then rec_update now d None q 0 None r else r))"
    for d q
    using durable_map_update [OF assms(1)] assms(2) by (simp add: update_state_eq fun_upd_idem)
  show ?thesis
  proof (cases "broker_verdict port r")
    case None
    with reconcile_one_eq [OF assms(4)] assms(2) show ?thesis
      by (simp add: reconciled_def fun_upd_idem)
  next
    case (Some dq)
    obtain d q where dq: "dq = (d, q)" by (cases dq)
    have "t' = fst (update_state (upw (er_intent_id r)) now (er_intent_id r) d None q 0 None t)"
      using reconcile_one_eq [OF assms(4)] Some dq by simp
    then show ?thesis using upd [of d q] Some dq assms(3) by (simp add: reconciled_def)
  qed
qed

lemma reconcile_loop_map:
  assumes "exec_table_ok t" and "distinct (map er_intent_id rs)"
    and "\<And>r. r \<in> set rs \<Longrightarrow> durable_map t (er_intent_id r) = Some r \<and> \<not> rec_terminal r"
    and "for_each (reconcile_one upw port now) rs (t, c) = (None, t', c')"
  shows "durable_map t' i =
    (case durable_map t i of None \<Rightarrow> None
     | Some r \<Rightarrow> Some (if r \<in> set rs then reconciled upw port now r else r))"
  using assms
proof (induction rs arbitrary: t c)
  case Nil
  then show ?case by (simp split: option.splits)
next
  case (Cons r rs)
  obtain e t1 c1 where one: "reconcile_one upw port now r (t, c) = (e, t1, c1)"
    by (cases "reconcile_one upw port now r (t, c)")
  with Cons.prems(4) have e: "e = None" by (cases e) simp_all
  have r: "durable_map t (er_intent_id r) = Some r" "\<not> rec_terminal r"
    using Cons.prems(3) by simp_all
  have ok1: "exec_table_ok t1"
    using reconcile_one_ok [of "(t, c)" upw port now r] Cons.prems(1) one by simp
  have map1: "durable_map t1 = (durable_map t)(er_intent_id r \<mapsto> reconciled upw port now r)"
    using reconcile_one_map [OF Cons.prems(1) r] one e by blast
  have rest: "durable_map t1 (er_intent_id q) = Some q \<and> \<not> rec_terminal q" if "q \<in> set rs" for q
    using that Cons.prems(2,3) map1 by (auto simp: rev_image_eqI)
  have "durable_map t' i = (case durable_map t1 i of None \<Rightarrow> None
     | Some q \<Rightarrow> Some (if q \<in> set rs then reconciled upw port now q else q))"
    using Cons.prems(2,4) one e by (intro Cons.IH [OF ok1 _ rest]) simp_all
  moreover have "reconciled upw port now r \<notin> set rs"
    using Cons.prems(2) by (auto simp: reconciled_def rev_image_eqI split: if_splits option.splits)
  ultimately have fin: "durable_map t' i = (case durable_map t1 i of None \<Rightarrow> None
     | Some q \<Rightarrow> Some (if q \<in> set rs then reconciled upw port now q else q))"
    and notin: "reconciled upw port now r \<notin> set rs" by simp_all
  show ?case
  proof (cases "i = er_intent_id r")
    case True
    with fin notin map1 r show ?thesis by simp
  next
    case False
    then have "q \<noteq> r" if "durable_map t i = Some q" for q
      using durable_map_id [OF Cons.prems(1) that] by blast
    with fin map1 False show ?thesis by (simp split: option.splits)
  qed
qed

lemma reconcile_refines:
  assumes "exec_table_ok t" and "reconcile_with_broker True upw port now t = (Inr c, t')"
  shows "durable_map t' = map_option (reconciled upw port now) \<circ> durable_map t"
proof
  fix i
  obtain rs where rs: "get_non_terminal_executions True t = Inr rs" "distinct (map er_intent_id rs)"
      "\<And>r. r \<in> set rs \<longleftrightarrow> durable_map t (er_intent_id r) = Some r \<and> \<not> rec_terminal r"
    using non_terminal_list [OF assms(1)] by blast
  let ?c = "\<lparr>rc_checked = int (length rs), rc_filled = 0, rc_still_pending = 0, rc_unknown = 0, rc_repaired = 0\<rparr>"
  from assms(2) rs(1) have loop: "for_each (reconcile_one upw port now) rs (t, ?c) = (None, t', c)"
    by (auto simp: reconcile_with_broker_def split: option.splits prod.splits)
  have "durable_map t' i = (case durable_map t i of None \<Rightarrow> None
      | Some r \<Rightarrow> Some (if r \<in> set rs then reconciled upw port now r else r))"
    by (rule reconcile_loop_map [OF assms(1) rs(2) _ loop]) (simp add: rs(3))
  moreover have "r \<in> set rs \<or> reconciled upw port now r = r" if "durable_map t i = Some r" for r
    using that durable_map_id [OF assms(1) that] by (auto simp: rs(3) reconciled_def)
  ultimately show "durable_map t' i = (map_option (reconciled upw port now) \<circ> durable_map t) i"
    by (auto split: option.splits)
qed

lemma reconcile_one_safe: "port_safe port \<Longrightarrow> fst (reconcile_one upw port now r s) = None"
  by (cases s) (auto simp: reconcile_one_def port_safe_def split: option.splits sum.splits)

lemma reconcile_safe:
  assumes "exec_table_ok t" and "port_safe port"
  shows "\<exists>c. fst (reconcile_with_broker True upw port now t) = Inr c"
proof -
  obtain rs where rs: "get_non_terminal_executions True t = Inr rs"
    using non_terminal_list [OF assms(1)] by blast
  have "fst (for_each (reconcile_one upw port now) rs s) = None" for s
    by (simp add: for_each_no_raise reconcile_one_safe assms(2))
  with rs show ?thesis
    by (auto simp: reconcile_with_broker_def split: option.splits prod.splits) (metis fst_conv option.distinct(1))+
qed

lemma reconcile_down: "reconcile_with_broker False upw port now t =
    (Inr \<lparr>rc_checked = 0, rc_filled = 0, rc_still_pending = 0, rc_unknown = 0, rc_repaired = 0\<rparr>, t)"
  by (simp add: reconcile_with_broker_def get_non_terminal_executions_def)

lemma durable_map_retry:
  assumes "exec_table_ok t"
  shows "durable_map (fst (increment_retry True now i t)) =
    (durable_map t)(i := map_option (\<lambda>r. r\<lparr>er_retry_count := er_retry_count r + 1, er_updated_at := now\<rparr>) (durable_map t i))"
proof
  fix j
  let ?f = "\<lambda>row. row\<lparr>er_retry_count := er_retry_count row + 1, er_updated_at := At now\<rparr>"
  have rec: "?f (record_to_row r) = record_to_row (r\<lparr>er_retry_count := er_retry_count r + 1, er_updated_at := now\<rparr>)" for r
    by (simp add: record_to_row_def)
  have get: "tbl_get er_intent_id j (fst (increment_retry True now i t)) =
      map_option (\<lambda>row. if er_intent_id row = i then ?f row else row) (tbl_get er_intent_id j t)"
    by (simp add: increment_retry_def Let_def tbl_get_update)
  show "durable_map (fst (increment_retry True now i t)) j =
    ((durable_map t)(i := map_option (\<lambda>r. r\<lparr>er_retry_count := er_retry_count r + 1, er_updated_at := now\<rparr>) (durable_map t i))) j"
  proof (cases "tbl_get er_intent_id j t")
    case None
    with get show ?thesis by (auto simp: durable_map_def)
  next
    case (Some row)
    with assms obtain r where "row = record_to_row r" "er_intent_id r = j"
      by (rule exec_table_ok_get)
    with Some get rec show ?thesis by (auto simp: durable_map_def)
  qed
qed

lemma tbl_get_delete:
  "tbl_ok key t \<Longrightarrow> tbl_get key k (tbl_delete P t) =
     (case tbl_get key k t of None \<Rightarrow> None | Some r \<Rightarrow> if P r then None else Some r)"
proof (induction t)
  case Nil
  then show ?case by (simp add: tbl_get_def tbl_delete_def)
next
  case (Cons x t)
  then have ih: "tbl_get key k (tbl_delete P t) =
     (case tbl_get key k t of None \<Rightarrow> None | Some r \<Rightarrow> if P r then None else Some r)"
    by (simp add: tbl_ok_def)
  have "tbl_get key k t = None" if "key x = k"
    using Cons.prems that by (auto simp: tbl_ok_def tbl_get_None rev_image_eqI)
  with ih show ?case by (auto simp: tbl_get_def tbl_delete_def)
qed

lemma durable_map_cleanup:
  assumes "exec_table_ok t"
  shows "durable_map (fst (cleanup_old_records True now h t)) = (\<lambda>i. case durable_map t i of None \<Rightarrow> None
     | Some r \<Rightarrow> if rec_terminal r \<and> er_updated_at r < now - of_int h * 3600 then None else Some r)"
proof
  fix i
  have get: "tbl_get er_intent_id i (fst (cleanup_old_records True now h t)) =
      (case tbl_get er_intent_id i t of None \<Rightarrow> None
       | Some row \<Rightarrow> if row_terminal row \<and> stamp_time (er_updated_at row) < now - of_int h * 3600 then None else Some row)"
    using assms by (simp add: cleanup_old_records_def Let_def exec_table_ok_def tbl_get_delete)
  show "durable_map (fst (cleanup_old_records True now h t)) i = (case durable_map t i of None \<Rightarrow> None
     | Some r \<Rightarrow> if rec_terminal r \<and> er_updated_at r < now - of_int h * 3600 then None else Some r)"
  proof (cases "tbl_get er_intent_id i t")
    case None
    with get show ?thesis by (simp add: durable_map_def)
  next
    case (Some row)
    with assms obtain r where "row = record_to_row r" by (rule exec_table_ok_get)
    with Some get show ?thesis by (simp add: durable_map_def stamp_time_def)
  qed
qed

lemma durable_step_refines:
  assumes "exec_table_ok t" and "op_safe op"
  shows "durable_map (durable_step op t) = durable_spec op (durable_map t)"
proof (cases op)
  case (Save up r)
  then show ?thesis by (cases up) (simp_all add: durable_map_save, simp add: save_execution_def)
next
  case (Update up now i st bid fq ap rr)
  then show ?thesis
    by (cases up) (simp_all add: durable_map_update [OF assms(1)], simp add: update_state_eq)
next
  case (Retry up now i)
  then show ?thesis
    by (cases up) (simp_all add: durable_map_retry [OF assms(1)], simp add: increment_retry_def)
next
  case (ClearInFlight up now i)
  then show ?thesis
    by (cases up) (simp_all add: durable_clear_in_flight_def durable_map_update [OF assms(1)],
        simp add: update_state_eq)
next
  case (Cleanup up now h)
  then show ?thesis
    by (cases up) (simp_all add: durable_map_cleanup [OF assms(1)], simp add: cleanup_old_records_def)
next
  case (ReconcileBroker up upw port now)
  show ?thesis
  proof (cases up)
    case True
    from ReconcileBroker assms have "port_safe port" by simp
    then obtain c t' where "reconcile_with_broker True upw port now t = (Inr c, t')"
      using reconcile_safe [OF assms(1)] by (metis prod.collapse)
    with reconcile_refines [OF assms(1)] True ReconcileBroker show ?thesis by simp
  next
    case False
    with ReconcileBroker show ?thesis by (simp add: reconcile_down)
  qed
qed

lemma durable_run_refines:
  "exec_table_ok t \<Longrightarrow> list_all op_safe ops \<Longrightarrow>
     durable_map (fold durable_step ops t) = fold durable_spec ops (durable_map t)"
  by (induction ops arbitrary: t) (simp_all add: durable_step_refines durable_step_ok)

lemma durable_map_Nil [simp]: "durable_map [] = Map.empty"
  by (auto simp: durable_map_def tbl_get_def)

section \<open>Properties\<close>


definition sample_record :: "string \<Rightarrow> durable_state \<Rightarrow> durable_rec" where
  "sample_record i st = \<lparr>er_intent_id = i, er_client_order_id = ''OPB'', er_symbol = ''NIFTY'',
     er_direction = ''BUY'', er_quantity = 50, er_strike_price = 200, er_state = st,
     er_broker_order_id = Some ''B1'', er_filled_quantity = 0, er_average_price = 0,
     er_reject_reason = None, er_created_at = 1, er_updated_at = 1, er_retry_count = 0\<rparr>"


text \<open>
  Crash recovery misses nothing and adds nothing: on a table any operations have produced,
  \<open>get_non_terminal_executions\<close> returns the stored records that are not terminal, each once, oldest
  update first.
\<close>

lemma recovery_listing_exact:
  "\<exists>rs. get_non_terminal_executions True (fold durable_step ops []) = Inr rs
    \<and> distinct (map er_intent_id rs) \<and> sorted (map er_updated_at rs)
    \<and> (\<forall>r. r \<in> set rs \<longleftrightarrow>
          get_execution True (er_intent_id r) (fold durable_step ops []) = Inr (Some r) \<and> \<not> rec_terminal r)"
  using non_terminal_list [OF durable.run_inv [OF exec_table_ok_Nil, of ops]]
  by (simp add: get_execution_map [OF durable.run_inv [OF exec_table_ok_Nil]])

text \<open>
  Reconciliation with the broker changes exactly what the broker settles: with a port whose
  failures are the caught ones it always returns its counters, terminal records and records the
  broker has no final status for keep every field, and a record it reports filled, cancelled or
  rejected takes that state (with its whole quantity filled in the first case).
\<close>

lemma reconcile_with_broker_exact:
  assumes "exec_table_ok t" and "port_safe port"
  shows "\<exists>c t'. reconcile_with_broker True upw port now t = (Inr c, t')
    \<and> (\<forall>i. get_execution True i t' =
          res_bind (get_execution True i t) (\<lambda>r. Inr (map_option (reconciled upw port now) r)))"
proof -
  obtain c t' where r: "reconcile_with_broker True upw port now t = (Inr c, t')"
    using reconcile_safe [OF assms] by (metis prod.collapse)
  moreover have "exec_table_ok t'" using reconcile_ok [OF assms(1), of True upw port now] r by simp
  ultimately show ?thesis
    using reconcile_refines [OF assms(1) r] by (simp add: get_execution_map assms(1))
qed

end
