(* ===== verification/State_Machine.thy ===== *)
theory State_Machine
  imports Durable_State
begin

text \<open>
  The deterministic execution state machine and its manager,
  \<open>core/execution/deterministic_state_machine.py\<close>.

  A machine is the record \<open>esm\<close>; its optional persistence hook is a function that receives the
  machine after its state is set, acts on a world of type \<open>'w\<close> (for the execution service: the
  durable table) and may raise. \<open>m_hook\<close> says whether the machine has a hook; the hook itself is
  the argument \<open>hk\<close> of the operations. An operation returns its result, or the exception the hook
  raised and the code does not catch, together with the new machine and world.
\<close>

section \<open>Definitions\<close>

datatype xstate =
    XS_INIT | XS_PENDING_SUBMISSION | XS_VALIDATED | XS_PERSISTED | XS_SUBMITTED | XS_ACKNOWLEDGED
  | XS_PARTIAL_FILL | XS_FILLED | XS_REJECTED | XS_CANCEL_PENDING | XS_CANCELLED | XS_FAILED
  | XS_UNKNOWN | XS_RECONCILING

fun xstate_value :: "xstate \<Rightarrow> string" where
  "xstate_value XS_INIT = ''INIT''"
| "xstate_value XS_PENDING_SUBMISSION = ''PENDING_SUBMISSION''"
| "xstate_value XS_VALIDATED = ''VALIDATED''"
| "xstate_value XS_PERSISTED = ''PERSISTED''"
| "xstate_value XS_SUBMITTED = ''SUBMITTED''"
| "xstate_value XS_ACKNOWLEDGED = ''ACKNOWLEDGED''"
| "xstate_value XS_PARTIAL_FILL = ''PARTIAL_FILL''"
| "xstate_value XS_FILLED = ''FILLED''"
| "xstate_value XS_REJECTED = ''REJECTED''"
| "xstate_value XS_CANCEL_PENDING = ''CANCEL_PENDING''"
| "xstate_value XS_CANCELLED = ''CANCELLED''"
| "xstate_value XS_FAILED = ''FAILED''"
| "xstate_value XS_UNKNOWN = ''UNKNOWN''"
| "xstate_value XS_RECONCILING = ''RECONCILING''"

datatype transition_result = TR_SUCCESS | TR_INVALID_TRANSITION | TR_ALREADY_IN_STATE | TR_PERSISTENCE_FAILED

fun valid_transitions :: "xstate \<Rightarrow> xstate list" where
  "valid_transitions XS_INIT = [XS_VALIDATED, XS_FAILED]"
| "valid_transitions XS_PENDING_SUBMISSION = [XS_VALIDATED, XS_FAILED, XS_UNKNOWN]"
| "valid_transitions XS_VALIDATED = [XS_PERSISTED, XS_FAILED]"
| "valid_transitions XS_PERSISTED = [XS_SUBMITTED, XS_FAILED]"
| "valid_transitions XS_SUBMITTED = [XS_ACKNOWLEDGED, XS_REJECTED, XS_FAILED, XS_UNKNOWN]"
| "valid_transitions XS_ACKNOWLEDGED = [XS_PARTIAL_FILL, XS_FILLED, XS_CANCEL_PENDING, XS_FAILED, XS_UNKNOWN]"
| "valid_transitions XS_PARTIAL_FILL = [XS_PARTIAL_FILL, XS_FILLED, XS_CANCEL_PENDING, XS_FAILED, XS_UNKNOWN]"
| "valid_transitions XS_CANCEL_PENDING = [XS_CANCELLED, XS_FILLED, XS_FAILED]"
| "valid_transitions XS_FILLED = []"
| "valid_transitions XS_REJECTED = []"
| "valid_transitions XS_CANCELLED = []"
| "valid_transitions XS_FAILED = []"
| "valid_transitions XS_UNKNOWN = [XS_RECONCILING]"
| "valid_transitions XS_RECONCILING = [XS_FILLED, XS_CANCELLED, XS_FAILED, XS_UNKNOWN]"

record esm =
  m_intent_id :: string
  m_client_order_id :: string
  m_symbol :: string
  m_quantity :: int
  m_price :: real
  m_direction :: string
  m_state :: xstate
  m_broker_order_id :: "string option"
  m_filled_quantity :: int
  m_average_price :: real
  m_error_message :: "string option"
  m_created_at :: stamp
  m_updated_at :: stamp
  m_submitted_at :: "stamp option"
  m_acknowledged_at :: "stamp option"
  m_filled_at :: "stamp option"
  m_hook :: bool

type_synonym 'w hook = "esm \<Rightarrow> 'w \<Rightarrow> exn option \<times> 'w"

text \<open>The constructor call with the dataclass defaults.\<close>

definition new_esm :: "real \<Rightarrow> string \<Rightarrow> string \<Rightarrow> string \<Rightarrow> int \<Rightarrow> real \<Rightarrow> string \<Rightarrow> bool \<Rightarrow> esm" where
  "new_esm now intent client symb qty price dir hook = \<lparr>
     m_intent_id = intent, m_client_order_id = client, m_symbol = symb, m_quantity = qty,
     m_price = price, m_direction = dir, m_state = XS_INIT, m_broker_order_id = None,
     m_filled_quantity = 0, m_average_price = 0, m_error_message = None,
     m_created_at = format_ts now, m_updated_at = format_ts now,
     m_submitted_at = None, m_acknowledged_at = None, m_filled_at = None, m_hook = hook\<rparr>"

definition persisted_on :: "xstate list" where
  "persisted_on = [XS_PERSISTED, XS_SUBMITTED, XS_ACKNOWLEDGED, XS_FILLED, XS_FAILED]"

definition hook_caught :: "exn_class list" where
  "hook_caught = [KeyError, ValueError, TypeError, OSError, RuntimeError]"

definition validate_transition ::
    "'w hook \<Rightarrow> real \<Rightarrow> xstate \<Rightarrow> esm \<times> 'w \<Rightarrow> (exn + transition_result \<times> string) \<times> esm \<times> 'w" where
  "validate_transition hk now new = (\<lambda>(m, w).
     if new = m_state m
     then (Inr (TR_ALREADY_IN_STATE, ''Already in state '' @ xstate_value (m_state m)), m, w)
     else if new \<notin> set (valid_transitions (m_state m))
     then (Inr (TR_INVALID_TRANSITION, ''Cannot transition from '' @ xstate_value (m_state m)
                 @ '' to '' @ xstate_value new), m, w)
     else
       let old = m_state m; m1 = m\<lparr>m_state := new\<rparr>;
           fin = (\<lambda>w'. (Inr (TR_SUCCESS, ''Transitioned to '' @ xstate_value new),
                          m1\<lparr>m_updated_at := format_ts now\<rparr>, w'))
       in if m_hook m \<and> new \<in> set persisted_on
          then (case hk m1 w of
                  (None, w') \<Rightarrow> fin w'
                | (Some e, w') \<Rightarrow>
                    if caught hook_caught e
                    then (Inr (TR_PERSISTENCE_FAILED, ''Critical: '' @ exn_msg e), m1\<lparr>m_state := old\<rparr>, w')
                    else (Inl e, m1, w'))
          else fin w)"

definition try_transition_to ::
    "'w hook \<Rightarrow> real \<Rightarrow> xstate \<Rightarrow> esm \<times> 'w \<Rightarrow> (exn + bool) \<times> esm \<times> 'w" where
  "try_transition_to hk now new s =
     (case validate_transition hk now new s of
        (Inl e, s') \<Rightarrow> (Inl e, s')
      | (Inr (res, _), s') \<Rightarrow> (Inr (res = TR_SUCCESS), s'))"

definition record_submission ::
    "'w hook \<Rightarrow> real \<Rightarrow> string \<Rightarrow> esm \<times> 'w \<Rightarrow> (exn + bool) \<times> esm \<times> 'w" where
  "record_submission hk now bid = (\<lambda>(m, w).
     if m_state m \<noteq> XS_PERSISTED then (Inr False, m, w)
     else try_transition_to hk now XS_SUBMITTED
            (m\<lparr>m_broker_order_id := Some bid, m_submitted_at := Some (format_ts now)\<rparr>, w))"

definition record_acknowledgment ::
    "'w hook \<Rightarrow> real \<Rightarrow> esm \<times> 'w \<Rightarrow> (exn + bool) \<times> esm \<times> 'w" where
  "record_acknowledgment hk now = (\<lambda>(m, w).
     if m_state m = XS_SUBMITTED
     then try_transition_to hk now XS_ACKNOWLEDGED (m\<lparr>m_acknowledged_at := Some (format_ts now)\<rparr>, w)
     else (Inr False, m, w))"

text \<open>The bookkeeping \<open>record_fill\<close> does before it looks at the state.\<close>

definition add_fill :: "real \<Rightarrow> int \<Rightarrow> real \<Rightarrow> esm \<Rightarrow> esm" where
  "add_fill now qty price m =
     (let total_value = m_average_price m * of_int (m_filled_quantity m) + price * of_int qty;
          new_total_qty = m_filled_quantity m + qty
      in m\<lparr>m_average_price := (if new_total_qty > 0 then total_value / of_int new_total_qty else 0),
           m_filled_quantity := new_total_qty,
           m_filled_at := Some (format_ts now)\<rparr>)"

definition record_fill ::
    "'w hook \<Rightarrow> real \<Rightarrow> int \<Rightarrow> real \<Rightarrow> esm \<times> 'w \<Rightarrow> (exn + bool) \<times> esm \<times> 'w" where
  "record_fill hk now qty price = (\<lambda>(m, w).
     let m1 = add_fill now qty price m
     in if m_state m1 = XS_ACKNOWLEDGED then
          (if qty \<ge> m_quantity m1 then try_transition_to hk now XS_FILLED (m1, w)
           else try_transition_to hk now XS_PARTIAL_FILL (m1, w))
        else if m_state m1 = XS_PARTIAL_FILL then
          (if m_filled_quantity m1 \<ge> m_quantity m1 then try_transition_to hk now XS_FILLED (m1, w)
           else (Inr True, m1, w))
        else (Inr False, m1, w))"

definition record_partial_fill ::
    "'w hook \<Rightarrow> real \<Rightarrow> int \<Rightarrow> real \<Rightarrow> esm \<times> 'w \<Rightarrow> (exn + bool) \<times> esm \<times> 'w" where
  "record_partial_fill = record_fill"

definition record_rejection ::
    "'w hook \<Rightarrow> real \<Rightarrow> string \<Rightarrow> esm \<times> 'w \<Rightarrow> (exn + bool) \<times> esm \<times> 'w" where
  "record_rejection hk now reason = (\<lambda>(m, w).
     let m1 = m\<lparr>m_error_message := Some reason\<rparr>
     in if m_state m1 = XS_SUBMITTED then try_transition_to hk now XS_REJECTED (m1, w)
        else (Inr False, m1, w))"

definition record_failure ::
    "'w hook \<Rightarrow> real \<Rightarrow> string \<Rightarrow> esm \<times> 'w \<Rightarrow> (exn + bool) \<times> esm \<times> 'w" where
  "record_failure hk now reason = (\<lambda>(m, w).
     try_transition_to hk now XS_FAILED (m\<lparr>m_error_message := Some reason\<rparr>, w))"

definition can_retry :: "esm \<Rightarrow> bool" where
  "can_retry m \<longleftrightarrow> m_state m \<in> {XS_FAILED, XS_REJECTED}"

definition terminal_states :: "xstate list" where
  "terminal_states = [XS_FILLED, XS_REJECTED, XS_CANCELLED, XS_FAILED]"

definition is_terminal :: "esm \<Rightarrow> bool" where
  "is_terminal m \<longleftrightarrow> m_state m \<in> set terminal_states"

definition is_submitted :: "esm \<Rightarrow> bool" where
  "is_submitted m \<longleftrightarrow> m_state m \<in> {XS_SUBMITTED, XS_ACKNOWLEDGED, XS_PARTIAL_FILL}"

subsection \<open>The manager\<close>

record esm_manager =
  mg_machines :: "(string, esm) dict"
  mg_hook :: bool

definition new_manager :: "bool \<Rightarrow> esm_manager" where
  "new_manager hook = \<lparr>mg_machines = [], mg_hook = hook\<rparr>"

definition generate_client_order_id :: "string \<Rightarrow> string" where
  "generate_client_order_id intent = ''OPB-'' @ intent"

text \<open>The dictionary that maps a stored state back to a machine state; \<open>UNKNOWN\<close> has no entry.\<close>

fun recovered_state :: "durable_state \<Rightarrow> xstate" where
  "recovered_state DS_PENDING = XS_PENDING_SUBMISSION"
| "recovered_state DS_SUBMITTED = XS_SUBMITTED"
| "recovered_state DS_PARTIALLY_FILLED = XS_PARTIAL_FILL"
| "recovered_state DS_FILLED = XS_FILLED"
| "recovered_state DS_CANCELLED = XS_CANCELLED"
| "recovered_state DS_REJECTED = XS_REJECTED"
| "recovered_state DS_FAILED = XS_FAILED"
| "recovered_state DS_UNKNOWN = XS_UNKNOWN"

definition recover_machine :: "real \<Rightarrow> bool \<Rightarrow> durable_rec \<Rightarrow> esm" where
  "recover_machine now hook rc =
     (new_esm now (er_intent_id rc) (''OPB-'' @ er_intent_id rc) (er_symbol rc) (er_quantity rc)
        (er_strike_price rc) (er_direction rc) hook)
     \<lparr>m_state := recovered_state (er_state rc),
      m_broker_order_id := er_broker_order_id rc,
      m_filled_quantity := er_filled_quantity rc,
      m_average_price := er_average_price rc,
      m_error_message := er_reject_reason rc\<rparr>"

fun recover_records :: "real \<Rightarrow> durable_rec list \<Rightarrow> esm_manager \<Rightarrow> int \<times> esm_manager" where
  "recover_records now [] g = (0, g)"
| "recover_records now (rc # rcs) g =
     (if map_of (mg_machines g) (''OPB-'' @ er_intent_id rc) \<noteq> None
      then recover_records now rcs g
      else
        (case recover_records now rcs
                (g\<lparr>mg_machines := dict_set (''OPB-'' @ er_intent_id rc)
                                    (recover_machine now (mg_hook g) rc) (mg_machines g)\<rparr>) of
           (n, g') \<Rightarrow> (n + 1, g')))"

text \<open>\<open>recover_from_store\<close>: no store, or what \<open>get_non_terminal_executions\<close> returned or raised.\<close>

definition recover_from_store ::
    "real \<Rightarrow> (exn + durable_rec list) option \<Rightarrow> esm_manager \<Rightarrow> (exn + int) \<times> esm_manager" where
  "recover_from_store now store g =
     (case store of
        None \<Rightarrow> (Inr 0, g)
      | Some (Inl e) \<Rightarrow>
          (if caught [KeyError, ValueError, TypeError, OSError, AttributeError, RuntimeError] e
           then (Inr 0, g) else (Inl e, g))
      | Some (Inr rcs) \<Rightarrow> (case recover_records now rcs g of (n, g') \<Rightarrow> (Inr n, g')))"

definition create_or_get ::
    "real \<Rightarrow> string \<Rightarrow> string \<Rightarrow> int \<Rightarrow> real \<Rightarrow> string \<Rightarrow> esm_manager \<Rightarrow> (esm \<times> bool) \<times> esm_manager" where
  "create_or_get now intent symb qty price dir g =
     (let cid = generate_client_order_id intent
      in case map_of (mg_machines g) cid of
           Some existing \<Rightarrow> ((existing, False), g)
         | None \<Rightarrow>
             (let m = new_esm now intent cid symb qty price dir (mg_hook g)
              in ((m, True), g\<lparr>mg_machines := dict_set cid m (mg_machines g)\<rparr>)))"

definition get_machine :: "string \<Rightarrow> esm_manager \<Rightarrow> esm option" where
  "get_machine cid g = map_of (mg_machines g) cid"

definition get_all :: "esm_manager \<Rightarrow> esm list" where
  "get_all g = dict_vals (mg_machines g)"

text \<open>\<open>created_ts\<close> of \<open>prune_terminals\<close>: 0 for an empty or unparsable stamp.\<close>

definition created_ts :: "esm \<Rightarrow> real" where
  "created_ts m = (case m_created_at m of At t \<Rightarrow> t | Junk _ \<Rightarrow> 0)"

definition prunable :: "real \<Rightarrow> real \<Rightarrow> esm \<Rightarrow> bool" where
  "prunable now_ts max_age_hours m \<longleftrightarrow>
     m_state m \<in> set terminal_states
     \<and> created_ts m > 0 \<and> now_ts - created_ts m > max_age_hours * 3600"

fun prune_keys :: "real \<Rightarrow> real \<Rightarrow> string list \<Rightarrow> esm_manager \<Rightarrow> int \<times> esm_manager" where
  "prune_keys now_ts h [] g = (0, g)"
| "prune_keys now_ts h (k # ks) g =
     (case map_of (mg_machines g) k of
        None \<Rightarrow> prune_keys now_ts h ks g
      | Some m \<Rightarrow>
          (if prunable now_ts h m
           then (case prune_keys now_ts h ks (g\<lparr>mg_machines := dict_del k (mg_machines g)\<rparr>) of
                   (n, g') \<Rightarrow> (n + 1, g'))
           else prune_keys now_ts h ks g))"

definition prune_terminals :: "real \<Rightarrow> real \<Rightarrow> esm_manager \<Rightarrow> int \<times> esm_manager" where
  "prune_terminals now_ts max_age_hours g =
     prune_keys now_ts max_age_hours (dict_keys (mg_machines g)) g"

definition with_machine ::
    "string \<Rightarrow> (esm \<times> 'w \<Rightarrow> (exn + bool) \<times> esm \<times> 'w) \<Rightarrow> esm_manager \<times> 'w
      \<Rightarrow> (exn + bool) \<times> esm_manager \<times> 'w" where
  "with_machine cid f = (\<lambda>(g, w).
     case map_of (mg_machines g) cid of
       None \<Rightarrow> (Inr False, g, w)
     | Some m \<Rightarrow>
         (case f (m, w) of (r, m', w') \<Rightarrow> (r, g\<lparr>mg_machines := dict_set cid m' (mg_machines g)\<rparr>, w')))"

definition record_broker_query_result ::
    "'w hook \<Rightarrow> real \<Rightarrow> string \<Rightarrow> string option \<Rightarrow> string \<Rightarrow> int \<Rightarrow> real \<Rightarrow> esm_manager \<times> 'w
      \<Rightarrow> (exn + bool) \<times> esm_manager \<times> 'w" where
  "record_broker_query_result hk now cid bid status qty price =
     with_machine cid (\<lambda>(m, w).
       let m1 = (if truthy bid \<and> \<not> truthy (m_broker_order_id m) then m\<lparr>m_broker_order_id := bid\<rparr> else m)
       in if status = ''FILLED'' then record_fill hk now qty price (m1, w)
          else if status = ''REJECTED'' then record_rejection hk now ''Broker rejected'' (m1, w)
          else if status = ''CANCELLED'' then try_transition_to hk now XS_CANCELLED (m1, w)
          else if m_state m1 = XS_SUBMITTED then record_acknowledgment hk now (m1, w)
          else (Inr False, m1, w))"

text \<open>The module-level singleton.\<close>

definition get_execution_state_manager ::
    "bool \<Rightarrow> esm_manager option \<Rightarrow> esm_manager \<times> esm_manager option" where
  "get_execution_state_manager hook inst =
     (case inst of None \<Rightarrow> (new_manager hook, Some (new_manager hook)) | Some g \<Rightarrow> (g, Some g))"

definition reset_execution_state_manager :: "esm_manager option \<Rightarrow> esm_manager option" where
  "reset_execution_state_manager inst = None"

subsection \<open>Runs of one machine\<close>

datatype esm_op =
    OpTransition real xstate
  | OpSubmission real string
  | OpAcknowledge real
  | OpFill real int real
  | OpReject real string
  | OpFail real string

fun esm_call :: "'w hook \<Rightarrow> esm_op \<Rightarrow> esm \<times> 'w \<Rightarrow> (exn + bool) \<times> esm \<times> 'w" where
  "esm_call hk (OpTransition now new) s = try_transition_to hk now new s"
| "esm_call hk (OpSubmission now bid) s = record_submission hk now bid s"
| "esm_call hk (OpAcknowledge now) s = record_acknowledgment hk now s"
| "esm_call hk (OpFill now qty price) s = record_fill hk now qty price s"
| "esm_call hk (OpReject now reason) s = record_rejection hk now reason s"
| "esm_call hk (OpFail now reason) s = record_failure hk now reason s"

definition esm_step :: "'w hook \<Rightarrow> esm_op \<Rightarrow> esm \<times> 'w \<Rightarrow> esm \<times> 'w" where
  "esm_step hk op s = snd (esm_call hk op s)"

text \<open>How often a run records a submission: the calls of \<open>record_submission\<close> that return \<open>True\<close>.\<close>

fun submissions :: "'w hook \<Rightarrow> esm_op list \<Rightarrow> esm \<times> 'w \<Rightarrow> nat" where
  "submissions hk [] s = 0"
| "submissions hk (op # ops) s =
     (case op of
        OpSubmission _ _ \<Rightarrow> (if fst (esm_call hk op s) = Inr True then 1 else 0)
      | _ \<Rightarrow> 0) + submissions hk ops (esm_step hk op s)"

text \<open>One legal transition, and the states an order may be in once it has been sent.\<close>

inductive xstep :: "xstate \<Rightarrow> xstate \<Rightarrow> bool" where
  xstepI: "t \<in> set (valid_transitions s) \<Longrightarrow> xstep s t"

definition unsent :: "xstate \<Rightarrow> bool" where
  "unsent s \<longleftrightarrow> s \<in> {XS_INIT, XS_PENDING_SUBMISSION, XS_VALIDATED, XS_PERSISTED}"

text \<open>Quantity and value of the fills in a run.\<close>

fun fills_qty :: "esm_op list \<Rightarrow> int" where
  "fills_qty [] = 0"
| "fills_qty (op # ops) = (case op of OpFill _ q _ \<Rightarrow> q | _ \<Rightarrow> 0) + fills_qty ops"

fun fills_value :: "esm_op list \<Rightarrow> real" where
  "fills_value [] = 0"
| "fills_value (op # ops) = (case op of OpFill _ q p \<Rightarrow> p * of_int q | _ \<Rightarrow> 0) + fills_value ops"

definition fill_value :: "esm \<Rightarrow> real" where
  "fill_value m = m_average_price m * of_int (m_filled_quantity m)"

fun pos_fill :: "esm_op \<Rightarrow> bool" where
  "pos_fill (OpFill _ q _) = (q > 0)"
| "pos_fill _ = True"

definition manager_ok :: "esm_manager \<Rightarrow> bool" where
  "manager_ok g \<longleftrightarrow> dict_ok (mg_machines g)
     \<and> (\<forall>(cid, m) \<in> set (mg_machines g). m_client_order_id m = cid
          \<and> cid = generate_client_order_id (m_intent_id m))"

section \<open>Single transitions\<close>

inductive_simps xstep_iff: "xstep s t"

lemma xstep_terminal: "s \<in> set terminal_states \<Longrightarrow> \<not> xstep s t"
  by (cases s) (auto simp: xstep_iff terminal_states_def)

lemma unsent_back: "unsent t \<Longrightarrow> xstep s t \<Longrightarrow> unsent s"
  by (cases s) (auto simp: xstep_iff unsent_def)

lemma xsteps_terminal: "xstep\<^sup>*\<^sup>* s t \<Longrightarrow> s \<in> set terminal_states \<Longrightarrow> t = s"
  by (metis converse_rtranclpE xstep_terminal)

lemma xsteps_unsent_back: "xstep\<^sup>*\<^sup>* s t \<Longrightarrow> unsent t \<Longrightarrow> unsent s"
  by (induction rule: rtranclp_induct) (auto dest: unsent_back)

text \<open>
  What a transition attempt may do to a machine: it keeps every field but the state and the time
  of the last update, and the state changes along the table only.
\<close>

definition transition_of :: "xstate \<Rightarrow> esm \<Rightarrow> esm \<Rightarrow> bool" where
  "transition_of new m m' \<longleftrightarrow>
     m' = m\<lparr>m_state := m_state m', m_updated_at := m_updated_at m'\<rparr>
     \<and> (m_state m' = m_state m \<or> m_state m' = new \<and> xstep (m_state m) new)"

lemma esm_update_same [simp]: "m\<lparr>m_state := m_state m, m_updated_at := m_updated_at m\<rparr> = (m :: esm)"
  by simp

lemma validate_transition_of:
  "validate_transition hk now new (m, w) = (r, m', w') \<Longrightarrow> transition_of new m m'"
  by (auto simp: validate_transition_def transition_of_def xstep_iff Let_def
      split: if_splits option.splits prod.splits)

lemma try_transition_of:
  "try_transition_to hk now new (m, w) = (r, m', w') \<Longrightarrow> transition_of new m m'"
  by (auto simp: try_transition_to_def split: prod.splits sum.splits dest: validate_transition_of)

lemma try_transition_True:
  "try_transition_to hk now new (m, w) = (Inr True, m', w') \<Longrightarrow> m_state m' = new \<and> xstep (m_state m) new"
  by (auto simp: try_transition_to_def validate_transition_def xstep_iff Let_def
      split: prod.splits sum.splits if_splits option.splits)

lemma transition_of_fields:
  assumes "transition_of new m m'"
  shows "m_filled_quantity m' = m_filled_quantity m" "m_average_price m' = m_average_price m"
    "m_quantity m' = m_quantity m" "m_client_order_id m' = m_client_order_id m"
    "m_intent_id m' = m_intent_id m" "m_broker_order_id m' = m_broker_order_id m"
    "m_error_message m' = m_error_message m" "m_hook m' = m_hook m"
proof -
  from assms have eq: "m' = m\<lparr>m_state := m_state m', m_updated_at := m_updated_at m'\<rparr>"
    by (simp add: transition_of_def)
  show "m_filled_quantity m' = m_filled_quantity m" by (subst eq) simp
  show "m_average_price m' = m_average_price m" by (subst eq) simp
  show "m_quantity m' = m_quantity m" by (subst eq) simp
  show "m_client_order_id m' = m_client_order_id m" by (subst eq) simp
  show "m_intent_id m' = m_intent_id m" by (subst eq) simp
  show "m_broker_order_id m' = m_broker_order_id m" by (subst eq) simp
  show "m_error_message m' = m_error_message m" by (subst eq) simp
  show "m_hook m' = m_hook m" by (subst eq) simp
qed

lemma transition_of_submitted: "transition_of new m m' \<Longrightarrow> m_submitted_at m' = m_submitted_at m"
proof -
  assume "transition_of new m m'"
  then have eq: "m' = m\<lparr>m_state := m_state m', m_updated_at := m_updated_at m'\<rparr>"
    by (simp add: transition_of_def)
  show ?thesis by (subst eq) simp
qed

lemma transition_of_state: "transition_of new m m' \<Longrightarrow> m_state m' = m_state m \<or> m_state m' = new \<and> xstep (m_state m) new"
  by (simp add: transition_of_def)

lemma add_fill_fields [simp]:
  "m_state (add_fill now q p m) = m_state m" "m_quantity (add_fill now q p m) = m_quantity m"
  "m_filled_quantity (add_fill now q p m) = m_filled_quantity m + q"
  "m_client_order_id (add_fill now q p m) = m_client_order_id m"
  "m_intent_id (add_fill now q p m) = m_intent_id m"
  "m_hook (add_fill now q p m) = m_hook m"
  by (simp_all add: add_fill_def Let_def)

lemma add_fill_value:
  "m_filled_quantity m + q > 0 \<Longrightarrow>
     m_average_price (add_fill now q p m) * of_int (m_filled_quantity m + q) =
       m_average_price m * of_int (m_filled_quantity m) + p * of_int q"
  by (simp add: add_fill_def Let_def)

text \<open>
  The normal form of every operation: a change of bookkeeping fields, then at most one transition
  attempt. Facts about all operations go through this lemma.
\<close>

definition bookkeeping :: "esm_op \<Rightarrow> esm \<Rightarrow> esm \<Rightarrow> bool" where
  "bookkeeping op m m1 \<longleftrightarrow>
     m_state m1 = m_state m \<and> m_quantity m1 = m_quantity m
     \<and> m_client_order_id m1 = m_client_order_id m \<and> m_intent_id m1 = m_intent_id m \<and> m_hook m1 = m_hook m
     \<and> (case op of
          OpFill now q p \<Rightarrow> m1 = add_fill now q p m
        | _ \<Rightarrow> m_filled_quantity m1 = m_filled_quantity m \<and> m_average_price m1 = m_average_price m)"

lemma transition_of_refl [simp, intro]: "transition_of new m m"
  by (simp add: transition_of_def)

lemma esm_call_normal:
  assumes "esm_call hk op (m, w) = (r, m', w')"
  shows "\<exists>m1 new. bookkeeping op m m1 \<and> transition_of new m1 m'"
proof (cases op)
  case (OpTransition now new)
  with assms show ?thesis by (auto simp: bookkeeping_def dest: try_transition_of)
next
  case (OpSubmission now bid)
  show ?thesis
  proof (cases "m_state m = XS_PERSISTED")
    case True
    with OpSubmission assms have "transition_of XS_SUBMITTED
        (m\<lparr>m_broker_order_id := Some bid, m_submitted_at := Some (format_ts now)\<rparr>) m'"
      by (auto simp: record_submission_def dest: try_transition_of)
    moreover have "bookkeeping op m (m\<lparr>m_broker_order_id := Some bid, m_submitted_at := Some (format_ts now)\<rparr>)"
      using OpSubmission by (simp add: bookkeeping_def)
    ultimately show ?thesis by blast
  next
    case False
    with OpSubmission assms have "m' = m" by (simp add: record_submission_def)
    moreover have "bookkeeping op m m" using OpSubmission by (simp add: bookkeeping_def)
    ultimately show ?thesis by blast
  qed
next
  case (OpAcknowledge now)
  show ?thesis
  proof (cases "m_state m = XS_SUBMITTED")
    case True
    with OpAcknowledge assms have "transition_of XS_ACKNOWLEDGED
        (m\<lparr>m_acknowledged_at := Some (format_ts now)\<rparr>) m'"
      by (auto simp: record_acknowledgment_def dest: try_transition_of)
    moreover have "bookkeeping op m (m\<lparr>m_acknowledged_at := Some (format_ts now)\<rparr>)"
      using OpAcknowledge by (simp add: bookkeeping_def)
    ultimately show ?thesis by blast
  next
    case False
    with OpAcknowledge assms have "m' = m" by (simp add: record_acknowledgment_def)
    moreover have "bookkeeping op m m" using OpAcknowledge by (simp add: bookkeeping_def)
    ultimately show ?thesis by blast
  qed
next
  case (OpFill now q p)
  then have "bookkeeping op m (add_fill now q p m)" by (simp add: bookkeeping_def)
  moreover have "\<exists>new. transition_of new (add_fill now q p m) m'"
    using OpFill assms
    by (auto simp: record_fill_def Let_def dest!: try_transition_of split: if_splits)
  ultimately show ?thesis by blast
next
  case (OpReject now reason)
  then have "bookkeeping op m (m\<lparr>m_error_message := Some reason\<rparr>)" by (simp add: bookkeeping_def)
  moreover have "\<exists>new. transition_of new (m\<lparr>m_error_message := Some reason\<rparr>) m'"
    using OpReject assms
    by (auto simp: record_rejection_def Let_def dest!: try_transition_of split: if_splits)
  ultimately show ?thesis by blast
next
  case (OpFail now reason)
  then have "bookkeeping op m (m\<lparr>m_error_message := Some reason\<rparr>)" by (simp add: bookkeeping_def)
  moreover have "transition_of XS_FAILED (m\<lparr>m_error_message := Some reason\<rparr>) m'"
    using OpFail assms by (auto simp: record_failure_def dest: try_transition_of)
  ultimately show ?thesis by blast
qed

lemma esm_step_normal: "\<exists>m1 new. bookkeeping op (fst s) m1 \<and> transition_of new m1 (fst (esm_step hk op s))"
  using esm_call_normal [of hk op "fst s" "snd s"] by (cases "esm_call hk op s") (auto simp: esm_step_def)

section \<open>Runs\<close>

lemma esm_step_xstep:
  "m_state (fst (esm_step hk op s)) = m_state (fst s) \<or> xstep (m_state (fst s)) (m_state (fst (esm_step hk op s)))"
  using esm_step_normal [of op s hk] by (auto simp: bookkeeping_def dest!: transition_of_state)

interpretation esm_run: op_order "esm_step hk" "\<lambda>_. True"
  "\<lambda>s t. xstep\<^sup>*\<^sup>* (m_state (fst s)) (m_state (fst t))" for hk :: "'w hook"
proof unfold_locales
  show "xstep\<^sup>*\<^sup>* (m_state (fst s)) (m_state (fst (esm_step hk x s)))" for x and s :: "esm \<times> 'w"
    using esm_step_xstep [of hk x s] by auto
qed (auto intro: rtranclp_trans)

lemma run_follows_table:
  "xstep\<^sup>*\<^sup>* (m_state (fst s)) (m_state (fst (fold (esm_step hk) ops s)))"
  by (rule esm_run.run_le) simp

lemma record_submission_True:
  "fst (esm_call hk (OpSubmission now bid) s) = Inr True \<Longrightarrow>
     unsent (m_state (fst s)) \<and> \<not> unsent (m_state (fst (esm_step hk (OpSubmission now bid) s)))"
proof -
  assume a: "fst (esm_call hk (OpSubmission now bid) s) = Inr True"
  obtain m w where s: "s = (m, w)" by (cases s)
  obtain m' w' where c: "record_submission hk now bid (m, w) = (Inr True, m', w')"
    using a s by (cases "record_submission hk now bid (m, w)") auto
  then have "m_state m = XS_PERSISTED" and "m_state m' = XS_SUBMITTED"
    by (auto simp: record_submission_def split: if_splits dest: try_transition_True)
  with c s show ?thesis by (simp add: esm_step_def unsent_def)
qed

lemma submissions_sent: "\<not> unsent (m_state (fst s)) \<Longrightarrow> submissions hk ops s = 0"
proof (induction ops arbitrary: s)
  case Nil
  then show ?case by simp
next
  case (Cons op ops)
  have "\<not> unsent (m_state (fst (esm_step hk op s)))"
    using Cons.prems esm_step_xstep [of hk op s] by (metis unsent_back)
  then have "submissions hk ops (esm_step hk op s) = 0" by (rule Cons.IH)
  moreover have "fst (esm_call hk op s) \<noteq> Inr True" if "op = OpSubmission now bid" for now bid
    using that Cons.prems record_submission_True by blast
  ultimately show ?case by (auto split: esm_op.split)
qed

lemma submissions_le_1: "submissions hk ops s \<le> 1"
proof (induction ops arbitrary: s)
  case Nil
  then show ?case by simp
next
  case (Cons op ops)
  show ?case
  proof (cases "(\<exists>now bid. op = OpSubmission now bid) \<and> fst (esm_call hk op s) = Inr True")
    case True
    then have "\<not> unsent (m_state (fst (esm_step hk op s)))" using record_submission_True by blast
    then show ?thesis by (auto simp: submissions_sent split: esm_op.split)
  next
    case False
    then have "submissions hk (op # ops) s = submissions hk ops (esm_step hk op s)"
      by (auto split: esm_op.split)
    then show ?thesis using Cons.IH by metis
  qed
qed

lemma fill_frame:
  assumes b: "bookkeeping op m m1" and t: "transition_of new m1 m'"
    and pos: "pos_fill op" and q0: "m_filled_quantity m \<ge> 0"
    and avg0: "m_filled_quantity m = 0 \<longrightarrow> m_average_price m = 0"
  shows "m_filled_quantity m' = m_filled_quantity m + fills_qty [op]"
    and "fill_value m' = fill_value m + fills_value [op]"
    and "m_filled_quantity m' = 0 \<longrightarrow> m_average_price m' = 0"
    and "m_filled_quantity m' \<ge> 0"
proof -
  note f = transition_of_fields(1,2) [OF t]
  show qty: "m_filled_quantity m' = m_filled_quantity m + fills_qty [op]"
    using b by (auto simp: f bookkeeping_def split: esm_op.splits)
  show val: "fill_value m' = fill_value m + fills_value [op]"
  proof (cases op)
    case (OpFill now q p)
    with pos q0 have "m_filled_quantity m + q > 0" by force
    with OpFill b add_fill_value [of m q now p] show ?thesis by (simp add: f bookkeeping_def fill_value_def)
  qed (use b in \<open>simp_all add: f bookkeeping_def fill_value_def\<close>)
  have nonneg: "fills_qty [op] \<ge> 0" using pos by (cases op) (simp_all add: less_imp_le)
  with qty q0 show "m_filled_quantity m' \<ge> 0" by linarith
  show "m_filled_quantity m' = 0 \<longrightarrow> m_average_price m' = 0"
  proof (cases op)
    case (OpFill now q p)
    with pos q0 qty show ?thesis by force
  qed (use b avg0 qty in \<open>simp_all add: f bookkeeping_def\<close>)
qed

lemma run_fills:
  assumes "list_all pos_fill ops" and "m_filled_quantity (fst s) \<ge> 0"
    and "m_filled_quantity (fst s) = 0 \<longrightarrow> m_average_price (fst s) = 0"
  shows "m_filled_quantity (fst (fold (esm_step hk) ops s)) = m_filled_quantity (fst s) + fills_qty ops
    \<and> fill_value (fst (fold (esm_step hk) ops s)) = fill_value (fst s) + fills_value ops"
  using assms
proof (induction ops arbitrary: s)
  case Nil
  then show ?case by simp
next
  case (Cons op ops)
  obtain m1 new where n: "bookkeeping op (fst s) m1" "transition_of new m1 (fst (esm_step hk op s))"
    using esm_step_normal by blast
  from Cons.prems(1) have pos: "pos_fill op" "list_all pos_fill ops" by simp_all
  note st = fill_frame [OF n pos(1) Cons.prems(2,3)]
  from Cons.IH [OF pos(2) st(4,3)] st(1,2) show ?case by simp
qed

text \<open>A machine the record operations brought to \<open>FILLED\<close> has received its whole quantity.\<close>

definition fill_inv :: "esm \<Rightarrow> bool" where
  "fill_inv m \<longleftrightarrow> m_filled_quantity m \<ge> 0 \<and> (m_state m = XS_FILLED \<longrightarrow> m_filled_quantity m \<ge> m_quantity m)"

fun reported_op :: "esm_op \<Rightarrow> bool" where
  "reported_op (OpTransition _ new) = (new \<noteq> XS_FILLED)"
| "reported_op (OpFill _ q _) = (q \<ge> 0)"
| "reported_op _ = True"

lemma fill_inv_update [simp]:
  "fill_inv (m\<lparr>m_error_message := e\<rparr>) = fill_inv m"
  "fill_inv (m\<lparr>m_acknowledged_at := a\<rparr>) = fill_inv m"
  "fill_inv (m\<lparr>m_broker_order_id := b, m_submitted_at := a\<rparr>) = fill_inv m"
  by (simp_all add: fill_inv_def)

lemma transition_of_unfilled:
  "transition_of new m1 m' \<Longrightarrow> new \<noteq> XS_FILLED \<Longrightarrow> fill_inv m1 \<Longrightarrow> fill_inv m'"
  using transition_of_state transition_of_fields(1,3) by (fastforce simp: fill_inv_def)

lemma record_fill_inv:
  assumes "q \<ge> 0" and "fill_inv m" and "record_fill hk now q p (m, w) = (r, m', w')"
  shows "fill_inv m'"
proof -
  let ?m1 = "add_fill now q p m"
  have base: "fill_inv ?m1" using assms(1,2) by (auto simp: fill_inv_def)
  from assms(3) consider
      "m' = ?m1"
    | new where "transition_of new ?m1 m'" "new = XS_FILLED \<longrightarrow> m_filled_quantity ?m1 \<ge> m_quantity ?m1"
    using assms(1,2)
    by (fastforce simp: record_fill_def Let_def fill_inv_def split: if_splits dest!: try_transition_of)
  then show ?thesis
  proof cases
    case 1
    with base show ?thesis by simp
  next
    case (2 new)
    with base transition_of_fields(1,3) [OF 2(1)] transition_of_state [OF 2(1)] show ?thesis
      by (auto simp: fill_inv_def)
  qed
qed

lemma esm_step_fill_inv:
  assumes "reported_op op" and "fill_inv (fst s)"
  shows "fill_inv (fst (esm_step hk op s))"
proof -
  obtain m w where s: "s = (m, w)" by (cases s)
  obtain r m' w' where c: "esm_call hk op (m, w) = (r, m', w')" by (cases "esm_call hk op (m, w)")
  have "fill_inv m'"
  proof (cases op)
    case (OpFill now q p)
    with assms c s record_fill_inv show ?thesis by force
  next
    case (OpTransition now new)
    with assms c s show ?thesis by (auto dest!: try_transition_of intro: transition_of_unfilled)
  next
    case (OpSubmission now bid)
    with assms c s show ?thesis
      by (auto simp: record_submission_def dest!: try_transition_of split: if_splits
          intro: transition_of_unfilled)
  next
    case (OpAcknowledge now)
    with assms c s show ?thesis
      by (auto simp: record_acknowledgment_def dest!: try_transition_of split: if_splits
          intro: transition_of_unfilled)
  next
    case (OpReject now reason)
    with assms c s show ?thesis
      by (auto simp: record_rejection_def Let_def dest!: try_transition_of split: if_splits
          intro: transition_of_unfilled)
  next
    case (OpFail now reason)
    with assms c s show ?thesis
      by (auto simp: record_failure_def dest!: try_transition_of intro: transition_of_unfilled)
  qed
  with c s show ?thesis by (simp add: esm_step_def)
qed

section \<open>The manager\<close>

lemma manager_ok_new [simp]: "manager_ok (new_manager h)"
  by (simp add: manager_ok_def new_manager_def)

lemma manager_ok_dict: "manager_ok g \<Longrightarrow> dict_ok (mg_machines g)"
  by (simp add: manager_ok_def)

lemma manager_ok_get:
  "manager_ok g \<Longrightarrow> map_of (mg_machines g) cid = Some m \<Longrightarrow>
     m_client_order_id m = cid \<and> cid = generate_client_order_id (m_intent_id m)"
  by (auto simp: manager_ok_def dest!: map_of_SomeD)

lemma set_dict_set: "set (dict_set k v d) \<subseteq> insert (k, v) (set d)"
  by (induction d) (auto split: if_splits)

lemma manager_ok_set:
  "manager_ok g \<Longrightarrow> m_client_order_id m = cid \<Longrightarrow> cid = generate_client_order_id (m_intent_id m) \<Longrightarrow>
     manager_ok (g\<lparr>mg_machines := dict_set cid m (mg_machines g)\<rparr>)"
  using set_dict_set [of cid m "mg_machines g"] by (fastforce simp: manager_ok_def)

lemma new_esm_ids [simp]:
  "m_client_order_id (new_esm now i c symb q p d h) = c" "m_intent_id (new_esm now i c symb q p d h) = i"
  "m_state (new_esm now i c symb q p d h) = XS_INIT"
  by (simp_all add: new_esm_def)

lemma recover_machine_ids [simp]:
  "m_client_order_id (recover_machine now h rc) = ''OPB-'' @ er_intent_id rc"
  "m_intent_id (recover_machine now h rc) = er_intent_id rc"
  "m_state (recover_machine now h rc) = recovered_state (er_state rc)"
  by (simp_all add: recover_machine_def new_esm_def)

lemma create_or_get_ok: "manager_ok g \<Longrightarrow> manager_ok (snd (create_or_get now i symb q p d g))"
  by (auto simp: create_or_get_def Let_def manager_ok_set split: option.splits)

text \<open>The machine of a record that is not terminal, field by field.\<close>

lemma recovered_live:
  "map_option (recover_machine now h) (if rec_terminal r then None else Some r) =
     (if er_state r \<in> {DS_FILLED, DS_CANCELLED, DS_REJECTED, DS_FAILED} then None
      else Some \<lparr>m_intent_id = er_intent_id r, m_client_order_id = ''OPB-'' @ er_intent_id r, m_symbol = er_symbol r, m_quantity = er_quantity r,
             m_price = er_strike_price r, m_direction = er_direction r,
             m_state = (if er_state r = DS_PENDING then XS_PENDING_SUBMISSION else if er_state r = DS_SUBMITTED then XS_SUBMITTED
                        else if er_state r = DS_PARTIALLY_FILLED then XS_PARTIAL_FILL else XS_UNKNOWN),
             m_broker_order_id = er_broker_order_id r, m_filled_quantity = er_filled_quantity r,
             m_average_price = er_average_price r, m_error_message = er_reject_reason r,
             m_created_at = format_ts now, m_updated_at = format_ts now, m_submitted_at = None, m_acknowledged_at = None,
             m_filled_at = None, m_hook = h\<rparr>)"
  by (cases "er_state r") (simp_all add: rec_terminal_def durable_terminal_def recover_machine_def new_esm_def)

lemma recover_records_ok: "manager_ok g \<Longrightarrow> manager_ok (snd (recover_records now rcs g))"
proof (induction rcs arbitrary: g)
  case Nil
  then show ?case by simp
next
  case (Cons rc rcs)
  have "manager_ok (g\<lparr>mg_machines := dict_set (''OPB-'' @ er_intent_id rc)
      (recover_machine now (mg_hook g) rc) (mg_machines g)\<rparr>)"
    by (rule manager_ok_set [OF Cons.prems]) (simp_all add: generate_client_order_id_def)
  with Cons show ?case by (auto split: prod.splits) (metis snd_conv)+
qed

lemma recover_records_hook: "mg_hook (snd (recover_records now rcs g)) = mg_hook g"
proof (induction rcs arbitrary: g)
  case Nil
  then show ?case by simp
next
  case (Cons rc rcs)
  show ?case
  proof (cases "map_of (mg_machines g) (''OPB-'' @ er_intent_id rc)")
    case None
    then have "snd (recover_records now (rc # rcs) g) =
        snd (recover_records now rcs (g\<lparr>mg_machines := dict_set (''OPB-'' @ er_intent_id rc)
          (recover_machine now (mg_hook g) rc) (mg_machines g)\<rparr>))"
      by (simp split: prod.splits)
    then show ?thesis by (simp add: Cons.IH)
  qed (simp add: Cons.IH)
qed

lemma recover_records_get:
  assumes "distinct (map er_intent_id rcs)"
  shows "map_of (mg_machines (snd (recover_records now rcs g))) cid =
    (case map_of (mg_machines g) cid of
       Some m \<Rightarrow> Some m
     | None \<Rightarrow> map_option (recover_machine now (mg_hook g))
         (find (\<lambda>rc. ''OPB-'' @ er_intent_id rc = cid) rcs))"
  using assms
proof (induction rcs arbitrary: g)
  case Nil
  then show ?case by (simp split: option.splits)
next
  case (Cons rc rcs)
  let ?k = "''OPB-'' @ er_intent_id rc"
  let ?g = "g\<lparr>mg_machines := dict_set ?k (recover_machine now (mg_hook g) rc) (mg_machines g)\<rparr>"
  show ?case
  proof (cases "map_of (mg_machines g) ?k")
    case (Some m)
    with Cons show ?thesis by (auto split: option.splits)
  next
    case None
    then have step: "snd (recover_records now (rc # rcs) g) = snd (recover_records now rcs ?g)"
      by (simp split: prod.splits)
    show ?thesis
      unfolding step using Cons None by (auto split: option.splits)
  qed
qed

lemma recover_records_count:
  assumes "distinct (map er_intent_id rcs)"
  shows "fst (recover_records now rcs g) =
    int (length (filter (\<lambda>rc. map_of (mg_machines g) (''OPB-'' @ er_intent_id rc) = None) rcs))"
  using assms
proof (induction rcs arbitrary: g)
  case Nil
  then show ?case by simp
next
  case (Cons rc rcs)
  let ?k = "''OPB-'' @ er_intent_id rc"
  let ?g = "g\<lparr>mg_machines := dict_set ?k (recover_machine now (mg_hook g) rc) (mg_machines g)\<rparr>"
  have same: "filter (\<lambda>x. map_of (mg_machines ?g) (''OPB-'' @ er_intent_id x) = None) rcs =
      filter (\<lambda>x. map_of (mg_machines g) (''OPB-'' @ er_intent_id x) = None) rcs"
    using Cons.prems by (intro filter_cong) (auto simp: rev_image_eqI)
  show ?case
  proof (cases "map_of (mg_machines g) ?k")
    case (Some m)
    with Cons show ?thesis by simp
  next
    case None
    then have "fst (recover_records now (rc # rcs) g) = fst (recover_records now rcs ?g) + 1"
      by (simp split: prod.splits)
    with None same Cons.IH [of ?g] Cons.prems show ?thesis by simp
  qed
qed

lemma dict_ok_member: "dict_ok d \<Longrightarrow> (k, v) \<in> set d \<longleftrightarrow> map_of d k = Some v"
  by (simp add: dict_ok_def dict_keys_def map_of_eq_Some_iff)

lemma prune_keys_machines:
  assumes "dict_ok (mg_machines g)" and "distinct ks"
  shows "mg_machines (snd (prune_keys now h ks g)) =
      filter (\<lambda>(k, m). \<not> (k \<in> set ks \<and> prunable now h m)) (mg_machines g)
    \<and> fst (prune_keys now h ks g) =
      int (length (filter (\<lambda>k. case map_of (mg_machines g) k of None \<Rightarrow> False | Some m \<Rightarrow> prunable now h m) ks))"
  using assms
proof (induction ks arbitrary: g)
  case Nil
  then show ?case by simp
next
  case (Cons k ks)
  have keep: "filter (\<lambda>(k', m). \<not> ((k' = k \<or> k' \<in> set ks) \<and> prunable now h m)) (mg_machines g) =
      filter (\<lambda>(k', m). \<not> (k' \<in> set ks \<and> prunable now h m)) (mg_machines g)"
    if "\<And>m. map_of (mg_machines g) k = Some m \<Longrightarrow> \<not> prunable now h m"
    using that Cons.prems(1) by (intro filter_cong) (auto simp: dict_ok_member)
  show ?case
  proof (cases "\<exists>m. map_of (mg_machines g) k = Some m \<and> prunable now h m")
    case False
    then have "prune_keys now h (k # ks) g = prune_keys now h ks g"
      by (auto split: option.splits)
    with keep False Cons show ?thesis by (auto split: option.splits)
  next
    case True
    then obtain m where m: "map_of (mg_machines g) k = Some m" "prunable now h m" by blast
    let ?g = "g\<lparr>mg_machines := dict_del k (mg_machines g)\<rparr>"
    have step: "prune_keys now h (k # ks) g =
        (fst (prune_keys now h ks ?g) + 1, snd (prune_keys now h ks ?g))"
      using m by (simp split: prod.splits)
    have ih: "mg_machines (snd (prune_keys now h ks ?g)) =
          filter (\<lambda>(k', m). \<not> (k' \<in> set ks \<and> prunable now h m)) (dict_del k (mg_machines g))
      \<and> fst (prune_keys now h ks ?g) = int (length (filter (\<lambda>k'. case map_of (dict_del k (mg_machines g)) k' of
            None \<Rightarrow> False | Some m \<Rightarrow> prunable now h m) ks))"
      using Cons by simp
    have f1: "filter (\<lambda>(k', m). \<not> (k' \<in> set ks \<and> prunable now h m)) (dict_del k (mg_machines g)) =
        filter (\<lambda>(k', m). \<not> ((k' = k \<or> k' \<in> set ks) \<and> prunable now h m)) (mg_machines g)"
      using Cons.prems(1) m unfolding dict_del_def filter_filter
      by (intro filter_cong) (auto simp: dict_ok_member)
    have f2: "filter (\<lambda>k'. case map_of (dict_del k (mg_machines g)) k' of None \<Rightarrow> False | Some m \<Rightarrow> prunable now h m) ks =
        filter (\<lambda>k'. case map_of (mg_machines g) k' of None \<Rightarrow> False | Some m \<Rightarrow> prunable now h m) ks"
      using Cons.prems(2) by (intro filter_cong) auto
    show ?thesis unfolding step using ih f1 f2 m by simp
  qed
qed

lemma prune_terminals_machines:
  assumes "manager_ok g"
  shows "mg_machines (snd (prune_terminals now h g)) = filter (\<lambda>(k, m). \<not> prunable now h m) (mg_machines g)"
proof -
  have ok: "dict_ok (mg_machines g)" using assms by (rule manager_ok_dict)
  then have "distinct (dict_keys (mg_machines g))" by (simp add: dict_ok_def)
  from prune_keys_machines [OF ok this] show ?thesis
    unfolding prune_terminals_def by (auto intro!: filter_cong simp: dict_keys_def rev_image_eqI)
qed

lemma validate_transition_persist_failed:
  assumes "m_hook m" and "new \<noteq> m_state m" and "new \<in> set (valid_transitions (m_state m))"
    and "new \<in> set persisted_on" and "hk (m\<lparr>m_state := new\<rparr>) w = (Some e, w')" and "caught hook_caught e"
  shows "validate_transition hk now new (m, w) = (Inr (TR_PERSISTENCE_FAILED, ''Critical: '' @ exn_msg e), m, w')"
  using assms by (simp add: validate_transition_def Let_def)

lemma validate_transition_persisted:
  assumes "validate_transition hk now new (m, w) = (Inr (TR_SUCCESS, msg), m', w')"
    and "m_hook m" and "new \<in> set persisted_on"
  shows "hk (m\<lparr>m_state := new\<rparr>) w = (None, w')"
  using assms by (auto simp: validate_transition_def Let_def split: if_splits prod.splits option.splits)

lemma run_fill_inv:
  "list_all reported_op ops \<Longrightarrow> fill_inv (fst s) \<Longrightarrow> fill_inv (fst (fold (esm_step hk) ops s))"
  by (induction ops arbitrary: s) (simp_all add: esm_step_fill_inv)

lemma find_listing:
  assumes "exec_table_ok t" and "distinct (map er_intent_id rs)"
    and "\<And>r. r \<in> set rs \<longleftrightarrow> durable_map t (er_intent_id r) = Some r \<and> \<not> rec_terminal r"
  shows "find (\<lambda>rc. er_intent_id rc = i) rs =
      (case durable_map t i of Some r \<Rightarrow> if rec_terminal r then None else Some r | None \<Rightarrow> None)"
proof (cases "find (\<lambda>rc. er_intent_id rc = i) rs")
  case None
  then have "\<not> (\<exists>r \<in> set rs. er_intent_id r = i)" by (simp add: find_None_iff)
  with assms(3) durable_map_id [OF assms(1)] None show ?thesis
    by (auto split: option.splits)
next
  case (Some r)
  then have "r \<in> set rs" "er_intent_id r = i" by (auto simp: find_Some_iff)
  with assms(3) Some show ?thesis by auto
qed

lemma recover_records_grow:
  "int (length (mg_machines (snd (recover_records now rcs g)))) =
     int (length (mg_machines g)) + fst (recover_records now rcs g)"
proof (induction rcs arbitrary: g)
  case (Cons rc rcs)
  let ?k = "''OPB-'' @ er_intent_id rc"
  let ?g = "g\<lparr>mg_machines := dict_set ?k (recover_machine now (mg_hook g) rc) (mg_machines g)\<rparr>"
  show ?case
  proof (cases "map_of (mg_machines g) ?k")
    case None
    then have "recover_records now (rc # rcs) g =
        (fst (recover_records now rcs ?g) + 1, snd (recover_records now rcs ?g))"
      by (simp split: prod.splits)
    moreover have "length (mg_machines ?g) = length (mg_machines g) + 1"
      using None by (simp add: dict_set_length domIff)
    ultimately show ?thesis using Cons.IH [of ?g] by simp
  qed (simp add: Cons.IH)
qed simp

lemma recover_records_length:
  "fst (recover_records now rcs (new_manager h)) = int (length (mg_machines (snd (recover_records now rcs (new_manager h)))))"
  using recover_records_grow [of now rcs "new_manager h"] by (simp add: new_manager_def)

lemma prune_terminals_count:
  assumes "manager_ok g"
  shows "fst (prune_terminals now h g) = int (length (filter (\<lambda>(k, m). prunable now h m) (mg_machines g)))"
proof -
  have ok: "dict_ok (mg_machines g)" using assms by (rule manager_ok_dict)
  let ?d = "mg_machines g"
  have "filter (\<lambda>k. case map_of ?d k of None \<Rightarrow> False | Some m \<Rightarrow> prunable now h m) (map fst ?d) =
      map fst (filter (\<lambda>(k, m). prunable now h m) ?d)"
    using ok by (auto simp: filter_map comp_def dict_ok_member [OF ok, symmetric]
        dict_ok_def dict_keys_def intro!: arg_cong [where f = "map fst"] filter_cong)
  then show ?thesis
    using prune_keys_machines [OF ok, of "dict_keys ?d" now h] ok
    by (simp add: prune_terminals_def dict_ok_def) (simp add: dict_keys_def)
qed

lemma prune_terminals_ok: "manager_ok g \<Longrightarrow> manager_ok (snd (prune_terminals now h g))"
  using prune_terminals_machines [of g now h]
  by (auto simp: manager_ok_def dict_ok_filter)

section \<open>Properties\<close>

text \<open>
  C1: Every history of a machine is a path of the transition table: whatever operations are called
  on it, in whatever order, and whatever the persistence hook does, the state it ends in is
  reachable from the state it started in along \<open>VALID_TRANSITIONS\<close>, and a terminal state is never
  left.
\<close>

theorem machine_history_legal:
  "xstep\<^sup>*\<^sup>* (m_state (fst s)) (m_state (fst (fold (esm_step hk) ops s)))
   \<and> (is_terminal (fst s) \<longrightarrow> m_state (fst (fold (esm_step hk) ops s)) = m_state (fst s))"
  using run_follows_table [of s hk ops] by (auto simp: is_terminal_def dest: xsteps_terminal)

theorem machine_history_legal_witness:
  "m_state (fst (fold (esm_step (\<lambda>_ w. (None, w)))
      [OpTransition 1 XS_VALIDATED, OpFail 2 ''x'', OpTransition 3 XS_PERSISTED, OpSubmission 4 ''B'']
      (new_esm 0 ''i'' ''OPB-i'' ''NIFTY'' 50 200 ''BUY'' True, ()))) = XS_FAILED
   \<and> xstep\<^sup>*\<^sup>* XS_INIT XS_FAILED"
proof -
  let ?hk = "\<lambda>(_ :: esm) (w :: unit). (None :: exn option, w)"
  let ?m = "new_esm 0 ''i'' ''OPB-i'' ''NIFTY'' 50 200 ''BUY'' True"
  let ?s = "fold (esm_step ?hk) [OpTransition 1 XS_VALIDATED, OpFail 2 ''x''] (?m, ())"
  have "m_state (fst ?s) = XS_FAILED"
    by (simp add: esm_step_def try_transition_to_def validate_transition_def record_failure_def
        new_esm_def persisted_on_def Let_def)
  with machine_history_legal [of ?s ?hk "[OpTransition 3 XS_PERSISTED, OpSubmission 4 ''B'']"]
    machine_history_legal [of "(?m, ())" ?hk "[OpTransition 1 XS_VALIDATED, OpFail 2 ''x'']"]
  show ?thesis by (simp add: is_terminal_def terminal_states_def)
qed

text \<open>
  C4: One machine records at most one submission to the broker: over any sequence of operations on
  it, with any persistence hook, \<open>record_submission\<close> succeeds at most once.
\<close>

theorem at_most_one_submission:
  "submissions hk ops s \<le> 1"
  by (rule submissions_le_1)

text \<open>
  C8: Persist before progress: when the hook raises one of the caught exceptions on a transition into
  a persisted state, the machine is left exactly as it was and the caller gets
  \<open>PERSISTENCE_FAILED\<close>; and when such a transition succeeds, the hook has run without error on the
  machine in its new state.
\<close>

theorem persist_before_progress:
  assumes "m_hook m" and "new \<in> set persisted_on"
    and "validate_transition hk now new (m, w) = (Inr (res, msg), m', w')"
  shows "(new \<noteq> m_state m \<and> new \<in> set (valid_transitions (m_state m))
            \<and> (\<exists>e w1. hk (m\<lparr>m_state := new\<rparr>) w = (Some e, w1) \<and> caught hook_caught e)
          \<longrightarrow> res = TR_PERSISTENCE_FAILED \<and> m' = m)
    \<and> (res = TR_SUCCESS \<longrightarrow> hk (m\<lparr>m_state := new\<rparr>) w = (None, w') \<and> m_state m' = new)
    \<and> (res \<noteq> TR_SUCCESS \<longrightarrow> m' = m)"
proof -
  have "res = TR_SUCCESS \<longrightarrow> m_state m' = new" and "res \<noteq> TR_SUCCESS \<longrightarrow> m' = m"
    using assms(3)
    by (auto simp: validate_transition_def Let_def split: if_splits prod.splits option.splits)
  then show ?thesis
    using validate_transition_persist_failed [OF assms(1) _ _ assms(2)] assms(3)
      validate_transition_persisted [OF _ assms(1,2)]
    by (metis Inr_inject Pair_inject)
qed

theorem persist_before_progress_witness:
  "validate_transition (\<lambda>_ w. (Some (Exn OSError ''disk full''), w)) 5 XS_FAILED
     (new_esm 0 ''i'' ''OPB-i'' ''NIFTY'' 50 200 ''BUY'' True, ()) =
   (Inr (TR_PERSISTENCE_FAILED, ''Critical: disk full''), new_esm 0 ''i'' ''OPB-i'' ''NIFTY'' 50 200 ''BUY'' True, ())"
proof -
  let ?hk = "\<lambda>(_ :: esm) (w :: unit). (Some (Exn OSError ''disk full''), w)"
  let ?m = "new_esm 0 ''i'' ''OPB-i'' ''NIFTY'' 50 200 ''BUY'' True"
  obtain res msg m' w' where v: "validate_transition ?hk 5 XS_FAILED (?m, ()) = (Inr (res, msg), m', w')"
      and msg: "msg = ''Critical: disk full''"
    by (simp add: validate_transition_def new_esm_def persisted_on_def hook_caught_def exn_simps Let_def)
  have "m_hook ?m" "XS_FAILED \<in> set persisted_on" by (simp_all add: new_esm_def persisted_on_def)
  from persist_before_progress [OF this v] have "res = TR_PERSISTENCE_FAILED \<and> m' = ?m"
    by (simp add: new_esm_def hook_caught_def exn_simps)
  with v msg show ?thesis by simp
qed

text \<open>
  C13: The average price is the volume-weighted price of the fills: after any run whose fills have
  positive quantity, the filled quantity is the sum of the fills' quantities and the average price
  times it is the sum of quantity times price.
\<close>

theorem fills_weighted_average:
  assumes "list_all pos_fill ops"
  shows "let m = fst (fold (esm_step hk) ops (new_esm t0 i cid symb q p dir h, w)) in
    m_filled_quantity m = fills_qty ops
    \<and> m_average_price m * of_int (fills_qty ops) = fills_value ops"
proof -
  have "m_filled_quantity (new_esm t0 i cid symb q p dir h) = 0"
       "m_average_price (new_esm t0 i cid symb q p dir h) = 0" by (simp_all add: new_esm_def)
  with run_fills [OF assms, of "(new_esm t0 i cid symb q p dir h, w)" hk]
  show ?thesis by (auto simp: fill_value_def Let_def)
qed

theorem fills_weighted_average_witness:
  "let m = fst (fold (esm_step (\<lambda>_ w. (None, w))) [OpFill 1 10 100, OpFill 2 30 200]
      (new_esm 0 ''i'' ''OPB-i'' ''NIFTY'' 40 200 ''BUY'' False, ())) in
    m_filled_quantity m = 40 \<and> m_average_price m * 40 = 7000"
  using fills_weighted_average [of "[OpFill 1 10 100, OpFill 2 30 200]" "\<lambda>_ w. (None, w)" 0 "''i''" "''OPB-i''"
      "''NIFTY''" 40 200 "''BUY''" False "()"]
  by (simp add: Let_def)

text \<open>
  A machine is \<open>FILLED\<close> only when its whole quantity has been reported: in any run from a new
  machine that enters \<open>FILLED\<close> through the recording operations (no direct transition to it) with
  non-negative fills, the state \<open>FILLED\<close> implies that the filled quantity reaches the ordered one.
\<close>

lemma filled_means_complete:
  assumes "list_all reported_op ops"
  shows "let m = fst (fold (esm_step hk) ops (new_esm t0 i cid symb q p dir h, w)) in
    m_state m = XS_FILLED \<longrightarrow> m_filled_quantity m \<ge> m_quantity m"
proof -
  have "fill_inv (new_esm t0 i cid symb q p dir h)" by (simp add: fill_inv_def new_esm_def)
  with run_fill_inv [OF assms, of "(new_esm t0 i cid symb q p dir h, w)" hk]
  show ?thesis by (simp add: fill_inv_def Let_def)
qed

text \<open>
  C10: Crash recovery rebuilds the live orders: starting a manager on the table that any operations of
  the durable store have produced creates exactly one machine for each record that is pending, submitted,
  partially filled or unknown, under the client order id of its intent, and returns their number. The
  machine has the symbol, quantity, strike and direction of the record, the matching state, and the broker
  id, filled quantity, average price and reject reason that were stored.
\<close>

theorem recovery_rebuilds_live_orders:
  "let t = fold durable_step ops [];
       (n, g) = recover_from_store now (Some (get_non_terminal_executions True t)) (new_manager h)
   in (\<forall>i. get_machine (generate_client_order_id i) g =
         (case get_execution True i t of
            Inr (Some r) \<Rightarrow>
              if er_state r \<in> {DS_FILLED, DS_CANCELLED, DS_REJECTED, DS_FAILED} then None
              else Some \<lparr>m_intent_id = i, m_client_order_id = ''OPB-'' @ i, m_symbol = er_symbol r, m_quantity = er_quantity r,
                     m_price = er_strike_price r, m_direction = er_direction r,
                     m_state = (if er_state r = DS_PENDING then XS_PENDING_SUBMISSION else if er_state r = DS_SUBMITTED then XS_SUBMITTED
                                else if er_state r = DS_PARTIALLY_FILLED then XS_PARTIAL_FILL else XS_UNKNOWN),
                     m_broker_order_id = er_broker_order_id r, m_filled_quantity = er_filled_quantity r,
                     m_average_price = er_average_price r, m_error_message = er_reject_reason r,
                     m_created_at = format_ts now, m_updated_at = format_ts now, m_submitted_at = None, m_acknowledged_at = None,
                     m_filled_at = None, m_hook = h\<rparr>
          | _ \<Rightarrow> None))
      \<and> n = Inr (int (length (mg_machines g)))"
proof -
  let ?t = "fold durable_step ops []"
  have ok: "exec_table_ok ?t" by (rule durable.run_inv) simp
  obtain rs where rs: "get_non_terminal_executions True ?t = Inr rs" "distinct (map er_intent_id rs)"
      "\<And>r. r \<in> set rs \<longleftrightarrow> durable_map ?t (er_intent_id r) = Some r \<and> \<not> rec_terminal r"
    using non_terminal_list [OF ok] by blast
  let ?g = "snd (recover_records now rs (new_manager h))"
  have get: "map_of (mg_machines ?g) (generate_client_order_id i) =
      map_option (recover_machine now h) (find (\<lambda>rc. er_intent_id rc = i) rs)" for i
    using recover_records_get [OF rs(2), of now "new_manager h" "generate_client_order_id i"]
    by (simp add: new_manager_def generate_client_order_id_def)
  have find: "find (\<lambda>rc. er_intent_id rc = i) rs =
      (case durable_map ?t i of Some r \<Rightarrow> if rec_terminal r then None else Some r | None \<Rightarrow> None)" for i
    by (rule find_listing [OF ok rs(2,3)])
  have len: "fst (recover_records now rs (new_manager h)) = int (length (mg_machines ?g))"
    by (rule recover_records_length)
  have "recover_from_store now (Some (get_non_terminal_executions True ?t)) (new_manager h) =
      (Inr (fst (recover_records now rs (new_manager h))), ?g)"
    by (simp add: rs(1) recover_from_store_def split: prod.splits)
  then show ?thesis
    by (auto simp: Let_def len get find get_machine_def get_execution_map [OF ok] durable_map_id [OF ok] recovered_live split: option.split)
qed

text \<open>
  One machine per intent: asking the manager twice for the same intent returns the machine of the
  first call, marked as not new, changes nothing, and leaves the machines of the other intents alone.
\<close>

lemma create_or_get_once:
  "let (r1, g1) = create_or_get t1 i s1 q1 p1 d1 g; (r2, g2) = create_or_get t2 i s2 q2 p2 d2 g1 in
    r2 = (fst r1, False) \<and> g2 = g1
    \<and> (snd r1 \<longleftrightarrow> get_machine (generate_client_order_id i) g = None)
    \<and> (\<forall>c. c \<noteq> generate_client_order_id i \<longrightarrow> get_machine c g1 = get_machine c g)"
  by (auto simp: create_or_get_def get_machine_def Let_def split: option.splits)

text \<open>
  Pruning removes exactly the old terminal machines: what stays is what was there and is not both
  terminal and older than the given age, in the same order, and the result counts the removed ones.
\<close>

lemma prune_terminals_exact:
  assumes "manager_ok g"
  shows "mg_machines (snd (prune_terminals now h g)) = filter (\<lambda>(k, m). \<not> prunable now h m) (mg_machines g)
    \<and> fst (prune_terminals now h g) = int (length (filter (\<lambda>(k, m). prunable now h m) (mg_machines g)))
    \<and> manager_ok (snd (prune_terminals now h g))"
  using prune_terminals_machines [OF assms] prune_terminals_count [OF assms] prune_terminals_ok [OF assms]
  by blast

text \<open>
  A broker report of a fill is counted each time it is recorded: reporting the same \<open>FILLED\<close>
  result twice for a machine that is still acknowledged leaves a machine in state \<open>FILLED\<close> whose
  filled quantity is twice the ordered one.
\<close>

lemma repeated_fill_report_counts_twice:
  assumes "map_of (mg_machines g) cid = Some m" and "m_state m = XS_ACKNOWLEDGED" and "\<not> m_hook m"
    and "m_filled_quantity m = 0" and "m_quantity m > 0"
  shows "let report = (\<lambda>s. snd (record_broker_query_result hk now cid bid ''FILLED'' (m_quantity m) price s)) in
    \<exists>m'. get_machine cid (fst (report (report (g, w)))) = Some m'
      \<and> m_state m' = XS_FILLED \<and> m_filled_quantity m' = 2 * m_quantity m"
  using assms
  by (simp add: Let_def record_broker_query_result_def with_machine_def record_fill_def try_transition_to_def
      validate_transition_def get_machine_def split: prod.splits)

end
