(* ===== verification/Order_Lifecycle.thy ===== *)
theory Order_Lifecycle
  imports State_Machine
begin

text \<open>
  The two watchdogs over the state machines, \<open>core/execution/order_lifecycle.py\<close>: the stale order
  timeout and the acknowledgement watchdog.

  Both loop over the manager's machines. The broker is a function on the world \<open>'w\<close> that the
  persistence hook also acts on; it may raise. A broker object without the method is one whose call
  raises \<open>AttributeError\<close> (the watchdog), or \<open>None\<close> (the timeout, which asks \<open>hasattr\<close> first).

  The ages compare two clocks: the machines are stamped by \<open>time_provider.format_ts()\<close>, which labels
  the host's local time as IST, and the watchdogs read \<open>now_ist()\<close>, which computes IST from UTC. They
  are two arguments here, \<open>nowf\<close> and \<open>now\<close>.
\<close>

section \<open>Definitions\<close>

record stale_counts =
  sc_checked :: int
  sc_cancelled :: int
  sc_already_terminal :: int
  sc_errors :: int

definition stale_states :: "xstate list" where
  "stale_states = [XS_SUBMITTED, XS_ACKNOWLEDGED, XS_CANCEL_PENDING, XS_PENDING_SUBMISSION, XS_VALIDATED, XS_PERSISTED]"

text \<open>\<open>datetime.fromisoformat\<close>: \<open>None\<close> for \<open>ValueError\<close>.\<close>

definition parse_ts :: "stamp \<Rightarrow> real option" where
  "parse_ts s = (case s of At t \<Rightarrow> Some t | Junk _ \<Rightarrow> None)"

definition last_activity :: "esm \<Rightarrow> real option" where
  "last_activity m =
     (case m_submitted_at m of
        Some s \<Rightarrow> if stamp_truthy s then parse_ts s else parse_ts (m_updated_at m)
      | None \<Rightarrow> parse_ts (m_updated_at m))"

type_synonym 'w cancel_port = "(string \<Rightarrow> 'w \<Rightarrow> (exn + bool) \<times> 'w) option"

text \<open>The broker's cancellation, if there is an order id and a method; its result is only logged.\<close>

definition try_cancel :: "'w cancel_port \<Rightarrow> string option \<Rightarrow> 'w \<Rightarrow> exn option \<times> 'w" where
  "try_cancel cancel bid w =
     (case cancel of
        None \<Rightarrow> (None, w)
      | Some f \<Rightarrow>
        if truthy bid then
          (case f (the bid) w of
             (Inr ok, w') \<Rightarrow> (None, w')
           | (Inl e, w') \<Rightarrow> if caught [ValueError, OSError, ConnectionError] e then (None, w') else (Some e, w'))
        else (None, w))"

definition stale_message :: "real \<Rightarrow> xstate \<Rightarrow> string" where
  "stale_message age st = ''Stale order timeout ('' @ fmt_0f age @ ''s in '' @ xstate_value st @ '')''"

definition stale_one ::
    "'w hook \<Rightarrow> 'w cancel_port \<Rightarrow> real \<Rightarrow> real \<Rightarrow> real \<Rightarrow> string
      \<Rightarrow> esm_manager \<times> 'w \<times> stale_counts \<Rightarrow> exn option \<times> esm_manager \<times> 'w \<times> stale_counts" where
  "stale_one hk cancel now nowf max_stale cid = (\<lambda>(g, w, r).
     case get_machine cid g of
       None \<Rightarrow> (None, g, w, r)
     | Some m \<Rightarrow>
       if is_terminal m then (None, g, w, r\<lparr>sc_already_terminal := sc_already_terminal r + 1\<rparr>)
       else if m_state m \<notin> set stale_states then (None, g, w, r)
       else case last_activity m of
         None \<Rightarrow> (None, g, w, r\<lparr>sc_errors := sc_errors r + 1\<rparr>)
       | Some t \<Rightarrow>
         if now - t < max_stale then (None, g, w, r)
         else
           let r1 = r\<lparr>sc_checked := sc_checked r + 1\<rparr>
           in case try_cancel cancel (m_broker_order_id m) w of
                (Some e, w1) \<Rightarrow> (Some e, g, w1, r1)
              | (None, w1) \<Rightarrow>
                (case with_machine cid (record_failure hk nowf (stale_message (now - t) (m_state m))) (g, w1) of
                   (Inl e, g', w') \<Rightarrow> (Some e, g', w', r1)
                 | (Inr _, g', w') \<Rightarrow> (None, g', w', r1\<lparr>sc_cancelled := sc_cancelled r1 + 1\<rparr>)))"

definition run_stale_order_timeout ::
    "'w hook \<Rightarrow> 'w cancel_port \<Rightarrow> real \<Rightarrow> real \<Rightarrow> real \<Rightarrow> esm_manager \<times> 'w
      \<Rightarrow> (exn + stale_counts) \<times> esm_manager \<times> 'w" where
  "run_stale_order_timeout hk cancel now nowf max_stale = (\<lambda>(g, w).
     case for_each (stale_one hk cancel now nowf max_stale) (dict_keys (mg_machines g))
            (g, w, \<lparr>sc_checked = 0, sc_cancelled = 0, sc_already_terminal = 0, sc_errors = 0\<rparr>) of
       (None, g', w', r) \<Rightarrow> (Inr r, g', w')
     | (Some e, g', w', r) \<Rightarrow>
         if caught [ValueError, OSError, AttributeError] e
         then (Inr (r\<lparr>sc_errors := sc_errors r + 1\<rparr>), g', w') else (Inl e, g', w'))"

record ack_counts =
  ac_checked :: int
  ac_acknowledged :: int
  ac_still_pending :: int
  ac_errors :: int

type_synonym 'w query_port = "string \<Rightarrow> 'w \<Rightarrow> (exn + string option) \<times> 'w"

text \<open>The body of the watchdog's \<open>try\<close> block, on one machine: which counter it raises, or an exception.\<close>

datatype ack_outcome = AckAcknowledged | AckPending | AckError

definition ack_apply ::
    "'w hook \<Rightarrow> 'w query_port \<Rightarrow> real \<Rightarrow> esm \<times> 'w \<Rightarrow> (exn + ack_outcome) \<times> esm \<times> 'w" where
  "ack_apply hk query nowf = (\<lambda>(m, w).
     if \<not> truthy (m_broker_order_id m) then (Inr AckError, m, w)
     else case query (the (m_broker_order_id m)) w of
       (Inl e, w1) \<Rightarrow> (Inl e, m, w1)
     | (Inr None, w1) \<Rightarrow> (Inr AckPending, m, w1)
     | (Inr (Some status), w1) \<Rightarrow>
       let su = str_upper status
       in if su \<in> {''COMPLETE'', ''FILLED'', ''EXECUTED''} then
            (case record_acknowledgment hk nowf (m, w1) of
               (Inl e, s) \<Rightarrow> (Inl e, s)
             | (Inr _, s) \<Rightarrow>
               (case record_fill hk nowf (m_quantity m) (m_price m) s of
                  (Inl e, s') \<Rightarrow> (Inl e, s')
                | (Inr _, s') \<Rightarrow> (Inr AckAcknowledged, s')))
          else if su \<in> {''REJECTED'', ''CANCELLED'', ''EXPIRED''} then
            (case try_transition_to hk nowf XS_REJECTED (m, w1) of
               (Inl e, s) \<Rightarrow> (Inl e, s)
             | (Inr _, s) \<Rightarrow> (Inr AckAcknowledged, s))
          else (Inr AckPending, m, w1))"

fun ack_count :: "ack_outcome \<Rightarrow> ack_counts \<Rightarrow> ack_counts" where
  "ack_count AckAcknowledged r = r\<lparr>ac_acknowledged := ac_acknowledged r + 1\<rparr>"
| "ack_count AckPending r = r\<lparr>ac_still_pending := ac_still_pending r + 1\<rparr>"
| "ack_count AckError r = r\<lparr>ac_errors := ac_errors r + 1\<rparr>"

definition ack_one ::
    "'w hook \<Rightarrow> 'w query_port \<Rightarrow> real \<Rightarrow> real \<Rightarrow> real \<Rightarrow> string
      \<Rightarrow> esm_manager \<times> 'w \<times> ack_counts \<Rightarrow> exn option \<times> esm_manager \<times> 'w \<times> ack_counts" where
  "ack_one hk query now nowf max_age cid = (\<lambda>(g, w, r).
     case get_machine cid g of
       None \<Rightarrow> (None, g, w, r)
     | Some m \<Rightarrow>
       if m_state m \<noteq> XS_SUBMITTED then (None, g, w, r)
       else case m_submitted_at m of
         None \<Rightarrow> (None, g, w, r)
       | Some ts \<Rightarrow>
         (case parse_ts ts of
            None \<Rightarrow> (None, g, w, ack_count AckError r)
          | Some t \<Rightarrow>
            if now - t < max_age then (None, g, w, r)
            else
              let r1 = r\<lparr>ac_checked := ac_checked r + 1\<rparr>
              in case ack_apply hk query nowf (m, w) of
                   (res, m', w') \<Rightarrow>
                     let g' = g\<lparr>mg_machines := dict_set cid m' (mg_machines g)\<rparr>
                     in case res of
                          Inr oc \<Rightarrow> (None, g', w', ack_count oc r1)
                        | Inl e \<Rightarrow> if caught [ValueError, OSError, AttributeError] e
                                   then (None, g', w', ack_count AckError r1)
                                   else (Some e, g', w', r1)))"

definition run_ack_watchdog ::
    "'w hook \<Rightarrow> 'w query_port \<Rightarrow> real \<Rightarrow> real \<Rightarrow> real \<Rightarrow> esm_manager \<times> 'w
      \<Rightarrow> (exn + ack_counts) \<times> esm_manager \<times> 'w" where
  "run_ack_watchdog hk query now nowf max_age = (\<lambda>(g, w).
     case for_each (ack_one hk query now nowf max_age) (dict_keys (mg_machines g))
            (g, w, \<lparr>ac_checked = 0, ac_acknowledged = 0, ac_still_pending = 0, ac_errors = 0\<rparr>) of
       (None, g', w', r) \<Rightarrow> (Inr r, g', w')
     | (Some e, g', w', r) \<Rightarrow> (Inl e, g', w'))"

subsection \<open>Specifications\<close>

text \<open>What the timeout means by a stale machine, and what becomes of it.\<close>

definition stale_at :: "real \<Rightarrow> real \<Rightarrow> esm \<Rightarrow> bool" where
  "stale_at now max_stale m \<longleftrightarrow> m_state m \<in> set stale_states
     \<and> (\<exists>t. last_activity m = Some t \<and> now - t \<ge> max_stale)"

definition timed_out :: "real \<Rightarrow> real \<Rightarrow> esm \<Rightarrow> esm" where
  "timed_out now nowf m = m\<lparr>
     m_error_message := Some (stale_message (now - the (last_activity m)) (m_state m)),
     m_state := XS_FAILED, m_updated_at := format_ts nowf\<rparr>"

text \<open>A machine the watchdog asks the broker about.\<close>

definition unacked_at :: "real \<Rightarrow> real \<Rightarrow> esm \<Rightarrow> bool" where
  "unacked_at now max_age m \<longleftrightarrow> m_state m = XS_SUBMITTED
     \<and> (\<exists>t. m_submitted_at m = Some (At t) \<and> now - t \<ge> max_age)"

text \<open>A broker whose answers do not depend on the world, and what its answer makes of a machine.\<close>

definition acked :: "(string \<Rightarrow> exn + string option) \<Rightarrow> real \<Rightarrow> esm \<Rightarrow> esm" where
  "acked query nowf m =
     (if truthy (m_broker_order_id m) then
        (case query (the (m_broker_order_id m)) of
           Inr (Some status) \<Rightarrow>
             if str_upper status \<in> {''COMPLETE'', ''FILLED'', ''EXECUTED''}
             then (add_fill nowf (m_quantity m) (m_price m) m)
                    \<lparr>m_state := XS_FILLED, m_acknowledged_at := Some (format_ts nowf), m_updated_at := format_ts nowf\<rparr>
             else if str_upper status \<in> {''REJECTED'', ''CANCELLED'', ''EXPIRED''}
             then m\<lparr>m_state := XS_REJECTED, m_updated_at := format_ts nowf\<rparr>
             else m
         | _ \<Rightarrow> m)
      else m)"

text \<open>A hook that never fails.\<close>

definition hook_safe :: "'w hook \<Rightarrow> bool" where
  "hook_safe hk \<longleftrightarrow> (\<forall>m w. fst (hk m w) = None)"

definition cancel_safe :: "'w cancel_port \<Rightarrow> bool" where
  "cancel_safe cancel \<longleftrightarrow> (\<forall>f bid w e. cancel = Some f \<longrightarrow> fst (f bid w) = Inl e \<longrightarrow>
     caught [ValueError, OSError, ConnectionError] e)"

definition stale_tally :: "real \<Rightarrow> real \<Rightarrow> esm \<Rightarrow> stale_counts \<Rightarrow> stale_counts" where
  "stale_tally now max_stale m r =
     (if is_terminal m then r\<lparr>sc_already_terminal := sc_already_terminal r + 1\<rparr>
      else if m_state m \<notin> set stale_states then r
      else if last_activity m = None then r\<lparr>sc_errors := sc_errors r + 1\<rparr>
      else if stale_at now max_stale m
      then r\<lparr>sc_checked := sc_checked r + 1, sc_cancelled := sc_cancelled r + 1\<rparr>
      else r)"

definition ack_outcome_of :: "(string \<Rightarrow> exn + string option) \<Rightarrow> esm \<Rightarrow> ack_outcome" where
  "ack_outcome_of query m =
     (if \<not> truthy (m_broker_order_id m) then AckError
      else case query (the (m_broker_order_id m)) of
        Inl _ \<Rightarrow> AckError
      | Inr None \<Rightarrow> AckPending
      | Inr (Some status) \<Rightarrow>
          if str_upper status \<in> {''COMPLETE'', ''FILLED'', ''EXECUTED'', ''REJECTED'', ''CANCELLED'', ''EXPIRED''}
          then AckAcknowledged else AckPending)"

definition ack_tally :: "(string \<Rightarrow> exn + string option) \<Rightarrow> real \<Rightarrow> real \<Rightarrow> esm \<Rightarrow> ack_counts \<Rightarrow> ack_counts" where
  "ack_tally query now max_age m r =
     (if unacked_at now max_age m
      then ack_count (ack_outcome_of query m) (r\<lparr>ac_checked := ac_checked r + 1\<rparr>)
      else if m_state m = XS_SUBMITTED \<and> (\<exists>x. m_submitted_at m = Some (Junk x)) then ack_count AckError r
      else r)"

definition query_safe :: "(string \<Rightarrow> exn + string option) \<Rightarrow> bool" where
  "query_safe query \<longleftrightarrow> (\<forall>bid e. query bid = Inl e \<longrightarrow> caught [ValueError, OSError, AttributeError] e)"

section \<open>Loops over the machines\<close>

lemma loop_machines:
  assumes step: "\<And>cid g w r m. map_of (mg_machines g) cid = Some m \<Longrightarrow>
      \<exists>w'. body cid (g, w, r) = (None, g\<lparr>mg_machines := dict_set cid (f m) (mg_machines g)\<rparr>, w', u m r)"
    and "distinct ks" and "\<And>k. k \<in> set ks \<Longrightarrow> map_of (mg_machines g) k \<noteq> None"
  shows "\<exists>g' w'. for_each body ks (g, w, r) =
      (None, g', w', fold (\<lambda>k. u (the (map_of (mg_machines g) k))) ks r)
    \<and> (\<forall>c. map_of (mg_machines g') c =
          map_option (\<lambda>m. if c \<in> set ks then f m else m) (map_of (mg_machines g) c))"
  using assms(2,3)
proof (induction ks arbitrary: g w r)
  case Nil
  then show ?case by (auto simp: map_option.id [unfolded id_def] option.map_id)
next
  case (Cons k ks)
  from Cons.prems(2) obtain m where m: "map_of (mg_machines g) k = Some m" by fastforce
  let ?g = "g\<lparr>mg_machines := dict_set k (f m) (mg_machines g)\<rparr>"
  from step [OF m] obtain w1 where b: "body k (g, w, r) = (None, ?g, w1, u m r)" by blast
  have ks: "distinct ks" "\<And>j. j \<in> set ks \<Longrightarrow> map_of (mg_machines ?g) j \<noteq> None" "k \<notin> set ks"
    using Cons.prems by auto
  obtain g' w' where
      run: "for_each body ks (?g, w1, u m r) = (None, g', w', fold (\<lambda>k. u (the (map_of (mg_machines ?g) k))) ks (u m r))"
    and map: "\<And>c. map_of (mg_machines g') c =
          map_option (\<lambda>m. if c \<in> set ks then f m else m) (map_of (mg_machines ?g) c)"
    using Cons.IH [OF ks(1,2)] by blast
  have "fold (\<lambda>k. u (the (map_of (mg_machines ?g) k))) ks (u m r) =
      fold (\<lambda>k. u (the (map_of (mg_machines g) k))) ks (u m r)"
    using ks(3) by (intro fold_cong) auto
  with run b m have "for_each body (k # ks) (g, w, r) =
      (None, g', w', fold (\<lambda>k. u (the (map_of (mg_machines g) k))) (k # ks) r)" by simp
  moreover have "map_of (mg_machines g') c =
      map_option (\<lambda>m. if c \<in> set (k # ks) then f m else m) (map_of (mg_machines g) c)" for c
    using map [of c] ks(3) m by auto
  ultimately show ?case by blast
qed

text \<open>The loop over all machines of a well-formed manager.\<close>

lemma loop_all_machines:
  assumes step: "\<And>cid g w r m. map_of (mg_machines g) cid = Some m \<Longrightarrow>
      \<exists>w'. body cid (g, w, r) = (None, g\<lparr>mg_machines := dict_set cid (f m) (mg_machines g)\<rparr>, w', u m r)"
    and ok: "manager_ok g"
  shows "\<exists>g' w'. for_each body (dict_keys (mg_machines g)) (g, w, r) = (None, g', w', fold u (get_all g) r)
    \<and> (\<forall>c. get_machine c g' = map_option f (get_machine c g))"
proof -
  let ?d = "mg_machines g"
  have d: "dict_ok ?d" using ok by (rule manager_ok_dict)
  then have dist: "distinct (dict_keys ?d)" by (simp add: dict_ok_def)
  have "fold (\<lambda>k. u (the (map_of ?d k))) (dict_keys ?d) r = fold (\<lambda>p. u (the (map_of ?d (fst p)))) ?d r"
    by (simp add: dict_keys_def fold_map comp_def)
  also have "\<dots> = fold (\<lambda>p. u (snd p)) ?d r"
    using d by (intro fold_cong) (auto simp: dict_ok_member)
  also have "\<dots> = fold u (get_all g) r"
    by (simp add: get_all_def dict_vals_def fold_map comp_def)
  finally have r: "fold (\<lambda>k. u (the (map_of ?d k))) (dict_keys ?d) r = fold u (get_all g) r" .
  have some: "map_of ?d k \<noteq> None" if "k \<in> set (dict_keys ?d)" for k
    using that by (auto simp: dict_keys_dom)
  obtain g' w' where run: "for_each body (dict_keys ?d) (g, w, r) = (None, g', w', fold u (get_all g) r)"
    and map: "\<And>c. map_of (mg_machines g') c =
          map_option (\<lambda>m. if c \<in> set (dict_keys ?d) then f m else m) (map_of ?d c)"
    using loop_machines [where body = body and f = f and u = u and g = g and w = w and r = r, OF step dist some]
    by (auto simp: r)
  have "get_machine c g' = map_option f (get_machine c g)" for c
    using map [of c] by (cases "map_of ?d c") (auto simp: get_machine_def dict_keys_dom)
  with run show ?thesis by blast
qed

section \<open>The stale order timeout\<close>

lemma hook_safe_transition:
  assumes "hook_safe hk" and "new \<noteq> m_state m" and "new \<in> set (valid_transitions (m_state m))"
  shows "\<exists>w'. try_transition_to hk now new (m, w) =
     (Inr True, m\<lparr>m_state := new, m_updated_at := format_ts now\<rparr>, w')"
proof -
  obtain w' where "hk (m\<lparr>m_state := new\<rparr>) w = (None, w')"
    using assms(1) unfolding hook_safe_def by (metis prod.collapse)
  with assms(2,3) show ?thesis by (simp add: try_transition_to_def validate_transition_def Let_def)
qed

lemma stale_states_failable:
  "st \<in> set stale_states \<Longrightarrow> XS_FAILED \<noteq> st \<and> XS_FAILED \<in> set (valid_transitions st)"
  by (cases st) (simp_all add: stale_states_def)

lemma stale_states_live: "m_state m \<in> set stale_states \<Longrightarrow> \<not> is_terminal m"
  by (auto simp: stale_states_def is_terminal_def terminal_states_def)

lemma record_failure_stale:
  assumes "hook_safe hk" and "m_state m \<in> set stale_states"
  shows "\<exists>w'. record_failure hk now msg (m, w) =
    (Inr True, m\<lparr>m_error_message := Some msg, m_state := XS_FAILED, m_updated_at := format_ts now\<rparr>, w')"
  using hook_safe_transition [OF assms(1), of XS_FAILED "m\<lparr>m_error_message := Some msg\<rparr>"]
    stale_states_failable [OF assms(2)]
  by (simp add: record_failure_def)

lemma try_cancel_safe: "cancel_safe cancel \<Longrightarrow> \<exists>w'. try_cancel cancel bid w = (None, w')"
proof (cases cancel)
  case (Some f)
  assume "cancel_safe cancel"
  with Some have "caught [ValueError, OSError, ConnectionError] e" if "f b w = (Inl e, w')" for b e w'
    using that unfolding cancel_safe_def by (metis fst_conv)
  with Some show ?thesis by (auto simp: try_cancel_def split: prod.splits sum.splits)
qed (simp add: try_cancel_def)

lemma stale_one_step:
  assumes "hook_safe hk" and "cancel_safe cancel" and m: "map_of (mg_machines g) cid = Some m"
  shows "\<exists>w'. stale_one hk cancel now nowf h cid (g, w, r) =
    (None, g\<lparr>mg_machines := dict_set cid (if stale_at now h m then timed_out now nowf m else m) (mg_machines g)\<rparr>,
     w', stale_tally now h m r)"
proof (cases "stale_at now h m")
  case False
  have "g\<lparr>mg_machines := dict_set cid m (mg_machines g)\<rparr> = g" using m by (simp add: dict_set_same)
  with False m show ?thesis
    by (auto simp: stale_one_def get_machine_def stale_tally_def stale_at_def split: option.splits)
next
  case True
  then obtain t where t: "m_state m \<in> set stale_states" "last_activity m = Some t" "\<not> now - t < h"
    by (auto simp: stale_at_def)
  obtain w1 where c: "try_cancel cancel (m_broker_order_id m) w = (None, w1)"
    using try_cancel_safe [OF assms(2)] by blast
  obtain w2 where f: "record_failure hk nowf (stale_message (now - t) (m_state m)) (m, w1) =
      (Inr True, m\<lparr>m_error_message := Some (stale_message (now - t) (m_state m)), m_state := XS_FAILED,
        m_updated_at := format_ts nowf\<rparr>, w2)"
    using record_failure_stale [OF assms(1) t(1)] by blast
  show ?thesis
    using True t m c f stale_states_live [OF t(1)]
    by (simp add: stale_one_def get_machine_def with_machine_def Let_def timed_out_def stale_tally_def)
qed

lemma stale_tally_counts:
  "sc_checked (fold (stale_tally now h) ms r) = sc_checked r + int (length (filter (stale_at now h) ms))
   \<and> sc_cancelled (fold (stale_tally now h) ms r) = sc_cancelled r + int (length (filter (stale_at now h) ms))
   \<and> sc_already_terminal (fold (stale_tally now h) ms r) = sc_already_terminal r + int (length (filter is_terminal ms))"
proof (induction ms arbitrary: r)
  case (Cons m ms)
  have "\<not> (stale_at now h m \<and> (is_terminal m \<or> last_activity m = None))"
    by (auto simp: stale_at_def dest: stale_states_live)
  then have "sc_checked (stale_tally now h m r) = sc_checked r + (if stale_at now h m then 1 else 0)"
    "sc_cancelled (stale_tally now h m r) = sc_cancelled r + (if stale_at now h m then 1 else 0)"
    "sc_already_terminal (stale_tally now h m r) = sc_already_terminal r + (if is_terminal m then 1 else 0)"
    by (auto simp: stale_tally_def stale_at_def)
  with Cons.IH [of "stale_tally now h m r"] show ?case by simp
qed simp

lemma run_stale_exact:
  assumes "hook_safe hk" and "cancel_safe cancel" and "manager_ok g"
  shows "\<exists>r g' w'. run_stale_order_timeout hk cancel now nowf h (g, w) = (Inr r, g', w')
    \<and> (\<forall>c. get_machine c g' = map_option (\<lambda>m. if stale_at now h m then timed_out now nowf m else m) (get_machine c g))
    \<and> sc_checked r = int (length (filter (stale_at now h) (get_all g)))
    \<and> sc_cancelled r = sc_checked r
    \<and> sc_already_terminal r = int (length (filter is_terminal (get_all g)))"
proof -
  let ?r = "\<lparr>sc_checked = 0, sc_cancelled = 0, sc_already_terminal = 0, sc_errors = 0\<rparr>"
  obtain g' w' where
      run: "for_each (stale_one hk cancel now nowf h) (dict_keys (mg_machines g)) (g, w, ?r) =
        (None, g', w', fold (stale_tally now h) (get_all g) ?r)"
    and map: "\<forall>c. get_machine c g' =
        map_option (\<lambda>m. if stale_at now h m then timed_out now nowf m else m) (get_machine c g)"
    using loop_all_machines [where body = "stale_one hk cancel now nowf h" and u = "stale_tally now h"
        and w = w and r = ?r, OF stale_one_step [OF assms(1,2)] assms(3)] by blast
  with stale_tally_counts [of now h "get_all g" ?r] show ?thesis
    by (simp add: run_stale_order_timeout_def)
qed

section \<open>The acknowledgement watchdog\<close>

lemma ack_apply_filled:
  assumes "hook_safe hk" and "m_state m = XS_SUBMITTED"
  shows "\<exists>w1 w2 r1 r2 m1. record_acknowledgment hk nowf (m, w) = (Inr r1, m1, w1)
    \<and> record_fill hk nowf (m_quantity m) (m_price m) (m1, w1) = (Inr r2,
        (add_fill nowf (m_quantity m) (m_price m) m)
          \<lparr>m_state := XS_FILLED, m_acknowledged_at := Some (format_ts nowf), m_updated_at := format_ts nowf\<rparr>, w2)"
proof -
  let ?a = "m\<lparr>m_acknowledged_at := Some (format_ts nowf)\<rparr>"
  let ?m1 = "?a\<lparr>m_state := XS_ACKNOWLEDGED, m_updated_at := format_ts nowf\<rparr>"
  obtain w1 where a: "record_acknowledgment hk nowf (m, w) = (Inr True, ?m1, w1)"
    using hook_safe_transition [OF assms(1), of XS_ACKNOWLEDGED ?a] assms(2)
    by (auto simp: record_acknowledgment_def)
  obtain w2 where "try_transition_to hk nowf XS_FILLED (add_fill nowf (m_quantity m) (m_price m) ?m1, w1) =
      (Inr True, (add_fill nowf (m_quantity m) (m_price m) ?m1)\<lparr>m_state := XS_FILLED, m_updated_at := format_ts nowf\<rparr>, w2)"
    using hook_safe_transition [OF assms(1), of XS_FILLED "add_fill nowf (m_quantity m) (m_price m) ?m1"] by auto
  moreover have "(add_fill nowf (m_quantity m) (m_price m) ?m1)\<lparr>m_state := XS_FILLED, m_updated_at := format_ts nowf\<rparr> =
      (add_fill nowf (m_quantity m) (m_price m) m)
        \<lparr>m_state := XS_FILLED, m_acknowledged_at := Some (format_ts nowf), m_updated_at := format_ts nowf\<rparr>"
    by (cases m) (simp add: add_fill_def Let_def)
  ultimately have "record_fill hk nowf (m_quantity m) (m_price m) (?m1, w1) = (Inr True,
      (add_fill nowf (m_quantity m) (m_price m) m)
          \<lparr>m_state := XS_FILLED, m_acknowledged_at := Some (format_ts nowf), m_updated_at := format_ts nowf\<rparr>, w2)"
    by (simp add: record_fill_def)
  with a show ?thesis by blast
qed

lemma ack_apply_exact:
  assumes "hook_safe hk" and "m_state m = XS_SUBMITTED"
  shows "\<exists>res w'. ack_apply hk (\<lambda>b w. (query b, w)) nowf (m, w) = (res, acked query nowf m, w')
    \<and> (res = Inr (ack_outcome_of query m)
        \<or> (\<exists>e b. res = Inl e \<and> query b = Inl e \<and> ack_outcome_of query m = AckError))"
proof (cases "truthy (m_broker_order_id m)")
  case False
  then show ?thesis by (simp add: ack_apply_def acked_def ack_outcome_of_def)
next
  case True
  show ?thesis
  proof (cases "query (the (m_broker_order_id m))")
    case (Inl e)
    with True show ?thesis by (auto simp: ack_apply_def acked_def ack_outcome_of_def)
  next
    case (Inr st)
    show ?thesis
    proof (cases st)
      case None
      with True Inr show ?thesis by (simp add: ack_apply_def acked_def ack_outcome_of_def)
    next
      case (Some status)
      let ?su = "str_upper status"
      consider (fill) "?su \<in> {''COMPLETE'', ''FILLED'', ''EXECUTED''}"
        | (rej) "?su \<notin> {''COMPLETE'', ''FILLED'', ''EXECUTED''}" "?su \<in> {''REJECTED'', ''CANCELLED'', ''EXPIRED''}"
        | (other) "?su \<notin> {''COMPLETE'', ''FILLED'', ''EXECUTED''}" "?su \<notin> {''REJECTED'', ''CANCELLED'', ''EXPIRED''}"
        by blast
      then show ?thesis
      proof cases
        case fill
        moreover have "ack_outcome_of query m = AckAcknowledged"
          using True Inr Some fill by (auto simp: ack_outcome_of_def)
        ultimately show ?thesis
          using True Inr Some ack_apply_filled [OF assms, of nowf w]
          by (auto simp: ack_apply_def acked_def Let_def)
      next
        case rej
        moreover have "ack_outcome_of query m = AckAcknowledged"
          using True Inr Some rej(2) by (auto simp: ack_outcome_of_def)
        moreover obtain w' where "try_transition_to hk nowf XS_REJECTED (m, w) =
            (Inr True, m\<lparr>m_state := XS_REJECTED, m_updated_at := format_ts nowf\<rparr>, w')"
          using hook_safe_transition [OF assms(1), of XS_REJECTED m] assms(2) by auto
        ultimately show ?thesis
          using True Inr Some by (auto simp: ack_apply_def acked_def Let_def)
      next
        case other
        moreover have "ack_outcome_of query m = AckPending"
          using True Inr Some other by (auto simp: ack_outcome_of_def)
        ultimately show ?thesis
          using True Inr Some by (auto simp: ack_apply_def acked_def Let_def)
      qed
    qed
  qed
qed

lemma ack_one_step:
  assumes "hook_safe hk" and "query_safe query" and m: "map_of (mg_machines g) cid = Some m"
  shows "\<exists>w'. ack_one hk (\<lambda>b w. (query b, w)) now nowf h cid (g, w, r) =
    (None, g\<lparr>mg_machines := dict_set cid (if unacked_at now h m then acked query nowf m else m) (mg_machines g)\<rparr>,
     w', ack_tally query now h m r)"
proof (cases "unacked_at now h m")
  case False
  have "g\<lparr>mg_machines := dict_set cid m (mg_machines g)\<rparr> = g" using m by (simp add: dict_set_same)
  with False m show ?thesis
    by (auto simp: ack_one_def get_machine_def ack_tally_def unacked_at_def parse_ts_def
        split: option.splits stamp.splits)
next
  case True
  then obtain t where t: "m_state m = XS_SUBMITTED" "m_submitted_at m = Some (At t)" "\<not> now - t < h"
    by (auto simp: unacked_at_def)
  obtain res w' where a: "ack_apply hk (\<lambda>b w. (query b, w)) nowf (m, w) = (res, acked query nowf m, w')"
    and res: "res = Inr (ack_outcome_of query m)
        \<or> (\<exists>e b. res = Inl e \<and> query b = Inl e \<and> ack_outcome_of query m = AckError)"
    using ack_apply_exact [OF assms(1) t(1)] by blast
  have "caught [ValueError, OSError, AttributeError] e" if "query b = Inl e" for e b
    using assms(2) that by (auto simp: query_safe_def)
  with True t m a res show ?thesis
    by (auto simp: ack_one_def get_machine_def parse_ts_def Let_def ack_tally_def)
qed

lemma run_ack_exact:
  assumes "hook_safe hk" and "query_safe query" and "manager_ok g"
  shows "\<exists>r g' w'. run_ack_watchdog hk (\<lambda>b w. (query b, w)) now nowf h (g, w) = (Inr r, g', w')
    \<and> (\<forall>c. get_machine c g' = map_option (\<lambda>m. if unacked_at now h m then acked query nowf m else m) (get_machine c g))
    \<and> ac_checked r = int (length (filter (unacked_at now h) (get_all g)))"
proof -
  let ?r = "\<lparr>ac_checked = 0, ac_acknowledged = 0, ac_still_pending = 0, ac_errors = 0\<rparr>"
  obtain g' w' where
      run: "for_each (ack_one hk (\<lambda>b w. (query b, w)) now nowf h) (dict_keys (mg_machines g)) (g, w, ?r) =
        (None, g', w', fold (ack_tally query now h) (get_all g) ?r)"
    and map: "\<forall>c. get_machine c g' =
        map_option (\<lambda>m. if unacked_at now h m then acked query nowf m else m) (get_machine c g)"
    using loop_all_machines [where body = "ack_one hk (\<lambda>b w. (query b, w)) now nowf h"
        and u = "ack_tally query now h" and w = w and r = ?r, OF ack_one_step [OF assms(1,2)] assms(3)] by blast
  have count: "ac_checked (ack_count oc r) = ac_checked r" for oc r by (cases oc) simp_all
  have "ac_checked (fold (ack_tally query now h) ms r) = ac_checked r + int (length (filter (unacked_at now h) ms))"
    for ms r
    by (induction ms arbitrary: r) (simp_all add: ack_tally_def count)
  with run map show ?thesis by (simp add: run_ack_watchdog_def)
qed

section \<open>Properties\<close>

text \<open>
  The stale order timeout fails exactly the stale orders: with a persistence hook that works and
  a broker whose cancellation failures are the caught ones, it returns; each machine that has been in
  a stale state for at least the limit ends \<open>FAILED\<close> with the timeout as its error, whether or not
  the broker cancelled anything; every other machine keeps every field; and the counters are the
  numbers of stale and of terminal machines.
\<close>

lemma stale_timeout_exact:
  assumes "hook_safe hk" and "cancel_safe cancel" and "manager_ok g"
  shows "\<exists>r g' w'. run_stale_order_timeout hk cancel now nowf h (g, w) = (Inr r, g', w')
    \<and> (\<forall>c. get_machine c g' = map_option (\<lambda>m. if stale_at now h m then timed_out now nowf m else m) (get_machine c g))
    \<and> sc_checked r = int (length (filter (stale_at now h) (get_all g)))
    \<and> sc_cancelled r = sc_checked r
    \<and> sc_already_terminal r = int (length (filter is_terminal (get_all g)))"
  by (rule run_stale_exact [OF assms])

definition sample_manager :: "xstate \<Rightarrow> esm_manager" where
  "sample_manager st = \<lparr>mg_machines = [(''OPB-i'', (new_esm 0 ''i'' ''OPB-i'' ''NIFTY'' 50 200 ''BUY'' True)
     \<lparr>m_state := st, m_broker_order_id := Some ''B1'', m_submitted_at := Some (At 0)\<rparr>)], mg_hook = True\<rparr>"

lemma sample_manager_ok: "manager_ok (sample_manager st)"
  by (simp add: sample_manager_def manager_ok_def new_esm_def generate_client_order_id_def dict_ok_def dict_keys_def)

text \<open>
  The acknowledgement watchdog settles exactly the submitted orders that waited too long: with a
  working hook and a broker whose failures are the caught ones it returns; each machine that is
  \<open>SUBMITTED\<close> for at least the limit becomes what the broker's answer makes of it (filled with the
  whole ordered quantity at the order price, rejected, or unchanged); every other machine keeps every
  field; and the number checked is the number of such machines.
\<close>

lemma ack_watchdog_exact:
  assumes "hook_safe hk" and "query_safe query" and "manager_ok g"
  shows "\<exists>r g' w'. run_ack_watchdog hk (\<lambda>b w. (query b, w)) now nowf h (g, w) = (Inr r, g', w')
    \<and> (\<forall>c. get_machine c g' = map_option (\<lambda>m. if unacked_at now h m then acked query nowf m else m) (get_machine c g))
    \<and> ac_checked r = int (length (filter (unacked_at now h) (get_all g)))"
  by (rule run_ack_exact [OF assms])

text \<open>
  Two clocks disagree: a machine submitted at this very instant by the host's clock is stale for
  the timeout when \<open>now_ist()\<close> is ahead of the host's clock by the limit or more (five and a half
  hours on a host that runs on UTC), so the timeout fails it at once.
\<close>

lemma fresh_order_stale_under_clock_skew:
  assumes "record_submission hk nowf bid (m, w) = (Inr True, m', w')" and "now \<ge> nowf + h"
  shows "stale_at now h m'"
proof -
  from assms(1) have tr: "try_transition_to hk nowf XS_SUBMITTED
      (m\<lparr>m_broker_order_id := Some bid, m_submitted_at := Some (format_ts nowf)\<rparr>, w) = (Inr True, m', w')"
    by (auto simp: record_submission_def split: if_splits)
  have "m_state m' = XS_SUBMITTED" using try_transition_True [OF tr] by simp
  moreover have "m_submitted_at m' = Some (format_ts nowf)"
    using transition_of_submitted [OF try_transition_of [OF tr]] by simp
  moreover have "now - of_int \<lfloor>nowf\<rfloor> \<ge> h" using assms(2) by linarith
  ultimately show ?thesis
    by (auto simp: stale_at_def last_activity_def format_ts_def parse_ts_def stale_states_def)
qed

end
