(* ===== verification/Order_Manager.thy ===== *)
theory Order_Manager
  imports Prelude
begin

text \<open>
  The order manager, \<open>core/execution/order_manager.py\<close>, with what it sends orders through: the broker
  gateway (\<open>core/execution/broker_gateway.py\<close>), the data classes of
  \<open>core/adapters/base_adapter.py\<close> and the TWAP slicing of \<open>core/execution/algo_router.py\<close>.

  A broker adapter is third-party code behind an abstract class: it is a record of functions on a
  world of type \<open>'w\<close>. The manager's state holds its four dictionaries and the rows of its SQLite
  table; \<open>dbx\<close> is the exception a database access raises, \<open>None\<close> when it succeeds. A request is
  stored as JSON text and read back: the column is the parsed object, \<open>None\<close> for a text that does
  not parse or is missing.

  \<open>execute_intent\<close> is split where the code releases its lock: \<open>intent_check\<close> (under the lock),
  \<open>intent_wait\<close> (after waiting for another thread's event) and \<open>intent_submit\<close> (everything after the
  check); the interleavings of two callers are sequences of these steps.
\<close>

section \<open>Definitions\<close>

datatype order_status =
    OS_NEW | OS_PENDING | OS_VALIDATED | OS_SUBMITTED | OS_ACKNOWLEDGED | OS_PARTIAL_FILL | OS_FILLED
  | OS_CANCEL_PENDING | OS_CANCELLED | OS_REJECTED | OS_FAILED | OS_UNKNOWN | OS_RECONCILING

fun os_name :: "order_status \<Rightarrow> string" where
  "os_name OS_NEW = ''NEW''"
| "os_name OS_PENDING = ''PENDING''"
| "os_name OS_VALIDATED = ''VALIDATED''"
| "os_name OS_SUBMITTED = ''SUBMITTED''"
| "os_name OS_ACKNOWLEDGED = ''ACKNOWLEDGED''"
| "os_name OS_PARTIAL_FILL = ''PARTIAL_FILL''"
| "os_name OS_FILLED = ''FILLED''"
| "os_name OS_CANCEL_PENDING = ''CANCEL_PENDING''"
| "os_name OS_CANCELLED = ''CANCELLED''"
| "os_name OS_REJECTED = ''REJECTED''"
| "os_name OS_FAILED = ''FAILED''"
| "os_name OS_UNKNOWN = ''UNKNOWN''"
| "os_name OS_RECONCILING = ''RECONCILING''"

definition all_order_statuses :: "order_status list" where
  "all_order_statuses = [OS_NEW, OS_PENDING, OS_VALIDATED, OS_SUBMITTED, OS_ACKNOWLEDGED, OS_PARTIAL_FILL,
     OS_FILLED, OS_CANCEL_PENDING, OS_CANCELLED, OS_REJECTED, OS_FAILED, OS_UNKNOWN, OS_RECONCILING]"

record order_request =
  rq_symbol :: string
  rq_qty :: int
  rq_price :: real
  rq_order_type :: string
  rq_direction :: string
  rq_product :: string
  rq_variety :: string
  rq_tag :: string
  rq_idempotency_key :: string

record order_response =
  rs_order_id :: string
  rs_status :: order_status
  rs_filled_qty :: int
  rs_avg_price :: real
  rs_error :: "string option"

definition response :: "string \<Rightarrow> order_status \<Rightarrow> order_response" where
  "response oid st = \<lparr>rs_order_id = oid, rs_status = st, rs_filled_qty = 0, rs_avg_price = 0, rs_error = None\<rparr>"

subsection \<open>TWAP slicing\<close>

text \<open>The quantities of the slices \<open>execute_twap\<close> sends, in order.\<close>

definition twap_plan :: "int \<Rightarrow> int \<Rightarrow> int list" where
  "twap_plan total_qty slices =
     (if slices \<le> 1 then [total_qty]
      else
        (let slice_qty = max 1 (total_qty div slices); remainder = total_qty mod slices
         in map (\<lambda>i. slice_qty + (if i = nat slices - 1 then remainder else 0)) [0..<nat slices]))"

text \<open>The worker: it stops at the first slice whose callback fails.\<close>

fun twap_worker :: "(int \<Rightarrow> 'w \<Rightarrow> bool \<times> 'w) \<Rightarrow> int list \<Rightarrow> 'w \<Rightarrow> 'w" where
  "twap_worker cb [] w = w"
| "twap_worker cb (q # qs) w = (case cb q w of (True, w') \<Rightarrow> twap_worker cb qs w' | (False, w') \<Rightarrow> w')"

subsection \<open>The broker gateway\<close>

record 'w adapter =
  ad_authenticate :: "(string, string) dict \<Rightarrow> 'w \<Rightarrow> (exn + bool) \<times> 'w"
  ad_place_order :: "order_request \<Rightarrow> 'w \<Rightarrow> (exn + order_response) \<times> 'w"
  ad_get_ltp :: "string \<Rightarrow> 'w \<Rightarrow> (exn + real) \<times> 'w"

record 'w gateway =
  gw_active :: "'w adapter option"
  gw_registry :: "(string, 'w \<Rightarrow> (exn + 'w adapter) \<times> 'w) dict"
  gw_current :: "string option"

definition register_adapter ::
    "string \<Rightarrow> ('w \<Rightarrow> (exn + 'w adapter) \<times> 'w) \<Rightarrow> 'w gateway \<Rightarrow> 'w gateway" where
  "register_adapter name cls gw = gw\<lparr>gw_registry := dict_set name cls (gw_registry gw)\<rparr>"

definition connect_caught :: "exn_class list" where
  "connect_caught = [ValueError, TypeError, KeyError, AttributeError, OSError, ConnectionError, TimeoutError]"

definition gateway_connect ::
    "string \<Rightarrow> (string, string) dict \<Rightarrow> 'w gateway \<times> 'w \<Rightarrow> (exn + bool) \<times> 'w gateway \<times> 'w" where
  "gateway_connect name cred = (\<lambda>(gw, w).
     case map_of (gw_registry gw) name of
       None \<Rightarrow> (Inr False, gw, w)
     | Some cls \<Rightarrow>
       (case cls w of
          (Inl e, w1) \<Rightarrow> (if caught connect_caught e then Inr False else Inl e, gw, w1)
        | (Inr ad, w1) \<Rightarrow>
          (case ad_authenticate ad cred w1 of
             (Inl e, w2) \<Rightarrow> (if caught connect_caught e then Inr False else Inl e, gw, w2)
           | (Inr True, w2) \<Rightarrow> (Inr True, gw\<lparr>gw_active := Some ad, gw_current := Some name\<rparr>, w2)
           | (Inr False, w2) \<Rightarrow> (Inr False, gw, w2))))"

definition gateway_get_ltp :: "string \<Rightarrow> 'w gateway \<Rightarrow> 'w \<Rightarrow> real \<times> 'w" where
  "gateway_get_ltp symb gw w =
     (case gw_active gw of
        None \<Rightarrow> (0, w)
      | Some ad \<Rightarrow> (case ad_get_ltp ad symb w of (Inr p, w') \<Rightarrow> (p, w') | (Inl e, w') \<Rightarrow> (0, w')))"

text \<open>The callback of the TWAP branch: one market order per slice; any exception is a failed slice.\<close>

definition twap_execute :: "'w adapter \<Rightarrow> order_request \<Rightarrow> int \<Rightarrow> 'w \<Rightarrow> bool \<times> 'w" where
  "twap_execute ad rq q w =
     (case ad_place_order ad (rq\<lparr>rq_qty := q, rq_order_type := ''MARKET''\<rparr>) w of
        (Inr res, w') \<Rightarrow> (rs_status res \<noteq> OS_FAILED, w')
      | (Inl e, w') \<Rightarrow> (False, w'))"

definition place_caught :: "exn_class list" where
  "place_caught = [ValueError, TypeError, OSError, ConnectionError, TimeoutError, AttributeError]"

text \<open>
  \<open>place_order\<close>. The TWAP worker runs in a thread of its own; its calls are placed here in the
  world the caller gets back, that is, at once.
\<close>

definition gateway_place_order ::
    "'w gateway \<Rightarrow> order_request \<Rightarrow> 'w \<Rightarrow> (exn + order_response) \<times> 'w" where
  "gateway_place_order gw rq w =
     (case gw_active gw of
        None \<Rightarrow> (Inr ((response ''NONE'' OS_FAILED)\<lparr>rs_error := Some ''No active broker connected''\<rparr>), w)
      | Some ad \<Rightarrow>
        if rq_order_type rq = ''TWAP'' then
          (case gateway_get_ltp (rq_symbol rq) gw w of (price, w1) \<Rightarrow>
             (Inr (response ''TWAP_ALGO_ROUTED'' OS_PENDING),
              twap_worker (twap_execute ad rq) (twap_plan (rq_qty rq) 5) w1))
        else
          (case ad_place_order ad rq w of
             (Inr res, w') \<Rightarrow> (Inr res, w')
           | (Inl e, w') \<Rightarrow>
               (if caught place_caught e
                then Inr ((response ''ERROR'' OS_FAILED)\<lparr>rs_error := Some (exn_msg e)\<rparr>) else Inl e, w')))"

subsection \<open>The manager\<close>

record order_state =
  o_intent_id :: string
  o_request :: order_request
  o_status :: order_status
  o_broker_order_id :: "string option"
  o_filled_qty :: int
  o_avg_price :: real
  o_created_at :: stamp
  o_updated_at :: stamp
  o_error :: "string option"

text \<open>The object \<open>json.loads\<close> returns: keys may be missing.\<close>

record req_data =
  rd_symbol :: "string option"
  rd_qty :: "int option"
  rd_price :: "real option"
  rd_order_type :: "string option"
  rd_direction :: "string option"
  rd_product :: "string option"
  rd_variety :: "string option"
  rd_tag :: "string option"
  rd_idempotency_key :: "string option"

record order_row =
  w_intent_id :: string
  w_broker_order_id :: "string option"
  w_request_json :: "req_data option"
  w_status :: string
  w_filled_qty :: int
  w_avg_price :: real
  w_created_at :: stamp
  w_updated_at :: stamp
  w_error_text :: "string option"

record order_manager =
  om_orders :: "(string, order_state) dict"
  om_broker_map :: "(string, string) dict"
  om_intent_map :: "(string, string) dict"
  om_events :: "(string, bool) dict"
  om_table :: "order_row list"

definition req_to_data :: "order_request \<Rightarrow> req_data" where
  "req_to_data r = \<lparr>rd_symbol = Some (rq_symbol r), rd_qty = Some (rq_qty r), rd_price = Some (rq_price r),
     rd_order_type = Some (rq_order_type r), rd_direction = Some (rq_direction r),
     rd_product = Some (rq_product r), rd_variety = Some (rq_variety r), rd_tag = Some (rq_tag r),
     rd_idempotency_key = Some (rq_idempotency_key r)\<rparr>"

definition order_to_row :: "order_state \<Rightarrow> order_row" where
  "order_to_row ord = \<lparr>w_intent_id = o_intent_id ord, w_broker_order_id = o_broker_order_id ord,
     w_request_json = Some (req_to_data (o_request ord)), w_status = os_name (o_status ord),
     w_filled_qty = o_filled_qty ord, w_avg_price = o_avg_price ord, w_created_at = o_created_at ord,
     w_updated_at = o_updated_at ord, w_error_text = o_error ord\<rparr>"

text \<open>
  \<open>INSERT OR REPLACE\<close> into a table with primary key \<open>intent_id\<close> and \<open>UNIQUE broker_order_id\<close>: every
  row that conflicts on either is deleted; \<open>NULL\<close> conflicts with nothing.
\<close>

definition row_conflict :: "order_row \<Rightarrow> order_row \<Rightarrow> bool" where
  "row_conflict row x \<longleftrightarrow> w_intent_id x = w_intent_id row
     \<or> w_broker_order_id row \<noteq> None \<and> w_broker_order_id x = w_broker_order_id row"

definition insert_or_replace :: "order_row \<Rightarrow> order_row list \<Rightarrow> order_row list" where
  "insert_or_replace row t = filter (\<lambda>x. \<not> row_conflict row x) t @ [row]"

definition persist_order :: "exn option \<Rightarrow> order_state \<Rightarrow> order_manager \<Rightarrow> exn option \<times> order_manager" where
  "persist_order dbx ord om =
     (case dbx of
        None \<Rightarrow> (None, om\<lparr>om_table := insert_or_replace (order_to_row ord) (om_table om)\<rparr>)
      | Some e \<Rightarrow> if caught [JSONDecodeError, OSError] e then (None, om) else (Some e, om))"

definition opt_or :: "'a option \<Rightarrow> 'a \<Rightarrow> 'a" where
  "opt_or x d = (case x of None \<Rightarrow> d | Some v \<Rightarrow> v)"

definition empty_data :: req_data where
  "empty_data = \<lparr>rd_symbol = None, rd_qty = None, rd_price = None, rd_order_type = None, rd_direction = None,
     rd_product = None, rd_variety = None, rd_tag = None, rd_idempotency_key = None\<rparr>"

definition data_to_req :: "req_data \<Rightarrow> order_request" where
  "data_to_req d = \<lparr>rq_symbol = opt_or (rd_symbol d) [], rq_qty = opt_or (rd_qty d) 0,
     rq_price = opt_or (rd_price d) 0, rq_order_type = opt_or (rd_order_type d) ''MARKET'',
     rq_direction = opt_or (rd_direction d) ''BUY'', rq_product = opt_or (rd_product d) ''MIS'',
     rq_variety = opt_or (rd_variety d) ''REGULAR'', rq_tag = opt_or (rd_tag d) ''OPB_BOT'',
     rq_idempotency_key = opt_or (rd_idempotency_key d) []\<rparr>"

definition status_of_name :: "string \<Rightarrow> order_status" where
  "status_of_name v = (case find (\<lambda>s. os_name s = v) all_order_statuses of Some s \<Rightarrow> s | None \<Rightarrow> OS_UNKNOWN)"

text \<open>\<open>uuid\<close> is the fresh id a row with an empty intent id gets.\<close>

definition row_to_order :: "string \<Rightarrow> order_row \<Rightarrow> order_state" where
  "row_to_order uuid row = \<lparr>
     o_intent_id = (if w_intent_id row = [] then uuid else w_intent_id row),
     o_request = data_to_req (opt_or (w_request_json row) empty_data),
     o_status = status_of_name (w_status row), o_broker_order_id = w_broker_order_id row,
     o_filled_qty = w_filled_qty row, o_avg_price = w_avg_price row, o_created_at = w_created_at row,
     o_updated_at = w_updated_at row, o_error = w_error_text row\<rparr>"

definition row_in_flight :: "order_row \<Rightarrow> bool" where
  "row_in_flight row \<longleftrightarrow> w_status row \<notin> {''FILLED'', ''REJECTED'', ''CANCELLED'', ''FAILED''}"

definition load_row :: "string \<Rightarrow> order_row \<Rightarrow> order_manager \<Rightarrow> order_manager" where
  "load_row uuid row om =
     (let ord = row_to_order uuid row;
          om1 = om\<lparr>om_orders := dict_set (o_intent_id ord) ord (om_orders om)\<rparr>;
          om2 = (if truthy (o_broker_order_id ord)
                 then om1\<lparr>om_broker_map := dict_set (the (o_broker_order_id ord)) (o_intent_id ord) (om_broker_map om1)\<rparr>
                 else om1)
      in if o_intent_id ord \<noteq> []
         then om2\<lparr>om_intent_map := dict_set (o_intent_id ord) (str_or (o_broker_order_id ord) []) (om_intent_map om2)\<rparr>
         else om2)"

definition load_orders_from_disk :: "exn option \<Rightarrow> string \<Rightarrow> order_manager \<Rightarrow> exn option \<times> order_manager" where
  "load_orders_from_disk dbx uuid om =
     (case dbx of
        None \<Rightarrow> (None, fold (load_row uuid) (filter row_in_flight (om_table om)) om)
      | Some e \<Rightarrow> if caught [OSError, SqliteError, JSONDecodeError, ValueError, TypeError] e
                  then (None, om) else (Some e, om))"

text \<open>The constructor, on the table a previous process left.\<close>

definition new_order_manager :: "exn option \<Rightarrow> string \<Rightarrow> order_row list \<Rightarrow> exn option \<times> order_manager" where
  "new_order_manager dbx uuid t =
     load_orders_from_disk dbx uuid
       \<lparr>om_orders = [], om_broker_map = [], om_intent_map = [], om_events = [], om_table = t\<rparr>"

fun order_transitions :: "order_status \<Rightarrow> order_status list" where
  "order_transitions OS_NEW = [OS_VALIDATED, OS_FAILED]"
| "order_transitions OS_VALIDATED = [OS_SUBMITTED, OS_ACKNOWLEDGED, OS_FAILED]"
| "order_transitions OS_SUBMITTED = [OS_ACKNOWLEDGED, OS_REJECTED, OS_FAILED]"
| "order_transitions OS_ACKNOWLEDGED = [OS_PARTIAL_FILL, OS_FILLED, OS_CANCEL_PENDING, OS_FAILED]"
| "order_transitions OS_PARTIAL_FILL = [OS_PARTIAL_FILL, OS_FILLED, OS_CANCEL_PENDING, OS_FAILED]"
| "order_transitions OS_CANCEL_PENDING = [OS_CANCELLED, OS_FILLED, OS_FAILED]"
| "order_transitions _ = []"

definition om_validate_transition :: "order_status \<Rightarrow> order_status \<Rightarrow> bool" where
  "om_validate_transition current next \<longleftrightarrow> next \<in> set (order_transitions current)"

definition order_response_of :: "string \<Rightarrow> order_state \<Rightarrow> order_response" where
  "order_response_of oid ord = \<lparr>rs_order_id = oid, rs_status = o_status ord, rs_filled_qty = o_filled_qty ord,
     rs_avg_price = o_avg_price ord, rs_error = o_error ord\<rparr>"

definition get_order_response :: "string \<Rightarrow> order_manager \<Rightarrow> order_response" where
  "get_order_response bid om =
     (let by_bid = map_of (om_orders om) bid;
          found = (case map_of (om_broker_map om) bid of
                     Some i \<Rightarrow> if i \<noteq> [] \<and> map_of (om_orders om) i \<noteq> None then map_of (om_orders om) i else by_bid
                   | None \<Rightarrow> by_bid)
      in case found of
           None \<Rightarrow> (response ''NOT_FOUND'' OS_FAILED)\<lparr>rs_error := Some ''Order not found''\<rparr>
         | Some ord \<Rightarrow> order_response_of (str_or (o_broker_order_id ord) bid) ord)"

datatype check_result = Existing order_response | MustWait | Fresh

definition intent_check :: "string \<Rightarrow> order_manager \<Rightarrow> check_result" where
  "intent_check i om =
     (case map_of (om_orders om) i of
        None \<Rightarrow> Fresh
      | Some ord \<Rightarrow>
          if truthy (map_of (om_intent_map om) i)
          then Existing (get_order_response (the (map_of (om_intent_map om) i)) om)
          else if map_of (om_events om) i = None
          then Existing (order_response_of (str_or (o_broker_order_id ord) []) ord)
          else MustWait)"

text \<open>After the wait: the order is there, for nothing removes orders.\<close>

definition intent_wait :: "string \<Rightarrow> order_manager \<Rightarrow> exn + order_response" where
  "intent_wait i om =
     (if truthy (map_of (om_intent_map om) i)
      then Inr (get_order_response (the (map_of (om_intent_map om) i)) om)
      else case map_of (om_orders om) i of
        None \<Rightarrow> Inl (Exn KeyError i)
      | Some ord \<Rightarrow> Inr (order_response_of (str_or (o_broker_order_id ord) []) ord))"

definition set_event :: "string \<Rightarrow> order_manager \<Rightarrow> order_manager" where
  "set_event i om = (if map_of (om_events om) i = None then om else om\<lparr>om_events := dict_set i True (om_events om)\<rparr>)"

text \<open>
  The order of phase 1. \<open>put_order\<close> is an assignment to the order object, which the dictionary holds.
\<close>

definition new_order :: "real \<Rightarrow> string \<Rightarrow> order_request \<Rightarrow> order_state" where
  "new_order now i rq = \<lparr>o_intent_id = i, o_request = rq, o_status = OS_VALIDATED, o_broker_order_id = None,
     o_filled_qty = 0, o_avg_price = 0, o_created_at = format_ts now, o_updated_at = format_ts now, o_error = None\<rparr>"

definition put_order :: "order_state \<Rightarrow> order_manager \<Rightarrow> order_manager" where
  "put_order ord om = om\<lparr>om_orders := dict_set (o_intent_id ord) ord (om_orders om)\<rparr>"

text \<open>The end of a submission the broker failed, and of one it confirmed (phase 3).\<close>

definition submit_failed ::
    "exn option \<Rightarrow> real \<Rightarrow> order_state \<Rightarrow> order_response \<Rightarrow> order_manager \<Rightarrow> (exn + order_response) \<times> order_manager" where
  "submit_failed dbx now ord res om =
     (let ord1 = ord\<lparr>o_status := OS_FAILED, o_error := rs_error res, o_updated_at := format_ts now\<rparr>
      in case persist_order dbx ord1 (put_order ord1 om) of
           (Some e, om') \<Rightarrow> (Inl e, om')
         | (None, om') \<Rightarrow> (Inr res, set_event (o_intent_id ord) om'))"

definition link_ids :: "string \<Rightarrow> string \<Rightarrow> order_manager \<Rightarrow> order_manager" where
  "link_ids oid i om =
     (if oid \<noteq> [] then
        om\<lparr>om_broker_map := dict_set oid i (om_broker_map om), om_intent_map := dict_set i oid (om_intent_map om)\<rparr>
      else om)"

definition submit_confirmed ::
    "exn option \<Rightarrow> real \<Rightarrow> order_state \<Rightarrow> order_response \<Rightarrow> order_manager \<Rightarrow> (exn + order_response) \<times> order_manager" where
  "submit_confirmed dbx now ord res om =
     (let ord1 = ord\<lparr>o_broker_order_id := Some (rs_order_id res), o_status := OS_ACKNOWLEDGED,
                     o_filled_qty := rs_filled_qty res, o_avg_price := rs_avg_price res,
                     o_updated_at := format_ts now\<rparr>
      in case persist_order dbx ord1 (link_ids (rs_order_id res) (o_intent_id ord) (put_order ord1 om)) of
           (Some e, om') \<Rightarrow> (Inl e, om')
         | (None, om') \<Rightarrow> (Inr res, set_event (o_intent_id ord) om'))"

text \<open>\<open>dbx1\<close> and \<open>dbx2\<close> are the outcomes of the two database writes.\<close>

definition intent_submit ::
    "exn option \<Rightarrow> exn option \<Rightarrow> real \<Rightarrow> 'w gateway \<Rightarrow> string \<Rightarrow> order_request
      \<Rightarrow> order_manager \<times> 'w \<Rightarrow> (exn + order_response) \<times> order_manager \<times> 'w" where
  "intent_submit dbx1 dbx2 now gw i rq = (\<lambda>(om, w).
     let ord = new_order now i rq;
         om1 = (put_order ord om)\<lparr>om_events := dict_set i False (om_events om), om_intent_map := dict_set i [] (om_intent_map om)\<rparr>
     in case persist_order dbx1 ord om1 of
          (Some e, om2) \<Rightarrow> (Inl e, om2, w)
        | (None, om2) \<Rightarrow>
          (case gateway_place_order gw rq w of
             (Inl e, w') \<Rightarrow> (Inl e, om2, w')
           | (Inr res, w') \<Rightarrow>
             (case (if rs_status res = OS_FAILED then submit_failed dbx2 now ord res om2
                    else submit_confirmed dbx2 now ord res om2) of
                (r, om3) \<Rightarrow> (r, om3, w'))))"

definition execute_intent ::
    "exn option \<Rightarrow> exn option \<Rightarrow> real \<Rightarrow> 'w gateway \<Rightarrow> string \<Rightarrow> order_request
      \<Rightarrow> order_manager \<times> 'w \<Rightarrow> (exn + order_response) \<times> order_manager \<times> 'w" where
  "execute_intent dbx1 dbx2 now gw i rq s =
     (case intent_check i (fst s) of
        Existing res \<Rightarrow> (Inr res, s)
      | MustWait \<Rightarrow> (intent_wait i (fst s), s)
      | Fresh \<Rightarrow> intent_submit dbx1 dbx2 now gw i rq s)"

definition update_order_status ::
    "exn option \<Rightarrow> real \<Rightarrow> string \<Rightarrow> order_status \<Rightarrow> int \<Rightarrow> real \<Rightarrow> order_manager \<Rightarrow> exn option \<times> order_manager" where
  "update_order_status dbx now bid new fq ap om =
     (case map_of (om_broker_map om) bid of
        None \<Rightarrow> (None, om)
      | Some i \<Rightarrow>
        (if i = [] then (None, om)
         else case map_of (om_orders om) i of
           None \<Rightarrow> (None, om)
         | Some ord \<Rightarrow>
           if \<not> om_validate_transition (o_status ord) new then (None, om)
           else
             (let ord1 = ord\<lparr>o_status := new, o_filled_qty := fq, o_avg_price := ap, o_updated_at := format_ts now\<rparr>
              in persist_order dbx ord1 (put_order ord1 om))))"

subsection \<open>Runs\<close>

datatype om_op =
    OpExecute "exn option" "exn option" real string order_request
  | OpStatus "exn option" real string order_status int real

fun om_step :: "'w gateway \<Rightarrow> om_op \<Rightarrow> order_manager \<times> 'w \<Rightarrow> order_manager \<times> 'w" where
  "om_step gw (OpExecute dbx1 dbx2 now i rq) s = snd (execute_intent dbx1 dbx2 now gw i rq s)"
| "om_step gw (OpStatus dbx now bid new fq ap) s = (snd (update_order_status dbx now bid new fq ap (fst s)), snd s)"

text \<open>
  An adapter that also keeps the list of the orders it is called for, and the gateway with such an
  adapter: the world is paired with the list.
\<close>

definition logged_adapter :: "'w adapter \<Rightarrow> ('w \<times> order_request list) adapter" where
  "logged_adapter ad =
     \<lparr>ad_authenticate = (\<lambda>cred (w, l). case ad_authenticate ad cred w of (r, w') \<Rightarrow> (r, w', l)),
      ad_place_order = (\<lambda>rq (w, l). case ad_place_order ad rq w of (r, w') \<Rightarrow> (r, w', l @ [rq])),
      ad_get_ltp = (\<lambda>symb (w, l). case ad_get_ltp ad symb w of (r, w') \<Rightarrow> (r, w', l))\<rparr>"

definition logged_gateway :: "'w gateway \<Rightarrow> ('w \<times> order_request list) gateway" where
  "logged_gateway gw = \<lparr>gw_active = map_option logged_adapter (gw_active gw), gw_registry = [], gw_current = gw_current gw\<rparr>"

text \<open>The orders the adapter gets from the calls for the intent \<open>i\<close> in a run.\<close>

fun orders_sent :: "'w gateway \<Rightarrow> string \<Rightarrow> om_op list \<Rightarrow> order_manager \<times> 'w \<times> order_request list \<Rightarrow> order_request list" where
  "orders_sent gw i [] s = []"
| "orders_sent gw i (op # ops) s =
     (let s' = om_step (logged_gateway gw) op s
      in (case op of
            OpExecute _ _ _ j _ \<Rightarrow> if j = i then drop (length (snd (snd s))) (snd (snd s')) else []
          | OpStatus _ _ _ _ _ _ \<Rightarrow> []) @ orders_sent gw i ops s')"

text \<open>The slices of a TWAP order.\<close>

definition twap_orders :: "order_request \<Rightarrow> order_request list" where
  "twap_orders rq = map (\<lambda>q. rq\<lparr>rq_qty := q, rq_order_type := ''MARKET''\<rparr>) (twap_plan (rq_qty rq) 5)"

text \<open>What one submission of a request may send.\<close>

definition one_submission :: "order_request \<Rightarrow> order_request list \<Rightarrow> bool" where
  "one_submission rq l \<longleftrightarrow> l = [] \<or> (if rq_order_type rq = ''TWAP'' then \<exists>n. l = take n (twap_orders rq) else l = [rq])"

inductive ostep :: "order_status \<Rightarrow> order_status \<Rightarrow> bool" where
  ostepI: "om_validate_transition s t \<Longrightarrow> ostep s t"

definition om_ok :: "order_manager \<Rightarrow> bool" where
  "om_ok om \<longleftrightarrow> (\<forall>i ord. map_of (om_orders om) i = Some ord \<longrightarrow> o_intent_id ord = i)"

text \<open>Orders are never dropped, and their status moves along the table.\<close>

definition om_le :: "order_manager \<Rightarrow> order_manager \<Rightarrow> bool" where
  "om_le om om' \<longleftrightarrow> (\<forall>i ord. map_of (om_orders om) i = Some ord \<longrightarrow>
     (\<exists>ord'. map_of (om_orders om') i = Some ord' \<and> ostep\<^sup>*\<^sup>* (o_status ord) (o_status ord')))"

text \<open>
  The table agrees with the memory: rows have unique keys and broker ids, every order has its row,
  and a row in flight is the row of an order.
\<close>

definition om_synced :: "order_manager \<Rightarrow> bool" where
  "om_synced om \<longleftrightarrow> om_ok om \<and> distinct (map w_intent_id (om_table om))
     \<and> (\<forall>x \<in> set (om_table om). \<forall>y \<in> set (om_table om).
          w_broker_order_id x \<noteq> None \<and> w_broker_order_id x = w_broker_order_id y \<longrightarrow> x = y)
     \<and> (\<forall>i ord. map_of (om_orders om) i = Some ord \<longrightarrow> i \<noteq> [] \<and> order_to_row ord \<in> set (om_table om))
     \<and> (\<forall>row \<in> set (om_table om). w_intent_id row \<noteq> []
          \<and> (row_in_flight row \<longrightarrow> (\<exists>ord. map_of (om_orders om) (w_intent_id row) = Some ord)))"

text \<open>
  A clean call: the database answers, the intent id is not empty, and an order id the broker returns
  for a new order is none that the table already holds.
\<close>

definition new_id :: "string \<Rightarrow> order_manager \<Rightarrow> bool" where
  "new_id oid om \<longleftrightarrow> (\<forall>row \<in> set (om_table om). w_broker_order_id row \<noteq> Some oid)"

fun clean_op :: "'w gateway \<Rightarrow> om_op \<Rightarrow> order_manager \<times> 'w \<Rightarrow> bool" where
  "clean_op gw (OpExecute dbx1 dbx2 now i rq) s \<longleftrightarrow> dbx1 = None \<and> dbx2 = None \<and> i \<noteq> []
     \<and> (intent_check i (fst s) = Fresh \<longrightarrow>
          (case fst (gateway_place_order gw rq (snd s)) of
             Inl e \<Rightarrow> True
           | Inr res \<Rightarrow> rs_status res = OS_FAILED \<or> new_id (rs_order_id res) (fst s)))"
| "clean_op gw (OpStatus dbx now bid new fq ap) s \<longleftrightarrow> dbx = None"

fun clean_run :: "'w gateway \<Rightarrow> om_op list \<Rightarrow> order_manager \<times> 'w \<Rightarrow> bool" where
  "clean_run gw [] s \<longleftrightarrow> True"
| "clean_run gw (op # ops) s \<longleftrightarrow> clean_op gw op s \<and> clean_run gw ops (om_step gw op s)"

text \<open>
  Two or more callers: a call is a check and, if the check found the intent fresh, a submission; the
  third component of the state holds the callers between the two.
\<close>

datatype om_act = ActCheck nat string | ActSubmit nat string real order_request

fun act_step :: "'w gateway \<Rightarrow> om_act \<Rightarrow> order_manager \<times> 'w \<times> (nat \<times> string) list
    \<Rightarrow> order_manager \<times> 'w \<times> (nat \<times> string) list" where
  "act_step gw (ActCheck tid i) (om, w, ok) =
     (om, w, if intent_check i om = Fresh then (tid, i) # ok else ok)"
| "act_step gw (ActSubmit tid i now rq) (om, w, ok) =
     (if (tid, i) \<in> set ok
      then (case intent_submit None None now gw i rq (om, w) of (_, om', w') \<Rightarrow> (om', w', remove1 (tid, i) ok))
      else (om, w, ok))"

section \<open>Orders and rows\<close>

inductive_simps ostep_iff: "ostep s t"

lemma status_of_name_name [simp]: "status_of_name (os_name s) = s"
  by (cases s) (simp_all add: status_of_name_def all_order_statuses_def)

lemma os_name_inject: "os_name s = os_name s' \<longleftrightarrow> s = s'"
  by (metis status_of_name_name)

lemma data_to_req_of [simp]: "data_to_req (req_to_data r) = r"
  by (simp add: data_to_req_def req_to_data_def opt_or_def)

lemma row_to_order_of: "o_intent_id ord \<noteq> [] \<Longrightarrow> row_to_order uuid (order_to_row ord) = ord"
  by (simp add: row_to_order_def order_to_row_def opt_or_def)

lemma order_to_row_sel [simp]:
  "w_intent_id (order_to_row ord) = o_intent_id ord"
  "w_broker_order_id (order_to_row ord) = o_broker_order_id ord"
  "row_in_flight (order_to_row ord) \<longleftrightarrow> o_status ord \<notin> {OS_FILLED, OS_REJECTED, OS_CANCELLED, OS_FAILED}"
  by (simp_all add: order_to_row_def row_in_flight_def) (cases "o_status ord"; simp)

lemma new_order_sel [simp]:
  "o_intent_id (new_order now i rq) = i" "o_status (new_order now i rq) = OS_VALIDATED"
  "o_broker_order_id (new_order now i rq) = None"
  by (simp_all add: new_order_def)

lemma put_order_sel [simp]:
  "om_orders (put_order ord om) = dict_set (o_intent_id ord) ord (om_orders om)"
  "om_table (put_order ord om) = om_table om"
  by (simp_all add: put_order_def)

lemma set_event_sel [simp]:
  "om_orders (set_event i om) = om_orders om" "om_table (set_event i om) = om_table om"
  by (simp_all add: set_event_def)

lemma persist_order_orders: "persist_order dbx ord om = (r, om') \<Longrightarrow> om_orders om' = om_orders om"
  by (auto simp: persist_order_def split: option.splits if_splits)

lemma link_ids_sel [simp]: "om_orders (link_ids oid i om) = om_orders om" "om_table (link_ids oid i om) = om_table om"
  by (simp_all add: link_ids_def)

lemma submit_failed_orders:
  "submit_failed dbx now ord res om = (r, om') \<Longrightarrow>
     \<exists>ord'. om_orders om' = dict_set (o_intent_id ord) ord' (om_orders om) \<and> o_intent_id ord' = o_intent_id ord
       \<and> o_status ord' = OS_FAILED"
  by (auto simp: submit_failed_def Let_def dest!: persist_order_orders split: prod.splits option.splits)

lemma submit_confirmed_orders:
  "submit_confirmed dbx now ord res om = (r, om') \<Longrightarrow>
     \<exists>ord'. om_orders om' = dict_set (o_intent_id ord) ord' (om_orders om) \<and> o_intent_id ord' = o_intent_id ord
       \<and> o_status ord' = OS_ACKNOWLEDGED"
  by (auto simp: submit_confirmed_def Let_def dest!: persist_order_orders split: prod.splits option.splits)

text \<open>What a submission does to the orders: it sets the one of the intent, to one of three statuses.\<close>

lemma intent_submit_orders:
  assumes "intent_submit dbx1 dbx2 now gw i rq (om, w) = (r, om', w')"
  shows "\<exists>ord. map_of (om_orders om') = (map_of (om_orders om))(i \<mapsto> ord) \<and> o_intent_id ord = i
    \<and> o_status ord \<in> {OS_VALIDATED, OS_FAILED, OS_ACKNOWLEDGED}"
proof -
  let ?o = "new_order now i rq"
  obtain e1 om2 where p1: "persist_order dbx1 ?o ((put_order ?o om)\<lparr>om_events := dict_set i False (om_events om),
      om_intent_map := dict_set i [] (om_intent_map om)\<rparr>) = (e1, om2)"
    by (cases "persist_order dbx1 ?o ((put_order ?o om)\<lparr>om_events := dict_set i False (om_events om),
      om_intent_map := dict_set i [] (om_intent_map om)\<rparr>)")
  have o2: "om_orders om2 = dict_set i ?o (om_orders om)" using persist_order_orders [OF p1] by simp
  show ?thesis
    using assms p1 o2
    by (auto simp: intent_submit_def Let_def split: option.splits prod.splits sum.splits if_splits
        dest!: submit_failed_orders submit_confirmed_orders)
qed

section \<open>The orders over a run\<close>

lemma intent_check_fresh: "intent_check i om = Fresh \<longleftrightarrow> map_of (om_orders om) i = None"
  by (auto simp: intent_check_def split: option.splits if_splits)

lemma execute_intent_orders:
  assumes "execute_intent dbx1 dbx2 now gw i rq (om, w) = (r, om', w')"
  shows "om_orders om' = om_orders om
    \<or> (map_of (om_orders om) i = None \<and> (\<exists>ord. map_of (om_orders om') = (map_of (om_orders om))(i \<mapsto> ord)
          \<and> o_intent_id ord = i))"
  using assms intent_submit_orders [of dbx1 dbx2 now gw i rq om w]
  by (auto simp: execute_intent_def intent_check_fresh split: check_result.splits)

lemma update_order_status_orders:
  assumes "update_order_status dbx now bid new fq ap om = (r, om')"
  shows "om_orders om' = om_orders om
    \<or> (\<exists>i ord ord'. map_of (om_orders om) i = Some ord \<and> o_intent_id ord' = o_intent_id ord
        \<and> ostep (o_status ord) (o_status ord')
        \<and> om_orders om' = dict_set (o_intent_id ord) ord' (om_orders om))"
proof (cases "map_of (om_broker_map om) bid")
  case None
  with assms show ?thesis by (simp add: update_order_status_def)
next
  case (Some i)
  show ?thesis
  proof (cases "map_of (om_orders om) i")
    case None
    with Some assms show ?thesis by (simp add: update_order_status_def split: if_splits)
  next
    case (Some ord)
    let ?o = "ord\<lparr>o_status := new, o_filled_qty := fq, o_avg_price := ap, o_updated_at := format_ts now\<rparr>"
    have "om' = om \<or> om_validate_transition (o_status ord) new \<and> om_orders om' = dict_set (o_intent_id ord) ?o (om_orders om)"
      using assms Some \<open>map_of (om_broker_map om) bid = Some i\<close>
      by (auto simp: update_order_status_def Let_def dest: persist_order_orders split: if_splits)
    moreover have "o_intent_id ?o = o_intent_id ord" "o_status ?o = new" by simp_all
    ultimately show ?thesis using Some by (metis ostepI)
  qed
qed

lemma om_step_ok: "om_ok (fst s) \<Longrightarrow> om_ok (fst (om_step gw op s))"
proof (cases op)
  case (OpExecute dbx1 dbx2 now i rq)
  assume ok: "om_ok (fst s)"
  obtain r om' w' where e: "execute_intent dbx1 dbx2 now gw i rq (fst s, snd s) = (r, om', w')"
    by (cases "execute_intent dbx1 dbx2 now gw i rq (fst s, snd s)")
  from execute_intent_orders [OF e] ok have "om_ok om'" by (auto simp: om_ok_def split: if_splits)
  with e OpExecute show ?thesis by simp
next
  case (OpStatus dbx now bid new fq ap)
  assume ok: "om_ok (fst s)"
  obtain r om' where e: "update_order_status dbx now bid new fq ap (fst s) = (r, om')"
    by (cases "update_order_status dbx now bid new fq ap (fst s)")
  from update_order_status_orders [OF e] ok have "om_ok om'" by (auto simp: om_ok_def split: if_splits)
  with e OpStatus show ?thesis by simp
qed

lemma om_le_same: "om_orders om' = om_orders om \<Longrightarrow> om_le om om'"
  by (auto simp: om_le_def)

lemma om_step_le: "om_ok (fst s) \<Longrightarrow> om_le (fst s) (fst (om_step gw op s))"
proof (cases op)
  case (OpExecute dbx1 dbx2 now i rq)
  obtain r om' w' where e: "execute_intent dbx1 dbx2 now gw i rq (fst s, snd s) = (r, om', w')"
    by (cases "execute_intent dbx1 dbx2 now gw i rq (fst s, snd s)")
  from execute_intent_orders [OF e] have "om_le (fst s) om'" by (auto simp: om_le_def)
  with e OpExecute show ?thesis by simp
next
  case (OpStatus dbx now bid new fq ap)
  assume ok: "om_ok (fst s)"
  obtain r om' where e: "update_order_status dbx now bid new fq ap (fst s) = (r, om')"
    by (cases "update_order_status dbx now bid new fq ap (fst s)")
  from update_order_status_orders [OF e] ok have "om_le (fst s) om'"
    by (auto simp: om_le_def om_ok_def)
  with e OpStatus show ?thesis by simp
qed

lemma om_le_trans: "om_le a b \<Longrightarrow> om_le b c \<Longrightarrow> om_le a c"
  unfolding om_le_def by (meson rtranclp_trans)

interpretation om_run: op_order "om_step gw" "\<lambda>s. om_ok (fst s)" "\<lambda>s t. om_le (fst s) (fst t)"
  for gw :: "'w gateway"
proof unfold_locales
  show "om_le (fst s) (fst s)" for s :: "order_manager \<times> 'w" by (simp add: om_le_same)
qed (auto intro: om_step_ok om_step_le om_le_trans)

lemma twap_worker_sent:
  "\<exists>w' n. twap_worker (twap_execute (logged_adapter ad) rq) qs (w, l) =
     (w', l @ take n (map (\<lambda>q. rq\<lparr>rq_qty := q, rq_order_type := ''MARKET''\<rparr>) qs))"
proof (induction qs arbitrary: w l)
  case (Cons q qs)
  let ?rq = "rq\<lparr>rq_qty := q, rq_order_type := ''MARKET''\<rparr>"
  obtain r w1 where p: "ad_place_order ad ?rq w = (r, w1)" by fastforce
  obtain w' n where IH: "twap_worker (twap_execute (logged_adapter ad) rq) qs (w1, l @ [?rq]) =
      (w', (l @ [?rq]) @ take n (map (\<lambda>q. rq\<lparr>rq_qty := q, rq_order_type := ''MARKET''\<rparr>) qs))"
    using Cons.IH by blast
  have e: "twap_execute (logged_adapter ad) rq q (w, l) = (case r of Inr res \<Rightarrow> rs_status res \<noteq> OS_FAILED | Inl e \<Rightarrow> False, w1, l @ [?rq])"
    using p by (simp add: twap_execute_def logged_adapter_def split: sum.split)
  show ?case
  proof (cases "case r of Inr res \<Rightarrow> rs_status res \<noteq> OS_FAILED | Inl e \<Rightarrow> False")
    case True
    then show ?thesis using e IH by (intro exI [of _ w'] exI [of _ "Suc n"]) simp
  next
    case False
    then show ?thesis using e by (intro exI [of _ w1] exI [of _ 1]) simp
  qed
qed simp

lemma gateway_ltp_sent: "\<exists>w'. snd (gateway_get_ltp symb (logged_gateway gw) (w, l)) = (w', l)"
  by (auto simp: gateway_get_ltp_def logged_gateway_def logged_adapter_def split: option.split sum.split prod.split)

lemma gateway_sent:
  "\<exists>r w' sent. gateway_place_order (logged_gateway gw) rq (w, l) = (r, w', l @ sent) \<and> one_submission rq sent"
proof (cases "gw_active gw")
  case None
  then show ?thesis by (simp add: gateway_place_order_def logged_gateway_def one_submission_def)
next
  case (Some ad)
  then have a: "gw_active (logged_gateway gw) = Some (logged_adapter ad)" by (simp add: logged_gateway_def)
  show ?thesis
  proof (cases "rq_order_type rq = ''TWAP''")
    case True
    obtain p w1 where ltp: "gateway_get_ltp (rq_symbol rq) (logged_gateway gw) (w, l) = (p, w1, l)"
      using gateway_ltp_sent [of "rq_symbol rq" gw w l] by (metis prod.collapse)
    obtain w' n where "twap_worker (twap_execute (logged_adapter ad) rq) (twap_plan (rq_qty rq) 5) (w1, l) = (w', l @ take n (twap_orders rq))"
      using twap_worker_sent [of ad rq "twap_plan (rq_qty rq) 5" w1 l] by (auto simp: twap_orders_def)
    then have "gateway_place_order (logged_gateway gw) rq (w, l) = (Inr (response ''TWAP_ALGO_ROUTED'' OS_PENDING), w', l @ take n (twap_orders rq))"
      using a True ltp by (simp add: gateway_place_order_def)
    moreover have "one_submission rq (take n (twap_orders rq))" using True by (auto simp: one_submission_def)
    ultimately show ?thesis by blast
  next
    case False
    obtain r w' where "ad_place_order ad rq w = (r, w')" by fastforce
    then have "ad_place_order (logged_adapter ad) rq (w, l) = (r, w', l @ [rq])" by (simp add: logged_adapter_def)
    moreover have "one_submission rq [rq]" using False by (simp add: one_submission_def)
    ultimately show ?thesis using a False by (cases r) (auto simp: gateway_place_order_def)
  qed
qed

lemma submit_sent:
  "\<exists>r om' w' sent. intent_submit dbx1 dbx2 now (logged_gateway gw) i rq (om, w, l) = (r, om', w', l @ sent) \<and> one_submission rq sent"
proof -
  let ?om1 = "(put_order (new_order now i rq) om)\<lparr>om_events := dict_set i False (om_events om), om_intent_map := dict_set i [] (om_intent_map om)\<rparr>"
  obtain x om2 where p: "persist_order dbx1 (new_order now i rq) ?om1 = (x, om2)" by fastforce
  show ?thesis
  proof (cases x)
    case None
    obtain r w' sent where g: "gateway_place_order (logged_gateway gw) rq (w, l) = (r, w', l @ sent)" "one_submission rq sent"
      using gateway_sent [of gw rq w l] by blast
    have "\<exists>r om'. intent_submit dbx1 dbx2 now (logged_gateway gw) i rq (om, w, l) = (r, om', w', l @ sent)"
      using p None g(1) by (auto simp: intent_submit_def Let_def split: sum.split prod.split)
    with g(2) show ?thesis by blast
  next
    case (Some e)
    then show ?thesis using p by (simp add: intent_submit_def Let_def one_submission_def)
  qed
qed

lemma sent_known:
  assumes "om_ok (fst s)" "map_of (om_orders (fst s)) i \<noteq> None"
  shows "orders_sent gw i ops s = []"
  using assms
proof (induction ops arbitrary: s)
  case (Cons op ops)
  let ?s' = "om_step (logged_gateway gw) op s"
  have "om_ok (fst ?s')" using Cons.prems(1) by (rule om_step_ok)
  moreover have "map_of (om_orders (fst ?s')) i \<noteq> None"
    using om_step_le [OF Cons.prems(1), of "logged_gateway gw" op] Cons.prems(2) unfolding om_le_def by fastforce
  ultimately have "orders_sent gw i ops ?s' = []" by (rule Cons.IH)
  moreover have "snd (snd ?s') = snd (snd s)" if "op = OpExecute d1 d2 now i rq" for d1 d2 now rq
    using that Cons.prems(2) intent_check_fresh [of i "fst s"] by (cases "intent_check i (fst s)") (auto simp: execute_intent_def)
  ultimately show ?case by (auto simp: Let_def split: om_op.split)
qed simp

lemma execute_fresh_known:
  assumes "map_of (om_orders (fst s)) i = None"
  shows "map_of (om_orders (fst (om_step gw (OpExecute dbx1 dbx2 now i rq) s))) i \<noteq> None"
proof -
  obtain r om' w' where e: "intent_submit dbx1 dbx2 now gw i rq (fst s, snd s) = (r, om', w')"
    by (cases "intent_submit dbx1 dbx2 now gw i rq (fst s, snd s)")
  from intent_submit_orders [OF e] have "map_of (om_orders om') i \<noteq> None" by auto
  moreover have "intent_check i (fst s) = Fresh" using assms by (simp add: intent_check_fresh)
  ultimately show ?thesis using e by (simp add: execute_intent_def)
qed

text \<open>Only the first call for an intent sends anything.\<close>

lemma sent_once:
  assumes "om_ok (fst s)"
  shows "orders_sent gw i ops s = [] \<or>
    (\<exists>d1 d2 now rq. OpExecute d1 d2 now i rq \<in> set ops \<and> one_submission rq (orders_sent gw i ops s))"
  using assms
proof (induction ops arbitrary: s)
  case (Cons op ops)
  let ?s' = "om_step (logged_gateway gw) op s"
  have ok: "om_ok (fst ?s')" using Cons.prems by (rule om_step_ok)
  show ?case
  proof (cases "\<exists>d1 d2 now rq. op = OpExecute d1 d2 now i rq")
    case True
    then obtain d1 d2 now rq where op: "op = OpExecute d1 d2 now i rq" by blast
    show ?thesis
    proof (cases "map_of (om_orders (fst s)) i")
      case None
      obtain om w l where s: "s = (om, w, l)" by (cases s) auto
      obtain r om' w' sent where e: "intent_submit d1 d2 now (logged_gateway gw) i rq (om, w, l) = (r, om', w', l @ sent)" "one_submission rq sent"
        using submit_sent [of d1 d2 now gw i rq om w l] by blast
      have "intent_check i om = Fresh" using None s by (simp add: intent_check_fresh)
      then have "?s' = (om', w', l @ sent)" using e(1) by (simp add: op s execute_intent_def)
      moreover have "orders_sent gw i ops ?s' = []"
        unfolding op by (rule sent_known [OF ok [unfolded op] execute_fresh_known [OF None]])
      ultimately have "orders_sent gw i (op # ops) s = sent" by (simp add: op s)
      with e(2) op show ?thesis by auto
    next
      case (Some ord)
      then show ?thesis using sent_known [OF Cons.prems, of i gw "op # ops"] by simp
    qed
  next
    case False
    then have "orders_sent gw i (op # ops) s = orders_sent gw i ops ?s'" by (cases op) (auto simp: Let_def)
    with Cons.IH [OF ok] show ?thesis by fastforce
  qed
qed simp

section \<open>The table over a clean run\<close>

lemma om_synced_cong:
  "om_orders om' = om_orders om \<Longrightarrow> om_table om' = om_table om \<Longrightarrow> om_synced om' = om_synced om"
  by (simp add: om_synced_def om_ok_def)

lemma sync_persist:
  assumes sync: "om_synced om" and i: "o_intent_id ord \<noteq> []"
    and bid: "\<And>x. x \<in> set (om_table om) \<Longrightarrow> w_intent_id x \<noteq> o_intent_id ord \<Longrightarrow>
      o_broker_order_id ord = None \<or> w_broker_order_id x \<noteq> o_broker_order_id ord"
    and orders: "map_of (om_orders om') = (map_of (om_orders om))(o_intent_id ord \<mapsto> ord)"
    and table: "om_table om' = insert_or_replace (order_to_row ord) (om_table om)"
  shows "om_synced om'"
proof -
  let ?i = "o_intent_id ord" and ?t = "om_table om"
  have t': "om_table om' = filter (\<lambda>x. w_intent_id x \<noteq> ?i) ?t @ [order_to_row ord]"
    unfolding table insert_or_replace_def using bid by (auto simp: row_conflict_def intro!: filter_cong)
  have dist: "distinct (map w_intent_id (om_table om'))"
    using sync by (auto simp: t' om_synced_def distinct_map_filter)
  have ids: "\<forall>x \<in> set (om_table om'). \<forall>y \<in> set (om_table om').
      w_broker_order_id x \<noteq> None \<and> w_broker_order_id x = w_broker_order_id y \<longrightarrow> x = y"
  proof (intro ballI impI)
    fix x y
    assume x: "x \<in> set (om_table om')" and y: "y \<in> set (om_table om')"
      and eq: "w_broker_order_id x \<noteq> None \<and> w_broker_order_id x = w_broker_order_id y"
    have old: "x \<in> set ?t \<Longrightarrow> y \<in> set ?t \<Longrightarrow> x = y" using sync eq by (auto simp: om_synced_def)
    from x y consider "x \<in> set ?t" "y \<in> set ?t" | "x = order_to_row ord" "y = order_to_row ord"
      | "x = order_to_row ord" "y \<in> set ?t" "w_intent_id y \<noteq> ?i"
      | "y = order_to_row ord" "x \<in> set ?t" "w_intent_id x \<noteq> ?i" by (auto simp: t')
    then show "x = y"
    proof cases
      case 3
      with bid [of y] eq show ?thesis by auto
    next
      case 4
      with bid [of x] eq show ?thesis by auto
    qed (use old in auto)
  qed
  have rows: "j \<noteq> [] \<and> order_to_row q \<in> set (om_table om')"
    if q: "map_of (om_orders om') j = Some q" for j q
  proof (cases "j = ?i")
    case True
    with q orders i show ?thesis by (simp add: t')
  next
    case False
    with q orders have "map_of (om_orders om) j = Some q" by simp
    with sync have "o_intent_id q = j" "j \<noteq> []" "order_to_row q \<in> set ?t" by (auto simp: om_synced_def om_ok_def)
    with False show ?thesis by (simp add: t')
  qed
  have live: "w_intent_id row \<noteq> [] \<and> (row_in_flight row \<longrightarrow> (\<exists>q. map_of (om_orders om') (w_intent_id row) = Some q))"
    if "row \<in> set (om_table om')" for row
    using that sync orders i unfolding t' by (auto simp: om_synced_def)
  have "om_ok om'" using sync orders by (auto simp: om_synced_def om_ok_def)
  with dist ids rows live show ?thesis by (auto simp: om_synced_def)
qed

lemma synced_broker_id:
  assumes "om_synced om" and "map_of (om_orders om) i = Some ord" and "o_broker_order_id ord \<noteq> None"
    and "x \<in> set (om_table om)" and "w_intent_id x \<noteq> i"
  shows "w_broker_order_id x \<noteq> o_broker_order_id ord"
proof
  assume "w_broker_order_id x = o_broker_order_id ord"
  moreover have "order_to_row ord \<in> set (om_table om)" "o_intent_id ord = i"
    using assms(1,2) by (auto simp: om_synced_def om_ok_def)
  ultimately have "x = order_to_row ord" using assms(1,3,4) by (auto simp: om_synced_def)
  with assms(5) \<open>o_intent_id ord = i\<close> show False by simp
qed

lemma update_status_synced:
  assumes "om_synced om" and "update_order_status None now bid new fq ap om = (r, om')"
  shows "om_synced om'"
proof (cases "om' = om")
  case True
  with assms(1) show ?thesis by simp
next
  case False
  with assms(2) obtain i ord where i: "map_of (om_orders om) i = Some ord"
    and om': "om' = snd (persist_order None (ord\<lparr>o_status := new, o_filled_qty := fq, o_avg_price := ap, o_updated_at := format_ts now\<rparr>)
        (put_order (ord\<lparr>o_status := new, o_filled_qty := fq, o_avg_price := ap, o_updated_at := format_ts now\<rparr>) om))"
    by (auto simp: update_order_status_def Let_def split: option.splits if_splits)
  let ?o = "ord\<lparr>o_status := new, o_filled_qty := fq, o_avg_price := ap, o_updated_at := format_ts now\<rparr>"
  have id: "o_intent_id ord = i" "i \<noteq> []" using assms(1) i by (auto simp: om_synced_def om_ok_def)
  show ?thesis
  proof (rule sync_persist [OF assms(1), of ?o])
    show "o_broker_order_id ?o = None \<or> w_broker_order_id x \<noteq> o_broker_order_id ?o"
      if "x \<in> set (om_table om)" "w_intent_id x \<noteq> o_intent_id ?o" for x
      using synced_broker_id [OF assms(1) i _ that(1)] that(2) id by auto
  qed (use id om' in \<open>simp_all add: persist_order_def\<close>)
qed

text \<open>The two writes of a submission, with a database that answers.\<close>

lemma submit_first_write:
  assumes "om_synced om" and "map_of (om_orders om) i = None" and "i \<noteq> []"
    and "om2 = snd (persist_order None (new_order now i rq) ((put_order (new_order now i rq) om)
      \<lparr>om_events := ev, om_intent_map := im\<rparr>))"
  shows "om_synced om2" and "map_of (om_orders om2) i = Some (new_order now i rq)"
    and "new_id oid om \<Longrightarrow> new_id oid om2"
proof -
  show "om_synced om2"
    by (rule sync_persist [OF assms(1), of "new_order now i rq"]) (simp_all add: assms persist_order_def)
  show "map_of (om_orders om2) i = Some (new_order now i rq)"
    by (simp add: assms(4) persist_order_def)
  show "new_id oid om \<Longrightarrow> new_id oid om2"
    by (auto simp: assms(4) persist_order_def new_id_def insert_or_replace_def)
qed

lemma submit_second_write:
  assumes "om_synced om2" and "map_of (om_orders om2) i = Some ord" and "i \<noteq> []"
    and "o_intent_id ord1 = i" and "\<And>oid. o_broker_order_id ord1 = Some oid \<Longrightarrow> new_id oid om2"
    and "om_orders om3 = om_orders (put_order ord1 om2)" and "om_table om3 = om_table om2"
  shows "om_synced (snd (persist_order None ord1 om3))"
proof (rule sync_persist [OF assms(1), of ord1])
  show "o_broker_order_id ord1 = None \<or> w_broker_order_id x \<noteq> o_broker_order_id ord1"
    if "x \<in> set (om_table om2)" for x
    using assms(5) that by (cases "o_broker_order_id ord1") (auto simp: new_id_def)
qed (use assms in \<open>simp_all add: persist_order_def\<close>)

lemma submit_synced:
  assumes "om_synced om" and fresh: "map_of (om_orders om) i = None" and i: "i \<noteq> []"
    and clean: "\<And>res. fst (gateway_place_order gw rq w) = Inr res \<Longrightarrow> rs_status res \<noteq> OS_FAILED \<Longrightarrow> new_id (rs_order_id res) om"
    and run: "intent_submit None None now gw i rq (om, w) = (r, om', w')"
  shows "om_synced om'"
proof -
  let ?o = "new_order now i rq"
  define om2 where "om2 = snd (persist_order None ?o ((put_order ?o om)
      \<lparr>om_events := dict_set i False (om_events om), om_intent_map := dict_set i [] (om_intent_map om)\<rparr>))"
  note first = submit_first_write [OF assms(1) fresh i om2_def]
  have p1: "persist_order None ?o ((put_order ?o om)
      \<lparr>om_events := dict_set i False (om_events om), om_intent_map := dict_set i [] (om_intent_map om)\<rparr>) = (None, om2)"
    by (simp add: om2_def persist_order_def)
  obtain pr pw where place: "gateway_place_order gw rq w = (pr, pw)" by (cases "gateway_place_order gw rq w")
  have event: "om_synced (set_event j x) = om_synced x" for j x by (rule om_synced_cong) simp_all
  show ?thesis
  proof (cases pr)
    case (Inl e)
    with run p1 place first(1) show ?thesis by (auto simp: intent_submit_def Let_def)
  next
    case (Inr res)
    show ?thesis
    proof (cases "rs_status res = OS_FAILED")
      case True
      let ?o1 = "?o\<lparr>o_status := OS_FAILED, o_error := rs_error res, o_updated_at := format_ts now\<rparr>"
      have "om_synced (snd (persist_order None ?o1 (put_order ?o1 om2)))"
        by (rule submit_second_write [OF first(1,2) i]) (simp_all add: new_order_def)
      then have "om_synced (snd (submit_failed None now ?o res om2))"
        by (simp add: submit_failed_def Let_def persist_order_def event)
      with run p1 place Inr True show ?thesis
        by (auto simp: intent_submit_def Let_def split: prod.splits)
    next
      case False
      let ?o1 = "?o\<lparr>o_broker_order_id := Some (rs_order_id res), o_status := OS_ACKNOWLEDGED,
        o_filled_qty := rs_filled_qty res, o_avg_price := rs_avg_price res, o_updated_at := format_ts now\<rparr>"
      have "new_id (rs_order_id res) om2" using clean place Inr False first(3) by simp
      then have "om_synced (snd (persist_order None ?o1 (link_ids (rs_order_id res) i (put_order ?o1 om2))))"
        by (intro submit_second_write [OF first(1,2) i]) simp_all
      then have "om_synced (snd (submit_confirmed None now ?o res om2))"
        by (simp add: submit_confirmed_def Let_def persist_order_def event)
      with run p1 place Inr False show ?thesis
        by (auto simp: intent_submit_def Let_def split: prod.splits)
    qed
  qed
qed

lemma clean_step_synced:
  assumes "om_synced (fst s)" and "clean_op gw op s"
  shows "om_synced (fst (om_step gw op s))"
proof (cases op)
  case (OpExecute dbx1 dbx2 now i rq)
  with assms have c: "dbx1 = None" "dbx2 = None" "i \<noteq> []" by simp_all
  show ?thesis
  proof (cases "map_of (om_orders (fst s)) i")
    case None
    then have fresh: "intent_check i (fst s) = Fresh" by (simp add: intent_check_fresh)
    obtain r om' w' where e: "intent_submit None None now gw i rq (fst s, snd s) = (r, om', w')"
      by (cases "intent_submit None None now gw i rq (fst s, snd s)")
    have "new_id (rs_order_id res) (fst s)"
      if "fst (gateway_place_order gw rq (snd s)) = Inr res" "rs_status res \<noteq> OS_FAILED" for res
      using assms(2) OpExecute fresh that by simp
    from submit_synced [OF assms(1) None c(3) this e] have "om_synced om'" .
    with OpExecute c fresh e show ?thesis by (simp add: execute_intent_def)
  next
    case (Some ord)
    then have "intent_check i (fst s) \<noteq> Fresh" by (simp add: intent_check_fresh)
    with OpExecute assms(1) show ?thesis by (auto simp: execute_intent_def split: check_result.split)
  qed
next
  case (OpStatus dbx now bid new fq ap)
  with assms(2) have "dbx = None" by simp
  with OpStatus update_status_synced [OF assms(1), of now bid new fq ap] show ?thesis
    by (cases "update_order_status None now bid new fq ap (fst s)") simp
qed

lemma clean_run_synced:
  "om_synced (fst s) \<Longrightarrow> clean_run gw ops s \<Longrightarrow> om_synced (fst (fold (om_step gw) ops s))"
  by (induction ops arbitrary: s) (simp_all add: clean_step_synced)

section \<open>Restart\<close>

lemma load_row_orders:
  "om_orders (load_row uuid row om) = dict_set (o_intent_id (row_to_order uuid row)) (row_to_order uuid row) (om_orders om)"
  by (simp add: load_row_def Let_def)

lemma load_row_ok: "om_ok om \<Longrightarrow> om_ok (load_row uuid row om)"
  by (auto simp: om_ok_def load_row_orders split: if_splits)

lemma new_order_manager_ok: "om_ok (snd (new_order_manager dbx uuid t))"
proof -
  have "om_ok (fold (load_row uuid) rows om)" if "om_ok om" for rows om
    using that by (induction rows arbitrary: om) (simp_all add: load_row_ok)
  moreover have "om_ok \<lparr>om_orders = [], om_broker_map = [], om_intent_map = [], om_events = [], om_table = t\<rparr>"
    by (simp add: om_ok_def)
  ultimately show ?thesis
    by (simp add: new_order_manager_def load_orders_from_disk_def split: option.split)
qed

lemma fold_load_get:
  assumes "distinct (map w_intent_id rows)" and "\<And>row. row \<in> set rows \<Longrightarrow> w_intent_id row \<noteq> []"
  shows "map_of (om_orders (fold (load_row uuid) rows om)) i =
    (case find (\<lambda>r. w_intent_id r = i) rows of
       Some row \<Rightarrow> Some (row_to_order uuid row) | None \<Rightarrow> map_of (om_orders om) i)"
  using assms
proof (induction rows arbitrary: om)
  case (Cons row rows)
  have "find (\<lambda>r. w_intent_id r = w_intent_id row) rows = None"
    using Cons.prems(1) by (auto simp: find_None_iff rev_image_eqI)
  moreover have "o_intent_id (row_to_order uuid row) = w_intent_id row"
    using Cons.prems(2) by (simp add: row_to_order_def)
  ultimately show ?case using Cons by (auto simp: load_row_orders split: option.splits)
qed simp

lemma restart_orders:
  assumes "om_synced om"
  shows "map_of (om_orders (snd (new_order_manager None uuid (om_table om)))) i =
    (case map_of (om_orders om) i of
       Some ord \<Rightarrow> if o_status ord \<in> {OS_FILLED, OS_REJECTED, OS_CANCELLED, OS_FAILED} then None else Some ord
     | None \<Rightarrow> None)"
proof -
  let ?rows = "filter row_in_flight (om_table om)"
  have dist: "distinct (map w_intent_id ?rows)" and ne: "\<And>row. row \<in> set ?rows \<Longrightarrow> w_intent_id row \<noteq> []"
    using assms by (auto simp: om_synced_def distinct_map_filter)
  have get: "map_of (om_orders (snd (new_order_manager None uuid (om_table om)))) i =
      map_option (row_to_order uuid) (find (\<lambda>r. w_intent_id r = i) ?rows)"
    unfolding new_order_manager_def load_orders_from_disk_def
    by (simp, subst fold_load_get [OF dist ne]) (simp_all split: option.split)
  show ?thesis
  proof (cases "find (\<lambda>r. w_intent_id r = i) ?rows")
    case None
    then have no: "\<And>r. r \<in> set (om_table om) \<Longrightarrow> row_in_flight r \<Longrightarrow> w_intent_id r \<noteq> i"
      by (auto simp: find_None_iff)
    have "o_status ord \<in> {OS_FILLED, OS_REJECTED, OS_CANCELLED, OS_FAILED}"
      if "map_of (om_orders om) i = Some ord" for ord
      using no [of "order_to_row ord"] that assms by (auto simp: om_synced_def om_ok_def)
    with get None show ?thesis by (auto split: option.split)
  next
    case (Some r)
    then have r: "r \<in> set (om_table om)" "row_in_flight r" "w_intent_id r = i"
      by (auto simp: find_Some_iff dest: nth_mem)
    then obtain ord where o: "map_of (om_orders om) i = Some ord" using assms by (auto simp: om_synced_def)
    then have "order_to_row ord \<in> set (om_table om)" "o_intent_id ord = i" "i \<noteq> []"
      using assms by (auto simp: om_synced_def om_ok_def)
    then have "r = order_to_row ord"
      using r assms by (auto simp: om_synced_def distinct_map inj_on_def)
    with get Some o r \<open>o_intent_id ord = i\<close> \<open>i \<noteq> []\<close> show ?thesis by (simp add: row_to_order_of)
  qed
qed

lemma twap_plan_sum:
  assumes "slices > 1"
  shows "sum_list (twap_plan qty slices) = slices * max 1 (qty div slices) + qty mod slices"
proof -
  let ?n = "nat slices" and ?q = "max 1 (qty div slices)"
  have n: "?n = Suc (?n - 1)" using assms by simp
  have "sum_list (map (\<lambda>i. ?q + (if i = ?n - 1 then qty mod slices else 0)) [0..<?n]) =
      sum_list (map (\<lambda>i. ?q + (if i = ?n - 1 then qty mod slices else 0)) [0..<?n - 1]) + ?q + qty mod slices"
    by (subst n, subst upt_Suc_append) simp_all
  also have "map (\<lambda>i. ?q + (if i = ?n - 1 then qty mod slices else 0)) [0..<?n - 1] = replicate (?n - 1) ?q"
    by (rule nth_equalityI) simp_all
  also have "sum_list (replicate (?n - 1) ?q) = int (?n - 1) * ?q"
    by (simp add: sum_list_replicate)
  also have "int (?n - 1) = slices - 1" using assms by simp
  finally show ?thesis using assms by (simp add: twap_plan_def Let_def algebra_simps)
qed

section \<open>Properties\<close>

text \<open>
  C16: One submission per intent: on a manager started from any table, whatever calls follow, whatever the
  broker answers and whenever the database fails, all calls of \<open>execute_intent\<close> for one intent id together
  send the adapter nothing, or the order of one of the calls once; for a TWAP order, its at most five
  slices, each once and in order, up to the first that fails.
\<close>

theorem one_placement_per_intent:
  "orders_sent gw i ops (snd (new_order_manager dbx uuid t), w, l) = [] \<or>
   (\<exists>d1 d2 now rq. OpExecute d1 d2 now i rq \<in> set ops \<and>
      (if rq_order_type rq = ''TWAP''
       then \<exists>n \<le> 5. orders_sent gw i ops (snd (new_order_manager dbx uuid t), w, l) =
              take n (map (\<lambda>q. rq\<lparr>rq_qty := q, rq_order_type := ''MARKET''\<rparr>) (twap_plan (rq_qty rq) 5))
       else orders_sent gw i ops (snd (new_order_manager dbx uuid t), w, l) = [rq]))"
proof -
  let ?l = "orders_sent gw i ops (snd (new_order_manager dbx uuid t), w, l)"
  have five: "take n (twap_orders rq) = take (min n 5) (twap_orders rq)" for n rq
    by (cases "n \<le> 5") (simp_all add: twap_orders_def twap_plan_def Let_def min_def)
  have "?l = [] \<or> (\<exists>d1 d2 now rq. OpExecute d1 d2 now i rq \<in> set ops \<and> one_submission rq ?l)"
    by (rule sent_once) (simp add: new_order_manager_ok)
  then show ?thesis
  proof
    assume "\<exists>d1 d2 now rq. OpExecute d1 d2 now i rq \<in> set ops \<and> one_submission rq ?l"
    then obtain d1 d2 now rq where op: "OpExecute d1 d2 now i rq \<in> set ops" "one_submission rq ?l" by blast
    then have "?l = [] \<or> (if rq_order_type rq = ''TWAP'' then \<exists>n \<le> 5. ?l = take n (twap_orders rq) else ?l = [rq])"
      unfolding one_submission_def by (metis five min.cobounded2)
    with op(1) show ?thesis unfolding twap_orders_def by blast
  qed blast
qed

text \<open>
  Orders are never lost from memory and follow the transition table: an order known after some
  calls is still known after any further ones, in a status reachable along the table of
  \<open>_validate_transition\<close>.
\<close>

lemma orders_follow_transitions:
  assumes "map_of (om_orders (fst (fold (om_step gw) ops (snd (new_order_manager dbx uuid t), w)))) i = Some ord"
  shows "\<exists>ord'. map_of (om_orders (fst (fold (om_step gw) (ops @ ops') (snd (new_order_manager dbx uuid t), w)))) i = Some ord'
    \<and> ostep\<^sup>*\<^sup>* (o_status ord) (o_status ord')"
proof -
  let ?s = "fold (om_step gw) ops (snd (new_order_manager dbx uuid t), w)"
  have "om_ok (fst ?s)" by (rule om_run.run_inv) (simp add: new_order_manager_ok)
  then have "om_le (fst ?s) (fst (fold (om_step gw) ops' ?s))" by (rule om_run.run_le)
  with assms show ?thesis by (auto simp: om_le_def)
qed

definition sample_request :: order_request where
  "sample_request = \<lparr>rq_symbol = ''NIFTY'', rq_qty = 50, rq_price = 200, rq_order_type = ''LIMIT'',
     rq_direction = ''BUY'', rq_product = ''MIS'', rq_variety = ''REGULAR'', rq_tag = ''OPB_BOT'',
     rq_idempotency_key = ''k''\<rparr>"

definition sample_gateway :: "order_response \<Rightarrow> nat gateway" where
  "sample_gateway res = \<lparr>gw_active = Some \<lparr>ad_authenticate = (\<lambda>_ w. (Inr True, w)),
     ad_place_order = (\<lambda>_ w. (Inr res, Suc w)), ad_get_ltp = (\<lambda>_ w. (Inr 0, w))\<rparr>,
     gw_registry = [], gw_current = Some ''sim''\<rparr>"

lemmas sample_eval = sample_gateway_def sample_request_def execute_intent_def intent_check_def intent_submit_def
  submit_confirmed_def link_ids_def persist_order_def put_order_def set_event_def gateway_place_order_def
  new_order_manager_def load_orders_from_disk_def response_def new_order_def insert_or_replace_def Let_def

text \<open>
  C19: A restart loses no order in flight: after any calls on an empty database that always answers,
  with a broker that never repeats an order id, a manager started on the table that is left knows
  exactly the orders that are not in a final status, each with every field it had.
\<close>

theorem restart_recovers_orders:
  assumes "clean_run gw ops (snd (new_order_manager None uuid0 []), w)"
  shows "let om = fst (fold (om_step gw) ops (snd (new_order_manager None uuid0 []), w)) in
    map_of (om_orders (snd (new_order_manager None uuid (om_table om)))) i =
      (case map_of (om_orders om) i of
         Some ord \<Rightarrow> if o_status ord \<in> {OS_FILLED, OS_REJECTED, OS_CANCELLED, OS_FAILED} then None else Some ord
       | None \<Rightarrow> None)"
proof -
  have "om_synced (snd (new_order_manager None uuid0 []))"
    by (simp add: new_order_manager_def load_orders_from_disk_def om_synced_def om_ok_def)
  with assms have "om_synced (fst (fold (om_step gw) ops (snd (new_order_manager None uuid0 []), w)))"
    by (intro clean_run_synced) simp_all
  then show ?thesis by (simp add: Let_def restart_orders)
qed

theorem restart_recovers_orders_witness:
  "\<exists>ord. map_of (om_orders (snd (new_order_manager None ''v''
      (om_table (fst (fold (om_step (sample_gateway (response ''B1'' OS_SUBMITTED))) [OpExecute None None 1 ''i'' sample_request]
      (snd (new_order_manager None ''u'' []), 0))))))) ''i'' = Some ord \<and> o_status ord = OS_ACKNOWLEDGED"
proof -
  let ?gw = "sample_gateway (response ''B1'' OS_SUBMITTED)"
  let ?om = "fst (fold (om_step ?gw) [OpExecute None None 1 ''i'' sample_request] (snd (new_order_manager None ''u'' []), 0))"
  have ord: "\<exists>ord. map_of (om_orders ?om) ''i'' = Some ord \<and> o_status ord = OS_ACKNOWLEDGED"
    by (simp add: sample_eval)
  have "clean_run ?gw [OpExecute None None 1 ''i'' sample_request] (snd (new_order_manager None ''u'' []), 0)"
    by (simp add: sample_eval new_id_def)
  from restart_recovers_orders [OF this, of "''v''" "''i''"] ord show ?thesis
    unfolding Let_def by (auto simp del: fold.simps om_step.simps)
qed

text \<open>
  The duplicate check is not atomic with the registration of the intent: two callers that both
  check an unknown intent before either registers it both send their order to the broker.
\<close>

lemma concurrent_duplicate_intents_race:
  assumes "intent_check i om = Fresh"
  shows "fst (snd (fold (act_step gw)
      [ActCheck 1 i, ActCheck 2 i, ActSubmit 1 i now1 rq1, ActSubmit 2 i now2 rq2] (om, w, []))) =
    snd (gateway_place_order gw rq2 (snd (gateway_place_order gw rq1 w)))"
proof -
  have sent: "snd (snd (intent_submit None None now gw i rq (om', w'))) = snd (gateway_place_order gw rq w')"
    for now rq om' w'
    by (simp add: intent_submit_def persist_order_def Let_def split: prod.split sum.split)
  show ?thesis using assms sent [of now1 rq1 om w]
    by (simp add: case_prod_unfold sent)
qed

text \<open>
  A rejection is booked as an acknowledgement: when the broker answers a new intent with any
  status other than \<open>FAILED\<close>, a rejection included, the order is recorded as \<open>ACKNOWLEDGED\<close>.
\<close>

lemma any_answer_is_acknowledged:
  assumes "intent_check i om = Fresh" and "fst (gateway_place_order gw rq w) = Inr res" and "rs_status res \<noteq> OS_FAILED"
  shows "\<exists>ord. map_of (om_orders (fst (snd (execute_intent None None now gw i rq (om, w))))) i = Some ord
    \<and> o_status ord = OS_ACKNOWLEDGED"
  using assms
  by (cases "gateway_place_order gw rq w")
     (simp add: execute_intent_def intent_submit_def persist_order_def submit_confirmed_def Let_def new_order_def)

text \<open>
  TWAP slices add up to the order for quantities of at least the number of slices; a smaller
  positive quantity is exceeded by the number of slices, since every slice sends at least one unit and
  the last one adds the whole quantity again.
\<close>

lemma twap_slices_total:
  assumes "slices > 1"
  shows "(qty \<ge> slices \<longrightarrow> sum_list (twap_plan qty slices) = qty)
    \<and> (0 < qty \<and> qty < slices \<longrightarrow> sum_list (twap_plan qty slices) = slices + qty)
    \<and> length (twap_plan qty slices) = nat slices"
proof -
  have "slices * (qty div slices) + qty mod slices = qty" by simp
  moreover have "1 \<le> qty div slices" if "qty \<ge> slices"
    using that assms by (simp add: pos_imp_zdiv_pos_iff int_one_le_iff_zero_less)
  moreover have "length (twap_plan qty slices) = nat slices" using assms by (simp add: twap_plan_def Let_def)
  ultimately show ?thesis using assms twap_plan_sum [OF assms, of qty] by (auto simp: max_def)
qed

end
