(* ===== verification/Retry_Policy.thy ===== *)
theory Retry_Policy
  imports Prelude
begin

text \<open>
  Retrying broker calls: the error classifier \<open>core/execution/retry_policy/classifier.py\<close> and the
  retry policy \<open>core/execution/retry_policy/manager.py\<close>.

  The retried operation is a function on a world \<open>'w\<close> that returns a value or raises. The shutdown
  event is an optional function that says, for an attempt, whether the event is set during the wait
  before it. A run returns, beside its result, the errors of the failed calls and the delays it
  waited (the code logs both).
\<close>

section \<open>Definitions\<close>

subsection \<open>The classifier\<close>

datatype retry_decision = RD_RETRY | RD_PERMANENT | RD_UNKNOWN

definition permanent_patterns :: "string list" where
  "permanent_patterns = [''auth'', ''token'', ''expired'', ''insufficient'', ''margin'', ''limit'',
     ''rejected'', ''invalid'', ''not found'', ''unauthorized'']"

definition retryable_patterns :: "string list" where
  "retryable_patterns = [''timeout'', ''timed out'', ''connection'', ''refused'', ''reset'', ''temporary'',
     ''busy'', ''rate limit'', ''too many requests'']"

definition matches :: "string list \<Rightarrow> string \<Rightarrow> bool" where
  "matches ps s \<longleftrightarrow> list_ex (\<lambda>p. str_contains p s) ps"

definition err_str :: "exn \<Rightarrow> string" where "err_str e = str_lower (exn_msg e)"
definition err_type :: "exn \<Rightarrow> string" where "err_type e = str_lower (exn_name (exn_cls e))"

definition classify :: "exn \<Rightarrow> retry_decision" where
  "classify e =
     (if list_ex (\<lambda>p. str_contains p (err_str e) \<or> str_contains p (err_type e)) permanent_patterns then RD_PERMANENT
      else if list_ex (\<lambda>p. str_contains p (err_str e) \<or> str_contains p (err_type e)) retryable_patterns then RD_RETRY
      else RD_UNKNOWN)"

definition should_retry :: "exn \<Rightarrow> bool" where
  "should_retry e \<longleftrightarrow> classify e = RD_RETRY"

definition classify_broker_error :: "exn \<Rightarrow> retry_decision" where
  "classify_broker_error = classify"

subsection \<open>The policy\<close>

datatype retry_safety = SAFE | UNKNOWN | UNSAFE

record retry_policy =
  rp_max_retries :: int
  rp_base_delay :: real
  rp_max_delay :: real
  rp_exponential_base :: real
  rp_allow_unknown_retry :: bool

definition default_policy :: "int \<Rightarrow> retry_policy" where
  "default_policy n = \<lparr>rp_max_retries = n, rp_base_delay = 1, rp_max_delay = 10, rp_exponential_base = 2,
     rp_allow_unknown_retry = False\<rparr>"

definition safe_types :: "string list" where
  "safe_types = [''timeout'', ''connection'', ''temporary'', ''unavailable'', ''503'', ''502'', ''504'']"

definition safe_msgs :: "string list" where
  "safe_msgs = [''timeout'', ''connection'', ''temporary'', ''unavailable'', ''503'', ''502'', ''504'', ''network'']"

definition unknown_types :: "string list" where
  "unknown_types = [''unknown'', ''acknowledgement'', ''ack'', ''uncertain'']"

definition unknown_msgs :: "string list" where
  "unknown_msgs = [''unknown'', ''acknowledgement'', ''ack'', ''uncertain'', ''submission status unknown'']"

definition unsafe_types :: "string list" where
  "unsafe_types = [''rejected'', ''invalid'', ''insufficient'', ''margin'', ''not found'', ''auth'', ''permission'']"

definition unsafe_msgs :: "string list" where
  "unsafe_msgs = [''rejected'', ''invalid'', ''insufficient'', ''margin'', ''not found'', ''auth'', ''permission'',
     ''not allowed'', ''not permitted'']"

definition classify_error :: "exn \<Rightarrow> retry_safety" where
  "classify_error e =
     (if matches safe_types (err_type e) then SAFE
      else if matches safe_msgs (err_str e) then SAFE
      else if matches unknown_types (err_type e) then UNKNOWN
      else if matches unknown_msgs (err_str e) then UNKNOWN
      else if matches unsafe_types (err_type e) then UNSAFE
      else if matches unsafe_msgs (err_str e) then UNSAFE
      else UNKNOWN)"

definition retry_delay :: "retry_policy \<Rightarrow> nat \<Rightarrow> real" where
  "retry_delay p attempt = min (rp_base_delay p * rp_exponential_base p ^ (attempt - 2)) (rp_max_delay p)"

record 'a retry_run =
  rr_result :: "'a option"
  rr_succeeded :: bool
  rr_safety :: retry_safety
  rr_errors :: "exn list"
  rr_delays :: "real list"

definition gives_up :: "retry_policy \<Rightarrow> retry_safety \<Rightarrow> bool" where
  "gives_up p s \<longleftrightarrow> s = UNSAFE \<or> s = UNKNOWN \<and> \<not> rp_allow_unknown_retry p"

text \<open>The loop from \<open>attempt\<close> on, with \<open>left\<close> attempts to go.\<close>

fun retry_loop ::
    "retry_policy \<Rightarrow> (nat \<Rightarrow> bool) option \<Rightarrow> ('w \<Rightarrow> (exn + 'a) \<times> 'w) \<Rightarrow> nat \<Rightarrow> nat
      \<Rightarrow> retry_safety \<Rightarrow> exn list \<Rightarrow> real list \<Rightarrow> 'w \<Rightarrow> 'a retry_run \<times> 'w" where
  "retry_loop p ev f attempt 0 lst errs ds w =
     (\<lparr>rr_result = None, rr_succeeded = False, rr_safety = lst, rr_errors = errs, rr_delays = ds\<rparr>, w)"
| "retry_loop p ev f attempt (Suc left) lst errs ds w =
     (let ds' = (if attempt > 1 then ds @ [retry_delay p attempt] else ds)
      in if attempt > 1 \<and> (case ev of None \<Rightarrow> False | Some fired \<Rightarrow> fired attempt)
         then (\<lparr>rr_result = None, rr_succeeded = False, rr_safety = UNKNOWN, rr_errors = errs, rr_delays = ds'\<rparr>, w)
         else case f w of
           (Inr a, w') \<Rightarrow>
             (\<lparr>rr_result = Some a, rr_succeeded = True, rr_safety = SAFE, rr_errors = errs, rr_delays = ds'\<rparr>, w')
         | (Inl e, w') \<Rightarrow>
             if gives_up p (classify_error e)
             then (\<lparr>rr_result = None, rr_succeeded = False, rr_safety = classify_error e,
                    rr_errors = errs @ [e], rr_delays = ds'\<rparr>, w')
             else retry_loop p ev f (attempt + 1) left (classify_error e) (errs @ [e]) ds' w')"

definition execute_with_retry ::
    "retry_policy \<Rightarrow> (nat \<Rightarrow> bool) option \<Rightarrow> ('w \<Rightarrow> (exn + 'a) \<times> 'w) \<Rightarrow> 'w \<Rightarrow> 'a retry_run \<times> 'w" where
  "execute_with_retry p ev f w = retry_loop p ev f 1 (nat (rp_max_retries p)) UNKNOWN [] [] w"

definition execute_safe_retry ::
    "retry_policy \<Rightarrow> (nat \<Rightarrow> bool) option \<Rightarrow> ('w \<Rightarrow> (exn + 'a) \<times> 'w) \<Rightarrow> 'w \<Rightarrow> (exn + 'a option) \<times> 'w" where
  "execute_safe_retry p ev f w =
     (case execute_with_retry p ev f w of (r, w') \<Rightarrow>
        (if rr_succeeded r then Inr (rr_result r)
         else if rr_safety r = UNKNOWN
         then Inl (Exn RuntimeError ''Operation failed with unknown status - manual intervention required'')
         else if rr_safety r = UNSAFE
         then Inl (Exn RuntimeError ''Operation failed with permanent error - do not retry'')
         else Inl (Exn RuntimeError (''Operation failed after '' @ show_int (rp_max_retries p) @ '' retries'')), w'))"

record 'a retry_result =
  rt_success :: bool
  rt_result :: "'a option"
  rt_safety :: retry_safety
  rt_attempts :: int
  rt_error :: "string option"

definition safe_retry_operation ::
    "int \<Rightarrow> (nat \<Rightarrow> bool) option \<Rightarrow> ('w \<Rightarrow> (exn + 'a) \<times> 'w) \<Rightarrow> 'w \<Rightarrow> 'a retry_result \<times> 'w" where
  "safe_retry_operation n ev f w =
     (case execute_with_retry (default_policy n) ev f w of (r, w') \<Rightarrow>
        (\<lparr>rt_success = rr_succeeded r, rt_result = rr_result r, rt_safety = rr_safety r, rt_attempts = n,
          rt_error = (if \<not> rr_succeeded r \<and> rr_errors r \<noteq> [] then Some (exn_msg (last (rr_errors r))) else None)\<rparr>, w'))"

text \<open>The outcomes of the calls a run makes, by replaying the operation on the world.\<close>

fun outcomes :: "('w \<Rightarrow> (exn + 'a) \<times> 'w) \<Rightarrow> nat \<Rightarrow> 'w \<Rightarrow> (exn + 'a) list \<times> 'w" where
  "outcomes f 0 w = ([], w)"
| "outcomes f (Suc n) w = (case f w of (r, w') \<Rightarrow> (case outcomes f n w' of (rs, w'') \<Rightarrow> (r # rs, w'')))"

section \<open>Lemmas\<close>

lemma matches_iff: "matches ps s \<longleftrightarrow> (\<exists>p \<in> set ps. str_contains p s)"
  by (simp add: matches_def list_ex_iff)

lemma str_contains_trans: "str_contains p q \<Longrightarrow> str_contains q s \<Longrightarrow> str_contains p s"
  unfolding str_contains_iff by (metis append.assoc)

lemma outcomes_snoc:
  "outcomes f n w = (rs, w1) \<Longrightarrow> f w1 = (r, w2) \<Longrightarrow> outcomes f (Suc n) w = (rs @ [r], w2)"
proof (induction n arbitrary: w rs)
  case (Suc n)
  from Suc.prems(1) obtain r1 w' rs' where f: "f w = (r1, w')" "outcomes f n w' = (rs', w1)" "rs = r1 # rs'"
    by (auto split: prod.splits)
  from Suc.IH [OF f(2) Suc.prems(2)] show ?case using f(1,3) outcomes.simps(2) [of f "Suc n" w] by simp
qed simp

text \<open>Whether the wait before an attempt is interrupted, and the loop when it is not.\<close>

definition interrupted :: "(nat \<Rightarrow> bool) option \<Rightarrow> nat \<Rightarrow> bool" where
  "interrupted ev attempt \<longleftrightarrow> attempt > 1 \<and> (case ev of None \<Rightarrow> False | Some fired \<Rightarrow> fired attempt)"

definition delays_to :: "retry_policy \<Rightarrow> nat \<Rightarrow> real list \<Rightarrow> real list" where
  "delays_to p attempt ds = (if attempt > 1 then ds @ [retry_delay p attempt] else ds)"

lemma retry_loop_Suc:
  "retry_loop p ev f attempt (Suc left) lst errs ds w =
     (if interrupted ev attempt
      then (\<lparr>rr_result = None, rr_succeeded = False, rr_safety = UNKNOWN, rr_errors = errs,
             rr_delays = delays_to p attempt ds\<rparr>, w)
      else case f w of
        (Inr a, w') \<Rightarrow>
          (\<lparr>rr_result = Some a, rr_succeeded = True, rr_safety = SAFE, rr_errors = errs,
            rr_delays = delays_to p attempt ds\<rparr>, w')
      | (Inl e, w') \<Rightarrow>
          if gives_up p (classify_error e)
          then (\<lparr>rr_result = None, rr_succeeded = False, rr_safety = classify_error e,
                 rr_errors = errs @ [e], rr_delays = delays_to p attempt ds\<rparr>, w')
          else retry_loop p ev f (attempt + 1) left (classify_error e) (errs @ [e]) (delays_to p attempt ds) w')"
  unfolding retry_loop.simps(2) Let_def interrupted_def delays_to_def ..

text \<open>
  What the loop has done when it returns, relative to the calls already made: \<open>n\<close> calls from \<open>w0\<close>,
  all of them failed with the errors \<open>errs\<close>, none of which gives up.
\<close>

definition retried :: "retry_policy \<Rightarrow> ('w \<Rightarrow> (exn + 'a) \<times> 'w) \<Rightarrow> 'w \<Rightarrow> nat \<Rightarrow> exn list \<Rightarrow> 'w \<Rightarrow> bool" where
  "retried p f w0 n errs w \<longleftrightarrow> outcomes f n w0 = (map Inl errs, w)
     \<and> list_all (\<lambda>e. \<not> gives_up p (classify_error e)) errs"

lemma retry_loop_spec:
  assumes "retried p f w0 n errs w" and "retry_loop p ev f attempt left lst errs ds w = (r, w')"
  shows "\<exists>k \<le> n + left.
     (rr_succeeded r \<longrightarrow> (\<exists>a. rr_result r = Some a \<and> outcomes f k w0 = (map Inl (rr_errors r) @ [Inr a], w')))
   \<and> (\<not> rr_succeeded r \<longrightarrow> rr_result r = None \<and> outcomes f k w0 = (map Inl (rr_errors r), w'))
   \<and> list_all (\<lambda>e. \<not> gives_up p (classify_error e)) (if rr_succeeded r then rr_errors r else butlast (rr_errors r))"
  using assms
proof (induction left arbitrary: attempt lst errs ds w n)
  case 0
  then have "list_all (\<lambda>e. \<not> gives_up p (classify_error e)) (butlast errs)"
    by (auto simp: retried_def list_all_iff dest: in_set_butlastD)
  with 0 show ?case by (auto simp: retried_def intro!: exI [of _ n])
next
  case (Suc left)
  let ?ds = "delays_to p attempt ds"
  note loop = Suc.prems(2) [unfolded retry_loop_Suc]
  from Suc.prems(1) have pre: "outcomes f n w0 = (map Inl errs, w)"
      "list_all (\<lambda>e. \<not> gives_up p (classify_error e)) errs" by (simp_all add: retried_def)
  obtain o1 w1 where f: "f w = (o1, w1)" by (cases "f w")
  have next_out: "outcomes f (Suc n) w0 = (map Inl errs @ [o1], w1)" by (rule outcomes_snoc [OF pre(1) f])
  show ?case
  proof (cases "interrupted ev attempt")
    case True
    with loop have r: "r = \<lparr>rr_result = None, rr_succeeded = False, rr_safety = UNKNOWN,
        rr_errors = errs, rr_delays = ?ds\<rparr>" "w' = w" by simp_all
    have "list_all (\<lambda>e. \<not> gives_up p (classify_error e)) (butlast errs)"
      using pre(2) by (auto simp: list_all_iff dest: in_set_butlastD)
    with r pre show ?thesis by (auto intro!: exI [of _ n])
  next
    case go: False
    show ?thesis
    proof (cases o1)
      case (Inr a)
      with go f loop have r: "r = \<lparr>rr_result = Some a, rr_succeeded = True, rr_safety = SAFE,
        rr_errors = errs, rr_delays = ?ds\<rparr>" "w' = w1" by simp_all
      show ?thesis using r pre(2) next_out Inr by (intro exI [of _ "Suc n"]) simp
    next
      case (Inl e)
      show ?thesis
      proof (cases "gives_up p (classify_error e)")
        case True
        with go f Inl loop have r: "r = \<lparr>rr_result = None, rr_succeeded = False,
          rr_safety = classify_error e, rr_errors = errs @ [e], rr_delays = ?ds\<rparr>" "w' = w1"
          by simp_all
        show ?thesis using r pre(2) next_out Inl by (intro exI [of _ "Suc n"]) simp
      next
        case False
        with next_out Inl pre(2) have ret: "retried p f w0 (Suc n) (errs @ [e]) w1" by (simp add: retried_def)
        have "retry_loop p ev f (attempt + 1) left (classify_error e) (errs @ [e]) ?ds w1 = (r, w')"
          using go f Inl False loop by simp
        from Suc.IH [OF ret this] show ?thesis by simp
      qed
    qed
  qed
qed

lemma retry_loop_delays:
  assumes "retry_loop p ev f attempt left lst errs ds w = (r, w')"
    and "ds = map (retry_delay p) [2..<attempt]" and "attempt \<ge> 1"
  shows "\<exists>k \<le> attempt + left. rr_delays r = map (retry_delay p) [2..<k]"
  using assms
proof (induction left arbitrary: attempt lst errs ds w)
  case 0
  then show ?case by auto
next
  case (Suc left)
  have ds': "delays_to p attempt ds = map (retry_delay p) [2..<attempt + 1]"
    using Suc.prems(2,3) by (cases "attempt = 1") (simp_all add: delays_to_def)
  show ?case
  proof (cases "rr_delays r = map (retry_delay p) [2..<attempt + 1]")
    case True
    then show ?thesis by (intro exI [of _ "attempt + 1"]) simp
  next
    case False
    with Suc.prems(1) ds' obtain lst' errs' w1 where
        "retry_loop p ev f (attempt + 1) left lst' errs' (map (retry_delay p) [2..<attempt + 1]) w1 = (r, w')"
      unfolding retry_loop_Suc by (auto split: if_splits prod.splits sum.splits)
    from Suc.IH [OF this] show ?thesis by auto
  qed
qed

section \<open>Properties\<close>

text \<open>
  C31: Retries are bounded and never follow an unsafe error: a run makes at most \<open>max_retries\<close> calls; it
  succeeds exactly when its last call returns, with that value; every earlier call failed with an
  error that is safe to retry (or of unknown status where the policy allows retrying those); and a
  run that fails has made no call that returned.
\<close>

theorem retries_bounded_and_safe:
  assumes "execute_with_retry p ev f w = (r, w')"
  shows "\<exists>k \<le> nat (rp_max_retries p).
     (rr_succeeded r \<longrightarrow> (\<exists>a. rr_result r = Some a \<and> outcomes f k w = (map Inl (rr_errors r) @ [Inr a], w')))
   \<and> (\<not> rr_succeeded r \<longrightarrow> rr_result r = None \<and> outcomes f k w = (map Inl (rr_errors r), w'))
   \<and> list_all (\<lambda>e. classify_error e = SAFE \<or> classify_error e = UNKNOWN \<and> rp_allow_unknown_retry p)
       (if rr_succeeded r then rr_errors r else butlast (rr_errors r))"
proof -
  have "retried p f w 0 [] w" by (simp add: retried_def)
  from retry_loop_spec [OF this assms [unfolded execute_with_retry_def]]
  obtain k where k: "k \<le> nat (rp_max_retries p)"
     "rr_succeeded r \<longrightarrow> (\<exists>a. rr_result r = Some a \<and> outcomes f k w = (map Inl (rr_errors r) @ [Inr a], w'))"
     "\<not> rr_succeeded r \<longrightarrow> rr_result r = None \<and> outcomes f k w = (map Inl (rr_errors r), w')"
     "list_all (\<lambda>e. \<not> gives_up p (classify_error e)) (if rr_succeeded r then rr_errors r else butlast (rr_errors r))"
    by auto
  have "\<not> gives_up p s \<longleftrightarrow> s = SAFE \<or> s = UNKNOWN \<and> rp_allow_unknown_retry p" for s
    by (cases s) (auto simp: gives_up_def)
  with k show ?thesis by auto
qed

text \<open>An operation that times out twice and then returns the number of the call.\<close>

definition flaky :: "nat \<Rightarrow> (exn + nat) \<times> nat" where
  "flaky n = (if n < 2 then (Inl (Exn TimeoutError ''read timeout''), Suc n) else (Inr n, Suc n))"

lemma timeout_safe: "classify_error (Exn TimeoutError m) = SAFE"
proof -
  have "matches safe_types (err_type (Exn TimeoutError ''''))" by code_simp
  then show ?thesis by (simp add: classify_error_def err_type_def)
qed

theorem retries_bounded_and_safe_witness:
  "\<exists>r w'. execute_with_retry (default_policy 3) None flaky 0 = (r, w') \<and> rr_result r = Some 2
    \<and> (\<exists>k \<le> 3. outcomes flaky k 0 = (map Inl (rr_errors r) @ [Inr 2], w'))"
proof -
  have "\<exists>r w'. execute_with_retry (default_policy 3) None flaky 0 = (r, w') \<and> rr_succeeded r \<and> rr_result r = Some 2"
    by (simp add: execute_with_retry_def eval_nat_numeral retry_loop_Suc interrupted_def default_policy_def flaky_def
        gives_up_def timeout_safe)
  then obtain r w' where r: "execute_with_retry (default_policy 3) None flaky 0 = (r, w')" "rr_succeeded r" "rr_result r = Some 2"
    by blast
  have "nat (rp_max_retries (default_policy 3)) = 3" by (simp add: default_policy_def)
  with retries_bounded_and_safe [OF r(1)] r show ?thesis by auto
qed

text \<open>
  The waits between attempts are the exponential backoff, capped: the delays of a run are the
  first ones of the sequence \<open>min (base * factor ^ (n - 2)) max\<close> for attempts two, three, and so on,
  fewer than \<open>max_retries\<close> of them, and none exceeds the cap.
\<close>

lemma backoff_delays:
  assumes "execute_with_retry p ev f w = (r, w')"
  shows "\<exists>k \<le> nat (rp_max_retries p) + 1. rr_delays r = map (retry_delay p) [2..<k]
    \<and> (\<forall>d \<in> set (rr_delays r). d \<le> rp_max_delay p)"
proof -
  from retry_loop_delays [OF assms [unfolded execute_with_retry_def]]
  obtain k where "k \<le> nat (rp_max_retries p) + 1" "rr_delays r = map (retry_delay p) [2..<k]" by auto
  then show ?thesis by (auto simp: retry_delay_def intro!: exI [of _ k])
qed

text \<open>
  Rate limiting is classified as a permanent error: an error whose message mentions a rate limit
  matches the permanent pattern "limit" first, so it is never retried, although "rate limit" is among
  the retryable patterns.
\<close>

lemma rate_limit_is_permanent:
  assumes "str_contains ''rate limit'' (str_lower (exn_msg e))"
  shows "classify e = RD_PERMANENT \<and> \<not> should_retry e"
proof -
  have "str_contains ''limit'' ''rate limit''" by code_simp
  then have "str_contains ''limit'' (err_str e)"
    using assms unfolding err_str_def by (rule str_contains_trans)
  then show ?thesis by (simp add: classify_def should_retry_def permanent_patterns_def)
qed

end
