(* ===== verification/Circuit_Breaker.thy ===== *)
theory Circuit_Breaker
  imports Prelude
begin

text \<open>
  The circuit breaker service, \<open>core/services/circuit_breaker_service.py\<close>, with the configuration of
  \<open>core/ports/circuit_breaker/circuit_breaker_port.py\<close>.

  The service holds one breaker per key. The protected function acts on a world \<open>'w\<close> and may raise;
  a call reads the clock when it decides whether to attempt (\<open>t1\<close>) and after the function returned or
  raised (\<open>t2\<close>). Both branches of the code's test for the expected exception class do the same, so the
  class is left out of the configuration. The message of a refused call leaves out the time of the
  next attempt.
\<close>

section \<open>Definitions\<close>

datatype cstate = CLOSED | OPEN | HALF_OPEN

record cb_config =
  cf_failure_threshold :: int
  cf_success_threshold :: int
  cf_timeout :: int
  cf_window_size :: int
  cf_window_type :: string
  cf_rate_threshold :: real
  cf_half_open_max :: int
  cf_timeout_base :: real

definition default_config :: cb_config where
  "default_config = \<lparr>cf_failure_threshold = 5, cf_success_threshold = 3, cf_timeout = 60, cf_window_size = 10,
     cf_window_type = ''time'', cf_rate_threshold = 1 / 2, cf_half_open_max = 0, cf_timeout_base = 2\<rparr>"

record breaker =
  cb_config :: cb_config
  cb_state :: cstate
  cb_failure_count :: int
  cb_success_count :: int
  cb_last_failure :: "real option"
  cb_last_success :: "real option"
  cb_next_attempt :: "real option"
  cb_failure_ts :: "real list"
  cb_success_ts :: "real list"
  cb_open_count :: nat
  cb_half_open_requests :: int

definition new_breaker :: "cb_config \<Rightarrow> breaker" where
  "new_breaker cfg = \<lparr>cb_config = cfg, cb_state = CLOSED, cb_failure_count = 0, cb_success_count = 0,
     cb_last_failure = None, cb_last_success = None, cb_next_attempt = None, cb_failure_ts = [], cb_success_ts = [],
     cb_open_count = 0, cb_half_open_requests = 0\<rparr>"

type_synonym cb_service = "(string, breaker) dict"

definition get_breaker :: "string \<Rightarrow> cb_service \<Rightarrow> breaker" where
  "get_breaker k sv = (case map_of sv k of None \<Rightarrow> new_breaker default_config | Some b \<Rightarrow> b)"

definition should_attempt_call :: "real \<Rightarrow> breaker \<Rightarrow> bool \<times> breaker" where
  "should_attempt_call now b =
     (case cb_state b of
        CLOSED \<Rightarrow> (True, b)
      | OPEN \<Rightarrow>
          (case cb_next_attempt b of
             Some t \<Rightarrow> if now \<ge> t then (True, b\<lparr>cb_state := HALF_OPEN, cb_success_count := 0, cb_half_open_requests := 0\<rparr>)
                       else (False, b)
           | None \<Rightarrow> (False, b))
      | HALF_OPEN \<Rightarrow>
          (if cf_half_open_max (cb_config b) > 0 \<and> cb_half_open_requests b \<ge> cf_half_open_max (cb_config b)
           then (False, b) else (True, b)))"

definition trim_timestamps :: "real \<Rightarrow> cb_config \<Rightarrow> real list \<Rightarrow> real list" where
  "trim_timestamps now cfg ts =
     (if cf_window_type cfg = ''time'' then dropWhile (\<lambda>t. t < now - of_int (cf_window_size cfg)) ts
      else drop (length ts - nat (cf_window_size cfg)) ts)"

definition on_success :: "real \<Rightarrow> breaker \<Rightarrow> breaker" where
  "on_success now b =
     (let b1 = b\<lparr>cb_last_success := Some now, cb_success_count := cb_success_count b + 1\<rparr>;
          b2 = (if cb_state b1 = HALF_OPEN then b1\<lparr>cb_half_open_requests := cb_half_open_requests b1 + 1\<rparr> else b1);
          b3 = b2\<lparr>cb_success_ts := trim_timestamps now (cb_config b2) (cb_success_ts b2 @ [now])\<rparr>
      in if cb_state b3 = HALF_OPEN then
           (if cb_success_count b3 \<ge> cf_success_threshold (cb_config b3)
            then b3\<lparr>cb_state := CLOSED, cb_failure_count := 0, cb_next_attempt := None, cb_open_count := 0\<rparr>
            else b3)
         else if cb_state b3 = CLOSED then b3\<lparr>cb_failure_count := 0\<rparr>
         else b3)"

text \<open>The delay in seconds, and the breaker with its counter of openings raised.\<close>

definition compute_timeout :: "breaker \<Rightarrow> real \<times> breaker" where
  "compute_timeout b =
     (let n = cb_open_count b + 1
      in (min (of_int (cf_timeout (cb_config b)) * cf_timeout_base (cb_config b) ^ (n - 1)) 28800,
          b\<lparr>cb_open_count := n\<rparr>))"

definition calculate_failure_rate :: "real \<Rightarrow> breaker \<Rightarrow> real" where
  "calculate_failure_rate now b =
     (let cfg = cb_config b;
          ratio = (\<lambda>f s. if f + s = 0 then 0 else of_int f / of_int (f + s));
          recent = (\<lambda>ts. int (length (filter (\<lambda>t. t \<ge> now - of_int (cf_window_size cfg)) ts)))
      in if cf_window_size cfg \<le> 0 then ratio (cb_failure_count b) (cb_success_count b)
         else if cf_window_type cfg = ''time'' then ratio (recent (cb_failure_ts b)) (recent (cb_success_ts b))
         else ratio (int (length (cb_failure_ts b))) (int (length (cb_success_ts b))))"

definition calculate_throughput :: "real \<Rightarrow> breaker \<Rightarrow> real" where
  "calculate_throughput now b =
     (let cfg = cb_config b;
          recent = (\<lambda>ts. int (length (filter (\<lambda>t. t \<ge> now - of_int (cf_window_size cfg)) ts)))
      in if cf_window_size cfg \<le> 0 then 0
         else if cf_window_type cfg = ''time''
         then of_int (recent (cb_failure_ts b) + recent (cb_success_ts b)) / of_int (cf_window_size cfg)
         else
           (let n = length (cb_failure_ts b) + length (cb_success_ts b) in if n > 0 then of_nat n / 60 else 0))"

definition should_trip_breaker :: "real \<Rightarrow> breaker \<Rightarrow> bool" where
  "should_trip_breaker now b \<longleftrightarrow>
     cb_failure_count b \<ge> cf_failure_threshold (cb_config b)
     \<or> cf_window_size (cb_config b) > 0 \<and> calculate_failure_rate now b > cf_rate_threshold (cb_config b)"

definition trip :: "real \<Rightarrow> breaker \<Rightarrow> breaker" where
  "trip now b =
     (case compute_timeout (b\<lparr>cb_state := OPEN\<rparr>) of (delay, b') \<Rightarrow> b'\<lparr>cb_next_attempt := Some (now + delay)\<rparr>)"

definition on_failure :: "real \<Rightarrow> breaker \<Rightarrow> breaker" where
  "on_failure now b =
     (let b1 = b\<lparr>cb_last_failure := Some now, cb_failure_count := cb_failure_count b + 1\<rparr>;
          b2 = b1\<lparr>cb_failure_ts := trim_timestamps now (cb_config b1) (cb_failure_ts b1 @ [now])\<rparr>
      in if cb_state b2 = HALF_OPEN then trip now b2
         else if cb_state b2 = CLOSED then (if should_trip_breaker now b2 then trip now b2 else b2)
         else b2)"

definition call_with_key ::
    "real \<Rightarrow> real \<Rightarrow> string \<Rightarrow> ('w \<Rightarrow> (exn + 'a) \<times> 'w) \<Rightarrow> cb_service \<times> 'w \<Rightarrow> (exn + 'a) \<times> cb_service \<times> 'w" where
  "call_with_key t1 t2 k f = (\<lambda>(sv, w).
     case should_attempt_call t1 (get_breaker k sv) of
       (False, b) \<Rightarrow>
         (Inl (Exn CircuitBreakerOpenException
            (if cb_state b = OPEN then ''Circuit breaker is OPEN for key '' @ k
             else ''Circuit breaker is not allowing calls for key '' @ k)), dict_set k b sv, w)
     | (True, b) \<Rightarrow>
         (case f w of
            (Inr a, w') \<Rightarrow> (Inr a, dict_set k (on_success t2 b) sv, w')
          | (Inl e, w') \<Rightarrow> (Inl e, dict_set k (on_failure t2 b) sv, w')))"

definition cb_call ::
    "real \<Rightarrow> real \<Rightarrow> ('w \<Rightarrow> (exn + 'a) \<times> 'w) \<Rightarrow> cb_service \<times> 'w \<Rightarrow> (exn + 'a) \<times> cb_service \<times> 'w" where
  "cb_call t1 t2 = call_with_key t1 t2 ''global''"

definition cb_get_state :: "string \<Rightarrow> cb_service \<Rightarrow> cstate" where
  "cb_get_state k sv = (case map_of sv k of None \<Rightarrow> CLOSED | Some b \<Rightarrow> cb_state b)"

record cb_stats =
  bs_state :: cstate
  bs_failure_count :: int
  bs_success_count :: int
  bs_last_failure :: "real option"
  bs_last_success :: "real option"
  bs_next_attempt :: "real option"
  bs_failure_rate :: real
  bs_throughput :: real

definition cb_get_stats :: "real \<Rightarrow> string \<Rightarrow> cb_service \<Rightarrow> cb_stats" where
  "cb_get_stats now k sv =
     (case map_of sv k of
        None \<Rightarrow> \<lparr>bs_state = CLOSED, bs_failure_count = 0, bs_success_count = 0, bs_last_failure = None,
                 bs_last_success = None, bs_next_attempt = None, bs_failure_rate = 0, bs_throughput = 0\<rparr>
      | Some b \<Rightarrow> \<lparr>bs_state = cb_state b, bs_failure_count = cb_failure_count b, bs_success_count = cb_success_count b,
                  bs_last_failure = cb_last_failure b, bs_last_success = cb_last_success b,
                  bs_next_attempt = cb_next_attempt b, bs_failure_rate = calculate_failure_rate now b,
                  bs_throughput = calculate_throughput now b\<rparr>)"

definition cb_reset :: "string \<Rightarrow> cb_service \<Rightarrow> cb_service" where
  "cb_reset k sv = dict_set k (new_breaker (cb_config (get_breaker k sv))) sv"

definition cb_force_open :: "real \<Rightarrow> string \<Rightarrow> cb_service \<Rightarrow> cb_service" where
  "cb_force_open now k sv = dict_set k (trip now (get_breaker k sv)) sv"

definition cb_force_close :: "string \<Rightarrow> cb_service \<Rightarrow> cb_service" where
  "cb_force_close k sv = dict_set k (new_breaker (cb_config (get_breaker k sv))) sv"

definition cb_update_config :: "string \<Rightarrow> cb_config \<Rightarrow> cb_service \<Rightarrow> cb_service" where
  "cb_update_config k cfg sv =
     (case map_of sv k of
        None \<Rightarrow> dict_set k (new_breaker cfg) sv
      | Some b \<Rightarrow> dict_set k (b\<lparr>cb_config := cfg\<rparr>) sv)"

text \<open>\<open>health_check\<close>: per breaker its state, counters and times.\<close>

definition cb_health_check ::
    "cb_service \<Rightarrow> (string, cstate \<times> int \<times> int \<times> real option \<times> real option \<times> real option) dict \<times> int" where
  "cb_health_check sv =
     (map (\<lambda>(k, b). (k, cb_state b, cb_failure_count b, cb_success_count b, cb_last_failure b, cb_last_success b,
        cb_next_attempt b)) sv, int (length sv))"

subsection \<open>Runs\<close>

text \<open>An operation of the service; a call carries the outcome of the protected function.\<close>

datatype 'a cb_op =
    CbCall real real string "exn + 'a"
  | CbReset string
  | CbForceOpen real string
  | CbForceClose string
  | CbConfig string cb_config

fun cb_step :: "'a cb_op \<Rightarrow> cb_service \<Rightarrow> cb_service" where
  "cb_step (CbCall t1 t2 k out) sv = fst (snd (call_with_key t1 t2 k (\<lambda>w. (out, w)) (sv, ())))"
| "cb_step (CbReset k) sv = cb_reset k sv"
| "cb_step (CbForceOpen now k) sv = cb_force_open now k sv"
| "cb_step (CbForceClose k) sv = cb_force_close k sv"
| "cb_step (CbConfig k cfg) sv = cb_update_config k cfg sv"

definition breaker_ok :: "breaker \<Rightarrow> bool" where
  "breaker_ok b \<longleftrightarrow> (cb_state b = OPEN \<longrightarrow> cb_next_attempt b \<noteq> None)
     \<and> (cb_state b = HALF_OPEN \<longrightarrow> cb_half_open_requests b = cb_success_count b \<and> 0 \<le> cb_success_count b)"

definition service_ok :: "cb_service \<Rightarrow> bool" where
  "service_ok sv \<longleftrightarrow> (\<forall>k b. map_of sv k = Some b \<longrightarrow> breaker_ok b)"

text \<open>When a call goes through.\<close>

definition admits :: "real \<Rightarrow> breaker \<Rightarrow> bool" where
  "admits now b \<longleftrightarrow> (case cb_state b of
      CLOSED \<Rightarrow> True
    | OPEN \<Rightarrow> (case cb_next_attempt b of Some t \<Rightarrow> now \<ge> t | None \<Rightarrow> False)
    | HALF_OPEN \<Rightarrow> cf_half_open_max (cb_config b) \<le> 0 \<or> cb_half_open_requests b < cf_half_open_max (cb_config b))"

text \<open>The state after \<open>n\<close> successful calls on one key, each at a time of its own.\<close>

fun succeed :: "string \<Rightarrow> real list \<Rightarrow> cb_service \<Rightarrow> cb_service" where
  "succeed k [] sv = sv"
| "succeed k (t # ts) sv = succeed k ts (cb_step (CbCall t t k (Inr ())) sv)"

section \<open>The gate\<close>

lemma should_attempt_admits: "fst (should_attempt_call now b) = admits now b"
  by (auto simp: should_attempt_call_def admits_def split: cstate.splits option.splits)

lemma should_attempt_refused: "\<not> admits now b \<Longrightarrow> should_attempt_call now b = (False, b)"
  by (auto simp: should_attempt_call_def admits_def split: cstate.splits option.splits if_splits)

lemma call_refused:
  "\<not> admits t1 (get_breaker k sv) \<Longrightarrow>
     \<exists>m. call_with_key t1 t2 k f (sv, w) = (Inl (Exn CircuitBreakerOpenException m), dict_set k (get_breaker k sv) sv, w)"
  by (simp add: call_with_key_def should_attempt_refused)

lemma call_admitted:
  "admits t1 (get_breaker k sv) \<Longrightarrow> call_with_key t1 t2 k f (sv, w) =
     (fst (f w), dict_set k ((case fst (f w) of Inr _ \<Rightarrow> on_success t2 | Inl _ \<Rightarrow> on_failure t2)
        (snd (should_attempt_call t1 (get_breaker k sv)))) sv, snd (f w))"
  using should_attempt_admits [of t1 "get_breaker k sv"]
  by (cases "should_attempt_call t1 (get_breaker k sv)") (auto simp: call_with_key_def split: prod.splits sum.splits)

section \<open>The invariant\<close>

lemma breaker_ok_new [simp]: "breaker_ok (new_breaker cfg)"
  by (simp add: breaker_ok_def new_breaker_def)

lemma trip_sel [simp]:
  "cb_state (trip now b) = OPEN" "cb_half_open_requests (trip now b) = cb_half_open_requests b"
  "cb_config (trip now b) = cb_config b" "cb_next_attempt (trip now b) \<noteq> None"
  by (simp_all add: trip_def compute_timeout_def Let_def)

lemma breaker_ok_trip: "breaker_ok b \<Longrightarrow> breaker_ok (trip now b)"
  using trip_sel(4) [of now b] by (simp add: breaker_ok_def)

lemma breaker_ok_attempt: "breaker_ok b \<Longrightarrow> breaker_ok (snd (should_attempt_call now b))"
  by (auto simp: breaker_ok_def should_attempt_call_def split: cstate.splits option.splits)

lemma breaker_ok_success: "breaker_ok b \<Longrightarrow> breaker_ok (on_success now b)"
  by (auto simp: breaker_ok_def on_success_def Let_def)

lemma breaker_ok_failure: "breaker_ok b \<Longrightarrow> breaker_ok (on_failure now b)"
proof -
  assume "breaker_ok b"
  then have "breaker_ok (b\<lparr>cb_last_failure := l, cb_failure_count := c, cb_failure_ts := ts\<rparr>)" for l c ts
    by (simp add: breaker_ok_def)
  then show ?thesis by (simp add: on_failure_def Let_def breaker_ok_trip)
qed

lemma service_ok_get: "service_ok sv \<Longrightarrow> breaker_ok (get_breaker k sv)"
  by (simp add: service_ok_def get_breaker_def split: option.splits)

lemma service_ok_set: "service_ok sv \<Longrightarrow> breaker_ok b \<Longrightarrow> service_ok (dict_set k b sv)"
  by (simp add: service_ok_def)

lemma cb_step_ok: "service_ok sv \<Longrightarrow> service_ok (cb_step op sv)"
proof (cases op)
  case (CbCall t1 t2 k out)
  assume ok: "service_ok sv"
  note b = breaker_ok_attempt [OF service_ok_get [OF ok], of t1 k]
  show ?thesis
  proof (cases "admits t1 (get_breaker k sv)")
    case True
    with CbCall ok b show ?thesis
      by (simp add: call_admitted service_ok_set breaker_ok_success breaker_ok_failure split: sum.split)
  next
    case False
    with call_refused [OF False, of t2 "\<lambda>w. (out, w)" "()"] CbCall ok show ?thesis
      by (auto simp: service_ok_set service_ok_get)
  qed
next
  case (CbConfig k cfg)
  assume "service_ok sv"
  with CbConfig show ?thesis
    by (auto simp: cb_update_config_def service_ok_def breaker_ok_def new_breaker_def split: option.splits)
qed (simp_all add: cb_reset_def cb_force_open_def cb_force_close_def service_ok_set service_ok_get breaker_ok_trip)

interpretation cb_run: op_system cb_step service_ok
  by unfold_locales (rule cb_step_ok)

section \<open>Recovery\<close>

lemma get_breaker_set [simp]: "get_breaker k (dict_set j b sv) = (if j = k then b else get_breaker k sv)"
  by (simp add: get_breaker_def)

lemma succeed_step:
  "admits t (get_breaker k sv) \<Longrightarrow> get_breaker k (cb_step (CbCall t t k (Inr ())) sv) =
     on_success t (snd (should_attempt_call t (get_breaker k sv)))"
  by (simp add: call_admitted)

lemma half_open_success:
  assumes "cb_state b = HALF_OPEN"
  shows "cb_success_count b + 1 \<ge> cf_success_threshold (cb_config b) \<Longrightarrow> cb_state (on_success t b) = CLOSED"
    and "cb_success_count b + 1 < cf_success_threshold (cb_config b) \<Longrightarrow>
      cb_state (on_success t b) = HALF_OPEN \<and> cb_success_count (on_success t b) = cb_success_count b + 1
      \<and> cb_half_open_requests (on_success t b) = cb_half_open_requests b + 1 \<and> cb_config (on_success t b) = cb_config b"
  using assms by (simp_all add: on_success_def Let_def)

text \<open>A half-open breaker that has counted \<open>n\<close> successes.\<close>

definition half_open_at :: "cb_config \<Rightarrow> int \<Rightarrow> breaker \<Rightarrow> bool" where
  "half_open_at cfg n b \<longleftrightarrow> cb_state b = HALF_OPEN \<and> cb_success_count b = n \<and> cb_half_open_requests b = n
     \<and> cb_config b = cfg"

lemma half_open_at_attempt:
  "half_open_at cfg n b \<Longrightarrow> cf_half_open_max cfg \<le> 0 \<or> n < cf_half_open_max cfg \<Longrightarrow>
     admits t b \<and> snd (should_attempt_call t b) = b"
  by (auto simp: half_open_at_def admits_def should_attempt_call_def)

lemma half_open_at_next:
  assumes "half_open_at cfg n b" and "n + 1 < cf_success_threshold cfg"
  shows "half_open_at cfg (n + 1) (on_success t b)"
  using half_open_success(2) [of b t] assms by (simp add: half_open_at_def)

lemma open_attempt:
  assumes "cb_state b = OPEN" and "cb_next_attempt b = Some t0" and "t0 \<le> t"
  shows "admits t b \<and> half_open_at (cb_config b) 0 (snd (should_attempt_call t b))"
  using assms by (simp add: admits_def should_attempt_call_def half_open_at_def)

lemma succeed_closes:
  assumes "half_open_at cfg n (get_breaker k sv)" and "n < cf_success_threshold cfg"
    and "cf_half_open_max cfg \<le> 0 \<or> cf_success_threshold cfg \<le> cf_half_open_max cfg"
    and "int (length ts) = cf_success_threshold cfg - n"
  shows "cb_state (get_breaker k (succeed k ts sv)) = CLOSED"
  using assms
proof (induction ts arbitrary: n sv)
  case (Cons t ts)
  note att = half_open_at_attempt [OF Cons.prems(1), of t]
  have adm: "admits t (get_breaker k sv)" "snd (should_attempt_call t (get_breaker k sv)) = get_breaker k sv"
    using att Cons.prems(2,3) by auto
  have step: "get_breaker k (cb_step (CbCall t t k (Inr ())) sv) = on_success t (get_breaker k sv)"
    using succeed_step [OF adm(1)] adm(2) by simp
  show ?case
  proof (cases ts)
    case Nil
    with Cons.prems half_open_success(1) [of "get_breaker k sv" t] step show ?thesis
      by (simp add: half_open_at_def del: cb_step.simps)
  next
    case (Cons t' ts')
    with Cons.prems(4) have "n + 1 < cf_success_threshold cfg" by simp
    then have "half_open_at cfg (n + 1) (get_breaker k (cb_step (CbCall t t k (Inr ())) sv))"
      using half_open_at_next Cons.prems(1) step by simp
    from Cons.IH [OF this] Cons.prems \<open>n + 1 < cf_success_threshold cfg\<close> show ?thesis by simp
  qed
qed simp

lemma succeed_stuck:
  assumes "half_open_at cfg n (get_breaker k sv)" and "cf_half_open_max cfg < cf_success_threshold cfg"
    and "0 < cf_half_open_max cfg" and "int (length ts) = cf_half_open_max cfg - n"
  shows "half_open_at cfg (cf_half_open_max cfg) (get_breaker k (succeed k ts sv))"
  using assms
proof (induction ts arbitrary: n sv)
  case (Cons t ts)
  have n: "n < cf_half_open_max cfg" using Cons.prems(4) by simp
  with half_open_at_attempt [OF Cons.prems(1), of t]
  have adm: "admits t (get_breaker k sv)" "snd (should_attempt_call t (get_breaker k sv)) = get_breaker k sv" by auto
  have "half_open_at cfg (n + 1) (get_breaker k (cb_step (CbCall t t k (Inr ())) sv))"
    using succeed_step [OF adm(1)] adm(2) half_open_at_next [OF Cons.prems(1)] n Cons.prems(2) by simp
  from Cons.IH [OF this Cons.prems(2,3)] Cons.prems(4) show ?case by simp
qed simp

section \<open>Properties\<close>

text \<open>
  C34: The breaker decides alone whether the dependency is called: a call is refused with
  \<open>CircuitBreakerOpenException\<close>, without running the function and without changing the breaker, exactly
  when the circuit is open before its next attempt time or half open with its trial calls used up;
  otherwise the function runs once and its own result or exception is what the caller gets.
\<close>

theorem circuit_breaker_gate:
  "(admits t1 (get_breaker k sv) \<longrightarrow>
      fst (call_with_key t1 t2 k f (sv, w)) = fst (f w) \<and> snd (snd (call_with_key t1 t2 k f (sv, w))) = snd (f w))
   \<and> (\<not> admits t1 (get_breaker k sv) \<longrightarrow>
      (\<exists>m. fst (call_with_key t1 t2 k f (sv, w)) = Inl (Exn CircuitBreakerOpenException m))
      \<and> snd (snd (call_with_key t1 t2 k f (sv, w))) = w
      \<and> get_breaker k (fst (snd (call_with_key t1 t2 k f (sv, w)))) = get_breaker k sv)
   \<and> (\<forall>j. j \<noteq> k \<longrightarrow> get_breaker j (fst (snd (call_with_key t1 t2 k f (sv, w)))) = get_breaker j sv)"
proof (cases "admits t1 (get_breaker k sv)")
  case True
  then show ?thesis by (simp add: call_admitted)
next
  case False
  from call_refused [OF False, of t2 f w] False show ?thesis by auto
qed

theorem circuit_breaker_gate_witness:
  "snd (snd (call_with_key 10 10 ''broker'' (\<lambda>n. (Inr (), Suc n)) (cb_force_open 0 ''broker'' [], 0))) = 0
   \<and> snd (snd (call_with_key 60 60 ''broker'' (\<lambda>n. (Inr (), Suc n)) (cb_force_open 0 ''broker'' [], 0))) = 1"
proof -
  have b: "get_breaker ''broker'' (cb_force_open 0 ''broker'' []) = trip 0 (new_breaker default_config)"
    by (simp add: cb_force_open_def get_breaker_def)
  have "admits t (trip 0 (new_breaker default_config)) \<longleftrightarrow> t \<ge> 60" for t
    by (simp add: admits_def trip_def compute_timeout_def new_breaker_def default_config_def Let_def)
  with circuit_breaker_gate [of 10 "''broker''" "cb_force_open 0 ''broker'' []" 10 "\<lambda>n. (Inr (), Suc n)" 0]
    circuit_breaker_gate [of 60 "''broker''" "cb_force_open 0 ''broker'' []" 60 "\<lambda>n. (Inr (), Suc n)" 0] b
  show ?thesis by simp
qed

text \<open>
  C35: An open circuit always gets its trial call, and recovers by as many successes as configured:
  after any operations, a breaker that is open has a time from which on a call is admitted; from then
  on \<open>success_threshold\<close> successful calls close it, unless the configuration limits the trial calls to
  fewer than that.
\<close>

theorem open_circuit_recovers:
  assumes "cb_state (get_breaker k (fold cb_step ops [])) = OPEN"
  shows "\<exists>t0. cb_next_attempt (get_breaker k (fold cb_step ops [])) = Some t0
    \<and> (\<forall>ts. ts \<noteq> [] \<and> hd ts \<ge> t0
        \<and> (let cfg = cb_config (get_breaker k (fold cb_step ops [])) in
             int (length ts) = cf_success_threshold cfg
             \<and> (cf_half_open_max cfg \<le> 0 \<or> cf_success_threshold cfg \<le> cf_half_open_max cfg))
        \<longrightarrow> cb_get_state k (succeed k ts (fold cb_step ops [])) = CLOSED)"
proof -
  let ?sv = "fold cb_step ops []" let ?b = "get_breaker k ?sv" let ?cfg = "cb_config ?b"
  have "service_ok ?sv" by (rule cb_run.run_inv) (simp add: service_ok_def)
  then obtain t0 where t0: "cb_next_attempt ?b = Some t0"
    using service_ok_get assms by (fastforce simp: breaker_ok_def)
  have "cb_state (get_breaker k (succeed k (t # ts) ?sv)) = CLOSED"
    if "t \<ge> t0" and len: "int (length (t # ts)) = cf_success_threshold ?cfg"
      and cap: "cf_half_open_max ?cfg \<le> 0 \<or> cf_success_threshold ?cfg \<le> cf_half_open_max ?cfg" for t ts
  proof -
    note open_ = open_attempt [OF assms t0 that(1)]
    let ?h = "snd (should_attempt_call t ?b)"
    have step: "get_breaker k (cb_step (CbCall t t k (Inr ())) ?sv) = on_success t ?h"
      using succeed_step open_ by blast
    show ?thesis
    proof (cases ts)
      case Nil
      then show ?thesis
        using half_open_success(1) [of ?h t] open_ step len by (simp add: half_open_at_def del: cb_step.simps)
    next
      case (Cons t' ts')
      then have "half_open_at ?cfg 1 (get_breaker k (cb_step (CbCall t t k (Inr ())) ?sv))"
        using half_open_at_next [of ?cfg 0 ?h t] open_ step len by simp
      from succeed_closes [OF this _ cap, of ts] show ?thesis using len Cons by simp
    qed
  qed
  then have "cb_state (get_breaker k (succeed k ts ?sv)) = CLOSED"
    if "ts \<noteq> []" "hd ts \<ge> t0" "int (length ts) = cf_success_threshold ?cfg"
      "cf_half_open_max ?cfg \<le> 0 \<or> cf_success_threshold ?cfg \<le> cf_half_open_max ?cfg" for ts
    using that by (cases ts) auto
  moreover have "cb_get_state k sv = cb_state (get_breaker k sv)" for sv
    by (simp add: cb_get_state_def get_breaker_def new_breaker_def split: option.split)
  ultimately show ?thesis using t0 by (auto simp: Let_def)
qed

theorem open_circuit_recovers_witness:
  "cb_get_state ''k'' (succeed ''k'' [60, 61, 62] (fold cb_step [CbForceOpen 0 ''k'' :: unit cb_op] [])) = CLOSED"
proof -
  have b: "get_breaker ''k'' (fold cb_step [CbForceOpen 0 ''k'' :: unit cb_op] []) = trip 0 (new_breaker default_config)"
    by (simp add: cb_force_open_def get_breaker_def)
  have n: "cb_next_attempt (trip 0 (new_breaker default_config)) = Some 60"
    by (simp add: trip_def compute_timeout_def new_breaker_def default_config_def Let_def)
  have c: "cb_config (new_breaker default_config) = default_config" by (simp add: new_breaker_def)
  have "cb_state (get_breaker ''k'' (fold cb_step [CbForceOpen 0 ''k'' :: unit cb_op] [])) = OPEN" by (simp only: b trip_sel)
  from open_circuit_recovers [OF this, unfolded b n] obtain t0 where "Some 60 = Some t0"
    and closes: "\<forall>ts. ts \<noteq> [] \<and> hd ts \<ge> t0
        \<and> (let cfg = cb_config (trip 0 (new_breaker default_config)) in
             int (length ts) = cf_success_threshold cfg
             \<and> (cf_half_open_max cfg \<le> 0 \<or> cf_success_threshold cfg \<le> cf_half_open_max cfg))
        \<longrightarrow> cb_get_state ''k'' (succeed ''k'' ts (fold cb_step [CbForceOpen 0 ''k'' :: unit cb_op] [])) = CLOSED"
    by blast
  from \<open>Some 60 = Some t0\<close> spec [OF closes, of "[60, 61, 62]"] show ?thesis
    by (simp add: Let_def c del: fold.simps succeed.simps) (simp add: default_config_def)
qed

text \<open>
  A trial limit below the success threshold locks the breaker: an open breaker whose configuration
  allows fewer trial calls than the successes it needs is, after that many successful calls, half open
  and refuses every further call at every time.
\<close>

lemma trial_limit_locks_breaker:
  assumes "cb_state (get_breaker k sv) = OPEN" and "cb_next_attempt (get_breaker k sv) = Some t0" and "t0 \<le> t"
    and "0 < cf_half_open_max (cb_config (get_breaker k sv))"
    and "cf_half_open_max (cb_config (get_breaker k sv)) < cf_success_threshold (cb_config (get_breaker k sv))"
    and "int (length ts) + 1 = cf_half_open_max (cb_config (get_breaker k sv))"
  shows "cb_state (get_breaker k (succeed k (t # ts) sv)) = HALF_OPEN
    \<and> (\<forall>now. \<not> admits now (get_breaker k (succeed k (t # ts) sv)))"
proof -
  let ?cfg = "cb_config (get_breaker k sv)"
  note open_ = open_attempt [OF assms(1-3)]
  have "half_open_at ?cfg 1 (get_breaker k (cb_step (CbCall t t k (Inr ())) sv))"
    using succeed_step open_ half_open_at_next [of ?cfg 0 _ t] assms(4,5) by simp
  from succeed_stuck [OF this assms(5,4), of ts] assms(6)
  have "half_open_at ?cfg (cf_half_open_max ?cfg) (get_breaker k (succeed k (t # ts) sv))" by simp
  with assms(4) show ?thesis by (simp add: half_open_at_def admits_def del: succeed.simps)
qed

text \<open>
  With the default configuration one failure opens the circuit: the failure rate of the window is
  one after the first failure of a breaker without recent successes, above the rate threshold, so the
  threshold of five failures is not reached before.
\<close>

lemma first_failure_opens_default_breaker:
  "cb_get_state k (cb_step (CbCall t1 t2 k (Inl e)) []) = OPEN"
  by (simp add: call_with_key_def get_breaker_def should_attempt_call_def new_breaker_def default_config_def
      on_failure_def should_trip_breaker_def calculate_failure_rate_def trim_timestamps_def trip_def
      compute_timeout_def cb_get_state_def Let_def)

end
