(* ===== verification/Rate_Limiter.thy ===== *)
theory Rate_Limiter
  imports Prelude
begin

text \<open>
  The rate limiting service, \<open>core/services/rate_limiting_service.py\<close>, with the configuration and status
  classes of \<open>core/ports/rate_limiting/rate_limit_port.py\<close>: fixed window counter, sliding window log
  and token bucket, per key. Every operation reads the clock once, \<open>now\<close>.
\<close>

section \<open>Definitions\<close>

datatype limit_result = ALLOWED | DENIED | RETRY_AFTER

record rl_config =
  rc_limit :: int
  rc_window :: int
  rc_algorithm :: string
  rc_burst_limit :: "int option"

record window_counter =
  wc_count :: int
  wc_start :: real

record token_bucket =
  tb_capacity :: int
  tb_tokens :: real
  tb_refill_rate :: real
  tb_last_refill :: real

record rate_limiter =
  rl_default :: rl_config
  rl_counters :: "(string, window_counter) dict"
  rl_windows :: "(string, real list) dict"
  rl_buckets :: "(string, token_bucket) dict"
  rl_custom :: "(string, rl_config) dict"

definition new_rate_limiter :: "rl_config option \<Rightarrow> rate_limiter" where
  "new_rate_limiter cfg = \<lparr>
     rl_default = (case cfg of Some c \<Rightarrow> c
       | None \<Rightarrow> \<lparr>rc_limit = 100, rc_window = 60, rc_algorithm = ''fixed_window'', rc_burst_limit = None\<rparr>),
     rl_counters = [], rl_windows = [], rl_buckets = [], rl_custom = []\<rparr>"

definition rl_get_config :: "string \<Rightarrow> rate_limiter \<Rightarrow> rl_config" where
  "rl_get_config k rl = (case map_of (rl_custom rl) k of Some c \<Rightarrow> c | None \<Rightarrow> rl_default rl)"

definition is_allowed_fixed_window ::
    "real \<Rightarrow> string \<Rightarrow> int \<Rightarrow> rl_config \<Rightarrow> rate_limiter \<Rightarrow> limit_result \<times> rate_limiter" where
  "is_allowed_fixed_window now k cost cfg rl =
     (let c = (case map_of (rl_counters rl) k of
                 Some c \<Rightarrow> if now - wc_start c \<ge> of_int (rc_window cfg) then \<lparr>wc_count = 0, wc_start = now\<rparr> else c
               | None \<Rightarrow> \<lparr>wc_count = 0, wc_start = now\<rparr>)
      in if wc_count c + cost > rc_limit cfg
         then (DENIED, rl\<lparr>rl_counters := dict_set k c (rl_counters rl)\<rparr>)
         else (ALLOWED, rl\<lparr>rl_counters := dict_set k (c\<lparr>wc_count := wc_count c + cost\<rparr>) (rl_counters rl)\<rparr>))"

definition prune_window :: "real \<Rightarrow> rl_config \<Rightarrow> real list \<Rightarrow> real list" where
  "prune_window now cfg ts = dropWhile (\<lambda>t. t < now - of_int (rc_window cfg)) ts"

definition is_allowed_sliding_window ::
    "real \<Rightarrow> string \<Rightarrow> int \<Rightarrow> rl_config \<Rightarrow> rate_limiter \<Rightarrow> limit_result \<times> rate_limiter" where
  "is_allowed_sliding_window now k cost cfg rl =
     (let ts = prune_window now cfg (case map_of (rl_windows rl) k of Some ts \<Rightarrow> ts | None \<Rightarrow> [])
      in if int (length ts) + cost > rc_limit cfg
         then (DENIED, rl\<lparr>rl_windows := dict_set k ts (rl_windows rl)\<rparr>)
         else (ALLOWED, rl\<lparr>rl_windows := dict_set k (ts @ replicate (nat cost) now) (rl_windows rl)\<rparr>))"

definition new_bucket :: "real \<Rightarrow> rl_config \<Rightarrow> token_bucket" where
  "new_bucket now cfg = \<lparr>tb_capacity = rc_limit cfg, tb_tokens = of_int (rc_limit cfg),
     tb_refill_rate = (if rc_window cfg > 0 then of_int (rc_limit cfg) / of_int (rc_window cfg) else 0),
     tb_last_refill = now\<rparr>"

definition refill :: "real \<Rightarrow> token_bucket \<Rightarrow> token_bucket" where
  "refill now b =
     (if now - tb_last_refill b > 0 \<and> tb_refill_rate b > 0
      then b\<lparr>tb_tokens := min (of_int (tb_capacity b)) (tb_tokens b + (now - tb_last_refill b) * tb_refill_rate b),
             tb_last_refill := now\<rparr>
      else b)"

definition the_bucket :: "real \<Rightarrow> string \<Rightarrow> rl_config \<Rightarrow> rate_limiter \<Rightarrow> token_bucket" where
  "the_bucket now k cfg rl = (case map_of (rl_buckets rl) k of Some b \<Rightarrow> b | None \<Rightarrow> new_bucket now cfg)"

definition is_allowed_token_bucket ::
    "real \<Rightarrow> string \<Rightarrow> int \<Rightarrow> rl_config \<Rightarrow> rate_limiter \<Rightarrow> limit_result \<times> rate_limiter" where
  "is_allowed_token_bucket now k cost cfg rl =
     (let b = refill now (the_bucket now k cfg rl)
      in if tb_tokens b < of_int cost
         then (DENIED, rl\<lparr>rl_buckets := dict_set k b (rl_buckets rl)\<rparr>)
         else (ALLOWED, rl\<lparr>rl_buckets := dict_set k (b\<lparr>tb_tokens := tb_tokens b - of_int cost\<rparr>) (rl_buckets rl)\<rparr>))"

definition is_allowed :: "real \<Rightarrow> string \<Rightarrow> int \<Rightarrow> rate_limiter \<Rightarrow> limit_result \<times> rate_limiter" where
  "is_allowed now k cost rl =
     (let cfg = rl_get_config k rl
      in if rc_algorithm cfg = ''fixed_window'' then is_allowed_fixed_window now k cost cfg rl
         else if rc_algorithm cfg = ''sliding_window'' then is_allowed_sliding_window now k cost cfg rl
         else if rc_algorithm cfg = ''token_bucket'' then is_allowed_token_bucket now k cost cfg rl
         else is_allowed_fixed_window now k cost cfg rl)"

record rl_status =
  rs_allowed :: bool
  rs_remaining :: int
  rs_reset_time :: real
  rs_retry_after :: "real option"
  rs_config :: rl_config

definition get_status_fixed_window :: "real \<Rightarrow> string \<Rightarrow> rl_config \<Rightarrow> rate_limiter \<Rightarrow> rl_status" where
  "get_status_fixed_window now k cfg rl =
     (case map_of (rl_counters rl) k of
        None \<Rightarrow> \<lparr>rs_allowed = True, rs_remaining = rc_limit cfg, rs_reset_time = now + of_int (rc_window cfg),
                 rs_retry_after = None, rs_config = cfg\<rparr>
      | Some c \<Rightarrow>
        (let remaining_window = max 0 (of_int (rc_window cfg) - (now - wc_start c))
         in \<lparr>rs_allowed = (wc_count c < rc_limit cfg), rs_remaining = max 0 (rc_limit cfg - wc_count c),
             rs_reset_time = now + remaining_window,
             rs_retry_after = (if wc_count c \<ge> rc_limit cfg then Some remaining_window else None), rs_config = cfg\<rparr>))"

definition get_status_sliding_window ::
    "real \<Rightarrow> string \<Rightarrow> rl_config \<Rightarrow> rate_limiter \<Rightarrow> rl_status \<times> rate_limiter" where
  "get_status_sliding_window now k cfg rl =
     (let ts = prune_window now cfg (case map_of (rl_windows rl) k of Some ts \<Rightarrow> ts | None \<Rightarrow> []);
          count = int (length ts); w = of_int (rc_window cfg)
      in (\<lparr>rs_allowed = (count < rc_limit cfg), rs_remaining = max 0 (rc_limit cfg - count),
           rs_reset_time = (case ts of [] \<Rightarrow> now + w | oldest # _ \<Rightarrow> oldest + w),
           rs_retry_after = (case ts of [] \<Rightarrow> None
             | oldest # _ \<Rightarrow> if count \<ge> rc_limit cfg then Some (max 0 (oldest + w - now)) else None),
           rs_config = cfg\<rparr>,
          if map_of (rl_windows rl) k = None then rl else rl\<lparr>rl_windows := dict_set k ts (rl_windows rl)\<rparr>))"

text \<open>\<open>int(x)\<close> rounds towards zero.\<close>

definition trunc :: "real \<Rightarrow> int" where
  "trunc x = (if x \<ge> 0 then \<lfloor>x\<rfloor> else \<lceil>x\<rceil>)"

definition get_status_token_bucket ::
    "real \<Rightarrow> string \<Rightarrow> rl_config \<Rightarrow> rate_limiter \<Rightarrow> rl_status \<times> rate_limiter" where
  "get_status_token_bucket now k cfg rl =
     (let b = refill now (the_bucket now k cfg rl)
      in (\<lparr>rs_allowed = (tb_tokens b \<ge> 1), rs_remaining = trunc (tb_tokens b),
           rs_reset_time = now + of_int (rc_window cfg),
           rs_retry_after = (if tb_tokens b < 1 \<and> tb_refill_rate b > 0
                             then Some ((1 - tb_tokens b) / tb_refill_rate b) else None),
           rs_config = cfg\<rparr>,
          rl\<lparr>rl_buckets := dict_set k b (rl_buckets rl)\<rparr>))"

definition rl_get_status :: "real \<Rightarrow> string \<Rightarrow> rate_limiter \<Rightarrow> rl_status \<times> rate_limiter" where
  "rl_get_status now k rl =
     (let cfg = rl_get_config k rl
      in if rc_algorithm cfg = ''fixed_window'' then (get_status_fixed_window now k cfg rl, rl)
         else if rc_algorithm cfg = ''sliding_window'' then get_status_sliding_window now k cfg rl
         else if rc_algorithm cfg = ''token_bucket'' then get_status_token_bucket now k cfg rl
         else (get_status_fixed_window now k cfg rl, rl))"

definition rl_reset :: "string \<Rightarrow> rate_limiter \<Rightarrow> rate_limiter" where
  "rl_reset k rl = rl\<lparr>rl_counters := dict_del k (rl_counters rl), rl_windows := dict_del k (rl_windows rl),
     rl_buckets := dict_del k (rl_buckets rl)\<rparr>"

definition get_retry_after :: "real \<Rightarrow> string \<Rightarrow> rate_limiter \<Rightarrow> real" where
  "get_retry_after now k rl =
     (let cfg = rl_get_config k rl; w = of_int (rc_window cfg)
      in if rc_algorithm cfg = ''fixed_window'' then
           (case map_of (rl_counters rl) k of
              Some c \<Rightarrow> if wc_count c \<ge> rc_limit cfg then max 0 (w - (now - wc_start c)) else 0
            | None \<Rightarrow> 0)
         else if rc_algorithm cfg = ''sliding_window'' then
           (case map_of (rl_windows rl) k of
              Some (oldest # ts) \<Rightarrow>
                if int (length (oldest # ts)) \<ge> rc_limit cfg then max 0 (w - (now - oldest)) else 0
            | _ \<Rightarrow> 0)
         else if rc_algorithm cfg = ''token_bucket'' then
           (case map_of (rl_buckets rl) k of
              Some b \<Rightarrow> if tb_tokens b < 1
                        then (if tb_refill_rate b > 0 then (1 - tb_tokens b) / tb_refill_rate b else 0) else 0
            | None \<Rightarrow> 0)
         else 0)"

definition rl_update_config :: "string \<Rightarrow> rl_config \<Rightarrow> rate_limiter \<Rightarrow> rate_limiter" where
  "rl_update_config k cfg rl = rl\<lparr>rl_custom := dict_set k cfg (rl_custom rl)\<rparr>"

text \<open>\<open>health_check\<close>: tracked keys, then the size of each table.\<close>

definition rl_health_check :: "rate_limiter \<Rightarrow> int \<times> int \<times> int \<times> int \<times> int" where
  "rl_health_check rl =
     (int (length (rl_counters rl) + length (rl_windows rl) + length (rl_buckets rl)),
      int (length (rl_counters rl)), int (length (rl_windows rl)), int (length (rl_buckets rl)),
      int (length (rl_custom rl)))"

text \<open>The decorated function.\<close>

definition rate_limited ::
    "real \<Rightarrow> string option \<Rightarrow> int \<Rightarrow> ('w \<Rightarrow> (exn + 'a) \<times> 'w) \<Rightarrow> rate_limiter \<times> 'w \<Rightarrow> (exn + 'a) \<times> rate_limiter \<times> 'w" where
  "rate_limited now key cost f = (\<lambda>(rl, w).
     let k = (case key of Some k \<Rightarrow> k | None \<Rightarrow> ''global'')
     in case is_allowed now k cost rl of
          (r, rl') \<Rightarrow>
            if r = DENIED then (Inl (Exn (OtherExn ''Exception'') (''Rate limit exceeded for key: '' @ k)), rl', w)
            else (case f w of (x, w') \<Rightarrow> (x, rl', w')))"

subsection \<open>Runs\<close>

text \<open>
  A sequence of requests (time, cost) for one key: the service after it, and the admitted requests.
\<close>

fun rl_run :: "string \<Rightarrow> (real \<times> int) list \<Rightarrow> rate_limiter \<Rightarrow> rate_limiter \<times> (real \<times> int) list" where
  "rl_run k [] rl = (rl, [])"
| "rl_run k ((t, c) # rs) rl =
     (case is_allowed t k c rl of
        (r, rl') \<Rightarrow> (case rl_run k rs rl' of
          (rl'', adm) \<Rightarrow> (rl'', if r = ALLOWED then (t, c) # adm else adm)))"

text \<open>The cost admitted between two instants, both included, and the cost admitted in all.\<close>

definition cost_in :: "real \<Rightarrow> real \<Rightarrow> (real \<times> int) list \<Rightarrow> int" where
  "cost_in a b adm = sum_list (map snd (filter (\<lambda>(t, c). a \<le> t \<and> t \<le> b) adm))"

definition cost_of :: "(real \<times> int) list \<Rightarrow> int" where
  "cost_of adm = sum_list (map snd adm)"

section \<open>The sliding window\<close>

lemma rl_get_config_update [simp]:
  "rl_get_config k (rl\<lparr>rl_windows := x\<rparr>) = rl_get_config k rl"
  "rl_get_config k (rl\<lparr>rl_buckets := y\<rparr>) = rl_get_config k rl"
  "rl_get_config k (rl\<lparr>rl_counters := z\<rparr>) = rl_get_config k rl"
  by (simp_all add: rl_get_config_def split: option.split)

text \<open>The admitted requests as a list of time stamps, one per unit of cost, and those a window sees.\<close>

definition expand :: "(real \<times> int) list \<Rightarrow> real list" where
  "expand adm = concat (map (\<lambda>(t, c). replicate (nat c) t) adm)"

definition seen :: "real \<Rightarrow> real \<Rightarrow> real list \<Rightarrow> int" where
  "seen w T ts = int (length (filter (\<lambda>x. T - w \<le> x \<and> x \<le> T) ts))"

lemma seen_append [simp]: "seen w T (xs @ ys) = seen w T xs + seen w T ys"
  by (simp add: seen_def)

lemma seen_le_length: "seen w T xs \<le> int (length xs)"
  by (simp add: seen_def)

lemma seen_late: "(\<And>x. x \<in> set xs \<Longrightarrow> x > T) \<Longrightarrow> seen w T xs = 0"
  by (fastforce simp: seen_def filter_empty_conv)

lemma seen_early: "(\<And>x. x \<in> set xs \<Longrightarrow> x < T - w) \<Longrightarrow> seen w T xs = 0"
  by (fastforce simp: seen_def filter_empty_conv)

lemma expand_Cons: "expand ((t, c) # adm) = replicate (nat c) t @ expand adm"
  by (simp add: expand_def)

lemma seen_replicate: "seen w T (replicate n t) = (if T - w \<le> t \<and> t \<le> T then int n else 0)"
  by (simp add: seen_def filter_replicate)

lemma seen_expand: "list_all (\<lambda>(t, c). c \<ge> 0) adm \<Longrightarrow> seen w T (expand adm) = cost_in (T - w) T adm"
proof (induction adm)
  case Nil
  then show ?case by (simp add: expand_def seen_def cost_in_def)
next
  case (Cons p adm)
  then show ?case by (cases p) (auto simp: expand_Cons seen_replicate cost_in_def)
qed

definition window_of :: "string \<Rightarrow> rate_limiter \<Rightarrow> real list" where
  "window_of k rl = (case map_of (rl_windows rl) k of Some ts \<Rightarrow> ts | None \<Rightarrow> [])"

lemma prune_split: "\<exists>old. ts = old @ prune_window now cfg ts \<and> (\<forall>x \<in> set old. x < now - of_int (rc_window cfg))"
  unfolding prune_window_def by (metis set_takeWhileD takeWhile_dropWhile_id)

text \<open>
  The invariant of a run: the stamps admitted so far are those dropped, all outside the window of the
  last request, followed by those kept; and no window of the past exceeds the limit.
\<close>

definition sliding_inv :: "rl_config \<Rightarrow> string \<Rightarrow> real \<Rightarrow> real list \<Rightarrow> rate_limiter \<Rightarrow> bool" where
  "sliding_inv cfg k t0 E rl \<longleftrightarrow> rl_get_config k rl = cfg
     \<and> (\<exists>old. E = old @ window_of k rl \<and> (\<forall>x \<in> set old. x < t0 - of_int (rc_window cfg)))
     \<and> (\<forall>T. seen (of_int (rc_window cfg)) T E \<le> rc_limit cfg)"

lemma sliding_step:
  assumes inv: "sliding_inv cfg k t0 E rl" and alg: "rc_algorithm cfg = ''sliding_window''"
    and t: "t0 \<le> t" and c: "0 \<le> c" and r: "is_allowed t k c rl = (r, rl')"
  shows "sliding_inv cfg k t (E @ (if r = ALLOWED then replicate (nat c) t else [])) rl'"
proof -
  let ?w = "of_int (rc_window cfg)" let ?ts = "prune_window t cfg (window_of k rl)"
  from inv obtain old where old: "E = old @ window_of k rl" "\<forall>x \<in> set old. x < t0 - ?w"
    and cfg: "rl_get_config k rl = cfg" and past: "\<And>T. seen ?w T E \<le> rc_limit cfg"
    by (auto simp: sliding_inv_def)
  obtain drp where drp: "window_of k rl = drp @ ?ts" "\<forall>x \<in> set drp. x < t - ?w" using prune_split by metis
  have E: "E = (old @ drp) @ ?ts" using old(1) drp(1) by simp
  have dropped: "\<forall>x \<in> set (old @ drp). x < t - ?w" using old(2) drp(2) t by force
  have allowed: "is_allowed t k c rl = is_allowed_sliding_window t k c cfg rl"
    using cfg alg by (simp add: is_allowed_def Let_def)
  have cfg': "rl_get_config k rl' = cfg"
    using r cfg unfolding allowed by (auto simp: is_allowed_sliding_window_def Let_def split: if_splits)
  show ?thesis
  proof (cases "int (length ?ts) + c > rc_limit cfg")
    case True
    then have "r = DENIED" "window_of k rl' = ?ts"
      using r unfolding allowed by (auto simp: is_allowed_sliding_window_def window_of_def Let_def)
    with E dropped past cfg' show ?thesis unfolding sliding_inv_def by auto
  next
    case False
    then have res: "r = ALLOWED" "window_of k rl' = ?ts @ replicate (nat c) t"
      using r unfolding allowed by (auto simp: is_allowed_sliding_window_def window_of_def Let_def)
    have "seen ?w T (E @ replicate (nat c) t) \<le> rc_limit cfg" for T
    proof (cases "T < t")
      case True
      then show ?thesis using past [of T] seen_late [of "replicate (nat c) t" T ?w] by simp
    next
      case False
      have "seen ?w T (old @ drp) = 0"
      proof (rule seen_early)
        fix x assume "x \<in> set (old @ drp)"
        with dropped have "x < t - ?w" by blast
        with \<open>\<not> T < t\<close> show "x < T - ?w" by linarith
      qed
      then have "seen ?w T (E @ replicate (nat c) t) = seen ?w T (?ts @ replicate (nat c) t)"
        by (subst E) (simp only: append_assoc seen_append)
      also have "\<dots> \<le> int (length (?ts @ replicate (nat c) t))" by (rule seen_le_length)
      also have "\<dots> \<le> rc_limit cfg" using \<open>\<not> int (length ?ts) + c > rc_limit cfg\<close> c by simp
      finally show ?thesis .
    qed
    with res E dropped cfg' show ?thesis unfolding sliding_inv_def by auto
  qed
qed

lemma sliding_run:
  assumes "sliding_inv cfg k t0 E rl" and "rc_algorithm cfg = ''sliding_window''"
    and "sorted (t0 # map fst reqs)" and "list_all (\<lambda>(t, c). c \<ge> 0) reqs"
  shows "\<exists>t1. sliding_inv cfg k t1 (E @ expand (snd (rl_run k reqs rl))) (fst (rl_run k reqs rl))"
  using assms
proof (induction reqs arbitrary: t0 E rl)
  case Nil
  then show ?case by (auto simp: expand_def)
next
  case (Cons p reqs)
  obtain t c where p: "p = (t, c)" by (cases p)
  obtain r rl' where r: "is_allowed t k c rl = (r, rl')" by (cases "is_allowed t k c rl")
  have step: "sliding_inv cfg k t (E @ (if r = ALLOWED then replicate (nat c) t else [])) rl'"
    using sliding_step [OF Cons.prems(1,2) _ _ r] Cons.prems(3,4) p by simp
  have "sorted (t # map fst reqs)" "list_all (\<lambda>(t, c). c \<ge> 0) reqs" using Cons.prems(3,4) p by simp_all
  from Cons.IH [OF step Cons.prems(2) this] p r show ?case
    by (auto simp: expand_Cons split: prod.splits if_splits)
qed

lemma rl_run_costs: "list_all (\<lambda>(t, c). c \<ge> 0) reqs \<Longrightarrow> list_all (\<lambda>(t, c). c \<ge> 0) (snd (rl_run k reqs rl))"
  by (induction k reqs rl rule: rl_run.induct) (auto split: prod.splits)

section \<open>The token bucket\<close>

definition bucket_ok :: "token_bucket \<Rightarrow> bool" where
  "bucket_ok b \<longleftrightarrow> 0 \<le> tb_tokens b \<and> tb_tokens b \<le> of_int (tb_capacity b) \<and> 0 \<le> tb_refill_rate b"

lemma refill_ok: "bucket_ok b \<Longrightarrow> bucket_ok (refill now b)"
  by (auto simp: bucket_ok_def refill_def)

lemma refill_sel [simp]:
  "tb_capacity (refill now b) = tb_capacity b" "tb_refill_rate (refill now b) = tb_refill_rate b"
  by (simp_all add: refill_def)

lemma refill_gain:
  assumes "bucket_ok b" and "tb_last_refill b \<le> now"
  shows "tb_tokens (refill now b) \<le> tb_tokens b + tb_refill_rate b * (tb_last_refill (refill now b) - tb_last_refill b)"
    and "tb_last_refill (refill now b) \<le> now" and "tb_last_refill b \<le> tb_last_refill (refill now b)"
  using assms by (auto simp: refill_def bucket_ok_def algebra_simps)

text \<open>
  One request: what it admits and what is left in the bucket come from what was there and the refill.
\<close>

lemma bucket_step:
  assumes b: "map_of (rl_buckets rl) k = Some b" and ok: "bucket_ok b" and last: "tb_last_refill b \<le> t" and c: "0 \<le> c"
    and alg: "rc_algorithm (rl_get_config k rl) = ''token_bucket''" and r: "is_allowed t k c rl = (r, rl')"
  shows "\<exists>b'. map_of (rl_buckets rl') k = Some b' \<and> bucket_ok b' \<and> tb_last_refill b' \<le> t
    \<and> tb_capacity b' = tb_capacity b \<and> tb_refill_rate b' = tb_refill_rate b
    \<and> tb_last_refill b \<le> tb_last_refill b'
    \<and> tb_tokens b' + (if r = ALLOWED then of_int c else 0) \<le>
        tb_tokens b + tb_refill_rate b * (tb_last_refill b' - tb_last_refill b)
    \<and> rl_get_config k rl' = rl_get_config k rl"
proof -
  let ?b = "refill t b"
  have allowed: "is_allowed t k c rl = (if tb_tokens ?b < of_int c
      then (DENIED, rl\<lparr>rl_buckets := dict_set k ?b (rl_buckets rl)\<rparr>)
      else (ALLOWED, rl\<lparr>rl_buckets := dict_set k (?b\<lparr>tb_tokens := tb_tokens ?b - of_int c\<rparr>) (rl_buckets rl)\<rparr>))"
    using b alg by (simp add: is_allowed_def is_allowed_token_bucket_def the_bucket_def Let_def)
  note gain = refill_gain [OF ok last] and rok = refill_ok [OF ok, of t]
  show ?thesis
  proof (cases "tb_tokens ?b < of_int c")
    case True
    with allowed r gain rok show ?thesis by auto
  next
    case False
    let ?b' = "?b\<lparr>tb_tokens := tb_tokens ?b - of_int c\<rparr>"
    have "bucket_ok ?b'" using False rok c by (simp add: bucket_ok_def)
    moreover have "r = ALLOWED" "map_of (rl_buckets rl') k = Some ?b'" "rl_get_config k rl' = rl_get_config k rl"
      using False allowed r by auto
    ultimately show ?thesis using gain by auto
  qed
qed

lemma bucket_run:
  assumes "map_of (rl_buckets rl) k = Some b" and "bucket_ok b"
    and "rc_algorithm (rl_get_config k rl) = ''token_bucket''"
    and "sorted (tb_last_refill b # map fst reqs)" and "list_all (\<lambda>(t, c). c \<ge> 0) reqs"
    and "\<And>t. t \<in> set (map fst reqs) \<Longrightarrow> t \<le> T" and "tb_last_refill b \<le> T"
  shows "of_int (cost_of (snd (rl_run k reqs rl))) \<le> tb_tokens b + tb_refill_rate b * (T - tb_last_refill b)"
  using assms
proof (induction reqs arbitrary: rl b)
  case Nil
  then show ?case by (simp add: cost_of_def bucket_ok_def)
next
  case (Cons p reqs)
  obtain t c where p: "p = (t, c)" by (cases p)
  obtain r rl' where r: "is_allowed t k c rl = (r, rl')" by (cases "is_allowed t k c rl")
  have "tb_last_refill b \<le> t" "0 \<le> c" using Cons.prems(4,5) p by simp_all
  from bucket_step [OF Cons.prems(1,2) this Cons.prems(3) r] obtain b' where b':
      "map_of (rl_buckets rl') k = Some b'" "bucket_ok b'" "tb_last_refill b' \<le> t"
      "tb_refill_rate b' = tb_refill_rate b"
      "tb_tokens b' + (if r = ALLOWED then of_int c else 0) \<le>
        tb_tokens b + tb_refill_rate b * (tb_last_refill b' - tb_last_refill b)"
      "rl_get_config k rl' = rl_get_config k rl" by blast
  have times: "sorted (tb_last_refill b' # map fst reqs)" "\<And>s. s \<in> set (map fst reqs) \<Longrightarrow> s \<le> T" "tb_last_refill b' \<le> T"
    using Cons.prems(4,6) p b'(3) by fastforce+
  have "of_int (cost_of (snd (rl_run k reqs rl'))) \<le> tb_tokens b' + tb_refill_rate b' * (T - tb_last_refill b')"
    using Cons.IH [OF b'(1,2) _ times(1) _ times(2,3)] Cons.prems(3,5) b'(6) by simp
  moreover have "cost_of (snd (rl_run k (p # reqs) rl)) = (if r = ALLOWED then c else 0) + cost_of (snd (rl_run k reqs rl'))"
    using p r by (simp add: cost_of_def split: prod.split)
  ultimately show ?case using b'(4,5) by (auto simp: algebra_simps split: if_splits)
qed

section \<open>Properties\<close>

text \<open>
  C36: The sliding window keeps its promise for every window: for requests in the order of their times,
  with non-negative costs, the cost admitted for a key within any closed interval of the window's
  length, wherever it lies, is at most the limit.
\<close>

theorem sliding_window_limit:
  assumes "rc_algorithm cfg = ''sliding_window''" and "0 \<le> rc_limit cfg"
    and "sorted (map fst reqs)" and "list_all (\<lambda>(t, c). c \<ge> 0) reqs"
  shows "cost_in (T - of_int (rc_window cfg)) T (snd (rl_run k reqs (new_rate_limiter (Some cfg)))) \<le> rc_limit cfg"
proof -
  let ?rl = "new_rate_limiter (Some cfg)"
  have "\<exists>t0. sorted (t0 # map fst reqs)" using assms(3) by (cases "map fst reqs") auto
  then obtain t0 where t0: "sorted (t0 # map fst reqs)" ..
  have "sliding_inv cfg k t0 [] ?rl"
    using assms(2) by (simp add: sliding_inv_def new_rate_limiter_def rl_get_config_def window_of_def seen_def)
  from sliding_run [OF this assms(1) t0 assms(4)] obtain t1 where
    "sliding_inv cfg k t1 (expand (snd (rl_run k reqs ?rl))) (fst (rl_run k reqs ?rl))" by auto
  then have "seen (of_int (rc_window cfg)) T (expand (snd (rl_run k reqs ?rl))) \<le> rc_limit cfg"
    by (simp add: sliding_inv_def)
  then show ?thesis using seen_expand [OF rl_run_costs [OF assms(4)]] by simp
qed

definition sample_limit :: "string \<Rightarrow> rl_config" where
  "sample_limit alg = \<lparr>rc_limit = 2, rc_window = 10, rc_algorithm = alg, rc_burst_limit = None\<rparr>"

theorem sliding_window_limit_witness:
  "cost_in 5 15 (snd (rl_run ''k'' [(0, 1), (5, 1), (8, 1), (12, 1), (15, 1)]
     (new_rate_limiter (Some (sample_limit ''sliding_window''))))) \<le> 2"
  using sliding_window_limit [of "sample_limit ''sliding_window''" "[(0, 1), (5, 1), (8, 1), (12, 1), (15, 1)]" 15 "''k''"]
  by (simp add: sample_limit_def)

text \<open>
  The token bucket admits at most its capacity plus the refill: for requests in the order of their
  times, with non-negative costs, on a bucket in any reachable state, the cost admitted up to a time
  \<open>T\<close> is at most the capacity plus the refill rate times the time since the last refill.
\<close>

lemma token_bucket_limit:
  assumes "map_of (rl_buckets rl) k = Some b" and "bucket_ok b"
    and "rc_algorithm (rl_get_config k rl) = ''token_bucket''"
    and "sorted (tb_last_refill b # map fst reqs)" and "list_all (\<lambda>(t, c). c \<ge> 0) reqs"
    and "\<And>t. t \<in> set (map fst reqs) \<Longrightarrow> t \<le> T" and "tb_last_refill b \<le> T"
  shows "of_int (cost_of (snd (rl_run k reqs rl))) \<le>
    of_int (tb_capacity b) + tb_refill_rate b * (T - tb_last_refill b)"
  using bucket_run [OF assms] assms(2) by (simp add: bucket_ok_def)

end
