(* ===== verification/Exn_Monad.thy ===== *)
theory Exn_Monad
  imports Prelude
begin

text \<open>
  Code that changes a state and may raise: a function from the state to an exception or a value, with
  the new state. The combinators are sequencing, assignment and \<open>try ... except\<close>; three ways to speak
  of such code are what it leaves alone, which exceptions it does not raise, and what holds after it.
\<close>

named_theorems keeps_intros \<open>code that leaves a view of the service alone\<close>
named_theorems raises_intros \<open>code that raises no exception of given classes\<close>

section \<open>Definitions\<close>

definition x_ret :: "'a \<Rightarrow> 's \<Rightarrow> (exn + 'a) \<times> 's" where
  "x_ret a s = (Inr a, s)"

definition x_bind :: "('s \<Rightarrow> (exn + 'a) \<times> 's) \<Rightarrow> ('a \<Rightarrow> 's \<Rightarrow> (exn + 'b) \<times> 's) \<Rightarrow> 's \<Rightarrow> (exn + 'b) \<times> 's" where
  "x_bind m f s = (case m s of (Inl e, s') \<Rightarrow> (Inl e, s') | (Inr a, s') \<Rightarrow> f a s')"

definition x_upd :: "('s \<Rightarrow> 's) \<Rightarrow> 's \<Rightarrow> (exn + unit) \<times> 's" where
  "x_upd f s = (Inr (), f s)"

text \<open>\<open>try: m except cs as e: h\<close>\<close>

definition x_try :: "('s \<Rightarrow> (exn + 'a) \<times> 's) \<Rightarrow> exn_class list \<Rightarrow> (exn \<Rightarrow> 's \<Rightarrow> (exn + 'a) \<times> 's) \<Rightarrow> 's \<Rightarrow> (exn + 'a) \<times> 's" where
  "x_try m cs h s = (case m s of (Inr a, s') \<Rightarrow> (Inr a, s') | (Inl e, s') \<Rightarrow> if caught cs e then h e s' else (Inl e, s'))"

text \<open>A pure computation that may raise.\<close>

definition x_lift :: "exn + 'a \<Rightarrow> 's \<Rightarrow> (exn + 'a) \<times> 's" where
  "x_lift r s = (r, s)"

section \<open>Lemmas\<close>

subsection \<open>Frames and exceptions\<close>

text \<open>\<open>x_keeps view m\<close>: running \<open>m\<close> leaves the view alone. \<open>x_avoids cs m\<close>: \<open>m\<close> raises no exception
  that a handler for \<open>cs\<close> would catch.\<close>

definition x_keeps :: "('s \<Rightarrow> 'v) \<Rightarrow> ('s \<Rightarrow> (exn + 'a) \<times> 's) \<Rightarrow> bool" where
  "x_keeps view m \<longleftrightarrow> (\<forall>s. view (snd (m s)) = view s)"

definition x_avoids :: "exn_class list \<Rightarrow> ('s \<Rightarrow> (exn + 'a) \<times> 's) \<Rightarrow> bool" where
  "x_avoids cs m \<longleftrightarrow> (\<forall>s e. fst (m s) = Inl e \<longrightarrow> \<not> caught cs e)"

lemma keepsD: "x_keeps view m \<Longrightarrow> m s = (r, s') \<Longrightarrow> view s' = view s"
  by (metis x_keeps_def snd_conv)

lemma avoidsD: "x_avoids cs m \<Longrightarrow> m s = (Inl e, s') \<Longrightarrow> \<not> caught cs e"
  by (metis x_avoids_def fst_conv)

lemma keeps_ret [keeps_intros]: "x_keeps view (x_ret a)"
  by (simp add: x_keeps_def x_ret_def)

lemma keeps_upd [keeps_intros]: "(\<And>s. view (f s) = view s) \<Longrightarrow> x_keeps view (x_upd f)"
  by (simp add: x_keeps_def x_upd_def)

lemma keeps_bind [keeps_intros]: "x_keeps view m \<Longrightarrow> (\<And>a. x_keeps view (f a)) \<Longrightarrow> x_keeps view (x_bind m f)"
  unfolding x_keeps_def x_bind_def by (auto split: prod.split sum.split) (metis snd_conv)+

lemma keeps_try [keeps_intros]: "x_keeps view m \<Longrightarrow> (\<And>e. x_keeps view (h e)) \<Longrightarrow> x_keeps view (x_try m cs h)"
  unfolding x_keeps_def x_try_def by (auto split: prod.split sum.split) (metis snd_conv)+

lemma keeps_if [keeps_intros]: "x_keeps view m \<Longrightarrow> x_keeps view n \<Longrightarrow> x_keeps view (if b then m else n)"
  by simp

lemma keeps_if_state [keeps_intros]:
  "x_keeps view m \<Longrightarrow> x_keeps view n \<Longrightarrow> x_keeps view (\<lambda>s. if b s then m s else n s)"
  by (simp add: x_keeps_def)

lemma avoids_ret [raises_intros]: "x_avoids cs (x_ret a)"
  by (simp add: x_avoids_def x_ret_def)

lemma avoids_upd [raises_intros]: "x_avoids cs (x_upd f)"
  by (simp add: x_avoids_def x_upd_def)

lemma avoids_bind [raises_intros]: "x_avoids cs m \<Longrightarrow> (\<And>a. x_avoids cs (f a)) \<Longrightarrow> x_avoids cs (x_bind m f)"
  unfolding x_avoids_def x_bind_def by (auto split: prod.splits sum.splits) (metis fst_conv)+

lemma avoids_if [raises_intros]: "x_avoids cs m \<Longrightarrow> x_avoids cs n \<Longrightarrow> x_avoids cs (if b then m else n)"
  by simp

lemma avoids_if_state [raises_intros]:
  "x_avoids cs m \<Longrightarrow> x_avoids cs n \<Longrightarrow> x_avoids cs (\<lambda>s. if b s then m s else n s)"
  by (simp add: x_avoids_def)

text \<open>What escapes a handler for \<open>ds\<close> is not caught by one for \<open>cs\<close> that \<open>ds\<close> covers.\<close>

lemma avoids_try_covered:
  "(\<And>e. caught cs e \<Longrightarrow> caught ds e) \<Longrightarrow> (\<And>e. x_avoids cs (h e)) \<Longrightarrow> x_avoids cs (x_try m ds h)"
  unfolding x_avoids_def x_try_def by (auto split: prod.splits sum.splits if_splits)

lemma try_avoids: "x_avoids cs m \<Longrightarrow> x_try m cs h = m"
  unfolding x_avoids_def x_try_def by (rule ext) (auto split: prod.split sum.split, metis fst_conv)

text \<open>\<open>x_post P m Q\<close>: from a state with \<open>P\<close> every outcome of \<open>m\<close>, also an exception, leaves \<open>Q\<close>.\<close>

definition x_post :: "('s \<Rightarrow> bool) \<Rightarrow> ('s \<Rightarrow> (exn + 'a) \<times> 's) \<Rightarrow> ('s \<Rightarrow> bool) \<Rightarrow> bool" where
  "x_post P m Q \<longleftrightarrow> (\<forall>s. P s \<longrightarrow> Q (snd (m s)))"

lemma post_bind: "x_post P m Q \<Longrightarrow> (\<And>a. x_post Q (f a) R) \<Longrightarrow> (\<And>s. Q s \<Longrightarrow> R s) \<Longrightarrow> x_post P (x_bind m f) R"
  unfolding x_post_def x_bind_def by (auto split: prod.split sum.split)

subsection \<open>Outcomes\<close>

lemma bind_Inr: "x_bind m f s = (Inr b, s'') \<longleftrightarrow> (\<exists>a s'. m s = (Inr a, s') \<and> f a s' = (Inr b, s''))"
  by (auto simp: x_bind_def split: prod.splits sum.splits)

lemma ret_eq [simp]: "x_ret a s = (r, s') \<longleftrightarrow> r = Inr a \<and> s' = s"
  by (auto simp: x_ret_def)

lemma lift_eq [simp]: "x_lift x s = (r, s') \<longleftrightarrow> r = x \<and> s' = s"
  by (auto simp: x_lift_def)

lemma keeps_lift [keeps_intros]: "x_keeps view (x_lift r)"
  by (simp add: x_keeps_def x_lift_def)

lemma bind_lift [simp]: "x_bind (x_lift (Inr a)) f s = f a s" "x_bind (x_lift (Inl e)) f s = (Inl e, s)"
  by (simp_all add: x_bind_def x_lift_def)

lemma bind_step: "m s = (Inr a, s') \<Longrightarrow> x_bind m f s = f a s'"
  by (simp add: x_bind_def)

end
