(* ===== verification/Idempotency.thy ===== *)
theory Idempotency
  imports Prelude "HOL-Library.Char_ord" "HOL-Library.List_Lexorder"
begin

text \<open>
  Duplicate prevention by request keys: \<open>core/execution/idempotency/manager.py\<close> and the engine the
  execution service talks to, \<open>core/services/idempotency_engine.py\<close>, with the data classes of
  \<open>core/ports/execution/execution_port.py\<close> that the key is made of.

  The manager is the record \<open>idem\<close>: the confirmed cache, the keys in flight, its limits and the rows of
  its SQLite table. \<open>up\<close> says whether the database answers; a failure is logged and nothing else. A
  result is stored as JSON text and read back as \<open>rt r\<close>, where \<open>rt\<close> is what \<open>json.loads\<close> makes of
  \<open>json.dumps(r, default=str)\<close>. The hash function, \<open>str\<close> of a float and \<open>isoformat\<close> are parameters of the
  key functions.

  The table compares \<open>isoformat()\<close> strings of IST instants with \<open>datetime('now', '-24 hours')\<close>, a UTC
  string with a space where the other has a \<open>T\<close>: the comparison is decided by the dates, and for equal
  dates the stored string is the greater one.
\<close>

section \<open>Definitions\<close>

subsection \<open>The manager\<close>

record 'r idem_row =
  ik_key :: string
  ik_ts :: stamp
  ik_result :: "'r option"
  ik_status :: string

record 'r idem =
  im_cache :: "(string, real \<times> 'r) dict"
  im_in_flight :: "(string, real) dict"
  im_cache_size :: int
  im_expiry_hours :: int
  im_persist :: bool
  im_table :: "'r idem_row list"

definition day :: "real \<Rightarrow> int" where
  "day t = \<lfloor>t / 86400\<rfloor>"

text \<open>The date of \<open>datetime('now', '-24 hours')\<close>, from an IST instant.\<close>

definition cutoff_day :: "real \<Rightarrow> int" where
  "cutoff_day now = day (now - 19800 - 86400)"

definition sql_recent :: "real \<Rightarrow> 'r idem_row \<Rightarrow> bool" where
  "sql_recent now row \<longleftrightarrow> (case ik_ts row of At t \<Rightarrow> day t \<ge> cutoff_day now | Junk s \<Rightarrow> False)"

definition sql_old :: "real \<Rightarrow> 'r idem_row \<Rightarrow> bool" where
  "sql_old now row \<longleftrightarrow> (case ik_ts row of At t \<Rightarrow> day t < cutoff_day now | Junk s \<Rightarrow> False)"

text \<open>
  The loading loop: the first row whose time stamp or JSON does not parse ends it, and then the old
  rows are not deleted either.
\<close>

definition load_key :: "'r idem_row \<Rightarrow> (string, real \<times> 'r) dict \<Rightarrow> exn option \<times> (string, real \<times> 'r) dict" where
  "load_key row c =
     (case ik_ts row of
        Junk s \<Rightarrow> (Some (Exn ValueError s), c)
      | At t \<Rightarrow> (case ik_result row of
                  None \<Rightarrow> (Some (Exn JSONDecodeError ''result_json''), c)
                | Some r \<Rightarrow> (None, dict_set (ik_key row) (t, r) c)))"

definition load_from_persistence :: "bool \<Rightarrow> real \<Rightarrow> 'r idem \<Rightarrow> 'r idem" where
  "load_from_persistence up now im =
     (if \<not> up then im
      else
        (case for_each load_key (filter (\<lambda>row. ik_status row = ''confirmed'' \<and> sql_recent now row) (im_table im))
                (im_cache im) of
           (Some e, c) \<Rightarrow> im\<lparr>im_cache := c\<rparr>
         | (None, c) \<Rightarrow> im\<lparr>im_cache := c,
             im_table := tbl_delete (\<lambda>row. ik_status row = ''in_flight'' \<and> sql_old now row) (im_table im)\<rparr>))"

definition new_idem :: "bool \<Rightarrow> real \<Rightarrow> int \<Rightarrow> int \<Rightarrow> bool \<Rightarrow> 'r idem_row list \<Rightarrow> 'r idem" where
  "new_idem up now sz hours persist t =
     (let im = \<lparr>im_cache = [], im_in_flight = [], im_cache_size = sz, im_expiry_hours = hours,
                im_persist = persist, im_table = t\<rparr>
      in if persist then load_from_persistence up now im else im)"

definition idem_cleanup :: "real \<Rightarrow> 'r idem \<Rightarrow> 'r idem" where
  "idem_cleanup now im =
     (let expiry_time = now - of_int (im_expiry_hours im) * 3600; stale_time = now - 3600
      in im\<lparr>im_cache := filter (\<lambda>(k, t, r). \<not> t < expiry_time) (im_cache im),
            im_in_flight := filter (\<lambda>(k, t). \<not> t < stale_time) (im_in_flight im)\<rparr>)"

definition idem_is_duplicate :: "real \<Rightarrow> string \<Rightarrow> 'r idem \<Rightarrow> bool \<times> 'r idem" where
  "idem_is_duplicate now k im =
     (let im' = idem_cleanup now im
      in (map_of (im_cache im') k \<noteq> None \<or> map_of (im_in_flight im') k \<noteq> None, im'))"

definition idem_persist :: "bool \<Rightarrow> string \<Rightarrow> real \<Rightarrow> 'r option \<Rightarrow> string \<Rightarrow> 'r idem \<Rightarrow> 'r idem" where
  "idem_persist up k now res status im =
     (if im_persist im \<and> up
      then im\<lparr>im_table := tbl_replace ik_key
                \<lparr>ik_key = k, ik_ts = At now, ik_result = res, ik_status = status\<rparr> (im_table im)\<rparr>
      else im)"

text \<open>The row of a key in flight holds a JSON object that is no result; \<open>None\<close> stands for it.\<close>

definition idem_mark_in_flight :: "bool \<Rightarrow> real \<Rightarrow> string \<Rightarrow> 'r idem \<Rightarrow> 'r idem" where
  "idem_mark_in_flight up now k im =
     idem_persist up k now None ''in_flight'' (im\<lparr>im_in_flight := dict_set k now (im_in_flight im)\<rparr>)"

definition evict_oldest :: "'r idem \<Rightarrow> 'r idem" where
  "evict_oldest im =
     (if int (length (im_cache im)) > im_cache_size im then im\<lparr>im_cache := tl (im_cache im)\<rparr> else im)"

definition idem_confirm_execution :: "('r \<Rightarrow> 'r) \<Rightarrow> bool \<Rightarrow> real \<Rightarrow> string \<Rightarrow> 'r \<Rightarrow> 'r idem \<Rightarrow> 'r idem" where
  "idem_confirm_execution rt up now k r im =
     evict_oldest (idem_persist up k now (Some (rt r)) ''confirmed''
       (im\<lparr>im_in_flight := dict_del k (im_in_flight im), im_cache := dict_set k (now, r) (im_cache im)\<rparr>))"

definition idem_clear_in_flight :: "bool \<Rightarrow> string \<Rightarrow> 'r idem \<Rightarrow> 'r idem" where
  "idem_clear_in_flight up k im =
     (let im1 = im\<lparr>im_in_flight := dict_del k (im_in_flight im)\<rparr>
      in if im_persist im \<and> up
         then im1\<lparr>im_table := tbl_delete (\<lambda>row. ik_key row = k \<and> ik_status row = ''in_flight'') (im_table im1)\<rparr>
         else im1)"

definition idem_get_result :: "real \<Rightarrow> string \<Rightarrow> 'r idem \<Rightarrow> 'r option \<times> 'r idem" where
  "idem_get_result now k im =
     (let im' = idem_cleanup now im in (map_option snd (map_of (im_cache im') k), im'))"

definition idem_store_result :: "('r \<Rightarrow> 'r) \<Rightarrow> bool \<Rightarrow> real \<Rightarrow> string \<Rightarrow> 'r \<Rightarrow> 'r idem \<Rightarrow> 'r idem" where
  "idem_store_result = idem_confirm_execution"

subsection \<open>Requests and keys\<close>

datatype x_order_type = OT_MARKET | OT_LIMIT | OT_STOP_LOSS | OT_STOP_LOSS_MARKET

fun order_type_value :: "x_order_type \<Rightarrow> string" where
  "order_type_value OT_MARKET = ''MARKET''"
| "order_type_value OT_LIMIT = ''LIMIT''"
| "order_type_value OT_STOP_LOSS = ''SL''"
| "order_type_value OT_STOP_LOSS_MARKET = ''SL-M''"

datatype x_status = ST_PENDING | ST_SUBMITTED | ST_PARTIALLY_FILLED | ST_FILLED | ST_CANCELLED | ST_REJECTED | ST_EXPIRED

record x_request =
  xr_symbol :: string
  xr_direction :: string
  xr_strike_price :: real
  xr_lot_size :: int
  xr_order_type :: x_order_type
  xr_price :: "real option"
  xr_stop_loss :: "real option"
  xr_target :: "real option"
  xr_trail_activate :: bool
  xr_trail_percent :: "real option"
  xr_strategy_id :: string
  xr_timestamp :: real
  xr_idempotency_key :: "string option"

record x_result =
  xo_order_id :: string
  xo_status :: x_status
  xo_filled_quantity :: int
  xo_average_price :: real
  xo_commission :: real
  xo_timestamp :: real
  xo_reject_reason :: "string option"
  xo_broker_order_id :: "string option"
  xo_broker_timestamp :: "real option"

datatype x_mode = EM_MANUAL | EM_AUTOMATIC | EM_PAPER

record x_context =
  xc_signal_id :: string
  xc_signal_timestamp :: "real option"
  xc_strategy_name :: string
  xc_execution_mode :: x_mode
  xc_correlation_id :: "string option"

text \<open>\<open>"&".join(f"{k}={v}" for k, v in sorted(items))\<close>\<close>

fun join_amp :: "string list \<Rightarrow> string" where
  "join_amp [] = []"
| "join_amp [s] = s"
| "join_amp (s # t # ss) = s @ ''&'' @ join_amp (t # ss)"

definition key_string :: "(string \<times> string) list \<Rightarrow> string" where
  "key_string items = join_amp (map (\<lambda>(k, v). k @ ''='' @ v) (sort_key fst items))"

text \<open>
  The manager's key, from the attributes the request and the context have (\<open>getattr\<close> with the
  default \<open>""\<close>), and the engine's key; \<open>digest\<close> is the first half of the hexadecimal SHA-256.
\<close>

definition idem_generate_key ::
    "(string \<Rightarrow> string) \<Rightarrow> string option \<Rightarrow> string option \<Rightarrow> string option \<Rightarrow> string option \<Rightarrow> string option \<Rightarrow> string" where
  "idem_generate_key digest symb dir strike qty signal =
     digest (key_string [(''symbol'', str_or symb []), (''direction'', str_or dir []),
       (''strike'', str_or strike []), (''qty'', str_or qty []), (''signal_id'', str_or signal [])])"

definition opt_item :: "string \<Rightarrow> string option \<Rightarrow> (string \<times> string) list" where
  "opt_item k v = (case v of None \<Rightarrow> [] | Some x \<Rightarrow> [(k, x)])"

definition engine_items ::
    "(real \<Rightarrow> string) \<Rightarrow> (real \<Rightarrow> string) \<Rightarrow> x_request \<Rightarrow> x_context \<Rightarrow> (string \<times> string) list" where
  "engine_items sf isof rq ctx =
     [(''symbol'', xr_symbol rq), (''direction'', xr_direction rq), (''strike_price'', sf (xr_strike_price rq)),
      (''lot_size'', show_int (xr_lot_size rq)), (''order_type'', order_type_value (xr_order_type rq))]
     @ opt_item ''price'' (map_option sf (xr_price rq))
     @ opt_item ''stop_loss'' (map_option sf (xr_stop_loss rq))
     @ opt_item ''target'' (map_option sf (xr_target rq))
     @ [(''strategy_id'', xr_strategy_id rq), (''signal_id'', xc_signal_id ctx)]
     @ opt_item ''timestamp'' (map_option isof (xc_signal_timestamp ctx))"

definition engine_generate_key ::
    "(string \<Rightarrow> string) \<Rightarrow> (real \<Rightarrow> string) \<Rightarrow> (real \<Rightarrow> string) \<Rightarrow> x_request \<Rightarrow> x_context \<Rightarrow> string" where
  "engine_generate_key digest sf isof rq ctx = digest (key_string (engine_items sf isof rq ctx))"

subsection \<open>The engine\<close>

text \<open>
  The engine delegates to a manager and keeps a local cache for the case that the manager raises; the
  manager's operations raise none of the exceptions it catches, so the fallback branches are not
  entered. The local cache has its newest entry first.
\<close>

record 'r engine =
  en_manager :: "'r idem"
  en_cache :: "(string, real \<times> 'r) dict"
  en_cache_size :: int
  en_expiry_hours :: int

definition new_engine :: "bool \<Rightarrow> real \<Rightarrow> int \<Rightarrow> int \<Rightarrow> bool \<Rightarrow> 'r idem_row list \<Rightarrow> 'r engine" where
  "new_engine up now sz hours persist t =
     \<lparr>en_manager = new_idem up now sz hours persist t, en_cache = [], en_cache_size = sz, en_expiry_hours = hours\<rparr>"

definition engine_is_duplicate :: "real \<Rightarrow> string \<Rightarrow> 'r engine \<Rightarrow> bool \<times> 'r engine" where
  "engine_is_duplicate now k en =
     (case idem_is_duplicate now k (en_manager en) of (b, m) \<Rightarrow> (b, en\<lparr>en_manager := m\<rparr>))"

definition engine_store_result :: "('r \<Rightarrow> 'r) \<Rightarrow> bool \<Rightarrow> real \<Rightarrow> string \<Rightarrow> 'r \<Rightarrow> 'r engine \<Rightarrow> 'r engine" where
  "engine_store_result rt up now k r en =
     en\<lparr>en_manager := idem_store_result rt up now k r (en_manager en),
        en_cache := take (nat (en_cache_size en)) ((k, (now, r)) # dict_del k (en_cache en))\<rparr>"

definition engine_get_result :: "real \<Rightarrow> string \<Rightarrow> 'r engine \<Rightarrow> 'r option \<times> 'r engine" where
  "engine_get_result now k en =
     (case idem_get_result now k (en_manager en) of (r, m) \<Rightarrow> (r, en\<lparr>en_manager := m\<rparr>))"

definition engine_mark_in_flight :: "bool \<Rightarrow> real \<Rightarrow> string \<Rightarrow> 'r engine \<Rightarrow> 'r engine" where
  "engine_mark_in_flight up now k en = en\<lparr>en_manager := idem_mark_in_flight up now k (en_manager en)\<rparr>"

definition engine_confirm_execution :: "('r \<Rightarrow> 'r) \<Rightarrow> bool \<Rightarrow> real \<Rightarrow> string \<Rightarrow> 'r \<Rightarrow> 'r engine \<Rightarrow> 'r engine" where
  "engine_confirm_execution rt up now k r en = en\<lparr>en_manager := idem_confirm_execution rt up now k r (en_manager en)\<rparr>"

definition engine_clear_in_flight :: "bool \<Rightarrow> string \<Rightarrow> 'r engine \<Rightarrow> 'r engine" where
  "engine_clear_in_flight up k en = en\<lparr>en_manager := idem_clear_in_flight up k (en_manager en)\<rparr>"

definition engine_cleanup :: "real \<Rightarrow> 'r engine \<Rightarrow> 'r engine" where
  "engine_cleanup now en = en\<lparr>en_manager := idem_cleanup now (en_manager en)\<rparr>"

subsection \<open>Runs\<close>

datatype 'r idem_op =
    IsDuplicate real string
  | MarkInFlight bool real string
  | Confirm bool real string 'r
  | ClearFlight bool string
  | GetResult real string

fun idem_step :: "('r \<Rightarrow> 'r) \<Rightarrow> 'r idem_op \<Rightarrow> 'r idem \<Rightarrow> 'r idem" where
  "idem_step rt (IsDuplicate now k) im = snd (idem_is_duplicate now k im)"
| "idem_step rt (MarkInFlight up now k) im = idem_mark_in_flight up now k im"
| "idem_step rt (Confirm up now k r) im = idem_confirm_execution rt up now k r im"
| "idem_step rt (ClearFlight up k) im = idem_clear_in_flight up k im"
| "idem_step rt (GetResult now k) im = snd (idem_get_result now k im)"

text \<open>The operations that look at the clock do so no later than \<open>t\<close>.\<close>

fun op_before :: "real \<Rightarrow> 'r idem_op \<Rightarrow> bool" where
  "op_before t (IsDuplicate now k) = (now \<le> t)"
| "op_before t (GetResult now k) = (now \<le> t)"
| "op_before t _ = True"

text \<open>The operations that end the flight of \<open>k\<close>.\<close>

fun op_lands :: "string \<Rightarrow> 'r idem_op \<Rightarrow> bool" where
  "op_lands k (Confirm up now j r) = (j = k)"
| "op_lands k (ClearFlight up j) = (j = k)"
| "op_lands k _ = False"

text \<open>A later mark restarts the hour.\<close>

fun op_marks :: "string \<Rightarrow> 'r idem_op \<Rightarrow> bool" where
  "op_marks k (MarkInFlight up now j) = (j = k)"
| "op_marks k _ = False"

fun op_confirms :: "string \<Rightarrow> 'r idem_op \<Rightarrow> bool" where
  "op_confirms k (Confirm up now j r) = (j = k)"
| "op_confirms k _ = False"

text \<open>How many entries a dictionary has behind the one of \<open>k\<close>.\<close>

fun behind :: "'k \<Rightarrow> ('k, 'v) dict \<Rightarrow> nat" where
  "behind k [] = 0"
| "behind k ((a, b) # d) = (if a = k then length d else behind k d)"

fun is_confirm :: "'r idem_op \<Rightarrow> bool" where
  "is_confirm (Confirm _ _ _ _) = True"
| "is_confirm _ = False"

definition idem_ok :: "'r idem \<Rightarrow> bool" where
  "idem_ok im \<longleftrightarrow> dict_ok (im_cache im) \<and> dict_ok (im_in_flight im) \<and> tbl_ok ik_key (im_table im)
     \<and> (\<forall>row \<in> set (im_table im). ik_status row = ''confirmed'' \<longrightarrow> (\<exists>t r. ik_ts row = At t \<and> ik_result row = Some r))"

definition cache_bounded :: "'r idem \<Rightarrow> bool" where
  "cache_bounded im \<longleftrightarrow> idem_ok im \<and> 0 \<le> im_cache_size im \<and> int (length (im_cache im)) \<le> im_cache_size im"

section \<open>The invariant\<close>

lemma idem_cleanup_sel [simp]:
  "im_table (idem_cleanup now im) = im_table im" "im_cache_size (idem_cleanup now im) = im_cache_size im"
  "im_expiry_hours (idem_cleanup now im) = im_expiry_hours im" "im_persist (idem_cleanup now im) = im_persist im"
  by (simp_all add: idem_cleanup_def Let_def)

lemma idem_persist_sel [simp]:
  "im_cache (idem_persist up k now res st im) = im_cache im"
  "im_in_flight (idem_persist up k now res st im) = im_in_flight im"
  "im_cache_size (idem_persist up k now res st im) = im_cache_size im"
  "im_expiry_hours (idem_persist up k now res st im) = im_expiry_hours im"
  "im_persist (idem_persist up k now res st im) = im_persist im"
  by (simp_all add: idem_persist_def)

lemma evict_oldest_sel [simp]:
  "im_table (evict_oldest im) = im_table im" "im_in_flight (evict_oldest im) = im_in_flight im"
  "im_cache_size (evict_oldest im) = im_cache_size im" "im_expiry_hours (evict_oldest im) = im_expiry_hours im"
  "im_persist (evict_oldest im) = im_persist im"
  by (simp_all add: evict_oldest_def)

lemma idem_clear_sel [simp]:
  "im_cache (idem_clear_in_flight up k im) = im_cache im"
  "im_in_flight (idem_clear_in_flight up k im) = dict_del k (im_in_flight im)"
  "im_cache_size (idem_clear_in_flight up k im) = im_cache_size im"
  "im_expiry_hours (idem_clear_in_flight up k im) = im_expiry_hours im"
  by (simp_all add: idem_clear_in_flight_def Let_def)

lemma idem_cleanup_get:
  assumes "idem_ok im"
  shows "map_of (im_cache (idem_cleanup now im)) k = (case map_of (im_cache im) k of
      Some (t, r) \<Rightarrow> if t < now - of_int (im_expiry_hours im) * 3600 then None else Some (t, r) | None \<Rightarrow> None)"
    and "map_of (im_in_flight (idem_cleanup now im)) k = (case map_of (im_in_flight im) k of
      Some t \<Rightarrow> if t < now - 3600 then None else Some t | None \<Rightarrow> None)"
proof -
  have c: "dict_ok (im_cache im)" and f: "dict_ok (im_in_flight im)" using assms by (simp_all add: idem_ok_def)
  show "map_of (im_cache (idem_cleanup now im)) k = (case map_of (im_cache im) k of
      Some (t, r) \<Rightarrow> if t < now - of_int (im_expiry_hours im) * 3600 then None else Some (t, r) | None \<Rightarrow> None)"
    using map_of_filter_dict [OF c, of "\<lambda>k (t, r). \<not> t < now - of_int (im_expiry_hours im) * 3600"]
    by (auto simp: idem_cleanup_def Let_def split: option.splits)
  show "map_of (im_in_flight (idem_cleanup now im)) k = (case map_of (im_in_flight im) k of
      Some t \<Rightarrow> if t < now - 3600 then None else Some t | None \<Rightarrow> None)"
    using map_of_filter_dict [OF f, of "\<lambda>k t. \<not> t < now - 3600"]
    by (auto simp: idem_cleanup_def Let_def split: option.splits)
qed

lemma idem_ok_cleanup: "idem_ok im \<Longrightarrow> idem_ok (idem_cleanup now im)"
  by (auto simp: idem_ok_def idem_cleanup_def Let_def dict_ok_filter)

lemma idem_ok_persist:
  "idem_ok im \<Longrightarrow> (st = ''confirmed'' \<longrightarrow> res \<noteq> None) \<Longrightarrow> idem_ok (idem_persist up k now res st im)"
  by (auto simp: idem_ok_def idem_persist_def) (auto simp: tbl_replace_def)

lemma dict_ok_tl: "dict_ok d \<Longrightarrow> dict_ok (tl d)"
  by (cases d) (auto simp: dict_ok_def dict_keys_def)

lemma idem_ok_evict: "idem_ok im \<Longrightarrow> idem_ok (evict_oldest im)"
  by (simp add: idem_ok_def evict_oldest_def dict_ok_tl)

lemma idem_step_ok: "idem_ok im \<Longrightarrow> idem_ok (idem_step rt op im)"
proof (cases op)
  case (MarkInFlight up now k)
  assume "idem_ok im"
  then have "idem_ok (im\<lparr>im_in_flight := dict_set k now (im_in_flight im)\<rparr>)" by (simp add: idem_ok_def)
  with MarkInFlight show ?thesis by (simp add: idem_mark_in_flight_def idem_ok_persist)
next
  case (Confirm up now k r)
  assume "idem_ok im"
  then have "idem_ok (im\<lparr>im_in_flight := dict_del k (im_in_flight im), im_cache := dict_set k (now, r) (im_cache im)\<rparr>)"
    by (simp add: idem_ok_def)
  with Confirm show ?thesis by (simp add: idem_confirm_execution_def idem_ok_persist idem_ok_evict)
next
  case (ClearFlight up k)
  assume "idem_ok im"
  with ClearFlight show ?thesis
    by (auto simp: idem_ok_def idem_clear_in_flight_def Let_def) (auto simp: tbl_delete_def)
qed (simp_all add: idem_is_duplicate_def idem_get_result_def Let_def idem_ok_cleanup)

lemma idem_step_bounded: "cache_bounded im \<Longrightarrow> cache_bounded (idem_step rt op im)"
proof -
  assume b: "cache_bounded im"
  then have ok: "idem_ok (idem_step rt op im)" by (auto simp: cache_bounded_def intro: idem_step_ok)
  have "length (im_cache (idem_cleanup now im)) \<le> length (im_cache im)" for now
    by (simp add: idem_cleanup_def Let_def)
  then have clean: "int (length (im_cache (idem_cleanup now im))) \<le> im_cache_size im" for now
    using b unfolding cache_bounded_def by (meson of_nat_le_iff order_trans)
  have len: "int (length (im_cache (idem_step rt op im))) \<le> im_cache_size im"
  proof (cases op)
    case (Confirm up now k r)
    have "length (dict_set k (now, r) (im_cache im)) \<le> length (im_cache im) + 1"
      by (simp add: dict_set_length)
    with b Confirm show ?thesis
      by (auto simp: cache_bounded_def idem_confirm_execution_def evict_oldest_def)
  qed (use b clean in \<open>auto simp: cache_bounded_def idem_is_duplicate_def idem_get_result_def
        idem_mark_in_flight_def Let_def\<close>)
  have "im_cache_size (idem_step rt op im) = im_cache_size im"
    by (cases op) (simp_all add: idem_is_duplicate_def idem_get_result_def idem_mark_in_flight_def
        idem_confirm_execution_def Let_def)
  with b ok len show ?thesis by (simp add: cache_bounded_def)
qed

interpretation idem_run: op_system "idem_step rt" cache_bounded for rt :: "'r \<Rightarrow> 'r"
  by unfold_locales (rule idem_step_bounded)

lemma new_idem_bounded: "0 \<le> sz \<Longrightarrow> cache_bounded (new_idem up now sz hours persist [])"
  by (simp add: cache_bounded_def idem_ok_def new_idem_def load_from_persistence_def Let_def tbl_delete_def)

lemma new_idem_empty:
  "idem_ok (new_idem up now sz hours persist [])" "im_persist (new_idem up now sz hours persist []) = persist"
  "im_cache (new_idem up now sz hours persist []) = []" "im_cache_size (new_idem up now sz hours persist []) = sz"
  "im_expiry_hours (new_idem up now sz hours persist []) = hours"
  by (simp_all add: idem_ok_def new_idem_def load_from_persistence_def Let_def tbl_delete_def)

section \<open>Blocking\<close>

lemma in_flight_step:
  assumes "idem_ok im" and "map_of (im_in_flight im) k = Some t0"
    and "op_before (t0 + 3600) op" and "\<not> op_lands k op" and "\<not> op_marks k op"
  shows "map_of (im_in_flight (idem_step rt op im)) k = Some t0"
  using assms
  by (cases op) (auto simp: idem_is_duplicate_def idem_get_result_def Let_def idem_cleanup_get
      idem_mark_in_flight_def idem_confirm_execution_def)

lemma in_flight_run:
  assumes "idem_ok im" and "map_of (im_in_flight im) k = Some t0"
    and "list_all (op_before (t0 + 3600)) ops" and "list_all (\<lambda>op. \<not> op_lands k op \<and> \<not> op_marks k op) ops"
  shows "map_of (im_in_flight (fold (idem_step rt) ops im)) k = Some t0 \<and> idem_ok (fold (idem_step rt) ops im)"
  using assms by (induction ops arbitrary: im) (simp_all add: in_flight_step idem_step_ok)

lemma behind_set: "map_of d k \<noteq> None \<Longrightarrow> behind k (dict_set j v d) \<le> behind k d + 1"
  by (induction d) (auto simp: dict_set_length)

lemma behind_new: "map_of d k = None \<Longrightarrow> behind k (dict_set k v d) = 0"
  by (induction d) (auto split: if_splits)

lemma behind_filter: "map_of (filter P d) k \<noteq> None \<Longrightarrow> dict_ok d \<Longrightarrow> behind k (filter P d) \<le> behind k d"
proof (induction d)
  case (Cons p d)
  obtain a b where p: "p = (a, b)" by (cases p)
  from Cons.prems(2) p have none: "map_of d a = None" "dict_ok d" by (simp_all add: dict_ok_Cons)
  have "map_of (filter P d) a = None"
    using none(1) by (auto simp: map_of_eq_None_iff)
  with Cons p none show ?case by (auto split: if_splits)
qed simp

lemma behind_tl:
  assumes "map_of d k = Some v" and "behind k d + 1 < length d"
  shows "map_of (tl d) k = Some v \<and> behind k (tl d) = behind k d"
  using assms by (cases d) (auto split: if_splits)

text \<open>One operation on a cache that holds \<open>k\<close> with fewer than \<open>cache_size\<close> entries behind it.\<close>

lemma cached_step:
  assumes b: "cache_bounded im" and k: "map_of (im_cache im) k = Some (t0, r)"
    and before: "op_before (t0 + of_int (im_expiry_hours im) * 3600) op" and "\<not> op_confirms k op"
    and room: "behind k (im_cache im) + (if is_confirm op then 1 else 0) < nat (im_cache_size im)"
  shows "map_of (im_cache (idem_step rt op im)) k = Some (t0, r)
    \<and> behind k (im_cache (idem_step rt op im)) \<le> behind k (im_cache im) + (if is_confirm op then 1 else 0)"
proof -
  have ok: "idem_ok im" "dict_ok (im_cache im)" using b by (simp_all add: cache_bounded_def idem_ok_def)
  have clean: "map_of (im_cache (idem_cleanup now im)) k = Some (t0, r)
      \<and> behind k (im_cache (idem_cleanup now im)) \<le> behind k (im_cache im)"
    if "now \<le> t0 + of_int (im_expiry_hours im) * 3600" for now
  proof
    show keep: "map_of (im_cache (idem_cleanup now im)) k = Some (t0, r)"
      using that k idem_cleanup_get(1) [OF ok(1)] by simp
    then show "behind k (im_cache (idem_cleanup now im)) \<le> behind k (im_cache im)"
      using behind_filter [OF _ ok(2)] by (simp add: idem_cleanup_def Let_def)
  qed
  show ?thesis
  proof (cases op)
    case (Confirm up now j r')
    let ?d = "dict_set j (now, r') (im_cache im)"
    have d: "map_of ?d k = Some (t0, r)" using k assms(4) Confirm by simp
    have bd: "behind k ?d \<le> behind k (im_cache im) + 1" using behind_set [of "im_cache im" k] k by simp
    have "behind k ?d + 1 < length ?d" if "int (length ?d) > im_cache_size im"
      using that bd room Confirm b by (auto simp: cache_bounded_def)
    with behind_tl [OF d] d bd Confirm show ?thesis
      by (auto simp: idem_confirm_execution_def evict_oldest_def)
  qed (use k before clean in \<open>auto simp: idem_is_duplicate_def idem_get_result_def idem_mark_in_flight_def Let_def\<close>)
qed

lemma idem_step_limits [simp]:
  "im_cache_size (idem_step rt op im) = im_cache_size im" "im_expiry_hours (idem_step rt op im) = im_expiry_hours im"
  by (cases op; simp add: idem_is_duplicate_def idem_get_result_def idem_mark_in_flight_def
        idem_confirm_execution_def Let_def)+

lemma idem_run_limits:
  "im_cache_size (fold (idem_step rt) ops im) = im_cache_size im"
  "im_expiry_hours (fold (idem_step rt) ops im) = im_expiry_hours im"
  by (induction ops arbitrary: im) simp_all


lemma cached_run:
  assumes "cache_bounded im" and "map_of (im_cache im) k = Some (t0, r)"
    and "list_all (op_before (t0 + of_int (im_expiry_hours im) * 3600)) ops"
    and "list_all (\<lambda>op. \<not> op_confirms k op) ops"
    and "behind k (im_cache im) + length (filter is_confirm ops) < nat (im_cache_size im)"
  shows "map_of (im_cache (fold (idem_step rt) ops im)) k = Some (t0, r)"
  using assms
proof (induction ops arbitrary: im)
  case (Cons op ops)
  have room: "behind k (im_cache im) + (if is_confirm op then 1 else 0) < nat (im_cache_size im)"
    using Cons.prems(5) by (cases "is_confirm op") auto
  have s: "map_of (im_cache (idem_step rt op im)) k = Some (t0, r)"
    "behind k (im_cache (idem_step rt op im)) \<le> behind k (im_cache im) + (if is_confirm op then 1 else 0)"
    using cached_step [OF Cons.prems(1,2) _ _ room, of rt] Cons.prems(3,4) by simp_all
  have "behind k (im_cache (idem_step rt op im)) + length (filter is_confirm ops) < nat (im_cache_size im)"
    using s(2) Cons.prems(5) by (cases "is_confirm op") auto
  with Cons.IH [OF idem_step_bounded [OF Cons.prems(1), of rt op] s(1)] Cons.prems(3,4) show ?case by simp
qed simp

section \<open>Restart\<close>

lemma load_keys_get:
  assumes "\<And>row. row \<in> set rows \<Longrightarrow> \<exists>t r. ik_ts row = At t \<and> ik_result row = Some r"
    and "distinct (map ik_key rows)"
  shows "\<exists>c'. for_each load_key rows c = (None, c') \<and> map_of c' k =
    (case find (\<lambda>row. ik_key row = k) rows of
       None \<Rightarrow> map_of c k
     | Some row \<Rightarrow> (case (ik_ts row, ik_result row) of (At t, Some r) \<Rightarrow> Some (t, r) | _ \<Rightarrow> None))"
  using assms
proof (induction rows arbitrary: c)
  case (Cons row rows)
  from Cons.prems(1) obtain t r where row: "ik_ts row = At t" "ik_result row = Some r" by fastforce
  have none: "find (\<lambda>x. ik_key x = ik_key row) rows = None"
    using Cons.prems(2) by (auto simp: find_None_iff rev_image_eqI)
  obtain c' where "for_each load_key rows (dict_set (ik_key row) (t, r) c) = (None, c')"
    "map_of c' k = (case find (\<lambda>row. ik_key row = k) rows of
       None \<Rightarrow> map_of (dict_set (ik_key row) (t, r) c) k
     | Some row \<Rightarrow> (case (ik_ts row, ik_result row) of (At t, Some r) \<Rightarrow> Some (t, r) | _ \<Rightarrow> None))"
    using Cons.IH [of "dict_set (ik_key row) (t, r) c"] Cons.prems by auto
  moreover have "load_key row c = (None, dict_set (ik_key row) (t, r) c)" by (simp add: load_key_def row)
  ultimately show ?case using row none by (auto split: option.split)
qed simp

lemma find_filter_key:
  assumes "tbl_ok key t"
  shows "find (\<lambda>row. key row = k) (filter P t) =
    (case tbl_get key k t of None \<Rightarrow> None | Some row \<Rightarrow> if P row then Some row else None)"
  using assms
proof (induction t)
  case (Cons x t)
  have "find (\<lambda>row. key row = key x) (filter P t) = None"
    using Cons.prems by (auto simp: tbl_ok_def find_None_iff rev_image_eqI)
  with Cons show ?case by (auto simp: tbl_get_def tbl_ok_def)
qed (simp add: tbl_get_def)

text \<open>What a manager started on a table finds for a key.\<close>

lemma new_idem_get:
  assumes "idem_ok im"
  shows "map_of (im_cache (new_idem True now sz hours True (im_table im))) k =
    (case tbl_get ik_key k (im_table im) of
       None \<Rightarrow> None
     | Some row \<Rightarrow>
         if ik_status row = ''confirmed'' \<and> sql_recent now row
         then (case (ik_ts row, ik_result row) of (At t, Some r) \<Rightarrow> Some (t, r) | _ \<Rightarrow> None) else None)"
    and "im_in_flight (new_idem True now sz hours True (im_table im)) = []"
    and "idem_ok (new_idem True now sz hours True (im_table im))"
    and "im_expiry_hours (new_idem True now sz hours True (im_table im)) = hours"
proof -
  let ?t = "im_table im"
  let ?rows = "filter (\<lambda>row. ik_status row = ''confirmed'' \<and> sql_recent now row) ?t"
  have rows: "\<exists>t r. ik_ts row = At t \<and> ik_result row = Some r" if "row \<in> set ?rows" for row
    using that assms by (auto simp: idem_ok_def)
  have dist: "distinct (map ik_key ?rows)" using assms by (simp add: idem_ok_def tbl_ok_def distinct_map_filter)
  obtain c where c: "for_each load_key ?rows [] = (None, c)" "map_of c k =
      (case find (\<lambda>row. ik_key row = k) ?rows of None \<Rightarrow> map_of [] k
       | Some row \<Rightarrow> (case (ik_ts row, ik_result row) of (At t, Some r) \<Rightarrow> Some (t, r) | _ \<Rightarrow> None))"
    using load_keys_get [OF rows dist, of "[]" k] by blast
  have dict: "dict_ok c"
    using for_each_inv [of dict_ok "[]" ?rows load_key] c(1)
    by (auto simp: load_key_def split: stamp.splits option.splits)
  have new: "new_idem True now sz hours True ?t = \<lparr>im_cache = c, im_in_flight = [], im_cache_size = sz,
      im_expiry_hours = hours, im_persist = True,
      im_table = tbl_delete (\<lambda>row. ik_status row = ''in_flight'' \<and> sql_old now row) ?t\<rparr>"
    using c(1) by (simp add: new_idem_def load_from_persistence_def Let_def)
  have key: "tbl_ok ik_key ?t" using assms by (simp add: idem_ok_def)
  show "map_of (im_cache (new_idem True now sz hours True ?t)) k =
    (case tbl_get ik_key k ?t of None \<Rightarrow> None
     | Some row \<Rightarrow> if ik_status row = ''confirmed'' \<and> sql_recent now row
         then (case (ik_ts row, ik_result row) of (At t, Some r) \<Rightarrow> Some (t, r) | _ \<Rightarrow> None) else None)"
    unfolding new using c(2) by (simp add: find_filter_key [OF key] split: option.splits)
  show "im_in_flight (new_idem True now sz hours True ?t) = []"
    "im_expiry_hours (new_idem True now sz hours True ?t) = hours" by (simp_all add: new)
  show "idem_ok (new_idem True now sz hours True ?t)"
    using assms dict by (auto simp: new idem_ok_def tbl_delete_def tbl_ok_def distinct_map_filter)
qed

section \<open>Properties\<close>

text \<open>
  The confirmed cache never exceeds its limit and keeps one entry per key: after any sequence of
  operations on a new manager the cache has at most \<open>cache_size\<close> entries with distinct keys.
\<close>

lemma idempotency_cache_bounded:
  assumes "0 \<le> sz"
  shows "int (length (im_cache (fold (idem_step rt) ops (new_idem up now sz hours persist [])))) \<le> sz
    \<and> dict_ok (im_cache (fold (idem_step rt) ops (new_idem up now sz hours persist [])))"
  using idem_run.run_inv [OF new_idem_bounded [OF assms], of rt ops up now hours persist]
  by (simp add: cache_bounded_def idem_ok_def idem_run_limits new_idem_empty)

text \<open>
  A key in flight blocks duplicates for an hour: once a key is marked at \<open>t0\<close>, whatever other
  operations follow that neither confirm, clear nor mark it again and look at the clock within the
  hour, \<open>is_duplicate\<close> answers true for it at any time up to \<open>t0\<close> plus one hour.
\<close>

lemma in_flight_blocks_duplicates:
  assumes "idem_ok im" and "list_all (op_before (t0 + 3600)) ops"
    and "list_all (\<lambda>op. \<not> op_lands k op \<and> \<not> op_marks k op) ops" and "now \<le> t0 + 3600"
  shows "fst (idem_is_duplicate now k (fold (idem_step rt) ops (idem_mark_in_flight up t0 k im)))"
proof -
  have "idem_ok (idem_mark_in_flight up t0 k im)"
    using idem_step_ok [OF assms(1), of rt "MarkInFlight up t0 k"] by simp
  moreover have "map_of (im_in_flight (idem_mark_in_flight up t0 k im)) k = Some t0"
    by (simp add: idem_mark_in_flight_def)
  ultimately have r: "map_of (im_in_flight (fold (idem_step rt) ops (idem_mark_in_flight up t0 k im))) k = Some t0
      \<and> idem_ok (fold (idem_step rt) ops (idem_mark_in_flight up t0 k im))"
    using assms(2,3) by (rule in_flight_run)
  with assms(4) show ?thesis by (simp add: idem_is_duplicate_def Let_def idem_cleanup_get)
qed

text \<open>
  A confirmed order stays a duplicate until it expires: once a key that was not cached is
  confirmed at \<open>t0\<close>, then after any operations with fewer than \<open>cache_size\<close> further confirmations, none
  of them for this key, and clocks within the expiry time, its result is still returned and
  \<open>is_duplicate\<close> is still true.
\<close>

lemma confirmed_blocks_duplicates:
  assumes "cache_bounded im" and "map_of (im_cache im) k = None"
    and "list_all (op_before (t0 + of_int (im_expiry_hours im) * 3600)) ops"
    and "list_all (\<lambda>op. \<not> op_confirms k op) ops"
    and "length (filter is_confirm ops) < nat (im_cache_size im)"
    and "now \<le> t0 + of_int (im_expiry_hours im) * 3600"
  shows "let im' = fold (idem_step rt) ops (idem_confirm_execution rt up t0 k r im) in
    fst (idem_get_result now k im') = Some r \<and> fst (idem_is_duplicate now k im')"
proof -
  let ?im = "idem_confirm_execution rt up t0 k r im"
  let ?d = "dict_set k (t0, r) (im_cache im)"
  have b: "cache_bounded ?im" using idem_step_bounded [OF assms(1), of rt "Confirm up t0 k r"] by simp
  have d: "map_of ?d k = Some (t0, r)" "behind k ?d = 0" using assms(2) by (simp_all add: behind_new)
  have "behind k ?d + 1 < length ?d" if "int (length ?d) > im_cache_size im"
    using that d(2) assms(5) by simp
  with behind_tl [OF d(1)] d have c: "map_of (im_cache ?im) k = Some (t0, r)" "behind k (im_cache ?im) = 0"
    by (auto simp: idem_confirm_execution_def evict_oldest_def)
  have lim: "im_cache_size ?im = im_cache_size im" "im_expiry_hours ?im = im_expiry_hours im"
    by (simp_all add: idem_confirm_execution_def)
  have "map_of (im_cache (fold (idem_step rt) ops ?im)) k = Some (t0, r)"
    using cached_run [OF b c(1), of ops rt] assms(3-5) by (simp add: lim c(2))
  moreover have "idem_ok (fold (idem_step rt) ops ?im)"
    using idem_run.run_inv [OF b, of rt ops] by (simp add: cache_bounded_def)
  ultimately show ?thesis
    using assms(6) by (simp add: Let_def idem_get_result_def idem_is_duplicate_def idem_cleanup_get idem_run_limits lim)
qed

text \<open>
  Confirmations survive a restart and marks in flight do not: a manager started on the table after
  a confirmation returns the stored result and blocks the key, as long as the confirmation is younger
  than the expiry time and its date is not before that of the cutoff; a manager started after the key
  was only marked in flight does not block it.
\<close>

lemma restart_keeps_confirmed_only:
  assumes "idem_ok im" and "im_persist im"
    and "day t \<ge> cutoff_day now" and "now \<le> t + of_int hours * 3600"
  shows "(let im' = new_idem True now sz hours True (im_table (idem_confirm_execution rt True t k r im)) in
      fst (idem_get_result now k im') = Some (rt r) \<and> fst (idem_is_duplicate now k im'))
    \<and> \<not> fst (idem_is_duplicate now k (new_idem True now sz hours True (im_table (idem_mark_in_flight True t k im))))"
proof
  let ?c = "idem_confirm_execution rt True t k r im"
  have ok: "idem_ok ?c" using idem_step_ok [OF assms(1), of rt "Confirm True t k r"] by simp
  have "tbl_get ik_key k (im_table ?c) = Some \<lparr>ik_key = k, ik_ts = At t, ik_result = Some (rt r), ik_status = ''confirmed''\<rparr>"
    using assms(2) by (simp add: idem_confirm_execution_def idem_persist_def tbl_get_replace)
  with new_idem_get [OF ok, where now = now and sz = sz and hours = hours] assms(3,4)
  show "let im' = new_idem True now sz hours True (im_table ?c) in
      fst (idem_get_result now k im') = Some (rt r) \<and> fst (idem_is_duplicate now k im')"
    by (simp add: Let_def idem_get_result_def idem_is_duplicate_def idem_cleanup_get sql_recent_def)
next
  let ?m = "idem_mark_in_flight True t k im"
  have ok: "idem_ok ?m" using idem_step_ok [OF assms(1), of rt "MarkInFlight True t k"] by simp
  have "tbl_get ik_key k (im_table ?m) = Some \<lparr>ik_key = k, ik_ts = At t, ik_result = None, ik_status = ''in_flight''\<rparr>"
    using assms(2) by (simp add: idem_mark_in_flight_def idem_persist_def tbl_get_replace)
  with new_idem_get [OF ok, where now = now and sz = sz and hours = hours]
  show "\<not> fst (idem_is_duplicate now k (new_idem True now sz hours True (im_table ?m)))"
    by (simp add: idem_is_duplicate_def idem_cleanup_get Let_def)
qed

end
