(* ===== verification/Wal_Journal.thy ===== *)
theory Wal_Journal
  imports Prelude "HOL-Library.Sublist"
begin

text \<open>
  The write-ahead journal of broker intents, \<open>core/wal/journal.py\<close>, with the queued database writer
  it uses, \<open>AsyncDbWriter\<close> of \<open>core/db_utils.py\<close>.

  A write call puts an SQL statement into a bounded queue that a worker thread drains; when the queue
  is full (or the writer is stopped) the statement is executed at once on the journal's own connection.
  The worker takes a statement, executes it and commits in separate steps (\<open>worker_step\<close>); \<open>ok\<close> says
  whether the database operation of a step succeeds. A statement whose execution fails is dropped; after
  a failed commit the statement stays in the open transaction of the writer's connection, which the next
  commit includes. The state is the committed table, that transaction, what the worker is doing, the
  queue and the counters, so that an interleaving of calls and worker steps is a sequence of steps.

  \<open>dbx\<close> is the exception of a synchronous statement. Parameters and risk verdicts are JSON values of type
  \<open>'p\<close>, which storing as text does not change; \<open>uuid\<close> is the fresh correlation id. \<open>str(now_ist())\<close>
  strings compare as the instants they denote.
\<close>

section \<open>Definitions\<close>

text \<open>\<open>IntentStatus\<close>: the values of the status column.\<close>

abbreviation (input) ist_pending :: string where "ist_pending \<equiv> ''PENDING''"
abbreviation (input) ist_committed :: string where "ist_committed \<equiv> ''COMMITTED''"
abbreviation (input) ist_settled :: string where "ist_settled \<equiv> ''SETTLED''"
abbreviation (input) ist_failed :: string where "ist_failed \<equiv> ''FAILED''"

record 'p intent =
  it_id :: string
  it_action :: string
  it_params :: 'p
  it_risk_verdict :: "'p option"
  it_config_hash :: string
  it_correlation :: string
  it_status :: string
  it_created_at :: "real option"
  it_committed_at :: "real option"
  it_failed_at :: "real option"
  it_error :: string

record 'p wal_row =
  wr_id :: string
  wr_action :: string
  wr_params :: 'p
  wr_risk_verdict :: "'p option"
  wr_config_hash :: string
  wr_correlation :: string
  wr_status :: string
  wr_created_at :: real
  wr_committed_at :: "real option"
  wr_failed_at :: "real option"
  wr_error :: "string option"

text \<open>The statements the journal writes.\<close>

datatype 'p wal_write =
    WInsert "'p wal_row"
  | WCommit real string
  | WFail real string string
  | WSettle string

text \<open>The rows a statement changes, and its effect on the table.\<close>

fun write_hits :: "'p wal_write \<Rightarrow> 'p wal_row \<Rightarrow> bool" where
  "write_hits (WInsert r) x = False"
| "write_hits (WCommit now i) x = (wr_id x = i)"
| "write_hits (WFail now err i) x = (wr_id x = i)"
| "write_hits (WSettle i) x = (wr_id x = i \<and> wr_status x = ist_committed)"

fun apply_write :: "'p wal_write \<Rightarrow> 'p wal_row list \<Rightarrow> 'p wal_row list" where
  "apply_write (WInsert r) t = tbl_replace wr_id r t"
| "apply_write (WCommit now i) t =
     tbl_update (write_hits (WCommit now i)) (\<lambda>x. x\<lparr>wr_status := ist_committed, wr_committed_at := Some now\<rparr>) t"
| "apply_write (WFail now err i) t =
     tbl_update (write_hits (WFail now err i))
       (\<lambda>x. x\<lparr>wr_status := ist_failed, wr_failed_at := Some now, wr_error := Some err\<rparr>) t"
| "apply_write (WSettle i) t =
     tbl_update (write_hits (WSettle i)) (\<lambda>x. x\<lparr>wr_status := ist_settled\<rparr>) t"

definition rows_changed :: "'p wal_write \<Rightarrow> 'p wal_row list \<Rightarrow> int" where
  "rows_changed w t = (case w of WInsert r \<Rightarrow> 1 | _ \<Rightarrow> int (length (filter (write_hits w) t)))"

text \<open>
  The queue holds statements and the sentinel \<open>None\<close> of \<open>stop\<close>. The worker waits, holds a statement it has
  taken, has executed one and not yet committed, or has ended.
\<close>

datatype 'p worker = WkIdle | WkTaken "'p wal_write" | WkExecuted | WkEnded

record 'p journal =
  wj_table :: "'p wal_row list"
  wj_tx :: "'p wal_write list"
  wj_worker :: "'p worker"
  wj_queue :: "'p wal_write option list"
  wj_max :: nat
  wj_stopped :: bool
  wj_closed :: bool
  wj_written :: int
  wj_errors :: int
  wj_total_changes :: int

text \<open>A journal opened on a table; the queue holds at most 512 statements.\<close>

definition new_journal :: "'p wal_row list \<Rightarrow> 'p journal" where
  "new_journal t = \<lparr>wj_table = t, wj_tx = [], wj_worker = WkIdle, wj_queue = [], wj_max = 512, wj_stopped = False, wj_closed = False,
     wj_written = 0, wj_errors = 0, wj_total_changes = 0\<rparr>"

subsection \<open>The queued writer\<close>

definition writer_submit :: "'p wal_write \<Rightarrow> 'p journal \<Rightarrow> bool \<times> 'p journal" where
  "writer_submit w j =
     (if wj_stopped j \<or> length (wj_queue j) \<ge> wj_max j then (False, j)
      else (True, j\<lparr>wj_queue := wj_queue j @ [Some w]\<rparr>))"

text \<open>A step of the worker; an operation on the closed connection fails.\<close>

definition worker_step :: "bool \<Rightarrow> 'p journal \<Rightarrow> 'p journal" where
  "worker_step ok j =
     (case wj_worker j of
        WkIdle \<Rightarrow>
          (case wj_queue j of
             [] \<Rightarrow> if wj_stopped j then j\<lparr>wj_worker := WkEnded\<rparr> else j
           | None # q \<Rightarrow> j\<lparr>wj_queue := q, wj_worker := WkEnded\<rparr>
           | Some w # q \<Rightarrow> j\<lparr>wj_queue := q, wj_worker := WkTaken w\<rparr>)
      | WkTaken w \<Rightarrow>
          if ok \<and> \<not> wj_closed j then j\<lparr>wj_worker := WkExecuted, wj_tx := wj_tx j @ [w]\<rparr>
          else j\<lparr>wj_worker := WkIdle, wj_errors := wj_errors j + 1\<rparr>
      | WkExecuted \<Rightarrow>
          if ok \<and> \<not> wj_closed j
          then j\<lparr>wj_worker := WkIdle, wj_table := fold apply_write (wj_tx j) (wj_table j), wj_tx := [], wj_written := wj_written j + 1\<rparr>
          else j\<lparr>wj_worker := WkIdle, wj_errors := wj_errors j + 1\<rparr>
      | WkEnded \<Rightarrow> j)"

text \<open>
  \<open>stop\<close> sets the flag, puts the sentinel into the queue if there is room, waits for at most the timeout,
  during which the worker takes the steps \<open>oks\<close>, and closes the connection: an open transaction is lost.
\<close>

definition writer_stop :: "bool list \<Rightarrow> 'p journal \<Rightarrow> 'p journal" where
  "writer_stop oks j =
     (let j1 = j\<lparr>wj_stopped := True, wj_queue := (if length (wj_queue j) < wj_max j then wj_queue j @ [None] else wj_queue j)\<rparr>
      in (fold worker_step oks j1)\<lparr>wj_closed := True, wj_tx := []\<rparr>)"

subsection \<open>The journal\<close>

text \<open>
  \<open>dbx\<close> is the outcome on the journal's own connection; while the writer's transaction is open the database
  refuses that write, and \<open>dbx\<close> is an error.
\<close>

definition fallback_execute :: "exn option \<Rightarrow> 'p wal_write \<Rightarrow> 'p journal \<Rightarrow> exn option \<times> 'p journal" where
  "fallback_execute dbx w j =
     (case dbx of
        Some e \<Rightarrow> (Some e, j)
      | None \<Rightarrow> (None, j\<lparr>wj_table := apply_write w (wj_table j),
                         wj_total_changes := wj_total_changes j + rows_changed w (wj_table j)\<rparr>))"

definition journal_write :: "exn option \<Rightarrow> 'p wal_write \<Rightarrow> 'p journal \<Rightarrow> exn option \<times> 'p journal" where
  "journal_write dbx w j =
     (case writer_submit w j of (True, j') \<Rightarrow> (None, j') | (False, j') \<Rightarrow> fallback_execute dbx w j')"

definition intent_row :: "real \<Rightarrow> string \<Rightarrow> 'p intent \<Rightarrow> 'p wal_row" where
  "intent_row now uuid it = \<lparr>wr_id = it_id it, wr_action = it_action it, wr_params = it_params it,
     wr_risk_verdict = it_risk_verdict it, wr_config_hash = it_config_hash it,
     wr_correlation = (if it_correlation it = [] then uuid else it_correlation it), wr_status = ist_pending,
     wr_created_at = (case it_created_at it of None \<Rightarrow> now | Some t \<Rightarrow> t),
     wr_committed_at = None, wr_failed_at = None, wr_error = None\<rparr>"

definition wal_append :: "exn option \<Rightarrow> real \<Rightarrow> string \<Rightarrow> 'p intent \<Rightarrow> 'p journal \<Rightarrow> exn option \<times> 'p journal" where
  "wal_append dbx now uuid it = journal_write dbx (WInsert (intent_row now uuid it))"

definition wal_commit :: "exn option \<Rightarrow> real \<Rightarrow> string \<Rightarrow> 'p journal \<Rightarrow> exn option \<times> 'p journal" where
  "wal_commit dbx now i = journal_write dbx (WCommit now i)"

definition wal_fail :: "exn option \<Rightarrow> real \<Rightarrow> string \<Rightarrow> string \<Rightarrow> 'p journal \<Rightarrow> exn option \<times> 'p journal" where
  "wal_fail dbx now i err = journal_write dbx (WFail now err i)"

definition wal_settle :: "exn option \<Rightarrow> string \<Rightarrow> 'p journal \<Rightarrow> exn option \<times> 'p journal" where
  "wal_settle dbx i = journal_write dbx (WSettle i)"

definition row_to_intent :: "'p wal_row \<Rightarrow> 'p intent" where
  "row_to_intent r = \<lparr>it_id = wr_id r, it_action = wr_action r, it_params = wr_params r,
     it_risk_verdict = wr_risk_verdict r, it_config_hash = wr_config_hash r, it_correlation = wr_correlation r,
     it_status = wr_status r, it_created_at = Some (wr_created_at r), it_committed_at = wr_committed_at r,
     it_failed_at = wr_failed_at r, it_error = str_or (wr_error r) []\<rparr>"

text \<open>Reads use the writer's connection: they see its open transaction, but not the queue.\<close>

definition wal_view :: "'p journal \<Rightarrow> 'p wal_row list" where
  "wal_view j = fold apply_write (wj_tx j) (wj_table j)"

definition wal_get_intent :: "string \<Rightarrow> 'p journal \<Rightarrow> 'p intent option" where
  "wal_get_intent i j = map_option row_to_intent (tbl_get wr_id i (wal_view j))"

definition wal_select :: "('p wal_row \<Rightarrow> bool) \<Rightarrow> 'p journal \<Rightarrow> 'p intent list" where
  "wal_select P j = map row_to_intent (sort_key wr_created_at (filter P (wal_view j)))"

definition wal_get_pending :: "'p journal \<Rightarrow> 'p intent list" where
  "wal_get_pending = wal_select (\<lambda>r. wr_status r = ist_pending)"

definition wal_get_unsettled :: "'p journal \<Rightarrow> 'p intent list" where
  "wal_get_unsettled = wal_select (\<lambda>r. wr_status r = ist_committed)"

definition wal_get_by_correlation :: "string \<Rightarrow> 'p journal \<Rightarrow> 'p intent list" where
  "wal_get_by_correlation c = wal_select (\<lambda>r. wr_correlation r = c)"

definition wal_count_by_status :: "'p journal \<Rightarrow> (string \<times> int) list" where
  "wal_count_by_status j =
     (let st = remdups (map wr_status (wal_view j))
      in map (\<lambda>s. (s, int (length (filter (\<lambda>r. wr_status r = s) (wal_view j))))) st)"

text \<open>
  \<open>cleanup\<close> deletes on the journal's connection, with the outcome \<open>dbx\<close>; the count it returns is \<open>total_changes\<close>, the rows
  changed through that connection since it was opened.
\<close>

definition wal_cleanup :: "exn option \<Rightarrow> real \<Rightarrow> real \<Rightarrow> 'p journal \<Rightarrow> (exn + int) \<times> 'p journal" where
  "wal_cleanup dbx now hours j =
     (let old = (\<lambda>r. wr_status r = ist_settled \<and> wr_created_at r < now - hours * 3600);
          n = wj_total_changes j + int (length (filter old (wj_table j)))
      in case dbx of
          Some e \<Rightarrow> (Inl e, j)
        | None \<Rightarrow> (Inr n, j\<lparr>wj_table := tbl_delete old (wj_table j), wj_total_changes := n\<rparr>))"

text \<open>\<open>close\<close> stops the writer; the next write opens a new one, with an empty queue, on the same table.\<close>

definition wal_close :: "bool list \<Rightarrow> 'p journal \<Rightarrow> 'p journal" where
  "wal_close oks j = new_journal (wj_table (writer_stop oks j))"

text \<open>A crash: queue and transaction are lost, and the next process opens a journal on the table.\<close>

definition wal_crash :: "'p journal \<Rightarrow> 'p journal" where
  "wal_crash j = new_journal (wj_table j)"

subsection \<open>Interleavings\<close>

datatype 'p wal_act = WCall "'p wal_write" | WTurn bool

fun wal_act_step :: "'p wal_act \<Rightarrow> 'p journal \<Rightarrow> 'p journal" where
  "wal_act_step (WCall w) j = snd (journal_write None w j)"
| "wal_act_step (WTurn ok) j = worker_step ok j"

text \<open>
  \<open>flush\<close> polls the length of the queue until it is 0, a shutdown is signalled or the deadline has passed,
  where the rounds end. A round is what other callers and the worker do between two polls, and whether
  the wait saw the shutdown.
\<close>

record 'p flush_round =
  fr_acts :: "'p wal_act list"
  fr_shutdown :: bool

fun wal_flush :: "'p flush_round list \<Rightarrow> 'p journal \<Rightarrow> 'p journal" where
  "wal_flush [] j = j"
| "wal_flush (r # rs) j =
     (if wj_queue j = [] then j
      else let j' = fold wal_act_step (fr_acts r) j in if fr_shutdown r then j' else wal_flush rs j')"

text \<open>The statements called for in an interleaving, in order, and that its queue never fills up.\<close>

fun calls :: "'p wal_act list \<Rightarrow> 'p wal_write list" where
  "calls [] = []"
| "calls (WCall w # as) = w # calls as"
| "calls (WTurn ok # as) = calls as"

fun never_full :: "'p wal_act list \<Rightarrow> 'p journal \<Rightarrow> bool" where
  "never_full [] j = True"
| "never_full (a # as) j =
     ((case a of WCall _ \<Rightarrow> length (wj_queue j) < wj_max j | WTurn _ \<Rightarrow> True) \<and> never_full as (wal_act_step a j))"

text \<open>The abstract journal: all statements take effect in the order of the calls.\<close>

definition wal_spec :: "'p wal_write list \<Rightarrow> 'p wal_row list \<Rightarrow> 'p wal_row list" where
  "wal_spec ws t = fold apply_write ws t"

text \<open>What the worker holds, and what waits in the queue.\<close>

definition in_hand :: "'p journal \<Rightarrow> 'p wal_write list" where
  "in_hand j = (case wj_worker j of WkTaken w \<Rightarrow> [w] | _ \<Rightarrow> [])"

definition waiting :: "'p journal \<Rightarrow> 'p wal_write list" where
  "waiting j = map the (filter (\<lambda>x. x \<noteq> None) (wj_queue j))"

section \<open>Lemmas\<close>

subsection \<open>The order of the statements\<close>

text \<open>
  \<open>journal_inv t ws j\<close>: of the statements \<open>ws\<close> called for so far, the worker is done with \<open>hs\<close>, of which it
  executed \<open>ks\<close>, and counted an error for each of the others.
\<close>

definition journal_inv :: "'p wal_row list \<Rightarrow> 'p wal_write list \<Rightarrow> 'p journal \<Rightarrow> bool" where
  "journal_inv t ws j \<longleftrightarrow>
     (\<exists>hs ks. ws = hs @ in_hand j @ waiting j \<and> subseq ks hs \<and> wal_view j = wal_spec ks t \<and>
        int (length hs) \<le> int (length ks) + wj_errors j) \<and>
     \<not> wj_stopped j \<and> \<not> wj_closed j \<and> None \<notin> set (wj_queue j) \<and> wj_worker j \<noteq> WkEnded \<and>
     (wj_errors j = 0 \<longrightarrow> wj_worker j \<noteq> WkExecuted \<longrightarrow> wj_tx j = []) \<and> 0 \<le> wj_errors j"

lemma journal_invI:
  assumes "ws = hs @ in_hand j @ waiting j" "subseq ks hs" "wal_view j = wal_spec ks t" "int (length hs) \<le> int (length ks) + wj_errors j"
    and "\<not> wj_stopped j \<and> \<not> wj_closed j \<and> None \<notin> set (wj_queue j) \<and> wj_worker j \<noteq> WkEnded \<and>
      (wj_errors j = 0 \<longrightarrow> wj_worker j \<noteq> WkExecuted \<longrightarrow> wj_tx j = []) \<and> 0 \<le> wj_errors j"
  shows "journal_inv t ws j"
  using assms unfolding journal_inv_def by blast

lemma inv_new: "journal_inv t [] (new_journal t)"
  by (rule journal_invI [of _ "[]" _ "[]"]) (simp_all add: new_journal_def in_hand_def waiting_def wal_view_def wal_spec_def)

lemma inv_call:
  assumes "journal_inv t ws j" "length (wj_queue j) < wj_max j"
  shows "journal_inv t (ws @ [w]) (wal_act_step (WCall w) j)"
proof -
  have s: "\<not> wj_stopped j" using assms(1) by (simp add: journal_inv_def)
  then have e: "wal_act_step (WCall w) j = j\<lparr>wj_queue := wj_queue j @ [Some w]\<rparr>"
    using assms(2) by (simp add: journal_write_def writer_submit_def)
  obtain hs ks where I: "ws = hs @ in_hand j @ waiting j" "subseq ks hs" "wal_view j = wal_spec ks t"
      "int (length hs) \<le> int (length ks) + wj_errors j"
    using assms(1) unfolding journal_inv_def by blast
  show ?thesis unfolding e
    by (rule journal_invI [of _ hs _ ks]) (use I assms(1) in \<open>simp_all add: journal_inv_def in_hand_def waiting_def wal_view_def\<close>)
qed

lemma inv_turn:
  assumes "journal_inv t ws j"
  shows "journal_inv t ws (wal_act_step (WTurn ok) j)"
proof -
  obtain hs ks where I: "ws = hs @ in_hand j @ waiting j" "subseq ks hs" "wal_view j = wal_spec ks t"
      "int (length hs) \<le> int (length ks) + wj_errors j"
    and R: "\<not> wj_stopped j" "\<not> wj_closed j" "None \<notin> set (wj_queue j)" "wj_worker j \<noteq> WkEnded"
      "wj_errors j = 0 \<longrightarrow> wj_worker j \<noteq> WkExecuted \<longrightarrow> wj_tx j = []" "0 \<le> wj_errors j"
    using assms unfolding journal_inv_def by blast
  show ?thesis
  proof (cases "wj_worker j")
    case WkIdle
    show ?thesis
    proof (cases "wj_queue j")
      case Nil
      then show ?thesis using assms WkIdle R(1) by (simp add: worker_step_def)
    next
      case (Cons x q)
      then obtain w where q: "wj_queue j = Some w # q" using R(3) by (cases x) auto
      then have e: "wal_act_step (WTurn ok) j = j\<lparr>wj_queue := q, wj_worker := WkTaken w\<rparr>" using WkIdle by (simp add: worker_step_def)
      show ?thesis unfolding e
        by (rule journal_invI [of _ hs _ ks]) (use I R q WkIdle in \<open>simp_all add: in_hand_def waiting_def wal_view_def\<close>)
    qed
  next
    case (WkTaken w)
    have n: "ws = (hs @ [w]) @ waiting j" using I(1) WkTaken by (simp add: in_hand_def)
    show ?thesis
    proof (cases ok)
      case True
      have "subseq (ks @ [w]) (hs @ [w])" using I(2) by (simp add: list_emb_append_mono)
      then show ?thesis
        by (intro journal_invI [of _ "hs @ [w]" _ "ks @ [w]"])
          (use n I(3,4) R True WkTaken in \<open>simp_all add: worker_step_def in_hand_def waiting_def wal_view_def wal_spec_def\<close>)
    next
      case False
      have "subseq ks (hs @ [w])" using I(2) by (rule list_emb_prefix)
      then show ?thesis
        by (intro journal_invI [of _ "hs @ [w]" _ ks])
          (use n I(3,4) R False WkTaken in \<open>simp_all add: worker_step_def in_hand_def waiting_def wal_view_def wal_spec_def\<close>)
    qed
  next
    case WkExecuted
    then show ?thesis
      by (intro journal_invI [of _ hs _ ks]) (use I R in \<open>simp_all add: worker_step_def in_hand_def waiting_def wal_view_def\<close>)
  qed (use R(4) in simp)
qed

lemma inv_run:
  "journal_inv t ws j \<Longrightarrow> never_full as j \<Longrightarrow> journal_inv t (ws @ calls as) (fold wal_act_step as j)"
proof (induction as arbitrary: j ws)
  case (Cons a as)
  then show ?case
  proof (cases a)
    case (WCall w)
    then have "journal_inv t (ws @ [w]) (wal_act_step a j)" using Cons.prems inv_call by auto
    from Cons.IH [OF this] Cons.prems(2) WCall show ?thesis by simp
  next
    case (WTurn ok)
    then have "journal_inv t ws (wal_act_step a j)" using Cons.prems inv_turn by auto
    from Cons.IH [OF this] Cons.prems(2) WTurn show ?thesis by simp
  qed
qed simp

text \<open>A flush is a part of the steps of its rounds.\<close>

lemma flush_acts: "\<exists>n. wal_flush rs j = fold wal_act_step (concat (map fr_acts (take n rs))) j"
proof (induction rs arbitrary: j)
  case (Cons r rs)
  obtain n where n: "wal_flush rs (fold wal_act_step (fr_acts r) j) = fold wal_act_step (concat (map fr_acts (take n rs))) (fold wal_act_step (fr_acts r) j)"
    using Cons.IH by blast
  show ?case
  proof (cases "wj_queue j = []")
    case True
    then show ?thesis by (intro exI [of _ 0]) simp
  next
    case False
    then show ?thesis using n by (cases "fr_shutdown r") (auto simp: Let_def intro: exI [of _ 1] exI [of _ "Suc n"])
  qed
qed simp

lemma never_full_append: "never_full (as @ bs) j \<longleftrightarrow> never_full as j \<and> never_full bs (fold wal_act_step as j)"
  by (induction as arbitrary: j) auto

subsection \<open>A worker that succeeds\<close>

lemma turn_three:
  assumes "wj_worker j = WkIdle" "wj_tx j = []" "\<not> wj_closed j" "wj_queue j = Some w # q"
  shows "worker_step True (worker_step True (worker_step True j)) =
    j\<lparr>wj_queue := q, wj_table := apply_write w (wj_table j), wj_written := wj_written j + 1\<rparr>"
  using assms by (cases j) (simp add: worker_step_def)

lemma drain_all:
  assumes "wj_worker j = WkIdle" "wj_tx j = []" "\<not> wj_closed j" "wj_queue j = map Some ws"
  shows "wj_table ((worker_step True ^^ (3 * length ws)) j) = fold apply_write ws (wj_table j) \<and> wj_tx ((worker_step True ^^ (3 * length ws)) j) = []"
  using assms
proof (induction ws arbitrary: j)
  case (Cons w ws)
  let ?j = "j\<lparr>wj_queue := map Some ws, wj_table := apply_write w (wj_table j), wj_written := wj_written j + 1\<rparr>"
  have "(worker_step True ^^ (3 * length (w # ws))) j = (worker_step True ^^ (3 * length ws)) ((worker_step True ^^ 3) j)"
    by (metis comp_apply funpow_add add.commute mult_Suc_right length_Cons)
  also have "(worker_step True ^^ 3) j = ?j"
    using turn_three [of j w "map Some ws"] Cons.prems by (simp add: numeral_3_eq_3)
  finally show ?case using Cons.IH [of ?j] Cons.prems by simp
qed simp

text \<open>After \<open>stop\<close> has closed the connection nothing that is left in the queue reaches the table.\<close>

lemma closed_worker_writes_nothing: "wj_closed j \<Longrightarrow> wj_table (fold worker_step oks j) = wj_table j"
proof (induction oks arbitrary: j)
  case (Cons ok oks)
  have "wj_table (worker_step ok j) = wj_table j \<and> wj_closed (worker_step ok j)"
    using Cons.prems by (auto simp: worker_step_def split: worker.split list.split option.split)
  with Cons.IH [of "worker_step ok j"] show ?case by simp
qed simp

lemma tbl_ok_write: "tbl_ok wr_id t \<Longrightarrow> tbl_ok wr_id (apply_write w t)"
  by (cases w) (auto intro!: tbl_ok_update)

lemma write_get:
  "tbl_get wr_id i (apply_write w t) =
     (case w of
        WInsert r \<Rightarrow> if wr_id r = i then Some r else tbl_get wr_id i t
      | WCommit now k \<Rightarrow> map_option (\<lambda>x. if write_hits w x then x\<lparr>wr_status := ist_committed, wr_committed_at := Some now\<rparr> else x) (tbl_get wr_id i t)
      | WFail now err k \<Rightarrow> map_option (\<lambda>x. if write_hits w x then x\<lparr>wr_status := ist_failed, wr_failed_at := Some now, wr_error := Some err\<rparr> else x) (tbl_get wr_id i t)
      | WSettle k \<Rightarrow> map_option (\<lambda>x. if write_hits w x then x\<lparr>wr_status := ist_settled\<rparr> else x) (tbl_get wr_id i t))"
  by (cases w) (simp_all add: tbl_get_replace tbl_get_update)

section \<open>Properties\<close>

text \<open>
  C38: The journal keeps the order of the calls. Take any interleaving of write calls and worker steps, which
  may fail, in which the queue never fills up, followed by a flush, during which more of them happen. The
  statements called for until the flush returns are those the worker is done with, the one it has taken
  and those in the queue, in this order; what the readers see is the effect of executing the first ones in
  the order of the calls, less at most one for each error the writer counted. Without errors, with an
  empty queue and a waiting worker, the committed table is the effect of all calls.
\<close>

theorem journal_order_preserved:
  assumes "never_full (as @ concat (map fr_acts rs)) (new_journal t)"
    and "j = wal_flush rs (fold wal_act_step as (new_journal t))"
  shows "\<exists>n hs ks. calls (as @ concat (map fr_acts (take n rs))) = hs @ in_hand j @ waiting j \<and> length (in_hand j) \<le> 1 \<and>
    subseq ks hs \<and> wal_view j = wal_spec ks t \<and> int (length hs) \<le> int (length ks) + wj_errors j \<and>
    (wj_errors j = 0 \<and> wj_queue j = [] \<and> wj_worker j = WkIdle \<longrightarrow>
       wj_table j = wal_spec (calls (as @ concat (map fr_acts (take n rs)))) t)"
proof -
  obtain n where n: "j = fold wal_act_step (as @ concat (map fr_acts (take n rs))) (new_journal t)"
    using flush_acts [of rs "fold wal_act_step as (new_journal t)"] assms(2) by auto
  let ?ws = "calls (as @ concat (map fr_acts (take n rs)))"
  have "concat (map fr_acts rs) = concat (map fr_acts (take n rs)) @ concat (map fr_acts (drop n rs))"
    by (metis append_take_drop_id concat_append map_append)
  then have "never_full (as @ concat (map fr_acts (take n rs))) (new_journal t)"
    using assms(1) never_full_append by (metis append.assoc)
  from inv_run [OF inv_new this] have "journal_inv t ?ws j" by (simp add: n)
  then obtain hs ks where i: "?ws = hs @ in_hand j @ waiting j" "subseq ks hs" "wal_view j = wal_spec ks t"
      "int (length hs) \<le> int (length ks) + wj_errors j" and tx: "wj_errors j = 0 \<longrightarrow> wj_worker j \<noteq> WkExecuted \<longrightarrow> wj_tx j = []"
    unfolding journal_inv_def by blast
  have "wj_table j = wal_spec ?ws t" if "wj_errors j = 0" "wj_queue j = []" "wj_worker j = WkIdle"
  proof -
    have "length hs \<le> length ks" using i(4) that(1) by simp
    then have "ks = hs" using i(2) by (metis list_emb_length order_antisym subseq_same_length)
    with i that tx show ?thesis by (simp add: in_hand_def waiting_def wal_view_def)
  qed
  moreover have "length (in_hand j) \<le> 1" by (simp add: in_hand_def split: worker.split)
  ultimately show ?thesis using i by blast
qed

definition sample_row :: "string \<Rightarrow> int wal_row" where
  "sample_row i = \<lparr>wr_id = i, wr_action = ''PLACE'', wr_params = 0, wr_risk_verdict = None, wr_config_hash = [],
     wr_correlation = ''c'', wr_status = ist_pending, wr_created_at = 0, wr_committed_at = None, wr_failed_at = None,
     wr_error = None\<rparr>"

theorem journal_order_preserved_witness:
  "\<exists>j. j = wal_flush [\<lparr>fr_acts = [WTurn True, WTurn True, WTurn True], fr_shutdown = False\<rparr>]
       (fold wal_act_step [WCall (WInsert (sample_row ''i'')), WTurn True, WTurn True, WTurn True, WCall (WCommit 1 ''i'')] (new_journal [])) \<and>
     map wr_status (wj_table j) = [''COMMITTED'']"
proof -
  let ?as = "[WCall (WInsert (sample_row ''i'')), WTurn True, WTurn True, WTurn True, WCall (WCommit 1 ''i'')]"
  let ?rs = "[\<lparr>fr_acts = [WTurn True, WTurn True, WTurn True], fr_shutdown = False\<rparr>]"
  let ?j = "wal_flush ?rs (fold wal_act_step ?as (new_journal []))"
  note ex = new_journal_def journal_write_def writer_submit_def worker_step_def sample_row_def
  have nf: "never_full (?as @ concat (map fr_acts ?rs)) (new_journal [])" by (simp add: ex)
  define j where "j = ?j"
  have "wj_errors j = 0" "wj_queue j = []" "wj_worker j = WkIdle" by (simp_all add: j_def ex)
  moreover have "calls (?as @ concat (map fr_acts (take n ?rs))) = [WInsert (sample_row ''i''), WCommit 1 ''i'']" for n
    by (cases n) simp_all
  moreover obtain n where "wj_errors j = 0 \<and> wj_queue j = [] \<and> wj_worker j = WkIdle \<longrightarrow>
      wj_table j = wal_spec (calls (?as @ concat (map fr_acts (take n ?rs)))) []"
    using journal_order_preserved [OF nf j_def] by (elim exE conjE) (rule that, assumption)
  ultimately have "wj_table j = wal_spec [WInsert (sample_row ''i''), WCommit 1 ''i''] []" by (simp only: simp_thms)
  then have c: "map wr_status (wj_table j) = [''COMMITTED'']"
    by (simp add: wal_spec_def sample_row_def tbl_replace_def tbl_update_def)
  show ?thesis by (rule exI, rule conjI [OF j_def c])
qed

text \<open>
  A flush returns too early: it looks at the length of the queue, from which the worker has already taken
  the last statement, so it can return before that statement is executed, and a crash loses it.
\<close>

lemma flush_returns_early:
  assumes "wj_worker j = WkIdle" "wj_queue j = [Some w]"
  shows "wal_flush (r # rs) (worker_step True j) = worker_step True j \<and> in_hand (wal_flush (r # rs) (worker_step True j)) = [w] \<and>
    wj_table (wal_crash (wal_flush (r # rs) (worker_step True j))) = wj_table j"
  using assms by (simp add: worker_step_def in_hand_def wal_crash_def new_journal_def)

text \<open>
  A full queue loses a commit: when the statement that appends an intent is still the last one in a
  full queue, the commit of that intent is executed at once, before it, and changes nothing; after the
  worker has drained the queue the intent is \<open>PENDING\<close>.
\<close>

lemma full_queue_loses_commit:
  assumes "wj_queue j = map Some (q @ [WInsert (intent_row now uuid it)])" and "wj_max j \<le> length (wj_queue j)"
    and "wj_worker j = WkIdle" "wj_tx j = []" "\<not> wj_closed j"
  shows "map_option it_status (wal_get_intent (it_id it)
    ((worker_step True ^^ (3 * length (q @ [WInsert (intent_row now uuid it)]))) (snd (wal_commit None now' (it_id it) j)))) = Some ''PENDING''"
proof -
  let ?ws = "q @ [WInsert (intent_row now uuid it)]" and ?w = "WCommit now' (it_id it)"
  have "snd (wal_commit None now' (it_id it) j) = j\<lparr>wj_table := apply_write ?w (wj_table j),
      wj_total_changes := wj_total_changes j + rows_changed ?w (wj_table j)\<rparr>" (is "_ = ?j")
    using assms(2) by (simp add: wal_commit_def journal_write_def writer_submit_def fallback_execute_def)
  moreover have "wal_view ((worker_step True ^^ (3 * length ?ws)) ?j) = fold apply_write ?ws (apply_write ?w (wj_table j))"
    using drain_all [of ?j ?ws] assms(1,3-5) unfolding wal_view_def by simp
  ultimately show ?thesis
    by (simp add: wal_get_intent_def tbl_get_replace intent_row_def row_to_intent_def)
qed

definition sample_intent :: "string \<Rightarrow> int intent" where
  "sample_intent i = \<lparr>it_id = i, it_action = ''PLACE'', it_params = 0, it_risk_verdict = None, it_config_hash = [],
     it_correlation = ''c'', it_status = ist_pending, it_created_at = None, it_committed_at = None, it_failed_at = None,
     it_error = []\<rparr>"

text \<open>
  An appended intent is not durable yet: after \<open>append\<close> has returned on a queue with room, a crash
  before the writer's turn leaves no trace of a new intent, and a read before that turn does not see it.
\<close>

lemma append_not_yet_durable:
  assumes "tbl_get wr_id (it_id it) (wj_table j) = None" and "wj_tx j = []" and "\<not> wj_stopped j" and "length (wj_queue j) < wj_max j"
  shows "fst (wal_append None now uuid it j) = None
    \<and> wal_get_intent (it_id it) (snd (wal_append None now uuid it j)) = None
    \<and> wal_get_intent (it_id it) (wal_crash (snd (wal_append None now uuid it j))) = None"
  using assms
  by (simp add: wal_append_def journal_write_def writer_submit_def wal_get_intent_def wal_view_def wal_crash_def new_journal_def)

end
