(* ===== verification/Py_Numbers.thy ===== *)
theory Py_Numbers
  imports Prelude
begin

text \<open>
  Python's operations on numbers that the sizing, pricing and reporting code uses: \<open>int(x)\<close>,
  \<open>round(x, k)\<close>, fixed point formatting, with the bounds the clients need.
\<close>

section \<open>Definitions\<close>

text \<open>\<open>int(x)\<close> of a float: towards zero.\<close>

definition py_trunc :: "real \<Rightarrow> int" where
  "py_trunc x = (if 0 \<le> x then \<lfloor>x\<rfloor> else \<lceil>x\<rceil>)"

text \<open>\<open>round(x, k)\<close>, on reals.\<close>

definition round_to :: "nat \<Rightarrow> real \<Rightarrow> real" where
  "round_to k x = of_int (round_half_even (x * 10 ^ k)) / 10 ^ k"

text \<open>\<open>f"{x:.kf}"\<close> for positive \<open>k\<close>, \<open>f"{x:+.kf}"\<close> and \<open>f"{x:.k%}"\<close>\<close>

definition pad_zeros :: "nat \<Rightarrow> string \<Rightarrow> string" where
  "pad_zeros k s = replicate (k - length s) (CHR ''0'') @ s"

definition fmt_f :: "nat \<Rightarrow> real \<Rightarrow> string" where
  "fmt_f k x =
     (let n = nat (round_half_even (\<bar>x\<bar> * 10 ^ k))
      in (if x < 0 then ''-'' else []) @ show_nat (n div 10 ^ k) @ ''.'' @ pad_zeros k (show_nat (n mod 10 ^ k)))"

definition fmt_signed :: "nat \<Rightarrow> real \<Rightarrow> string" where
  "fmt_signed k x = (if x < 0 then [] else ''+'') @ fmt_f k x"

definition fmt_pct :: "nat \<Rightarrow> real \<Rightarrow> string" where
  "fmt_pct k x = fmt_f k (x * 100) @ ''%''"

section \<open>Lemmas\<close>

lemma py_trunc_of_int [simp]: "py_trunc (of_int n) = n"
  by (simp add: py_trunc_def)

lemma py_trunc_le: "0 \<le> x \<Longrightarrow> of_int (py_trunc x) \<le> x"
  by (simp add: py_trunc_def)

lemma py_trunc_nonneg: "0 \<le> x \<Longrightarrow> 0 \<le> py_trunc x"
  by (simp add: py_trunc_def)

lemma py_trunc_le_int: "x \<le> of_int n \<Longrightarrow> py_trunc x \<le> n"
  by (simp add: py_trunc_def floor_le_iff ceiling_le_iff)

lemma le_py_trunc_int: "of_int n \<le> x \<Longrightarrow> n \<le> py_trunc x"
  by (auto simp: py_trunc_def le_floor_iff le_ceiling_iff)

lemma round_half_even_le: "x \<le> of_int n \<Longrightarrow> round_half_even x \<le> n"
proof -
  assume x: "x \<le> of_int n"
  then have "\<lfloor>x\<rfloor> \<le> n" by (simp add: floor_le_iff)
  moreover have "\<lfloor>x\<rfloor> = n \<Longrightarrow> x - of_int \<lfloor>x\<rfloor> < 1 / 2"
    using x of_int_floor_le [of x] by linarith
  ultimately show ?thesis by (cases "\<lfloor>x\<rfloor> = n") (auto simp: round_half_even_def Let_def)
qed

lemma le_round_half_even: "of_int n \<le> x \<Longrightarrow> n \<le> round_half_even x"
proof -
  assume "of_int n \<le> x"
  then have "n \<le> \<lfloor>x\<rfloor>" by (simp add: le_floor_iff)
  then show ?thesis by (auto simp: round_half_even_def Let_def)
qed

lemma round_half_even_of_int [simp]: "round_half_even (of_int n) = n"
  using round_half_even_le [of "of_int n" n] le_round_half_even [of n "of_int n"] by simp

lemma round_half_even_near: "\<bar>of_int (round_half_even x) - x\<bar> \<le> 1 / 2"
  using floor_correct [of x] by (auto simp: round_half_even_def Let_def)

lemma round_to_le: "x \<le> of_int n \<Longrightarrow> round_to k x \<le> of_int n"
proof -
  assume "x \<le> of_int n"
  then have "x * 10 ^ k \<le> of_int (n * 10 ^ k)" by simp
  then have "round_half_even (x * 10 ^ k) \<le> n * 10 ^ k" by (rule round_half_even_le)
  then have "real_of_int (round_half_even (x * 10 ^ k)) \<le> of_int (n * 10 ^ k)" by (rule of_int_le_iff [THEN iffD2])
  then show ?thesis by (simp add: round_to_def divide_le_eq)
qed

lemma le_round_to: "of_int n \<le> x \<Longrightarrow> of_int n \<le> round_to k x"
proof -
  assume "of_int n \<le> x"
  then have "of_int (n * 10 ^ k) \<le> x * 10 ^ k" by simp
  then have "n * 10 ^ k \<le> round_half_even (x * 10 ^ k)" by (rule le_round_half_even)
  then have "real_of_int (n * 10 ^ k) \<le> of_int (round_half_even (x * 10 ^ k))" by (rule of_int_le_iff [THEN iffD2])
  then show ?thesis by (simp add: round_to_def le_divide_eq)
qed

lemmas round_to_nonneg = le_round_to [of 0, simplified]
lemmas round_to_le_1 = round_to_le [of _ 1, simplified]
lemmas le_round_to_1 = le_round_to [of 1, simplified]

lemma round_to_abs: "\<bar>x\<bar> \<le> of_int n \<Longrightarrow> \<bar>round_to k x\<bar> \<le> of_int n"
  using round_to_le [of x n k] le_round_to [of "- n" x k] by (simp add: abs_le_iff)

lemma round_to_near: "\<bar>round_to k x - x\<bar> \<le> 1 / (2 * 10 ^ k)"
proof -
  have "round_to k x - x = (of_int (round_half_even (x * 10 ^ k)) - x * 10 ^ k) / 10 ^ k"
    by (simp add: round_to_def diff_divide_distrib)
  then have "\<bar>round_to k x - x\<bar> = \<bar>of_int (round_half_even (x * 10 ^ k)) - x * 10 ^ k\<bar> / 10 ^ k"
    by (simp add: abs_divide)
  also have "\<dots> \<le> (1 / 2) / 10 ^ k"
    by (intro divide_right_mono round_half_even_near) simp
  finally show ?thesis by simp
qed

lemma round_half_even_mono: "x \<le> y \<Longrightarrow> round_half_even x \<le> round_half_even y"
proof (cases "\<lfloor>x\<rfloor> = \<lfloor>y\<rfloor>")
  case True
  assume "x \<le> y"
  then show ?thesis using True by (auto simp: round_half_even_def Let_def)
next
  case False
  assume "x \<le> y"
  then have "\<lfloor>x\<rfloor> \<le> \<lfloor>y\<rfloor>" by (rule floor_mono)
  with False have "\<lfloor>x\<rfloor> + 1 \<le> \<lfloor>y\<rfloor>" by simp
  moreover have "round_half_even x \<le> \<lfloor>x\<rfloor> + 1" "\<lfloor>y\<rfloor> \<le> round_half_even y" by (auto simp: round_half_even_def Let_def)
  ultimately show ?thesis by simp
qed

lemma round_to_mono: "x \<le> y \<Longrightarrow> round_to k x \<le> round_to k y"
  by (simp add: round_to_def divide_right_mono round_half_even_mono)

lemma py_trunc_mono: "0 \<le> x \<Longrightarrow> x \<le> y \<Longrightarrow> py_trunc x \<le> py_trunc y"
  by (simp add: py_trunc_def floor_mono)

end
