(* ===== verification/Py_Values.thy ===== *)
theory Py_Values
  imports Py_Numbers
begin

text \<open>
  Scalar values of a broker's JSON answers, as Python sees them: printing, truth, comparison with
  zero, and the conversions \<open>int()\<close> and \<open>float()\<close> with the exceptions they raise.
\<close>

section \<open>Definitions\<close>

text \<open>A float is a real or one of the special values; \<open>JFloat x r\<close> is a float printed as \<open>r\<close>.\<close>

datatype pyfloat = Fin real | PosInf | NegInf | NaN

datatype jval = JNull | JBool bool | JInt int | JFloat pyfloat string | JStr string

fun py_str :: "jval \<Rightarrow> string" where
  "py_str JNull = ''None''"
| "py_str (JBool b) = (if b then ''True'' else ''False'')"
| "py_str (JInt i) = show_int i"
| "py_str (JFloat x r) = r"
| "py_str (JStr s) = s"

text \<open>\<open>v != 0\<close>\<close>

fun nonzero :: "jval \<Rightarrow> bool" where
  "nonzero (JInt i) = (i \<noteq> 0)"
| "nonzero (JBool b) = b"
| "nonzero (JFloat x r) = (x \<noteq> Fin 0)"
| "nonzero _ = True"

text \<open>\<open>bool(v)\<close>\<close>

fun jval_true :: "jval \<Rightarrow> bool" where
  "jval_true JNull = False"
| "jval_true (JBool b) = b"
| "jval_true (JInt i) = (i \<noteq> 0)"
| "jval_true (JFloat x r) = (x \<noteq> Fin 0)"
| "jval_true (JStr s) = (s \<noteq> [])"

text \<open>The numerals \<open>int(s)\<close> and \<open>float(s)\<close> accept: white space around, a sign, digits with single
  underscores between them.\<close>

definition is_digit :: "char \<Rightarrow> bool" where
  "is_digit c \<longleftrightarrow> 48 \<le> (of_char c :: nat) \<and> (of_char c :: nat) \<le> 57"

definition is_space :: "char \<Rightarrow> bool" where
  "is_space c \<longleftrightarrow> (of_char c :: nat) \<in> {9, 10, 11, 12, 13, 28, 29, 30, 31, 32}"

definition str_strip :: "string \<Rightarrow> string" where
  "str_strip s = rev (dropWhile is_space (rev (dropWhile is_space s)))"

fun scan_digits :: "string \<Rightarrow> string \<times> string" where
  "scan_digits [] = ([], [])"
| "scan_digits (c # cs) =
     (if \<not> is_digit c then ([], c # cs)
      else case cs of
        u # d # ds \<Rightarrow>
          if u = CHR ''_'' \<and> is_digit d then let (a, r) = scan_digits (d # ds) in (c # a, r)
          else let (a, r) = scan_digits cs in (c # a, r)
      | _ \<Rightarrow> let (a, r) = scan_digits cs in (c # a, r))"

definition digits_val :: "string \<Rightarrow> int" where
  "digits_val ds = foldl (\<lambda>n c. 10 * n + (int (of_char c) - 48)) 0 ds"

fun scan_sign :: "string \<Rightarrow> bool \<times> string" where
  "scan_sign [] = (False, [])"
| "scan_sign (c # cs) = (if c = CHR ''-'' then (True, cs) else if c = CHR ''+'' then (False, cs) else (False, c # cs))"

definition int_of_str :: "string \<Rightarrow> int option" where
  "int_of_str s =
     (let (neg, u) = scan_sign (str_strip s); (ds, r) = scan_digits u
      in if ds = [] \<or> r \<noteq> [] \<or> length ds > 4300 then None
         else Some (if neg then - digits_val ds else digits_val ds))"

text \<open>The value of a decimal literal; rounding to a double (and overflow) is not modelled.\<close>

definition scan_exponent :: "string \<Rightarrow> int option" where
  "scan_exponent r =
     (case r of [] \<Rightarrow> Some 0
      | c # cs \<Rightarrow>
          if c = CHR ''e'' \<or> c = CHR ''E''
          then (let (neg, u) = scan_sign cs; (ds, r') = scan_digits u
                in if ds = [] \<or> r' \<noteq> [] then None else Some (if neg then - digits_val ds else digits_val ds))
          else None)"

definition float_of_str :: "string \<Rightarrow> pyfloat option" where
  "float_of_str s =
     (let (neg, u) = scan_sign (str_strip s); l = str_lower u
      in if l = ''inf'' \<or> l = ''infinity'' then Some (if neg then NegInf else PosInf)
         else if l = ''nan'' then Some NaN
         else let (a, r1) = scan_digits u;
                  (b, r2) = (case r1 of c # cs \<Rightarrow> if c = CHR ''.'' then scan_digits cs else ([], r1) | [] \<Rightarrow> ([], []))
              in if a = [] \<and> b = [] then None
                 else case scan_exponent r2 of
                     None \<Rightarrow> None
                   | Some e \<Rightarrow>
                       let m = real_of_int (digits_val (a @ b)); k = e - int (length b);
                           x = (if 0 \<le> k then m * 10 ^ nat k else m / 10 ^ nat (- k))
                       in Some (Fin (if neg then - x else x)))"

text \<open>\<open>int(v)\<close> and \<open>float(v)\<close>\<close>

fun py_int :: "jval \<Rightarrow> exn + int" where
  "py_int JNull = Inl (Exn TypeError ''int() argument must be a string or a number'')"
| "py_int (JBool b) = Inr (if b then 1 else 0)"
| "py_int (JInt i) = Inr i"
| "py_int (JFloat (Fin x) r) = Inr (if 0 \<le> x then \<lfloor>x\<rfloor> else \<lceil>x\<rceil>)"
| "py_int (JFloat NaN r) = Inl (Exn ValueError ''cannot convert float NaN to integer'')"
| "py_int (JFloat _ r) = Inl (Exn OverflowError ''cannot convert float infinity to integer'')"
| "py_int (JStr s) =
     (case int_of_str s of None \<Rightarrow> Inl (Exn ValueError ''invalid literal for int()'') | Some i \<Rightarrow> Inr i)"

fun py_float :: "jval \<Rightarrow> exn + pyfloat" where
  "py_float JNull = Inl (Exn TypeError ''float() argument must be a string or a real number'')"
| "py_float (JBool b) = Inr (Fin (if b then 1 else 0))"
| "py_float (JInt i) = Inr (Fin (of_int i))"
| "py_float (JFloat x r) = Inr x"
| "py_float (JStr s) =
     (case float_of_str s of None \<Rightarrow> Inl (Exn ValueError ''could not convert string to float'') | Some x \<Rightarrow> Inr x)"

type_synonym jdict = "(string, jval) dict"

text \<open>\<open>d.get(k, dflt)\<close>\<close>

definition jget :: "jdict \<Rightarrow> string \<Rightarrow> jval \<Rightarrow> jval" where
  "jget d k dflt = (case map_of d k of None \<Rightarrow> dflt | Some v \<Rightarrow> v)"

section \<open>Lemmas\<close>

lemma jget_simps [simp]:
  "jget [] k d = d"
  "jget ((a, v) # xs) k d = (if a = k then v else jget xs k d)"
  by (simp_all add: jget_def)

lemma py_float_raises: "py_float v = Inl e \<Longrightarrow> caught [ValueError, TypeError] e"
  by (cases v) (auto simp: exn_simps split: option.splits)

text \<open>Printing and reading an integer of at most 4300 digits is the identity.\<close>

lemma digit_char: "n < 10 \<Longrightarrow> is_digit (char_of (48 + n :: nat))"
  by (simp add: is_digit_def of_char_of)

lemma show_nat_digits: "list_all is_digit (show_nat n) \<and> show_nat n \<noteq> []"
proof (induction n rule: show_nat.induct)
  case (1 n)
  then show ?case by (subst (1 2) show_nat.simps) (auto simp: digit_char)
qed

lemma digits_val_append: "digits_val (ds @ [c]) = 10 * digits_val ds + (int (of_char c) - 48)"
  by (simp add: digits_val_def)

lemma digits_val_show_nat: "digits_val (show_nat n) = int n"
proof (induction n rule: show_nat.induct)
  case (1 n)
  show ?case
  proof (cases "n < 10")
    case True
    then show ?thesis by (subst show_nat.simps) (simp add: digits_val_def of_char_of)
  next
    case False
    with 1 have "digits_val (show_nat (n div 10)) = int (n div 10)" by simp
    moreover have "int (of_char (char_of (48 + n mod 10 :: nat) :: char)) = 48 + int (n mod 10)"
      by (simp add: of_char_of)
    ultimately show ?thesis
      using False by (subst show_nat.simps) (simp add: digits_val_append, presburger)
  qed
qed

lemma scan_all_digits: "list_all is_digit ds \<Longrightarrow> scan_digits ds = (ds, [])"
proof (induction ds rule: scan_digits.induct)
  case 1
  then show ?case by simp
next
  case (2 c cs)
  then show ?case
  proof (cases cs)
    case (Cons u ds)
    with 2 have "u \<noteq> CHR ''_''" by (auto simp: is_digit_def)
    with 2 Cons show ?thesis by (cases ds) auto
  qed simp
qed

lemma strip_no_space:
  assumes "s \<noteq> []" "\<not> is_space (hd s)" "\<not> is_space (last s)"
  shows "str_strip s = s"
proof -
  have d: "t \<noteq> [] \<Longrightarrow> \<not> is_space (hd t) \<Longrightarrow> dropWhile is_space t = t" for t by (cases t) auto
  from assms d [of s] d [of "rev s"] show ?thesis by (simp add: str_strip_def hd_rev)
qed

lemma digit_not_space: "is_digit c \<Longrightarrow> \<not> is_space c \<and> c \<noteq> CHR ''-'' \<and> c \<noteq> CHR ''+''"
  by (auto simp: is_digit_def is_space_def)

lemma int_of_str_show_int:
  assumes "length (show_nat (nat \<bar>i\<bar>)) \<le> 4300"
  shows "int_of_str (show_int i) = Some i"
proof -
  obtain c cs where s: "show_nat (nat \<bar>i\<bar>) = c # cs" and d: "list_all is_digit (c # cs)"
    using show_nat_digits [of "nat \<bar>i\<bar>"] by (cases "show_nat (nat \<bar>i\<bar>)") auto
  have v: "digits_val (c # cs) = \<bar>i\<bar>" using digits_val_show_nat [of "nat \<bar>i\<bar>"] s by simp
  have l: "\<not> is_space (last (c # cs))" using d digit_not_space
    by (metis last_in_set list.distinct(1) list_all_iff)
  have c: "\<not> is_space c" "c \<noteq> CHR ''-''" "c \<noteq> CHR ''+''" using d digit_not_space by auto
  show ?thesis
  proof (cases "i < 0")
    case True
    then have "show_int i = CHR ''-'' # c # cs" using s by (simp add: show_int_def)
    moreover have "str_strip (CHR ''-'' # c # cs) = CHR ''-'' # c # cs"
      by (rule strip_no_space) (use l in \<open>auto simp: is_space_def\<close>)
    ultimately show ?thesis using d v True s assms by (simp add: int_of_str_def scan_all_digits del: scan_digits.simps)
  next
    case False
    then have "show_int i = c # cs" using s by (simp add: show_int_def)
    moreover have "str_strip (c # cs) = c # cs"
      by (rule strip_no_space) (use l c in auto)
    ultimately show ?thesis using d v False s assms c by (simp add: int_of_str_def scan_all_digits del: scan_digits.simps)
  qed
qed

end
