(* ===== verification/Reconciliation.thy ===== *)
theory Reconciliation
  imports Py_Values
begin

text \<open>
  Reconciliation of the internal order table with the broker,
  \<open>core/execution/reconciliation/service.py\<close>.

  Broker orders and positions are dictionaries of scalars (\<open>jval\<close>), read with the fallback keys the
  code uses. What the broker adapter offers and answers is an argument: whether it has the method
  (\<open>hasattr\<close>), and the answer or the exception. Every database call has its own flag \<open>up\<close>: a failing
  call raises an exception of the classes the callers catch. The freeze callback is an argument \<open>cb\<close>
  that returns the exception it raises, if any; the calls it gets are recorded in the state.
  Fields of rows are read from the table, so \<open>order.get(k, d)\<close> on a row is the column.
\<close>

section \<open>Definitions\<close>

subsection \<open>Data\<close>

datatype recon_state =
  RS_CLEAN | RS_ORPHAN_POSITION | RS_STALE_ORDER | RS_QUANTITY_MISMATCH | RS_UNRECORDED_FILL | RS_AMBIGUOUS

fun rs_value :: "recon_state \<Rightarrow> string" where
  "rs_value RS_CLEAN = ''CLEAN''"
| "rs_value RS_ORPHAN_POSITION = ''ORPHAN_POSITION''"
| "rs_value RS_STALE_ORDER = ''STALE_ORDER''"
| "rs_value RS_QUANTITY_MISMATCH = ''QUANTITY_MISMATCH''"
| "rs_value RS_UNRECORDED_FILL = ''UNRECORDED_FILL''"
| "rs_value RS_AMBIGUOUS = ''AMBIGUOUS''"

datatype freeze_reason =
  FR_RECONCILIATION_FAILED | FR_ORPHAN_POSITIONS_DETECTED | FR_STALE_ORDERS_UNRESOLVED
| FR_QUANTITY_MISMATCH_UNRESOLVED | FR_BROKER_UNAVAILABLE

text \<open>The values an issue holds: none, a scalar, or the dictionary \<open>{filled_qty, price}\<close>.\<close>

datatype issue_value = IvNone | IvVal jval | IvFill jval jval

record recon_issue =
  ri_type :: recon_state
  ri_order_id :: "string option"
  ri_internal :: issue_value
  ri_broker :: issue_value
  ri_description :: string

record recon_result =
  rr_is_clean :: bool
  rr_issues :: "recon_issue list"
  rr_freeze_reason :: "freeze_reason option"
  rr_timestamp :: real
  rr_broker_positions :: nat
  rr_internal_orders :: nat
  rr_repaired :: nat

text \<open>A row of \<open>execution_orders\<close>; a NaN price is stored as NULL.\<close>

record exec_order =
  eo_order_id :: string
  eo_intent_id :: string
  eo_symbol :: string
  eo_direction :: string
  eo_quantity :: int
  eo_filled :: int
  eo_price :: "pyfloat option"
  eo_status :: string
  eo_broker_id :: "string option"
  eo_created_at :: real
  eo_updated_at :: real
  eo_key :: "string option"
  eo_reconciled :: bool
  eo_notes :: "string option"

record recon =
  rc_table :: "exec_order list"
  rc_auto_repair :: bool
  rc_frozen :: bool
  rc_reason :: "freeze_reason option"
  rc_last :: "recon_result option"
  rc_notified :: "(freeze_reason \<times> string) list"

text \<open>What the broker adapter offers. A dictionary answer has the keys \<open>data\<close> and \<open>orders\<close> or not,
  and the value under such a key is a list or null.\<close>

datatype book_answer =
    BookList "jdict list"
  | BookDict "jdict list option option" "jdict list option option"
  | BookOther
  | BookRaises exn

datatype positions_answer = PosList "jdict list" | PosNone | PosRaises exn

record broker_view =
  bv_order_book :: "book_answer option"
  bv_port_order_book :: "book_answer option"
  bv_positions :: "positions_answer option"
  bv_port_positions :: "positions_answer option"

subsection \<open>Freezing\<close>

definition new_recon :: "exec_order list \<Rightarrow> bool \<Rightarrow> recon" where
  "new_recon table auto =
     \<lparr> rc_table = table, rc_auto_repair = auto, rc_frozen = False, rc_reason = None, rc_last = None,
       rc_notified = [] \<rparr>"

definition is_frozen :: "recon \<Rightarrow> bool \<times> freeze_reason option" where
  "is_frozen s = (rc_frozen s, rc_reason s)"

definition unfreeze :: "recon \<Rightarrow> recon" where
  "unfreeze s = s\<lparr>rc_frozen := False, rc_reason := None\<rparr>"

type_synonym freeze_callback = "(freeze_reason \<Rightarrow> string \<Rightarrow> exn option) option"

definition freeze_trading :: "freeze_callback \<Rightarrow> freeze_reason \<Rightarrow> string \<Rightarrow> recon \<Rightarrow> exn option \<times> recon" where
  "freeze_trading cb reason details s =
     (let s1 = s\<lparr>rc_frozen := True, rc_reason := Some reason\<rparr>
      in case cb of
          None \<Rightarrow> (None, s1)
        | Some f \<Rightarrow>
            let s2 = s1\<lparr>rc_notified := rc_notified s1 @ [(reason, details)]\<rparr>
            in case f reason details of
                None \<Rightarrow> (None, s2)
              | Some e \<Rightarrow>
                  if caught [ValueError, TypeError, AttributeError, DatabaseError] e then (None, s2)
                  else (Some e, s2))"

subsection \<open>The order table\<close>

definition record_order ::
  "real \<Rightarrow> bool \<Rightarrow> string \<Rightarrow> string \<Rightarrow> string \<Rightarrow> string \<Rightarrow> int \<Rightarrow> string \<Rightarrow> string option \<Rightarrow> string option
     \<Rightarrow> recon \<Rightarrow> recon" where
  "record_order now up oid intent symb dir qty st bid key s =
     (if \<not> up then s
      else s\<lparr>rc_table := tbl_replace eo_order_id
               \<lparr> eo_order_id = oid, eo_intent_id = intent, eo_symbol = symb, eo_direction = dir,
                 eo_quantity = qty, eo_filled = 0, eo_price = Some (Fin 0), eo_status = st,
                 eo_broker_id = bid, eo_created_at = now, eo_updated_at = now, eo_key = key,
                 eo_reconciled = False, eo_notes = None \<rparr> (rc_table s)\<rparr>)"

definition sql_real :: "pyfloat \<Rightarrow> pyfloat option" where
  "sql_real x = (if x = NaN then None else Some x)"

definition update_order_fill :: "real \<Rightarrow> bool \<Rightarrow> string \<Rightarrow> int \<Rightarrow> pyfloat \<Rightarrow> string \<Rightarrow> recon \<Rightarrow> recon" where
  "update_order_fill now up oid filled price st s =
     (if \<not> up then s
      else s\<lparr>rc_table := tbl_update (\<lambda>r. eo_order_id r = oid)
               (\<lambda>r. r\<lparr>eo_filled := filled, eo_price := sql_real price, eo_status := st,
                      eo_updated_at := now, eo_reconciled := False\<rparr>) (rc_table s)\<rparr>)"

definition recon_terminal_states :: "string list" where
  "recon_terminal_states = [''FILLED'', ''CANCELLED'', ''REJECTED'', ''EXPIRED'', ''COMPLETE'']"

definition get_pending_orders :: "bool \<Rightarrow> recon \<Rightarrow> exec_order list" where
  "get_pending_orders up s =
     (if \<not> up then []
      else sort_key eo_created_at (filter (\<lambda>r. eo_status r \<notin> set recon_terminal_states) (rc_table s)))"

definition get_all_orders :: "bool \<Rightarrow> recon \<Rightarrow> exec_order list" where
  "get_all_orders up s = (if \<not> up then [] else sort_key eo_created_at (rc_table s))"

subsection \<open>Reading the broker\<close>

text \<open>The value of a broker call: a list, or null where the answer holds null.\<close>

definition book_value :: "book_answer \<Rightarrow> exn + jdict list option" where
  "book_value a =
     (case a of
        BookList os \<Rightarrow> Inr (Some os)
      | BookDict dat ords \<Rightarrow>
          Inr (case dat of Some v \<Rightarrow> v | None \<Rightarrow> (case ords of Some v \<Rightarrow> v | None \<Rightarrow> Some []))
      | BookOther \<Rightarrow> Inr (Some [])
      | BookRaises e \<Rightarrow>
          if caught [BrokerConnectionError, ConnectionError, OSError, ValueError] e then Inr (Some []) else Inl e)"

definition fetch_broker_orders :: "broker_view \<Rightarrow> exn + jdict list option" where
  "fetch_broker_orders b =
     (case bv_order_book b of
        Some a \<Rightarrow> book_value a
      | None \<Rightarrow> (case bv_port_order_book b of Some a \<Rightarrow> book_value a | None \<Rightarrow> Inr (Some [])))"

definition positions_value :: "positions_answer \<Rightarrow> exn + jdict list" where
  "positions_value a =
     (case a of
        PosList ps \<Rightarrow> Inr ps
      | PosNone \<Rightarrow> Inr []
      | PosRaises e \<Rightarrow>
          if caught [BrokerConnectionError, ConnectionError, OSError, ValueError] e then Inr [] else Inl e)"

definition fetch_broker_positions :: "broker_view \<Rightarrow> exn + jdict list" where
  "fetch_broker_positions b =
     (case bv_positions b of
        Some a \<Rightarrow> positions_value a
      | None \<Rightarrow> (case bv_port_positions b of Some a \<Rightarrow> positions_value a | None \<Rightarrow> Inr []))"

subsection \<open>Detection\<close>

definition broker_order_id :: "jdict \<Rightarrow> string" where
  "broker_order_id bo = py_str (jget bo ''orderid'' (jget bo ''order_id'' (JStr [])))"

definition broker_filled :: "jdict \<Rightarrow> jval" where
  "broker_filled bo = jget bo ''filledshares'' (jget bo ''filled_quantity'' (JInt 0))"

definition broker_price :: "jdict \<Rightarrow> jval" where
  "broker_price bo = jget bo ''averageprice'' (jget bo ''price'' (JInt 0))"

definition broker_status :: "jdict \<Rightarrow> string" where
  "broker_status bo = str_upper (py_str (jget bo ''orderstatus'' (jget bo ''status'' (JStr []))))"

definition detect_stale_orders :: "exec_order list \<Rightarrow> jdict list \<Rightarrow> recon_issue list" where
  "detect_stale_orders pending orders =
     (let ids = map broker_order_id orders
      in map (\<lambda>r. \<lparr> ri_type = RS_STALE_ORDER, ri_order_id = Some (eo_order_id r),
                     ri_internal = IvVal (JStr (eo_status r)), ri_broker = IvVal (JStr ''NOT_FOUND''),
                     ri_description = ''Order '' @ eo_order_id r @ '' (broker: '' @ the (eo_broker_id r)
                                      @ '') not found in broker'' \<rparr>)
           (filter (\<lambda>r. truthy (eo_broker_id r) \<and> the (eo_broker_id r) \<notin> set ids) pending))"

definition position_symbol :: "jdict \<Rightarrow> jval" where
  "position_symbol p = jget p ''symbol'' (jget p ''tradingsymbol'' (JStr []))"

definition position_qty :: "jdict \<Rightarrow> jval" where
  "position_qty p = jget p ''quantity'' (jget p ''net_quantity'' (JInt 0))"

definition detect_orphan_positions :: "jdict list \<Rightarrow> exec_order list \<Rightarrow> recon_issue list" where
  "detect_orphan_positions positions internal =
     (let symbols = map JStr (filter (\<lambda>x. x \<noteq> []) (map eo_symbol internal))
      in map (\<lambda>p. \<lparr> ri_type = RS_ORPHAN_POSITION, ri_order_id = None,
                     ri_internal = IvVal (JStr ''NO_ORDER''), ri_broker = IvVal (position_qty p),
                     ri_description = ''Orphan position: '' @ py_str (position_symbol p) @ '' x ''
                                      @ py_str (position_qty p) @ '' in broker but no internal order'' \<rparr>)
           (filter (\<lambda>p. nonzero (position_qty p) \<and> position_symbol p \<notin> set symbols) positions))"

definition internal_by_broker_id :: "exec_order list \<Rightarrow> (string, exec_order) dict" where
  "internal_by_broker_id internal =
     fold (\<lambda>r d. if truthy (eo_broker_id r) then dict_set (the (eo_broker_id r)) r d else d) internal []"

text \<open>The body of the mismatch loop, which may raise in \<open>int()\<close>.\<close>

definition check_quantity :: "(string, exec_order) dict \<Rightarrow> jdict \<Rightarrow> exn + recon_issue list" where
  "check_quantity d bo =
     (case map_of d (broker_order_id bo) of
        None \<Rightarrow> Inr []
      | Some r \<Rightarrow>
          (case py_int (broker_filled bo) of
             Inl e \<Rightarrow> Inl e
           | Inr q \<Rightarrow>
               if q = eo_filled r then Inr []
               else Inr [\<lparr> ri_type = RS_QUANTITY_MISMATCH, ri_order_id = Some (eo_order_id r),
                           ri_internal = IvVal (JInt (eo_filled r)), ri_broker = IvVal (broker_filled bo),
                           ri_description = ''Mismatch for '' @ broker_order_id bo @ '': internal=''
                              @ show_int (eo_filled r) @ '', broker='' @ py_str (broker_filled bo) \<rparr>]))"

definition detect_quantity_mismatches :: "jdict list \<Rightarrow> exec_order list \<Rightarrow> exn + recon_issue list" where
  "detect_quantity_mismatches orders internal =
     (case res_map (check_quantity (internal_by_broker_id internal)) orders of
        Inl e \<Rightarrow> Inl e | Inr iss \<Rightarrow> Inr (concat iss))"

definition broker_completed :: "jdict \<Rightarrow> bool" where
  "broker_completed bo \<longleftrightarrow> str_contains ''COMPLETE'' (broker_status bo) \<or> str_contains ''FILLED'' (broker_status bo)"

definition detect_unrecorded_fills :: "jdict list \<Rightarrow> exec_order list \<Rightarrow> recon_issue list" where
  "detect_unrecorded_fills orders internal =
     (let d = internal_by_broker_id internal
      in map (\<lambda>bo. \<lparr> ri_type = RS_UNRECORDED_FILL, ri_order_id = Some (broker_order_id bo),
                      ri_internal = IvVal (JStr ''NOT_FOUND''), ri_broker = IvFill (broker_filled bo) (broker_price bo),
                      ri_description = ''Fill in broker not recorded internally: '' @ broker_order_id bo
                         @ '' x '' @ py_str (broker_filled bo) @ '' @ '' @ py_str (broker_price bo) \<rparr>)
           (filter (\<lambda>bo. broker_completed bo \<and> map_of d (broker_order_id bo) = None) orders))"

definition ambiguous_types :: "recon_state list" where
  "ambiguous_types = [RS_AMBIGUOUS, RS_ORPHAN_POSITION, RS_QUANTITY_MISMATCH]"

definition detect_ambiguity :: "recon_issue list \<Rightarrow> bool" where
  "detect_ambiguity issues \<longleftrightarrow>
     length issues > 3 \<or> length (filter (\<lambda>i. ri_type i \<in> set ambiguous_types) issues) > 0"

definition determine_freeze_reason :: "recon_issue list \<Rightarrow> freeze_reason" where
  "determine_freeze_reason issues =
     (let types = map ri_type issues
      in if RS_ORPHAN_POSITION \<in> set types then FR_ORPHAN_POSITIONS_DETECTED
         else if RS_STALE_ORDER \<in> set types then FR_STALE_ORDERS_UNRESOLVED
         else if RS_QUANTITY_MISMATCH \<in> set types then FR_QUANTITY_MISMATCH_UNRESOLVED
         else FR_RECONCILIATION_FAILED)"

definition format_issues :: "recon_issue list \<Rightarrow> string" where
  "format_issues issues =
     (let header = ''Total issues: '' @ show_nat (length issues);
          lines = map (\<lambda>(i, x). ''  '' @ show_nat (Suc i) @ ''. '' @ rs_value (ri_type x) @ '': '' @ ri_description x)
                    (List.enumerate 0 (take 10 issues));
          more = (if length issues > 10 then [''  ... and '' @ show_nat (length issues - 10) @ '' more''] else [])
      in concat (header # map (\<lambda>l. CHR 0x0A # l) (lines @ more)))"

subsection \<open>Repair\<close>

text \<open>\<open>_mark_order_terminal\<close> lets a database error escape to its caller.\<close>

definition mark_order_terminal :: "real \<Rightarrow> bool \<Rightarrow> string option \<Rightarrow> string \<Rightarrow> recon \<Rightarrow> exn option \<times> recon" where
  "mark_order_terminal now up oid st s =
     (if \<not> up then (Some (Exn DatabaseError ''database unavailable''), s)
      else (None, s\<lparr>rc_table := tbl_update (\<lambda>r. Some (eo_order_id r) = oid)
              (\<lambda>r. r\<lparr>eo_status := st, eo_updated_at := now, eo_reconciled := True\<rparr>) (rc_table s)\<rparr>))"

fun iv_truthy :: "issue_value \<Rightarrow> bool" where
  "iv_truthy IvNone = False"
| "iv_truthy (IvVal v) = (v \<noteq> JNull \<and> v \<noteq> JStr [] \<and> nonzero v)"
| "iv_truthy (IvFill _ _) = True"

definition record_unrecorded_fill :: "real \<Rightarrow> bool \<Rightarrow> recon_issue \<Rightarrow> recon \<Rightarrow> exn option \<times> recon" where
  "record_unrecorded_fill now up issue s =
     (if \<not> truthy (ri_order_id issue) \<or> \<not> iv_truthy (ri_broker issue) then (None, s)
      else let (qty, price) = (case ri_broker issue of IvFill q p \<Rightarrow> (q, p) | _ \<Rightarrow> (JInt 0, JInt 0))
           in case py_int qty of
               Inl e \<Rightarrow> (Some e, s)
             | Inr q \<Rightarrow>
                 (case py_float price of
                    Inl e \<Rightarrow> (Some e, s)
                  | Inr p \<Rightarrow> (None, update_order_fill now up (the (ri_order_id issue)) q p ''FILLED'' s)))"

definition repair_catches :: "exn_class list" where
  "repair_catches = [DatabaseError, SqliteError, OSError, AttributeError]"

definition repair_issue ::
  "real \<Rightarrow> (recon_issue \<Rightarrow> bool) \<Rightarrow> recon_issue \<Rightarrow> nat \<times> recon \<Rightarrow> exn option \<times> nat \<times> recon" where
  "repair_issue now up issue ns =
     (let (n, s) = ns;
          attempt = (if ri_type issue = RS_STALE_ORDER
                     then Some (mark_order_terminal now (up issue) (ri_order_id issue) ''UNKNOWN_STALE'' s)
                     else if ri_type issue = RS_UNRECORDED_FILL
                     then Some (record_unrecorded_fill now (up issue) issue s)
                     else None)
      in case attempt of
          None \<Rightarrow> (None, n, s)
        | Some (None, s') \<Rightarrow> (None, n + 1, s')
        | Some (Some e, s') \<Rightarrow> if caught repair_catches e then (None, n, s') else (Some e, n, s'))"

definition auto_repair ::
  "real \<Rightarrow> (recon_issue \<Rightarrow> bool) \<Rightarrow> recon_issue list \<Rightarrow> recon \<Rightarrow> exn option \<times> nat \<times> recon" where
  "auto_repair now up issues s = for_each (repair_issue now up) issues (0, s)"

subsection \<open>The reconciliation run\<close>

text \<open>The availability of the database at the calls of one run.\<close>

record recon_env =
  re_now :: real
  re_up_all :: bool
  re_up_pending :: bool
  re_up_repair :: "recon_issue \<Rightarrow> bool"

definition detect_all ::
  "recon_env \<Rightarrow> recon \<Rightarrow> jdict list \<Rightarrow> jdict list \<Rightarrow> exn + recon_issue list" where
  "detect_all env s orders positions =
     (let internal = get_all_orders (re_up_all env) s;
          pending = get_pending_orders (re_up_pending env) s
      in case detect_quantity_mismatches orders internal of
          Inl e \<Rightarrow> Inl e
        | Inr mm \<Rightarrow>
            Inr (detect_stale_orders pending orders @ detect_orphan_positions positions internal @ mm
                 @ detect_unrecorded_fills orders internal))"

text \<open>The body of the \<open>try\<close> statement after the broker answered with the two lists.\<close>

definition reconcile_lists ::
  "recon_env \<Rightarrow> freeze_callback \<Rightarrow> jdict list \<Rightarrow> jdict list \<Rightarrow> recon \<Rightarrow> (exn + recon_result) \<times> recon" where
  "reconcile_lists env cb orders positions s =
     (case detect_all env s orders positions of
        Inl e \<Rightarrow> (Inl e, s)
      | Inr issues \<Rightarrow>
          (case (if rc_auto_repair s then auto_repair (re_now env) (re_up_repair env) issues s else (None, 0, s)) of
             (Some e, n, s1) \<Rightarrow> (Inl e, s1)
           | (None, n, s1) \<Rightarrow>
               (case (if issues \<noteq> [] \<and> detect_ambiguity issues
                      then freeze_trading cb (determine_freeze_reason issues) (format_issues issues) s1
                      else (None, s1)) of
                  (Some e, s2) \<Rightarrow> (Inl e, s2)
                | (None, s2) \<Rightarrow>
                    let r = \<lparr> rr_is_clean = (issues = []), rr_issues = issues,
                              rr_freeze_reason = (if issues = [] then None else rc_reason s2),
                              rr_timestamp = re_now env, rr_broker_positions = length positions,
                              rr_internal_orders = length (get_all_orders (re_up_all env) s),
                              rr_repaired = n \<rparr>
                    in (Inr r, s2\<lparr>rc_last := Some r\<rparr>))))"

text \<open>\<open>len(None)\<close> raises \<open>TypeError\<close>.\<close>

definition reconcile_body ::
  "recon_env \<Rightarrow> freeze_callback \<Rightarrow> broker_view \<Rightarrow> recon \<Rightarrow> (exn + recon_result) \<times> recon" where
  "reconcile_body env cb b s =
     (case fetch_broker_orders b of
        Inl e \<Rightarrow> (Inl e, s)
      | Inr orders \<Rightarrow>
          (case fetch_broker_positions b of
             Inl e \<Rightarrow> (Inl e, s)
           | Inr positions \<Rightarrow>
               (case orders of
                  None \<Rightarrow> (Inl (Exn TypeError ''object of type NoneType has no len()''), s)
                | Some os \<Rightarrow> reconcile_lists env cb os positions s)))"

definition reconcile_catches :: "exn_class list" where
  "reconcile_catches = [ReconciliationError, DatabaseError, SqliteError, OSError, ValueError, KeyError]"

definition reconcile ::
  "recon_env \<Rightarrow> freeze_callback \<Rightarrow> broker_view \<Rightarrow> recon \<Rightarrow> (exn + recon_result) \<times> recon" where
  "reconcile env cb b s =
     (case reconcile_body env cb b s of
        (Inr r, s1) \<Rightarrow> (Inr r, s1)
      | (Inl e, s1) \<Rightarrow>
          if \<not> caught reconcile_catches e then (Inl e, s1)
          else (case freeze_trading cb FR_RECONCILIATION_FAILED (exn_msg e) s1 of
                  (Some e', s2) \<Rightarrow> (Inl e', s2)
                | (None, s2) \<Rightarrow>
                    (Inr \<lparr> rr_is_clean = False,
                           rr_issues = [\<lparr> ri_type = RS_AMBIGUOUS, ri_order_id = None, ri_internal = IvNone,
                                          ri_broker = IvNone,
                                          ri_description = ''Reconciliation exception: '' @ exn_msg e \<rparr>],
                           rr_freeze_reason = Some FR_RECONCILIATION_FAILED, rr_timestamp = re_now env,
                           rr_broker_positions = 0, rr_internal_orders = 0, rr_repaired = 0 \<rparr>, s2)))"

text \<open>One operation of the service, for runs of the service.\<close>

datatype recon_op =
    OpRecord real bool string string string string int string "string option" "string option"
  | OpFill real bool string int pyfloat string
  | OpReconcile recon_env freeze_callback broker_view
  | OpUnfreeze

fun recon_step :: "recon_op \<Rightarrow> recon \<Rightarrow> recon" where
  "recon_step (OpRecord now up oid intent symb dir qty st bid key) s =
     record_order now up oid intent symb dir qty st bid key s"
| "recon_step (OpFill now up oid filled price st) s = update_order_fill now up oid filled price st s"
| "recon_step (OpReconcile env cb b) s = snd (reconcile env cb b s)"
| "recon_step OpUnfreeze s = unfreeze s"

subsection \<open>What agreement with the broker means\<close>

text \<open>No two rows carry the same (non-empty) broker id.\<close>

definition unique_broker_ids :: "exec_order list \<Rightarrow> bool" where
  "unique_broker_ids rows \<longleftrightarrow>
     (\<forall>r \<in> set rows. \<forall>r' \<in> set rows. truthy (eo_broker_id r) \<longrightarrow> eo_broker_id r = eo_broker_id r' \<longrightarrow> r = r')"

definition pending_known :: "exec_order list \<Rightarrow> jdict list \<Rightarrow> bool" where
  "pending_known rows orders \<longleftrightarrow>
     (\<forall>r \<in> set rows. eo_status r \<notin> set recon_terminal_states \<longrightarrow> truthy (eo_broker_id r) \<longrightarrow>
        (\<exists>bo \<in> set orders. eo_broker_id r = Some (broker_order_id bo)))"

definition positions_known :: "exec_order list \<Rightarrow> jdict list \<Rightarrow> bool" where
  "positions_known rows positions \<longleftrightarrow>
     (\<forall>p \<in> set positions. nonzero (position_qty p) \<longrightarrow>
        (\<exists>r \<in> set rows. eo_symbol r \<noteq> [] \<and> position_symbol p = JStr (eo_symbol r)))"

definition fills_agree :: "exec_order list \<Rightarrow> jdict list \<Rightarrow> bool" where
  "fills_agree rows orders \<longleftrightarrow>
     (\<forall>bo \<in> set orders. \<forall>r \<in> set rows. truthy (eo_broker_id r) \<longrightarrow> eo_broker_id r = Some (broker_order_id bo) \<longrightarrow>
        py_int (broker_filled bo) = Inr (eo_filled r))"

definition completions_known :: "exec_order list \<Rightarrow> jdict list \<Rightarrow> bool" where
  "completions_known rows orders \<longleftrightarrow>
     (\<forall>bo \<in> set orders. broker_completed bo \<longrightarrow>
        (\<exists>r \<in> set rows. truthy (eo_broker_id r) \<and> eo_broker_id r = Some (broker_order_id bo)))"

definition recon_agree :: "exec_order list \<Rightarrow> jdict list \<Rightarrow> jdict list \<Rightarrow> bool" where
  "recon_agree rows orders positions \<longleftrightarrow>
     pending_known rows orders \<and> positions_known rows positions \<and> fills_agree rows orders \<and>
     completions_known rows orders"

text \<open>Broker numbers that \<open>int()\<close> and \<open>float()\<close> convert or refuse with \<open>ValueError\<close>.\<close>

definition fields_ok :: "jdict \<Rightarrow> bool" where
  "fields_ok bo \<longleftrightarrow>
     broker_filled bo \<noteq> JNull \<and> (\<forall>r. broker_filled bo \<noteq> JFloat PosInf r \<and> broker_filled bo \<noteq> JFloat NegInf r) \<and>
     broker_price bo \<noteq> JNull"

definition callback_ok :: "freeze_callback \<Rightarrow> bool" where
  "callback_ok cb \<longleftrightarrow>
     (\<forall>f reason details e. cb = Some f \<longrightarrow> f reason details = Some e \<longrightarrow>
        caught [ValueError, TypeError, AttributeError, DatabaseError] e)"

section \<open>Lemmas\<close>

subsection \<open>Detection\<close>

lemma internal_fold_Some:
  "map_of (fold (\<lambda>r d. if truthy (eo_broker_id r) then dict_set (the (eo_broker_id r)) r d else d) rs d0) k = Some r \<Longrightarrow>
     map_of d0 k = Some r \<or> r \<in> set rs \<and> truthy (eo_broker_id r) \<and> eo_broker_id r = Some k"
proof (induction rs arbitrary: d0)
  case Nil
  then show ?case by simp
next
  case (Cons x rs)
  from Cons.IH [OF Cons.prems [unfolded fold_Cons comp_def]] show ?case
    by (auto split: if_splits elim: truthyE)
qed

lemma internal_fold_None:
  "map_of (fold (\<lambda>r d. if truthy (eo_broker_id r) then dict_set (the (eo_broker_id r)) r d else d) rs d0) k = None \<Longrightarrow>
     map_of d0 k = None \<and> (\<forall>r \<in> set rs. truthy (eo_broker_id r) \<longrightarrow> eo_broker_id r \<noteq> Some k)"
proof (induction rs arbitrary: d0)
  case Nil
  then show ?case by simp
next
  case (Cons x rs)
  from Cons.IH [OF Cons.prems [unfolded fold_Cons comp_def]] show ?case
    by (auto split: if_splits)
qed

lemma internal_Some:
  "map_of (internal_by_broker_id rs) k = Some r \<Longrightarrow> r \<in> set rs \<and> truthy (eo_broker_id r) \<and> eo_broker_id r = Some k"
  unfolding internal_by_broker_id_def by (drule internal_fold_Some) auto

lemma internal_None:
  "map_of (internal_by_broker_id rs) k = None \<longleftrightarrow>
     (\<forall>r \<in> set rs. truthy (eo_broker_id r) \<longrightarrow> eo_broker_id r \<noteq> Some k)"
proof
  assume "map_of (internal_by_broker_id rs) k = None"
  then show "\<forall>r \<in> set rs. truthy (eo_broker_id r) \<longrightarrow> eo_broker_id r \<noteq> Some k"
    unfolding internal_by_broker_id_def by (blast dest: internal_fold_None)
next
  assume "\<forall>r \<in> set rs. truthy (eo_broker_id r) \<longrightarrow> eo_broker_id r \<noteq> Some k"
  then show "map_of (internal_by_broker_id rs) k = None"
    by (cases "map_of (internal_by_broker_id rs) k") (auto dest: internal_Some)
qed

lemma stale_Nil: "detect_stale_orders pending orders = [] \<longleftrightarrow>
    (\<forall>r \<in> set pending. truthy (eo_broker_id r) \<longrightarrow> (\<exists>bo \<in> set orders. eo_broker_id r = Some (broker_order_id bo)))"
proof -
  have "(truthy x \<longrightarrow> the x \<in> set (map broker_order_id orders)) \<longleftrightarrow>
      (truthy x \<longrightarrow> (\<exists>bo \<in> set orders. x = Some (broker_order_id bo)))" for x
    by (cases x) auto
  then show ?thesis by (simp add: detect_stale_orders_def filter_empty_conv)
qed

lemma orphan_Nil: "detect_orphan_positions positions rows = [] \<longleftrightarrow> positions_known rows positions"
  by (auto simp: detect_orphan_positions_def positions_known_def filter_empty_conv)

lemma unrecorded_Nil: "detect_unrecorded_fills orders rows = [] \<longleftrightarrow> completions_known rows orders"
  by (auto simp: detect_unrecorded_fills_def completions_known_def filter_empty_conv internal_None)

lemma res_map_concat_Nil:
  "(\<exists>ys. res_map f xs = Inr ys \<and> concat ys = []) \<longleftrightarrow> (\<forall>x \<in> set xs. f x = Inr [])"
proof (induction xs)
  case Nil
  then show ?case by simp
next
  case (Cons x xs)
  then show ?case by (auto split: sum.splits)
qed

lemma mismatch_Nil:
  assumes uniq: "unique_broker_ids rows"
  shows "detect_quantity_mismatches orders rows = Inr [] \<longleftrightarrow> fills_agree rows orders"
proof -
  have "check_quantity (internal_by_broker_id rows) bo = Inr [] \<longleftrightarrow>
      (\<forall>r \<in> set rows. truthy (eo_broker_id r) \<longrightarrow> eo_broker_id r = Some (broker_order_id bo) \<longrightarrow>
         py_int (broker_filled bo) = Inr (eo_filled r))" for bo
  proof (cases "map_of (internal_by_broker_id rows) (broker_order_id bo)")
    case None
    then have "\<forall>r \<in> set rows. truthy (eo_broker_id r) \<longrightarrow> eo_broker_id r \<noteq> Some (broker_order_id bo)"
      by (simp add: internal_None)
    with None show ?thesis by (auto simp: check_quantity_def)
  next
    case (Some r)
    note r = internal_Some [OF this]
    have "r' = r" if "r' \<in> set rows" "eo_broker_id r' = Some (broker_order_id bo)" for r'
      using uniq r that unfolding unique_broker_ids_def by metis
    with r Some show ?thesis
      by (auto simp: check_quantity_def split: sum.splits)
  qed
  then show ?thesis
    using res_map_concat_Nil [of "check_quantity (internal_by_broker_id rows)" orders]
    by (auto simp: detect_quantity_mismatches_def fills_agree_def split: sum.splits)
qed

lemma unique_sort [simp]: "unique_broker_ids (sort_key f rows) = unique_broker_ids rows"
  by (simp add: unique_broker_ids_def)

lemma fills_sort [simp]: "fills_agree (sort_key f rows) orders = fills_agree rows orders"
  by (simp add: fills_agree_def)

lemma completions_sort [simp]: "completions_known (sort_key f rows) orders = completions_known rows orders"
  by (simp add: completions_known_def)

lemma positions_sort [simp]: "positions_known (sort_key f rows) ps = positions_known rows ps"
  by (simp add: positions_known_def)

lemma detect_all_Nil:
  assumes "re_up_all env" "re_up_pending env" "unique_broker_ids (rc_table s)"
  shows "detect_all env s orders positions = Inr [] \<longleftrightarrow> recon_agree (rc_table s) orders positions"
proof -
  have "detect_stale_orders (get_pending_orders True s) orders = [] \<longleftrightarrow> pending_known (rc_table s) orders"
    by (auto simp: stale_Nil get_pending_orders_def pending_known_def)
  moreover have "detect_quantity_mismatches orders (get_all_orders True s) = Inr [] \<longleftrightarrow> fills_agree (rc_table s) orders"
    using assms(3) by (simp add: get_all_orders_def mismatch_Nil)
  moreover have "detect_orphan_positions positions (get_all_orders True s) = [] \<longleftrightarrow> positions_known (rc_table s) positions"
    by (simp add: orphan_Nil get_all_orders_def)
  moreover have "detect_unrecorded_fills orders (get_all_orders True s) = [] \<longleftrightarrow> completions_known (rc_table s) orders"
    by (simp add: unrecorded_Nil get_all_orders_def)
  ultimately show ?thesis using assms(1,2)
    by (cases "detect_quantity_mismatches orders (get_all_orders True s)")
      (auto simp: detect_all_def Let_def recon_agree_def)
qed

subsection \<open>Freezing\<close>

lemma freeze_frozen [simp]:
  "rc_frozen (snd (freeze_trading cb reason details s))"
  "rc_reason (snd (freeze_trading cb reason details s)) = Some reason"
  "rc_table (snd (freeze_trading cb reason details s)) = rc_table s"
  by (auto simp: freeze_trading_def Let_def split: option.split)

lemma freeze_pair: "freeze_trading cb reason details s = (x, s') \<Longrightarrow> rc_frozen s'"
  using freeze_frozen(1) [of cb reason details s] by (metis snd_conv)

lemma freeze_table: "freeze_trading cb reason details s = (x, s') \<Longrightarrow> rc_table s' = rc_table s"
  using freeze_frozen(3) [of cb reason details s] by (metis snd_conv)

lemma freeze_returns: "callback_ok cb \<Longrightarrow> \<exists>s'. freeze_trading cb reason details s = (None, s') \<and> rc_frozen s' \<and> rc_reason s' = Some reason"
  by (auto simp: freeze_trading_def Let_def callback_ok_def split: option.split)

lemma mark_frozen [simp]: "rc_frozen (snd (mark_order_terminal now up oid st s)) = rc_frozen s"
  by (simp add: mark_order_terminal_def)

lemma fill_frozen [simp]: "rc_frozen (update_order_fill now up oid q p st s) = rc_frozen s"
  by (simp add: update_order_fill_def)

lemma unrecorded_frozen [simp]: "rc_frozen (snd (record_unrecorded_fill now up issue s)) = rc_frozen s"
  by (auto simp: record_unrecorded_fill_def split: sum.split issue_value.split)

text \<open>What a repair step does, by the type of the issue.\<close>

lemma repair_issue_cases:
  obtains (stale_up) "ri_type i = RS_STALE_ORDER" "up i"
      "repair_issue now up i (n, s) = (None, n + 1, snd (mark_order_terminal now True (ri_order_id i) ''UNKNOWN_STALE'' s))"
    | (stale_down) "ri_type i = RS_STALE_ORDER" "\<not> up i" "repair_issue now up i (n, s) = (None, n, s)"
    | (fill_ok) "ri_type i = RS_UNRECORDED_FILL" "fst (record_unrecorded_fill now (up i) i s) = None"
      "repair_issue now up i (n, s) = (None, n + 1, snd (record_unrecorded_fill now (up i) i s))"
    | (fill_err) e where "ri_type i = RS_UNRECORDED_FILL" "record_unrecorded_fill now (up i) i s = (Some e, s)"
      "repair_issue now up i (n, s) = (if caught repair_catches e then (None, n, s) else (Some e, n, s))"
    | (other) "ri_type i \<noteq> RS_STALE_ORDER" "ri_type i \<noteq> RS_UNRECORDED_FILL" "repair_issue now up i (n, s) = (None, n, s)"
proof (cases "ri_type i = RS_STALE_ORDER")
  case True
  then show ?thesis
    by (cases "up i")
      (auto intro: stale_up stale_down simp: repair_issue_def mark_order_terminal_def repair_catches_def exn_simps)
next
  case False
  show ?thesis
  proof (cases "ri_type i = RS_UNRECORDED_FILL")
    case True
    obtain r s' where rs: "record_unrecorded_fill now (up i) i s = (r, s')" by fastforce
    then have "s' = s" if "r \<noteq> None"
      using that by (auto simp: record_unrecorded_fill_def split: if_splits prod.splits sum.splits issue_value.splits)
    with rs True False show ?thesis
      by (cases r) (auto intro: fill_ok fill_err simp: repair_issue_def)
  qed (use False other in \<open>simp add: repair_issue_def\<close>)
qed

lemma repair_issue_frozen: "rc_frozen (snd (snd (repair_issue now up i ns))) = rc_frozen (snd ns)"
proof (cases ns)
  case (Pair n s)
  show ?thesis unfolding Pair
    by (rule repair_issue_cases [of i up now n s]) auto
qed

lemma auto_repair_frozen: "rc_frozen (snd (snd (auto_repair now up issues s))) = rc_frozen s"
  unfolding auto_repair_def
  by (rule for_each_inv [where I = "\<lambda>x. rc_frozen (snd x) = rc_frozen s"]) (simp_all add: repair_issue_frozen)

text \<open>The repair and the freeze of a run, as the code's two conditional statements.\<close>

definition repaired :: "recon_env \<Rightarrow> recon_issue list \<Rightarrow> recon \<Rightarrow> exn option \<times> nat \<times> recon" where
  "repaired env issues s =
     (if rc_auto_repair s then auto_repair (re_now env) (re_up_repair env) issues s else (None, 0, s))"

definition frozen_if :: "freeze_callback \<Rightarrow> recon_issue list \<Rightarrow> recon \<Rightarrow> exn option \<times> recon" where
  "frozen_if cb issues s =
     (if issues \<noteq> [] \<and> detect_ambiguity issues
      then freeze_trading cb (determine_freeze_reason issues) (format_issues issues) s else (None, s))"

definition run_result :: "recon_env \<Rightarrow> recon_issue list \<Rightarrow> nat \<Rightarrow> nat \<Rightarrow> nat \<Rightarrow> recon \<Rightarrow> recon_result" where
  "run_result env issues np ni n s2 =
     \<lparr> rr_is_clean = (issues = []), rr_issues = issues,
       rr_freeze_reason = (if issues = [] then None else rc_reason s2),
       rr_timestamp = re_now env, rr_broker_positions = np, rr_internal_orders = ni, rr_repaired = n \<rparr>"

lemma run_result_sel [simp]:
  "rr_is_clean (run_result env issues np ni n s2) = (issues = [])"
  "rr_issues (run_result env issues np ni n s2) = issues"
  "rr_repaired (run_result env issues np ni n s2) = n"
  by (simp_all add: run_result_def)

lemma reconcile_lists_cases:
  obtains (detect) e where "detect_all env s orders positions = Inl e"
      "reconcile_lists env cb orders positions s = (Inl e, s)"
    | (repair) issues e n s1 where "detect_all env s orders positions = Inr issues"
      "repaired env issues s = (Some e, n, s1)" "reconcile_lists env cb orders positions s = (Inl e, s1)"
    | (freeze) issues n s1 e s2 where "detect_all env s orders positions = Inr issues"
      "repaired env issues s = (None, n, s1)" "frozen_if cb issues s1 = (Some e, s2)"
      "reconcile_lists env cb orders positions s = (Inl e, s2)"
    | (result) issues n s1 s2 where "detect_all env s orders positions = Inr issues"
      "repaired env issues s = (None, n, s1)" "frozen_if cb issues s1 = (None, s2)"
      "reconcile_lists env cb orders positions s =
         (Inr (run_result env issues (length positions) (length (get_all_orders (re_up_all env) s)) n s2),
          s2\<lparr>rc_last := Some (run_result env issues (length positions)
                                 (length (get_all_orders (re_up_all env) s)) n s2)\<rparr>)"
proof (cases "detect_all env s orders positions")
  case (Inl e)
  then show ?thesis by (auto intro: detect simp: reconcile_lists_def)
next
  case (Inr issues)
  note d = this
  obtain x n s1 where r: "repaired env issues s = (x, n, s1)" by (cases "repaired env issues s") auto
  obtain y s2 where f: "frozen_if cb issues s1 = (y, s2)" by (cases "frozen_if cb issues s1") auto
  show ?thesis
  proof (cases x)
    case (Some e)
    with d r show ?thesis by (intro repair) (auto simp: reconcile_lists_def repaired_def)
  next
    case None
    note n = this
    show ?thesis
    proof (cases y)
      case (Some e)
      with d r f n show ?thesis by (intro freeze) (auto simp: reconcile_lists_def repaired_def frozen_if_def)
    next
      case None
      with d r f n show ?thesis
        by (intro result) (auto simp: reconcile_lists_def repaired_def frozen_if_def run_result_def Let_def)
    qed
  qed
qed

lemma repaired_frozen: "repaired env issues s = (x, n, s1) \<Longrightarrow> rc_frozen s1 = rc_frozen s"
  using auto_repair_frozen [of "re_now env" "re_up_repair env" issues s]
  by (auto simp: repaired_def split: if_splits)

lemma frozen_if_frozen: "frozen_if cb issues s = (x, s') \<Longrightarrow> rc_frozen s' \<longleftrightarrow> rc_frozen s \<or> issues \<noteq> [] \<and> detect_ambiguity issues"
  by (auto simp: frozen_if_def split: if_splits dest: freeze_pair)

lemma reconcile_body_frozen: "rc_frozen s \<Longrightarrow> rc_frozen (snd (reconcile_body env cb b s))"
proof -
  assume fr: "rc_frozen s"
  have "rc_frozen (snd (reconcile_lists env cb orders positions s))" for orders positions
    by (rule reconcile_lists_cases [of env s orders positions cb])
      (use fr in \<open>auto dest!: repaired_frozen frozen_if_frozen\<close>)
  then show ?thesis
    using fr by (auto simp: reconcile_body_def split: sum.split option.split)
qed

lemma reconcile_frozen: "rc_frozen s \<Longrightarrow> rc_frozen (snd (reconcile env cb b s))"
proof -
  assume "rc_frozen s"
  then have "rc_frozen (snd (reconcile_body env cb b s))" by (rule reconcile_body_frozen)
  then show ?thesis
    by (auto simp: reconcile_def split: prod.split sum.split option.split dest: freeze_pair)
qed

text \<open>Every operation but \<open>unfreeze\<close> keeps trading frozen.\<close>

definition keeps_freeze :: "recon_op \<Rightarrow> bool" where
  "keeps_freeze x \<longleftrightarrow> x \<noteq> OpUnfreeze"

lemma recon_step_frozen: "keeps_freeze x \<Longrightarrow> rc_frozen s \<Longrightarrow> rc_frozen (recon_step x s)"
  by (cases x) (auto simp: keeps_freeze_def record_order_def reconcile_frozen)

interpretation recon_sys: op_system "\<lambda>x s. if keeps_freeze x then recon_step x s else s" rc_frozen
  by unfold_locales (simp add: recon_step_frozen)

lemma fold_guarded: "list_all P xs \<Longrightarrow> fold (\<lambda>x s. if P x then f x s else s) xs s = fold f xs s"
  by (induction xs arbitrary: s) auto

lemma recon_run_frozen: "list_all keeps_freeze ops \<Longrightarrow> rc_frozen s \<Longrightarrow> rc_frozen (fold recon_step ops s)"
  using recon_sys.run_inv [of s ops] by (simp add: fold_guarded)

subsection \<open>When a run returns\<close>

lemma res_map_Inl: "res_map f xs = Inl e \<Longrightarrow> \<exists>x \<in> set xs. f x = Inl e"
  by (induction xs) (auto split: sum.splits)

lemma for_each_raises: "for_each body xs s = (Some e, s') \<Longrightarrow> \<exists>x \<in> set xs. \<exists>s0. fst (body x s0) = Some e"
proof (induction xs arbitrary: s)
  case Nil
  then show ?case by simp
next
  case (Cons x xs)
  obtain r s1 where b: "body x s = (r, s1)" by fastforce
  show ?case
  proof (cases r)
    case None
    with b Cons show ?thesis by auto
  next
    case (Some e')
    with b Cons.prems have "fst (body x s) = Some e" by simp
    then show ?thesis by auto
  qed
qed

lemma py_int_ValueError: "fields_ok bo \<Longrightarrow> py_int (broker_filled bo) = Inl e \<Longrightarrow> exn_cls e = ValueError"
  unfolding fields_ok_def
  by (cases "broker_filled bo" rule: py_int.cases) (auto split: option.splits)

lemma py_float_ValueError: "fields_ok bo \<Longrightarrow> py_float (broker_price bo) = Inl e \<Longrightarrow> exn_cls e = ValueError"
  unfolding fields_ok_def by (cases "broker_price bo") (auto split: option.splits)

lemma detect_all_raises:
  assumes "detect_all env s orders positions = Inl e" and "\<forall>bo \<in> set orders. fields_ok bo"
  shows "exn_cls e = ValueError"
proof -
  from assms(1) obtain bo rows where "bo \<in> set orders" "check_quantity (internal_by_broker_id rows) bo = Inl e"
    by (auto simp: detect_all_def Let_def detect_quantity_mismatches_def dest!: res_map_Inl split: sum.splits)
  with assms(2) show ?thesis
    by (auto simp: check_quantity_def split: option.splits sum.splits if_splits intro: py_int_ValueError)
qed

lemma mismatch_type:
  assumes "detect_quantity_mismatches orders rows = Inr mm" "x \<in> set mm"
  shows "ri_type x = RS_QUANTITY_MISMATCH"
proof -
  have "ri_type x = RS_QUANTITY_MISMATCH" if "res_map (check_quantity d) os = Inr iss" "x \<in> set (concat iss)" for d os iss
    using that by (induction os arbitrary: iss) (force simp: check_quantity_def split: sum.splits option.splits if_splits)+
  with assms show ?thesis by (auto simp: detect_quantity_mismatches_def split: sum.splits)
qed

lemma detect_all_fill_issue:
  assumes "detect_all env s orders positions = Inr issues" "i \<in> set issues" "ri_type i = RS_UNRECORDED_FILL"
  shows "\<exists>bo \<in> set orders. ri_order_id i = Some (broker_order_id bo) \<and> ri_broker i = IvFill (broker_filled bo) (broker_price bo)"
proof -
  from assms(1) obtain mm where m: "detect_quantity_mismatches orders (get_all_orders (re_up_all env) s) = Inr mm"
    and iss: "issues = detect_stale_orders (get_pending_orders (re_up_pending env) s) orders
      @ detect_orphan_positions positions (get_all_orders (re_up_all env) s) @ mm
      @ detect_unrecorded_fills orders (get_all_orders (re_up_all env) s)"
    by (auto simp: detect_all_def Let_def split: sum.splits)
  have "i \<notin> set (detect_stale_orders p q)" "i \<notin> set (detect_orphan_positions u v)" for p q u v
    using assms(3) by (auto simp: detect_stale_orders_def detect_orphan_positions_def)
  moreover from mismatch_type [OF m] assms(3) have "i \<notin> set mm" by auto
  ultimately have "i \<in> set (detect_unrecorded_fills orders (get_all_orders (re_up_all env) s))"
    using assms(2) iss by auto
  then show ?thesis by (auto simp: detect_unrecorded_fills_def)
qed

lemma repaired_raises:
  assumes d: "detect_all env s orders positions = Inr issues" and ok: "\<forall>bo \<in> set orders. fields_ok bo"
    and r: "repaired env issues s = (Some e, n, s1)"
  shows "exn_cls e = ValueError"
proof -
  from r obtain i ns where i: "i \<in> set issues" and b: "fst (repair_issue (re_now env) (re_up_repair env) i ns) = Some e"
    by (auto simp: repaired_def auto_repair_def dest!: for_each_raises split: if_splits)
  obtain n0 s0 where ns: "ns = (n0, s0)" by fastforce
  have "ri_type i = RS_UNRECORDED_FILL \<and>
      record_unrecorded_fill (re_now env) (re_up_repair env i) i s0 = (Some e, s0)"
    by (rule repair_issue_cases [of i "re_up_repair env" "re_now env" n0 s0])
      (use b ns in \<open>auto split: if_splits\<close>)
  moreover from this obtain bo where "bo \<in> set orders" "ri_broker i = IvFill (broker_filled bo) (broker_price bo)"
    using detect_all_fill_issue [OF d i] by auto
  ultimately show ?thesis using ok
    by (auto simp: record_unrecorded_fill_def split: if_splits sum.splits
        intro: py_int_ValueError py_float_ValueError)
qed

lemma reconcile_caught:
  assumes "callback_ok cb" "reconcile_body env cb b s = (Inl e, s1)" "exn_cls e = ValueError"
  shows "\<exists>r s'. reconcile env cb b s = (Inr r, s') \<and> \<not> rr_is_clean r \<and> rc_frozen s'"
proof -
  obtain s' where "freeze_trading cb FR_RECONCILIATION_FAILED (exn_msg e) s1 = (None, s')" "rc_frozen s'"
    using freeze_returns [OF assms(1)] by blast
  with assms(2,3) show ?thesis
    by (auto simp: reconcile_def reconcile_catches_def exn_simps)
qed

lemma reconcile_body_lists:
  "fetch_broker_orders b = Inr (Some orders) \<Longrightarrow> fetch_broker_positions b = Inr positions \<Longrightarrow>
     reconcile_body env cb b s = reconcile_lists env cb orders positions s"
  by (simp add: reconcile_body_def)

text \<open>With a well-behaved callback and convertible broker numbers a run returns a result, and trading
  is frozen after it if the issues are ambiguous or the run failed.\<close>

lemma reconcile_returns:
  assumes f: "fetch_broker_orders b = Inr (Some orders)" "fetch_broker_positions b = Inr positions"
    and cb: "callback_ok cb" and ok: "\<forall>bo \<in> set orders. fields_ok bo"
  obtains (failed) r s' where "reconcile env cb b s = (Inr r, s')" "\<not> rr_is_clean r" "rc_frozen s'"
    | (ran) issues r s' where "detect_all env s orders positions = Inr issues" "reconcile env cb b s = (Inr r, s')"
      "rr_is_clean r \<longleftrightarrow> issues = []" "rr_issues r = issues"
      "rc_frozen s' \<longleftrightarrow> rc_frozen s \<or> issues \<noteq> [] \<and> detect_ambiguity issues"
proof (rule reconcile_lists_cases [of env s orders positions cb], goal_cases detect repair freeze result)
  case (detect e)
  then show ?thesis using failed reconcile_caught [OF cb] detect_all_raises ok reconcile_body_lists [OF f] by metis
next
  case (repair issues e n s1)
  then show ?thesis using failed reconcile_caught [OF cb] repaired_raises ok reconcile_body_lists [OF f] by metis
next
  case (freeze issues n s1 e s2)
  then show ?thesis using freeze_returns [OF cb] by (auto simp: frozen_if_def split: if_splits) (metis option.distinct(1) prod.inject)
next
  case (result issues n s1 s2)
  then show ?thesis
    by (intro ran) (auto simp: reconcile_def reconcile_body_lists [OF f] dest!: repaired_frozen frozen_if_frozen)
qed

text \<open>An orphan position or a disagreement on a filled quantity is found, and is ambiguous.\<close>

lemma divergence_ambiguous:
  assumes up: "re_up_all env" and uniq: "unique_broker_ids (rc_table s)"
    and div: "\<not> positions_known (rc_table s) positions \<or> \<not> fills_agree (rc_table s) orders"
    and d: "detect_all env s orders positions = Inr issues"
  shows "issues \<noteq> [] \<and> detect_ambiguity issues"
proof -
  from d obtain mm where m: "detect_quantity_mismatches orders (get_all_orders True s) = Inr mm"
    and iss: "issues = detect_stale_orders (get_pending_orders (re_up_pending env) s) orders
      @ detect_orphan_positions positions (get_all_orders True s) @ mm
      @ detect_unrecorded_fills orders (get_all_orders True s)"
    using up by (auto simp: detect_all_def Let_def split: sum.splits)

  have opt: "x \<in> set (detect_orphan_positions positions rows) \<Longrightarrow> ri_type x = RS_ORPHAN_POSITION" for x rows
    by (auto simp: detect_orphan_positions_def)
  from div have "detect_orphan_positions positions (get_all_orders True s) \<noteq> [] \<or> mm \<noteq> []"
    using m uniq mismatch_Nil [of "get_all_orders True s" orders]
    by (auto simp: orphan_Nil get_all_orders_def)
  then obtain x where "x \<in> set issues" "ri_type x \<in> set ambiguous_types"
    using mismatch_type [OF m] opt iss unfolding ambiguous_types_def by (metis Un_iff list.set_intros list.set_sel(1) set_append)
  then show ?thesis by (auto simp: detect_ambiguity_def filter_empty_conv)
qed

subsection \<open>What a repair changes\<close>

text \<open>The part of a row that detection looks at.\<close>

definition recon_key :: "exec_order \<Rightarrow> string \<times> string \<times> int \<times> string option \<times> real \<times> bool" where
  "recon_key r = (eo_order_id r, eo_symbol r, eo_filled r, eo_broker_id r, eo_created_at r,
                  eo_status r \<in> set recon_terminal_states)"

definition issue_sig :: "recon_issue \<Rightarrow> recon_state \<times> string option" where
  "issue_sig i = (ri_type i, ri_order_id i)"

lemma map_insort_key: "map g (insort_key (\<lambda>x. f (g x)) x xs) = insort_key f (g x) (map g xs)"
  by (induction xs) auto

lemma map_sort_key: "map g (sort_key (\<lambda>x. f (g x)) xs) = sort_key f (map g xs)"
  by (induction xs) (auto simp: map_insort_key)

lemma keys_sorted:
  assumes "map recon_key t = map recon_key t'"
  shows "map recon_key (sort_key eo_created_at t) = map recon_key (sort_key eo_created_at t')"
  using assms map_sort_key [of recon_key "\<lambda>k. fst (snd (snd (snd (snd k))))"]
  by (simp add: recon_key_def)

lemma keys_filtered:
  assumes "map recon_key t = map recon_key t'"
  shows "map recon_key (filter (\<lambda>r. eo_status r \<notin> set recon_terminal_states) t) =
         map recon_key (filter (\<lambda>r. eo_status r \<notin> set recon_terminal_states) t')"
proof -
  have "map recon_key (filter (\<lambda>r. eo_status r \<notin> set recon_terminal_states) u) =
      filter (\<lambda>k. \<not> snd (snd (snd (snd (snd k))))) (map recon_key u)" for u
    by (simp add: filter_map comp_def recon_key_def)
  with assms show ?thesis by simp
qed

lemma stale_sig:
  assumes "map recon_key t = map recon_key t'"
  shows "map issue_sig (detect_stale_orders t orders) = map issue_sig (detect_stale_orders t' orders)"
proof -
  have "map issue_sig (detect_stale_orders u orders) =
      map (\<lambda>k. (RS_STALE_ORDER, Some (fst k)))
        (filter (\<lambda>k. truthy (fst (snd (snd (snd k)))) \<and> the (fst (snd (snd (snd k)))) \<notin> set (map broker_order_id orders))
          (map recon_key u))" for u
    by (simp add: detect_stale_orders_def filter_map comp_def recon_key_def issue_sig_def)
  with assms show ?thesis by simp
qed

lemma orphan_same:
  assumes "map recon_key t = map recon_key t'"
  shows "detect_orphan_positions ps t = detect_orphan_positions ps t'"
proof -
  have "map eo_symbol u = map (\<lambda>k. fst (snd k)) (map recon_key u)" for u
    by (simp add: recon_key_def)
  with assms have "map eo_symbol t = map eo_symbol t'" by metis
  then show ?thesis unfolding detect_orphan_positions_def by (simp only:)
qed

lemma internal_key:
  assumes "map recon_key t = map recon_key t'"
  shows "map_option recon_key (map_of (internal_by_broker_id t) k) = map_option recon_key (map_of (internal_by_broker_id t') k)"
proof -
  let ?f = "\<lambda>r d. if truthy (eo_broker_id r) then dict_set (the (eo_broker_id r)) r d else d"
  have "map_option recon_key (map_of (fold ?f t d) k) = map_option recon_key (map_of (fold ?f t' d') k)"
    if "\<And>k. map_option recon_key (map_of d k) = map_option recon_key (map_of d' k)" for d d'
    using assms that
  proof (induction t arbitrary: t' d d')
    case Nil
    then show ?case by simp
  next
    case (Cons r t)
    then obtain r' u' where t': "t' = r' # u'" "recon_key r = recon_key r'" "map recon_key t = map recon_key u'"
      by (cases t') auto
    then have "eo_broker_id r = eo_broker_id r'" by (simp add: recon_key_def)
    with t' Cons.prems(2) have "map_option recon_key (map_of (?f r d) k) = map_option recon_key (map_of (?f r' d') k)" for k
      by auto
    from Cons.IH [OF t'(3) this] t'(1) show ?case by simp
  qed
  from this [of "[]" "[]"] show ?thesis by (simp add: internal_by_broker_id_def)
qed

lemma check_quantity_sig:
  assumes "map recon_key t = map recon_key t'"
  shows "map_sum id (map issue_sig) (check_quantity (internal_by_broker_id t) bo) =
         map_sum id (map issue_sig) (check_quantity (internal_by_broker_id t') bo)"
  using internal_key [OF assms, of "broker_order_id bo"]
  by (cases "map_of (internal_by_broker_id t) (broker_order_id bo)";
      cases "map_of (internal_by_broker_id t') (broker_order_id bo)")
    (auto simp: check_quantity_def issue_sig_def recon_key_def split: sum.splits)

lemma res_map_map_sum:
  "map_sum id (map h) (res_map f xs) = res_map (\<lambda>x. map_sum id h (f x)) xs"
  by (induction xs) (auto split: sum.splits)

lemma mismatch_sig:
  assumes "map recon_key t = map recon_key t'"
  shows "map_sum id (map issue_sig) (detect_quantity_mismatches os t) =
         map_sum id (map issue_sig) (detect_quantity_mismatches os t')"
proof -
  have "map_sum id (map issue_sig) (detect_quantity_mismatches os u) =
      map_sum id concat (map_sum id (map (map issue_sig)) (res_map (check_quantity (internal_by_broker_id u)) os))" for u
    by (cases "res_map (check_quantity (internal_by_broker_id u)) os")
      (simp_all add: detect_quantity_mismatches_def map_concat)
  then show ?thesis by (simp add: res_map_map_sum check_quantity_sig [OF assms])
qed

lemma unrecorded_same:
  assumes "map recon_key t = map recon_key t'"
  shows "detect_unrecorded_fills os t = detect_unrecorded_fills os t'"
proof -
  have "map_of (internal_by_broker_id t) k = None \<longleftrightarrow> map_of (internal_by_broker_id t') k = None" for k
    using internal_key [OF assms, of k] by (metis map_option_is_None)
  then show ?thesis by (simp add: detect_unrecorded_fills_def)
qed

lemma detect_all_sig:
  assumes k: "map recon_key (rc_table s) = map recon_key (rc_table s')"
    and d: "detect_all env s os ps = Inr issues"
  shows "\<exists>issues'. detect_all env s' os ps = Inr issues' \<and> map issue_sig issues' = map issue_sig issues"
proof -
  have a: "map recon_key (get_all_orders u s) = map recon_key (get_all_orders u s')" for u
    by (simp add: get_all_orders_def keys_sorted [OF k])
  have p: "map recon_key (get_pending_orders u s) = map recon_key (get_pending_orders u s')" for u
    by (simp add: get_pending_orders_def keys_sorted [OF keys_filtered [OF k]])
  show ?thesis
    using d mismatch_sig [OF a, of os "re_up_all env"] stale_sig [OF p, of "re_up_pending env" os]
      orphan_same [OF a, of ps "re_up_all env"] unrecorded_same [OF a, of os "re_up_all env"]
    by (auto simp: detect_all_def Let_def split: sum.splits)
qed

lemma tbl_update_key:
  assumes "\<And>r. r \<in> set t \<Longrightarrow> P r \<Longrightarrow> recon_key (f r) = recon_key r"
  shows "map recon_key (tbl_update P f t) = map recon_key t"
  using assms by (simp add: tbl_update_def)

text \<open>Broker numbers that convert.\<close>

definition fields_num :: "jdict \<Rightarrow> bool" where
  "fields_num bo \<longleftrightarrow> isl (py_int (broker_filled bo)) = False \<and> isl (py_float (broker_price bo)) = False"

lemma fields_num_ok: "fields_num bo \<Longrightarrow> fields_ok bo"
  by (auto simp: fields_num_def fields_ok_def)

text \<open>An issue whose repair leaves the keys of the rows alone: a stale issue for a row that is not
  terminal, or a fill whose broker id is no internal order id.\<close>

definition harmless :: "exec_order list \<Rightarrow> recon_issue \<Rightarrow> bool" where
  "harmless rows i \<longleftrightarrow>
     (\<forall>r \<in> set rows. Some (eo_order_id r) = ri_order_id i \<longrightarrow>
        ri_type i \<noteq> RS_UNRECORDED_FILL \<and> (ri_type i = RS_STALE_ORDER \<longrightarrow> eo_status r \<notin> set recon_terminal_states))"

lemma harmless_keys:
  assumes "map recon_key t = map recon_key t'" "harmless t i"
  shows "harmless t' i"
  unfolding harmless_def
proof
  fix r' assume "r' \<in> set t'"
  then have "recon_key r' \<in> set (map recon_key t)" using assms(1) by simp
  then obtain r where "r \<in> set t" "recon_key r = recon_key r'" by auto
  with assms(2) show "Some (eo_order_id r') = ri_order_id i \<longrightarrow>
      ri_type i \<noteq> RS_UNRECORDED_FILL \<and> (ri_type i = RS_STALE_ORDER \<longrightarrow> eo_status r' \<notin> set recon_terminal_states)"
    by (auto simp: harmless_def recon_key_def)
qed

lemma mark_keys:
  assumes "harmless (rc_table s) i" "ri_type i = RS_STALE_ORDER"
  shows "map recon_key (rc_table (snd (mark_order_terminal now True (ri_order_id i) ''UNKNOWN_STALE'' s))) =
         map recon_key (rc_table s)"
  using assms unfolding mark_order_terminal_def
  by (auto intro!: tbl_update_key simp: recon_key_def harmless_def recon_terminal_states_def)

lemma unrecorded_keys:
  assumes "harmless (rc_table s) i" "ri_type i = RS_UNRECORDED_FILL"
  shows "map recon_key (rc_table (snd (record_unrecorded_fill now up i s))) = map recon_key (rc_table s)"
proof -
  have "map recon_key (rc_table (update_order_fill now up (the (ri_order_id i)) q p st s)) = map recon_key (rc_table s)"
    if "truthy (ri_order_id i)" for q p st
    using assms that unfolding update_order_fill_def
    by (auto intro!: tbl_update_key simp: harmless_def elim!: truthyE)
  then show ?thesis
    by (auto simp: record_unrecorded_fill_def split: sum.split issue_value.split)
qed

lemma repair_issue_keys:
  assumes "harmless (rc_table s) i"
  shows "map recon_key (rc_table (snd (snd (repair_issue now up i (n, s))))) = map recon_key (rc_table s)"
  by (rule repair_issue_cases [of i up now n s]) (use assms mark_keys unrecorded_keys in auto)

lemma auto_repair_keys:
  assumes "\<forall>i \<in> set issues. harmless (rc_table s) i"
  shows "map recon_key (rc_table (snd (snd (auto_repair now up issues s)))) = map recon_key (rc_table s)"
  unfolding auto_repair_def
proof (rule for_each_inv [where I = "\<lambda>x. map recon_key (rc_table (snd x)) = map recon_key (rc_table s)"])
  fix i and ns :: "nat \<times> recon"
  assume "i \<in> set issues" and k: "map recon_key (rc_table (snd ns)) = map recon_key (rc_table s)"
  with assms have "harmless (rc_table (snd ns)) i" using harmless_keys [OF k [symmetric]] by blast
  with repair_issue_keys [of "snd ns" i now up "fst ns"] k
  show "map recon_key (rc_table (snd (snd (repair_issue now up i ns)))) = map recon_key (rc_table s)" by simp
qed simp

text \<open>Every stale order and every unrecorded fill is counted as repaired.\<close>

definition repairable :: "recon_issue \<Rightarrow> bool" where
  "repairable i \<longleftrightarrow> ri_type i = RS_STALE_ORDER \<or> ri_type i = RS_UNRECORDED_FILL"

definition issue_num :: "recon_issue \<Rightarrow> bool" where
  "issue_num i \<longleftrightarrow> (ri_type i = RS_UNRECORDED_FILL \<longrightarrow>
     (\<exists>q p. ri_broker i = IvFill q p \<and> \<not> isl (py_int q) \<and> \<not> isl (py_float p)))"

lemma repair_issue_counts:
  assumes "issue_num i" "up i"
  shows "\<exists>s'. repair_issue now up i (n, s) = (None, n + (if repairable i then 1 else 0), s')"
proof -
  have "fst (record_unrecorded_fill now (up i) i s) = None" if "ri_type i = RS_UNRECORDED_FILL"
    using assms(1) that by (auto simp: issue_num_def record_unrecorded_fill_def split: sum.splits)
  then show ?thesis
    by (rule_tac repair_issue_cases [of i up now n s]) (use assms(2) in \<open>auto simp: repairable_def\<close>)
qed

lemma auto_repair_counts:
  assumes "\<forall>i \<in> set issues. issue_num i \<and> up i"
  shows "\<exists>s'. auto_repair now up issues s = (None, length (filter repairable issues), s')"
proof -
  have "\<exists>s'. for_each (repair_issue now up) issues (n, s) = (None, n + length (filter repairable issues), s')" for n
    using assms
  proof (induction issues arbitrary: n s)
    case Nil
    then show ?case by simp
  next
    case (Cons i issues)
    then obtain s1 where "repair_issue now up i (n, s) = (None, n + (if repairable i then 1 else 0), s1)"
      using repair_issue_counts [of i up now n s] by auto
    moreover from Cons obtain s2 where
      "for_each (repair_issue now up) issues (n + (if repairable i then 1 else 0), s1) =
         (None, n + (if repairable i then 1 else 0) + length (filter repairable issues), s2)"
      by (metis list.set_intros(2))
    ultimately show ?case by simp
  qed
  from this [of 0] show ?thesis by (simp add: auto_repair_def)
qed

lemma detect_all_stale_issue:
  assumes "detect_all env s os ps = Inr issues" "i \<in> set issues" "ri_type i = RS_STALE_ORDER"
  shows "\<exists>r \<in> set (rc_table s). ri_order_id i = Some (eo_order_id r) \<and> eo_status r \<notin> set recon_terminal_states"
proof -
  have "ri_type x = RS_STALE_ORDER \<Longrightarrow> x \<notin> set (detect_orphan_positions p q) \<and> x \<notin> set (detect_unrecorded_fills u v)"
    for x p q u v by (auto simp: detect_orphan_positions_def detect_unrecorded_fills_def)
  with assms mismatch_type have "i \<in> set (detect_stale_orders (get_pending_orders (re_up_pending env) s) os)"
    by (fastforce simp: detect_all_def Let_def split: sum.splits)
  then show ?thesis
    by (auto simp: detect_stale_orders_def get_pending_orders_def split: if_splits)
qed

lemma detect_all_harmless:
  assumes d: "detect_all env s os ps = Inr issues" and ok: "tbl_ok eo_order_id (rc_table s)"
    and ids: "\<forall>r \<in> set (rc_table s). \<forall>bo \<in> set os. eo_order_id r \<noteq> broker_order_id bo"
    and i: "i \<in> set issues"
  shows "harmless (rc_table s) i"
proof -
  have "r = r'" if "r \<in> set (rc_table s)" "r' \<in> set (rc_table s)" "eo_order_id r = eo_order_id r'" for r r'
    using ok that tbl_get_member [of eo_order_id "rc_table s"] by (metis option.inject)
  moreover have "ri_order_id i \<noteq> Some (eo_order_id r)" if "ri_type i = RS_UNRECORDED_FILL" "r \<in> set (rc_table s)" for r
    using detect_all_fill_issue [OF d i that(1)] ids that(2) by auto
  ultimately show ?thesis
    unfolding harmless_def using detect_all_stale_issue [OF d i] by (metis option.inject)
qed

section \<open>Properties\<close>

definition book_of :: "jdict list \<Rightarrow> jdict list \<Rightarrow> broker_view" where
  "book_of orders positions =
     \<lparr> bv_order_book = Some (BookList orders), bv_port_order_book = None,
       bv_positions = Some (PosList positions), bv_port_positions = None \<rparr>"

definition all_up :: "real \<Rightarrow> recon_env" where
  "all_up now = \<lparr> re_now = now, re_up_all = True, re_up_pending = True, re_up_repair = (\<lambda>_. True) \<rparr>"

text \<open>
  C20: A reconciliation run whose database reads succeed, with a broker that answers with an order list
  and a position list, reports a clean result exactly when the two sides agree: every order that is
  not terminal and has a broker id is in the broker's book, every open position is in a symbol the
  system has ordered, filled quantities are equal for the orders both sides know, and every completed
  broker order is recorded.
\<close>

theorem clean_iff_agreement:
  assumes "fetch_broker_orders b = Inr (Some orders)" "fetch_broker_positions b = Inr positions"
    and "re_up_all env" "re_up_pending env" "unique_broker_ids (rc_table s)"
  shows "(\<exists>r s'. reconcile env cb b s = (Inr r, s') \<and> rr_is_clean r) \<longleftrightarrow> recon_agree (rc_table s) orders positions"
proof
  assume "\<exists>r s'. reconcile env cb b s = (Inr r, s') \<and> rr_is_clean r"
  then obtain r s' where "reconcile_lists env cb orders positions s = (Inr r, s')" "rr_is_clean r"
    using reconcile_body_lists [OF assms(1,2), of env cb s]
    by (auto simp: reconcile_def split: prod.splits sum.splits if_splits option.splits)
  then have "detect_all env s orders positions = Inr []"
    by (rule_tac reconcile_lists_cases [of env s orders positions cb]) auto
  with detect_all_Nil [OF assms(3-5)] show "recon_agree (rc_table s) orders positions" by simp
next
  assume "recon_agree (rc_table s) orders positions"
  then have d: "detect_all env s orders positions = Inr []"
    using detect_all_Nil [OF assms(3-5)] by simp
  then have "\<exists>r s'. reconcile_lists env cb orders positions s = (Inr r, s') \<and> rr_is_clean r"
    by (auto simp: reconcile_lists_def auto_repair_def Let_def)
  then show "\<exists>r s'. reconcile env cb b s = (Inr r, s') \<and> rr_is_clean r"
    using reconcile_body_lists [OF assms(1,2), of env cb s] by (auto simp: reconcile_def)
qed

definition recon_demo_orders :: "jdict list" where
  "recon_demo_orders =
     [[(''orderid'', JInt 7), (''filledshares'', JStr ''25''), (''averageprice'', JInt 100), (''status'', JStr ''complete'')]]"

definition recon_demo :: recon where
  "recon_demo = record_order 0 True ''ORD-1'' ''I-1'' ''NIFTY'' ''BUY'' 25 ''FILLED'' (Some ''7'') None (new_recon [] True)"

theorem clean_iff_agreement_witness:
  "recon_agree (rc_table (update_order_fill 1 True ''ORD-1'' 25 (Fin 100) ''FILLED'' recon_demo)) recon_demo_orders
     [[(''symbol'', JStr ''NIFTY''), (''quantity'', JInt 25)]] \<and>
   (\<exists>r s'. reconcile (all_up 2) None (book_of recon_demo_orders [[(''symbol'', JStr ''NIFTY''), (''quantity'', JInt 25)]])
      (update_order_fill 1 True ''ORD-1'' 25 (Fin 100) ''FILLED'' recon_demo) = (Inr r, s') \<and> rr_is_clean r)"
proof -
  let ?ps = "[[(''symbol'', JStr ''NIFTY''), (''quantity'', JInt 25)]] :: jdict list"
  let ?s = "update_order_fill 1 True ''ORD-1'' 25 (Fin 100) ''FILLED'' recon_demo"
  have "(\<exists>r s'. reconcile (all_up 2) None (book_of recon_demo_orders ?ps) ?s = (Inr r, s') \<and> rr_is_clean r) \<longleftrightarrow>
      recon_agree (rc_table ?s) recon_demo_orders ?ps"
    by (rule clean_iff_agreement)
      (simp_all add: book_of_def fetch_broker_orders_def book_value_def fetch_broker_positions_def positions_value_def
         all_up_def recon_demo_def record_order_def new_recon_def update_order_fill_def tbl_update_def tbl_replace_def
         unique_broker_ids_def)
  moreover have "recon_agree (rc_table ?s) recon_demo_orders ?ps" by code_simp
  ultimately show ?thesis by blast
qed

text \<open>
  C17: When the broker holds a position in a symbol the system never ordered, or reports another filled
  quantity than the internal table, a reconciliation run returns an unclean result and freezes
  trading, and trading stays frozen under every later sequence of operations without an explicit
  unfreeze (the broker's numbers being no nulls or infinities, and the callback raising only the
  exceptions the service handles).
\<close>

theorem divergence_freezes:
  assumes "fetch_broker_orders b = Inr (Some orders)" "fetch_broker_positions b = Inr positions"
    and "re_up_all env" "unique_broker_ids (rc_table s)"
    and "callback_ok cb" "\<forall>bo \<in> set orders. fields_ok bo"
    and "\<not> positions_known (rc_table s) positions \<or> \<not> fills_agree (rc_table s) orders"
    and "list_all keeps_freeze ops"
  shows "\<exists>r s'. reconcile env cb b s = (Inr r, s') \<and> \<not> rr_is_clean r \<and> fst (is_frozen (fold recon_step ops s'))"
proof -
  have "\<exists>r s'. reconcile env cb b s = (Inr r, s') \<and> \<not> rr_is_clean r \<and> rc_frozen s'"
    using reconcile_returns [OF assms(1,2,5,6), of env s] divergence_ambiguous [OF assms(3,4,7)] by metis
  then show ?thesis using recon_run_frozen [OF assms(8)] by (auto simp: is_frozen_def)
qed

theorem divergence_freezes_witness:
  "\<exists>r s'. reconcile (all_up 2) None (book_of recon_demo_orders []) recon_demo = (Inr r, s') \<and> \<not> rr_is_clean r \<and>
     fst (is_frozen (fold recon_step [OpFill 3 True ''ORD-1'' 25 (Fin 100) ''FILLED'',
       OpReconcile (all_up 4) None (book_of recon_demo_orders [])] s'))"
proof (rule divergence_freezes)
  show "fetch_broker_orders (book_of recon_demo_orders []) = Inr (Some recon_demo_orders)"
    "fetch_broker_positions (book_of recon_demo_orders []) = Inr []"
    by (simp_all add: book_of_def fetch_broker_orders_def book_value_def fetch_broker_positions_def positions_value_def)
  show "\<not> positions_known (rc_table recon_demo) [] \<or> \<not> fills_agree (rc_table recon_demo) recon_demo_orders"
    by code_simp
qed (simp_all add: all_up_def unique_broker_ids_def recon_demo_def record_order_def new_recon_def tbl_replace_def
    callback_ok_def fields_ok_def recon_demo_orders_def broker_filled_def broker_price_def jget_def keeps_freeze_def)

text \<open>
  A run with automatic repair counts every stale order and every unrecorded fill as repaired, but
  the next detection on the repaired table finds issues of the same types for the same orders: a stale
  order gets the status UNKNOWN_STALE, which is not a terminal one, and an unrecorded fill is written
  by an update that matches no row (internal order ids being different from the broker's).
\<close>

lemma repair_resolves_nothing:
  assumes "fetch_broker_orders b = Inr (Some orders)" "fetch_broker_positions b = Inr positions"
    and "\<forall>bo \<in> set orders. fields_num bo" "callback_ok cb" "\<forall>i. re_up_repair env i"
    and "tbl_ok eo_order_id (rc_table s)" "rc_auto_repair s"
    and "\<forall>r \<in> set (rc_table s). \<forall>bo \<in> set orders. eo_order_id r \<noteq> broker_order_id bo"
  shows "\<exists>r s' issues. reconcile env cb b s = (Inr r, s') \<and>
           rr_repaired r = length (filter repairable (rr_issues r)) \<and>
           detect_all env s' orders positions = Inr issues \<and>
           map issue_sig issues = map issue_sig (rr_issues r)"
proof -
  have "\<not> isl (detect_all env s orders positions)"
  proof
    assume "isl (detect_all env s orders positions)"
    then obtain bo rows e where "bo \<in> set orders" "check_quantity (internal_by_broker_id rows) bo = Inl e"
      by (auto simp: isl_def detect_all_def Let_def detect_quantity_mismatches_def dest!: res_map_Inl split: sum.splits)
    with assms(3) show False
      by (auto simp: check_quantity_def fields_num_def split: option.splits sum.splits if_splits)
  qed
  then obtain issues where d: "detect_all env s orders positions = Inr issues" by (auto simp: isl_def split: sum.splits) (metis sum.exhaust)
  have "issue_num i" if "i \<in> set issues" for i
    using detect_all_fill_issue [OF d that] assms(3) by (auto simp: issue_num_def fields_num_def)
  then obtain s1 where r: "auto_repair (re_now env) (re_up_repair env) issues s = (None, length (filter repairable issues), s1)"
    using auto_repair_counts [of issues "re_up_repair env" "re_now env" s] assms(5) by auto
  then have "map recon_key (rc_table s) = map recon_key (rc_table s1)"
    using auto_repair_keys [of issues s "re_now env" "re_up_repair env"] detect_all_harmless [OF d assms(6,8)] by simp
  moreover have "\<exists>s2. frozen_if cb issues s1 = (None, s2) \<and> rc_table s2 = rc_table s1"
    using freeze_returns [OF assms(4), of "determine_freeze_reason issues" "format_issues issues" s1]
    by (auto simp: frozen_if_def dest: freeze_table)
  then obtain s2 where f: "frozen_if cb issues s1 = (None, s2)" "rc_table s2 = rc_table s1" by blast
  ultimately have k: "map recon_key (rc_table s) = map recon_key (rc_table s2)" by simp
  let ?r = "run_result env issues (length positions) (length (get_all_orders (re_up_all env) s)) (length (filter repairable issues)) s2"
  have "reconcile_lists env cb orders positions s = (Inr ?r, s2\<lparr>rc_last := Some ?r\<rparr>)"
    using d r f(1) assms(7) by (simp add: reconcile_lists_def frozen_if_def run_result_def Let_def)
  then have "reconcile env cb b s = (Inr ?r, s2\<lparr>rc_last := Some ?r\<rparr>)"
    by (simp add: reconcile_def reconcile_body_lists [OF assms(1,2)])
  moreover obtain issues' where "detect_all env (s2\<lparr>rc_last := Some ?r\<rparr>) orders positions = Inr issues'"
    "map issue_sig issues' = map issue_sig issues"
    using detect_all_sig [of s "s2\<lparr>rc_last := Some ?r\<rparr>", OF _ d] k by auto
  ultimately show ?thesis by auto
qed

end
