(* ===== verification/Ack_Validator.thy ===== *)
theory Ack_Validator
  imports Py_Values Idempotency
begin

text \<open>
  Validation of broker acknowledgements, \<open>core/execution/broker_ack_validator.py\<close>. An acknowledgement
  is a dictionary of scalars; \<open>rp\<close> is \<open>repr\<close> of a float, for messages. The log line for an unknown
  status is left out.
\<close>

section \<open>Definitions\<close>

datatype broker_type = BT_KITE | BT_ANGEL | BT_PAPER | BT_UNKNOWN

definition valid_broker_statuses :: "string list" where
  "valid_broker_statuses =
     [''COMPLETE'', ''FILLED'', ''REJECTED'', ''CANCELLED'', ''OPEN'', ''PENDING'', ''TRIGGER PENDING'',
      ''PARTIALLY FILLED'', ''UNKNOWN'', ''SUBMITTED'']"

fun required_ack_fields :: "broker_type \<Rightarrow> string list" where
  "required_ack_fields BT_KITE = [''order_id'', ''status'']"
| "required_ack_fields BT_ANGEL = [''order_id'', ''status'']"
| "required_ack_fields BT_PAPER = [''order_id'', ''status'']"
| "required_ack_fields BT_UNKNOWN = [''order_id'', ''status'']"

record ack_result =
  ar_is_valid :: bool
  ar_broker :: broker_type
  ar_order_id :: "jval option"
  ar_status :: "jval option"
  ar_error :: "string option"
  ar_warnings :: "string list"

text \<open>\<open>None\<close> stands for no adapter, otherwise the class name is given.\<close>

definition detect_broker_type :: "string option \<Rightarrow> broker_type" where
  "detect_broker_type adapter =
     (case adapter of
        None \<Rightarrow> BT_UNKNOWN
      | Some cls \<Rightarrow>
          let c = str_upper cls
          in if str_contains ''KITE'' c then BT_KITE
             else if str_contains ''ANGEL'' c \<or> str_contains ''SMART'' c then BT_ANGEL
             else if str_contains ''PAPER'' c then BT_PAPER else BT_UNKNOWN)"

text \<open>\<open>type(v).__name__\<close>\<close>

fun type_name :: "jval \<Rightarrow> string" where
  "type_name JNull = ''NoneType''"
| "type_name (JBool b) = ''bool''"
| "type_name (JInt i) = ''int''"
| "type_name (JFloat x r) = ''float''"
| "type_name (JStr s) = ''str''"

definition validate_order_id :: "jval \<Rightarrow> bool \<times> string option" where
  "validate_order_id v =
     (case v of
        JNull \<Rightarrow> (False, Some ''order_id is None'')
      | JStr s \<Rightarrow> if str_strip s = [] then (False, Some ''order_id is empty'') else (True, None)
      | _ \<Rightarrow> (False, Some (''order_id is '' @ type_name v @ '', not str'')))"

definition validate_status :: "jval \<Rightarrow> bool \<times> string option \<times> bool" where
  "validate_status v =
     (case v of
        JNull \<Rightarrow> (False, Some ''status is None'', False)
      | JStr s \<Rightarrow>
          let u = str_upper s;
              term = (u \<in> {''COMPLETE'', ''FILLED'', ''REJECTED'', ''CANCELLED'', ''UNKNOWN''})
          in if u \<notin> set valid_broker_statuses then (True, Some (''Unknown status: '' @ s), term)
             else (True, None, term)
      | _ \<Rightarrow> (False, Some (''status is '' @ type_name v), False))"

fun float_negative :: "pyfloat \<Rightarrow> bool" where
  "float_negative (Fin x) = (x < 0)"
| "float_negative NegInf = True"
| "float_negative _ = False"

definition validate_fill_price :: "(pyfloat \<Rightarrow> string) \<Rightarrow> jval \<Rightarrow> bool \<times> string option" where
  "validate_fill_price rp v =
     (if v = JNull then (True, None)
      else case py_float v of
          Inl e \<Rightarrow> (False, Some (''fill_price not numeric: '' @ py_str v))
        | Inr x \<Rightarrow>
            if float_negative x then (False, Some (''negative fill price: '' @ rp x))
            else if x = Fin 0 \<and> nonzero v then (False, Some ''zero fill price for non-zero input'')
            else (True, None))"

text \<open>\<open>int()\<close> of an infinity raises \<open>OverflowError\<close>, which is not handled.\<close>

definition validate_quantity :: "jval \<Rightarrow> exn + (bool \<times> string option)" where
  "validate_quantity v =
     (if v = JNull then Inr (True, None)
      else case py_int v of
          Inl e \<Rightarrow> if caught [ValueError, TypeError] e then Inr (False, Some (''quantity not int: '' @ py_str v)) else Inl e
        | Inr q \<Rightarrow> if q < 0 then Inr (False, Some (''negative quantity: '' @ show_int q)) else Inr (True, None))"

definition ack_invalid :: "broker_type \<Rightarrow> jval option \<Rightarrow> jval option \<Rightarrow> string option \<Rightarrow> ack_result" where
  "ack_invalid bt oid st err =
     \<lparr>ar_is_valid = False, ar_broker = bt, ar_order_id = oid, ar_status = st, ar_error = err, ar_warnings = []\<rparr>"

fun join_comma :: "string list \<Rightarrow> string" where
  "join_comma [] = []"
| "join_comma [s] = s"
| "join_comma (s # t # ss) = s @ '', '' @ join_comma (t # ss)"

definition validate_acknowledgment :: "(pyfloat \<Rightarrow> string) \<Rightarrow> broker_type \<Rightarrow> jdict \<Rightarrow> exn + ack_result" where
  "validate_acknowledgment rp bt ack =
     (let missing = filter (\<lambda>f. jget ack f JNull = JNull) (required_ack_fields bt);
          oid = jget ack ''order_id'' JNull; st = jget ack ''status'' JNull
      in if missing \<noteq> [] then
           Inr (ack_invalid bt None None (Some (''Missing required fields: ['' @
             join_comma (map (\<lambda>f. CHR 0x27 # f @ [CHR 0x27]) missing) @ '']'')))
         else if \<not> fst (validate_order_id oid) then Inr (ack_invalid bt None None (snd (validate_order_id oid)))
         else if \<not> fst (validate_status st) then Inr (ack_invalid bt (Some oid) None (fst (snd (validate_status st))))
         else case validate_fill_price rp (jget ack ''fill_price'' JNull) of
             (False, err) \<Rightarrow> Inr (ack_invalid bt (Some oid) (Some st) err)
           | (True, _) \<Rightarrow>
               (case validate_quantity (jget ack ''quantity'' JNull) of
                  Inl e \<Rightarrow> Inl e
                | Inr (False, err) \<Rightarrow> Inr (ack_invalid bt (Some oid) (Some st) err)
                | Inr (True, _) \<Rightarrow>
                    Inr \<lparr>ar_is_valid = True, ar_broker = bt, ar_order_id = Some oid, ar_status = Some st,
                         ar_error = None,
                         ar_warnings = (case oid of
                             JStr s \<Rightarrow> if length s < 3
                                       then [''Order ID suspiciously short: '' @ [CHR 0x27] @ s @ [CHR 0x27]] else []
                           | _ \<Rightarrow> [])\<rparr>))"

fun status_value :: "x_status \<Rightarrow> string" where
  "status_value ST_PENDING = ''PENDING''"
| "status_value ST_SUBMITTED = ''SUBMITTED''"
| "status_value ST_PARTIALLY_FILLED = ''PARTIALLY_FILLED''"
| "status_value ST_FILLED = ''FILLED''"
| "status_value ST_CANCELLED = ''CANCELLED''"
| "status_value ST_REJECTED = ''REJECTED''"
| "status_value ST_EXPIRED = ''EXPIRED''"

text \<open>\<open>validate_order_result\<close>, \<open>None\<close> being no result.\<close>

definition validate_order_result :: "(pyfloat \<Rightarrow> string) \<Rightarrow> broker_type \<Rightarrow> x_result option \<Rightarrow> exn + ack_result" where
  "validate_order_result rp bt res =
     (case res of
        None \<Rightarrow> Inr (ack_invalid bt None None (Some ''OrderResult is None''))
      | Some r \<Rightarrow>
          validate_acknowledgment rp bt
            [(''order_id'', JStr (xo_order_id r)), (''status'', JStr (status_value (xo_status r))),
             (''fill_price'', JFloat (Fin (xo_average_price r)) (rp (Fin (xo_average_price r)))),
             (''quantity'', JInt (xo_filled_quantity r))])"

section \<open>Lemmas\<close>

text \<open>A result passes exactly when it has a non-blank id and neither a negative price nor a negative
  quantity; no status is refused. Validation of a result never raises.\<close>

lemma validate_order_result_iff:
  "\<exists>a. validate_order_result rp bt (Some r) = Inr a \<and>
     (ar_is_valid a \<longleftrightarrow> str_strip (xo_order_id r) \<noteq> [] \<and> 0 \<le> xo_average_price r \<and> 0 \<le> xo_filled_quantity r)"
proof -
  have f: "required_ack_fields bt = [''order_id'', ''status'']" by (cases bt) simp_all
  have s: "fst (validate_status (JStr x))" for x by (simp add: validate_status_def Let_def)
  show ?thesis
    unfolding validate_order_result_def validate_acknowledgment_def Let_def f
    by (simp add: validate_order_id_def s validate_fill_price_def validate_quantity_def ack_invalid_def)
qed

lemma validate_acknowledgment_valid:
  assumes "validate_acknowledgment rp bt ack = Inr a" "ar_is_valid a"
  shows "\<exists>s t. jget ack ''order_id'' JNull = JStr s \<and> str_strip s \<noteq> [] \<and> jget ack ''status'' JNull = JStr t"
proof -
  have "fst (validate_order_id (jget ack ''order_id'' JNull))" "fst (validate_status (jget ack ''status'' JNull))"
    using assms by (auto simp: validate_acknowledgment_def Let_def ack_invalid_def split: if_splits)
  then show ?thesis
    by (auto simp: validate_order_id_def validate_status_def split: jval.splits if_splits)
qed

end
