(* ===== verification/Safety_Gates.thy ===== *)
theory Safety_Gates
  imports Prelude
begin

text \<open>
  The two gates an order passes before it can reach a broker: the operating mode of the session,
  \<open>core/operating_mode.py\<close>, and the process-wide kill switch with the loss monitor,
  \<open>core/safety_state.py\<close>. The module-level variables of the latter are the fields of \<open>safety\<close>; the
  kill-file watcher thread is the operation that one of its turns performs, with the presence of the
  file as an argument. \<open>tick\<close> is a reading of \<open>time.monotonic()\<close>. Shutdown callbacks and structured
  logging are left out.
\<close>

section \<open>Definitions\<close>

subsection \<open>Operating mode\<close>

datatype op_mode = OM_SIGNAL_ONLY | OM_BACKTEST | OM_PAPER | OM_SHADOW | OM_LIVE_MANUAL_CONFIRM | OM_FULL_AUTO

fun mode_value :: "op_mode \<Rightarrow> string" where
  "mode_value OM_SIGNAL_ONLY = ''SIGNAL_ONLY''"
| "mode_value OM_BACKTEST = ''BACKTEST''"
| "mode_value OM_PAPER = ''PAPER''"
| "mode_value OM_SHADOW = ''SHADOW''"
| "mode_value OM_LIVE_MANUAL_CONFIRM = ''LIVE_MANUAL_CONFIRM''"
| "mode_value OM_FULL_AUTO = ''FULL_AUTO''"

fun mode_authority :: "op_mode \<Rightarrow> int" where
  "mode_authority OM_SIGNAL_ONLY = 0"
| "mode_authority OM_BACKTEST = 1"
| "mode_authority OM_PAPER = 2"
| "mode_authority OM_SHADOW = 3"
| "mode_authority OM_LIVE_MANUAL_CONFIRM = 4"
| "mode_authority OM_FULL_AUTO = 5"

datatype exec_action = GENERATE_SIGNAL | EVALUATE_RISK | SUBMIT_ORDER | CANCEL_ORDER | MODIFY_POSITION | CLOSE_ALL

fun action_value :: "exec_action \<Rightarrow> string" where
  "action_value GENERATE_SIGNAL = ''GENERATE_SIGNAL''"
| "action_value EVALUATE_RISK = ''EVALUATE_RISK''"
| "action_value SUBMIT_ORDER = ''SUBMIT_ORDER''"
| "action_value CANCEL_ORDER = ''CANCEL_ORDER''"
| "action_value MODIFY_POSITION = ''MODIFY_POSITION''"
| "action_value CLOSE_ALL = ''CLOSE_ALL''"

fun action_min_mode :: "exec_action \<Rightarrow> op_mode" where
  "action_min_mode GENERATE_SIGNAL = OM_SIGNAL_ONLY"
| "action_min_mode EVALUATE_RISK = OM_SIGNAL_ONLY"
| "action_min_mode SUBMIT_ORDER = OM_PAPER"
| "action_min_mode CANCEL_ORDER = OM_PAPER"
| "action_min_mode MODIFY_POSITION = OM_PAPER"
| "action_min_mode CLOSE_ALL = OM_SIGNAL_ONLY"

fun action_live_min_mode :: "exec_action \<Rightarrow> op_mode option" where
  "action_live_min_mode SUBMIT_ORDER = Some OM_LIVE_MANUAL_CONFIRM"
| "action_live_min_mode CANCEL_ORDER = Some OM_LIVE_MANUAL_CONFIRM"
| "action_live_min_mode _ = None"

record mode_transition =
  mt_timestamp :: real
  mt_from :: op_mode
  mt_to :: op_mode
  mt_reason :: string
  mt_by :: string

record mode_manager =
  mm_mode :: op_mode
  mm_full_auto :: bool
  mm_history :: "mode_transition list"
  mm_max_history :: int
  mm_frozen :: bool

definition new_mode_manager :: "op_mode \<Rightarrow> bool \<Rightarrow> int \<Rightarrow> mode_manager" where
  "new_mode_manager mode auto maxh =
     \<lparr>mm_mode = mode, mm_full_auto = auto, mm_history = [], mm_max_history = maxh, mm_frozen = False\<rparr>"

text \<open>\<open>_record_transition\<close> runs after the mode was assigned, and reads the current mode as the old one.\<close>

definition record_transition :: "real \<Rightarrow> op_mode \<Rightarrow> string \<Rightarrow> string \<Rightarrow> mode_manager \<Rightarrow> mode_manager" where
  "record_transition now new reason by_who m =
     (let h = mm_history m @ [\<lparr>mt_timestamp = now, mt_from = mm_mode m, mt_to = new, mt_reason = reason, mt_by = by_who\<rparr>]
      in m\<lparr>mm_history := (if int (length h) > mm_max_history m then tl h else h)\<rparr>)"

abbreviation ModeViolation :: exn_class where "ModeViolation \<equiv> OtherExn ''OperatingModeViolationError''"

definition set_mode :: "real \<Rightarrow> op_mode \<Rightarrow> string \<Rightarrow> string \<Rightarrow> mode_manager \<Rightarrow> exn option \<times> mode_manager" where
  "set_mode now mode reason by_who m =
     (if mm_frozen m
      then (Some (Exn ModeViolation (''Cannot change mode: manager is frozen at '' @ mode_value (mm_mode m))), m)
      else if mode = OM_FULL_AUTO \<and> \<not> mm_full_auto m
      then (Some (Exn ModeViolation ''FULL_AUTO mode requires --enable-full-auto flag or ENABLE_FULL_AUTO=true''), m)
      else (None, record_transition now mode reason by_who (m\<lparr>mm_mode := mode\<rparr>)))"

definition requires_live_broker :: "mode_manager \<Rightarrow> bool" where
  "requires_live_broker m \<longleftrightarrow> mm_mode m \<in> {OM_LIVE_MANUAL_CONFIRM, OM_FULL_AUTO}"

definition allows_execution :: "mode_manager \<Rightarrow> bool \<times> string" where
  "allows_execution m =
     (case mm_mode m of
        OM_SIGNAL_ONLY \<Rightarrow> (False, ''SIGNAL_ONLY: Signal generation only, no execution'')
      | OM_BACKTEST \<Rightarrow> (False, ''BACKTEST: Historical simulation, no live execution'')
      | OM_PAPER \<Rightarrow> (True, ''PAPER: Paper execution allowed'')
      | OM_SHADOW \<Rightarrow> (True, ''SHADOW: Shadow execution allowed (no real orders)'')
      | OM_LIVE_MANUAL_CONFIRM \<Rightarrow> (True, ''LIVE_MANUAL_CONFIRM: Requires manual approval'')
      | OM_FULL_AUTO \<Rightarrow> (True, ''FULL_AUTO: Full auto execution''))"

definition allows_live_execution :: "mode_manager \<Rightarrow> bool \<times> string" where
  "allows_live_execution m =
     (case mm_mode m of
        OM_LIVE_MANUAL_CONFIRM \<Rightarrow> (True, ''LIVE_MANUAL_CONFIRM: Live execution with manual approval'')
      | OM_FULL_AUTO \<Rightarrow> (True, ''FULL_AUTO: Live auto execution'')
      | mode \<Rightarrow> (False, mode_value mode @ '': Live execution not allowed in this mode''))"

definition requires_manual_approval :: "mode_manager \<Rightarrow> bool" where
  "requires_manual_approval m \<longleftrightarrow> mm_mode m = OM_LIVE_MANUAL_CONFIRM"

definition can_perform :: "exec_action \<Rightarrow> mode_manager \<Rightarrow> bool \<times> string" where
  "can_perform a m =
     (if mode_authority (mm_mode m) < mode_authority (action_min_mode a)
      then (False, mode_value (mm_mode m) @ '': '' @ action_value a @ '' requires at least '' @ mode_value (action_min_mode a))
      else (True, []))"

definition can_perform_live :: "exec_action \<Rightarrow> mode_manager \<Rightarrow> bool \<times> string" where
  "can_perform_live a m =
     (case action_live_min_mode a of
        None \<Rightarrow> (True, [])
      | Some mn \<Rightarrow>
          if mode_authority (mm_mode m) < mode_authority mn
          then (False, mode_value (mm_mode m) @ '': LIVE '' @ action_value a @ '' requires at least '' @ mode_value mn)
          else (True, []))"

definition mode_freeze :: "mode_manager \<Rightarrow> mode_manager" where
  "mode_freeze m = m\<lparr>mm_frozen := True\<rparr>"

definition get_history :: "mode_manager \<Rightarrow> mode_transition list" where
  "get_history m = mm_history m"

subsection \<open>Safety state\<close>

record halt_clear =
  hc_timestamp :: real
  hc_source :: string
  hc_reason :: string
  hc_previous :: string

record safety =
  sf_halted :: bool
  sf_reason :: string
  sf_shutdown :: bool
  sf_clears :: "halt_clear list"
  sf_last_clear :: real
  sf_losses :: int
  sf_pnl :: real
  sf_limit :: "real option"

text \<open>The initial values of the module; no limit is minus infinity.\<close>

definition new_safety :: safety where
  "new_safety = \<lparr>sf_halted = False, sf_reason = [], sf_shutdown = False, sf_clears = [], sf_last_clear = 0,
     sf_losses = 0, sf_pnl = 0, sf_limit = None\<rparr>"

definition is_hard_halted :: "safety \<Rightarrow> bool" where "is_hard_halted s = sf_halted s"
definition is_shutting_down :: "safety \<Rightarrow> bool" where "is_shutting_down s = sf_shutdown s"

definition trip_hard_halt :: "string \<Rightarrow> string \<Rightarrow> safety \<Rightarrow> safety" where
  "trip_hard_halt reason source s =
     (if sf_halted s then s
      else s\<lparr>sf_reason := (if source \<noteq> [] then ''['' @ source @ ''] '' @ reason else reason), sf_halted := True\<rparr>)"

definition record_trade_outcome :: "bool \<Rightarrow> safety \<Rightarrow> int \<times> safety" where
  "record_trade_outcome was_profit s =
     (let n = (if was_profit then 0 else sf_losses s + 1) in (n, s\<lparr>sf_losses := n\<rparr>))"

definition reset_consecutive_losses :: "safety \<Rightarrow> safety" where
  "reset_consecutive_losses s = s\<lparr>sf_losses := 0\<rparr>"

definition set_intraday_pnl :: "real \<Rightarrow> safety \<Rightarrow> safety" where
  "set_intraday_pnl pnl s = s\<lparr>sf_pnl := pnl\<rparr>"

definition set_intraday_loss_limit :: "real \<Rightarrow> safety \<Rightarrow> safety" where
  "set_intraday_loss_limit limit s = s\<lparr>sf_limit := Some (- \<bar>limit\<bar>)\<rparr>"

definition check_intraday_pnl_and_halt :: "string \<Rightarrow> safety \<Rightarrow> bool \<times> safety" where
  "check_intraday_pnl_and_halt source s =
     (if sf_halted s then (True, s)
      else case sf_limit s of
          None \<Rightarrow> (False, s)
        | Some limit \<Rightarrow>
            if sf_pnl s < limit
            then (True, trip_hard_halt (''Intraday loss limit breached: P&L='' @ fmt_0f (sf_pnl s)
                          @ '' < limit='' @ fmt_0f limit) source s)
            else (False, s))"

definition reset_intraday_pnl :: "safety \<Rightarrow> safety" where
  "reset_intraday_pnl s = s\<lparr>sf_pnl := 0\<rparr>"

definition clear_hard_halt :: "real \<Rightarrow> real \<Rightarrow> string \<Rightarrow> string \<Rightarrow> safety \<Rightarrow> safety" where
  "clear_hard_halt tick now source reason s =
     (if tick - sf_last_clear s < 60 then s
      else
        let h = sf_clears s @ [\<lparr>hc_timestamp = now, hc_source = source, hc_reason = reason, hc_previous = sf_reason s\<rparr>]
        in s\<lparr>sf_halted := False, sf_reason := [], sf_last_clear := tick,
             sf_clears := (if length h > 100 then tl h else h)\<rparr>)"

definition request_shutdown :: "safety \<Rightarrow> safety" where
  "request_shutdown s = s\<lparr>sf_shutdown := True\<rparr>"

definition hard_halt_reason :: "safety \<Rightarrow> string" where "hard_halt_reason s = sf_reason s"

definition check_kill_file_and_halt :: "bool \<Rightarrow> safety \<Rightarrow> safety" where
  "check_kill_file_and_halt present s =
     (if present then trip_hard_halt ''STOP_TRADING file found in project root'' ''kill_file_check'' s else s)"

text \<open>One turn of the watcher thread; a turn that finds the file is its last one.\<close>

definition kill_file_watcher_turn :: "bool \<Rightarrow> safety \<Rightarrow> safety" where
  "kill_file_watcher_turn present s =
     (if \<not> sf_shutdown s \<and> present
      then request_shutdown (trip_hard_halt ''STOP_TRADING file found in project root'' ''kill_file_watcher'' s)
      else s)"

datatype safety_op =
    SfTrip string string | SfOutcome bool | SfResetLosses | SfPnl real | SfLimit real | SfCheckPnl string
  | SfResetPnl | SfClear real real string string | SfShutdown | SfKillFile bool | SfWatcher bool

fun safety_step :: "safety_op \<Rightarrow> safety \<Rightarrow> safety" where
  "safety_step (SfTrip reason source) s = trip_hard_halt reason source s"
| "safety_step (SfOutcome p) s = snd (record_trade_outcome p s)"
| "safety_step SfResetLosses s = reset_consecutive_losses s"
| "safety_step (SfPnl x) s = set_intraday_pnl x s"
| "safety_step (SfLimit x) s = set_intraday_loss_limit x s"
| "safety_step (SfCheckPnl source) s = snd (check_intraday_pnl_and_halt source s)"
| "safety_step SfResetPnl s = reset_intraday_pnl s"
| "safety_step (SfClear tick now source reason) s = clear_hard_halt tick now source reason s"
| "safety_step SfShutdown s = request_shutdown s"
| "safety_step (SfKillFile present) s = check_kill_file_and_halt present s"
| "safety_step (SfWatcher present) s = kill_file_watcher_turn present s"

section \<open>Lemmas\<close>

lemmas safety_defs = trip_hard_halt_def record_trade_outcome_def reset_consecutive_losses_def set_intraday_pnl_def
  set_intraday_loss_limit_def check_intraday_pnl_and_halt_def reset_intraday_pnl_def request_shutdown_def
  check_kill_file_and_halt_def kill_file_watcher_turn_def clear_hard_halt_def

text \<open>A clear that the cooldown admits.\<close>

fun clears_at :: "safety_op \<Rightarrow> safety \<Rightarrow> bool" where
  "clears_at (SfClear tick now source reason) s = (tick - sf_last_clear s \<ge> 60)"
| "clears_at _ s = False"

lemma safety_step_halted: "sf_halted s \<Longrightarrow> \<not> clears_at x s \<Longrightarrow> sf_halted (safety_step x s) \<and> sf_reason (safety_step x s) = sf_reason s"
  by (cases x) (auto simp: safety_defs Let_def split: option.split)

lemma safety_step_last_clear: "\<not> clears_at x s \<Longrightarrow> sf_last_clear (safety_step x s) = sf_last_clear s"
  by (cases x) (auto simp: safety_defs Let_def split: option.split)

text \<open>Trading stays halted, with the reason of the first trip, while no clear is admitted.\<close>

fun no_clear :: "safety_op list \<Rightarrow> safety \<Rightarrow> bool" where
  "no_clear [] s = True"
| "no_clear (x # xs) s = (\<not> clears_at x s \<and> no_clear xs (safety_step x s))"

lemma halted_until_clear:
  "sf_halted s \<Longrightarrow> no_clear ops s \<Longrightarrow> sf_halted (fold safety_step ops s) \<and> sf_reason (fold safety_step ops s) = sf_reason s"
proof (induction ops arbitrary: s)
  case Nil
  then show ?case by simp
next
  case (Cons x ops)
  then have "sf_halted (safety_step x s) \<and> sf_reason (safety_step x s) = sf_reason s"
    using safety_step_halted by simp
  with Cons show ?case by simp
qed

text \<open>Full autonomy needs the flag.\<close>

definition mode_ok :: "mode_manager \<Rightarrow> bool" where
  "mode_ok m \<longleftrightarrow> (mm_mode m = OM_FULL_AUTO \<longrightarrow> mm_full_auto m)"

datatype mode_op = MSet real op_mode string string | MFreeze

fun mode_step :: "mode_op \<Rightarrow> mode_manager \<Rightarrow> mode_manager" where
  "mode_step (MSet now mode reason by_who) m = snd (set_mode now mode reason by_who m)"
| "mode_step MFreeze m = mode_freeze m"

lemma mode_step_ok: "mode_ok m \<Longrightarrow> mode_ok (mode_step x m)"
  by (cases x) (auto simp: mode_ok_def set_mode_def mode_freeze_def record_transition_def Let_def)

interpretation mode_sys: op_system mode_step mode_ok
  by unfold_locales (rule mode_step_ok)

lemma set_mode_records_new_as_old:
  "set_mode now mode reason by_who m = (None, m') \<Longrightarrow> mm_max_history m > int (length (mm_history m)) \<Longrightarrow>
     last (mm_history m') = \<lparr>mt_timestamp = now, mt_from = mode, mt_to = mode, mt_reason = reason, mt_by = by_who\<rparr>"
  by (auto simp: set_mode_def record_transition_def Let_def split: if_splits)

end
