(* ===== verification/Broker_Routing.thy ===== *)
theory Broker_Routing
  imports Exn_Monad Py_Values
begin

text \<open>
  The smart router of \<open>core/execution/smart_router.py\<close>, which picks one of several brokers for an order,
  and the handler of ambiguous broker states of \<open>core/execution/broker_state_handler.py\<close>.

  An adapter is outside the model: \<open>ad_health\<close> is the outcome of \<open>health_check(9999)\<close> (whether it reports
  healthy), \<open>ad_status\<close> of \<open>get_order_status("_test_")\<close> and \<open>ad_place\<close> of \<open>place_order\<close>, an empty order id
  standing for \<open>None\<close> as well. \<open>sr_sent\<close> records the calls of \<open>place_order\<close> and is not read by the code.
\<close>

section \<open>Definitions\<close>

subsection \<open>Data of the router\<close>

definition default_fees :: "(string, real) dict" where
  "default_fees = [(''KITE'', 20), (''ANGEL'', 15), (''PAPER'', 0)]"

record broker_score =
  bs_broker :: string
  bs_score :: real
  bs_fee :: real
  bs_health :: real
  bs_latency :: real
  bs_execution :: real
  bs_available :: bool

record router_config =
  rc_strategy :: string
  rc_preferred :: string
  rc_min_fill_rate :: real
  rc_blacklist :: "string list"
  rc_fees :: "(string, real) dict"
  rc_timeout :: real

definition default_router_config :: router_config where
  "default_router_config = \<lparr>rc_strategy = ''lowest_fee'', rc_preferred = [], rc_min_fill_rate = 1 / 2, rc_blacklist = [], rc_fees = [],
     rc_timeout = 30\<rparr>"

record route_result =
  rr_success :: bool
  rr_broker :: string
  rr_order_id :: string
  rr_fee :: real
  rr_latency :: real
  rr_error :: string

record order_call =
  oc_broker :: string
  oc_symbol :: string
  oc_direction :: string
  oc_qty :: int
  oc_strike :: int

record router =
  sr_brokers :: "string list"
  sr_cfg :: router_config
  sr_health :: "(string, bool) dict"
  sr_latency :: "(string, real list) dict"
  sr_fills :: "(string, bool list) dict"
  sr_last :: "(string, real) dict"
  sr_rr :: int
  sr_sent :: "order_call list"

record adapter =
  ad_health :: "exn + bool"
  ad_status :: "exn + string"
  ad_place :: "string \<Rightarrow> string \<Rightarrow> int \<Rightarrow> int \<Rightarrow> exn + string"

record router_env =
  ro_now :: real
  ro_start :: real
  ro_end :: real
  ro_adapter :: "string \<Rightarrow> adapter"

definition new_router :: "real \<Rightarrow> router_config \<Rightarrow> string list \<Rightarrow> router" where
  "new_router now cfg names =
     \<lparr>sr_brokers = names, sr_cfg = cfg, sr_health = map (\<lambda>n. (n, True)) names, sr_latency = map (\<lambda>n. (n, [])) names,
      sr_fills = map (\<lambda>n. (n, [])) names, sr_last = map (\<lambda>n. (n, now)) names, sr_rr = 0, sr_sent = []\<rparr>"

subsection \<open>Selection of a broker\<close>

definition probe_catches :: "exn_class list" where
  "probe_catches = [AttributeError, TypeError, OSError, ConnectionError]"

definition dict_or :: "('k, 'v) dict \<Rightarrow> 'k \<Rightarrow> 'v \<Rightarrow> 'v" where
  "dict_or d k v = (case map_of d k of Some x \<Rightarrow> x | None \<Rightarrow> v)"

text \<open>The second health check of a broker that is marked as down, after the timeout.\<close>

definition recheck :: "router_env \<Rightarrow> string \<Rightarrow> router \<Rightarrow> (exn + bool) \<times> router" where
  "recheck env name =
     x_try (x_bind (x_lift (ad_health (ro_adapter env name))) (\<lambda>ok.
         if ok then x_bind (x_upd (\<lambda>s. s\<lparr>sr_health := dict_set name True (sr_health s), sr_last := dict_set name (ro_now env) (sr_last s)\<rparr>))
                      (\<lambda>_. x_ret True)
         else x_ret False))
       probe_catches (\<lambda>e. x_ret False)"

text \<open>The probe of the order status: every answer and every caught exception leaves the broker available.\<close>

definition probe_status :: "router_env \<Rightarrow> string \<Rightarrow> router \<Rightarrow> (exn + bool) \<times> router" where
  "probe_status env name = x_try (x_bind (x_lift (ad_status (ro_adapter env name))) (\<lambda>_. x_ret True)) probe_catches (\<lambda>e. x_ret True)"

definition broker_available :: "router_env \<Rightarrow> string \<Rightarrow> router \<Rightarrow> (exn + bool) \<times> router" where
  "broker_available env name s =
     (let up = dict_or (sr_health s) name True
      in if name \<in> set (rc_blacklist (sr_cfg s)) then x_ret False s
         else if \<not> up \<and> ro_now env - dict_or (sr_last s) name 0 < rc_timeout (sr_cfg s) then x_ret False s
         else x_bind (if up then x_ret True else recheck env name) (\<lambda>ok. if ok then probe_status env name else x_ret False) s)"

fun available_among :: "router_env \<Rightarrow> string list \<Rightarrow> router \<Rightarrow> (exn + string list) \<times> router" where
  "available_among env [] = x_ret []"
| "available_among env (n # ns) =
     x_bind (broker_available env n) (\<lambda>ok. x_bind (available_among env ns) (\<lambda>av. x_ret (if ok then n # av else av)))"

definition available_brokers :: "router_env \<Rightarrow> router \<Rightarrow> (exn + string list) \<times> router" where
  "available_brokers env s = available_among env (sr_brokers s) s"

definition all_fees :: "router_config \<Rightarrow> (string, real) dict" where
  "all_fees c = fold (\<lambda>(k, v). dict_set k v) (rc_fees c) default_fees"

definition fee_of :: "router_config \<Rightarrow> string \<Rightarrow> real" where
  "fee_of c b = dict_or (all_fees c) b 20"

definition max_fee :: "router_config \<Rightarrow> real" where
  "max_fee c = (let vs = map snd (all_fees c) in if vs = [] then 20 else fold max (tl vs) (hd vs))"

definition mean :: "real list \<Rightarrow> real" where
  "mean xs = sum_list xs / real (length xs)"

definition fee_score :: "router_config \<Rightarrow> string \<Rightarrow> real" where
  "fee_score c b = (if max_fee c > 0 then 1 - fee_of c b / max_fee c else 1)"

definition latency_score :: "router \<Rightarrow> string \<Rightarrow> real" where
  "latency_score s b = (let l = dict_or (sr_latency s) b [] in if l = [] then 1 / 2 else max 0 (1 - mean l / 1000))"

definition execution_score :: "router \<Rightarrow> string \<Rightarrow> real" where
  "execution_score s b = (let l = dict_or (sr_fills s) b [] in if l = [] then 1 / 2 else mean (map of_bool l))"

definition composite_score :: "router \<Rightarrow> string \<Rightarrow> bool \<Rightarrow> real" where
  "composite_score s b up =
     fee_score (sr_cfg s) b * (35 / 100) + of_bool up * (30 / 100) + latency_score s b * (15 / 100) + execution_score s b * (20 / 100)"

definition score_broker :: "router_env \<Rightarrow> string \<Rightarrow> router \<Rightarrow> (exn + broker_score option) \<times> router" where
  "score_broker env b s =
     (if b \<in> set (rc_blacklist (sr_cfg s)) \<or> b \<notin> set (sr_brokers s) then x_ret None s
      else x_bind (available_brokers env) (\<lambda>av s.
        let up = (b \<in> set av)
        in x_ret (Some \<lparr>bs_broker = b, bs_score = round_to 4 (composite_score s b up), bs_fee = round_to 4 (fee_score (sr_cfg s) b),
             bs_health = of_bool up, bs_latency = round_to 4 (latency_score s b), bs_execution = round_to 4 (execution_score s b),
             bs_available = up\<rparr>) s) s)"

text \<open>\<open>min(xs, key=f)\<close>, the first of the smallest.\<close>

fun min_by :: "('a \<Rightarrow> real) \<Rightarrow> 'a \<Rightarrow> 'a list \<Rightarrow> 'a" where
  "min_by f b [] = b"
| "min_by f b (x # xs) = min_by f (if f x < f b then x else b) xs"

definition select_lowest_fee :: "router_config \<Rightarrow> string list \<Rightarrow> string" where
  "select_lowest_fee c av = min_by (fee_of c) (hd av) (tl av)"

definition select_round_robin :: "string list \<Rightarrow> router \<Rightarrow> string \<times> router" where
  "select_round_robin av s = (av ! nat (sr_rr s mod int (length av)), s\<lparr>sr_rr := (sr_rr s + 1) mod 1000\<rparr>)"

fun weighted_loop :: "router_env \<Rightarrow> string list \<Rightarrow> string \<Rightarrow> real \<Rightarrow> router \<Rightarrow> (exn + string) \<times> router" where
  "weighted_loop env [] best sc = x_ret best"
| "weighted_loop env (b # bs) best sc =
     x_bind (score_broker env b) (\<lambda>d.
       case d of
         Some r \<Rightarrow> if bs_score r > sc then weighted_loop env bs b (bs_score r) else weighted_loop env bs best sc
       | None \<Rightarrow> weighted_loop env bs best sc)"

definition select_weighted :: "router_env \<Rightarrow> string list \<Rightarrow> router \<Rightarrow> (exn + string) \<times> router" where
  "select_weighted env av = weighted_loop env av (hd av) (- 1)"

definition select_broker :: "router_env \<Rightarrow> router \<Rightarrow> (exn + string option) \<times> router" where
  "select_broker env =
     x_bind (available_brokers env) (\<lambda>av s.
       let c = sr_cfg s
       in if av = [] then x_ret None s
          else if rc_preferred c \<noteq> [] \<and> rc_preferred c \<in> set av then x_ret (Some (rc_preferred c)) s
          else if rc_strategy c = ''lowest_fee'' then x_ret (Some (select_lowest_fee c av)) s
          else if rc_strategy c = ''round_robin'' then (case select_round_robin av s of (b, s') \<Rightarrow> x_ret (Some b) s')
          else if rc_strategy c = ''weighted'' then x_bind (select_weighted env av) (\<lambda>b. x_ret (Some b)) s
          else x_ret (Some (hd av)) s)"

subsection \<open>Routing\<close>

definition route_catches :: "exn_class list" where
  "route_catches = [ValueError, TypeError, OSError, ConnectionError, RuntimeError]"

definition last_n :: "nat \<Rightarrow> 'a list \<Rightarrow> 'a list" where
  "last_n n xs = (if length xs > n then drop (length xs - n) xs else xs)"

definition route_failed :: "string \<Rightarrow> real \<Rightarrow> string \<Rightarrow> route_result" where
  "route_failed b lat err = \<lparr>rr_success = False, rr_broker = b, rr_order_id = [], rr_fee = 0, rr_latency = lat, rr_error = err\<rparr>"

definition note_outcome :: "string \<Rightarrow> bool \<Rightarrow> router \<Rightarrow> router" where
  "note_outcome b ok s = s\<lparr>sr_fills := dict_set b (dict_or (sr_fills s) b [] @ [ok]) (sr_fills s)\<rparr>"

definition route_order :: "router_env \<Rightarrow> string \<Rightarrow> string \<Rightarrow> string \<Rightarrow> int \<Rightarrow> int \<Rightarrow> router \<Rightarrow> (exn + route_result) \<times> router" where
  "route_order env b symbol dir qty strike s =
     (if b \<notin> set (sr_brokers s) then (Inr (route_failed b 0 (''Broker '' @ [CHR 0x27] @ b @ [CHR 0x27] @ '' not registered'')), s)
      else
        let elapsed = (ro_end env - ro_start env) * 1000;
            s1 = s\<lparr>sr_sent := sr_sent s @ [\<lparr>oc_broker = b, oc_symbol = symbol, oc_direction = dir, oc_qty = qty, oc_strike = strike\<rparr>]\<rparr>
        in case ad_place (ro_adapter env b) symbol dir qty strike of
            Inl e \<Rightarrow>
              if caught route_catches e
              then (Inr (route_failed b (round_to 1 elapsed) (''Order placement failed: '' @ exn_msg e)),
                    note_outcome b False (s1\<lparr>sr_health := dict_set b False (sr_health s1)\<rparr>))
              else (Inl e, s1)
          | Inr oid \<Rightarrow>
              let s2 = s1\<lparr>sr_latency := dict_set b (last_n 50 (dict_or (sr_latency s1) b [] @ [elapsed])) (sr_latency s1)\<rparr>
              in if oid \<noteq> []
                 then (Inr \<lparr>rr_success = True, rr_broker = b, rr_order_id = oid, rr_fee = dict_or (rc_fees (sr_cfg s)) b (dict_or default_fees b 0),
                         rr_latency = round_to 1 elapsed, rr_error = []\<rparr>,
                       s2\<lparr>sr_health := dict_set b True (sr_health s2), sr_last := dict_set b (ro_end env) (sr_last s2)\<rparr>)
                 else (Inr (route_failed b (round_to 1 elapsed) ''Broker returned no order ID''), note_outcome b False s2))"

definition route_to_best :: "router_env \<Rightarrow> string \<Rightarrow> string \<Rightarrow> int \<Rightarrow> int \<Rightarrow> router \<Rightarrow> (exn + route_result) \<times> router" where
  "route_to_best env symbol dir qty strike =
     x_bind (select_broker env) (\<lambda>b.
       case b of None \<Rightarrow> x_ret (route_failed [] 0 ''No available broker found'') | Some b \<Rightarrow> route_order env b symbol dir qty strike)"

definition record_fill_outcome :: "string \<Rightarrow> bool \<Rightarrow> router \<Rightarrow> router" where
  "record_fill_outcome b ok s = s\<lparr>sr_fills := dict_set b (last_n 100 (dict_or (sr_fills s) b [] @ [ok])) (sr_fills s)\<rparr>"

subsection \<open>Ambiguous broker states\<close>

datatype state_category = BC_KNOWN_TERMINAL | BC_KNOWN_PENDING | BC_TIMEOUT | BC_NETWORK_ERROR | BC_UNKNOWN_STATUS | BC_NO_RESPONSE

datatype action_recommendation = AR_PROCEED | AR_RETRY | AR_BLOCK_RETRY | AR_MANUAL_REVIEW | AR_UNKNOWN

record state_resolution =
  re_category :: state_category
  re_action :: action_recommendation
  re_message :: string
  re_can_retry :: bool
  re_terminal :: bool

record state_handler =
  bh_max_retries :: int
  bh_timeout :: int
  bh_unknown :: "(string, int) dict"

definition create_state_handler :: "int \<Rightarrow> int \<Rightarrow> state_handler" where
  "create_state_handler n t = \<lparr>bh_max_retries = n, bh_timeout = t, bh_unknown = []\<rparr>"

definition unknown_status_threshold :: int where
  "unknown_status_threshold = 3"

definition resolution :: "state_category \<Rightarrow> action_recommendation \<Rightarrow> string \<Rightarrow> bool \<Rightarrow> bool \<Rightarrow> state_resolution" where
  "resolution c a m r t = \<lparr>re_category = c, re_action = a, re_message = m, re_can_retry = r, re_terminal = t\<rparr>"

text \<open>\<open>status.upper().strip()\<close>\<close>

definition status_norm :: "string \<Rightarrow> string" where
  "status_norm st = str_strip (str_upper st)"

text \<open>The resolution of a status the handler knows; \<open>None\<close> for any other.\<close>

definition known_status :: "real \<Rightarrow> string \<Rightarrow> real option \<Rightarrow> string option \<Rightarrow> state_handler \<Rightarrow> state_resolution option" where
  "known_status now status last_update last_error h =
     (let u = status_norm status; l = str_lower u
      in if u \<in> {''COMPLETE'', ''FILLED''} then Some (resolution BC_KNOWN_TERMINAL AR_PROCEED (''Order '' @ l) False True)
         else if u \<in> {''REJECTED'', ''CANCELLED'', ''EXPIRED''}
         then Some (resolution BC_KNOWN_TERMINAL AR_BLOCK_RETRY (''Order '' @ l @ '' - no retry allowed'') False True)
         else if u \<in> {''OPEN'', ''PENDING'', ''TRIGGER PENDING'', ''SUBMITTED''}
         then Some (case last_update of
             Some t \<Rightarrow> if now - t > of_int (bh_timeout h)
                       then resolution BC_TIMEOUT AR_RETRY (''Order '' @ l @ '' but exceeded '' @ show_int (bh_timeout h) @ ''s timeout'') True False
                       else resolution BC_KNOWN_PENDING AR_PROCEED (''Order '' @ l @ '' - awaiting fill'') False False
           | None \<Rightarrow> resolution BC_KNOWN_PENDING AR_PROCEED (''Order '' @ l @ '' - awaiting fill'') False False)
         else if u \<in> {''PARTIALLY FILLED'', ''PARTIAL''}
         then Some (resolution BC_KNOWN_PENDING AR_PROCEED ''Order partially filled - tracking remaining'' False False)
         else if str_contains ''NETWORK'' u \<or> str_contains ''CONNECTION'' u \<or> str_contains ''TIMEOUT'' u
         then Some (resolution BC_NETWORK_ERROR AR_RETRY
                (''Network error: '' @ (case last_error of Some e \<Rightarrow> if e = [] then status else e | None \<Rightarrow> status)) True False)
         else None)"

definition resolve_status :: "real \<Rightarrow> string option \<Rightarrow> real option \<Rightarrow> string option \<Rightarrow> state_handler \<Rightarrow> state_resolution \<times> state_handler" where
  "resolve_status now st last_update last_error h =
     (case st of
        None \<Rightarrow> (resolution BC_NO_RESPONSE AR_RETRY ''No status received from broker'' True False, h)
      | Some status \<Rightarrow>
          if status = [] then (resolution BC_NO_RESPONSE AR_RETRY ''No status received from broker'' True False, h)
          else case known_status now status last_update last_error h of
              Some r \<Rightarrow> (r, h)
            | None \<Rightarrow>
                let u = status_norm status; n = dict_or (bh_unknown h) u 0
                in if n \<ge> unknown_status_threshold
                   then (resolution BC_UNKNOWN_STATUS AR_MANUAL_REVIEW
                          (''Unknown status '' @ [CHR 0x27] @ status @ [CHR 0x27] @ '' seen '' @ show_int n @ '' times - requires manual review'') False False, h)
                   else (resolution BC_UNKNOWN_STATUS AR_RETRY
                          (''Unknown status '' @ [CHR 0x27] @ status @ [CHR 0x27] @ '' - will retry'') True False,
                         h\<lparr>bh_unknown := dict_set u (n + 1) (bh_unknown h)\<rparr>))"

definition should_retry_status :: "real \<Rightarrow> string option \<Rightarrow> int \<Rightarrow> state_resolution option \<Rightarrow> state_handler \<Rightarrow> bool \<times> state_handler" where
  "should_retry_status now st retries res h =
     (case (case res of Some r \<Rightarrow> (r, h) | None \<Rightarrow> resolve_status now st None None h) of
        (r, h') \<Rightarrow> (re_can_retry r \<and> retries < bh_max_retries h', h'))"

definition handle_timeout :: "string \<Rightarrow> int \<Rightarrow> state_handler \<Rightarrow> state_resolution" where
  "handle_timeout oid n h =
     (if n \<ge> bh_max_retries h
      then resolution BC_TIMEOUT AR_BLOCK_RETRY (''Order '' @ oid @ '': timeout after '' @ show_int n @ '' retries'') False False
      else resolution BC_TIMEOUT AR_RETRY (''Order '' @ oid @ '': timeout, retry attempt '' @ show_int (n + 1)) True False)"

definition handle_exception :: "string \<Rightarrow> exn \<Rightarrow> int \<Rightarrow> state_handler \<Rightarrow> state_resolution" where
  "handle_exception oid e n h =
     (let msg = exn_msg e; m = str_lower msg; has = (\<lambda>ps. list_ex (\<lambda>p. str_contains p m) ps)
      in if has [''timeout'', ''timed out''] then handle_timeout oid n h
         else if has [''network'', ''connection'']
         then if n \<ge> bh_max_retries h
              then resolution BC_NETWORK_ERROR AR_BLOCK_RETRY (''Network error after '' @ show_int n @ '' retries: '' @ msg) False False
              else resolution BC_NETWORK_ERROR AR_RETRY (''Network error: '' @ msg) True False
         else if has [''auth'', ''token'', ''unauthorized'']
         then resolution BC_NETWORK_ERROR AR_BLOCK_RETRY (''Auth error (non-retryable): '' @ msg) False True
         else if has [''insufficient'', ''margin'']
         then resolution BC_KNOWN_TERMINAL AR_BLOCK_RETRY (''Margin/balance error: '' @ msg) False True
         else if n \<ge> bh_max_retries h
         then resolution BC_UNKNOWN_STATUS AR_BLOCK_RETRY (''Max retries exceeded: '' @ exn_name (exn_cls e) @ '' - '' @ msg) False False
         else resolution BC_UNKNOWN_STATUS AR_RETRY (''Error ('' @ exn_name (exn_cls e) @ ''): '' @ msg) True False)"

definition get_pending_orders_count :: "state_handler \<Rightarrow> nat" where
  "get_pending_orders_count h = length (filter (\<lambda>n. n < unknown_status_threshold) (map snd (bh_unknown h)))"

definition clear_unknown_status :: "string \<Rightarrow> state_handler \<Rightarrow> state_handler" where
  "clear_unknown_status st h = h\<lparr>bh_unknown := dict_del (status_norm st) (bh_unknown h)\<rparr>"

section \<open>Lemmas\<close>

lemma min_by_least: "min_by f b xs \<in> insert b (set xs) \<and> (\<forall>x \<in> insert b (set xs). f (min_by f b xs) \<le> f x)"
proof (induction xs arbitrary: b)
  case (Cons x xs)
  show ?case using Cons.IH [of "if f x < f b then x else b"] by (auto split: if_splits)
qed simp

text \<open>The parts of a router that selecting a broker leaves alone.\<close>

definition router_frame :: "router \<Rightarrow> string list \<times> router_config \<times> order_call list" where
  "router_frame s = (sr_brokers s, sr_cfg s, sr_sent s)"

lemma broker_available_keeps: "x_keeps router_frame (broker_available env n)"
proof -
  have "x_keeps router_frame (recheck env n)" "x_keeps router_frame (probe_status env n)"
    unfolding recheck_def probe_status_def by (intro keeps_intros; simp add: router_frame_def)+
  then have "x_keeps router_frame (x_bind (if up then x_ret True else recheck env n) (\<lambda>ok. if ok then probe_status env n else x_ret False))" for up
    by (intro keeps_bind) (auto intro: keeps_intros)
  then show ?thesis by (simp add: x_keeps_def broker_available_def Let_def x_ret_def)
qed

lemma available_among_keeps: "x_keeps router_frame (available_among env ns)"
  by (induction ns) (auto intro!: keeps_intros broker_available_keeps)

lemma available_keeps: "x_keeps router_frame (available_brokers env)"
  using available_among_keeps by (simp add: x_keeps_def available_brokers_def)

text \<open>An available broker is listed and not blacklisted.\<close>

lemma broker_available_listed:
  assumes "broker_available env n s = (Inr True, s')"
  shows "n \<notin> set (rc_blacklist (sr_cfg s))"
  using assms by (auto simp: broker_available_def Let_def x_ret_def split: if_splits)

lemma available_among_listed:
  assumes "available_among env ns s = (Inr av, s')"
  shows "set av \<subseteq> set ns - set (rc_blacklist (sr_cfg s))"
  using assms
proof (induction ns arbitrary: s av)
  case Nil
  then show ?case by (simp add: x_ret_def)
next
  case (Cons n ns)
  then obtain ok t av' where t: "broker_available env n s = (Inr ok, t)" "available_among env ns t = (Inr av', s')" "av = (if ok then n # av' else av')"
    by (auto simp: bind_Inr x_ret_def)
  have "sr_cfg t = sr_cfg s" using keepsD [OF broker_available_keeps t(1)] by (simp add: router_frame_def)
  then have "set av' \<subseteq> set ns - set (rc_blacklist (sr_cfg s))" using Cons.IH [OF t(2)] by simp
  moreover have "ok \<Longrightarrow> n \<notin> set (rc_blacklist (sr_cfg s))" using broker_available_listed t(1) by auto
  ultimately show ?case using t(3) by auto
qed

lemma available_listed:
  "available_brokers env s = (Inr av, s') \<Longrightarrow> set av \<subseteq> set (sr_brokers s) - set (rc_blacklist (sr_cfg s)) \<and> router_frame s' = router_frame s"
  using available_among_listed available_keeps keepsD by (fastforce simp: available_brokers_def)

lemma score_keeps: "x_keeps router_frame (score_broker env b)"
proof -
  have "x_keeps router_frame (x_bind (available_brokers env) (\<lambda>av s. x_ret (f av s) s))" for f :: "string list \<Rightarrow> router \<Rightarrow> broker_score option"
    by (intro keeps_bind available_keeps) (simp add: x_keeps_def x_ret_def)
  then show ?thesis by (simp add: x_keeps_def score_broker_def x_ret_def Let_def)
qed

lemma weighted_keeps: "x_keeps router_frame (weighted_loop env bs best sc)"
  by (induction bs arbitrary: best sc) (auto intro!: keeps_intros score_keeps split: option.split)

lemma weighted_chosen: "weighted_loop env bs best sc s = (Inr b, s') \<Longrightarrow> b \<in> insert best (set bs)"
  by (induction bs arbitrary: best sc s) (auto simp: x_ret_def bind_Inr split: option.splits if_splits dest!: in_mono)

lemma select_chosen:
  assumes "select_broker env s = (Inr (Some b), s')"
  obtains av t where "available_brokers env s = (Inr av, t)" "b \<in> set av" "router_frame s' = router_frame t"
proof -
  obtain av t where t: "available_brokers env s = (Inr av, t)" using assms by (auto simp: select_broker_def bind_Inr)
  have ne: "av \<noteq> []" using assms t by (auto simp: select_broker_def x_bind_def x_ret_def Let_def)
  then have h: "hd av \<in> set av" "set av = insert (hd av) (set (tl av))" by (simp, metis list.collapse list.simps(15))
  have lo: "select_lowest_fee c av \<in> set av" for c using min_by_least [of "fee_of c" "hd av" "tl av"] h(2) by (simp add: select_lowest_fee_def)
  have rr: "av ! nat (i mod int (length av)) \<in> set av" for i using ne by (intro nth_mem) (simp add: nat_less_iff)
  have w: "select_weighted env av u = (Inr x, u') \<Longrightarrow> x \<in> set av \<and> router_frame u' = router_frame u" for x u u'
    using weighted_chosen keepsD [OF weighted_keeps] h by (fastforce simp: select_weighted_def)
  have "b \<in> set av \<and> router_frame s' = router_frame t"
    using assms t ne h(1) lo rr w
    by (auto simp: select_broker_def x_bind_def x_ret_def Let_def select_round_robin_def router_frame_def split: if_splits sum.splits prod.splits)
  with t that show ?thesis by blast
qed

lemma select_listed:
  assumes "select_broker env s = (Inr (Some b), s')"
  shows "b \<in> set (sr_brokers s) - set (rc_blacklist (sr_cfg s))" "router_frame s' = router_frame s"
proof -
  obtain av t where a: "available_brokers env s = (Inr av, t)" "b \<in> set av" "router_frame s' = router_frame t"
    using select_chosen [OF assms] by blast
  note l = available_listed [OF a(1)]
  show "b \<in> set (sr_brokers s) - set (rc_blacklist (sr_cfg s))" using l a(2) by blast
  show "router_frame s' = router_frame s" using l a(3) by simp
qed

text \<open>A health check that refuses the argument it is called with never reports a recovery.\<close>

definition no_health :: "string \<Rightarrow> router_env \<Rightarrow> bool" where
  "no_health b env \<longleftrightarrow> (\<exists>m. ad_health (ro_adapter env b) = Inl (Exn TypeError m))"

definition health_of :: "string \<Rightarrow> router \<Rightarrow> bool option" where
  "health_of b s = map_of (sr_health s) b"

lemma recheck_dead: "no_health b env \<Longrightarrow> recheck env b s = (Inr False, s)"
  by (auto simp: no_health_def recheck_def x_try_def x_ret_def probe_catches_def caught_def exn_isa_def)

lemma broker_available_health:
  assumes "no_health b env"
  shows "x_keeps (health_of b) (broker_available env n)"
proof -
  have "x_keeps (health_of b) (recheck env n)"
  proof (cases "n = b")
    case True
    then show ?thesis using recheck_dead [OF assms] by (simp add: x_keeps_def)
  next
    case False
    then show ?thesis unfolding recheck_def by (intro keeps_intros) (simp add: health_of_def)
  qed
  moreover have "x_keeps (health_of b) (probe_status env n)" unfolding probe_status_def by (intro keeps_intros)
  ultimately have "x_keeps (health_of b) (x_bind (if up then x_ret True else recheck env n) (\<lambda>ok. if ok then probe_status env n else x_ret False))" for up
    by (intro keeps_bind) (auto intro: keeps_intros)
  then show ?thesis by (simp add: x_keeps_def broker_available_def Let_def x_ret_def)
qed

lemma dead_not_available:
  assumes "no_health b env" "health_of b s = Some False"
  shows "broker_available env b s \<noteq> (Inr True, s')"
  using assms(2) recheck_dead [OF assms(1)]
  by (auto simp: broker_available_def Let_def x_ret_def x_bind_def health_of_def dict_or_def split: if_splits)

lemma available_among_dead:
  assumes "no_health b env" "health_of b s = Some False" "available_among env ns s = (Inr av, s')"
  shows "b \<notin> set av"
  using assms(2,3)
proof (induction ns arbitrary: s av)
  case Nil
  then show ?case by (simp add: x_ret_def)
next
  case (Cons n ns)
  then obtain ok t av' where t: "broker_available env n s = (Inr ok, t)" "available_among env ns t = (Inr av', s')" "av = (if ok then n # av' else av')"
    by (auto simp: bind_Inr x_ret_def)
  have "health_of b t = Some False" using keepsD [OF broker_available_health [OF assms(1)] t(1)] Cons.prems(1) by simp
  then have "b \<notin> set av'" using Cons.IH t(2) by blast
  moreover have "ok \<Longrightarrow> n \<noteq> b" using dead_not_available [OF assms(1) Cons.prems(1)] t(1) by auto
  ultimately show ?case using t(3) by auto
qed

lemma select_health:
  assumes "no_health b env"
  shows "x_keeps (health_of b) (select_broker env)"
proof -
  have among: "x_keeps (health_of b) (available_among env ns)" for ns
    by (induction ns) (auto intro!: keeps_intros broker_available_health [OF assms])
  then have av: "x_keeps (health_of b) (available_brokers env)" by (simp add: x_keeps_def available_brokers_def)
  have "x_keeps (health_of b) (x_bind (available_brokers env) (\<lambda>av s. x_ret (f av s) s))" for f :: "string list \<Rightarrow> router \<Rightarrow> broker_score option"
    by (intro keeps_bind av) (simp add: x_keeps_def x_ret_def)
  then have sc: "x_keeps (health_of b) (score_broker env n)" for n by (simp add: x_keeps_def score_broker_def x_ret_def Let_def)
  have "x_keeps (health_of b) (weighted_loop env bs best v)" for bs best v
    by (induction bs arbitrary: best v) (auto intro!: keeps_intros sc split: option.split)
  then have "x_keeps (health_of b) (x_bind (select_weighted env as) (\<lambda>x. x_ret (Some x)))" for as
    unfolding select_weighted_def by (intro keeps_intros)
  then show ?thesis
    unfolding select_broker_def
    by (intro keeps_bind av) (auto simp: x_keeps_def x_ret_def Let_def select_round_robin_def health_of_def split: prod.split)
qed

text \<open>What one call of \<open>route_order\<close> does.\<close>

lemma route_order_sent:
  assumes "b \<in> set (sr_brokers s)"
  shows "sr_sent (snd (route_order env b sy d q k s)) =
    sr_sent s @ [\<lparr>oc_broker = b, oc_symbol = sy, oc_direction = d, oc_qty = q, oc_strike = k\<rparr>]"
  using assms by (simp add: route_order_def Let_def note_outcome_def split: sum.split)

lemma route_order_reply:
  assumes "b \<in> set (sr_brokers s)" "route_order env b sy d q k s = (Inr r, s')"
  shows "rr_broker r = b" "rr_success r \<longleftrightarrow> rr_order_id r \<noteq> []"
    "rr_success r \<longleftrightarrow> (\<exists>i. i \<noteq> [] \<and> ad_place (ro_adapter env b) sy d q k = Inr i)"
    "ad_place (ro_adapter env b) sy d q k = Inr i \<Longrightarrow> rr_order_id r = i"
  using assms by (auto simp: route_order_def Let_def route_failed_def split: sum.splits if_splits)

lemma route_order_health: "c \<noteq> b \<Longrightarrow> health_of b (snd (route_order env c sy d q k s)) = health_of b s"
  by (auto simp: route_order_def Let_def health_of_def note_outcome_def split: sum.split)

text \<open>One call of \<open>route_to_best\<close> reaches at most one adapter, raising or not.\<close>

lemma route_sends_once:
  assumes "route_to_best env sy d q k s = (res, s')"
  obtains cs where "sr_sent s' = sr_sent s @ cs" "length cs \<le> 1"
proof -
  have sel: "x_keeps router_frame (\<lambda>s. x_ret x s)" for x :: "string option" by (simp add: x_keeps_def x_ret_def)
  have w: "x_keeps router_frame (x_bind (select_weighted env av) (\<lambda>b. x_ret (Some b)))" for av
    unfolding select_weighted_def by (intro keeps_intros weighted_keeps)
  have "x_keeps router_frame (select_broker env)"
    unfolding select_broker_def
    by (intro keeps_bind available_keeps)
      (use w sel in \<open>auto simp: x_keeps_def Let_def x_ret_def select_round_robin_def router_frame_def split: prod.split\<close>)
  then have keep: "sr_sent t = sr_sent s" if "select_broker env s = (r, t)" for r t
    using keepsD that by (fastforce simp: router_frame_def)
  have ro: "\<exists>cs. sr_sent (snd (route_order env b sy d q k t)) = sr_sent t @ cs \<and> length cs \<le> 1" for b t
    by (cases "b \<in> set (sr_brokers t)") (simp_all add: route_order_sent, simp add: route_order_def)
  obtain r t where t: "select_broker env s = (r, t)" by fastforce
  have "\<exists>cs. sr_sent s' = sr_sent s @ cs \<and> length cs \<le> 1"
    using assms t keep [OF t] ro [of _ t] by (auto simp: route_to_best_def x_bind_def x_ret_def split: sum.splits option.splits) (metis snd_conv)+
  with that show thesis by blast
qed

section \<open>Properties\<close>

text \<open>
  C21: \<open>route_to_best\<close> sends an order to at most one broker: either it reports a failure and no adapter was
  called, or exactly one adapter was called, with the given order; that broker is registered and not
  blacklisted, and success is reported exactly when it returned an order id, which is the reported one.
\<close>

theorem routed_once:
  assumes "route_to_best env sy d q k s = (Inr r, s')"
  shows "(sr_sent s' = sr_sent s \<and> \<not> rr_success r) \<or>
    (rr_broker r \<in> set (sr_brokers s) \<and> rr_broker r \<notin> set (rc_blacklist (sr_cfg s)) \<and>
     sr_sent s' = sr_sent s @ [\<lparr>oc_broker = rr_broker r, oc_symbol = sy, oc_direction = d, oc_qty = q, oc_strike = k\<rparr>] \<and>
     (rr_success r \<longleftrightarrow> (\<exists>i. i \<noteq> [] \<and> ad_place (ro_adapter env (rr_broker r)) sy d q k = Inr i \<and> rr_order_id r = i)))"
proof -
  obtain ob t where t: "select_broker env s = (Inr ob, t)" using assms by (auto simp: route_to_best_def bind_Inr)
  show ?thesis
  proof (cases ob)
    case None
    then have "router_frame t = router_frame s" using t available_keeps keepsD
      by (fastforce simp: select_broker_def bind_Inr x_ret_def Let_def select_round_robin_def split: if_splits)
    with None t assms show ?thesis by (auto simp: route_to_best_def x_bind_def x_ret_def route_failed_def router_frame_def)
  next
    case (Some b)
    note l = select_listed [OF t [unfolded Some]]
    have e: "route_order env b sy d q k t = (Inr r, s')" using Some t assms by (simp add: route_to_best_def x_bind_def)
    have b: "b \<in> set (sr_brokers t)" using l by (simp add: router_frame_def)
    note rep = route_order_reply [OF b e]
    have "sr_sent s' = sr_sent s @ [\<lparr>oc_broker = b, oc_symbol = sy, oc_direction = d, oc_qty = q, oc_strike = k\<rparr>]"
      using route_order_sent [OF b, of env sy d q k] e l(2) by (simp add: router_frame_def)
    with l(1) rep show ?thesis by auto
  qed
qed

definition demo_adapter :: "(exn + bool) \<Rightarrow> exn + string \<Rightarrow> adapter" where
  "demo_adapter h p = \<lparr>ad_health = h, ad_status = Inr ''UNKNOWN'', ad_place = (\<lambda>_ _ _ _. p)\<rparr>"

definition demo_router :: router where
  "demo_router = new_router 0 default_router_config [''KITE'', ''ANGEL'']"

text \<open>KITE accepts orders; ANGEL, the cheaper one, raises \<open>e\<close>, and its health check takes no argument.\<close>

definition demo_router_env :: "real \<Rightarrow> exn + string \<Rightarrow> router_env" where
  "demo_router_env now angel =
     \<lparr>ro_now = now, ro_start = now, ro_end = now, ro_adapter = (\<lambda>n. if n = ''ANGEL''
        then demo_adapter (Inl (Exn TypeError ''takes 1 positional argument but 2 were given'')) angel
        else demo_adapter (Inr True) (Inr ''K-1''))\<rparr>"

lemma demo_route: "route_to_best (demo_router_env 1 a) ''NIFTY'' ''CALL'' 1 100 demo_router = route_order (demo_router_env 1 a) ''ANGEL'' ''NIFTY'' ''CALL'' 1 100 demo_router"
  by (simp add: route_to_best_def select_broker_def demo_router_def demo_router_env_def available_brokers_def new_router_def
      default_router_config_def broker_available_def dict_or_def probe_status_def demo_adapter_def x_bind_def x_ret_def x_try_def x_lift_def
      select_lowest_fee_def fee_of_def all_fees_def default_fees_def)

theorem routed_once_witness:
  "\<exists>r s'. route_to_best (demo_router_env 1 (Inr ''A-1'')) ''NIFTY'' ''CALL'' 1 100 demo_router = (Inr r, s') \<and> rr_success r \<and>
     rr_broker r = ''ANGEL'' \<and> length (sr_sent s') = 1"
proof -
  obtain r s' where e: "route_to_best (demo_router_env 1 (Inr ''A-1'')) ''NIFTY'' ''CALL'' 1 100 demo_router = (Inr r, s')"
    and r: "rr_success r" "rr_broker r = ''ANGEL''"
    using demo_route [of "Inr ''A-1''"]
    by (simp add: route_order_def demo_router_def new_router_def demo_router_env_def demo_adapter_def Let_def)
  have "sr_sent demo_router = []" by (simp add: demo_router_def new_router_def)
  with routed_once [OF e] r have "length (sr_sent s') = 1" by auto
  with e r show ?thesis by blast
qed

text \<open>A call of the router: the environment at that time and the order.\<close>

type_synonym route_call = "router_env \<times> string \<times> string \<times> int \<times> int"

fun route_step :: "route_call \<Rightarrow> router \<Rightarrow> router" where
  "route_step (env, sy, d, q, k) s = snd (route_to_best env sy d q k s)"

lemma dead_step:
  assumes "no_health b env" "health_of b s = Some False"
  shows "health_of b (route_step (env, sy, d, q, k) s) = Some False \<and>
    filter (\<lambda>c. oc_broker c = b) (sr_sent (route_step (env, sy, d, q, k) s)) = filter (\<lambda>c. oc_broker c = b) (sr_sent s)"
proof -
  obtain v t where t: "select_broker env s = (v, t)" by fastforce
  have h: "health_of b t = Some False" using keepsD [OF select_health [OF assms(1)] t] assms(2) by simp
  show ?thesis
  proof (cases "\<exists>c. v = Inr (Some c)")
    case True
    then obtain c where c: "v = Inr (Some c)" by blast
    obtain av u where av: "available_brokers env s = (Inr av, u)" "c \<in> set av" using select_chosen [OF t [unfolded c]] by blast
    have "c \<noteq> b" using available_among_dead [OF assms(1) assms(2)] av by (auto simp: available_brokers_def)
    moreover have "c \<in> set (sr_brokers t)" "sr_sent t = sr_sent s" using select_listed [OF t [unfolded c]] by (auto simp: router_frame_def)
    moreover have "route_step (env, sy, d, q, k) s = snd (route_order env c sy d q k t)" using t c by (simp add: route_to_best_def x_bind_def)
    ultimately show ?thesis using h by (simp add: route_order_health route_order_sent)
  next
    case False
    have "x_keeps router_frame (x_bind (select_weighted env as) (\<lambda>x. x_ret (Some x)))" for as
      unfolding select_weighted_def by (intro keeps_intros weighted_keeps)
    then have "x_keeps router_frame (select_broker env)"
      unfolding select_broker_def
      by (intro keeps_bind available_keeps) (auto simp: x_keeps_def x_ret_def Let_def select_round_robin_def router_frame_def split: prod.split)
    then have "sr_sent t = sr_sent s" using keepsD [of router_frame "select_broker env"] t by (fastforce simp: router_frame_def)
    moreover have "route_step (env, sy, d, q, k) s = t"
      using t False by (auto simp: route_to_best_def x_bind_def x_ret_def split: sum.splits option.splits)
    ultimately show ?thesis using h by simp
  qed
qed

lemma dead_run:
  "health_of b u = Some False \<Longrightarrow> \<forall>c \<in> set cs. no_health b (fst c) \<Longrightarrow>
     filter (\<lambda>c. oc_broker c = b) (sr_sent (fold route_step cs u)) = filter (\<lambda>c. oc_broker c = b) (sr_sent u)"
proof (induction cs arbitrary: u)
  case (Cons c cs)
  obtain env sy d q k where c: "c = (env, sy, d, q, k)" by (cases c)
  then show ?case using dead_step [of b env u sy d q k] Cons by (simp del: route_step.simps)
qed simp

text \<open>
  A broker that failed once is out for good. The router calls the adapter's health check with an
  argument; the adapters' health checks take none, so the call raises a \<open>TypeError\<close>, which the router
  takes for a broker that is still down. Once marked as down, no sequence of \<open>route_to_best\<close> calls, at
  whatever times, sends it an order again, although it would accept it.
\<close>

lemma failed_broker_stays_out:
  assumes "b \<in> set (sr_brokers s)" "ad_place (ro_adapter env b) sy d q k = Inl e" "caught route_catches e"
    and "\<forall>c \<in> set cs. no_health b (fst c)"
  shows "filter (\<lambda>c. oc_broker c = b) (sr_sent (fold route_step cs (snd (route_order env b sy d q k s)))) =
    filter (\<lambda>c. oc_broker c = b) (sr_sent (snd (route_order env b sy d q k s)))"
proof -
  have "health_of b (snd (route_order env b sy d q k s)) = Some False"
    using assms(1-3) by (simp add: route_order_def Let_def health_of_def note_outcome_def)
  then show ?thesis using dead_run assms(4) by blast
qed

text \<open>A sequence of resolutions: the time, the status, the last update and error; with each answer its status.\<close>

fun resolve_all :: "(real \<times> string option \<times> real option \<times> string option) list \<Rightarrow> state_handler \<Rightarrow> (string option \<times> state_resolution) list" where
  "resolve_all [] h = []"
| "resolve_all ((now, st, lu, le) # cs) h = (case resolve_status now st lu le h of (r, h') \<Rightarrow> (st, r) # resolve_all cs h')"

lemma resolution_simps [simp]:
  "re_can_retry (resolution c a m r t) = r" "re_terminal (resolution c a m r t) = t" "re_action (resolution c a m r t) = a"
  "re_category (resolution c a m r t) = c"
  by (simp_all add: resolution_def)

lemma known_terminal: "known_status now st lu le h = Some r \<Longrightarrow> re_terminal r \<Longrightarrow> \<not> re_can_retry r"
  by (auto simp: known_status_def Let_def split: if_splits option.splits)

lemma resolve_terminal: "re_terminal (fst (resolve_status now st lu le h)) \<Longrightarrow> \<not> re_can_retry (fst (resolve_status now st lu le h))"
  using known_terminal by (auto simp: resolve_status_def Let_def split: option.splits if_splits)

lemma resolve_all_terminal: "\<forall>(x, r) \<in> set (resolve_all cs h). re_terminal r \<longrightarrow> \<not> re_can_retry r"
proof (induction cs arbitrary: h)
  case (Cons c cs)
  obtain now st lu le where c: "c = (now, st, lu, le)" by (cases c)
  obtain r h' where r: "resolve_status now st lu le h = (r, h')" by fastforce
  then show ?case using Cons.IH [of h'] resolve_terminal [of now st lu le h] by (auto simp: c)
qed simp

text \<open>The answers for an unknown status, against its count.\<close>

lemma resolve_count:
  assumes "st \<noteq> []" "\<And>g. known_status now st lu le g = None" "0 \<le> dict_or (bh_unknown h) (status_norm st) 0"
    and "resolve_status now x lu le h = (r, h')"
  shows "if x = Some st \<and> re_can_retry r
    then dict_or (bh_unknown h) (status_norm st) 0 < 3 \<and> dict_or (bh_unknown h') (status_norm st) 0 = dict_or (bh_unknown h) (status_norm st) 0 + 1
    else dict_or (bh_unknown h) (status_norm st) 0 \<le> dict_or (bh_unknown h') (status_norm st) 0"
  using assms
  by (auto simp: resolve_status_def Let_def unknown_status_threshold_def dict_or_def split: option.splits if_splits)

lemma retries_left:
  assumes "st \<noteq> []" "\<forall>(now, x, lu, le) \<in> set cs. \<forall>g. known_status now st lu le g = None" "0 \<le> dict_or (bh_unknown h) (status_norm st) 0"
  shows "length (filter (\<lambda>(x, r). x = Some st \<and> re_can_retry r) (resolve_all cs h)) \<le> nat (3 - dict_or (bh_unknown h) (status_norm st) 0)"
  using assms(2,3)
proof (induction cs arbitrary: h)
  case (Cons c cs)
  obtain now x lu le where c: "c = (now, x, lu, le)" by (cases c)
  obtain r h' where r: "resolve_status now x lu le h = (r, h')" by fastforce
  have k: "\<And>g. known_status now st lu le g = None" using Cons.prems(1) by (simp add: c)
  note n = resolve_count [OF assms(1) k Cons.prems(2) r]
  then have "0 \<le> dict_or (bh_unknown h') (status_norm st) 0" using Cons.prems(2) by (auto split: if_splits)
  with Cons.IH [of h'] Cons.prems(1)
  have "length (filter (\<lambda>(x, r). x = Some st \<and> re_can_retry r) (resolve_all cs h')) \<le> nat (3 - dict_or (bh_unknown h') (status_norm st) 0)" by simp
  then show ?case using n by (auto simp: c r split: if_splits)
qed simp

text \<open>
  The handler of broker states asks for at most three retries of a status it does not know: however
  often such a status is resolved, and whatever is resolved between, no more than three of the answers
  for it allow a retry; all others ask for a manual review. Final states never allow a retry.
\<close>

lemma unknown_status_retries_bounded:
  assumes "dict_or (bh_unknown h) (status_norm st) 0 = 0" "st \<noteq> []" "\<forall>(now, x, lu, le) \<in> set cs. \<forall>g. known_status now st lu le g = None"
  shows "length (filter (\<lambda>(x, r). x = Some st \<and> re_can_retry r) (resolve_all cs h)) \<le> 3 \<and>
    (\<forall>(x, r) \<in> set (resolve_all cs h). re_terminal r \<longrightarrow> \<not> re_can_retry r)"
proof -
  have "length (filter (\<lambda>(x, r). x = Some st \<and> re_can_retry r) (resolve_all cs h)) \<le> nat (3 - dict_or (bh_unknown h) (status_norm st) 0)"
    using retries_left [of st cs h] assms by simp
  then show ?thesis using assms(1) resolve_all_terminal [of cs h] by auto
qed

lemma lowest_fee_minimal:
  assumes "av \<noteq> []"
  shows "select_lowest_fee c av \<in> set av" "b \<in> set av \<Longrightarrow> fee_of c (select_lowest_fee c av) \<le> fee_of c b"
  using min_by_least [of "fee_of c" "hd av" "tl av"] assms by (cases av; auto simp: select_lowest_fee_def)+

text \<open>The counter wraps at 1000, so with three brokers the first one is chosen twice in a row there.\<close>

lemma round_robin_repeats:
  "select_round_robin [a, b, c] (s\<lparr>sr_rr := 999\<rparr>) = (a, s\<lparr>sr_rr := 0\<rparr>)" "fst (select_round_robin [a, b, c] (s\<lparr>sr_rr := 0\<rparr>)) = a"
  by (simp_all add: select_round_robin_def)

end
