(* ===== verification/Execution_Service.thy ===== *)
theory Execution_Service
  imports Exn_Monad State_Machine Idempotency Wal_Journal Reconciliation Ack_Validator Safety_Gates Broker_Routing
begin

text \<open>
  The execution service, \<open>core/services/execution_service.py\<close>: it takes an order request through the
  operating mode gate, the write-ahead journal, the duplicate check, the durable record, the state
  machine and the broker, and books the outcome.

  The service is the record \<open>x_service\<close> of its collaborators' states. The idempotency manager and the
  engine share one database file, so their table is kept once (\<open>es_table\<close>). Code that may raise is a
  function from the service to \<open>exn + 'a\<close> and the new service. What the environment does during one
  call is the record \<open>x_env\<close>: two clock readings, the broker's answers, the failures of the databases,
  of the journal's synchronous writes and of the trade store, and the safety state. The trace
  \<open>es_placed\<close> lists the calls of the broker's \<open>place_order\<close> with their idempotency key; it is not part
  of the program; a routed order is listed when the router's own trace \<open>sr_sent\<close> has grown. Metrics,
  logging and alerting are left out; the paper trader's answer is an argument. The part under the service's lock, the broker call and
  the booking are one step, as for a single caller.
\<close>

section \<open>Definitions\<close>

subsection \<open>Data\<close>

record wal_params =
  wp_symbol :: string
  wp_direction :: string
  wp_qty :: int
  wp_strike :: real
  wp_order_type :: string

record x_audit =
  xa_execution_id :: string
  xa_request :: x_request
  xa_result :: "x_result option"
  xa_context :: x_context
  xa_timestamp :: real
  xa_latency_ms :: int

text \<open>The dictionary handed to the trade store.\<close>

record x_trade =
  td_symbol :: string
  td_direction :: string
  td_strike_price :: real
  td_lot_size :: int
  td_entry_price :: real
  td_entry_time :: real
  td_exit_price :: real
  td_exit_reason :: string
  td_gross_pnl :: real
  td_brokerage :: real
  td_taxes :: real
  td_net_pnl :: real
  td_strategy :: string
  td_created_at :: real

record x_config =
  cf_duplicate_prevention :: bool
  cf_cache_size :: int
  cf_audit_trail :: bool
  cf_fill_timeout :: int

record x_service =
  es_config :: x_config
  es_mode :: "mode_manager option"
  es_wal :: "wal_params journal option"
  es_idem :: "x_result idem"
  es_engine :: "x_result engine"
  es_table :: "x_result idem_row list"
  es_durable :: exec_table
  es_machines :: esm_manager
  es_counter :: int
  es_executions :: "(string, x_audit) dict"
  es_recon :: recon
  es_frozen :: bool
  es_trades :: "x_trade list option"
  es_broker_type :: broker_type
  es_router :: "router option"
  es_placed :: "(string \<times> x_request) list"

datatype modify_answer = MaBool bool | MaResult x_result | MaOther

datatype place_answer = PaResult x_result | PaId string | PaOther string

text \<open>The methods of the broker port, \<open>None\<close> where it has none.\<close>

record x_broker =
  xb_class :: string
  xb_place :: "(x_request \<Rightarrow> exn + place_answer) option"
  xb_filled_quantity :: "(string \<Rightarrow> exn + int option) option"
  xb_fill_price :: "(string \<Rightarrow> exn + real option) option"
  xb_details :: "(string \<Rightarrow> exn + (string, real) dict option) option"
  xb_status :: "(string \<Rightarrow> exn + x_status) option"
  xb_modify :: "string \<Rightarrow> int option \<Rightarrow> real option \<Rightarrow> real option \<Rightarrow> string option \<Rightarrow> exn + modify_answer"
  xb_cancel :: "string \<Rightarrow> exn + bool"
  xb_wait_for_fill :: "(string \<Rightarrow> int \<Rightarrow> exn + bool) option"
  xb_verify_terminal :: "(string \<Rightarrow> exn + bool) option"

record x_env =
  xe_now :: real
  xe_end :: real
  xe_digest :: "string \<Rightarrow> string"
  xe_float_str :: "real \<Rightarrow> string"
  xe_repr :: "pyfloat \<Rightarrow> string"
  xe_isoformat :: "real \<Rightarrow> string"
  xe_uuid :: string
  xe_json :: "x_result \<Rightarrow> x_result"
  xe_up_idem :: bool
  xe_up_durable :: bool
  xe_wal_append :: "exn option"
  xe_wal_commit :: "exn option"
  xe_wal_fail :: "exn option"
  xe_save_trade :: "exn option"
  xe_safety :: safety
  xe_broker :: x_broker
  xe_router :: router_env
  xe_routed :: "string \<Rightarrow> x_broker"
  xe_paper :: "x_request \<Rightarrow> exn + x_result"

text \<open>
  \<open>xe_router\<close> holds what the router sees, \<open>xe_routed\<close> the other methods of its adapters, by broker name.
  An \<open>OrderResult\<close> with the dataclass defaults:
\<close>

definition order_result :: "real \<Rightarrow> string \<Rightarrow> x_status \<Rightarrow> string option \<Rightarrow> x_result" where
  "order_result now oid st reason =
     \<lparr>xo_order_id = oid, xo_status = st, xo_filled_quantity = 0, xo_average_price = 0, xo_commission = 0,
      xo_timestamp = now, xo_reject_reason = reason, xo_broker_order_id = None, xo_broker_timestamp = None\<rparr>"

subsection \<open>Collaborators\<close>

text \<open>An operation of the idempotency manager, or of the engine, on the shared table.\<close>

definition with_idem :: "(x_result idem \<Rightarrow> 'a \<times> x_result idem) \<Rightarrow> x_service \<Rightarrow> (exn + 'a) \<times> x_service" where
  "with_idem f s =
     (case f ((es_idem s)\<lparr>im_table := es_table s\<rparr>) of
        (a, im) \<Rightarrow> (Inr a, s\<lparr>es_idem := im, es_table := im_table im\<rparr>))"

definition with_engine :: "(x_result engine \<Rightarrow> 'a \<times> x_result engine) \<Rightarrow> x_service \<Rightarrow> (exn + 'a) \<times> x_service" where
  "with_engine f s =
     (let en = es_engine s
      in case f (en\<lparr>en_manager := (en_manager en)\<lparr>im_table := es_table s\<rparr>\<rparr>) of
          (a, en') \<Rightarrow> (Inr a, s\<lparr>es_engine := en', es_table := im_table (en_manager en')\<rparr>))"

definition with_wal ::
    "(wal_params journal \<Rightarrow> exn option \<times> wal_params journal) \<Rightarrow> x_service \<Rightarrow> (exn + unit) \<times> x_service" where
  "with_wal f s =
     (case es_wal s of
        None \<Rightarrow> (Inr (), s)
      | Some j \<Rightarrow> (case f j of (None, j') \<Rightarrow> (Inr (), s\<lparr>es_wal := Some j'\<rparr>) | (Some e, j') \<Rightarrow> (Inl e, s\<lparr>es_wal := Some j'\<rparr>)))"

text \<open>The persistence callback: the durable state of a machine state, and the hook of the machines.\<close>

fun durable_of_xstate :: "xstate \<Rightarrow> durable_state" where
  "durable_of_xstate XS_VALIDATED = DS_PENDING"
| "durable_of_xstate XS_PERSISTED = DS_PENDING"
| "durable_of_xstate XS_SUBMITTED = DS_SUBMITTED"
| "durable_of_xstate XS_ACKNOWLEDGED = DS_SUBMITTED"
| "durable_of_xstate XS_PARTIAL_FILL = DS_PARTIALLY_FILLED"
| "durable_of_xstate XS_FILLED = DS_FILLED"
| "durable_of_xstate XS_REJECTED = DS_REJECTED"
| "durable_of_xstate XS_FAILED = DS_FAILED"
| "durable_of_xstate XS_CANCELLED = DS_CANCELLED"
| "durable_of_xstate _ = DS_UNKNOWN"

definition persistence_callback :: "x_env \<Rightarrow> exec_table hook" where
  "persistence_callback env m t =
     (None, fst (update_state (xe_up_durable env) (xe_now env) (m_intent_id m) (durable_of_xstate (m_state m))
                   (m_broker_order_id m) (m_filled_quantity m) (m_average_price m) (m_error_message m) t))"

definition with_esm ::
    "string \<Rightarrow> (esm \<times> exec_table \<Rightarrow> (exn + bool) \<times> esm \<times> exec_table) \<Rightarrow> x_service \<Rightarrow> (exn + bool) \<times> x_service" where
  "with_esm cid f s =
     (case with_machine cid f (es_machines s, es_durable s) of
        (r, g, t) \<Rightarrow> (r, s\<lparr>es_machines := g, es_durable := t\<rparr>))"

definition durable_update ::
    "x_env \<Rightarrow> string \<Rightarrow> durable_state \<Rightarrow> string option \<Rightarrow> int \<Rightarrow> real \<Rightarrow> string option \<Rightarrow> x_service \<Rightarrow> x_service" where
  "durable_update env i st bid q p rr s =
     s\<lparr>es_durable := fst (update_state (xe_up_durable env) (xe_now env) i st bid q p rr (es_durable s))\<rparr>"

subsection \<open>Audit trail and trade store\<close>

definition trim_executions_cache :: "x_service \<Rightarrow> x_service" where
  "trim_executions_cache s =
     (let mx = cf_cache_size (es_config s)
      in if int (length (es_executions s)) > mx
         then s\<lparr>es_executions := drop (nat (max (py_trunc (of_int mx * (1 / 5))) 50)) (es_executions s)\<rparr>
         else s)"

definition trade_data :: "x_request \<Rightarrow> x_result \<Rightarrow> x_trade" where
  "trade_data rq r =
     \<lparr>td_symbol = xr_symbol rq, td_direction = str_upper (xr_direction rq), td_strike_price = xr_strike_price rq,
      td_lot_size = xr_lot_size rq, td_entry_price = xo_average_price r, td_entry_time = xo_timestamp r,
      td_exit_price = 0, td_exit_reason = ''OPEN'', td_gross_pnl = 0, td_brokerage = xo_commission r, td_taxes = 0,
      td_net_pnl = - xo_commission r,
      td_strategy = (if xr_strategy_id rq = [] then ''UNKNOWN'' else xr_strategy_id rq),
      td_created_at = xo_timestamp r\<rparr>"

definition audit_trail_to_trade_data :: "x_audit \<Rightarrow> x_trade option" where
  "audit_trail_to_trade_data a =
     (case xa_result a of
        None \<Rightarrow> None
      | Some r \<Rightarrow> if xo_filled_quantity r \<le> 0 then None else Some (trade_data (xa_request a) r))"

text \<open>\<open>save_trade\<close> of a present trade store.\<close>

definition save_trade :: "x_env \<Rightarrow> x_trade \<Rightarrow> x_service \<Rightarrow> (exn + unit) \<times> x_service" where
  "save_trade env td s =
     (case xe_save_trade env of
        Some e \<Rightarrow> (Inl e, s)
      | None \<Rightarrow> (Inr (), s\<lparr>es_trades := map_option (\<lambda>ts. ts @ [td]) (es_trades s)\<rparr>))"

definition record_execution_audit :: "x_env \<Rightarrow> x_audit \<Rightarrow> x_service \<Rightarrow> (exn + bool) \<times> x_service" where
  "record_execution_audit env a =
     x_try
       (x_bind (x_upd (\<lambda>s. trim_executions_cache (s\<lparr>es_executions := dict_set (xa_execution_id a) a (es_executions s)\<rparr>)))
         (\<lambda>_. x_bind
           (\<lambda>s. case (es_trades s, audit_trail_to_trade_data a) of
                  (Some _, Some td) \<Rightarrow> save_trade env td s
                | _ \<Rightarrow> x_ret () s)
           (\<lambda>_. x_ret True)))
       [PersistenceError, KeyError, ValueError, AttributeError, OSError]
       (\<lambda>e. x_ret False)"

definition get_execution_audit_trail :: "string \<Rightarrow> x_service \<Rightarrow> x_audit option" where
  "get_execution_audit_trail i s = map_of (es_executions s) i"

definition persist_trade_from_order :: "x_env \<Rightarrow> x_request \<Rightarrow> x_result \<Rightarrow> x_service \<Rightarrow> (exn + unit) \<times> x_service" where
  "persist_trade_from_order env rq r =
     x_try
       (\<lambda>s. if es_trades s = None \<or> xo_filled_quantity r \<le> 0 then x_ret () s else save_trade env (trade_data rq r) s)
       [PersistenceError, ValueError, TypeError, OSError, AttributeError]
       (\<lambda>e. x_ret ())"

subsection \<open>One attempt at the broker\<close>

text \<open>\<open>details.get("brokerage") or details.get("charges") or details.get("commission") or 0.0\<close>\<close>

definition broker_charges :: "(string, real) dict \<Rightarrow> real" where
  "broker_charges d =
     (case find (\<lambda>v. v \<noteq> None \<and> v \<noteq> Some 0) (map (map_of d) [''brokerage'', ''charges'', ''commission'']) of
        Some (Some x) \<Rightarrow> x | _ \<Rightarrow> 0)"

definition get_commission_from_broker :: "x_env \<Rightarrow> string \<Rightarrow> x_request \<Rightarrow> exn + real" where
  "get_commission_from_broker env oid rq =
     (let estimate = round_to 2 (xr_strike_price rq * of_int (xr_lot_size rq) * (5 / 10000))
      in case xb_details (xe_broker env) of
          None \<Rightarrow> Inr estimate
        | Some f \<Rightarrow>
            (case f oid of
               Inl e \<Rightarrow> if caught [KeyError, ValueError, TypeError, AttributeError] e then Inr estimate else Inl e
             | Inr None \<Rightarrow> Inr estimate
             | Inr (Some d) \<Rightarrow> Inr (if d = [] then estimate else broker_charges d)))"

text \<open>\<open>getattr\<close>-guarded reads: \<open>broker.m(order_id) or 0\<close>, 0 where the port has no such method.\<close>

definition read_or_zero :: "(string \<Rightarrow> exn + 'n option) option \<Rightarrow> string \<Rightarrow> exn + ('n :: zero)" where
  "read_or_zero m oid =
     (case m of None \<Rightarrow> Inr 0
      | Some f \<Rightarrow> (case f oid of Inl e \<Rightarrow> Inl e | Inr None \<Rightarrow> Inr 0 | Inr (Some x) \<Rightarrow> Inr x))"

text \<open>
  The result for an order id string; \<open>b\<close> is the broker that returned it (the commission is asked of the
  service's own broker in any case).
\<close>

definition result_of_id :: "x_broker \<Rightarrow> x_env \<Rightarrow> x_request \<Rightarrow> string \<Rightarrow> exn + x_result" where
  "result_of_id b env rq oid =
     res_bind (read_or_zero (xb_filled_quantity b) oid) (\<lambda>q.
     res_bind (read_or_zero (xb_fill_price b) oid) (\<lambda>p.
       let bid = (if oid = [] then None else Some oid)
       in if q > 0
          then res_bind (get_commission_from_broker env oid rq) (\<lambda>c.
                 Inr \<lparr>xo_order_id = oid, xo_status = ST_FILLED, xo_filled_quantity = q, xo_average_price = p,
                      xo_commission = c, xo_timestamp = xe_now env, xo_reject_reason = None,
                      xo_broker_order_id = bid, xo_broker_timestamp = Some (xe_now env)\<rparr>)
          else Inr ((order_result (xe_now env) oid (if oid = [] then ST_REJECTED else ST_SUBMITTED) None)
                      \<lparr>xo_broker_order_id := bid\<rparr>)))"

definition validate_broker_result :: "x_env \<Rightarrow> broker_type \<Rightarrow> x_result \<Rightarrow> exn + x_result" where
  "validate_broker_result env bt r =
     res_bind (validate_order_result (xe_repr env) bt (Some r)) (\<lambda>v.
       Inr (if ar_is_valid v then r
            else order_result (xe_now env) (if xo_order_id r = [] then ''validation_failed'' else xo_order_id r) ST_REJECTED
                   (Some (''Broker ACK validation failed: '' @ (case ar_error v of None \<Rightarrow> ''None'' | Some m \<Rightarrow> m)))))"

definition is_paper :: "x_env \<Rightarrow> x_context \<Rightarrow> bool" where
  "is_paper env ctx \<longleftrightarrow> xc_execution_mode ctx = EM_PAPER \<or> xb_class (xe_broker env) = ''PaperBrokerAdapter''"

definition place_with_broker :: "x_env \<Rightarrow> string \<Rightarrow> x_request \<Rightarrow> x_service \<Rightarrow> (exn + x_result) \<times> x_service" where
  "place_with_broker env k rq s =
     (case xb_place (xe_broker env) of
        None \<Rightarrow> (Inr (order_result (xe_now env) [] ST_REJECTED (Some ''Broker port has no place_order method'')), s)
      | Some f \<Rightarrow>
          (res_bind (f rq) (\<lambda>a.
             res_bind (case a of
                 PaResult r \<Rightarrow> Inr r
               | PaId oid \<Rightarrow> result_of_id (xe_broker env) env rq oid
               | PaOther ty \<Rightarrow> Inr (order_result (xe_now env) [] ST_REJECTED (Some (''Broker returned unexpected type: '' @ ty))))
             (validate_broker_result env (es_broker_type s))),
           s\<lparr>es_placed := es_placed s @ [(k, rq)]\<rparr>))"

text \<open>The branch of a configured router. Its direction is the option to buy, or the answer for every sale.\<close>

definition routed_direction :: "x_request \<Rightarrow> string" where
  "routed_direction rq = (if str_upper (xr_direction rq) = ''BUY'' then ''CALL'' else ''PUT'')"

definition place_routed :: "x_env \<Rightarrow> string \<Rightarrow> x_request \<Rightarrow> router \<Rightarrow> x_service \<Rightarrow> (exn + x_result) \<times> x_service" where
  "place_routed env k rq rt s =
     (case route_to_best (xe_router env) (xr_symbol rq) (routed_direction rq) (xr_lot_size rq) (py_trunc (xr_strike_price rq)) rt of
        (res, rt') \<Rightarrow>
          (res_bind res (\<lambda>a.
             if \<not> rr_success a
             then Inr (order_result (xe_now env) [] ST_REJECTED
                    (Some (''Smart router: '' @ (if rr_error a = [] then ''no broker available'' else rr_error a))))
             else res_bind (result_of_id (xe_routed env (rr_broker a)) env rq (rr_order_id a)) (validate_broker_result env (es_broker_type s))),
           s\<lparr>es_router := Some rt', es_placed := es_placed s @ map (\<lambda>_. (k, rq)) (drop (length (sr_sent rt)) (sr_sent rt'))\<rparr>))"

definition place_order :: "x_env \<Rightarrow> string \<Rightarrow> x_request \<Rightarrow> x_service \<Rightarrow> (exn + x_result) \<times> x_service" where
  "place_order env k rq s =
     (case es_router s of None \<Rightarrow> place_with_broker env k rq s | Some rt \<Rightarrow> place_routed env k rq rt s)"

definition attempt_order_execution ::
    "x_env \<Rightarrow> string \<Rightarrow> x_request \<Rightarrow> x_context \<Rightarrow> x_service \<Rightarrow> (exn + x_result) \<times> x_service" where
  "attempt_order_execution env k rq ctx =
     x_try (if is_paper env ctx then (\<lambda>s. (xe_paper env rq, s)) else place_order env k rq)
       [ValueError, OSError, AttributeError, ConnectionError]
       (\<lambda>e. x_ret (order_result (xe_now env) ''execution_error'' ST_REJECTED (Some (exn_msg e))))"

subsection \<open>The state machine around the attempt\<close>

text \<open>\<open>symbol_direction_strike_lot\<close>\<close>

definition order_intent_id :: "x_env \<Rightarrow> x_request \<Rightarrow> string" where
  "order_intent_id env rq =
     xr_symbol rq @ ''_'' @ xr_direction rq @ ''_'' @ xe_float_str env (xr_strike_price rq) @ ''_'' @ show_int (xr_lot_size rq)"

text \<open>The transitions for a filled result; a partial fill is recorded at price 0, because a result
  has no attribute \<open>average_fill_price\<close>.\<close>

definition advance_to_acknowledged :: "x_env \<Rightarrow> string \<Rightarrow> x_result \<Rightarrow> x_service \<Rightarrow> (exn + bool) \<times> x_service" where
  "advance_to_acknowledged env cid r =
     (let hk = persistence_callback env; now = xe_now env;
          bid = str_or (xo_broker_order_id r) (if xo_order_id r = [] then cid else xo_order_id r)
      in x_try
           (x_bind (with_esm cid (try_transition_to hk now XS_PERSISTED))
             (\<lambda>_. x_bind (with_esm cid (record_submission hk now bid))
               (\<lambda>_. with_esm cid (record_acknowledgment hk now))))
           [ValueError, TypeError, AttributeError]
           (\<lambda>e. x_ret False))"

definition record_result :: "x_env \<Rightarrow> string \<Rightarrow> x_request \<Rightarrow> x_result \<Rightarrow> x_service \<Rightarrow> (exn + x_result) \<times> x_service" where
  "record_result env cid rq r =
     (let hk = persistence_callback env; now = xe_now env
      in if xo_status r = ST_FILLED then
           x_bind (advance_to_acknowledged env cid r)
             (\<lambda>_. x_bind (with_esm cid (record_fill hk now (xr_lot_size rq) (xr_strike_price rq))) (\<lambda>_. x_ret r))
         else if xo_status r = ST_PARTIALLY_FILLED then
           x_bind (with_esm cid (record_partial_fill hk now (xo_filled_quantity r) 0)) (\<lambda>_. x_ret r)
         else if xo_status r = ST_REJECTED then
           x_bind (with_esm cid (try_transition_to hk now XS_REJECTED)) (\<lambda>_. x_ret r)
         else if xo_status r = ST_SUBMITTED then
           x_bind (with_esm cid (record_submission hk now (if xo_order_id r = [] then ''unknown'' else xo_order_id r)))
             (\<lambda>_. x_ret r)
         else x_bind (with_esm cid (try_transition_to hk now XS_FAILED)) (\<lambda>_. x_ret r))"

definition service_catches :: "exn_class list" where
  "service_catches = [PersistenceError, ValueError, OSError, AttributeError, ConnectionError]"

definition execute_with_retries ::
    "x_env \<Rightarrow> string \<Rightarrow> x_request \<Rightarrow> x_context \<Rightarrow> x_service \<Rightarrow> (exn + x_result) \<times> x_service" where
  "execute_with_retries env k rq ctx s =
     (if is_hard_halted (xe_safety env)
      then (Inr (order_result (xe_now env) [] ST_REJECTED (Some ''Hard halt active'')), s)
      else
        let intent = (if k = [] then order_intent_id env rq else k);
            cid = generate_client_order_id intent;
            hk = persistence_callback env; now = xe_now env
        in case create_or_get now intent (xr_symbol rq) (xr_lot_size rq) (xr_strike_price rq) (xr_direction rq) (es_machines s) of
            ((m, is_new), g) \<Rightarrow>
              let s1 = s\<lparr>es_machines := g\<rparr>
              in if \<not> is_new \<and> m_state m \<notin> {XS_FILLED, XS_REJECTED, XS_CANCELLED, XS_FAILED}
                 then (Inr (order_result now (m_client_order_id m) ST_REJECTED
                              (Some (''Duplicate order blocked - order already in '' @ xstate_value (m_state m) @ '' state''))), s1)
                 else
                   x_bind (with_esm cid (try_transition_to hk now XS_VALIDATED))
                     (\<lambda>_. x_try
                        (x_bind (attempt_order_execution env k rq ctx) (record_result env cid rq))
                        service_catches
                        (\<lambda>e. x_bind (with_esm cid (try_transition_to hk now XS_FAILED))
                           (\<lambda>_. x_ret (order_result now ''execution_failed'' ST_REJECTED (Some (''Execution failed: '' @ exn_msg e))))))
                     s1)"

subsection \<open>Executing an order\<close>

definition new_durable_record :: "x_env \<Rightarrow> string \<Rightarrow> string \<Rightarrow> x_request \<Rightarrow> durable_rec" where
  "new_durable_record env intent eid rq =
     \<lparr>er_intent_id = intent, er_client_order_id = eid, er_symbol = xr_symbol rq, er_direction = xr_direction rq,
      er_quantity = xr_lot_size rq, er_strike_price = xr_strike_price rq, er_state = DS_PENDING,
      er_broker_order_id = None, er_filled_quantity = 0, er_average_price = 0, er_reject_reason = None,
      er_created_at = xe_now env, er_updated_at = xe_now env, er_retry_count = 0\<rparr>"

definition wal_intent :: "string \<Rightarrow> x_request \<Rightarrow> wal_params intent" where
  "wal_intent intent rq =
     \<lparr>it_id = intent, it_action = ''place_order'',
      it_params = \<lparr>wp_symbol = xr_symbol rq, wp_direction = xr_direction rq, wp_qty = xr_lot_size rq,
                   wp_strike = xr_strike_price rq, wp_order_type = order_type_value (xr_order_type rq)\<rparr>,
      it_risk_verdict = None, it_config_hash = [], it_correlation = [], it_status = ist_pending,
      it_created_at = None, it_committed_at = None, it_failed_at = None, it_error = []\<rparr>"

text \<open>The part under the lock: \<open>Inr (Inl r)\<close> ends the call with the result \<open>r\<close> of a duplicate,
  \<open>Inr (Inr eid)\<close> goes on with the execution id.\<close>

definition admit_order ::
    "x_env \<Rightarrow> string \<Rightarrow> string \<Rightarrow> x_request \<Rightarrow> x_service \<Rightarrow> (exn + x_result + string) \<times> x_service" where
  "admit_order env k intent rq s0 =
     (let eid = ''exec_'' @ show_int (es_counter s0) @ ''_'' @ show_int (py_trunc (xe_now env));
          now = xe_now env
      in x_bind (x_upd (\<lambda>s. s\<lparr>es_counter := es_counter s + 1\<rparr>))
        (\<lambda>_. x_bind (with_wal (wal_append (xe_wal_append env) now (xe_uuid env) (wal_intent intent rq)))
        (\<lambda>_. x_bind (\<lambda>s. if cf_duplicate_prevention (es_config s) then with_idem (idem_is_duplicate now k) s else x_ret False s)
        (\<lambda>dup.
           if dup then
             x_bind (with_wal (wal_fail (xe_wal_fail env) now intent ''Duplicate order detected''))
             (\<lambda>_. x_bind (with_idem (idem_get_result now k))
             (\<lambda>c. x_ret (Inl (case c of Some r \<Rightarrow> r
                         | None \<Rightarrow> order_result now ''duplicate'' ST_REJECTED (Some ''Duplicate order detected'')))))
           else
             x_bind (x_upd (\<lambda>s. s\<lparr>es_durable := fst (save_execution (xe_up_durable env) (new_durable_record env intent eid rq) (es_durable s))\<rparr>))
             (\<lambda>_. x_bind (with_idem (\<lambda>im. ((), idem_mark_in_flight (xe_up_idem env) now k im)))
             (\<lambda>_. x_ret (Inr eid)))))) s0)"

definition audit_of :: "x_env \<Rightarrow> string \<Rightarrow> x_request \<Rightarrow> x_context \<Rightarrow> x_result \<Rightarrow> x_audit" where
  "audit_of env eid rq ctx r =
     \<lparr>xa_execution_id = eid, xa_request = rq, xa_result = Some r, xa_context = ctx, xa_timestamp = xe_now env,
      xa_latency_ms = py_trunc ((xe_end env - xe_now env) * 1000)\<rparr>"

definition audit_if :: "x_env \<Rightarrow> x_audit \<Rightarrow> x_service \<Rightarrow> (exn + unit) \<times> x_service" where
  "audit_if env a s =
     (if cf_audit_trail (es_config s) then x_bind (record_execution_audit env a) (\<lambda>_. x_ret ()) s else x_ret () s)"

definition book_success ::
    "x_env \<Rightarrow> string \<Rightarrow> string \<Rightarrow> string \<Rightarrow> x_request \<Rightarrow> x_context \<Rightarrow> x_result \<Rightarrow> x_service \<Rightarrow> (exn + unit) \<times> x_service" where
  "book_success env k intent eid rq ctx r =
     (let now = xe_now env
      in x_bind (with_wal (wal_commit (xe_wal_commit env) now intent))
        (\<lambda>_. x_bind (with_idem (\<lambda>im. ((), idem_confirm_execution (xe_json env) (xe_up_idem env) now k r im)))
        (\<lambda>_. x_bind (with_engine (\<lambda>en. ((), engine_store_result (xe_json env) (xe_up_idem env) now k r en)))
        (\<lambda>_. x_bind (x_upd (durable_update env intent
                (if xo_status r = ST_FILLED then DS_FILLED else DS_PARTIALLY_FILLED)
                (xo_broker_order_id r) (xo_filled_quantity r) (xo_average_price r) None))
        (\<lambda>_. x_bind (\<lambda>s. if es_trades s \<noteq> None \<and> xo_filled_quantity r > 0 \<and> cf_audit_trail (es_config s)
                         then persist_trade_from_order env rq r s else x_ret () s)
        (\<lambda>_. audit_if env (audit_of env eid rq ctx r)))))))"

definition book_failure ::
    "x_env \<Rightarrow> string \<Rightarrow> string \<Rightarrow> x_request \<Rightarrow> x_context \<Rightarrow> x_result \<Rightarrow> x_service \<Rightarrow> (exn + unit) \<times> x_service" where
  "book_failure env intent eid rq ctx r =
     x_bind (with_wal (wal_fail (xe_wal_fail env) (xe_now env) intent (str_or (xo_reject_reason r) ''Order rejected'')))
       (\<lambda>_. x_bind (x_upd (durable_update env intent (if xo_status r = ST_REJECTED then DS_REJECTED else DS_FAILED)
               None 0 0 (xo_reject_reason r)))
       (\<lambda>_. audit_if env (audit_of env eid rq ctx r)))"

definition book_error ::
    "x_env \<Rightarrow> string \<Rightarrow> string \<Rightarrow> string \<Rightarrow> x_request \<Rightarrow> x_context \<Rightarrow> exn \<Rightarrow> x_service \<Rightarrow> (exn + x_result) \<times> x_service" where
  "book_error env k intent eid rq ctx e =
     (let r = order_result (xe_now env) ''error'' ST_REJECTED (Some (''Execution service error: '' @ exn_msg e))
      in x_bind (with_wal (wal_fail (xe_wal_fail env) (xe_now env) intent (exn_msg e)))
        (\<lambda>_. x_bind (with_idem (\<lambda>im. ((), idem_clear_in_flight (xe_up_idem env) k im)))
        (\<lambda>_. x_bind (x_upd (\<lambda>s. s\<lparr>es_durable := fst (durable_clear_in_flight (xe_up_durable env) (xe_now env) intent (es_durable s))\<rparr>))
        (\<lambda>_. x_bind (audit_if env (audit_of env eid rq ctx r)) (\<lambda>_. x_ret r)))))"

definition run_order ::
    "x_env \<Rightarrow> string \<Rightarrow> string \<Rightarrow> string \<Rightarrow> x_request \<Rightarrow> x_context \<Rightarrow> x_service \<Rightarrow> (exn + x_result) \<times> x_service" where
  "run_order env k intent eid rq ctx =
     x_try
       (x_bind (execute_with_retries env k rq ctx)
         (\<lambda>r. x_bind (if xo_status r = ST_FILLED \<or> xo_status r = ST_PARTIALLY_FILLED
                      then book_success env k intent eid rq ctx r
                      else book_failure env intent eid rq ctx r)
              (\<lambda>_. x_ret r)))
       service_catches
       (book_error env k intent eid rq ctx)"

text \<open>The key of the request, generated where the caller gave none.\<close>

definition request_key :: "x_env \<Rightarrow> x_request \<Rightarrow> x_context \<Rightarrow> string" where
  "request_key env rq ctx =
     (if truthy (xr_idempotency_key rq) then the (xr_idempotency_key rq)
      else engine_generate_key (xe_digest env) (xe_float_str env) (xe_isoformat env) rq ctx)"

definition default_context :: "x_env \<Rightarrow> x_context" where
  "default_context env =
     \<lparr>xc_signal_id = [], xc_signal_timestamp = Some (xe_now env), xc_strategy_name = [],
      xc_execution_mode = EM_AUTOMATIC, xc_correlation_id = None\<rparr>"

definition execute_order :: "x_env \<Rightarrow> x_request \<Rightarrow> x_context option \<Rightarrow> x_service \<Rightarrow> (exn + x_result) \<times> x_service" where
  "execute_order env rq0 ctx0 s =
     (case (case es_mode s of None \<Rightarrow> (True, []) | Some m \<Rightarrow> allows_execution m) of
        (False, msg) \<Rightarrow> (Inr (order_result (xe_now env) ''blocked'' ST_REJECTED (Some (''BLOCKED_'' @ msg))), s)
      | (True, _) \<Rightarrow>
          let ctx = (case ctx0 of Some c \<Rightarrow> c | None \<Rightarrow> default_context env);
              k = request_key env rq0 ctx;
              rq = rq0\<lparr>xr_idempotency_key := Some k\<rparr>;
              intent = order_intent_id env rq
          in x_bind (admit_order env k intent rq)
               (\<lambda>a. case a of Inl r \<Rightarrow> x_ret r | Inr eid \<Rightarrow> run_order env k intent eid rq ctx) s)"

subsection \<open>Other operations\<close>

definition set_operating_mode_manager :: "mode_manager option \<Rightarrow> x_service \<Rightarrow> x_service" where
  "set_operating_mode_manager m s = s\<lparr>es_mode := m\<rparr>"

definition is_duplicate_order :: "x_env \<Rightarrow> string \<Rightarrow> x_service \<Rightarrow> (exn + bool) \<times> x_service" where
  "is_duplicate_order env k = with_engine (engine_is_duplicate (xe_now env) k)"

definition get_order_status :: "x_env \<Rightarrow> string \<Rightarrow> exn + x_status" where
  "get_order_status env oid =
     (if oid = [] \<or> oid = ''duplicate'' \<or> oid = ''error'' then Inr ST_REJECTED
      else case xb_status (xe_broker env) of
          None \<Rightarrow> Inr ST_SUBMITTED
        | Some f \<Rightarrow>
            (case f oid of
               Inl e \<Rightarrow> if caught [ValueError, OSError, AttributeError] e then Inr ST_REJECTED else Inl e
             | Inr st \<Rightarrow> Inr st))"

definition port_catches :: "exn_class list" where
  "port_catches = [ValueError, OSError, ConnectionError, AttributeError]"

definition cancel_order :: "x_env \<Rightarrow> string \<Rightarrow> exn + bool" where
  "cancel_order env oid =
     (case res_bind (get_order_status env oid) (\<lambda>st.
        if st \<in> {ST_FILLED, ST_CANCELLED, ST_EXPIRED} then Inr False else xb_cancel (xe_broker env) oid) of
        Inl e \<Rightarrow> if caught port_catches e then Inr False else Inl e
      | Inr b \<Rightarrow> Inr b)"

definition modify_order ::
    "x_env \<Rightarrow> string \<Rightarrow> int option \<Rightarrow> real option \<Rightarrow> real option \<Rightarrow> x_order_type option \<Rightarrow> exn + x_result" where
  "modify_order env oid qty price trig ot =
     (let now = xe_now env
      in case res_bind (get_order_status env oid) (\<lambda>st.
           if st \<in> {ST_FILLED, ST_CANCELLED, ST_EXPIRED, ST_REJECTED}
           then Inr (order_result now oid ST_REJECTED (Some (''Order '' @ oid @ '' has terminal status '' @ status_value st)))
           else res_bind (xb_modify (xe_broker env) oid qty price trig (map_option order_type_value ot)) (\<lambda>a.
             Inr (case a of
                 MaBool True \<Rightarrow> order_result now oid ST_SUBMITTED None
               | MaBool False \<Rightarrow> order_result now oid ST_REJECTED (Some ''Broker rejected modification'')
               | MaResult r \<Rightarrow> r
               | MaOther \<Rightarrow> order_result now oid ST_SUBMITTED None))) of
          Inl e \<Rightarrow> if caught port_catches e then Inr (order_result now oid ST_REJECTED (Some (exn_msg e))) else Inl e
        | Inr r \<Rightarrow> Inr r)"

text \<open>
  The polling loop. An iteration sees whether shutdown is requested before the query and during the
  wait, what the broker answers (\<open>pe_filled\<close> where the port has \<open>get_filled_quantity\<close>, else
  \<open>pe_status\<close> where it has \<open>get_order_status\<close>) and how long that takes. \<open>t\<close> is the time since the
  start; a list of iterations that ends before the loop does gives \<open>None\<close>.
\<close>

record poll_event =
  pe_shutdown :: bool
  pe_busy :: real
  pe_filled :: "exn + int option"
  pe_status :: "exn + x_status"
  pe_wait_shutdown :: bool

definition poll_query :: "bool \<Rightarrow> bool \<Rightarrow> poll_event \<Rightarrow> exn + bool" where
  "poll_query has_filled has_status ev =
     (if has_filled then res_bind (pe_filled ev) (\<lambda>q. Inr (case q of None \<Rightarrow> False | Some n \<Rightarrow> n > 0))
      else if has_status then res_bind (pe_status ev) (\<lambda>st. Inr (st = ST_FILLED \<or> st = ST_PARTIALLY_FILLED))
      else Inr False)"

fun poll_for_fill_status :: "bool \<Rightarrow> bool \<Rightarrow> int \<Rightarrow> real \<Rightarrow> real \<Rightarrow> poll_event list \<Rightarrow> (exn + bool) option" where
  "poll_for_fill_status hf hs timeout interval t evs =
     (if \<not> t < of_int timeout then Some (Inr False)
      else case evs of
          [] \<Rightarrow> None
        | ev # evs' \<Rightarrow>
            if pe_shutdown ev then Some (Inr False)
            else case poll_query hf hs ev of
                Inr True \<Rightarrow> Some (Inr True)
              | Inr False \<Rightarrow>
                  if pe_wait_shutdown ev then Some (Inr False)
                  else poll_for_fill_status hf hs timeout (min (interval * (3 / 2)) 5) (t + pe_busy ev + min interval 5) evs'
              | Inl e \<Rightarrow>
                  if \<not> caught [ValueError, OSError, AttributeError] e then Some (Inl e)
                  else if pe_wait_shutdown ev then Some (Inr False)
                  else poll_for_fill_status hf hs timeout interval (t + pe_busy ev + interval) evs')"

declare poll_for_fill_status.simps [simp del]

record fill_check =
  fc_ok :: bool
  fc_filled_quantity :: int
  fc_average_price :: real
  fc_status_verified :: bool
  fc_latency_ms :: int
  fc_order_id :: string
  fc_error :: "string option"

text \<open>\<open>evs\<close> are the iterations of the polling loop, where it is used.\<close>

definition verify_order_fill :: "x_env \<Rightarrow> x_config \<Rightarrow> poll_event list \<Rightarrow> string \<Rightarrow> int option \<Rightarrow> (exn + fill_check) option" where
  "verify_order_fill env cfg evs oid timeout =
     (let b = xe_broker env; tm = (case timeout of None \<Rightarrow> cf_fill_timeout cfg | Some t \<Rightarrow> t);
          lat = py_trunc ((xe_end env - xe_now env) * 1000);
          handle = (\<lambda>x. case x of
              Inr c \<Rightarrow> Inr c
            | Inl e \<Rightarrow> if caught [ValueError, OSError, AttributeError, ConnectionError] e
                       then Inr \<lparr>fc_ok = False, fc_filled_quantity = 0, fc_average_price = 0, fc_status_verified = False,
                                 fc_latency_ms = lat, fc_order_id = oid, fc_error = Some (exn_msg e)\<rparr>
                       else Inl e)
      in case (case xb_wait_for_fill b of
                 Some f \<Rightarrow> Some (f oid tm)
               | None \<Rightarrow> poll_for_fill_status (xb_filled_quantity b \<noteq> None) (xb_status b \<noteq> None) tm (1 / 2) 0 evs) of
          None \<Rightarrow> None
        | Some fill_ok \<Rightarrow>
            Some (handle (res_bind fill_ok (\<lambda>fill_ok.
              res_bind (read_or_zero (xb_filled_quantity b) oid) (\<lambda>q.
              res_bind (read_or_zero (xb_fill_price b) oid) (\<lambda>p.
              res_bind (case xb_verify_terminal b of
                          None \<Rightarrow> Inr True
                        | Some f \<Rightarrow> (case f oid of
                            Inl e \<Rightarrow> if caught [ValueError, OSError, AttributeError] e then Inr False else Inl e
                          | Inr v \<Rightarrow> Inr v)) (\<lambda>v.
              Inr \<lparr>fc_ok = (fill_ok \<or> q > 0), fc_filled_quantity = q, fc_average_price = p, fc_status_verified = v,
                   fc_latency_ms = lat, fc_order_id = oid, fc_error = None\<rparr>)))))))"

text \<open>Freezing: the callback of the reconciliation service sets the flag and does not raise.\<close>

definition on_reconciliation_freeze :: "freeze_callback" where
  "on_reconciliation_freeze = Some (\<lambda>reason details. None)"

definition is_trading_frozen :: "x_service \<Rightarrow> bool" where
  "is_trading_frozen s = es_frozen s"

definition unfreeze_trading :: "x_service \<Rightarrow> x_service" where
  "unfreeze_trading s = s\<lparr>es_recon := unfreeze (es_recon s), es_frozen := False\<rparr>"

definition reconcile_pending_orders ::
    "recon_env \<Rightarrow> broker_view \<Rightarrow> bool \<Rightarrow> (string \<Rightarrow> bool) \<Rightarrow> status_port \<Rightarrow> x_service \<Rightarrow> (exn + recon_result \<times> recon_counts) \<times> x_service" where
  "reconcile_pending_orders renv bv up ups port s =
     (case reconcile renv on_reconciliation_freeze bv (es_recon s) of
        (res, rc) \<Rightarrow>
          let s1 = s\<lparr>es_recon := rc,
                     es_frozen := (es_frozen s \<or> length (rc_notified rc) > length (rc_notified (es_recon s)))\<rparr>
          in case res of
              Inl e \<Rightarrow> (Inl e, s1)
            | Inr r \<Rightarrow>
                let s2 = (if rr_freeze_reason r \<noteq> None then s1\<lparr>es_frozen := True\<rparr> else s1)
                in case reconcile_with_broker up ups port (re_now renv) (es_durable s2) of
                    (x, t) \<Rightarrow> (case x of Inl e \<Rightarrow> (Inl e, s2\<lparr>es_durable := t\<rparr>)
                               | Inr c \<Rightarrow> (Inr (r, c), s2\<lparr>es_durable := t\<rparr>)))"

subsection \<open>Runs of orders\<close>

text \<open>One call of \<open>execute_order\<close>, and the service after a sequence of calls.\<close>

type_synonym x_call = "x_env \<times> x_request \<times> x_context option"

fun order_step :: "x_call \<Rightarrow> x_service \<Rightarrow> x_service" where
  "order_step (env, rq, ctx) s = snd (execute_order env rq ctx s)"

section \<open>Lemmas\<close>

subsection \<open>Collaborators\<close>

lemma with_wal_keeps [keeps_intros]:
  "(\<And>s j. view (s\<lparr>es_wal := j\<rparr>) = view s) \<Longrightarrow> x_keeps view (with_wal f)"
  by (auto simp: x_keeps_def with_wal_def split: option.split prod.split)

lemma with_esm_keeps [keeps_intros]:
  "(\<And>s g t. view (s\<lparr>es_machines := g, es_durable := t\<rparr>) = view s) \<Longrightarrow> x_keeps view (with_esm cid f)"
  by (auto simp: x_keeps_def with_esm_def split: prod.split)

lemma with_engine_keeps [keeps_intros]:
  "(\<And>s en t. view (s\<lparr>es_engine := en, es_table := t\<rparr>) = view s) \<Longrightarrow> x_keeps view (with_engine f)"
  by (auto simp: x_keeps_def with_engine_def Let_def split: prod.split)

lemma save_trade_keeps [keeps_intros]:
  "(\<And>s ts. view (s\<lparr>es_trades := ts\<rparr>) = view s) \<Longrightarrow> x_keeps view (save_trade env td)"
  by (auto simp: x_keeps_def save_trade_def split: option.split)

lemma journal_write_ok: "\<exists>j'. journal_write None w j = (None, j')"
  by (auto simp: journal_write_def fallback_execute_def writer_submit_def)

lemma with_wal_avoids [raises_intros]:
  "x_avoids cs (with_wal (wal_append None now u it))" "x_avoids cs (with_wal (wal_commit None now i))"
  "x_avoids cs (with_wal (wal_fail None now i err))"
proof -
  have ok: "fst (with_wal (journal_write None w) s) = Inr ()" for w s
  proof (cases "es_wal s")
    case (Some j)
    obtain j' where "journal_write None w j = (None, j')" using journal_write_ok by blast
    with Some show ?thesis by (simp add: with_wal_def)
  qed (simp add: with_wal_def)
  show "x_avoids cs (with_wal (wal_append None now u it))" "x_avoids cs (with_wal (wal_commit None now i))"
    "x_avoids cs (with_wal (wal_fail None now i err))"
    unfolding x_avoids_def wal_append_def wal_commit_def wal_fail_def by (simp_all add: ok)
qed

text \<open>The persistence callback does not raise, so no operation of a machine does.\<close>

lemma transition_ok: "\<exists>b s'. try_transition_to (persistence_callback env) now new s = (Inr b, s')"
  by (cases s) (auto simp: try_transition_to_def validate_transition_def persistence_callback_def Let_def)

lemma machine_ok:
  "\<exists>b s'. record_submission (persistence_callback env) now bid s = (Inr b, s')"
  "\<exists>b s'. record_acknowledgment (persistence_callback env) now s = (Inr b, s')"
  "\<exists>b s'. record_fill (persistence_callback env) now q p s = (Inr b, s')"
proof -
  obtain m w where s: "s = (m, w)" by (cases s)
  show "\<exists>b s'. record_submission (persistence_callback env) now bid s = (Inr b, s')"
    "\<exists>b s'. record_acknowledgment (persistence_callback env) now s = (Inr b, s')"
    "\<exists>b s'. record_fill (persistence_callback env) now q p s = (Inr b, s')"
    unfolding s record_submission_def record_acknowledgment_def record_fill_def Let_def prod.case
    using transition_ok by (simp_all split: if_split) metis+
qed

lemma with_esm_avoids:
  "(\<And>ms. \<exists>b ms'. f ms = (Inr b, ms')) \<Longrightarrow> x_avoids cs (with_esm cid f)"
proof -
  assume ok: "\<And>ms. \<exists>b ms'. f ms = (Inr b, ms')"
  have "\<exists>b. fst (with_esm cid f s) = Inr b" for s
  proof (cases "map_of (mg_machines (es_machines s)) cid")
    case (Some m)
    obtain b m' t' where "f (m, es_durable s) = (Inr b, m', t')" using ok [of "(m, es_durable s)"] by auto
    with Some show ?thesis by (simp add: with_esm_def with_machine_def)
  qed (auto simp: with_esm_def with_machine_def)
  then show ?thesis unfolding x_avoids_def by (metis sum.distinct(1))
qed

lemmas machine_avoids [raises_intros] = with_esm_avoids [OF transition_ok] with_esm_avoids [OF machine_ok(1)]
  with_esm_avoids [OF machine_ok(2)] with_esm_avoids [OF machine_ok(3)]

lemma record_partial_fill_eq: "record_partial_fill = record_fill"
  by (rule ext)+ (simp add: record_partial_fill_def)

lemma advance_avoids [raises_intros]: "x_avoids cs (advance_to_acknowledged env cid r)"
proof -
  let ?m = "x_bind (with_esm cid (try_transition_to (persistence_callback env) (xe_now env) XS_PERSISTED))
    (\<lambda>_. x_bind (with_esm cid (record_submission (persistence_callback env) (xe_now env)
        (str_or (xo_broker_order_id r) (if xo_order_id r = [] then cid else xo_order_id r))))
      (\<lambda>_. with_esm cid (record_acknowledgment (persistence_callback env) (xe_now env))))"
  have m: "x_avoids ds ?m" for ds by (intro raises_intros)
  show ?thesis
    unfolding advance_to_acknowledged_def Let_def try_avoids [OF m] by (rule m)
qed

lemma record_result_avoids [raises_intros]: "x_avoids cs (record_result env cid rq r)"
  unfolding record_result_def Let_def record_partial_fill_eq by (intro raises_intros)

text \<open>The state machine layer lets none of the exceptions through that the service handles.\<close>

lemma execute_with_retries_avoids [raises_intros]: "x_avoids service_catches (execute_with_retries env k rq ctx)"
proof -
  have "x_avoids service_catches
     (x_bind (with_esm cid (try_transition_to (persistence_callback env) (xe_now env) XS_VALIDATED))
       (\<lambda>_. x_try (x_bind (attempt_order_execution env k rq ctx) (record_result env cid rq)) service_catches
          (\<lambda>e. x_bind (with_esm cid (try_transition_to (persistence_callback env) (xe_now env) XS_FAILED))
             (\<lambda>_. x_ret (order_result (xe_now env) ''execution_failed'' ST_REJECTED (Some (''Execution failed: '' @ exn_msg e)))))))"
    for cid
    by (intro avoids_bind machine_avoids avoids_try_covered avoids_ret)
  then show ?thesis
    unfolding x_avoids_def execute_with_retries_def Let_def
    by (auto split: prod.splits if_splits)
qed

lemma service_catches_covered:
  "PersistenceError \<in> set cs \<Longrightarrow> ValueError \<in> set cs \<Longrightarrow> OSError \<in> set cs \<Longrightarrow> AttributeError \<in> set cs \<Longrightarrow>
     caught service_catches e \<Longrightarrow> caught cs e"
proof -
  have "exn_base c \<noteq> Some ConnectionError" for c by (cases c) simp_all
  then show "PersistenceError \<in> set cs \<Longrightarrow> ValueError \<in> set cs \<Longrightarrow> OSError \<in> set cs \<Longrightarrow> AttributeError \<in> set cs \<Longrightarrow>
     caught service_catches e \<Longrightarrow> caught cs e"
    by (auto simp: service_catches_def caught_def list_ex_iff exn_isa_def)
qed

lemma persist_trade_avoids [raises_intros]: "x_avoids service_catches (persist_trade_from_order env rq r)"
  unfolding persist_trade_from_order_def
  by (rule avoids_try_covered) (auto intro: service_catches_covered raises_intros)

lemma record_audit_avoids [raises_intros]: "x_avoids service_catches (record_execution_audit env a)"
  unfolding record_execution_audit_def
  by (rule avoids_try_covered) (auto intro: service_catches_covered raises_intros)

lemma audit_if_avoids [raises_intros]: "x_avoids service_catches (audit_if env a)"
  unfolding audit_if_def by (intro raises_intros)

lemma with_idem_avoids [raises_intros]: "x_avoids cs (with_idem f)"
  by (auto simp: x_avoids_def with_idem_def split: prod.splits)

lemma with_engine_avoids [raises_intros]: "x_avoids cs (with_engine f)"
  by (auto simp: x_avoids_def with_engine_def Let_def split: prod.splits)

text \<open>Unless the journal fails, the error branch of \<open>execute_order\<close> is not entered.\<close>

lemma run_order_no_error:
  assumes "xe_wal_commit env = None" "xe_wal_fail env = None"
  shows "run_order env k intent eid rq ctx =
    x_bind (execute_with_retries env k rq ctx)
      (\<lambda>r. x_bind (if xo_status r = ST_FILLED \<or> xo_status r = ST_PARTIALLY_FILLED
                   then book_success env k intent eid rq ctx r else book_failure env intent eid rq ctx r)
           (\<lambda>_. x_ret r))"
proof -
  have "x_avoids service_catches (book_success env k intent eid rq ctx r)" for r
    unfolding book_success_def Let_def assms by (intro raises_intros)
  moreover have "x_avoids service_catches (book_failure env intent eid rq ctx r)" for r
    unfolding book_failure_def assms by (intro raises_intros)
  ultimately show ?thesis
    unfolding run_order_def by (intro try_avoids raises_intros)
qed

subsection \<open>What guards a key\<close>

text \<open>The view of the service that duplicate prevention depends on.\<close>

definition dup_view :: "x_service \<Rightarrow> x_config \<times> (string, real \<times> x_result) dict \<times> (string, real) dict \<times> int \<times> int" where
  "dup_view s = (es_config s, im_cache (es_idem s), im_in_flight (es_idem s), im_cache_size (es_idem s),
                 im_expiry_hours (es_idem s))"

lemma dup_view_upd [simp]:
  "dup_view (s\<lparr>es_wal := j\<rparr>) = dup_view s" "dup_view (s\<lparr>es_machines := g\<rparr>) = dup_view s"
  "dup_view (s\<lparr>es_durable := t\<rparr>) = dup_view s" "dup_view (s\<lparr>es_engine := en\<rparr>) = dup_view s"
  "dup_view (s\<lparr>es_table := tb\<rparr>) = dup_view s" "dup_view (s\<lparr>es_trades := ts\<rparr>) = dup_view s"
  "dup_view (s\<lparr>es_executions := ex\<rparr>) = dup_view s" "dup_view (s\<lparr>es_placed := pl\<rparr>) = dup_view s" "dup_view (s\<lparr>es_router := rt\<rparr>) = dup_view s"
  "dup_view (s\<lparr>es_counter := c\<rparr>) = dup_view s"
  by (simp_all add: dup_view_def)

lemma trim_view [simp]: "dup_view (trim_executions_cache s) = dup_view s" "es_placed (trim_executions_cache s) = es_placed s"
  by (simp_all add: trim_executions_cache_def Let_def)

text \<open>Parts of the service the booking code leaves alone; \<open>x_frame\<close> collects them.\<close>

definition x_frame :: "x_service \<Rightarrow> _ \<times> (string \<times> x_request) list" where
  "x_frame s = (dup_view s, es_placed s)"

lemma x_frame_upd [simp]:
  "x_frame (s\<lparr>es_wal := j\<rparr>) = x_frame s" "x_frame (s\<lparr>es_machines := g\<rparr>) = x_frame s"
  "x_frame (s\<lparr>es_durable := t\<rparr>) = x_frame s" "x_frame (s\<lparr>es_engine := en\<rparr>) = x_frame s"
  "x_frame (s\<lparr>es_table := tb\<rparr>) = x_frame s" "x_frame (s\<lparr>es_trades := ts\<rparr>) = x_frame s"
  "x_frame (s\<lparr>es_executions := ex\<rparr>) = x_frame s" "x_frame (s\<lparr>es_counter := c\<rparr>) = x_frame s"
  "x_frame (trim_executions_cache s) = x_frame s" "x_frame (durable_update env i st bid q p rr s) = x_frame s"
  by (simp_all add: x_frame_def durable_update_def)

lemma save_step_keeps: "x_keeps x_frame (\<lambda>s. case (es_trades s, td) of (Some _, Some td) \<Rightarrow> save_trade env td s | _ \<Rightarrow> x_ret () s)"
  by (auto simp: x_keeps_def save_trade_def x_ret_def split: option.split)

lemma record_execution_audit_keeps [keeps_intros]: "x_keeps x_frame (record_execution_audit env a)"
  unfolding record_execution_audit_def by (intro keeps_intros save_step_keeps) simp

lemma audit_if_keeps [keeps_intros]: "x_keeps x_frame (audit_if env a)"
  unfolding audit_if_def by (intro keeps_intros)

lemma persist_trade_keeps [keeps_intros]: "x_keeps x_frame (persist_trade_from_order env rq r)"
  unfolding persist_trade_from_order_def by (intro keeps_intros) simp

lemma record_result_keeps [keeps_intros]: "x_keeps x_frame (record_result env cid rq r)"
  unfolding record_result_def advance_to_acknowledged_def Let_def by (intro keeps_intros; simp)

lemma book_failure_keeps [keeps_intros]: "x_keeps x_frame (book_failure env intent eid rq ctx r)"
  unfolding book_failure_def by (intro keeps_intros; simp)

subsection \<open>Placements\<close>

text \<open>The broker is called at most once, with the key of the request, and duplicate prevention is not
  touched.\<close>

definition may_place :: "string \<Rightarrow> x_service \<Rightarrow> x_service \<Rightarrow> bool" where
  "may_place k s s' \<longleftrightarrow> dup_view s' = dup_view s \<and>
     (es_placed s' = es_placed s \<or> (\<exists>rq. es_placed s' = es_placed s @ [(k, rq)]))"

lemma may_place_refl: "x_frame s' = x_frame s \<Longrightarrow> may_place k s s'"
  by (simp add: may_place_def x_frame_def)

lemma may_place_frame: "x_frame s0 = x_frame s \<Longrightarrow> may_place k s0 s1 \<Longrightarrow> x_frame s2 = x_frame s1 \<Longrightarrow> may_place k s s2"
  by (simp add: may_place_def x_frame_def)

lemma bind_may_place:
  assumes "may_place k s0 (snd (m s0))" "\<And>a. x_keeps x_frame (f a)"
  shows "may_place k s0 (snd (x_bind m f s0))"
proof (cases "m s0")
  case (Pair r s1)
  show ?thesis
  proof (cases r)
    case (Inl e)
    with Pair assms(1) show ?thesis by (simp add: x_bind_def)
  next
    case (Inr a)
    obtain r2 s2 where f: "f a s1 = (r2, s2)" by fastforce
    with assms(2) have "x_frame s2 = x_frame s1" by (rule keepsD)
    with f Pair Inr assms(1) may_place_frame [OF refl] show ?thesis by (simp add: x_bind_def)
  qed
qed

lemma try_may_place:
  assumes "may_place k s0 (snd (m s0))" "\<And>e. x_keeps x_frame (h e)"
  shows "may_place k s0 (snd (x_try m cs h s0))"
proof (cases "m s0")
  case (Pair r s1)
  show ?thesis
  proof (cases r)
    case (Inl e)
    obtain r2 s2 where h: "h e s1 = (r2, s2)" by fastforce
    with assms(2) have "x_frame s2 = x_frame s1" by (rule keepsD)
    with h Pair Inl assms(1) may_place_frame [OF refl] show ?thesis by (simp add: x_try_def)
  next
    case (Inr a)
    with Pair assms(1) show ?thesis by (simp add: x_try_def)
  qed
qed

lemma keep_then_may_place:
  assumes "x_keeps x_frame m" "\<And>a s. may_place k s (snd (f a s))"
  shows "may_place k s0 (snd (x_bind m f s0))"
proof (cases "m s0")
  case (Pair r s1)
  then have fr: "x_frame s1 = x_frame s0" using assms(1) by (rule keepsD [rotated])
  show ?thesis
  proof (cases r)
    case (Inl e)
    with Pair fr show ?thesis by (simp add: x_bind_def may_place_refl)
  next
    case (Inr a)
    with Pair fr assms(2) [of s1 a] may_place_frame [OF fr _ refl] show ?thesis by (simp add: x_bind_def)
  qed
qed

lemma routed_may_place: "may_place k s (snd (place_routed env k rq rt s))"
proof -
  let ?d = "routed_direction rq" and ?n = "py_trunc (xr_strike_price rq)"
  obtain res rt' where e: "route_to_best (xe_router env) (xr_symbol rq) ?d (xr_lot_size rq) ?n rt = (res, rt')" by fastforce
  then obtain cs where cs: "sr_sent rt' = sr_sent rt @ cs" "length cs \<le> 1" by (rule route_sends_once)
  then have "cs = [] \<or> (\<exists>c. cs = [c])" by (cases cs) auto
  with cs(1) e show ?thesis by (auto simp: place_routed_def may_place_def)
qed

lemma attempt_may_place: "may_place k s (snd (attempt_order_execution env k rq ctx s))"
proof -
  have "may_place k s (snd (place_with_broker env k rq s))"
    by (auto simp: place_with_broker_def may_place_def split: option.split)
  then have "may_place k s (snd (place_order env k rq s))"
    using routed_may_place by (simp add: place_order_def split: option.split)
  moreover have "may_place k s (snd ((\<lambda>s. (xe_paper env rq, s)) s))"
    by (simp add: may_place_def)
  ultimately show ?thesis
    unfolding attempt_order_execution_def by (intro try_may_place keeps_ret) (simp split: if_split)
qed

lemma execute_with_retries_may_place: "may_place k s (snd (execute_with_retries env k rq ctx s))"
proof -
  have main: "may_place k s1 (snd (x_bind (with_esm cid (try_transition_to hk now XS_VALIDATED))
      (\<lambda>_. x_try (x_bind (attempt_order_execution env k rq ctx) (record_result env cid rq)) service_catches
         (\<lambda>e. x_bind (with_esm cid (try_transition_to hk now XS_FAILED))
            (\<lambda>_. x_ret (order_result now ''execution_failed'' ST_REJECTED (Some (''Execution failed: '' @ exn_msg e)))))) s1))"
    for s1 cid hk now
    by (intro keep_then_may_place try_may_place bind_may_place attempt_may_place keeps_intros) simp_all
  obtain m n g where cg: "create_or_get (xe_now env) (if k = [] then order_intent_id env rq else k) (xr_symbol rq)
      (xr_lot_size rq) (xr_strike_price rq) (xr_direction rq) (es_machines s) = ((m, n), g)"
    by (metis prod.exhaust)
  have "may_place k s s'" if "may_place k (s\<lparr>es_machines := g\<rparr>) s'" for s'
    using may_place_frame [of "s\<lparr>es_machines := g\<rparr>" s] that by simp
  with main show ?thesis
    unfolding execute_with_retries_def Let_def cg prod.case
    by (auto intro: may_place_refl)
qed

text \<open>A key is guarded when its marker or its confirmed result is not older than \<open>t0\<close>.\<close>

definition key_guarded :: "real \<Rightarrow> string \<Rightarrow> 'r idem \<Rightarrow> bool" where
  "key_guarded t0 k im \<longleftrightarrow>
     (\<exists>t \<ge> t0. map_of (im_in_flight im) k = Some t) \<or> (\<exists>t \<ge> t0. \<exists>r. map_of (im_cache im) k = Some (t, r))"

definition guards :: "real \<Rightarrow> string set \<Rightarrow> nat \<Rightarrow> 'r idem \<Rightarrow> bool" where
  "guards t0 K n im \<longleftrightarrow>
     dict_ok (im_cache im) \<and> dict_ok (im_in_flight im) \<and> length (im_cache im) \<le> n \<and> im_expiry_hours im \<ge> 1 \<and>
     (\<forall>k \<in> K. key_guarded t0 k im)"

lemma guards_table [simp]: "guards t0 K n (im\<lparr>im_table := t\<rparr>) = guards t0 K n im"
  by (simp add: guards_def key_guarded_def)

lemma idem_sizes [simp]:
  "im_cache_size (idem_cleanup now im) = im_cache_size im"
  "im_cache_size (idem_mark_in_flight up now k im) = im_cache_size im"
  "im_cache_size (idem_confirm_execution rt up now k r im) = im_cache_size im"
  by (simp_all add: idem_cleanup_def idem_mark_in_flight_def idem_persist_def idem_confirm_execution_def evict_oldest_def Let_def)

lemma guards_cleanup:
  assumes g: "guards t0 K n im" and now: "now < t0 + 3600"
  shows "guards t0 K n (idem_cleanup now im)"
proof -
  from g have c: "dict_ok (im_cache im)" and f: "dict_ok (im_in_flight im)" and h: "1 \<le> im_expiry_hours im"
    by (simp_all add: guards_def)
  have "key_guarded t0 k (idem_cleanup now im)" if "key_guarded t0 k im" for k
  proof -
    have le: "now - of_int (im_expiry_hours im) * 3600 \<le> t0" using now h
      by (smt (verit) mult_right_mono of_int_1 of_int_le_iff)
    have "map_of (im_cache (idem_cleanup now im)) k =
        (case map_of (im_cache im) k of None \<Rightarrow> None
         | Some v \<Rightarrow> if \<not> fst v < now - of_int (im_expiry_hours im) * 3600 then Some v else None)"
      using map_of_filter_dict [OF c, of "\<lambda>_ v. \<not> fst v < now - of_int (im_expiry_hours im) * 3600" k]
      by (simp add: idem_cleanup_def Let_def case_prod_unfold)
    moreover have "map_of (im_in_flight (idem_cleanup now im)) k =
        (case map_of (im_in_flight im) k of None \<Rightarrow> None | Some t \<Rightarrow> if \<not> t < now - 3600 then Some t else None)"
      using map_of_filter_dict [OF f, of "\<lambda>_ t. \<not> t < now - 3600" k] by (simp add: idem_cleanup_def Let_def)
    ultimately show ?thesis using that le now by (fastforce simp: key_guarded_def)
  qed
  moreover have "dict_ok (im_cache (idem_cleanup now im))" "dict_ok (im_in_flight (idem_cleanup now im))"
    "length (im_cache (idem_cleanup now im)) \<le> n" "im_expiry_hours (idem_cleanup now im) \<ge> 1"
    using g by (auto simp: guards_def idem_cleanup_def Let_def intro: dict_ok_filter le_trans [OF length_filter_le])
  ultimately show ?thesis using g by (simp add: guards_def)
qed

lemma guards_duplicate:
  assumes "guards t0 K n im" "now < t0 + 3600" "k \<in> K"
  shows "fst (idem_is_duplicate now k im)"
  using guards_cleanup [OF assms(1,2)] assms(3)
  by (auto simp: guards_def key_guarded_def idem_is_duplicate_def Let_def)

lemma guards_mark:
  assumes "guards t0 K n im" "t0 \<le> now"
  shows "guards t0 (insert k K) n (idem_mark_in_flight up now k im)"
  using assms by (auto simp: guards_def key_guarded_def idem_mark_in_flight_def idem_persist_def)

lemma guards_confirm:
  assumes g: "guards t0 K n im" and t: "t0 \<le> now" and sz: "int (Suc n) \<le> im_cache_size im"
  shows "guards t0 (insert k K) (Suc n) (idem_confirm_execution rt up now k r im)"
proof -
  let ?c = "dict_set k (now, r) (im_cache im)"
  have l: "length ?c \<le> Suc n" using g by (auto simp: dict_set_length guards_def)
  have cf: "im_cache (idem_confirm_execution rt up now k r im) = ?c"
    "im_in_flight (idem_confirm_execution rt up now k r im) = dict_del k (im_in_flight im)"
    "im_expiry_hours (idem_confirm_execution rt up now k r im) = im_expiry_hours im"
    using l sz by (auto simp: idem_confirm_execution_def evict_oldest_def idem_persist_def)
  then show ?thesis
    using g t l unfolding guards_def key_guarded_def cf by auto
qed

text \<open>The state of a call for key \<open>k\<close> after the placements \<open>pl\<close>.\<close>

definition booked :: "real \<Rightarrow> string \<Rightarrow> (string \<times> x_request) list \<Rightarrow> nat \<Rightarrow> nat \<Rightarrow> x_service \<Rightarrow> bool" where
  "booked t0 k pl N n s \<longleftrightarrow>
     (es_placed s = pl \<or> (\<exists>rq. es_placed s = pl @ [(k, rq)])) \<and> guards t0 (insert k (fst ` set pl)) n (es_idem s) \<and>
     cf_duplicate_prevention (es_config s) \<and> int N \<le> im_cache_size (es_idem s)"

definition once_inv :: "real \<Rightarrow> nat \<Rightarrow> nat \<Rightarrow> x_service \<Rightarrow> bool" where
  "once_inv t0 N n s \<longleftrightarrow>
     distinct (map fst (es_placed s)) \<and> guards t0 (fst ` set (es_placed s)) n (es_idem s) \<and>
     cf_duplicate_prevention (es_config s) \<and> int N \<le> im_cache_size (es_idem s)"

lemma view_eqs:
  assumes "dup_view s' = dup_view s"
  shows "guards t0 K n (es_idem s') = guards t0 K n (es_idem s)" "es_config s' = es_config s"
    "im_cache_size (es_idem s') = im_cache_size (es_idem s)"
  using assms by (simp_all add: dup_view_def guards_def key_guarded_def)

lemma booked_frame: "x_frame s' = x_frame s \<Longrightarrow> booked t0 k pl N n s' = booked t0 k pl N n s"
  using view_eqs [of s' s] by (auto simp: booked_def x_frame_def)

lemma once_frame: "x_frame s' = x_frame s \<Longrightarrow> once_inv t0 N n s' = once_inv t0 N n s"
  using view_eqs [of s' s] by (auto simp: once_inv_def x_frame_def)

lemma post_booked_keeps: "x_keeps x_frame m \<Longrightarrow> x_post (booked t0 k pl N n) m (booked t0 k pl N n)"
  unfolding x_post_def x_keeps_def using booked_frame by blast

lemma guards_Suc: "guards t0 K n im \<Longrightarrow> guards t0 K (Suc n) im"
  by (simp add: guards_def)

lemma booked_Suc: "booked t0 k pl N n s \<Longrightarrow> booked t0 k pl N (Suc n) s"
  by (auto simp: booked_def intro: guards_Suc)

lemma book_success_booked:
  assumes "t0 \<le> xe_now env" "Suc n \<le> N"
  shows "x_post (booked t0 k pl N n) (book_success env k intent eid rq ctx r) (booked t0 k pl N (Suc n))"
proof -
  have confirm: "x_post (booked t0 k pl N n)
      (with_idem (\<lambda>im. ((), idem_confirm_execution (xe_json env) (xe_up_idem env) (xe_now env) k r im)))
      (booked t0 k pl N (Suc n))"
    unfolding x_post_def
  proof (intro allI impI)
    fix s assume b: "booked t0 k pl N n s"
    then have "guards t0 (insert k (fst ` set pl)) n ((es_idem s)\<lparr>im_table := es_table s\<rparr>)" "int (Suc n) \<le> im_cache_size (es_idem s)"
      using assms(2) by (auto simp: booked_def)
    then have "guards t0 (insert k (insert k (fst ` set pl))) (Suc n)
        (idem_confirm_execution (xe_json env) (xe_up_idem env) (xe_now env) k r ((es_idem s)\<lparr>im_table := es_table s\<rparr>))"
      using assms(1) by (intro guards_confirm) simp_all
    with b show "booked t0 k pl N (Suc n)
        (snd (with_idem (\<lambda>im. ((), idem_confirm_execution (xe_json env) (xe_up_idem env) (xe_now env) k r im)) s))"
      by (auto simp: booked_def with_idem_def)
  qed
  have tail: "x_keeps x_frame
     (x_bind (with_engine (\<lambda>en. ((), engine_store_result (xe_json env) (xe_up_idem env) (xe_now env) k r en)))
        (\<lambda>_. x_bind (x_upd (durable_update env intent (if xo_status r = ST_FILLED then DS_FILLED else DS_PARTIALLY_FILLED)
                (xo_broker_order_id r) (xo_filled_quantity r) (xo_average_price r) None))
        (\<lambda>_. x_bind (\<lambda>s. if es_trades s \<noteq> None \<and> xo_filled_quantity r > 0 \<and> cf_audit_trail (es_config s)
                         then persist_trade_from_order env rq r s else x_ret () s)
        (\<lambda>_. audit_if env (audit_of env eid rq ctx r)))))"
    by (intro keeps_intros) simp_all
  have wal: "x_keeps x_frame (with_wal (wal_commit (xe_wal_commit env) (xe_now env) intent))"
    by (intro keeps_intros) simp
  show ?thesis
    unfolding book_success_def Let_def
    by (intro post_bind [OF post_booked_keeps [OF wal]] post_bind [OF confirm] post_booked_keeps tail) (simp_all add: booked_Suc)
qed

lemma run_order_booked:
  assumes "xe_wal_commit env = None" "xe_wal_fail env = None" "t0 \<le> xe_now env" "Suc n \<le> N"
    and "booked t0 k pl N n s" "es_placed s = pl"
  shows "booked t0 k pl N (Suc n) (snd (run_order env k intent eid rq ctx s))"
proof -
  obtain x s1 where e: "execute_with_retries env k rq ctx s = (x, s1)" by fastforce
  have "may_place k s s1" using execute_with_retries_may_place [of k s env rq ctx] e by simp
  then have b1: "booked t0 k pl N n s1"
    using assms(5,6) view_eqs [of s1 s] by (auto simp: booked_def may_place_def)
  have "x_post (booked t0 k pl N n)
      (x_bind (if xo_status r = ST_FILLED \<or> xo_status r = ST_PARTIALLY_FILLED
               then book_success env k intent eid rq ctx r else book_failure env intent eid rq ctx r) (\<lambda>_. x_ret r))
      (booked t0 k pl N (Suc n))" for r
  proof (rule post_bind)
    have "x_post (booked t0 k pl N n) (book_failure env intent eid rq ctx r) (booked t0 k pl N (Suc n))"
      using post_booked_keeps [OF book_failure_keeps] booked_Suc unfolding x_post_def by blast
    with book_success_booked [OF assms(3,4)]
    show "x_post (booked t0 k pl N n)
        (if xo_status r = ST_FILLED \<or> xo_status r = ST_PARTIALLY_FILLED
         then book_success env k intent eid rq ctx r else book_failure env intent eid rq ctx r) (booked t0 k pl N (Suc n))"
      by simp
  qed (auto intro: post_booked_keeps keeps_ret)
  with b1 e show ?thesis
    unfolding run_order_no_error [OF assms(1,2)] x_post_def
    by (cases x) (auto simp: x_bind_def [of "execute_with_retries env k rq ctx"] booked_Suc)
qed

lemma admit_order_once:
  assumes w: "xe_wal_append env = None" "xe_wal_fail env = None"
    and t: "t0 \<le> xe_now env" "xe_now env < t0 + 3600" and i: "once_inv t0 N n s"
    and a: "admit_order env k intent rq s = (x, s1)"
  shows "es_placed s1 = es_placed s \<and>
    (case x of Inl e \<Rightarrow> False | Inr (Inl r) \<Rightarrow> once_inv t0 N n s1
     | Inr (Inr eid) \<Rightarrow> k \<notin> fst ` set (es_placed s) \<and> booked t0 k (es_placed s) N n s1)"
proof -
  let ?s0 = "s\<lparr>es_counter := es_counter s + 1\<rparr>"
  have walok: "\<exists>s'. with_wal (journal_write None wr) s = (Inr (), s') \<and> x_frame s' = x_frame s" for wr s
  proof (cases "es_wal s")
    case (Some j)
    obtain j' where "journal_write None wr j = (None, j')" using journal_write_ok by blast
    with Some show ?thesis by (simp add: with_wal_def)
  qed (simp add: with_wal_def)
  obtain s2 where s2: "with_wal (wal_append None (xe_now env) (xe_uuid env) (wal_intent intent rq)) ?s0 = (Inr (), s2)"
    and f2: "x_frame s2 = x_frame ?s0"
    using walok unfolding wal_append_def by blast
  from i have i2: "once_inv t0 N n s2" using f2 once_frame [of s2 s] by simp
  have p2: "es_placed s2 = es_placed s" using f2 by (simp add: x_frame_def)
  let ?im = "(es_idem s2)\<lparr>im_table := es_table s2\<rparr>"
  let ?s3 = "s2\<lparr>es_idem := idem_cleanup (xe_now env) ?im, es_table := im_table (idem_cleanup (xe_now env) ?im)\<rparr>"
  define d where "d = fst (idem_is_duplicate (xe_now env) k ?im)"
  have dup: "with_idem (idem_is_duplicate (xe_now env) k) s2 = (Inr d, ?s3)"
    by (simp add: with_idem_def idem_is_duplicate_def Let_def d_def)
  have g3: "guards t0 (fst ` set (es_placed s)) n (idem_cleanup (xe_now env) ?im)"
    using i2 p2 t(2) by (intro guards_cleanup) (simp_all add: once_inv_def)
  have i3: "once_inv t0 N n ?s3" using i2 g3 p2 by (simp add: once_inv_def)
  have cf: "cf_duplicate_prevention (es_config s2)" using i2 by (simp add: once_inv_def)
  show ?thesis
  proof (cases d)
    case True
    obtain s4 where s4: "with_wal (wal_fail None (xe_now env) intent ''Duplicate order detected'') ?s3 = (Inr (), s4)"
      and f4: "x_frame s4 = x_frame ?s3"
      using walok unfolding wal_fail_def by blast
    have i4: "once_inv t0 N n s4" "es_placed s4 = es_placed s"
      using i3 once_frame [OF f4] f4 p2 by (simp_all add: x_frame_def)
    let ?i4 = "idem_cleanup (xe_now env) ((es_idem s4)\<lparr>im_table := es_table s4\<rparr>)"
    have "guards t0 (fst ` set (es_placed s)) n ?i4"
      using i4 t(2) by (intro guards_cleanup) (simp_all add: once_inv_def)
    then have "once_inv t0 N n (s4\<lparr>es_idem := ?i4, es_table := im_table ?i4\<rparr>)"
      using i4 by (simp add: once_inv_def)
    moreover have "\<exists>r. (x, s1) = (Inr (Inl r), s4\<lparr>es_idem := ?i4, es_table := im_table ?i4\<rparr>)"
      using a s2 dup cf True s4 w
      by (auto simp: admit_order_def Let_def x_bind_def x_upd_def x_ret_def with_idem_def idem_get_result_def)
    ultimately show ?thesis using i4 by auto
  next
    case False
    then have notin: "k \<notin> fst ` set (es_placed s)"
      using guards_duplicate [of t0 "fst ` set (es_placed s)" n ?im "xe_now env" k] i2 p2 t(2)
      by (auto simp: once_inv_def d_def)
    let ?s4 = "?s3\<lparr>es_durable := fst (save_execution (xe_up_durable env)
        (new_durable_record env intent (''exec_'' @ show_int (es_counter s) @ ''_'' @ show_int (py_trunc (xe_now env))) rq) (es_durable ?s3))\<rparr>"
    let ?i5 = "idem_mark_in_flight (xe_up_idem env) (xe_now env) k ((es_idem ?s4)\<lparr>im_table := es_table ?s4\<rparr>)"
    have "guards t0 (insert k (fst ` set (es_placed s))) n ?i5"
      using g3 t(1) by (intro guards_mark) simp_all
    moreover have "\<exists>eid. (x, s1) = (Inr (Inr eid), ?s4\<lparr>es_idem := ?i5, es_table := im_table ?i5\<rparr>)"
      using a s2 dup cf False w
      by (auto simp: admit_order_def Let_def x_bind_def x_upd_def x_ret_def with_idem_def)
    ultimately show ?thesis using notin i3 p2 by (auto simp: booked_def once_inv_def)
  qed
qed

text \<open>The conditions on one call: the journal works, and the clock reading lies in the hour from \<open>t0\<close>.\<close>

fun call_ok :: "real \<Rightarrow> x_call \<Rightarrow> bool" where
  "call_ok t0 (env, rq, ctx) \<longleftrightarrow>
     xe_wal_append env = None \<and> xe_wal_commit env = None \<and> xe_wal_fail env = None \<and>
     t0 \<le> xe_now env \<and> xe_now env < t0 + 3600"

lemma booked_once:
  assumes "distinct (map fst pl)" "k \<notin> fst ` set pl" "booked t0 k pl N n s"
  shows "once_inv t0 N n s"
proof -
  from assms(3) have "es_placed s = pl \<or> (\<exists>rq. es_placed s = pl @ [(k, rq)])" by (simp add: booked_def)
  with assms show ?thesis by (auto simp: once_inv_def booked_def guards_def)
qed

lemma order_step_once:
  assumes ok: "call_ok t0 c" and n: "Suc n \<le> N" and i: "once_inv t0 N n s"
  shows "once_inv t0 N (Suc n) (order_step c s)"
proof -
  obtain env rq0 ctx0 where c: "c = (env, rq0, ctx0)" by (metis prod.exhaust)
  define ctx where "ctx = (case ctx0 of Some c \<Rightarrow> c | None \<Rightarrow> default_context env)"
  define k where "k = request_key env rq0 ctx"
  define rq where "rq = rq0\<lparr>xr_idempotency_key := Some k\<rparr>"
  define intent where "intent = order_intent_id env rq"
  have suc: "once_inv t0 N n s' \<Longrightarrow> once_inv t0 N (Suc n) s'" for s'
    by (simp add: once_inv_def guards_Suc)
  obtain x s1 where a: "admit_order env k intent rq s = (x, s1)" by fastforce
  note adm = admit_order_once [OF _ _ _ _ i a]
  show ?thesis
  proof (cases "fst (case es_mode s of None \<Rightarrow> (True, []) | Some m \<Rightarrow> allows_execution m)")
    case False
    then show ?thesis using i suc c by (auto simp: execute_order_def split: prod.split bool.split)
  next
    case True
    then have eo: "execute_order env rq0 ctx0 s = x_bind (admit_order env k intent rq)
        (\<lambda>a. case a of Inl r \<Rightarrow> x_ret r | Inr eid \<Rightarrow> run_order env k intent eid rq ctx) s"
      by (auto simp: execute_order_def ctx_def k_def rq_def intent_def Let_def split: prod.split bool.split)
    show ?thesis
    proof (cases x)
      case (Inl e)
      with adm ok c show ?thesis by auto
    next
      case (Inr y)
      show ?thesis
      proof (cases y)
        case (Inl r)
        with Inr adm ok c eo a suc show ?thesis by (auto simp: x_bind_def x_ret_def)
      next
        case eid: (Inr eid)
        with Inr adm ok c have p1: "es_placed s1 = es_placed s" and kn: "k \<notin> fst ` set (es_placed s)"
          and b1: "booked t0 k (es_placed s) N n s1" by auto
        have "booked t0 k (es_placed s) N (Suc n) (snd (run_order env k intent eid rq ctx s1))"
          using ok c n b1 p1 by (intro run_order_booked) auto
        with i kn have "once_inv t0 N (Suc n) (snd (run_order env k intent eid rq ctx s1))"
          by (intro booked_once [of "es_placed s" k]) (simp_all add: once_inv_def)
        with Inr eid eo a c show ?thesis by (simp add: x_bind_def)
      qed
    qed
  qed
qed

lemma orders_once:
  assumes "list_all (call_ok t0) cs" "n + length cs \<le> N" "once_inv t0 N n s"
  shows "once_inv t0 N (n + length cs) (fold order_step cs s)"
  using assms
proof (induction cs arbitrary: n s)
  case Nil
  then show ?case by simp
next
  case (Cons c cs)
  then have "once_inv t0 N (Suc n) (order_step c s)" by (intro order_step_once) auto
  with Cons.IH [of "Suc n" "order_step c s"] Cons.prems show ?case by simp
qed

text \<open>A service just started, with empty caches.\<close>

definition fresh_service :: "x_service \<Rightarrow> bool" where
  "fresh_service s \<longleftrightarrow> es_placed s = [] \<and> im_cache (es_idem s) = [] \<and> im_in_flight (es_idem s) = []"

lemma fresh_once:
  assumes "fresh_service s" "cf_duplicate_prevention (es_config s)" "im_expiry_hours (es_idem s) \<ge> 1"
    "int N \<le> im_cache_size (es_idem s)"
  shows "once_inv t0 N 0 s"
  using assms by (simp add: fresh_service_def once_inv_def guards_def)

subsection \<open>One machine through a call\<close>

text \<open>What the machine operations leave alone, the machine of a client order id, and the row of an intent.\<close>

definition x_rest :: "x_service \<Rightarrow> _" where
  "x_rest s = (es_config s, es_mode s, es_wal s, es_idem s, es_engine s, es_table s, es_counter s, es_executions s,
               es_trades s, es_broker_type s, es_placed s, es_router s)"

definition mach :: "string \<Rightarrow> x_service \<Rightarrow> esm option" where
  "mach cid s = map_of (mg_machines (es_machines s)) cid"

definition has_row :: "string \<Rightarrow> exec_table \<Rightarrow> bool" where
  "has_row i t \<longleftrightarrow> tbl_get er_intent_id i t \<noteq> None"

lemma x_rest_upd [simp]:
  "x_rest (s\<lparr>es_machines := g\<rparr>) = x_rest s" "x_rest (s\<lparr>es_durable := t\<rparr>) = x_rest s"
  by (simp_all add: x_rest_def)

lemma x_rest_sel:
  "x_rest s' = x_rest s \<Longrightarrow> es_config s' = es_config s \<and> es_mode s' = es_mode s \<and> es_wal s' = es_wal s \<and> es_idem s' = es_idem s
     \<and> es_engine s' = es_engine s \<and> es_table s' = es_table s \<and> es_counter s' = es_counter s \<and>
     es_executions s' = es_executions s \<and> es_trades s' = es_trades s \<and> es_broker_type s' = es_broker_type s \<and>
     es_placed s' = es_placed s \<and> es_router s' = es_router s"
  by (simp add: x_rest_def)

lemma update_state_row: "has_row i t \<Longrightarrow> has_row i (fst (update_state up now j st bid q p rr t))"
proof -
  have "er_intent_id (update_row now st bid q p rr r) = er_intent_id r" for r by (simp add: update_row_def)
  then show "has_row i t \<Longrightarrow> has_row i (fst (update_state up now j st bid q p rr t))"
    by (simp add: has_row_def update_state_def tbl_get_update)
qed

lemma update_state_get:
  assumes "has_row i t"
  shows "\<exists>row. tbl_get er_intent_id i (fst (update_state True now i st bid q p rr t)) = Some row \<and>
    er_state row = durable_value st \<and> (bid \<noteq> None \<longrightarrow> er_broker_order_id row = bid) \<and>
    (q > 0 \<longrightarrow> er_filled_quantity row = q) \<and> (p > 0 \<longrightarrow> er_average_price row = p)"
proof -
  from assms obtain row where r: "tbl_get er_intent_id i t = Some row" by (auto simp: has_row_def)
  then have i: "er_intent_id row = i" by (auto dest: tbl_get_key)
  have k: "er_intent_id (update_row now st bid q p rr r) = er_intent_id r" for r by (simp add: update_row_def)
  have cols: "list_all (\<lambda>c. c \<in> set allowed_update_cols) (update_columns bid q p rr)"
    by (simp add: update_columns_def allowed_update_cols_def)
  then have "tbl_get er_intent_id i (fst (update_state True now i st bid q p rr t)) = Some (update_row now st bid q p rr row)"
    using r i tbl_get_update [of er_intent_id "update_row now st bid q p rr" i "\<lambda>row. er_intent_id row = i" t, OF k]
    by (simp add: update_state_def)
  then show ?thesis by (auto simp: update_row_def)
qed

text \<open>A hook that does not raise and keeps the rows of a table.\<close>

lemma callback_row: "has_row i t \<Longrightarrow> has_row i (snd (persistence_callback env m t))"
  by (simp add: persistence_callback_def update_state_row)

lemma transition_result:
  assumes "new \<in> set (valid_transitions (m_state m))" "new \<noteq> m_state m"
  shows "\<exists>m' t'. try_transition_to (persistence_callback env) now new (m, t) = (Inr True, m', t') \<and>
      m_state m' = new \<and> m_quantity m' = m_quantity m \<and> (\<forall>i. has_row i t \<longrightarrow> has_row i t')"
  using assms callback_row [of _ t env "m\<lparr>m_state := new\<rparr>"]
  by (auto simp: try_transition_to_def validate_transition_def Let_def split: prod.split option.split)
    (simp_all add: persistence_callback_def)

text \<open>\<open>drives f m st\<close>: the operation \<open>f\<close> takes the machine \<open>m\<close> to the state \<open>st\<close>.\<close>

definition drives :: "(esm \<times> exec_table \<Rightarrow> (exn + bool) \<times> esm \<times> exec_table) \<Rightarrow> esm \<Rightarrow> xstate \<Rightarrow> bool" where
  "drives f m st \<longleftrightarrow> (\<forall>t. \<exists>b m' t'. f (m, t) = (Inr b, m', t') \<and> m_state m' = st \<and> m_quantity m' = m_quantity m \<and>
     (\<forall>i. has_row i t \<longrightarrow> has_row i t'))"

lemma drives_transition:
  "new \<in> set (valid_transitions (m_state m)) \<Longrightarrow> new \<noteq> m_state m \<Longrightarrow>
     drives (try_transition_to (persistence_callback env) now new) m new"
  unfolding drives_def using transition_result by blast

lemma drives_nothing:
  "new \<notin> set (valid_transitions (m_state m)) \<Longrightarrow>
     drives (try_transition_to (persistence_callback env) now new) m (m_state m)"
  unfolding drives_def by (auto simp: try_transition_to_def validate_transition_def)

lemma drives_submission:
  assumes "m_state m = XS_PERSISTED"
  shows "drives (record_submission (persistence_callback env) now bid) m XS_SUBMITTED"
  using assms drives_transition [of XS_SUBMITTED "m\<lparr>m_broker_order_id := Some bid, m_submitted_at := Some (format_ts now)\<rparr>" env now]
  by (simp add: drives_def record_submission_def)

lemma drives_acknowledgment:
  assumes "m_state m = XS_SUBMITTED"
  shows "drives (record_acknowledgment (persistence_callback env) now) m XS_ACKNOWLEDGED"
  using assms drives_transition [of XS_ACKNOWLEDGED "m\<lparr>m_acknowledged_at := Some (format_ts now)\<rparr>" env now]
  by (simp add: drives_def record_acknowledgment_def)

lemma drives_fill:
  assumes "m_state m = XS_ACKNOWLEDGED" "m_quantity m \<le> q"
  shows "drives (record_fill (persistence_callback env) now q p) m XS_FILLED"
  using assms drives_transition [of XS_FILLED "add_fill now q p m" env now]
  by (simp add: drives_def record_fill_def Let_def add_fill_def)

lemma with_esm_drives:
  assumes m: "mach cid s = Some m" and f: "drives f m st"
  shows "\<exists>b s' m'. with_esm cid f s = (Inr b, s') \<and> mach cid s' = Some m' \<and> m_state m' = st \<and> m_quantity m' = m_quantity m \<and>
    x_rest s' = x_rest s \<and> (\<forall>i. has_row i (es_durable s) \<longrightarrow> has_row i (es_durable s'))"
proof -
  from f obtain b m' t' where "f (m, es_durable s) = (Inr b, m', t')" "m_state m' = st" "m_quantity m' = m_quantity m"
    "\<forall>i. has_row i (es_durable s) \<longrightarrow> has_row i t'"
    unfolding drives_def by blast
  with m show ?thesis by (auto simp: with_esm_def with_machine_def mach_def)
qed

text \<open>The machine of a filled result walks from VALIDATED to FILLED.\<close>

lemma record_filled:
  assumes m: "mach cid s = Some m" "m_state m = XS_VALIDATED" "m_quantity m = xr_lot_size rq" and st: "xo_status r = ST_FILLED"
  shows "\<exists>s' m'. record_result env cid rq r s = (Inr r, s') \<and> mach cid s' = Some m' \<and> m_state m' = XS_FILLED \<and>
    x_rest s' = x_rest s \<and> (\<forall>i. has_row i (es_durable s) \<longrightarrow> has_row i (es_durable s'))"
proof -
  let ?hk = "persistence_callback env" and ?now = "xe_now env"
  let ?bid = "str_or (xo_broker_order_id r) (if xo_order_id r = [] then cid else xo_order_id r)"
  have "XS_PERSISTED \<in> set (valid_transitions (m_state m))" "XS_PERSISTED \<noteq> m_state m" using m(2) by simp_all
  from with_esm_drives [OF m(1) drives_transition [OF this]] obtain b1 s1 m1 where
    s1: "with_esm cid (try_transition_to ?hk ?now XS_PERSISTED) s = (Inr b1, s1)" "mach cid s1 = Some m1"
      "m_state m1 = XS_PERSISTED" "m_quantity m1 = m_quantity m" "x_rest s1 = x_rest s"
      "\<forall>i. has_row i (es_durable s) \<longrightarrow> has_row i (es_durable s1)" by blast
  from with_esm_drives [OF s1(2) drives_submission [OF s1(3)]] obtain b2 s2 m2 where
    s2: "with_esm cid (record_submission ?hk ?now ?bid) s1 = (Inr b2, s2)" "mach cid s2 = Some m2"
      "m_state m2 = XS_SUBMITTED" "m_quantity m2 = m_quantity m1" "x_rest s2 = x_rest s1"
      "\<forall>i. has_row i (es_durable s1) \<longrightarrow> has_row i (es_durable s2)" by blast
  from with_esm_drives [OF s2(2) drives_acknowledgment [OF s2(3)]] obtain b3 s3 m3 where
    s3: "with_esm cid (record_acknowledgment ?hk ?now) s2 = (Inr b3, s3)" "mach cid s3 = Some m3"
      "m_state m3 = XS_ACKNOWLEDGED" "m_quantity m3 = m_quantity m2" "x_rest s3 = x_rest s2"
      "\<forall>i. has_row i (es_durable s2) \<longrightarrow> has_row i (es_durable s3)" by blast
  have "m_quantity m3 \<le> xr_lot_size rq" using s1 s2 s3 m(3) by simp
  from with_esm_drives [OF s3(2) drives_fill [OF s3(3) this]] obtain b4 s4 m4 where
    s4: "with_esm cid (record_fill ?hk ?now (xr_lot_size rq) (xr_strike_price rq)) s3 = (Inr b4, s4)" "mach cid s4 = Some m4"
      "m_state m4 = XS_FILLED" "x_rest s4 = x_rest s3" "\<forall>i. has_row i (es_durable s3) \<longrightarrow> has_row i (es_durable s4)" by blast
  have "record_result env cid rq r s = (Inr r, s4)"
    using s1(1) s2(1) s3(1) s4(1) st
    by (simp add: record_result_def advance_to_acknowledged_def Let_def x_bind_def x_try_def x_ret_def)
  with s1 s2 s3 s4 show ?thesis by auto
qed

subsection \<open>One placed order\<close>

text \<open>The conditions under which a request reaches the broker: the gates are open, the key is not a
  duplicate, and its machine is new or terminal.\<close>

definition gates_open :: "x_env \<Rightarrow> x_service \<Rightarrow> bool" where
  "gates_open env s \<longleftrightarrow> (case es_mode s of None \<Rightarrow> True | Some m \<Rightarrow> fst (allows_execution m)) \<and> \<not> is_hard_halted (xe_safety env)"

definition free_key :: "x_env \<Rightarrow> string \<Rightarrow> x_service \<Rightarrow> bool" where
  "free_key env k s \<longleftrightarrow> \<not> fst (idem_is_duplicate (xe_now env) k (es_idem s)) \<and>
     (case mach (generate_client_order_id k) s of None \<Rightarrow> True | Some m \<Rightarrow> m_state m \<in> {XS_FILLED, XS_REJECTED, XS_CANCELLED, XS_FAILED})"

text \<open>What admission does to a service when the journal accepts the intent.\<close>

definition wal_full :: "wal_params journal option \<Rightarrow> bool" where
  "wal_full w \<longleftrightarrow> (\<exists>j. w = Some j \<and> wj_max j \<le> length (wj_queue j))"

lemma with_wal_append_ok:
  assumes "xe_wal_append env = None"
  shows "\<exists>w. with_wal (wal_append (xe_wal_append env) now u it) s = (Inr (), s\<lparr>es_wal := w\<rparr>) \<and> (wal_full (es_wal s) \<longrightarrow> wal_full w)"
proof (cases "es_wal s")
  case None
  then have "s\<lparr>es_wal := None\<rparr> = s" by (cases s) simp
  with None show ?thesis by (intro exI [of _ None]) (simp add: with_wal_def)
next
  case (Some j)
  obtain j' where "journal_write None (WInsert (intent_row now u it)) j = (None, j')" using journal_write_ok by blast
  moreover from this have "wj_max j \<le> length (wj_queue j) \<Longrightarrow> wj_max j' \<le> length (wj_queue j')"
    by (auto simp: journal_write_def writer_submit_def fallback_execute_def)
  ultimately show ?thesis using Some assms by (auto simp: with_wal_def wal_append_def wal_full_def)
qed

lemma dup_table: "fst (idem_is_duplicate now k (im\<lparr>im_table := t\<rparr>)) = fst (idem_is_duplicate now k im)"
  by (simp add: idem_is_duplicate_def idem_cleanup_def Let_def)

definition admitted :: "x_env \<Rightarrow> string \<Rightarrow> string \<Rightarrow> x_service \<Rightarrow> x_service \<Rightarrow> bool" where
  "admitted env k intent s s1 \<longleftrightarrow>
     es_config s1 = es_config s \<and> es_mode s1 = es_mode s \<and> es_machines s1 = es_machines s \<and> es_trades s1 = es_trades s \<and>
     es_broker_type s1 = es_broker_type s \<and> es_placed s1 = es_placed s \<and> es_executions s1 = es_executions s \<and>
     es_router s1 = es_router s \<and> es_engine s1 = es_engine s \<and> (wal_full (es_wal s) \<longrightarrow> wal_full (es_wal s1)) \<and>
     im_cache_size (es_idem s1) = im_cache_size (es_idem s) \<and>
     map_of (im_in_flight (es_idem s1)) k = Some (xe_now env) \<and>
     im_cache (es_idem s1) = im_cache (idem_cleanup (xe_now env) (es_idem s)) \<and>
     (xe_up_durable env \<longrightarrow> has_row intent (es_durable s1))"

lemma admit_free:
  assumes w: "xe_wal_append env = None" and d: "\<not> fst (idem_is_duplicate (xe_now env) k (es_idem s))"
    and cf: "cf_duplicate_prevention (es_config s)"
  shows "\<exists>eid s1. admit_order env k intent rq s = (Inr (Inr eid), s1) \<and> admitted env k intent s s1"
proof -
  let ?s0 = "s\<lparr>es_counter := es_counter s + 1\<rparr>"
  obtain w' where a: "with_wal (wal_append (xe_wal_append env) (xe_now env) (xe_uuid env) (wal_intent intent rq)) ?s0 =
      (Inr (), ?s0\<lparr>es_wal := w'\<rparr>)" and full: "wal_full (es_wal s) \<longrightarrow> wal_full w'"
    using with_wal_append_ok [OF w, of "xe_now env" "xe_uuid env" "wal_intent intent rq" ?s0] by auto
  define im where "im = (es_idem s)\<lparr>im_table := es_table s\<rparr>"
  have dup: "idem_is_duplicate (xe_now env) k im = (False, idem_cleanup (xe_now env) im)"
    using d dup_table [of "xe_now env" k "es_table s" "es_idem s"] by (simp add: im_def idem_is_duplicate_def Let_def)
  have row: "er_intent_id (record_to_row (new_durable_record env intent eid rq)) = intent" for eid
    by (simp add: record_to_row_def new_durable_record_def)
  have save: "xe_up_durable env \<Longrightarrow>
      has_row intent (fst (save_execution (xe_up_durable env) (new_durable_record env intent eid rq) t))" for eid t
    using row by (simp add: has_row_def save_execution_def tbl_get_replace)
  show ?thesis
    using a dup save cf full
    by (auto simp: admit_order_def Let_def x_bind_def x_upd_def x_ret_def with_idem_def im_def [symmetric] admitted_def
        idem_mark_in_flight_def idem_persist_def)
      (simp_all add: im_def idem_cleanup_def Let_def)
qed

lemma with_idem_keeps [keeps_intros]:
  "(\<And>s im t. view (s\<lparr>es_idem := im, es_table := t\<rparr>) = view s) \<Longrightarrow> x_keeps view (with_idem f)"
  by (auto simp: x_keeps_def with_idem_def split: prod.split)

lemma keeps_placed: "x_keeps x_frame m \<Longrightarrow> x_keeps es_placed m"
  by (simp add: x_keeps_def x_frame_def)

lemma book_success_placed: "x_keeps es_placed (book_success env k intent eid rq ctx r)"
  unfolding book_success_def Let_def
  by (intro keeps_intros keeps_placed [OF audit_if_keeps] keeps_placed [OF persist_trade_keeps])
    (simp_all add: durable_update_def)

lemma book_error_placed: "x_keeps es_placed (book_error env k intent eid rq ctx e)"
  unfolding book_error_def Let_def
  by (intro keeps_intros keeps_placed [OF audit_if_keeps]) simp_all

lemma run_order_placed: "es_placed (snd (run_order env k intent eid rq ctx s)) = es_placed (snd (execute_with_retries env k rq ctx s))"
proof -
  obtain x s1 where e: "execute_with_retries env k rq ctx s = (x, s1)" by fastforce
  let ?book = "\<lambda>r. x_bind (if xo_status r = ST_FILLED \<or> xo_status r = ST_PARTIALLY_FILLED
      then book_success env k intent eid rq ctx r else book_failure env intent eid rq ctx r) (\<lambda>_. x_ret r)"
  have b: "x_keeps es_placed (?book r)" for r
    by (intro keeps_intros book_success_placed keeps_placed [OF book_failure_keeps])
  show ?thesis
  proof (cases x)
    case (Inl err)
    with e keepsD [OF book_error_placed] show ?thesis
      by (auto simp: run_order_def x_try_def x_bind_def) (metis prod.collapse)
  next
    case (Inr r)
    obtain y s2 where b2: "?book r s1 = (y, s2)" by fastforce
    with b have p2: "es_placed s2 = es_placed s1" by (rule keepsD)
    have "x_bind (execute_with_retries env k rq ctx) ?book s = (y, s2)"
      using e Inr b2 by (simp add: x_bind_def [of "execute_with_retries env k rq ctx"])
    with e p2 keepsD [OF book_error_placed] show ?thesis
      by (cases y) (auto simp: run_order_def x_try_def, metis prod.collapse)
  qed
qed

text \<open>The machine of a free key is validated or stays terminal, and the attempt is made.\<close>

lemma retries_attempt:
  assumes h: "\<not> is_hard_halted (xe_safety env)" and k: "k \<noteq> []" and cid: "cid = generate_client_order_id k"
    and m: "case mach cid s of None \<Rightarrow> True | Some m \<Rightarrow> m_state m \<in> {XS_FILLED, XS_REJECTED, XS_CANCELLED, XS_FAILED}"
  shows "\<exists>s1 m1. execute_with_retries env k rq ctx s =
      x_try (x_bind (attempt_order_execution env k rq ctx) (record_result env cid rq)) service_catches
        (\<lambda>e. x_bind (with_esm cid (try_transition_to (persistence_callback env) (xe_now env) XS_FAILED))
           (\<lambda>_. x_ret (order_result (xe_now env) ''execution_failed'' ST_REJECTED (Some (''Execution failed: '' @ exn_msg e))))) s1 \<and>
    x_rest s1 = x_rest s \<and> (\<forall>i. has_row i (es_durable s) \<longrightarrow> has_row i (es_durable s1)) \<and> mach cid s1 = Some m1 \<and>
    (mach cid s = None \<longrightarrow> m_state m1 = XS_VALIDATED \<and> m_quantity m1 = xr_lot_size rq) \<and>
    (mach cid s \<noteq> None \<longrightarrow> m_state m1 = m_state (the (mach cid s)))"
proof -
  let ?now = "xe_now env"
  let ?new = "new_esm ?now k cid (xr_symbol rq) (xr_lot_size rq) (xr_strike_price rq) (xr_direction rq) (mg_hook (es_machines s))"
  obtain m0 n g where cg: "create_or_get ?now k (xr_symbol rq) (xr_lot_size rq) (xr_strike_price rq) (xr_direction rq) (es_machines s) = ((m0, n), g)"
    by (metis prod.exhaust)
  have m0: "mach cid (s\<lparr>es_machines := g\<rparr>) = Some m0" "mach cid s = None \<longrightarrow> n \<and> m0 = ?new" "mach cid s \<noteq> None \<longrightarrow> \<not> n \<and> mach cid s = Some m0"
    using cg cid by (auto simp: create_or_get_def mach_def Let_def split: option.splits)
  have go: "\<not> (\<not> n \<and> m_state m0 \<notin> {XS_FILLED, XS_REJECTED, XS_CANCELLED, XS_FAILED})"
    using m m0 by (cases "mach cid s") auto
  have "drives (try_transition_to (persistence_callback env) ?now XS_VALIDATED) m0 (if mach cid s = None then XS_VALIDATED else m_state m0)"
  proof (cases "mach cid s")
    case None
    with m0 show ?thesis using drives_transition [of XS_VALIDATED m0 env ?now] by (simp add: new_esm_def)
  next
    case (Some m')
    with m0 m have "m_state m0 \<in> {XS_FILLED, XS_REJECTED, XS_CANCELLED, XS_FAILED}" by simp
    then have "XS_VALIDATED \<notin> set (valid_transitions (m_state m0))" by auto
    with Some show ?thesis using drives_nothing by simp
  qed
  from with_esm_drives [OF m0(1) this] obtain b s1 m1 where
    s1: "with_esm cid (try_transition_to (persistence_callback env) ?now XS_VALIDATED) (s\<lparr>es_machines := g\<rparr>) = (Inr b, s1)"
      "mach cid s1 = Some m1" "m_state m1 = (if mach cid s = None then XS_VALIDATED else m_state m0)"
      "m_quantity m1 = m_quantity m0" "x_rest s1 = x_rest s" "\<forall>i. has_row i (es_durable s) \<longrightarrow> has_row i (es_durable s1)"
    by auto
  have q: "mach cid s = None \<longrightarrow> m_quantity m1 = xr_lot_size rq" using s1(4) m0(2) by (simp add: new_esm_def)
  show ?thesis
    using h k cid cg go s1 m0(3) q
    by (auto simp: execute_with_retries_def Let_def x_bind_def [of "with_esm _ (try_transition_to _ _ XS_VALIDATED)"] intro!: exI [of _ s1])
qed

lemma attempt_places:
  assumes "\<not> is_paper env ctx" "xb_place (xe_broker env) = Some f" "es_router s = None"
  shows "es_placed (snd (attempt_order_execution env k rq ctx s)) = es_placed s @ [(k, rq)]"
  using assms by (auto simp: attempt_order_execution_def x_try_def place_order_def place_with_broker_def x_ret_def split: sum.split)

lemma retries_place:
  assumes "\<not> is_hard_halted (xe_safety env)" "k \<noteq> []" "\<not> is_paper env ctx" "xb_place (xe_broker env) = Some f"
    and rt: "es_router s = None"
    and "case mach (generate_client_order_id k) s of None \<Rightarrow> True | Some m \<Rightarrow> m_state m \<in> {XS_FILLED, XS_REJECTED, XS_CANCELLED, XS_FAILED}"
  shows "es_placed (snd (execute_with_retries env k rq ctx s)) = es_placed s @ [(k, rq)]"
proof -
  let ?cid = "generate_client_order_id k"
  obtain s1 where e: "execute_with_retries env k rq ctx s =
      x_try (x_bind (attempt_order_execution env k rq ctx) (record_result env ?cid rq)) service_catches
        (\<lambda>e. x_bind (with_esm ?cid (try_transition_to (persistence_callback env) (xe_now env) XS_FAILED))
           (\<lambda>_. x_ret (order_result (xe_now env) ''execution_failed'' ST_REJECTED (Some (''Execution failed: '' @ exn_msg e))))) s1"
    and r: "x_rest s1 = x_rest s"
    using retries_attempt [OF assms(1,2) refl assms(6)] by blast
  have p1: "es_placed s1 = es_placed s" "es_router s1 = None" using x_rest_sel [OF r] rt by simp_all
  obtain x s2 where a: "attempt_order_execution env k rq ctx s1 = (x, s2)" by fastforce
  have p2: "es_placed s2 = es_placed s @ [(k, rq)]" using attempt_places [OF assms(3,4) p1(2), of k rq] a p1(1) by simp
  have k1: "x_keeps es_placed (record_result env ?cid rq r)" for r by (rule keeps_placed [OF record_result_keeps])
  have k2: "x_keeps es_placed (\<lambda>s. x_bind (with_esm ?cid (try_transition_to (persistence_callback env) (xe_now env) XS_FAILED)) (\<lambda>_. x_ret q) s)" for q :: x_result
    by (intro keeps_intros) simp
  obtain y s3 where b: "x_bind (attempt_order_execution env k rq ctx) (record_result env ?cid rq) s1 = (y, s3)" by fastforce
  with a have "es_placed s3 = es_placed s2" using keepsD [OF k1] by (cases x) (auto simp: x_bind_def)
  with e b p2 show ?thesis using keepsD [OF k2] by (cases y) (auto simp: x_try_def, metis prod.collapse)
qed

lemma execute_order_open:
  assumes "case es_mode s of None \<Rightarrow> True | Some m \<Rightarrow> fst (allows_execution m)"
    and "xr_idempotency_key rq = Some k" "k \<noteq> []"
  shows "execute_order env rq (Some ctx) s =
    x_bind (admit_order env k (order_intent_id env rq) rq)
      (\<lambda>a. case a of Inl r \<Rightarrow> x_ret r | Inr eid \<Rightarrow> run_order env k (order_intent_id env rq) eid rq ctx) s"
proof -
  have "fst (case es_mode s of None \<Rightarrow> (True, []) | Some m \<Rightarrow> allows_execution m)"
    using assms(1) by (simp split: option.splits)
  moreover have "rq\<lparr>xr_idempotency_key := Some k\<rparr> = rq" using assms(2) by (cases rq) simp
  moreover have "request_key env rq ctx = k" using assms(2,3) by (simp add: request_key_def)
  ultimately show ?thesis by (auto simp: execute_order_def Let_def split: prod.split bool.split)
qed

text \<open>No router is configured, and the broker accepts the order and reports it filled, with an id, a price and a quantity that pass
  the validation.\<close>

definition fills_order :: "x_service \<Rightarrow> x_env \<Rightarrow> x_request \<Rightarrow> x_context \<Rightarrow> x_result \<Rightarrow> bool" where
  "fills_order s env rq ctx r \<longleftrightarrow>
     es_router s = None \<and> \<not> is_paper env ctx \<and> (\<exists>f. xb_place (xe_broker env) = Some f \<and> f rq = Inr (PaResult r)) \<and> xo_status r = ST_FILLED \<and>
     str_strip (xo_order_id r) \<noteq> [] \<and> 0 \<le> xo_average_price r \<and> 0 \<le> xo_filled_quantity r"

lemma attempt_filled:
  assumes "fills_order s env rq ctx r"
  shows "attempt_order_execution env k rq ctx s = (Inr r, s\<lparr>es_placed := es_placed s @ [(k, rq)]\<rparr>)"
proof -
  obtain v where "validate_order_result (xe_repr env) (es_broker_type s) (Some r) = Inr v" "ar_is_valid v"
    using validate_order_result_iff [of "xe_repr env" "es_broker_type s" r] assms by (auto simp: fills_order_def)
  then have "validate_broker_result env (es_broker_type s) r = Inr r"
    by (simp add: validate_broker_result_def)
  with assms show ?thesis
    by (auto simp: fills_order_def attempt_order_execution_def x_try_def place_order_def place_with_broker_def)
qed

lemma retries_filled:
  assumes h: "\<not> is_hard_halted (xe_safety env)" "k \<noteq> []" "mach (generate_client_order_id k) s = None"
    and f: "fills_order s env rq ctx r"
  shows "\<exists>s' m. execute_with_retries env k rq ctx s = (Inr r, s') \<and> mach (generate_client_order_id k) s' = Some m \<and>
    m_state m = XS_FILLED \<and> x_rest s' = x_rest (s\<lparr>es_placed := es_placed s @ [(k, rq)]\<rparr>) \<and>
    (\<forall>i. has_row i (es_durable s) \<longrightarrow> has_row i (es_durable s'))"
proof -
  let ?cid = "generate_client_order_id k"
  obtain s1 m1 where e: "execute_with_retries env k rq ctx s =
      x_try (x_bind (attempt_order_execution env k rq ctx) (record_result env ?cid rq)) service_catches
        (\<lambda>e. x_bind (with_esm ?cid (try_transition_to (persistence_callback env) (xe_now env) XS_FAILED))
           (\<lambda>_. x_ret (order_result (xe_now env) ''execution_failed'' ST_REJECTED (Some (''Execution failed: '' @ exn_msg e))))) s1"
    and s1: "x_rest s1 = x_rest s" "\<forall>i. has_row i (es_durable s) \<longrightarrow> has_row i (es_durable s1)" "mach ?cid s1 = Some m1"
      "m_state m1 = XS_VALIDATED" "m_quantity m1 = xr_lot_size rq"
    using retries_attempt [OF h(1,2) refl, of s rq ctx] h(3) by auto
  let ?s2 = "s1\<lparr>es_placed := es_placed s1 @ [(k, rq)]\<rparr>"
  have m2: "mach ?cid ?s2 = Some m1" using s1(3) by (simp add: mach_def)
  from record_filled [OF m2 s1(4,5), of r env] f obtain s' m where
    s': "record_result env ?cid rq r ?s2 = (Inr r, s')" "mach ?cid s' = Some m" "m_state m = XS_FILLED"
      "x_rest s' = x_rest ?s2" "\<forall>i. has_row i (es_durable s1) \<longrightarrow> has_row i (es_durable s')"
    by (auto simp: fills_order_def)
  have "x_rest ?s2 = x_rest (s\<lparr>es_placed := es_placed s @ [(k, rq)]\<rparr>)"
    using s1(1) by (simp add: x_rest_def)
  moreover have "fills_order s1 env rq ctx r" using f x_rest_sel [OF s1(1)] by (simp add: fills_order_def)
  ultimately show ?thesis using e s' s1 attempt_filled [of s1 env rq ctx r k]
    by (auto simp: x_try_def x_bind_def)
qed

lemma with_wal_ok:
  assumes "f = wal_commit None now i \<or> f = wal_fail None now i err"
  shows "\<exists>w. with_wal f s = (Inr (), s\<lparr>es_wal := w\<rparr>)"
proof (cases "es_wal s")
  case None
  then have "s\<lparr>es_wal := None\<rparr> = s" by (cases s) simp
  with None show ?thesis by (intro exI [of _ None]) (simp add: with_wal_def)
next
  case (Some j)
  obtain wr where "f = journal_write None wr" using assms by (auto simp: wal_commit_def wal_fail_def)
  moreover obtain j' where "journal_write None wr j = (None, j')" using journal_write_ok by blast
  ultimately show ?thesis using Some by (auto simp: with_wal_def)
qed

text \<open>The audit at the end of a call, on the parts the properties speak about.\<close>

definition x_books :: "x_service \<Rightarrow> _" where
  "x_books s = (es_machines s, es_durable s, es_idem s, es_placed s, es_config s, es_mode s, es_wal s, es_router s)"

lemma audit_if_books: "x_keeps x_books (audit_if env a)" "x_keeps x_books (persist_trade_from_order env rq r)"
proof -
  have s: "x_keeps x_books (\<lambda>s. case (es_trades s, td) of (Some _, Some td) \<Rightarrow> save_trade env td s | _ \<Rightarrow> x_ret () s)" for td
    by (auto simp: x_keeps_def save_trade_def x_ret_def x_books_def split: option.split)
  show "x_keeps x_books (audit_if env a)" "x_keeps x_books (persist_trade_from_order env rq r)"
    unfolding audit_if_def record_execution_audit_def persist_trade_from_order_def
    by (intro keeps_intros s; simp add: x_books_def trim_executions_cache_def Let_def)+
qed

lemma audit_if_returns: "xe_save_trade env = None \<Longrightarrow> \<exists>s'. audit_if env a s = (Inr (), s') \<and> x_books s' = x_books s"
proof -
  assume sv: "xe_save_trade env = None"
  obtain x s' where p: "audit_if env a s = (x, s')" by fastforce
  moreover from p have "x_books s' = x_books s" by (rule keepsD [OF audit_if_books(1)])
  moreover from p sv have "x = Inr ()"
    by (auto simp: audit_if_def x_bind_def record_execution_audit_def x_try_def x_upd_def x_ret_def save_trade_def
        split: if_splits option.splits prod.splits sum.splits)
  ultimately show ?thesis by simp
qed

lemma x_bind_Inr: "m s = (Inr a, s') \<Longrightarrow> x_bind m f s = f a s'"
  by (simp add: x_bind_def)

lemma dict_set_new: "map_of d k = None \<Longrightarrow> dict_set k v d = d @ [(k, v)]"
  by (induction d) (auto split: if_splits)

text \<open>A confirmed result is cached, also when an older one is evicted for it.\<close>

lemma confirm_cached:
  assumes "int (length (im_cache im)) \<le> im_cache_size im" "0 < im_cache_size im"
  shows "map_of (im_cache (idem_confirm_execution rt up now k r im)) k = Some (now, r)"
proof (cases "map_of (im_cache im) k")
  case None
  then have d: "dict_set k (now, r) (im_cache im) = im_cache im @ [(k, now, r)]" by (rule dict_set_new)
  show ?thesis
  proof (cases "im_cache im")
    case Nil
    with assms(2) d show ?thesis by (simp add: idem_confirm_execution_def evict_oldest_def idem_persist_def)
  next
    case (Cons p c)
    with None have "map_of c k = None" by (simp split: if_splits)
    then have "map_of (c @ [(k, now, r)]) k = Some (now, r)" by (simp add: map_add_def)
    with None Cons d show ?thesis
      by (auto simp: idem_confirm_execution_def evict_oldest_def idem_persist_def map_add_def split: option.split)
  qed
next
  case (Some v)
  then have "length (dict_set k (now, r) (im_cache im)) = length (im_cache im)" by (auto simp: dict_set_length)
  with assms show ?thesis by (simp add: idem_confirm_execution_def evict_oldest_def idem_persist_def)
qed

lemma book_success_ok:
  assumes "xe_wal_commit env = None" "xe_save_trade env = None" "xe_up_durable env" "has_row intent (es_durable s)"
    and "0 < im_cache_size (es_idem s)" "int (length (im_cache (es_idem s))) \<le> im_cache_size (es_idem s)"
  shows "\<exists>s' row. book_success env k intent eid rq ctx r s = (Inr (), s') \<and> es_machines s' = es_machines s \<and>
    es_placed s' = es_placed s \<and> map_of (im_in_flight (es_idem s')) k = None \<and>
    map_of (im_cache (es_idem s')) k = Some (xe_now env, r) \<and>
    tbl_get er_intent_id intent (es_durable s') = Some row \<and>
    er_state row = durable_value (if xo_status r = ST_FILLED then DS_FILLED else DS_PARTIALLY_FILLED) \<and>
    (xo_broker_order_id r \<noteq> None \<longrightarrow> er_broker_order_id row = xo_broker_order_id r) \<and>
    (0 < xo_filled_quantity r \<longrightarrow> er_filled_quantity row = xo_filled_quantity r) \<and>
    (0 < xo_average_price r \<longrightarrow> er_average_price row = xo_average_price r)"
proof -
  let ?now = "xe_now env"
  let ?st = "if xo_status r = ST_FILLED then DS_FILLED else DS_PARTIALLY_FILLED"
  obtain w where w: "with_wal (wal_commit (xe_wal_commit env) ?now intent) s = (Inr (), s\<lparr>es_wal := w\<rparr>)"
    using with_wal_ok [of _ ?now intent] assms(1) by metis
  let ?s1 = "s\<lparr>es_wal := w\<rparr>"
  define im where "im = idem_confirm_execution (xe_json env) (xe_up_idem env) ?now k r ((es_idem ?s1)\<lparr>im_table := es_table ?s1\<rparr>)"
  let ?s2 = "?s1\<lparr>es_idem := im, es_table := im_table im\<rparr>"
  obtain en tb where en: "with_engine (\<lambda>en. ((), engine_store_result (xe_json env) (xe_up_idem env) ?now k r en)) ?s2 =
      (Inr (), ?s2\<lparr>es_engine := en, es_table := tb\<rparr>)"
    by (simp add: with_engine_def Let_def)
  let ?s3 = "?s2\<lparr>es_engine := en, es_table := tb\<rparr>"
  let ?s4 = "durable_update env intent ?st (xo_broker_order_id r) (xo_filled_quantity r) (xo_average_price r) None ?s3"
  define persist where "persist = (\<lambda>s. if es_trades s \<noteq> None \<and> xo_filled_quantity r > 0 \<and> cf_audit_trail (es_config s)
                then persist_trade_from_order env rq r s else x_ret () s)"
  obtain x s5 where p: "persist ?s4 = (x, s5)" by fastforce
  have s5: "x = Inr ()" "x_books s5 = x_books ?s4"
  proof -
    show "x = Inr ()" using p assms(2)
      by (auto simp: persist_def persist_trade_from_order_def x_try_def x_ret_def save_trade_def split: if_splits)
    show "x_books s5 = x_books ?s4"
      using p keepsD [OF audit_if_books(2)] by (auto simp: persist_def x_ret_def split: if_splits)
  qed
  obtain s6 where s6: "audit_if env (audit_of env eid rq ctx r) s5 = (Inr (), s6)" "x_books s6 = x_books s5"
    using audit_if_returns [OF assms(2)] by blast
  have id: "with_idem (\<lambda>im. ((), idem_confirm_execution (xe_json env) (xe_up_idem env) ?now k r im)) ?s1 = (Inr (), ?s2)"
    by (simp add: with_idem_def im_def)
  have ud: "x_upd (durable_update env intent ?st (xo_broker_order_id r) (xo_filled_quantity r) (xo_average_price r) None) ?s3 = (Inr (), ?s4)"
    by (simp add: x_upd_def)
  have run: "book_success env k intent eid rq ctx r s = (Inr (), s6)"
    unfolding book_success_def Let_def persist_def [symmetric]
    by (simp only: x_bind_def w id en ud p s5(1) s6(1) prod.case sum.case)
  have eq: "es_machines s6 = es_machines s" "es_placed s6 = es_placed s" "es_idem s6 = im" "es_durable s6 = es_durable ?s4"
    using s5(2) s6(2) by (simp_all add: x_books_def durable_update_def)
  obtain row where "tbl_get er_intent_id intent (es_durable ?s4) = Some row" "er_state row = durable_value ?st"
    "xo_broker_order_id r \<noteq> None \<longrightarrow> er_broker_order_id row = xo_broker_order_id r"
    "0 < xo_filled_quantity r \<longrightarrow> er_filled_quantity row = xo_filled_quantity r"
    "0 < xo_average_price r \<longrightarrow> er_average_price row = xo_average_price r"
    using update_state_get [OF assms(4), of ?now ?st "xo_broker_order_id r" "xo_filled_quantity r" "xo_average_price r" None] assms(3)
    by (auto simp: durable_update_def)
  moreover have "map_of (im_in_flight im) k = None"
    by (simp add: im_def idem_confirm_execution_def evict_oldest_def idem_persist_def)
  moreover have "map_of (im_cache im) k = Some (?now, r)"
    unfolding im_def using assms(5,6) by (intro confirm_cached) simp_all
  ultimately show ?thesis using run eq by auto
qed

text \<open>A commit that fails after the fill: the fill is forgotten by duplicate prevention.\<close>

lemma commit_failure_forgets:
  assumes g: "gates_open env s" and k: "xr_idempotency_key rq = Some k" "k \<noteq> []"
    and d: "\<not> fst (idem_is_duplicate (xe_now env) k (es_idem s))" "mach (generate_client_order_id k) s = None"
      "map_of (im_cache (es_idem s)) k = None" "dict_ok (im_cache (es_idem s))"
    and f: "fills_order s env rq ctx r"
    and w: "xe_wal_append env = None" "xe_wal_commit env = Some e" "caught service_catches e" "xe_wal_fail env = None"
      "wal_full (es_wal s)" "xe_save_trade env = None"
    and c: "cf_duplicate_prevention (es_config s)"
  shows "\<exists>r' s' m. execute_order env rq (Some ctx) s = (Inr r', s') \<and> xo_status r' = ST_REJECTED \<and>
    mach (generate_client_order_id k) s' = Some m \<and> m_state m = XS_FILLED \<and> es_placed s' = es_placed s @ [(k, rq)] \<and>
    es_config s' = es_config s \<and> es_mode s' = es_mode s \<and> es_router s' = es_router s \<and> map_of (im_cache (es_idem s')) k = None \<and>
    map_of (im_in_flight (es_idem s')) k = None \<and> dict_ok (im_cache (es_idem s'))"
proof -
  let ?i = "order_intent_id env rq" and ?cid = "generate_client_order_id k"
  obtain eid s1 where a: "admit_order env k ?i rq s = (Inr (Inr eid), s1)" and s1: "admitted env k ?i s s1"
    using admit_free [OF w(1) d(1) c] by blast
  have h: "\<not> is_hard_halted (xe_safety env)"
    and mode: "case es_mode s of None \<Rightarrow> True | Some m \<Rightarrow> fst (allows_execution m)"
    using g by (simp_all add: gates_open_def)
  have f1: "fills_order s1 env rq ctx r" using f s1 by (simp add: fills_order_def admitted_def)
  have "mach ?cid s1 = None" using s1 d(2) by (simp add: admitted_def mach_def)
  then obtain s2 m where e: "execute_with_retries env k rq ctx s1 = (Inr r, s2)"
    and s2: "mach ?cid s2 = Some m" "m_state m = XS_FILLED"
      "x_rest s2 = x_rest (s1\<lparr>es_placed := es_placed s1 @ [(k, rq)]\<rparr>)"
    using retries_filled [OF h k(2) _ f1] by blast
  note rest = x_rest_sel [OF s2(3)]
  obtain j where j: "es_wal s2 = Some j" "wj_max j \<le> length (wj_queue j)"
    using rest s1 w(5) by (auto simp: admitted_def wal_full_def)
  have "with_wal (wal_commit (xe_wal_commit env) (xe_now env) ?i) s2 = (Inl e, s2\<lparr>es_wal := Some j\<rparr>)"
    using j w(2) by (simp add: with_wal_def wal_commit_def journal_write_def writer_submit_def fallback_execute_def)
  moreover have j2: "s2\<lparr>es_wal := Some j\<rparr> = s2" using j(1) by (cases s2) simp
  ultimately have bs: "book_success env k ?i eid rq ctx r s2 = (Inl e, s2)"
    by (simp add: book_success_def Let_def x_bind_def)
  let ?r = "order_result (xe_now env) ''error'' ST_REJECTED (Some (''Execution service error: '' @ exn_msg e))"
  obtain w3 where w3: "with_wal (wal_fail (xe_wal_fail env) (xe_now env) ?i (exn_msg e)) s2 = (Inr (), s2\<lparr>es_wal := w3\<rparr>)"
    using with_wal_ok [of _ "xe_now env" ?i] w(4) by metis
  define im where "im = idem_clear_in_flight (xe_up_idem env) k ((es_idem s2)\<lparr>im_table := es_table s2\<rparr>)"
  define s4 where "s4 = s2\<lparr>es_wal := w3, es_idem := im, es_table := im_table im,
    es_durable := fst (durable_clear_in_flight (xe_up_durable env) (xe_now env) ?i (es_durable s2))\<rparr>"
  obtain s5 where s5: "audit_if env (audit_of env eid rq ctx ?r) s4 = (Inr (), s5)" "x_books s5 = x_books s4"
    using audit_if_returns [OF w(6)] by blast
  have be: "book_error env k ?i eid rq ctx e s2 = (Inr ?r, s5)"
    using w3 s5(1) by (simp add: book_error_def Let_def x_bind_def with_idem_def x_upd_def x_ret_def im_def [symmetric] s4_def)
  have "run_order env k ?i eid rq ctx s1 = (Inr ?r, s5)"
    using e bs be w(3) f by (simp add: run_order_def x_try_def x_bind_def fills_order_def)
  then have first: "execute_order env rq (Some ctx) s = (Inr ?r, s5)"
    using a by (simp add: execute_order_open [OF mode k] x_bind_def)
  have b5: "es_machines s5 = es_machines s2" "es_idem s5 = im" "es_placed s5 = es_placed s @ [(k, rq)]" "es_config s5 = es_config s" "es_mode s5 = es_mode s" "es_router s5 = es_router s"
    using s5(2) rest s1 by (simp_all add: x_books_def s4_def admitted_def)
  have "map_of (im_cache im) k = None" "map_of (im_in_flight im) k = None"
    using rest s1 d(3,4) by (auto simp: im_def idem_clear_in_flight_def Let_def admitted_def idem_cleanup_def map_of_filter_dict)
  moreover have "dict_ok (im_cache im)"
    using rest s1 d(4) by (auto simp: im_def idem_clear_in_flight_def Let_def admitted_def idem_cleanup_def intro: dict_ok_filter)
  ultimately show ?thesis using first b5 s2 by (auto simp: mach_def order_result_def)
qed

lemma unknown_key_free:
  assumes "map_of (im_cache im) k = None" "map_of (im_in_flight im) k = None"
  shows "\<not> fst (idem_is_duplicate now k im)"
  using assms by (auto simp: idem_is_duplicate_def idem_cleanup_def Let_def map_of_eq_None_iff image_iff)

lemma book_failure_ok:
  assumes "xe_wal_fail env = None" "xe_save_trade env = None" "xe_up_durable env" "has_row intent (es_durable s)"
  shows "\<exists>s' row. book_failure env intent eid rq ctx r s = (Inr (), s') \<and> es_machines s' = es_machines s \<and>
    es_placed s' = es_placed s \<and> es_idem s' = es_idem s \<and> tbl_get er_intent_id intent (es_durable s') = Some row \<and>
    er_state row = durable_value (if xo_status r = ST_REJECTED then DS_REJECTED else DS_FAILED)"
proof -
  let ?st = "if xo_status r = ST_REJECTED then DS_REJECTED else DS_FAILED"
  obtain w where w: "with_wal (wal_fail (xe_wal_fail env) (xe_now env) intent (str_or (xo_reject_reason r) ''Order rejected'')) s =
      (Inr (), s\<lparr>es_wal := w\<rparr>)"
    using with_wal_ok [of _ "xe_now env" intent] assms(1) by metis
  define s1 where "s1 = durable_update env intent ?st None 0 0 (xo_reject_reason r) (s\<lparr>es_wal := w\<rparr>)"
  obtain s2 where s2: "audit_if env (audit_of env eid rq ctx r) s1 = (Inr (), s2)" "x_books s2 = x_books s1"
    using audit_if_returns [OF assms(2)] by blast
  have "book_failure env intent eid rq ctx r s = (Inr (), s2)"
    using w s2(1) by (simp add: book_failure_def x_bind_def x_upd_def s1_def)
  moreover obtain row where "tbl_get er_intent_id intent (es_durable s1) = Some row" "er_state row = durable_value ?st"
    using update_state_get [OF assms(4), of "xe_now env" ?st None 0 0 "xo_reject_reason r"] assms(3)
    by (auto simp: s1_def durable_update_def)
  ultimately show ?thesis using s2(2) by (simp add: x_books_def s1_def durable_update_def)
qed

lemma retries_rejected:
  assumes h: "\<not> is_hard_halted (xe_safety env)" "k \<noteq> []" "mach (generate_client_order_id k) s = None"
    and a: "\<And>s'. es_router s' = es_router s \<Longrightarrow> es_broker_type s' = es_broker_type s \<Longrightarrow>
      attempt_order_execution env k rq ctx s' = (Inr r, s'\<lparr>es_placed := es_placed s' @ [(k, rq)]\<rparr>)"
    and st: "xo_status r = ST_REJECTED"
  shows "\<exists>s' m. execute_with_retries env k rq ctx s = (Inr r, s') \<and> mach (generate_client_order_id k) s' = Some m \<and>
    m_state m = XS_VALIDATED \<and> x_rest s' = x_rest (s\<lparr>es_placed := es_placed s @ [(k, rq)]\<rparr>) \<and>
    (\<forall>i. has_row i (es_durable s) \<longrightarrow> has_row i (es_durable s'))"
proof -
  let ?cid = "generate_client_order_id k"
  obtain s1 m1 where e: "execute_with_retries env k rq ctx s =
      x_try (x_bind (attempt_order_execution env k rq ctx) (record_result env ?cid rq)) service_catches
        (\<lambda>e. x_bind (with_esm ?cid (try_transition_to (persistence_callback env) (xe_now env) XS_FAILED))
           (\<lambda>_. x_ret (order_result (xe_now env) ''execution_failed'' ST_REJECTED (Some (''Execution failed: '' @ exn_msg e))))) s1"
    and s1: "x_rest s1 = x_rest s" "\<forall>i. has_row i (es_durable s) \<longrightarrow> has_row i (es_durable s1)" "mach ?cid s1 = Some m1"
      "m_state m1 = XS_VALIDATED"
    using retries_attempt [OF h(1,2) refl, of s rq ctx] h(3) by auto
  let ?s2 = "s1\<lparr>es_placed := es_placed s1 @ [(k, rq)]\<rparr>"
  have m2: "mach ?cid ?s2 = Some m1" using s1(3) by (simp add: mach_def)
  have "XS_REJECTED \<notin> set (valid_transitions (m_state m1))" using s1(4) by simp
  from with_esm_drives [OF m2 drives_nothing [OF this]] obtain b s3 m where
    s3: "with_esm ?cid (try_transition_to (persistence_callback env) (xe_now env) XS_REJECTED) ?s2 = (Inr b, s3)"
      "mach ?cid s3 = Some m" "m_state m = m_state m1" "x_rest s3 = x_rest ?s2"
      "\<forall>i. has_row i (es_durable ?s2) \<longrightarrow> has_row i (es_durable s3)" by blast
  have "x_rest ?s2 = x_rest (s\<lparr>es_placed := es_placed s @ [(k, rq)]\<rparr>)" using s1(1) by (simp add: x_rest_def)
  moreover have "execute_with_retries env k rq ctx s = (Inr r, s3)"
    using e a [of s1] x_rest_sel [OF s1(1)] s3(1) st by (simp add: x_try_def x_bind_def record_result_def Let_def x_ret_def)
  ultimately show ?thesis using s1 s3 by auto
qed

section \<open>Properties\<close>

text \<open>A concrete environment, service and request for the witnesses below.\<close>

definition demo_filled :: x_result where
  "demo_filled = (order_result 5 ''B-1001'' ST_FILLED None)
     \<lparr>xo_filled_quantity := 25, xo_average_price := 101, xo_broker_order_id := Some ''B-1001''\<rparr>"

definition demo_broker :: x_broker where
  "demo_broker = \<lparr>xb_class = ''KiteAdapter'', xb_place = Some (\<lambda>_. Inr (PaResult demo_filled)), xb_filled_quantity = None,
     xb_fill_price = None, xb_details = None, xb_status = None, xb_modify = (\<lambda>_ _ _ _ _. Inr MaOther),
     xb_cancel = (\<lambda>_. Inr False), xb_wait_for_fill = None, xb_verify_terminal = None\<rparr>"

definition demo_env :: x_env where
  "demo_env = \<lparr>xe_now = 5, xe_end = 6, xe_digest = (\<lambda>x. x), xe_float_str = (\<lambda>_. ''100.0''), xe_repr = (\<lambda>_. ''100.0''),
     xe_isoformat = (\<lambda>_. ''t''), xe_uuid = ''u'', xe_json = (\<lambda>x. x), xe_up_idem = True, xe_up_durable = True,
     xe_wal_append = None, xe_wal_commit = None, xe_wal_fail = None, xe_save_trade = None, xe_safety = new_safety,
     xe_broker = demo_broker, xe_router = demo_router_env 1 (Inr ''A-1''), xe_routed = (\<lambda>_. demo_broker), xe_paper = (\<lambda>_. Inr demo_filled)\<rparr>"

text \<open>The service is in shadow mode and frozen by the reconciliation.\<close>

definition demo_service :: x_service where
  "demo_service = \<lparr>es_config = \<lparr>cf_duplicate_prevention = True, cf_cache_size = 1000, cf_audit_trail = True, cf_fill_timeout = 10\<rparr>,
     es_mode = Some (new_mode_manager OM_SHADOW False 100), es_wal = None, es_idem = new_idem True 0 1000 24 False [],
     es_engine = new_engine True 0 1000 24 False [], es_table = [], es_durable = [], es_machines = new_manager True,
     es_counter = 0, es_executions = [], es_recon = new_recon [] True, es_frozen = True, es_trades = None,
     es_broker_type = BT_KITE, es_router = None, es_placed = []\<rparr>"

definition demo_request :: x_request where
  "demo_request = \<lparr>xr_symbol = ''NIFTY'', xr_direction = ''BUY'', xr_strike_price = 100, xr_lot_size = 25, xr_order_type = OT_MARKET,
     xr_price = None, xr_stop_loss = None, xr_target = None, xr_trail_activate = False, xr_trail_percent = None,
     xr_strategy_id = ''s'', xr_timestamp = 5, xr_idempotency_key = Some ''k1''\<rparr>"

definition demo_context :: x_context where
  "demo_context = default_context demo_env"

lemma demo_simps [simp]:
  "im_cache (es_idem demo_service) = []" "im_in_flight (es_idem demo_service) = []" "es_placed demo_service = []"
  "im_cache_size (es_idem demo_service) = 1000" "im_expiry_hours (es_idem demo_service) = 24"
  "mach cid demo_service = None" "cf_duplicate_prevention (es_config demo_service)" "es_wal demo_service = None" "es_router demo_service = None"
  "xr_idempotency_key demo_request = Some ''k1''"
  by (simp_all add: demo_service_def new_idem_def mach_def new_manager_def demo_request_def)

lemma demo_filled_valid: "fills_order demo_service demo_env demo_request demo_context demo_filled"
proof -
  have "str_strip ''B-1001'' \<noteq> []" by code_simp
  then show ?thesis
    by (simp add: fills_order_def is_paper_def demo_env_def demo_broker_def demo_filled_def order_result_def demo_context_def
        default_context_def)
qed

lemma demo_env_simps [simp]:
  "xe_wal_append demo_env = None" "xe_wal_commit demo_env = None" "xe_wal_fail demo_env = None"
  "xe_save_trade demo_env = None" "xe_up_durable demo_env" "xe_now demo_env = 5"
  by (simp_all add: demo_env_def)

lemma demo_gates: "xe_safety env = new_safety \<Longrightarrow> es_mode s = es_mode demo_service \<Longrightarrow> gates_open env s"
  by (simp add: gates_open_def demo_service_def new_mode_manager_def allows_execution_def is_hard_halted_def new_safety_def)

lemma demo_safety [simp]: "xe_safety demo_env = new_safety"
  by (simp add: demo_env_def)

text \<open>
  C2: In a service that starts with empty caches and has duplicate prevention on, no sequence of
  \<open>execute_order\<close> calls within one hour, with whatever answers and exceptions the broker gives, calls
  the broker's \<open>place_order\<close> twice for the same idempotency key (the journal's writes succeeding, and
  the cache being large enough for the calls).
\<close>

theorem one_order_per_key:
  assumes "fresh_service s" "cf_duplicate_prevention (es_config s)" "1 \<le> im_expiry_hours (es_idem s)"
    and "int (length cs) \<le> im_cache_size (es_idem s)" "list_all (call_ok t0) cs"
  shows "distinct (map fst (es_placed (fold order_step cs s)))"
  using orders_once [OF assms(5), of 0 "length cs" s] fresh_once [OF assms(1-4), of t0] by (simp add: once_inv_def)

theorem one_order_per_key_witness:
  "distinct (map fst (es_placed (fold order_step
     [(demo_env, demo_request, Some demo_context), (demo_env\<lparr>xe_now := 3000\<rparr>, demo_request, None)] demo_service)))"
  by (rule one_order_per_key [of _ _ 5]) (simp_all add: fresh_service_def)

lemma filled_books:
  assumes g: "gates_open env s" and k: "xr_idempotency_key rq = Some k" "k \<noteq> []"
    and d: "\<not> fst (idem_is_duplicate (xe_now env) k (es_idem s))" "mach (generate_client_order_id k) s = None"
    and f: "fills_order s env rq ctx r"
    and w: "xe_wal_append env = None" "xe_wal_commit env = None" "xe_wal_fail env = None" "xe_save_trade env = None" "xe_up_durable env"
    and c: "cf_duplicate_prevention (es_config s)" "0 < im_cache_size (es_idem s)"
      "int (length (im_cache (es_idem s))) \<le> im_cache_size (es_idem s)"
  shows "\<exists>s' m row. execute_order env rq (Some ctx) s = (Inr r, s') \<and> es_placed s' = es_placed s @ [(k, rq)] \<and>
    map_of (mg_machines (es_machines s')) (generate_client_order_id k) = Some m \<and> m_state m = XS_FILLED \<and>
    tbl_get er_intent_id (order_intent_id env rq) (es_durable s') = Some row \<and> er_state row = durable_value DS_FILLED \<and>
    (xo_broker_order_id r \<noteq> None \<longrightarrow> er_broker_order_id row = xo_broker_order_id r) \<and>
    (0 < xo_filled_quantity r \<longrightarrow> er_filled_quantity row = xo_filled_quantity r) \<and>
    (0 < xo_average_price r \<longrightarrow> er_average_price row = xo_average_price r) \<and>
    map_of (im_cache (es_idem s')) k = Some (xe_now env, r) \<and> map_of (im_in_flight (es_idem s')) k = None"
proof -
  let ?i = "order_intent_id env rq"
  obtain eid s1 where a: "admit_order env k ?i rq s = (Inr (Inr eid), s1)" and s1: "admitted env k ?i s s1"
    using admit_free [OF w(1) d(1) c(1)] by blast
  have h: "\<not> is_hard_halted (xe_safety env)" and mode: "case es_mode s of None \<Rightarrow> True | Some m \<Rightarrow> fst (allows_execution m)"
    using g by (simp_all add: gates_open_def)
  have f1: "fills_order s1 env rq ctx r" using f s1 by (simp add: fills_order_def admitted_def)
  have "mach (generate_client_order_id k) s1 = None" using s1 d(2) by (simp add: admitted_def mach_def)
  then obtain s2 m where e: "execute_with_retries env k rq ctx s1 = (Inr r, s2)"
    and s2: "mach (generate_client_order_id k) s2 = Some m" "m_state m = XS_FILLED"
      "x_rest s2 = x_rest (s1\<lparr>es_placed := es_placed s1 @ [(k, rq)]\<rparr>)"
      "\<forall>i. has_row i (es_durable s1) \<longrightarrow> has_row i (es_durable s2)"
    using retries_filled [OF h k(2) _ f1] by blast
  note rest = x_rest_sel [OF s2(3)]
  have row: "has_row ?i (es_durable s2)" using s1 s2(4) w(5) by (simp add: admitted_def)
  have cl: "length (im_cache (idem_cleanup (xe_now env) (es_idem s))) \<le> length (im_cache (es_idem s))"
    by (simp add: idem_cleanup_def Let_def)
  have sz: "0 < im_cache_size (es_idem s2)" "int (length (im_cache (es_idem s2))) \<le> im_cache_size (es_idem s2)"
    using rest s1 c cl by (auto simp: admitted_def)
  have st: "xo_status r = ST_FILLED" using f by (simp add: fills_order_def)
  from book_success_ok [OF w(2,4,5) row sz, of k eid rq ctx r] obtain s3 row where
    b: "book_success env k ?i eid rq ctx r s2 = (Inr (), s3)" and s3: "es_machines s3 = es_machines s2"
      "es_placed s3 = es_placed s2" "map_of (im_in_flight (es_idem s3)) k = None"
      "map_of (im_cache (es_idem s3)) k = Some (xe_now env, r)" "tbl_get er_intent_id ?i (es_durable s3) = Some row"
      "er_state row = durable_value DS_FILLED" "xo_broker_order_id r \<noteq> None \<longrightarrow> er_broker_order_id row = xo_broker_order_id r"
      "0 < xo_filled_quantity r \<longrightarrow> er_filled_quantity row = xo_filled_quantity r"
      "0 < xo_average_price r \<longrightarrow> er_average_price row = xo_average_price r"
    using st by auto
  have "run_order env k ?i eid rq ctx s1 = (Inr r, s3)"
    using e b st by (simp add: run_order_no_error [OF w(2,3)] x_bind_def x_ret_def)
  then have "execute_order env rq (Some ctx) s = (Inr r, s3)"
    using a by (simp add: execute_order_open [OF mode k] x_bind_def)
  with s3 s2 rest s1 show ?thesis by (auto simp: mach_def admitted_def)
qed

text \<open>
  C3: An order the broker fills at once ends with consistent books: the call returns the broker's
  result, the order was placed once, the state machine of its key is FILLED, the durable row of its
  intent is FILLED with the broker's id, quantity and price, and the key is confirmed with that
  result and no longer in flight. Neither the freeze flag of the reconciliation nor a mode that asks
  for manual approval is among the conditions.
\<close>

theorem filled_order_books:
  assumes g: "gates_open env s" and k: "xr_idempotency_key rq = Some k" "k \<noteq> []"
    and d: "\<not> fst (idem_is_duplicate (xe_now env) k (es_idem s))" "mach (generate_client_order_id k) s = None"
    and f: "fills_order s env rq ctx r"
    and w: "xe_wal_append env = None" "xe_wal_commit env = None" "xe_wal_fail env = None" "xe_save_trade env = None" "xe_up_durable env"
    and c: "cf_duplicate_prevention (es_config s)" "0 < im_cache_size (es_idem s)"
      "int (length (im_cache (es_idem s))) \<le> im_cache_size (es_idem s)"
  shows "\<exists>s' m row. execute_order env rq (Some ctx) s = (Inr r, s') \<and> es_placed s' = es_placed s @ [(k, rq)] \<and>
    map_of (mg_machines (es_machines s')) (generate_client_order_id k) = Some m \<and> m_state m = XS_FILLED \<and>
    tbl_get er_intent_id (order_intent_id env rq) (es_durable s') = Some row \<and> er_state row = durable_value DS_FILLED \<and>
    (xo_broker_order_id r \<noteq> None \<longrightarrow> er_broker_order_id row = xo_broker_order_id r) \<and>
    (0 < xo_filled_quantity r \<longrightarrow> er_filled_quantity row = xo_filled_quantity r) \<and>
    (0 < xo_average_price r \<longrightarrow> er_average_price row = xo_average_price r) \<and>
    map_of (im_cache (es_idem s')) k = Some (xe_now env, r) \<and> map_of (im_in_flight (es_idem s')) k = None"
  using filled_books [OF assms] .

theorem filled_order_books_witness:
  "\<exists>s' m row. execute_order demo_env demo_request (Some demo_context) demo_service = (Inr demo_filled, s') \<and>
    es_placed s' = [(''k1'', demo_request)] \<and>
    map_of (mg_machines (es_machines s')) (generate_client_order_id ''k1'') = Some m \<and> m_state m = XS_FILLED \<and>
    tbl_get er_intent_id (order_intent_id demo_env demo_request) (es_durable s') = Some row \<and> er_state row = durable_value DS_FILLED \<and>
    es_frozen demo_service"
proof -
  have "es_frozen demo_service" by (simp add: demo_service_def)
  then show ?thesis
    using filled_order_books [OF demo_gates [OF demo_safety refl], of demo_request "''k1''" demo_context demo_filled] demo_filled_valid
    by (auto simp: unknown_key_free)
qed

text \<open>An attempt that calls the broker and ends in a rejection leaves the key marked and the books rejected.\<close>

lemma rejected_books:
  assumes g: "gates_open env s" and k: "xr_idempotency_key rq = Some k" "k \<noteq> []"
    and d: "\<not> fst (idem_is_duplicate (xe_now env) k (es_idem s))" "mach (generate_client_order_id k) s = None"
    and att: "\<And>s'. es_router s' = es_router s \<Longrightarrow> es_broker_type s' = es_broker_type s \<Longrightarrow>
      attempt_order_execution env k rq ctx s' = (Inr r, s'\<lparr>es_placed := es_placed s' @ [(k, rq)]\<rparr>)"
    and st: "xo_status r = ST_REJECTED"
    and w: "xe_wal_append env = None" "xe_wal_commit env = None" "xe_wal_fail env = None" "xe_save_trade env = None" "xe_up_durable env"
    and c: "cf_duplicate_prevention (es_config s)"
  shows "\<exists>s' m row. execute_order env rq (Some ctx) s = (Inr r, s') \<and> es_placed s' = es_placed s @ [(k, rq)] \<and>
    map_of (mg_machines (es_machines s')) (generate_client_order_id k) = Some m \<and> m_state m = XS_VALIDATED \<and>
    tbl_get er_intent_id (order_intent_id env rq) (es_durable s') = Some row \<and> er_state row = durable_value DS_REJECTED \<and>
    map_of (im_in_flight (es_idem s')) k = Some (xe_now env)"
proof -
  let ?i = "order_intent_id env rq"
  obtain eid s1 where a: "admit_order env k ?i rq s = (Inr (Inr eid), s1)" and s1: "admitted env k ?i s s1"
    using admit_free [OF w(1) d(1) c] by blast
  have h: "\<not> is_hard_halted (xe_safety env)" and mode: "case es_mode s of None \<Rightarrow> True | Some m \<Rightarrow> fst (allows_execution m)"
    using g by (simp_all add: gates_open_def)
  have r1: "es_router s1 = es_router s" "es_broker_type s1 = es_broker_type s" using s1 by (simp_all add: admitted_def)
  have "mach (generate_client_order_id k) s1 = None" using s1 d(2) by (simp add: admitted_def mach_def)
  then obtain s2 m where e: "execute_with_retries env k rq ctx s1 = (Inr r, s2)"
    and s2: "mach (generate_client_order_id k) s2 = Some m" "m_state m = XS_VALIDATED"
      "x_rest s2 = x_rest (s1\<lparr>es_placed := es_placed s1 @ [(k, rq)]\<rparr>)"
      "\<forall>i. has_row i (es_durable s1) \<longrightarrow> has_row i (es_durable s2)"
    using retries_rejected [OF h k(2) _ _ st, of s1 rq ctx] att r1 by auto
  note rest = x_rest_sel [OF s2(3)]
  have row: "has_row ?i (es_durable s2)" using s1 s2(4) w(5) by (simp add: admitted_def)
  obtain s3 row where bf: "book_failure env ?i eid rq ctx r s2 = (Inr (), s3)" and s3: "es_machines s3 = es_machines s2"
    "es_placed s3 = es_placed s2" "es_idem s3 = es_idem s2" "tbl_get er_intent_id ?i (es_durable s3) = Some row"
    "er_state row = durable_value DS_REJECTED"
    using book_failure_ok [OF w(3,4,5) row, of eid rq ctx r] st by auto
  have "run_order env k ?i eid rq ctx s1 = (Inr r, s3)"
    using e bf st by (simp add: run_order_no_error [OF w(2,3)] x_bind_def x_ret_def)
  then have "execute_order env rq (Some ctx) s = (Inr r, s3)"
    using a by (simp add: execute_order_open [OF mode k] x_bind_def)
  with s3 s2 rest s1 show ?thesis by (auto simp: mach_def admitted_def)
qed

text \<open>
  When the journal's queue is full and its synchronous write of the commit fails, a filled order
  is reported as rejected, its in-flight marker is removed and its result is not cached; the next
  call with the same key is sent to the broker again, although the state machine of the key is FILLED.
\<close>

lemma commit_failure_places_again:
  assumes g: "gates_open env s" "gates_open env2 s" and k: "xr_idempotency_key rq = Some k" "k \<noteq> []"
    and d: "\<not> fst (idem_is_duplicate (xe_now env) k (es_idem s))" "mach (generate_client_order_id k) s = None"
      "map_of (im_cache (es_idem s)) k = None" "dict_ok (im_cache (es_idem s))"
    and f: "fills_order s env rq ctx r"
    and w: "xe_wal_append env = None" "xe_wal_commit env = Some e" "caught service_catches e" "xe_wal_fail env = None"
      "wal_full (es_wal s)" "xe_save_trade env = None" "xe_wal_append env2 = None"
    and b2: "\<not> is_paper env2 ctx2" "xb_place (xe_broker env2) = Some f2"
    and c: "cf_duplicate_prevention (es_config s)"
  shows "\<exists>r' s' m. execute_order env rq (Some ctx) s = (Inr r', s') \<and> xo_status r' = ST_REJECTED \<and>
    map_of (mg_machines (es_machines s')) (generate_client_order_id k) = Some m \<and> m_state m = XS_FILLED \<and>
    es_placed (snd (execute_order env2 rq (Some ctx2) s')) = es_placed s @ [(k, rq), (k, rq)]"
proof -
  let ?cid = "generate_client_order_id k"
  obtain r' s' m where first: "execute_order env rq (Some ctx) s = (Inr r', s')" "xo_status r' = ST_REJECTED"
    and m: "mach ?cid s' = Some m" "m_state m = XS_FILLED" and p: "es_placed s' = es_placed s @ [(k, rq)]"
    and e: "es_config s' = es_config s" "es_mode s' = es_mode s" "es_router s' = None"
    and n: "map_of (im_cache (es_idem s')) k = None" "map_of (im_in_flight (es_idem s')) k = None"
    using commit_failure_forgets [OF g(1) k d f w(1-6) c] f by (auto simp: fills_order_def)
  have cf: "cf_duplicate_prevention (es_config s')" using e c by simp
  obtain eid s2 where a: "admit_order env2 k (order_intent_id env2 rq) rq s' = (Inr (Inr eid), s2)"
    and s2: "admitted env2 k (order_intent_id env2 rq) s' s2"
    using admit_free [OF w(7) unknown_key_free [OF n] cf] by blast
  have "mach ?cid s2 = Some m" using s2 m by (simp add: admitted_def mach_def)
  then have "es_placed (snd (execute_with_retries env2 k rq ctx2 s2)) = es_placed s2 @ [(k, rq)]"
    using retries_place [OF _ k(2) b2, of s2 rq] m(2) g(2) e(3) s2 by (simp add: gates_open_def admitted_def)
  then have "es_placed (snd (execute_order env2 rq (Some ctx2) s')) = es_placed s @ [(k, rq), (k, rq)]"
    using a s2 p e g(2) execute_order_open [of s' rq k env2 ctx2] k
    by (simp add: x_bind_def run_order_placed admitted_def gates_open_def)
  with first m show ?thesis by (auto simp: mach_def)
qed

text \<open>
  An exception in the fill query after the broker has accepted the order is reported as a
  rejection: the order is at the broker, but the call returns REJECTED, the durable row is REJECTED,
  the state machine stays VALIDATED, and the key stays marked in flight.
\<close>

lemma placed_order_reported_rejected:
  assumes g: "gates_open env s" and k: "xr_idempotency_key rq = Some k" "k \<noteq> []"
    and d: "\<not> fst (idem_is_duplicate (xe_now env) k (es_idem s))" "mach (generate_client_order_id k) s = None"
    and b: "\<not> is_paper env ctx" "xb_place (xe_broker env) = Some f" "f rq = Inr (PaId oid)"
      "xb_filled_quantity (xe_broker env) = Some q" "q oid = Inl e" "caught [ValueError, OSError, AttributeError, ConnectionError] e"
    and w: "xe_wal_append env = None" "xe_wal_commit env = None" "xe_wal_fail env = None" "xe_save_trade env = None" "xe_up_durable env"
    and c: "cf_duplicate_prevention (es_config s)" "es_router s = None"
  shows "\<exists>r s' m row. execute_order env rq (Some ctx) s = (Inr r, s') \<and> xo_status r = ST_REJECTED \<and>
    es_placed s' = es_placed s @ [(k, rq)] \<and>
    map_of (mg_machines (es_machines s')) (generate_client_order_id k) = Some m \<and> m_state m = XS_VALIDATED \<and>
    tbl_get er_intent_id (order_intent_id env rq) (es_durable s') = Some row \<and> er_state row = durable_value DS_REJECTED \<and>
    map_of (im_in_flight (es_idem s')) k = Some (xe_now env)"
proof -
  let ?r = "order_result (xe_now env) ''execution_error'' ST_REJECTED (Some (exn_msg e))"
  have att: "attempt_order_execution env k rq ctx s = (Inr ?r, s\<lparr>es_placed := es_placed s @ [(k, rq)]\<rparr>)" if "es_router s = None" for s
    using b that by (simp add: attempt_order_execution_def x_try_def place_order_def place_with_broker_def result_of_id_def read_or_zero_def x_ret_def)
  have st: "xo_status ?r = ST_REJECTED" by (simp add: order_result_def)
  from rejected_books [OF g k d _ st w c(1), of ctx] att c(2) st show ?thesis by (auto simp: mach_def)
qed

text \<open>An exception of the attempt that no clause names leaves the call as it is, with the key marked.\<close>

lemma raised_books:
  assumes g: "gates_open env s" and k: "xr_idempotency_key rq = Some k" "k \<noteq> []"
    and d: "\<not> fst (idem_is_duplicate (xe_now env) k (es_idem s))" "mach (generate_client_order_id k) s = None"
    and att: "\<And>s'. es_router s' = es_router s \<Longrightarrow>
      attempt_order_execution env k rq ctx s' = (Inl e, s'\<lparr>es_placed := es_placed s' @ [(k, rq)]\<rparr>)"
    and e: "\<not> caught service_catches e"
    and w: "xe_wal_append env = None" and c: "cf_duplicate_prevention (es_config s)"
  shows "\<exists>s' m. execute_order env rq (Some ctx) s = (Inl e, s') \<and> es_placed s' = es_placed s @ [(k, rq)] \<and>
    map_of (mg_machines (es_machines s')) (generate_client_order_id k) = Some m \<and> m_state m = XS_VALIDATED \<and>
    map_of (im_in_flight (es_idem s')) k = Some (xe_now env) \<and> map_of (im_cache (es_idem s')) k = None \<and>
    es_config s' = es_config s \<and> es_mode s' = es_mode s"
proof -
  let ?i = "order_intent_id env rq" and ?cid = "generate_client_order_id k"
  obtain eid s1 where a: "admit_order env k ?i rq s = (Inr (Inr eid), s1)" and s1: "admitted env k ?i s s1"
    using admit_free [OF w d(1) c] by blast
  have h: "\<not> is_hard_halted (xe_safety env)" and mode: "case es_mode s of None \<Rightarrow> True | Some m \<Rightarrow> fst (allows_execution m)"
    using g by (simp_all add: gates_open_def)
  have m1: "mach ?cid s1 = None" using s1 d(2) by (simp add: admitted_def mach_def)
  obtain s2 m where x: "execute_with_retries env k rq ctx s1 =
      x_try (x_bind (attempt_order_execution env k rq ctx) (record_result env ?cid rq)) service_catches
        (\<lambda>e. x_bind (with_esm ?cid (try_transition_to (persistence_callback env) (xe_now env) XS_FAILED))
           (\<lambda>_. x_ret (order_result (xe_now env) ''execution_failed'' ST_REJECTED (Some (''Execution failed: '' @ exn_msg e))))) s2"
    and s2: "x_rest s2 = x_rest s1" "mach ?cid s2 = Some m" "m_state m = XS_VALIDATED"
    using retries_attempt [OF h k(2) refl, of s1 rq ctx] m1 by auto
  note rest = x_rest_sel [OF s2(1)]
  have "attempt_order_execution env k rq ctx s2 = (Inl e, s2\<lparr>es_placed := es_placed s2 @ [(k, rq)]\<rparr>)"
    using att [of s2] rest s1 by (simp add: admitted_def)
  then have "execute_with_retries env k rq ctx s1 = (Inl e, s2\<lparr>es_placed := es_placed s2 @ [(k, rq)]\<rparr>)"
    using x e by (simp add: x_try_def x_bind_def)
  then have "execute_order env rq (Some ctx) s = (Inl e, s2\<lparr>es_placed := es_placed s2 @ [(k, rq)]\<rparr>)"
    using a e by (simp add: execute_order_open [OF mode k] x_bind_def run_order_def x_try_def)
  moreover have "map_of (im_cache (idem_cleanup (xe_now env) (es_idem s))) k = None"
    using d(1) by (cases "map_of (im_cache (idem_cleanup (xe_now env) (es_idem s))) k") (auto simp: idem_is_duplicate_def Let_def)
  ultimately show ?thesis using s2 rest s1 by (simp add: mach_def admitted_def)
qed

definition demo_late_broker :: x_broker where
  "demo_late_broker = demo_broker\<lparr>xb_place := Some (\<lambda>_. Inr (PaId ''B-7'')),
     xb_filled_quantity := Some (\<lambda>_. Inl (Exn ConnectionError ''reset''))\<rparr>"

text \<open>An order whose attempt does not call the broker leaves the trace alone.\<close>

lemma admit_placed: "x_keeps es_placed (admit_order env k i rq)"
proof -
  have "x_keeps es_placed (\<lambda>s. if cf_duplicate_prevention (es_config s) then with_idem (idem_is_duplicate (xe_now env) k) s else x_ret False s)"
    by (intro keeps_intros) simp
  then show ?thesis
    unfolding x_keeps_def admit_order_def Let_def
    by (intro allI, intro keeps_bind [unfolded x_keeps_def, rule_format] ballI; intro keeps_intros [unfolded x_keeps_def, rule_format]; simp)
qed

lemma execute_order_unplaced:
  assumes "\<And>k rq c s. (case ctx of Some c' \<Rightarrow> c = c' | None \<Rightarrow> c = default_context env) \<Longrightarrow>
      es_placed (snd (execute_with_retries env k rq c s)) = es_placed s"
  shows "es_placed (snd (execute_order env rq ctx s)) = es_placed s"
proof -
  define c where "c = (case ctx of Some c \<Rightarrow> c | None \<Rightarrow> default_context env)"
  have run: "es_placed (snd (run_order env k i eid rq' c s')) = es_placed s'" for k i eid rq' s'
    using assms [of c] by (simp add: run_order_placed c_def split: option.splits)
  have "x_keeps es_placed (x_bind (admit_order env k i rq') (\<lambda>a. case a of Inl r \<Rightarrow> x_ret r | Inr eid \<Rightarrow> run_order env k i eid rq' c))" for k i rq'
    by (intro keeps_bind admit_placed) (auto simp: x_keeps_def x_ret_def run split: sum.split)
  then show ?thesis
    by (auto simp: execute_order_def Let_def x_keeps_def c_def split: prod.split bool.split)
qed

lemma closed_gates:
  assumes "\<not> gates_open env s"
  shows "es_placed (snd (execute_order env rq ctx s)) = es_placed s"
proof (cases "fst (case es_mode s of None \<Rightarrow> (True, []) | Some m \<Rightarrow> allows_execution m)")
  case False
  then show ?thesis by (auto simp: execute_order_def split: prod.split bool.split)
next
  case True
  with assms have "is_hard_halted (xe_safety env)" by (auto simp: gates_open_def split: option.splits)
  then show ?thesis by (intro execute_order_unplaced) (simp add: execute_with_retries_def)
qed

text \<open>An order in paper mode does not reach the broker.\<close>

lemma paper_retries_unplaced:
  assumes "is_paper env ctx"
  shows "es_placed (snd (execute_with_retries env k rq ctx s)) = es_placed s"
proof -
  have a: "x_keeps es_placed (attempt_order_execution env k rq ctx)"
    using assms by (auto simp: x_keeps_def attempt_order_execution_def x_try_def x_ret_def split: sum.splits)
  have r: "x_keeps es_placed (record_result env cid rq r)" for cid r by (rule keeps_placed [OF record_result_keeps])
  have t: "x_keeps es_placed (with_esm cid f)" for cid f by (rule with_esm_keeps) simp
  have body: "x_keeps es_placed (x_bind (with_esm cid f) (\<lambda>_. x_try (x_bind (attempt_order_execution env k rq ctx) (record_result env cid rq))
      service_catches (\<lambda>e. x_bind (with_esm cid g) (\<lambda>_. x_ret (h e)))))" for cid f g h
    by (intro keeps_bind keeps_try keeps_ret a r t)
  show ?thesis
    using body [unfolded x_keeps_def, rule_format]
    by (auto simp: execute_with_retries_def Let_def split: prod.split)
qed

lemma paper_unplaced: "xc_execution_mode c = EM_PAPER \<Longrightarrow> es_placed (snd (execute_order env rq (Some c) s)) = es_placed s"
  by (rule execute_order_unplaced) (simp add: paper_retries_unplaced is_paper_def)

text \<open>
  C5: The two gates hold: when the operating mode does not allow execution, or the kill switch is
  set, \<open>execute_order\<close> makes no broker call, whatever the request and the broker are.
\<close>

theorem closed_gates_place_nothing:
  assumes "\<not> gates_open env s"
  shows "es_placed (snd (execute_order env rq ctx s)) = es_placed s"
  using assms by (rule closed_gates)

theorem closed_gates_place_nothing_witness:
  "es_placed (snd (execute_order (demo_env\<lparr>xe_safety := trip_hard_halt ''loss'' ''risk'' new_safety\<rparr>) demo_request None demo_service)) =
     es_placed demo_service"
  by (rule closed_gates_place_nothing) (simp add: gates_open_def trip_hard_halt_def new_safety_def is_hard_halted_def)

text \<open>
  C39: The polling loop for a fill ends: with a timeout of \<open>T\<close> seconds it has an outcome after at most
  \<open>2 T\<close> iterations, since every iteration waits at least half a second.
\<close>

theorem poll_terminates:
  assumes "\<forall>ev \<in> set evs. 0 \<le> pe_busy ev" "2 * nat timeout \<le> length evs"
  shows "poll_for_fill_status hf hs timeout (1 / 2) 0 evs \<noteq> None"
proof -
  have "poll_for_fill_status hf hs timeout iv t es \<noteq> None"
    if "1 / 2 \<le> iv" "\<forall>ev \<in> set es. 0 \<le> pe_busy ev" "2 * (of_int timeout - t) \<le> real (length es)" for iv t es
    using that
  proof (induction es arbitrary: iv t)
    case Nil
    then show ?case by (subst poll_for_fill_status.simps) auto
  next
    case (Cons ev es)
    have iv: "1 / 2 \<le> min (iv * (3 / 2)) 5" "1 / 2 \<le> min iv 5" using Cons.prems(1) by simp_all
    have t: "2 * (of_int timeout - (t + pe_busy ev + d)) \<le> real (length es)" if "1 / 2 \<le> d" for d
      using Cons.prems(2,3) that by auto
    have busy: "\<forall>ev \<in> set es. 0 \<le> pe_busy ev" using Cons.prems(2) by simp
    have "poll_for_fill_status hf hs timeout (min (iv * (3 / 2)) 5) (t + pe_busy ev + min iv 5) es \<noteq> None"
      "poll_for_fill_status hf hs timeout iv (t + pe_busy ev + iv) es \<noteq> None"
      using Cons.IH [OF iv(1) busy t [OF iv(2)]] Cons.IH [OF Cons.prems(1) busy t [OF Cons.prems(1)]] by blast+
    then show ?case by (subst poll_for_fill_status.simps) (auto split: sum.split bool.split)
  qed
  moreover have "2 * timeout \<le> int (length evs)" using assms(2) by linarith
  then have "real_of_int (2 * timeout) \<le> real_of_int (int (length evs))" by (simp only: of_int_le_iff)
  then have "2 * (of_int timeout - 0) \<le> real (length evs)" by simp
  ultimately show ?thesis using assms(1) by simp
qed

theorem poll_terminates_witness:
  "poll_for_fill_status True False 1 (1 / 2) 0
     (replicate 2 \<lparr>pe_shutdown = False, pe_busy = 0, pe_filled = Inr None, pe_status = Inr ST_SUBMITTED, pe_wait_shutdown = False\<rparr>) \<noteq> None"
  by (rule poll_terminates) simp_all

end
