(* ===== verification/Order_Replies.thy ===== *)
theory Order_Replies
  imports Execution_Service
begin

text \<open>
  What \<open>execute_order\<close> of the execution service answers without calling the broker: behind closed
  gates, and for an idempotency key that was used before. The clients of the execution service build
  on these facts. Last, a key that an escaped exception left in flight: it refuses every order for an hour.
\<close>

definition used_context :: "x_env \<Rightarrow> x_context option \<Rightarrow> x_context" where
  "used_context env ctx0 = (case ctx0 of Some c \<Rightarrow> c | None \<Rightarrow> default_context env)"

lemma execute_order_ctx: "execute_order env rq ctx0 s = execute_order env rq (Some (used_context env ctx0)) s"
  by (simp add: execute_order_def used_context_def split: option.split)

lemma cleanup_idem [simp]: "im_cache (idem_cleanup now (idem_cleanup now im)) = im_cache (idem_cleanup now im)"
  "im_in_flight (idem_cleanup now (idem_cleanup now im)) = im_in_flight (idem_cleanup now im)"
  by (simp_all add: idem_cleanup_def Let_def)

lemma cleanup_table [simp]: "im_cache (idem_cleanup now (im\<lparr>im_table := t\<rparr>)) = im_cache (idem_cleanup now im)"
  "im_in_flight (idem_cleanup now (im\<lparr>im_table := t\<rparr>)) = im_in_flight (idem_cleanup now im)"
  by (simp_all add: idem_cleanup_def Let_def)

lemma cleanup_uncached: "map_of (im_cache im) k = None \<Longrightarrow> map_of (im_cache (idem_cleanup now im)) k = None"
  by (auto simp: idem_cleanup_def Let_def map_of_eq_None_iff)

text \<open>A duplicate is answered with the cached result, or else refused.\<close>

definition duplicate_answer :: "x_env \<Rightarrow> string \<Rightarrow> x_service \<Rightarrow> x_result" where
  "duplicate_answer env k s =
     (case map_of (im_cache (idem_cleanup (xe_now env) (es_idem s))) k of
        Some (t, r) \<Rightarrow> r
      | None \<Rightarrow> order_result (xe_now env) ''duplicate'' ST_REJECTED (Some ''Duplicate order detected''))"

text \<open>What a call that does not reach the broker leaves as it is.\<close>

definition same_front :: "x_env \<Rightarrow> x_service \<Rightarrow> x_service \<Rightarrow> bool" where
  "same_front env s s' \<longleftrightarrow>
     es_placed s' = es_placed s \<and> es_config s' = es_config s \<and> es_mode s' = es_mode s \<and>
     (im_cache (es_idem s') = im_cache (es_idem s) \<or> im_cache (es_idem s') = im_cache (idem_cleanup (xe_now env) (es_idem s)))"

lemma admit_duplicate:
  assumes w: "xe_wal_append env = None" "xe_wal_fail env = None" and d: "fst (idem_is_duplicate (xe_now env) k (es_idem s))"
    and cf: "cf_duplicate_prevention (es_config s)"
  shows "\<exists>s1. admit_order env k intent rq s = (Inr (Inl (duplicate_answer env k s)), s1) \<and> same_front env s s1 \<and>
    im_in_flight (es_idem s1) = im_in_flight (idem_cleanup (xe_now env) (es_idem s))"
proof -
  let ?s0 = "s\<lparr>es_counter := es_counter s + 1\<rparr>" and ?now = "xe_now env"
  obtain w' where a: "with_wal (wal_append (xe_wal_append env) ?now (xe_uuid env) (wal_intent intent rq)) ?s0 =
      (Inr (), ?s0\<lparr>es_wal := w'\<rparr>)"
    using with_wal_append_ok [OF w(1), of ?now "xe_uuid env" "wal_intent intent rq" ?s0] by auto
  define im where "im = (es_idem s)\<lparr>im_table := es_table s\<rparr>"
  have dup: "idem_is_duplicate ?now k im = (True, idem_cleanup ?now im)"
    using d dup_table [of ?now k "es_table s" "es_idem s"] by (simp add: im_def idem_is_duplicate_def Let_def)
  let ?s2 = "?s0\<lparr>es_wal := w', es_idem := idem_cleanup ?now im, es_table := im_table (idem_cleanup ?now im)\<rparr>"
  obtain w2 where b: "with_wal (wal_fail (xe_wal_fail env) ?now intent ''Duplicate order detected'') ?s2 = (Inr (), ?s2\<lparr>es_wal := w2\<rparr>)"
    using with_wal_ok [of _ ?now intent] w(2) by metis
  show ?thesis
    using a dup b cf
    by (auto simp: admit_order_def Let_def x_bind_def x_upd_def x_ret_def with_idem_def im_def [symmetric] idem_get_result_def
        duplicate_answer_def same_front_def split: option.split)
      (auto simp: im_def)
qed

lemma duplicate_reply_in_flight:
  assumes m: "case es_mode s of None \<Rightarrow> True | Some m \<Rightarrow> fst (allows_execution m)"
    and k: "xr_idempotency_key rq = Some k" "k \<noteq> []"
    and w: "xe_wal_append env = None" "xe_wal_fail env = None" and d: "fst (idem_is_duplicate (xe_now env) k (es_idem s))"
    and cf: "cf_duplicate_prevention (es_config s)"
  shows "\<exists>s1. execute_order env rq ctx s = (Inr (duplicate_answer env k s), s1) \<and> same_front env s s1 \<and>
    im_in_flight (es_idem s1) = im_in_flight (idem_cleanup (xe_now env) (es_idem s))"
proof -
  obtain s1 where "admit_order env k (order_intent_id env rq) rq s = (Inr (Inl (duplicate_answer env k s)), s1)" "same_front env s s1"
    "im_in_flight (es_idem s1) = im_in_flight (idem_cleanup (xe_now env) (es_idem s))"
    using admit_duplicate [OF w d cf] by blast
  then show ?thesis by (simp add: execute_order_ctx [of env rq ctx] execute_order_open [OF m k] x_bind_def x_ret_def)
qed

lemma duplicate_reply:
  assumes "case es_mode s of None \<Rightarrow> True | Some m \<Rightarrow> fst (allows_execution m)"
    and "xr_idempotency_key rq = Some k" "k \<noteq> []"
    and "xe_wal_append env = None" "xe_wal_fail env = None" and "fst (idem_is_duplicate (xe_now env) k (es_idem s))"
    and "cf_duplicate_prevention (es_config s)"
  shows "\<exists>s1. execute_order env rq ctx s = (Inr (duplicate_answer env k s), s1) \<and> same_front env s s1"
  using duplicate_reply_in_flight [OF assms] by blast

lemma book_failure_returns:
  assumes "xe_wal_fail env = None" "xe_save_trade env = None"
  shows "\<exists>s'. book_failure env intent eid rq ctx r s = (Inr (), s') \<and> es_placed s' = es_placed s \<and> es_idem s' = es_idem s \<and>
    es_config s' = es_config s \<and> es_mode s' = es_mode s"
proof -
  obtain w where w: "with_wal (wal_fail (xe_wal_fail env) (xe_now env) intent (str_or (xo_reject_reason r) ''Order rejected'')) s =
      (Inr (), s\<lparr>es_wal := w\<rparr>)"
    using with_wal_ok [of _ "xe_now env" intent] assms(1) by metis
  define s1 where "s1 = durable_update env intent (if xo_status r = ST_REJECTED then DS_REJECTED else DS_FAILED) None 0 0
    (xo_reject_reason r) (s\<lparr>es_wal := w\<rparr>)"
  obtain s2 where s2: "audit_if env (audit_of env eid rq ctx r) s1 = (Inr (), s2)" "x_books s2 = x_books s1"
    using audit_if_returns [OF assms(2)] by blast
  have "book_failure env intent eid rq ctx r s = (Inr (), s2)"
    using w s2(1) by (simp add: book_failure_def x_bind_def x_upd_def s1_def)
  with s2(2) show ?thesis by (simp add: x_books_def s1_def durable_update_def)
qed

text \<open>Behind closed gates an order whose key has no cached result is rejected.\<close>

lemma closed_reply:
  assumes g: "\<not> gates_open env s" and k: "xr_idempotency_key rq = Some k" "k \<noteq> []"
    and w: "xe_wal_append env = None" "xe_wal_fail env = None" "xe_save_trade env = None"
    and cf: "cf_duplicate_prevention (es_config s)" and c: "map_of (im_cache (es_idem s)) k = None"
  shows "\<exists>r s1. execute_order env rq ctx s = (Inr r, s1) \<and> xo_status r = ST_REJECTED \<and> same_front env s s1"
proof (cases "case es_mode s of None \<Rightarrow> True | Some m \<Rightarrow> fst (allows_execution m)")
  case False
  then have "fst (case es_mode s of None \<Rightarrow> (True, []) | Some m \<Rightarrow> allows_execution m) = False" by (simp split: option.splits)
  then show ?thesis by (auto simp: execute_order_def order_result_def same_front_def split: prod.split bool.split)
next
  case mode: True
  show ?thesis
  proof (cases "fst (idem_is_duplicate (xe_now env) k (es_idem s))")
    case True
    then show ?thesis
      using duplicate_reply [OF mode k w(1,2) _ cf, of ctx] cleanup_uncached [OF c, of "xe_now env"]
      by (auto simp: duplicate_answer_def order_result_def)
  next
    case False
    let ?i = "order_intent_id env rq" and ?ctx = "used_context env ctx"
    obtain eid s1 where a: "admit_order env k ?i rq s = (Inr (Inr eid), s1)" and s1: "admitted env k ?i s s1"
      using admit_free [OF w(1) False cf] by blast
    have "is_hard_halted (xe_safety env)" using g mode by (simp add: gates_open_def)
    then have e: "execute_with_retries env k rq ?ctx s1 = (Inr (order_result (xe_now env) [] ST_REJECTED (Some ''Hard halt active'')), s1)"
      by (simp add: execute_with_retries_def)
    obtain s2 where b: "book_failure env ?i eid rq ?ctx (order_result (xe_now env) [] ST_REJECTED (Some ''Hard halt active'')) s1 = (Inr (), s2)"
      and s2: "es_placed s2 = es_placed s1" "es_idem s2 = es_idem s1" "es_config s2 = es_config s1" "es_mode s2 = es_mode s1"
      using book_failure_returns [OF w(2,3)] by blast
    have "run_order env k ?i eid rq ?ctx s1 = (Inr (order_result (xe_now env) [] ST_REJECTED (Some ''Hard halt active'')), s2)"
      using e b by (simp add: run_order_def x_try_def x_bind_def x_ret_def order_result_def)
    then have "execute_order env rq ctx s = (Inr (order_result (xe_now env) [] ST_REJECTED (Some ''Hard halt active'')), s2)"
      using a by (simp add: execute_order_ctx [of env rq ctx] execute_order_open [OF mode k] x_bind_def)
    with s1 s2 show ?thesis by (auto simp: order_result_def same_front_def admitted_def)
  qed
qed

lemma same_front_uncached: "same_front env s s' \<Longrightarrow> map_of (im_cache (es_idem s)) k = None \<Longrightarrow> map_of (im_cache (es_idem s')) k = None"
  using cleanup_uncached [of "es_idem s" k "xe_now env"] by (auto simp: same_front_def)

subsection \<open>A key that stays in flight\<close>

text \<open>The key was put in flight at \<open>t0\<close>, and no result of it is cached.\<close>

definition stuck_key :: "string \<Rightarrow> real \<Rightarrow> x_service \<Rightarrow> bool" where
  "stuck_key k t0 s \<longleftrightarrow>
     map_of (im_in_flight (es_idem s)) k = Some t0 \<and> map_of (im_cache (es_idem s)) k = None \<and> cf_duplicate_prevention (es_config s) \<and>
     (case es_mode s of None \<Rightarrow> True | Some m \<Rightarrow> fst (allows_execution m))"

text \<open>A later call with the same key, within the hour, whose journal writes succeed.\<close>

fun repeats_key :: "string \<Rightarrow> real \<Rightarrow> x_call \<Rightarrow> bool" where
  "repeats_key k t0 (env, rq, ctx) \<longleftrightarrow>
     xr_idempotency_key rq = Some k \<and> xe_now env < t0 + 3600 \<and> xe_wal_append env = None \<and> xe_wal_fail env = None"

lemma map_of_filter_kept: "map_of d k = Some v \<Longrightarrow> P (k, v) \<Longrightarrow> map_of (filter P d) k = Some v"
  by (induction d) (auto split: if_splits)

lemma stuck_key_refused:
  assumes s: "stuck_key k t0 s" and r: "repeats_key k t0 (env, rq, ctx)" and k: "k \<noteq> []"
  shows "\<exists>s1. execute_order env rq ctx s = (Inr (order_result (xe_now env) ''duplicate'' ST_REJECTED (Some ''Duplicate order detected'')), s1) \<and>
    stuck_key k t0 s1 \<and> es_placed s1 = es_placed s"
proof -
  have f: "map_of (im_in_flight (idem_cleanup (xe_now env) (es_idem s))) k = Some t0"
    using map_of_filter_kept [of "im_in_flight (es_idem s)" k t0 "\<lambda>(k, t). \<not> t < xe_now env - 3600"] s r
    by (simp add: idem_cleanup_def Let_def stuck_key_def)
  have c: "map_of (im_cache (idem_cleanup (xe_now env) (es_idem s))) k = None"
    using s by (intro cleanup_uncached) (simp add: stuck_key_def)
  have d: "fst (idem_is_duplicate (xe_now env) k (es_idem s))" by (simp add: idem_is_duplicate_def Let_def f)
  obtain s1 where 1: "execute_order env rq ctx s = (Inr (duplicate_answer env k s), s1)" "same_front env s s1"
    "im_in_flight (es_idem s1) = im_in_flight (idem_cleanup (xe_now env) (es_idem s))"
    using duplicate_reply_in_flight [OF _ _ k _ _ d, of rq ctx] s r by (auto simp: stuck_key_def)
  have "duplicate_answer env k s = order_result (xe_now env) ''duplicate'' ST_REJECTED (Some ''Duplicate order detected'')"
    by (simp add: duplicate_answer_def c)
  moreover have "stuck_key k t0 s1"
    using s 1(2) f same_front_uncached [OF 1(2), of k] by (simp add: stuck_key_def 1(3) same_front_def)
  ultimately show ?thesis using 1 by (simp add: same_front_def)
qed

lemma stuck_key_stays:
  "stuck_key k t0 s \<Longrightarrow> list_all (repeats_key k t0) cs \<Longrightarrow> k \<noteq> [] \<Longrightarrow>
     stuck_key k t0 (fold order_step cs s) \<and> es_placed (fold order_step cs s) = es_placed s"
proof (induction cs arbitrary: s)
  case (Cons c cs)
  obtain env rq ctx where c: "c = (env, rq, ctx)" by (cases c)
  have "repeats_key k t0 (env, rq, ctx)" using Cons.prems(2) c by simp
  from stuck_key_refused [OF Cons.prems(1) this Cons.prems(3)] obtain s1 where
    "order_step c s = s1" "stuck_key k t0 s1" "es_placed s1 = es_placed s" by (auto simp: c)
  with Cons.IH [of s1] Cons.prems show ?case by simp
qed simp

end
