(* ===== verification/Greeks_Engine.thy ===== *)
theory Greeks_Engine
  imports Py_Numbers
begin

text \<open>
  The options Greeks engine, \<open>core/options_greeks_engine.py\<close>: Black-Scholes price and Greeks of one
  position, their aggregation over a portfolio, the pre-trade limit check and the stress scenarios.

  \<open>math.erf\<close> is an argument \<open>erf\<close>; the lemmas use that it is odd and lies between -1 and 1. A float
  is a real, so the overflow branches of the pricing helpers do not occur; a division by a zero spot
  price raises. Configuration values are numbers and booleans.
\<close>

section \<open>Definitions\<close>

subsection \<open>Data\<close>

datatype option_type = CE | PE

datatype greeks_status = GL_PASS | GL_WARN | GL_BLOCK

definition nse_lot_sizes :: "(string, int) dict" where
  "nse_lot_sizes = [(''NIFTY'', 25), (''BANKNIFTY'', 15), (''FINNIFTY'', 40), (''MIDCPNIFTY'', 75), (''SENSEX'', 10)]"

definition greeks_lot_size :: "string \<Rightarrow> int" where
  "greeks_lot_size symbol = (case map_of nse_lot_sizes symbol of None \<Rightarrow> 25 | Some n \<Rightarrow> n)"

record greeks_result =
  gr_delta :: real
  gr_gamma :: real
  gr_theta :: real
  gr_vega :: real
  gr_rho :: real
  gr_spot :: real
  gr_strike :: real
  gr_tte_days :: real
  gr_iv :: real
  gr_premium :: real
  gr_option_type :: option_type

record greeks_input =
  gi_symbol :: string
  gi_option_type :: option_type
  gi_direction :: string
  gi_spot :: real
  gi_strike :: real
  gi_tte_days :: real
  gi_iv :: real
  gi_quantity_lots :: int
  gi_rate :: real

record symbol_greeks =
  sg_delta :: real
  sg_gamma :: real
  sg_theta :: real
  sg_vega :: real
  sg_rho :: real
  sg_long_gamma :: bool

record portfolio_greeks =
  pg_delta :: real
  pg_gamma :: real
  pg_theta :: real
  pg_vega :: real
  pg_rho :: real
  pg_premium :: real
  pg_count :: nat
  pg_by_symbol :: "(string, symbol_greeks) dict"
  pg_timestamp :: real

record greeks_check =
  gc_status :: greeks_status
  gc_delta_ok :: bool
  gc_gamma_ok :: bool
  gc_theta_ok :: bool
  gc_vega_ok :: bool
  gc_portfolio_delta_ok :: bool
  gc_portfolio_gamma_ok :: bool
  gc_portfolio_theta_ok :: bool
  gc_portfolio_vega_ok :: bool
  gc_reasons :: "string list"
  gc_projected :: "portfolio_greeks option"

record stress_scenario =
  ss_name :: string
  ss_spot_shift_pct :: real
  ss_iv_shift_pts :: real
  ss_tte_factor :: real
  ss_rate_shift_bp :: real

record stress_result =
  st_scenario :: string
  st_pre :: portfolio_greeks
  st_post :: portfolio_greeks
  st_delta_change :: real
  st_gamma_change :: real
  st_theta_change :: real
  st_vega_change :: real
  st_max_loss_pct :: real
  st_verdict :: string

record greeks_config =
  gg_delta_pos :: real
  gg_delta_portfolio :: real
  gg_gamma_pos :: real
  gg_gamma_portfolio :: real
  gg_theta_budget :: real
  gg_vega_pos :: real
  gg_vega_portfolio :: real
  gg_warn_pct :: real
  gg_block_pct :: real
  gg_enabled :: bool
  gg_stress_enabled :: bool
  gg_short_block :: bool

definition default_greeks_config :: greeks_config where
  "default_greeks_config =
     \<lparr>gg_delta_pos = 55 / 100, gg_delta_portfolio = 3 / 2, gg_gamma_pos = 5 / 100, gg_gamma_portfolio = 1 / 10,
      gg_theta_budget = - 500, gg_vega_pos = 500, gg_vega_portfolio = 2000, gg_warn_pct = 8 / 10, gg_block_pct = 1,
      gg_enabled = True, gg_stress_enabled = True, gg_short_block = True\<rparr>"

subsection \<open>Configuration\<close>

datatype cfg_val = CNum real | CBool bool

type_synonym cfg_dict = "(string, cfg_val) dict"

fun cfg_float :: "cfg_val \<Rightarrow> real" where
  "cfg_float (CNum x) = x"
| "cfg_float (CBool b) = (if b then 1 else 0)"

fun cfg_bool :: "cfg_val \<Rightarrow> bool" where
  "cfg_bool (CNum x) = (x \<noteq> 0)"
| "cfg_bool (CBool b) = b"

definition cfg_get :: "cfg_dict \<Rightarrow> string \<Rightarrow> cfg_val \<Rightarrow> cfg_val" where
  "cfg_get c k d = (case map_of c k of None \<Rightarrow> d | Some v \<Rightarrow> v)"

definition greeks_from_dict :: "cfg_dict \<Rightarrow> greeks_config" where
  "greeks_from_dict c =
     \<lparr>gg_delta_pos = cfg_float (cfg_get c ''greeks_delta_limit_per_pos'' (CNum (2 / 10))),
      gg_delta_portfolio = cfg_float (cfg_get c ''greeks_delta_limit_portfolio'' (CNum (5 / 10))),
      gg_gamma_pos = cfg_float (cfg_get c ''greeks_gamma_limit_per_pos'' (CNum (5 / 100))),
      gg_gamma_portfolio = cfg_float (cfg_get c ''greeks_gamma_limit_portfolio'' (CNum (1 / 10))),
      gg_theta_budget = cfg_float (cfg_get c ''greeks_theta_daily_budget'' (CNum (- 500))),
      gg_vega_pos = cfg_float (cfg_get c ''greeks_vega_limit_per_pos'' (CNum 500)),
      gg_vega_portfolio = cfg_float (cfg_get c ''greeks_vega_limit_portfolio'' (CNum 2000)),
      gg_warn_pct = cfg_float (cfg_get c ''greeks_warn_threshold_pct'' (CNum (8 / 10))),
      gg_block_pct = cfg_float (cfg_get c ''greeks_block_threshold_pct'' (CNum 1)),
      gg_enabled = cfg_bool (cfg_get c ''greeks_enabled'' (CBool True)),
      gg_stress_enabled = cfg_bool (cfg_get c ''greeks_stress_test_enabled'' (CBool True)),
      gg_short_block = cfg_bool (cfg_get c ''greeks_short_option_block'' (CBool True))\<rparr>"

definition greeks_to_dict :: "greeks_config \<Rightarrow> cfg_dict" where
  "greeks_to_dict g =
     [(''delta_limit_per_pos'', CNum (gg_delta_pos g)), (''delta_limit_portfolio'', CNum (gg_delta_portfolio g)),
      (''gamma_limit_per_pos'', CNum (gg_gamma_pos g)), (''gamma_limit_portfolio'', CNum (gg_gamma_portfolio g)),
      (''theta_daily_budget'', CNum (gg_theta_budget g)), (''vega_limit_per_pos'', CNum (gg_vega_pos g)),
      (''vega_limit_portfolio'', CNum (gg_vega_portfolio g)), (''warn_threshold_pct'', CNum (gg_warn_pct g)),
      (''block_threshold_pct'', CNum (gg_block_pct g)), (''enabled'', CBool (gg_enabled g)),
      (''stress_test_enabled'', CBool (gg_stress_enabled g)), (''short_option_block'', CBool (gg_short_block g))]"

text \<open>\<open>{**self._config.to_dict(), **cfg}\<close>\<close>

definition greeks_update_config :: "cfg_dict \<Rightarrow> greeks_config \<Rightarrow> greeks_config" where
  "greeks_update_config cfg g = greeks_from_dict (fold (\<lambda>(k, v). dict_set k v) cfg (greeks_to_dict g))"

subsection \<open>Black-Scholes\<close>

definition norm_cdf :: "(real \<Rightarrow> real) \<Rightarrow> real \<Rightarrow> real" where
  "norm_cdf erf x = 1 / 2 * (1 + erf (x / sqrt 2))"

definition norm_pdf :: "real \<Rightarrow> real" where
  "norm_pdf x = exp (- (1 / 2) * x * x) / sqrt (2 * pi)"

definition bs_d1 :: "real \<Rightarrow> real \<Rightarrow> real \<Rightarrow> real \<Rightarrow> real \<Rightarrow> real" where
  "bs_d1 spot strike t sigma r =
     (if t \<le> 0 \<or> sigma \<le> 0 \<or> spot \<le> 0 \<or> strike \<le> 0 then 0
      else (ln (spot / strike) + (r + 1 / 2 * sigma * sigma) * t) / (sigma * sqrt t))"

definition bs_d2 :: "real \<Rightarrow> real \<Rightarrow> real \<Rightarrow> real" where
  "bs_d2 d1 sigma t = d1 - sigma * sqrt t"

definition bs_price :: "(real \<Rightarrow> real) \<Rightarrow> real \<Rightarrow> real \<Rightarrow> real \<Rightarrow> real \<Rightarrow> real \<Rightarrow> option_type \<Rightarrow> real" where
  "bs_price erf spot strike t sigma r ot =
     (if t \<le> 0 then (if ot = CE then max 0 (spot - strike) else max 0 (strike - spot))
      else if sigma \<le> 0 \<or> spot \<le> 0 \<or> strike \<le> 0 then 0
      else let d1 = bs_d1 spot strike t sigma r; d2 = bs_d2 d1 sigma t
           in if ot = CE then spot * norm_cdf erf d1 - strike * exp (- r * t) * norm_cdf erf d2
              else strike * exp (- r * t) * norm_cdf erf (- d2) - spot * norm_cdf erf (- d1))"

definition bs_delta :: "(real \<Rightarrow> real) \<Rightarrow> option_type \<Rightarrow> real \<Rightarrow> real" where
  "bs_delta erf ot d1 = (if ot = CE then norm_cdf erf d1 else norm_cdf erf d1 - 1)"

definition compute_greeks :: "(real \<Rightarrow> real) \<Rightarrow> greeks_input \<Rightarrow> exn + greeks_result" where
  "compute_greeks erf i =
     (let t = max (gi_tte_days i) (1 / 1000) / 365; sigma = max (gi_iv i) (1 / 100); r = gi_rate i;
          spot = gi_spot i; strike = gi_strike i; ot = gi_option_type i;
          d1 = bs_d1 spot strike t sigma r; d2 = bs_d2 d1 sigma t; phi = norm_pdf d1;
          delta = bs_delta erf ot d1;
          mult = (if str_upper (gi_direction i) = ''SHORT'' then - 1 else 1)
      in if spot * sigma * sqrt t = 0 then Inl (Exn ZeroDivisionError ''float division by zero'')
         else
           let gamma = phi / (spot * sigma * sqrt t);
               theta = (if ot = CE
                        then (- spot * phi * sigma / (2 * sqrt t) - r * strike * exp (- r * t) * norm_cdf erf d2) / 365
                        else (- spot * phi * sigma / (2 * sqrt t) + r * strike * exp (- r * t) * norm_cdf erf (- d2)) / 365);
               vega = spot * phi * sqrt t / 100;
               rho = (if ot = CE then strike * t * exp (- r * t) * norm_cdf erf d2 / 100
                      else - strike * t * exp (- r * t) * norm_cdf erf (- d2) / 100)
           in Inr \<lparr>gr_delta = round_to 4 (delta * mult), gr_gamma = round_to 6 (gamma * mult),
                   gr_theta = round_to 4 (theta * mult), gr_vega = round_to 4 (vega * mult),
                   gr_rho = round_to 4 (rho * mult), gr_spot = spot, gr_strike = strike, gr_tte_days = gi_tte_days i,
                   gr_iv = sigma, gr_premium = round_to 2 (bs_price erf spot strike t sigma r ot), gr_option_type = ot\<rparr>)"

subsection \<open>Portfolio\<close>

definition lot_qty :: "greeks_input \<Rightarrow> int" where
  "lot_qty p = gi_quantity_lots p * greeks_lot_size (gi_symbol p)"

text \<open>The positions with their Greeks; one whose computation fails is skipped.\<close>

fun greeks_entries :: "(real \<Rightarrow> real) \<Rightarrow> greeks_input list \<Rightarrow> exn + (greeks_input \<times> greeks_result) list" where
  "greeks_entries erf [] = Inr []"
| "greeks_entries erf (p # ps) =
     (case compute_greeks erf p of
        Inr g \<Rightarrow> res_bind (greeks_entries erf ps) (\<lambda>es. Inr ((p, g) # es))
      | Inl e \<Rightarrow> if caught [ValueError, TypeError, ArithmeticError, OverflowError] e then greeks_entries erf ps else Inl e)"

definition total_of :: "(greeks_result \<Rightarrow> real) \<Rightarrow> (greeks_input \<times> greeks_result) list \<Rightarrow> real" where
  "total_of f es = sum_list (map (\<lambda>(p, g). f g * of_int (lot_qty p)) es)"

definition symbol_map :: "(greeks_input \<times> greeks_result) list \<Rightarrow> (string, (greeks_result \<times> int) list) dict" where
  "symbol_map es =
     fold (\<lambda>(p, g) m. dict_set (gi_symbol p)
              ((case map_of m (gi_symbol p) of None \<Rightarrow> [] | Some xs \<Rightarrow> xs) @ [(g, gi_quantity_lots p)]) m) es []"

definition symbol_total :: "string \<Rightarrow> (greeks_result \<Rightarrow> real) \<Rightarrow> (greeks_result \<times> int) list \<Rightarrow> real" where
  "symbol_total symbol f xs =
     sum_list (map (\<lambda>(g, q). f g * of_int (greeks_lot_size symbol) * of_int q) (filter (\<lambda>(g, q). q > 0) xs))"

definition symbol_summary :: "string \<Rightarrow> (greeks_result \<times> int) list \<Rightarrow> symbol_greeks" where
  "symbol_summary symbol xs =
     \<lparr>sg_delta = round_to 4 (symbol_total symbol gr_delta xs), sg_gamma = round_to 6 (symbol_total symbol gr_gamma xs),
      sg_theta = round_to 4 (symbol_total symbol gr_theta xs), sg_vega = round_to 4 (symbol_total symbol gr_vega xs),
      sg_rho = round_to 4 (symbol_total symbol gr_rho xs), sg_long_gamma = (symbol_total symbol gr_gamma xs \<ge> 0)\<rparr>"

definition compute_portfolio_greeks :: "(real \<Rightarrow> real) \<Rightarrow> real \<Rightarrow> greeks_input list \<Rightarrow> exn + portfolio_greeks" where
  "compute_portfolio_greeks erf now ps =
     (if ps = []
      then Inr \<lparr>pg_delta = 0, pg_gamma = 0, pg_theta = 0, pg_vega = 0, pg_rho = 0, pg_premium = 0, pg_count = 0,
                pg_by_symbol = [], pg_timestamp = now\<rparr>
      else res_bind (greeks_entries erf ps) (\<lambda>es.
        Inr \<lparr>pg_delta = round_to 4 (total_of gr_delta es), pg_gamma = round_to 6 (total_of gr_gamma es),
             pg_theta = round_to 4 (total_of gr_theta es), pg_vega = round_to 4 (total_of gr_vega es),
             pg_rho = round_to 4 (total_of gr_rho es), pg_premium = round_to 2 (total_of gr_premium es),
             pg_count = length ps, pg_by_symbol = map (\<lambda>(s, xs). (s, symbol_summary s xs)) (symbol_map es),
             pg_timestamp = now\<rparr>))"

subsection \<open>Pre-trade check\<close>

text \<open>A check result with the dataclass defaults.\<close>

definition greeks_check_default :: "greeks_status \<Rightarrow> greeks_check" where
  "greeks_check_default st =
     \<lparr>gc_status = st, gc_delta_ok = True, gc_gamma_ok = True, gc_theta_ok = True, gc_vega_ok = True,
      gc_portfolio_delta_ok = True, gc_portfolio_gamma_ok = True, gc_portfolio_theta_ok = True,
      gc_portfolio_vega_ok = True, gc_reasons = [], gc_projected = None\<rparr>"

definition reason_if :: "bool \<Rightarrow> string \<Rightarrow> string list" where
  "reason_if ok msg = (if ok then [] else [msg])"

definition check_limits :: "greeks_config \<Rightarrow> greeks_input \<Rightarrow> greeks_input list \<Rightarrow> greeks_result \<Rightarrow> portfolio_greeks \<Rightarrow> greeks_check" where
  "check_limits cfg proposed all_positions g projected =
     (let qty = of_int (lot_qty proposed) :: real;
          delta_exposure = \<bar>gr_delta g * qty\<bar>; gamma_exposure = \<bar>gr_gamma g * qty\<bar>; vega_exposure = gr_vega g * qty;
          delta_ok = (delta_exposure \<le> gg_delta_pos cfg * qty \<or> delta_exposure < 20);
          gamma_ok = (gamma_exposure \<le> gg_gamma_pos cfg \<or> gamma_exposure < 1 / 100);
          vega_ok = (vega_exposure \<le> gg_vega_pos cfg \<or> vega_exposure < 10);
          p_delta_ok = (\<bar>pg_delta projected\<bar> \<le> gg_delta_portfolio cfg * of_int (sum_list (map lot_qty all_positions))
                        \<or> \<bar>pg_delta projected\<bar> < 10);
          p_gamma_ok = (\<bar>pg_gamma projected\<bar> \<le> gg_gamma_portfolio cfg \<or> \<bar>pg_gamma projected\<bar> < 1 / 10);
          p_theta_ok = (pg_theta projected \<ge> gg_theta_budget cfg);
          p_vega_ok = (\<bar>pg_vega projected\<bar> \<le> gg_vega_portfolio cfg \<or> \<bar>pg_vega projected\<bar> < 500);
          reasons =
            reason_if delta_ok (''Delta limit per position: '' @ fmt_f 2 delta_exposure @ '' > '' @ fmt_f 2 (gg_delta_pos cfg * qty)) @
            reason_if gamma_ok (''Gamma limit per position: '' @ fmt_f 6 gamma_exposure @ '' > '' @ fmt_f 4 (gg_gamma_pos cfg)) @
            reason_if vega_ok (''Vega limit per position: '' @ fmt_f 2 vega_exposure @ '' > '' @ fmt_f 2 (gg_vega_pos cfg)) @
            reason_if p_delta_ok (''Portfolio delta limit: '' @ fmt_f 2 (pg_delta projected)) @
            reason_if p_gamma_ok (''Portfolio gamma limit: '' @ fmt_f 6 (pg_gamma projected)) @
            reason_if p_theta_ok (''Portfolio theta budget: '' @ fmt_f 2 (pg_theta projected) @ '' > '' @ fmt_f 2 (gg_theta_budget cfg)) @
            reason_if p_vega_ok (''Portfolio vega limit: '' @ fmt_f 2 (pg_vega projected) @ '' > '' @ fmt_f 2 (gg_vega_portfolio cfg));
          status =
            (if list_all id [delta_ok, gamma_ok, vega_ok, p_delta_ok, p_gamma_ok, p_theta_ok, p_vega_ok] then GL_PASS
             else if length reasons \<le> 2 \<and>
                     (\<bar>pg_delta projected\<bar> < gg_delta_portfolio cfg * (1 + gg_warn_pct cfg) \<or>
                      \<bar>pg_vega projected\<bar> < gg_vega_portfolio cfg * (1 + gg_warn_pct cfg))
                  then GL_WARN else GL_BLOCK)
      in \<lparr>gc_status = status, gc_delta_ok = delta_ok, gc_gamma_ok = gamma_ok, gc_theta_ok = p_theta_ok, gc_vega_ok = vega_ok,
          gc_portfolio_delta_ok = p_delta_ok, gc_portfolio_gamma_ok = p_gamma_ok, gc_portfolio_theta_ok = p_theta_ok,
          gc_portfolio_vega_ok = p_vega_ok, gc_reasons = reasons, gc_projected = Some projected\<rparr>)"

definition check_pre_trade_greeks ::
    "(real \<Rightarrow> real) \<Rightarrow> real \<Rightarrow> greeks_config \<Rightarrow> greeks_input \<Rightarrow> greeks_input list \<Rightarrow> exn + greeks_check" where
  "check_pre_trade_greeks erf now cfg proposed existing =
     (if \<not> gg_enabled cfg then Inr (greeks_check_default GL_PASS)
      else if gg_short_block cfg \<and> str_upper (gi_direction proposed) = ''SHORT''
      then Inr ((greeks_check_default GL_BLOCK)
                  \<lparr>gc_delta_ok := False, gc_reasons := [''Naked short options blocked - use spreads or long-only strategies'']\<rparr>)
      else res_bind (compute_greeks erf proposed) (\<lambda>g.
           res_bind (compute_portfolio_greeks erf now (existing @ [proposed])) (\<lambda>projected.
             Inr (check_limits cfg proposed (existing @ [proposed]) g projected))))"

subsection \<open>Stress testing\<close>

definition default_scenarios :: "stress_scenario list" where
  "default_scenarios =
     [\<lparr>ss_name = ''FLASH_CRASH'', ss_spot_shift_pct = - 10, ss_iv_shift_pts = 20, ss_tte_factor = 1, ss_rate_shift_bp = 0\<rparr>,
      \<lparr>ss_name = ''VOL_JACK'', ss_spot_shift_pct = - 3, ss_iv_shift_pts = 15, ss_tte_factor = 1, ss_rate_shift_bp = 0\<rparr>,
      \<lparr>ss_name = ''GAP_UP'', ss_spot_shift_pct = 3, ss_iv_shift_pts = 5, ss_tte_factor = 1, ss_rate_shift_bp = 0\<rparr>,
      \<lparr>ss_name = ''GAP_DOWN'', ss_spot_shift_pct = - 3, ss_iv_shift_pts = 5, ss_tte_factor = 1, ss_rate_shift_bp = 0\<rparr>,
      \<lparr>ss_name = ''EXPIRY_CRUSH'', ss_spot_shift_pct = 0, ss_iv_shift_pts = - 10, ss_tte_factor = 1 / 100, ss_rate_shift_bp = 0\<rparr>,
      \<lparr>ss_name = ''RATE_HIKE'', ss_spot_shift_pct = - 1, ss_iv_shift_pts = 0, ss_tte_factor = 1, ss_rate_shift_bp = 200\<rparr>]"

definition stress_position :: "stress_scenario \<Rightarrow> greeks_input \<Rightarrow> greeks_input" where
  "stress_position sc p =
     p\<lparr>gi_spot := gi_spot p * (1 + ss_spot_shift_pct sc / 100), gi_iv := max (5 / 100) (gi_iv p + ss_iv_shift_pts sc / 100),
       gi_tte_days := max (1 / 1000) (gi_tte_days p * ss_tte_factor sc), gi_rate := gi_rate p + ss_rate_shift_bp sc / 10000\<rparr>"

definition stress_verdict :: "real \<Rightarrow> real \<Rightarrow> string" where
  "stress_verdict max_loss_pct delta_change =
     (if max_loss_pct > 50 \<or> \<bar>delta_change\<bar> > 1000 then ''FRAGILE''
      else if max_loss_pct > 20 \<or> \<bar>delta_change\<bar> > 500 then ''SENSITIVE'' else ''RESILIENT'')"

definition run_stress_test :: "(real \<Rightarrow> real) \<Rightarrow> real \<Rightarrow> greeks_input list \<Rightarrow> stress_scenario option \<Rightarrow> exn + stress_result" where
  "run_stress_test erf now ps scenario =
     (let sc = (case scenario of None \<Rightarrow> hd default_scenarios | Some sc \<Rightarrow> sc)
      in res_bind (compute_portfolio_greeks erf now ps) (\<lambda>pre.
         res_bind (compute_portfolio_greeks erf now (map (stress_position sc) ps)) (\<lambda>post.
           let loss = (if pg_premium pre > 0 then (pg_premium pre - pg_premium post) / pg_premium pre * 100 else 0);
               dd = pg_delta post - pg_delta pre
           in Inr \<lparr>st_scenario = ss_name sc, st_pre = pre, st_post = post, st_delta_change = round_to 4 dd,
                   st_gamma_change = round_to 6 (pg_gamma post - pg_gamma pre),
                   st_theta_change = round_to 4 (pg_theta post - pg_theta pre),
                   st_vega_change = round_to 4 (pg_vega post - pg_vega pre),
                   st_max_loss_pct = round_to 2 loss, st_verdict = stress_verdict loss dd\<rparr>)))"

definition run_all_stress_tests :: "(real \<Rightarrow> real) \<Rightarrow> real \<Rightarrow> greeks_input list \<Rightarrow> exn + stress_result list" where
  "run_all_stress_tests erf now ps = res_map (\<lambda>sc. run_stress_test erf now ps (Some sc)) default_scenarios"

definition overall_verdict :: "stress_result list \<Rightarrow> string" where
  "overall_verdict rs =
     (if list_all (\<lambda>r. st_verdict r = ''RESILIENT'') rs then ''RESILIENT''
      else if list_all (\<lambda>r. st_verdict r \<in> {''RESILIENT'', ''SENSITIVE''}) rs then ''SENSITIVE'' else ''FRAGILE'')"

text \<open>\<open>max(results, key=...)\<close>: the first of the largest.\<close>

definition worst_result :: "stress_result list \<Rightarrow> stress_result" where
  "worst_result rs = foldl (\<lambda>b r. if st_max_loss_pct r > st_max_loss_pct b then r else b) (hd rs) (tl rs)"

section \<open>Lemmas\<close>

subsection \<open>Black-Scholes\<close>

lemma norm_cdf_minus: "(\<And>x. erf (- x) = - erf x) \<Longrightarrow> norm_cdf erf (- x) = 1 - norm_cdf erf x"
  by (simp add: norm_cdf_def field_simps)

lemma norm_cdf_range: "(\<And>x. \<bar>erf x\<bar> \<le> 1) \<Longrightarrow> 0 \<le> norm_cdf erf x \<and> norm_cdf erf x \<le> 1"
proof -
  assume "\<And>x. \<bar>erf x\<bar> \<le> 1"
  then have "\<bar>erf (x / sqrt 2)\<bar> \<le> 1" by blast
  then show ?thesis by (simp add: norm_cdf_def abs_le_iff)
qed

lemma norm_pdf_pos: "0 < norm_pdf x"
  by (simp add: norm_pdf_def)

lemma bs_delta_range:
  assumes "\<And>x. \<bar>erf x\<bar> \<le> 1"
  shows "if ot = CE then 0 \<le> bs_delta erf ot d \<and> bs_delta erf ot d \<le> 1 else - 1 \<le> bs_delta erf ot d \<and> bs_delta erf ot d \<le> 0"
  using norm_cdf_range [of erf d, OF assms] by (simp add: bs_delta_def)

lemma compute_greeks_delta:
  assumes "compute_greeks erf i = Inr g" "\<And>x. \<bar>erf x\<bar> \<le> 1"
  shows "\<bar>gr_delta g\<bar> \<le> 1"
proof -
  obtain d m where g: "gr_delta g = round_to 4 (bs_delta erf (gi_option_type i) d * m)" and m: "\<bar>m\<bar> = 1"
  proof -
    from assms(1) show thesis
      by (intro that [of "bs_d1 (gi_spot i) (gi_strike i) (max (gi_tte_days i) (1 / 1000) / 365) (max (gi_iv i) (1 / 100)) (gi_rate i)"
            "if str_upper (gi_direction i) = ''SHORT'' then - 1 else 1"])
        (auto simp: compute_greeks_def Let_def split: if_splits)
  qed
  have "\<bar>bs_delta erf (gi_option_type i) d * m\<bar> \<le> of_int 1"
    using bs_delta_range [of erf "gi_option_type i" d, OF assms(2)] m by (auto simp: abs_mult split: if_splits)
  then show ?thesis unfolding g using round_to_abs [of _ 1 4] by simp
qed

subsection \<open>Portfolio\<close>

lemma compute_greeks_raises: "compute_greeks erf i = Inl e \<Longrightarrow> caught [ValueError, TypeError, ArithmeticError, OverflowError] e"
  by (auto simp: compute_greeks_def Let_def exn_simps split: if_splits)

lemma greeks_entries_total: "\<exists>es. greeks_entries erf ps = Inr es"
  by (induction ps) (auto split: sum.split dest: compute_greeks_raises)

lemma compute_portfolio_total: "\<exists>pg. compute_portfolio_greeks erf now ps = Inr pg"
  using greeks_entries_total [of erf ps] by (auto simp: compute_portfolio_greeks_def)

lemma greeks_entries_delta:
  assumes "greeks_entries erf ps = Inr es" "\<And>x. \<bar>erf x\<bar> \<le> 1" "\<forall>p \<in> set ps. 0 \<le> lot_qty p"
  shows "\<bar>total_of gr_delta es\<bar> \<le> of_int (sum_list (map lot_qty ps))"
  using assms(1,3)
proof (induction ps arbitrary: es)
  case Nil
  then show ?case by (simp add: total_of_def)
next
  case (Cons p ps)
  from Cons.prems have q: "0 \<le> lot_qty p" and qs: "\<forall>p \<in> set ps. 0 \<le> lot_qty p" by simp_all
  show ?case
  proof (cases "compute_greeks erf p")
    case (Inl e)
    then have "greeks_entries erf ps = Inr es" using Cons.prems(1) compute_greeks_raises [OF Inl] by simp
    from Cons.IH [OF this qs] q show ?thesis by simp
  next
    case (Inr g)
    with Cons.prems(1) obtain es' where es: "greeks_entries erf ps = Inr es'" "es = (p, g) # es'"
      by (cases "greeks_entries erf ps") auto
    have "\<bar>gr_delta g * of_int (lot_qty p)\<bar> \<le> 1 * of_int (lot_qty p)"
      using compute_greeks_delta [OF Inr assms(2)] q by (simp add: abs_mult mult_right_mono del: mult_1)
    with Cons.IH [OF es(1) qs] show ?thesis by (simp add: total_of_def es(2))
  qed
qed

lemma lot_size_pos: "0 < greeks_lot_size s"
  by (simp add: greeks_lot_size_def nse_lot_sizes_def)

lemma lot_qty_nonneg: "0 \<le> gi_quantity_lots p \<Longrightarrow> 0 \<le> lot_qty p"
  using lot_size_pos [of "gi_symbol p"] by (simp add: lot_qty_def)

lemma portfolio_delta_bound:
  assumes "compute_portfolio_greeks erf now ps = Inr pg" "\<And>x. \<bar>erf x\<bar> \<le> 1" "\<forall>p \<in> set ps. 0 \<le> gi_quantity_lots p"
  shows "\<bar>pg_delta pg\<bar> \<le> of_int (sum_list (map lot_qty ps))"
proof (cases "ps = []")
  case True
  with assms(1) show ?thesis by (auto simp: compute_portfolio_greeks_def)
next
  case False
  then obtain es where es: "greeks_entries erf ps = Inr es" "pg_delta pg = round_to 4 (total_of gr_delta es)"
    using assms(1) greeks_entries_total [of erf ps] by (auto simp: compute_portfolio_greeks_def)
  have "\<forall>p \<in> set ps. 0 \<le> lot_qty p" using assms(3) lot_qty_nonneg by blast
  from round_to_abs [OF greeks_entries_delta [OF es(1) assms(2) this]] es(2) show ?thesis by simp
qed

subsection \<open>Configuration\<close>

lemma map_of_fold_set: "map_of (fold (\<lambda>(k, v). dict_set k v) cfg d) = map_of d ++ map_of (rev cfg)"
  by (induction cfg arbitrary: d) (auto simp: map_add_def fun_eq_iff split: option.split)

lemma from_dict_cong:
  assumes "\<And>k. take 7 k = ''greeks_'' \<Longrightarrow> map_of c k = map_of d k"
  shows "greeks_from_dict c = greeks_from_dict d"
  using assms by (simp add: greeks_from_dict_def cfg_get_def)

lemma map_of_rev: "dict_ok c \<Longrightarrow> map_of (rev c) = map_of c"
proof -
  assume "dict_ok c"
  then have "distinct (map fst c)" "distinct (map fst (rev c))"
    by (simp_all add: dict_ok_def dict_keys_def rev_map [symmetric])
  then show ?thesis by (intro map_of_inject_set [THEN iffD2]) simp_all
qed

lemma to_dict_keys: "take 7 k = ''greeks_'' \<Longrightarrow> map_of (greeks_to_dict g) k = None"
proof -
  assume k: "take 7 k = ''greeks_''"
  have "list_all (\<lambda>k. take 7 k \<noteq> ''greeks_'') (map fst (greeks_to_dict g))" by (simp add: greeks_to_dict_def)
  with k show ?thesis by (auto simp: list_all_iff map_of_eq_None_iff)
qed

subsection \<open>The verdict\<close>

definition breaches :: "greeks_check \<Rightarrow> nat" where
  "breaches c = length (filter Not [gc_delta_ok c, gc_gamma_ok c, gc_vega_ok c, gc_portfolio_delta_ok c,
     gc_portfolio_gamma_ok c, gc_portfolio_theta_ok c, gc_portfolio_vega_ok c])"

lemma reasons_count:
  "length (reason_if b1 m1 @ reason_if b2 m2 @ reason_if b3 m3 @ reason_if b4 m4 @ reason_if b5 m5 @ reason_if b6 m6 @ reason_if b7 m7)
     = length (filter Not [b1, b2, b3, b4, b5, b6, b7])"
  unfolding reason_if_def by (cases b1; cases b2; cases b3; cases b4) simp_all

lemma check_limits_reasons: "length (gc_reasons (check_limits cfg p ps g pg)) = breaches (check_limits cfg p ps g pg)"
  by (simp only: check_limits_def Let_def breaches_def greeks_check.select_convs reasons_count)

lemma all_ok_iff: "list_all id bs \<longleftrightarrow> length (filter Not bs) = 0"
  by (induction bs) auto

lemma check_limits_status:
  "gc_status (check_limits cfg p ps g pg) =
     (if breaches (check_limits cfg p ps g pg) = 0 then GL_PASS
      else if breaches (check_limits cfg p ps g pg) \<le> 2 \<and>
              (\<bar>pg_delta pg\<bar> < gg_delta_portfolio cfg * (1 + gg_warn_pct cfg) \<or>
               \<bar>pg_vega pg\<bar> < gg_vega_portfolio cfg * (1 + gg_warn_pct cfg))
           then GL_WARN else GL_BLOCK)"
  by (simp only: check_limits_def Let_def breaches_def greeks_check.select_convs reasons_count all_ok_iff)

section \<open>Properties\<close>

text \<open>
  Put-call parity. For positive prices, volatility and time to expiry the computed call and put
  prices differ by the spot price less the discounted strike (\<open>math.erf\<close> being odd).
\<close>

lemma put_call_parity:
  assumes "\<And>x. erf (- x) = - erf x" "0 < spot" "0 < strike" "0 < t" "0 < sigma"
  shows "bs_price erf spot strike t sigma r CE - bs_price erf spot strike t sigma r PE = spot - strike * exp (- r * t)"
proof -
  have "norm_cdf erf (- x) = 1 - norm_cdf erf x" for x using norm_cdf_minus assms(1) .
  then show ?thesis using assms(2-5) by (simp add: bs_price_def Let_def right_diff_distrib)
qed

text \<open>
  The portfolio delta limit never binds. As the computed delta of a position is between -1 and 1,
  the net delta is at most the number of contracts; with a portfolio limit of at least 1 per contract,
  such as the default 1.5, the check passes for every proposal and every portfolio.
\<close>

lemma portfolio_delta_never_binds:
  assumes "\<And>x. \<bar>erf x\<bar> \<le> 1" "1 \<le> gg_delta_portfolio cfg"
    and "\<forall>p \<in> set (existing @ [proposed]). 0 \<le> gi_quantity_lots p"
    and "check_pre_trade_greeks erf now cfg proposed existing = Inr c"
  shows "gc_portfolio_delta_ok c"
proof -
  let ?ps = "existing @ [proposed]"
  obtain pg where pg: "compute_portfolio_greeks erf now ?ps = Inr pg" using compute_portfolio_total by blast
  have n: "0 \<le> sum_list (map lot_qty ?ps)" by (intro sum_list_nonneg) (use assms(3) lot_qty_nonneg in auto)
  have "\<bar>pg_delta pg\<bar> \<le> 1 * of_int (sum_list (map lot_qty ?ps))"
    using portfolio_delta_bound [OF pg assms(1,3)] by simp
  also have "\<dots> \<le> gg_delta_portfolio cfg * of_int (sum_list (map lot_qty ?ps))"
    using assms(2) n by (intro mult_right_mono) simp_all
  finally have "\<bar>pg_delta pg\<bar> \<le> gg_delta_portfolio cfg * of_int (sum_list (map lot_qty ?ps))" .
  then have "gc_portfolio_delta_ok (check_limits cfg proposed ?ps g pg)" for g
    by (simp add: check_limits_def Let_def del: map_append sum_list_append)
  with assms(4) pg show ?thesis
    by (cases "compute_greeks erf proposed") (auto simp: check_pre_trade_greeks_def greeks_check_default_def split: if_splits)
qed

definition demo_position :: "int \<Rightarrow> greeks_input" where
  "demo_position lots = \<lparr>gi_symbol = ''NIFTY'', gi_option_type = CE, gi_direction = ''LONG'', gi_spot = 25000, gi_strike = 20000,
     gi_tte_days = 3, gi_iv = 15 / 100, gi_quantity_lots = lots, gi_rate = 65 / 1000\<rparr>"

lemma demo_computes: "\<exists>c. check_pre_trade_greeks erf now default_greeks_config (demo_position n) ps = Inr c"
proof -
  obtain g where "compute_greeks erf (demo_position n) = Inr g" by (simp add: compute_greeks_def demo_position_def Let_def)
  moreover obtain pg where "compute_portfolio_greeks erf now (ps @ [demo_position n]) = Inr pg" using compute_portfolio_total by blast
  ultimately show ?thesis by (simp add: check_pre_trade_greeks_def)
qed

text \<open>
  When the check blocks. A long proposal that the enabled engine evaluates is blocked exactly when
  at least one of the seven limits is breached, and either three or more are, or the projected net
  delta and the projected net vega both exceed their portfolio limits by the warning share: one or
  two breaches with a small vega only warn.
\<close>

lemma greeks_block_iff:
  assumes "check_pre_trade_greeks erf now cfg proposed existing = Inr c"
    and "gg_enabled cfg" "str_upper (gi_direction proposed) \<noteq> ''SHORT''"
  shows "\<exists>pg. compute_portfolio_greeks erf now (existing @ [proposed]) = Inr pg \<and> gc_projected c = Some pg \<and>
    length (gc_reasons c) = breaches c \<and>
    (gc_status c = GL_BLOCK \<longleftrightarrow>
       3 \<le> breaches c \<or>
       1 \<le> breaches c \<and> gg_delta_portfolio cfg * (1 + gg_warn_pct cfg) \<le> \<bar>pg_delta pg\<bar> \<and>
         gg_vega_portfolio cfg * (1 + gg_warn_pct cfg) \<le> \<bar>pg_vega pg\<bar>)"
proof -
  obtain pg where pg: "compute_portfolio_greeks erf now (existing @ [proposed]) = Inr pg" using compute_portfolio_total by blast
  from assms pg obtain g where c: "c = check_limits cfg proposed (existing @ [proposed]) g pg"
    by (cases "compute_greeks erf proposed") (auto simp: check_pre_trade_greeks_def)
  have "gc_projected c = Some pg" unfolding c by (simp add: check_limits_def Let_def)
  moreover have "length (gc_reasons c) = breaches c" unfolding c by (rule check_limits_reasons)
  moreover have "gc_status c = GL_BLOCK \<longleftrightarrow> 3 \<le> breaches c \<or> 1 \<le> breaches c \<and>
      gg_delta_portfolio cfg * (1 + gg_warn_pct cfg) \<le> \<bar>pg_delta pg\<bar> \<and> gg_vega_portfolio cfg * (1 + gg_warn_pct cfg) \<le> \<bar>pg_vega pg\<bar>"
    unfolding c check_limits_status by (auto simp: not_less)
  ultimately show ?thesis using pg by blast
qed

text \<open>
  Updating the configuration forgets it. \<open>update_config\<close> merges the new settings into \<open>to_dict\<close>,
  whose keys lack the prefix that \<open>from_dict\<close> reads, so the result depends on the new settings only;
  an empty update lowers the default delta limits from 0.55 and 1.5 to 0.2 and 0.5.
\<close>

lemma update_config_forgets:
  assumes "dict_ok cfg"
  shows "greeks_update_config cfg g = greeks_from_dict cfg \<and>
    gg_delta_pos (greeks_update_config [] default_greeks_config) = 2 / 10 \<and>
    gg_delta_portfolio (greeks_update_config [] default_greeks_config) = 5 / 10"
proof -
  have "greeks_update_config c h = greeks_from_dict c" if "dict_ok c" for c h
    unfolding greeks_update_config_def
    by (rule from_dict_cong) (simp add: map_of_fold_set map_of_rev [OF that] map_add_def to_dict_keys split: option.split)
  from this [OF assms] this [of "[]"] show ?thesis by (simp add: greeks_from_dict_def cfg_get_def)
qed

end
