(* ===== verification/Capital_Manager.thy ===== *)
theory Capital_Manager
  imports Py_Numbers Safety_Gates
begin

text \<open>
  The capital manager, \<open>core/capital_manager.py\<close>: equity tracking, and the scaling of a position by
  capital growth, drawdown, loss streak and daily loss. The state of the process-wide kill switch is
  passed to the one operation that may trip it. The text \<open>reasoning\<close> of a scale result, meant for
  display, is left out.
\<close>

section \<open>Definitions\<close>

record capital_state =
  cs_initial :: real
  cs_current :: real
  cs_peak :: real
  cs_locked :: real
  cs_daily_pnl :: real
  cs_daily_trades :: int
  cs_losses :: int
  cs_trades :: int
  cs_wins :: int

record scale_result =
  sr_factor :: real
  sr_lots :: int
  sr_growth :: real
  sr_dd_factor :: real
  sr_consec_factor :: real
  sr_daily_factor :: real
  sr_drawdown :: real

record capital_manager =
  cm_max_daily_loss :: real
  cm_max_dd :: real
  cm_warn_pct :: real
  cm_dd_scale :: bool
  cm_state :: capital_state

definition new_capital_manager :: "real \<Rightarrow> real \<Rightarrow> real \<Rightarrow> real \<Rightarrow> bool \<Rightarrow> exn + capital_manager" where
  "new_capital_manager initial mdl mdd warn dds =
     (if mdl \<ge> 0 then Inl (Exn ValueError ''max_daily_loss must be negative'')
      else Inr \<lparr>cm_max_daily_loss = mdl, cm_max_dd = mdd, cm_warn_pct = warn, cm_dd_scale = dds,
             cm_state = \<lparr>cs_initial = initial, cs_current = initial, cs_peak = initial, cs_locked = 0, cs_daily_pnl = 0,
               cs_daily_trades = 0, cs_losses = 0, cs_trades = 0, cs_wins = 0\<rparr>\<rparr>)"

definition drawdown_pct_unlocked :: "capital_state \<Rightarrow> real" where
  "drawdown_pct_unlocked st =
     (if cs_peak st > 0 then max 0 ((cs_peak st - cs_current st) / cs_peak st) else 0)"

text \<open>The factors of \<open>scale\<close>\<close>

definition growth_factor :: "capital_state \<Rightarrow> real" where
  "growth_factor st = round_to 3 (min (3 / 2) (max (1 / 10) (cs_current st / max (cs_initial st) 1)))"

definition drawdown_factor :: "capital_manager \<Rightarrow> real" where
  "drawdown_factor cm =
     (let dd = drawdown_pct_unlocked (cm_state cm)
      in if \<not> cm_dd_scale cm then 1
         else if dd \<ge> cm_max_dd cm then 0
         else if dd > 0 then round_to 3 (max (3 / 10) (1 - dd / cm_max_dd cm))
         else 1)"

definition consec_factor :: "int \<Rightarrow> real" where
  "consec_factor cl = (if cl \<ge> 4 then 1 / 4 else if cl \<ge> 3 then 1 / 2 else if cl \<ge> 2 then 3 / 4 else 1)"

definition daily_factor :: "capital_manager \<Rightarrow> real" where
  "daily_factor cm =
     (let pnl = cs_daily_pnl (cm_state cm); warn_level = cm_max_daily_loss cm * cm_warn_pct cm
      in if pnl \<le> warn_level \<and> warn_level < 0
         then round_to 3 (max (1 / 4) (1 - pnl / cm_max_daily_loss cm * (1 / 2)))
         else 1)"

definition scale :: "int \<Rightarrow> int \<Rightarrow> capital_manager \<Rightarrow> scale_result" where
  "scale base_lots max_lots cm =
     (let st = cm_state cm; g = growth_factor st; d = drawdown_factor cm; c = consec_factor (cs_losses st); y = daily_factor cm;
          f = max 0 (min 1 (round_to 3 (g * d * c * y)));
          lots = \<lfloor>of_int base_lots * f\<rfloor>
      in \<lparr>sr_factor = f, sr_lots = (if f > 0 then max 1 (min lots max_lots) else 0), sr_growth = g, sr_dd_factor = d,
          sr_consec_factor = c, sr_daily_factor = y, sr_drawdown = drawdown_pct_unlocked st\<rparr>)"

definition cm_record_trade :: "real \<Rightarrow> bool \<Rightarrow> capital_manager \<Rightarrow> capital_manager" where
  "cm_record_trade net_pnl is_winner cm =
     (let st = cm_state cm; cur = cs_current st + net_pnl
      in cm\<lparr>cm_state := st\<lparr>cs_current := cur, cs_daily_pnl := cs_daily_pnl st + net_pnl, cs_peak := max (cs_peak st) cur,
             cs_daily_trades := cs_daily_trades st + 1, cs_trades := cs_trades st + 1,
             cs_losses := (if is_winner then 0 else cs_losses st + 1),
             cs_wins := (if is_winner then cs_wins st + 1 else cs_wins st)\<rparr>\<rparr>)"

definition cm_reset_daily :: "capital_manager \<Rightarrow> capital_manager" where
  "cm_reset_daily cm = cm\<lparr>cm_state := (cm_state cm)\<lparr>cs_daily_pnl := 0, cs_daily_trades := 0\<rparr>\<rparr>"

definition cm_lock_profits :: "real \<Rightarrow> capital_manager \<Rightarrow> real \<times> capital_manager" where
  "cm_lock_profits lock_pct cm =
     (let st = cm_state cm; profit = cs_current st - cs_initial st
      in if profit \<le> 0 then (0, cm)
         else let amount = round_to 2 (profit * lock_pct)
              in (amount, cm\<lparr>cm_state := st\<lparr>cs_current := cs_current st - amount, cs_locked := cs_locked st + amount\<rparr>\<rparr>))"

definition decide_trade_allowed :: "capital_manager \<Rightarrow> safety \<Rightarrow> (bool \<times> string) \<times> safety" where
  "decide_trade_allowed cm sf =
     (let st = cm_state cm; dd = drawdown_pct_unlocked st; src = ''CapitalManager.decide_trade_allowed'';
          dd_msg = ''Max drawdown breached: '' @ fmt_pct 1 dd @ '' >= '' @ fmt_pct 1 (cm_max_dd cm);
          cl_msg = ''Circuit breaker: '' @ show_int (cs_losses st) @ '' consecutive losses''
      in if cs_daily_pnl st \<le> cm_max_daily_loss cm
         then ((False, ''Daily loss limit hit: '' @ fmt_signed 2 (cs_daily_pnl st) @ '' <= '' @ fmt_signed 2 (cm_max_daily_loss cm)), sf)
         else if dd \<ge> cm_max_dd cm then ((False, dd_msg), trip_hard_halt dd_msg src sf)
         else if cs_losses st \<ge> 5 then ((False, cl_msg), trip_hard_halt cl_msg src sf)
         else ((True, ''OK''), sf))"

text \<open>The properties \<open>drawdown_pct\<close> and \<open>current_capital\<close>\<close>

definition cm_drawdown_pct :: "capital_manager \<Rightarrow> real" where
  "cm_drawdown_pct cm = round_to 2 (drawdown_pct_unlocked (cm_state cm) * 100)"

definition cm_current_capital :: "capital_manager \<Rightarrow> real" where
  "cm_current_capital cm = cs_current (cm_state cm)"

text \<open>The operations that change the manager.\<close>

datatype capital_op = CmTrade real bool | CmResetDaily | CmLock real

fun capital_step :: "capital_op \<Rightarrow> capital_manager \<Rightarrow> capital_manager" where
  "capital_step (CmTrade p w) cm = cm_record_trade p w cm"
| "capital_step CmResetDaily cm = cm_reset_daily cm"
| "capital_step (CmLock p) cm = snd (cm_lock_profits p cm)"

fun op_pnl :: "capital_op \<Rightarrow> real" where
  "op_pnl (CmTrade p w) = p"
| "op_pnl _ = 0"

fun op_fair :: "capital_op \<Rightarrow> bool" where
  "op_fair (CmLock p) = (0 \<le> p)"
| "op_fair _ = True"

section \<open>Lemmas\<close>

lemma consec_factor_range: "0 < consec_factor cl \<and> consec_factor cl \<le> 1"
  by (simp add: consec_factor_def)

lemma drawdown_nonneg: "0 \<le> drawdown_pct_unlocked st"
  by (simp add: drawdown_pct_unlocked_def)

text \<open>The books: equity and locked profit add up to the initial capital and the recorded results.\<close>

definition books_ok :: "real \<Rightarrow> real \<Rightarrow> capital_manager \<Rightarrow> bool" where
  "books_ok initial booked cm \<longleftrightarrow>
     (let st = cm_state cm
      in cs_initial st = initial \<and> cs_current st + cs_locked st = initial + booked \<and> cs_current st \<le> cs_peak st \<and>
         initial \<le> cs_peak st \<and> 0 \<le> cs_locked st \<and> 0 \<le> cs_losses st \<and> cs_losses st + cs_wins st \<le> cs_trades st \<and>
         0 \<le> cs_wins st \<and> 0 \<le> cs_daily_trades st \<and> cs_daily_trades st \<le> cs_trades st)"

lemma new_books: "new_capital_manager initial mdl mdd warn dds = Inr cm \<Longrightarrow> books_ok initial 0 cm"
  by (auto simp: new_capital_manager_def books_ok_def split: if_splits)

lemma lock_books:
  assumes "books_ok initial booked cm" "0 \<le> p"
  shows "books_ok initial booked (snd (cm_lock_profits p cm))"
proof (cases "cs_current (cm_state cm) - cs_initial (cm_state cm) \<le> 0")
  case True
  with assms show ?thesis by (simp add: cm_lock_profits_def Let_def)
next
  case False
  then have "0 \<le> round_to 2 ((cs_current (cm_state cm) - cs_initial (cm_state cm)) * p)"
    using assms(2) by (intro round_to_nonneg mult_nonneg_nonneg) simp_all
  with False assms(1) show ?thesis by (simp add: cm_lock_profits_def books_ok_def Let_def)
qed

lemma step_books:
  "books_ok initial booked cm \<Longrightarrow> op_fair x \<Longrightarrow> books_ok initial (booked + op_pnl x) (capital_step x cm)"
  by (cases x) (auto simp: lock_books, auto simp: books_ok_def cm_record_trade_def cm_reset_daily_def Let_def)

lemma run_books:
  "books_ok initial booked cm \<Longrightarrow> list_all op_fair ops \<Longrightarrow>
     books_ok initial (booked + sum_list (map op_pnl ops)) (fold capital_step ops cm)"
proof (induction ops arbitrary: booked cm)
  case Nil
  then show ?case by simp
next
  case (Cons x ops)
  then have "books_ok initial (booked + op_pnl x) (capital_step x cm)" by (simp add: step_books)
  from Cons.IH [OF this] Cons.prems(2) show ?case by (simp add: add.assoc)
qed

lemma drawdown_factor_blocks: "cm_dd_scale cm \<Longrightarrow> cm_max_dd cm \<le> drawdown_pct_unlocked (cm_state cm) \<Longrightarrow> drawdown_factor cm = 0"
  by (simp add: drawdown_factor_def)

lemma scale_lots_le_base: "0 \<le> f \<Longrightarrow> f \<le> 1 \<Longrightarrow> \<lfloor>of_int b * (f :: real)\<rfloor> \<le> max 1 b"
proof -
  assume f: "0 \<le> f" "f \<le> 1"
  have "of_int b * f \<le> of_int (max 0 b)"
  proof (cases "0 \<le> b")
    case True
    with f have "of_int b * f \<le> of_int b * 1" by (intro mult_left_mono) simp_all
    with True show ?thesis by simp
  next
    case False
    with f show ?thesis by (simp add: mult_nonpos_nonneg)
  qed
  then have "\<lfloor>of_int b * f\<rfloor> \<le> max 0 b" by (simp add: floor_le_iff)
  then show ?thesis by simp
qed

section \<open>Properties\<close>

text \<open>
  C25: Equity accounting. After any sequence of recorded trades, daily resets and profit locks (of a
  non-negative share) the current capital and the locked profit add up to the initial capital and
  the recorded results, the peak is at least the current and the initial capital, and the counters
  are consistent.
\<close>

theorem capital_accounting:
  assumes "new_capital_manager initial mdl mdd warn dds = Inr cm" "list_all op_fair ops"
    and "st = cm_state (fold capital_step ops cm)"
  shows "cs_current st + cs_locked st = initial + sum_list (map op_pnl ops) \<and>
    cs_current st \<le> cs_peak st \<and> initial \<le> cs_peak st \<and> 0 \<le> cs_locked st \<and>
    0 \<le> cs_losses st \<and> 0 \<le> cs_wins st \<and> cs_losses st + cs_wins st \<le> cs_trades st \<and> cs_daily_trades st \<le> cs_trades st"
  using run_books [OF new_books [OF assms(1)] assms(2)] assms(3) by (simp add: books_ok_def Let_def)

theorem capital_accounting_witness:
  "\<exists>cm. new_capital_manager 1000 (-50) (1 / 5) (3 / 5) True = Inr cm \<and>
     cs_current (cm_state (fold capital_step [CmTrade 100 True, CmLock (1 / 2), CmTrade (-20) False] cm)) +
     cs_locked (cm_state (fold capital_step [CmTrade 100 True, CmLock (1 / 2), CmTrade (-20) False] cm)) = 1080"
proof -
  obtain cm where cm: "new_capital_manager 1000 (-50) (1 / 5) (3 / 5) True = Inr cm" by (simp add: new_capital_manager_def)
  have "cs_current (cm_state (fold capital_step [CmTrade 100 True, CmLock (1 / 2), CmTrade (-20) False] cm)) +
        cs_locked (cm_state (fold capital_step [CmTrade 100 True, CmLock (1 / 2), CmTrade (-20) False] cm)) =
        1000 + sum_list (map op_pnl [CmTrade 100 True, CmLock (1 / 2), CmTrade (-20) False])"
    by (rule capital_accounting [OF cm _ refl, THEN conjunct1]) simp
  with cm show ?thesis by simp
qed

text \<open>
  Scaling is bounded. The factor lies between 0 and 1, the lots between 0 and the larger of one
  lot and either the base or the maximum, the size is 0 exactly when the factor is 0, and it is 0
  when the drawdown has reached its limit.
\<close>

lemma scale_bounded:
  assumes "r = scale base_lots max_lots cm"
  shows "0 \<le> sr_factor r \<and> sr_factor r \<le> 1 \<and>
    0 \<le> sr_lots r \<and> sr_lots r \<le> max 1 max_lots \<and> sr_lots r \<le> max 1 base_lots \<and>
    (sr_lots r = 0 \<longleftrightarrow> sr_factor r = 0) \<and>
    (cm_dd_scale cm \<and> cm_max_dd cm \<le> drawdown_pct_unlocked (cm_state cm) \<longrightarrow> sr_lots r = 0)"
proof -
  have f: "0 \<le> sr_factor r" "sr_factor r \<le> 1" using assms by (simp_all add: scale_def Let_def)
  have l: "sr_lots r = (if sr_factor r > 0 then max 1 (min \<lfloor>of_int base_lots * sr_factor r\<rfloor> max_lots) else 0)"
    using assms by (simp add: scale_def Let_def)
  have b: "0 \<le> sr_lots r" "sr_lots r \<le> max 1 max_lots" "sr_lots r \<le> max 1 base_lots" "sr_lots r = 0 \<longleftrightarrow> sr_factor r = 0"
    using scale_lots_le_base [OF f, of base_lots] f l by auto
  have "sr_factor r = 0" if "cm_dd_scale cm" "cm_max_dd cm \<le> drawdown_pct_unlocked (cm_state cm)"
    using assms drawdown_factor_blocks [OF that] by (simp add: scale_def Let_def round_to_def round_half_even_def)
  with f b show ?thesis by blast
qed

definition demo_capital :: "real \<Rightarrow> capital_manager" where
  "demo_capital current =
     \<lparr>cm_max_daily_loss = -5000, cm_max_dd = 1 / 5, cm_warn_pct = 3 / 5, cm_dd_scale = True,
      cm_state = \<lparr>cs_initial = 100000, cs_current = current, cs_peak = max 100000 current, cs_locked = 0, cs_daily_pnl = 0,
        cs_daily_trades = 0, cs_losses = 0, cs_trades = 0, cs_wins = 0\<rparr>\<rparr>"

text \<open>A tradeable scale gives one lot even when the caller asks for none or allows none.\<close>

lemma scale_at_least_one: "0 < sr_factor (scale b m cm) \<Longrightarrow> 1 \<le> sr_lots (scale b m cm)"
  by (simp add: scale_def Let_def)

text \<open>
  Locking profits can halt trading. \<open>lock_profits\<close> takes the amount out of the current capital and
  leaves the peak, so a lock of at least the drawdown limit's share of the equity, made at the
  equity's high and without any loss, makes \<open>decide_trade_allowed\<close> refuse every trade and trip the
  kill switch.
\<close>

lemma locked_profit_halts:
  assumes "cs_peak (cm_state cm) = cs_current (cm_state cm)" "0 < cs_initial (cm_state cm)"
    and "cs_initial (cm_state cm) < cs_current (cm_state cm)"
    and "cm_max_dd cm * cs_current (cm_state cm) \<le> round_to 2 ((cs_current (cm_state cm) - cs_initial (cm_state cm)) * lock_pct)"
    and "0 \<le> cm_max_dd cm" "cm_max_daily_loss cm < cs_daily_pnl (cm_state cm)"
  shows "case decide_trade_allowed (snd (cm_lock_profits lock_pct cm)) sf of
    ((allowed, msg), sf') \<Rightarrow> \<not> allowed \<and> is_hard_halted sf'"
proof -
  let ?st = "cm_state cm" and ?a = "round_to 2 ((cs_current (cm_state cm) - cs_initial (cm_state cm)) * lock_pct)"
  let ?cm = "cm\<lparr>cm_state := ?st\<lparr>cs_current := cs_current ?st - ?a, cs_locked := cs_locked ?st + ?a\<rparr>\<rparr>"
  have l: "snd (cm_lock_profits lock_pct cm) = ?cm" using assms(3) by (simp add: cm_lock_profits_def Let_def)
  have "cm_max_dd cm \<le> ?a / cs_current ?st" using assms by (simp add: le_divide_eq)
  then have "cm_max_dd ?cm \<le> drawdown_pct_unlocked (cm_state ?cm)"
    using assms(1-3) by (simp add: drawdown_pct_unlocked_def)
  with assms(6) show ?thesis
    unfolding l by (simp add: decide_trade_allowed_def Let_def trip_hard_halt_def is_hard_halted_def)
qed

end
