(* ===== verification/Position_Sizing.thy ===== *)
theory Position_Sizing
  imports Py_Numbers
begin

text \<open>
  Signal tiers and tier-based position sizing: \<open>core/tier_engine.py\<close> and \<open>core/position_sizer.py\<close>. The
  text \<open>reasoning\<close> of a position spec, meant for display, is left out.
\<close>

section \<open>Definitions\<close>

subsection \<open>Tiers\<close>

definition classify_tier :: "int \<Rightarrow> int \<Rightarrow> int \<Rightarrow> int \<Rightarrow> string" where
  "classify_tier strong_min moderate_min weak_min score =
     (if score \<ge> strong_min then ''STRONG'' else if score \<ge> moderate_min then ''MODERATE''
      else if score \<ge> weak_min then ''WEAK'' else ''IGNORE'')"

text \<open>The tier with the module's boundaries.\<close>

abbreviation tier_of :: "int \<Rightarrow> string" where "tier_of \<equiv> classify_tier 80 70 60"

record tier_rules =
  tr_tier :: string
  tr_position_pct :: real
  tr_sl_mult_adj :: real
  tr_tp_mult_adj :: real
  tr_trail_enabled :: bool
  tr_trail_activate_pct :: real
  tr_trail_from_peak_pct :: real
  tr_max_bars_mult :: real
  tr_partial_exit_enabled :: bool
  tr_partial_exit_pct :: real

definition TIER_RULES :: "(string, tier_rules) dict" where
  "TIER_RULES =
     [(''STRONG'', \<lparr>tr_tier = ''STRONG'', tr_position_pct = 1, tr_sl_mult_adj = 1, tr_tp_mult_adj = 1,
        tr_trail_enabled = True, tr_trail_activate_pct = 30 / 100, tr_trail_from_peak_pct = 20 / 100,
        tr_max_bars_mult = 1, tr_partial_exit_enabled = False, tr_partial_exit_pct = 0\<rparr>),
      (''MODERATE'', \<lparr>tr_tier = ''MODERATE'', tr_position_pct = 60 / 100, tr_sl_mult_adj = 90 / 100, tr_tp_mult_adj = 85 / 100,
        tr_trail_enabled = True, tr_trail_activate_pct = 20 / 100, tr_trail_from_peak_pct = 25 / 100,
        tr_max_bars_mult = 75 / 100, tr_partial_exit_enabled = True, tr_partial_exit_pct = 50 / 100\<rparr>),
      (''WEAK'', \<lparr>tr_tier = ''WEAK'', tr_position_pct = 30 / 100, tr_sl_mult_adj = 80 / 100, tr_tp_mult_adj = 65 / 100,
        tr_trail_enabled = False, tr_trail_activate_pct = 1, tr_trail_from_peak_pct = 50 / 100,
        tr_max_bars_mult = 50 / 100, tr_partial_exit_enabled = True, tr_partial_exit_pct = 75 / 100\<rparr>),
      (''IGNORE'', \<lparr>tr_tier = ''IGNORE'', tr_position_pct = 0, tr_sl_mult_adj = 1, tr_tp_mult_adj = 1,
        tr_trail_enabled = False, tr_trail_activate_pct = 1, tr_trail_from_peak_pct = 1,
        tr_max_bars_mult = 0, tr_partial_exit_enabled = False, tr_partial_exit_pct = 0\<rparr>)]"

text \<open>\<open>TIER_RULES[...]\<close>; the tier of a score is always a key.\<close>

definition get_tier_rules :: "int \<Rightarrow> int \<Rightarrow> int \<Rightarrow> int \<Rightarrow> exn + tier_rules" where
  "get_tier_rules strong_min moderate_min weak_min score =
     (let k = classify_tier strong_min moderate_min weak_min score
      in case map_of TIER_RULES k of None \<Rightarrow> Inl (Exn KeyError k) | Some r \<Rightarrow> Inr r)"

definition regime_threshold_adj :: "(string, int) dict" where
  "regime_threshold_adj =
     [(''TRENDING'', - 5), (''NEUTRAL'', 0), (''SIDEWAYS'', 5), (''CHOPPY'', 10), (''HIGH_VOLATILITY'', 8), (''EVENT'', 15)]"

definition adaptive_threshold :: "int \<Rightarrow> string \<Rightarrow> int" where
  "adaptive_threshold base regime = base + (case map_of regime_threshold_adj regime of None \<Rightarrow> 0 | Some a \<Rightarrow> a)"

subsection \<open>Position sizer\<close>

definition regime_size_adj :: "(string, real) dict" where
  "regime_size_adj =
     [(''TRENDING'', 1), (''NEUTRAL'', 90 / 100), (''SIDEWAYS'', 75 / 100), (''CHOPPY'', 50 / 100),
      (''HIGH_VOLATILITY'', 65 / 100), (''EVENT'', 30 / 100), (''SIM'', 90 / 100)]"

definition tier_ranges :: "(string, int \<times> int) dict" where
  "tier_ranges = [(''STRONG'', (80, 100)), (''MODERATE'', (70, 79)), (''WEAK'', (60, 69)), (''IGNORE'', (0, 59))]"

definition regime_adj :: "string \<Rightarrow> real" where
  "regime_adj regime = (case map_of regime_size_adj regime of None \<Rightarrow> 90 / 100 | Some a \<Rightarrow> a)"

record position_spec =
  ps_tier :: string
  ps_regime :: string
  ps_score :: int
  ps_tier_base_pct :: real
  ps_regime_adj :: real
  ps_score_adj :: real
  ps_effective_pct :: real
  ps_lots :: int

definition score_norm :: "string \<Rightarrow> int \<Rightarrow> real" where
  "score_norm tier score =
     (let (lo, hi) = (case map_of tier_ranges tier of None \<Rightarrow> (60, 100) | Some r \<Rightarrow> r)
      in max 0 (min 1 (if hi > lo then of_int (score - lo) / of_int (hi - lo) else if score \<ge> hi then 1 else 0)))"

definition capital_lots :: "real \<Rightarrow> int \<Rightarrow> int" where
  "capital_lots capital max_lots =
     (if capital < 100000 \<and> capital > 0 then max 1 (py_trunc (of_int max_lots * (capital / 100000))) else max_lots)"

definition ps_calculate :: "int \<Rightarrow> string \<Rightarrow> string \<Rightarrow> int \<Rightarrow> real \<Rightarrow> position_spec" where
  "ps_calculate score tier regime max_lots capital =
     (case map_of TIER_RULES tier of
        None \<Rightarrow> \<lparr>ps_tier = tier, ps_regime = regime, ps_score = score, ps_tier_base_pct = 0, ps_regime_adj = 0,
                 ps_score_adj = 0, ps_effective_pct = 0, ps_lots = 0\<rparr>
      | Some rules \<Rightarrow>
          if tr_position_pct rules = 0
          then \<lparr>ps_tier = tier, ps_regime = regime, ps_score = score, ps_tier_base_pct = 0, ps_regime_adj = 0,
                ps_score_adj = 0, ps_effective_pct = 0, ps_lots = 0\<rparr>
          else
            let base = tr_position_pct rules;
                adj = regime_adj regime;
                score_adj = 90 / 100 + score_norm tier score * (20 / 100);
                eff = max 0 (min 1 (round_to 4 (base * adj * score_adj)))
            in \<lparr>ps_tier = tier, ps_regime = regime, ps_score = score, ps_tier_base_pct = base, ps_regime_adj = adj,
                ps_score_adj = score_adj, ps_effective_pct = eff,
                ps_lots = max 1 (py_trunc (eff * of_int (max 1 (capital_lots capital max_lots))))\<rparr>)"

section \<open>Lemmas\<close>

lemma regime_adj_range: "0 < regime_adj regime \<and> regime_adj regime \<le> 1"
  by (simp add: regime_adj_def regime_size_adj_def)

lemma score_norm_range: "0 \<le> score_norm tier score \<and> score_norm tier score \<le> 1"
  by (auto simp: score_norm_def Let_def split: prod.split)

lemma score_norm_mono: "s \<le> t \<Longrightarrow> score_norm tier s \<le> score_norm tier t"
proof -
  assume st: "s \<le> t"
  obtain lo hi where r: "(case map_of tier_ranges tier of None \<Rightarrow> (60, 100) | Some r \<Rightarrow> r) = (lo, hi)" by fastforce
  have le: "(if hi > lo then of_int (s - lo) / of_int (hi - lo) else if s \<ge> hi then 1 else 0) \<le>
      (if hi > lo then of_int (t - lo) / of_int (hi - lo) else if t \<ge> hi then 1 else 0 :: real)"
    using st by (auto simp: divide_right_mono)
  show ?thesis unfolding score_norm_def r Let_def prod.case by (intro max.mono min.mono order.refl le)
qed

text \<open>The share of a tradeable tier before rounding.\<close>

definition tier_share :: "int \<Rightarrow> real" where
  "tier_share score =
     (if score \<ge> 80 then 1 * (90 / 100 + score_norm ''STRONG'' score * (20 / 100))
      else if score \<ge> 70 then 60 / 100 * (90 / 100 + score_norm ''MODERATE'' score * (20 / 100))
      else if score \<ge> 60 then 30 / 100 * (90 / 100 + score_norm ''WEAK'' score * (20 / 100))
      else 0)"

lemma tier_share_mono: "s \<le> t \<Longrightarrow> tier_share s \<le> tier_share t"
  using score_norm_mono [of s t "''STRONG''"] score_norm_mono [of s t "''MODERATE''"] score_norm_mono [of s t "''WEAK''"]
    score_norm_range [of "''STRONG''" t] score_norm_range [of "''MODERATE''" s] score_norm_range [of "''MODERATE''" t]
    score_norm_range [of "''WEAK''" s] score_norm_range [of "''WEAK''" t]
  by (auto simp: tier_share_def)

lemma tier_share_nonneg: "0 \<le> tier_share s"
  using score_norm_range [of "''STRONG''" s] score_norm_range [of "''MODERATE''" s] score_norm_range [of "''WEAK''" s]
  by (simp add: tier_share_def)

lemma tier_rules_of:
  "\<exists>rules. map_of TIER_RULES (tier_of s) = Some rules \<and> (tr_position_pct rules = 0 \<longleftrightarrow> s < 60) \<and>
     (60 \<le> s \<longrightarrow> tr_position_pct rules * (90 / 100 + score_norm (tier_of s) s * (20 / 100)) = tier_share s)"
  by (simp add: classify_tier_def TIER_RULES_def tier_share_def)

lemma lots_by_share:
  "ps_lots (ps_calculate score (tier_of score) regime max_lots capital) =
     (if score < 60 then 0
      else max 1 (py_trunc (max 0 (min 1 (round_to 4 (regime_adj regime * tier_share score)))
             * of_int (max 1 (capital_lots capital max_lots)))))"
proof -
  obtain rules where r: "map_of TIER_RULES (tier_of score) = Some rules" "tr_position_pct rules = 0 \<longleftrightarrow> score < 60"
    and e: "60 \<le> score \<longrightarrow> tr_position_pct rules * (90 / 100 + score_norm (tier_of score) score * (20 / 100)) = tier_share score"
    using tier_rules_of [of score] by blast
  show ?thesis
  proof (cases "score < 60")
    case True
    with r show ?thesis by (simp add: ps_calculate_def)
  next
    case False
    then have "tier_share score = tr_position_pct rules * (90 / 100 + score_norm (tier_of score) score * (20 / 100))"
      using e by simp
    then have "tr_position_pct rules * regime_adj regime * (90 / 100 + score_norm (tier_of score) score * (20 / 100)) =
        regime_adj regime * tier_share score" by (simp only: mult_ac)
    with False r show ?thesis by (simp only: ps_calculate_def option.case Let_def if_False position_spec.select_convs)
  qed
qed

lemma capital_lots_le: "capital_lots capital max_lots \<le> max 1 max_lots"
proof (cases "capital < 100000 \<and> capital > 0")
  case True
  have "of_int max_lots * (capital / 100000) \<le> of_int (max 1 max_lots) * 1"
    using True by (intro mult_mono) simp_all
  then have "py_trunc (of_int max_lots * (capital / 100000)) \<le> max 1 max_lots" by (intro py_trunc_le_int) simp
  with True show ?thesis by (simp add: capital_lots_def)
next
  case False
  then have "capital_lots capital max_lots = max_lots" unfolding capital_lots_def by (rule if_not_P)
  then show ?thesis by simp
qed

section \<open>Properties\<close>

text \<open>
  A better score never gets a smaller position. With the tier of its score, the position for a
  fixed regime, capital and lot limit grows with the score across the tier boundaries; it is 0
  exactly below a score of 60, and never more than the larger of one lot and the limit.
\<close>

lemma tier_sizing_monotone:
  assumes "s \<le> t"
  shows "ps_lots (ps_calculate s (tier_of s) regime max_lots capital) \<le> ps_lots (ps_calculate t (tier_of t) regime max_lots capital) \<and>
    (ps_lots (ps_calculate s (tier_of s) regime max_lots capital) = 0 \<longleftrightarrow> s < 60) \<and>
    ps_lots (ps_calculate s (tier_of s) regime max_lots capital) \<le> max 1 max_lots"
proof -
  define m where "m = max 1 (capital_lots capital max_lots)"
  define e where "e u = max 0 (min 1 (round_to 4 (regime_adj regime * tier_share u)))" for u
  have lots: "ps_lots (ps_calculate u (tier_of u) regime max_lots capital) = (if u < 60 then 0 else max 1 (py_trunc (e u * of_int m)))" for u
    unfolding lots_by_share e_def m_def ..
  have "regime_adj regime * tier_share s \<le> regime_adj regime * tier_share t"
    using tier_share_mono [OF assms] regime_adj_range [of regime] by (intro mult_left_mono) simp_all
  then have "e s \<le> e t" unfolding e_def by (intro max.mono min.mono order.refl round_to_mono)
  moreover have e: "0 \<le> e u \<and> e u \<le> 1" for u by (simp add: e_def)
  moreover have m1: "1 \<le> m" by (simp add: m_def)
  ultimately have "e s * of_int m \<le> e t * of_int m" "0 \<le> e s * of_int m" "e s * of_int m \<le> 1 * of_int m"
    by (simp_all add: mult_right_mono del: mult_1)
  then have "py_trunc (e s * of_int m) \<le> py_trunc (e t * of_int m)" "py_trunc (e s * of_int m) \<le> m"
    by (simp_all add: py_trunc_mono py_trunc_le_int)
  moreover have "m \<le> max 1 max_lots" unfolding m_def using capital_lots_le by simp
  ultimately show ?thesis using assms by (simp add: lots) linarith
qed

end
