(* ===== verification/Risk_Service.thy ===== *)
theory Risk_Service
  imports Exn_Monad Py_Values Greeks_Engine Capital_Manager Position_Sizing
begin

text \<open>
  The risk service, \<open>core/services/risk_service.py\<close>, with the data classes of
  \<open>core/ports/risk/risk_port.py\<close>, the number coercion of \<open>core/utils_numeric.py\<close> and the managers
  \<open>core/risk/limits/manager.py\<close> and \<open>core/risk/sizing/manager.py\<close>.

  The state is the record \<open>risk_service\<close> together with the process-wide safety state, which the
  service reads (loss counter) and changes (kill switch, loss counter). The injected callbacks and
  the clock are the record \<open>risk_env\<close>, constant during one call: a callback may raise. A signal is a
  dictionary of JSON scalars. The Greeks engine is created with its default configuration and never
  reconfigured by the service. The health report, logging and the legacy fallback of the VIX getter
  are left out.
\<close>

section \<open>Definitions\<close>

subsection \<open>Data\<close>

text \<open>\<open>safe_float(v, default)\<close>: \<open>None\<close> where the default is returned.\<close>

definition safe_float :: "jval \<Rightarrow> real option" where
  "safe_float v = (case py_float v of Inr (Fin x) \<Rightarrow> Some x | _ \<Rightarrow> None)"

definition safe_num :: "jval \<Rightarrow> real \<Rightarrow> real" where
  "safe_num v d = (case safe_float v of None \<Rightarrow> d | Some x \<Rightarrow> x)"

datatype risk_decision = RD_ALLOWED | RD_DENIED

record risk_evaluation =
  ev_decision :: risk_decision
  ev_reason :: string
  ev_recommended :: "int option"
  ev_max_allowed :: "int option"
  ev_score :: real

definition risk_eval :: "risk_decision \<Rightarrow> string \<Rightarrow> real \<Rightarrow> risk_evaluation" where
  "risk_eval d reason score = \<lparr>ev_decision = d, ev_reason = reason, ev_recommended = None, ev_max_allowed = None, ev_score = score\<rparr>"

record sizing_input =
  si_symbol :: string
  si_entry_price :: real
  si_stop_loss_price :: real
  si_capital_available :: real
  si_risk_per_trade :: real
  si_lot_size :: int
  si_volatility :: real
  si_existing_exposure :: real

record risk_metrics =
  pm_total_capital :: real
  pm_used_capital :: real
  pm_available_capital :: real
  pm_daily_pnl :: real
  pm_max_daily_loss :: real
  pm_current_drawdown :: real
  pm_max_drawdown :: real
  pm_open_positions :: int
  pm_max_open_positions :: int
  pm_consecutive_losses :: int
  pm_max_consecutive_losses :: int
  pm_sector_exposure :: "(string, real) dict"
  pm_symbol_exposure :: "(string, real) dict"

record limit_config =
  lc_max_daily_loss :: real
  lc_max_daily_trades :: int
  lc_max_open_positions :: int
  lc_max_portfolio_risk :: real
  lc_max_consecutive_losses :: int

record risk_config =
  rk_default_risk :: real
  rk_max_risk :: real
  rk_risk_mode :: string
  rk_risk_fixed_amount :: real
  rk_max_daily_loss :: real
  rk_max_daily_trades :: int
  rk_max_open_positions :: int
  rk_max_portfolio_risk :: real
  rk_max_consecutive_losses :: int
  rk_loss_reset_hours :: int
  rk_vix_low :: real
  rk_vix_high :: real
  rk_vix_mult_low :: real
  rk_vix_mult_high :: real
  rk_margin_safety :: real
  rk_min_volume_ratio :: real
  rk_max_spread_pct :: real
  rk_max_drawdown_pct :: real
  rk_drawdown_scale :: bool
  rk_vix_scale :: bool
  rk_portfolio_sl_pct :: real
  rk_single_loss_pct :: real
  rk_vix_halt :: real

definition default_risk_config :: risk_config where
  "default_risk_config =
     \<lparr>rk_default_risk = 2 / 100, rk_max_risk = 5 / 100, rk_risk_mode = ''PERCENT'', rk_risk_fixed_amount = 150,
      rk_max_daily_loss = - 2000, rk_max_daily_trades = 10, rk_max_open_positions = 1, rk_max_portfolio_risk = 25 / 100,
      rk_max_consecutive_losses = 3, rk_loss_reset_hours = 6, rk_vix_low = 15, rk_vix_high = 35, rk_vix_mult_low = 12 / 10,
      rk_vix_mult_high = 6 / 10, rk_margin_safety = 8 / 10, rk_min_volume_ratio = 5 / 10, rk_max_spread_pct = 2,
      rk_max_drawdown_pct = 20 / 100, rk_drawdown_scale = True, rk_vix_scale = True, rk_portfolio_sl_pct = 75 / 100,
      rk_single_loss_pct = 8 / 100, rk_vix_halt = 30\<rparr>"

record risk_position =
  rp_quantity :: int
  rp_entry_price :: real
  rp_market_value :: real
  rp_timestamp :: real
  rp_symbol :: string
  rp_option_type :: string
  rp_strike :: real
  rp_iv :: real
  rp_tte_days :: real

record risk_service =
  rs_config :: risk_config
  rs_limits :: limit_config
  rs_index_map :: "(string, jdict) dict"
  rs_last_loss_reset :: real
  rs_peak_pnl :: real
  rs_max_drawdown :: real
  rs_positions :: "(string, risk_position) dict"
  rs_entries :: "real list"
  rs_capital :: "capital_manager option"

record risk_env =
  rv_time :: real
  rv_get_capital :: "exn + real"
  rv_get_open_positions :: "exn + int"
  rv_get_daily_pnl :: "exn + real"
  rv_get_volatility :: "string \<Rightarrow> exn + real"
  rv_get_margin :: "string \<Rightarrow> real \<Rightarrow> exn + real"
  rv_get_live_vix :: "exn + real"
  rv_repr :: "real \<Rightarrow> string"
  rv_erf :: "real \<Rightarrow> real"

type_synonym risk_state = "risk_service \<times> safety"

definition new_risk_service :: "risk_config \<Rightarrow> (string, jdict) dict \<Rightarrow> real \<Rightarrow> risk_service" where
  "new_risk_service cfg index_map now =
     \<lparr>rs_config = cfg,
      rs_limits = \<lparr>lc_max_daily_loss = rk_max_daily_loss cfg, lc_max_daily_trades = rk_max_daily_trades cfg,
        lc_max_open_positions = rk_max_open_positions cfg, lc_max_portfolio_risk = rk_max_portfolio_risk cfg,
        lc_max_consecutive_losses = rk_max_consecutive_losses cfg\<rparr>,
      rs_index_map = index_map, rs_last_loss_reset = now, rs_peak_pnl = 0, rs_max_drawdown = 0, rs_positions = [],
      rs_entries = [], rs_capital = None\<rparr>"

subsection \<open>Runtime limits\<close>

datatype limit_key = LK_DAILY_LOSS | LK_TRADES | LK_OPEN | LK_PORTFOLIO | LK_LOSSES

datatype limit_value = LV_float real | LV_int int

definition limit_keys :: "(string, limit_key) dict" where
  "limit_keys = [(''MAX_DAILY_LOSS'', LK_DAILY_LOSS), (''MAX_TRADES_DAY'', LK_TRADES), (''MAX_OPEN'', LK_OPEN),
     (''MAX_PORTFOLIO_RISK'', LK_PORTFOLIO), (''MAX_CONSECUTIVE_LOSSES'', LK_LOSSES)]"

text \<open>Whether the limit is an integer, its minimum and its maximum, as number and as printed.\<close>

fun limit_spec :: "limit_key \<Rightarrow> bool \<times> (real \<times> string) option \<times> (real \<times> string) option" where
  "limit_spec LK_DAILY_LOSS = (False, None, Some (- 1 / 1000000, ''-1e-06''))"
| "limit_spec LK_TRADES = (True, Some (1, ''1''), None)"
| "limit_spec LK_OPEN = (True, Some (1, ''1''), None)"
| "limit_spec LK_PORTFOLIO = (False, Some (0, ''0.0''), Some (1, ''1.0''))"
| "limit_spec LK_LOSSES = (True, Some (1, ''1''), None)"

fun limit_real :: "limit_value \<Rightarrow> real" where
  "limit_real (LV_float x) = x"
| "limit_real (LV_int i) = of_int i"

text \<open>The conversion; every failure is a \<open>ValueError\<close>.\<close>

definition convert_limit :: "string \<Rightarrow> bool \<Rightarrow> jval \<Rightarrow> exn + limit_value" where
  "convert_limit key is_int v =
     (let invalid = Inl (Exn ValueError (''Invalid value for '' @ key @ '': '' @ py_str v))
      in case py_float v of
          Inl e \<Rightarrow> invalid
        | Inr (Fin x) \<Rightarrow>
            if is_int then (if x = of_int (py_trunc x) then Inr (LV_int (py_trunc x)) else invalid) else Inr (LV_float x)
        | Inr _ \<Rightarrow> if is_int then invalid else Inl (Exn ValueError (key @ '' must be a finite numeric value'')))"

fun get_limit :: "limit_key \<Rightarrow> risk_config \<Rightarrow> limit_value" where
  "get_limit LK_DAILY_LOSS c = LV_float (rk_max_daily_loss c)"
| "get_limit LK_TRADES c = LV_int (rk_max_daily_trades c)"
| "get_limit LK_OPEN c = LV_int (rk_max_open_positions c)"
| "get_limit LK_PORTFOLIO c = LV_float (rk_max_portfolio_risk c)"
| "get_limit LK_LOSSES c = LV_int (rk_max_consecutive_losses c)"

fun set_limit :: "limit_key \<Rightarrow> limit_value \<Rightarrow> risk_service \<Rightarrow> risk_service" where
  "set_limit LK_DAILY_LOSS (LV_float x) s =
     s\<lparr>rs_config := (rs_config s)\<lparr>rk_max_daily_loss := x\<rparr>, rs_limits := (rs_limits s)\<lparr>lc_max_daily_loss := x\<rparr>\<rparr>"
| "set_limit LK_TRADES (LV_int n) s =
     s\<lparr>rs_config := (rs_config s)\<lparr>rk_max_daily_trades := n\<rparr>, rs_limits := (rs_limits s)\<lparr>lc_max_daily_trades := n\<rparr>\<rparr>"
| "set_limit LK_OPEN (LV_int n) s =
     s\<lparr>rs_config := (rs_config s)\<lparr>rk_max_open_positions := n\<rparr>, rs_limits := (rs_limits s)\<lparr>lc_max_open_positions := n\<rparr>\<rparr>"
| "set_limit LK_PORTFOLIO (LV_float x) s =
     s\<lparr>rs_config := (rs_config s)\<lparr>rk_max_portfolio_risk := x\<rparr>, rs_limits := (rs_limits s)\<lparr>lc_max_portfolio_risk := x\<rparr>\<rparr>"
| "set_limit LK_LOSSES (LV_int n) s =
     s\<lparr>rs_config := (rs_config s)\<lparr>rk_max_consecutive_losses := n\<rparr>, rs_limits := (rs_limits s)\<lparr>lc_max_consecutive_losses := n\<rparr>\<rparr>"
| "set_limit _ _ s = s"

definition update_risk_limit :: "string \<Rightarrow> jval \<Rightarrow> risk_service \<Rightarrow> (exn + limit_value \<times> limit_value) \<times> risk_service" where
  "update_risk_limit name v s =
     (let key = str_upper (str_strip name)
      in case map_of limit_keys key of
          None \<Rightarrow> (Inl (Exn ValueError (''Unsupported runtime risk limit: '' @ name)), s)
        | Some k \<Rightarrow>
            (case limit_spec k of (is_int, minimum, maximum) \<Rightarrow>
               (case convert_limit key is_int v of
                  Inl e \<Rightarrow> (Inl e, s)
                | Inr c \<Rightarrow>
                    (case (case minimum of Some (m, str) \<Rightarrow> if limit_real c < m then Some ('' must be >= '' @ str) else None | None \<Rightarrow> None,
                           case maximum of Some (m, str) \<Rightarrow> if limit_real c > m then Some ('' must be <= '' @ str) else None | None \<Rightarrow> None) of
                       (Some msg, _) \<Rightarrow> (Inl (Exn ValueError (key @ msg)), s)
                     | (None, Some msg) \<Rightarrow> (Inl (Exn ValueError (key @ msg)), s)
                     | (None, None) \<Rightarrow> (Inr (get_limit k (rs_config s), c), set_limit k c s)))))"

subsection \<open>Lookup helpers\<close>

definition lot_sizes_fallback :: "(string, int) dict" where
  "lot_sizes_fallback = [(''NIFTY'', 50), (''BANKNIFTY'', 15), (''FINNIFTY'', 40), (''SENSEX'', 10)]"

definition get_lot_size :: "risk_service \<Rightarrow> string \<Rightarrow> exn + int" where
  "get_lot_size s symbol =
     (let lot = jget (case map_of (rs_index_map s) (str_upper symbol) of None \<Rightarrow> [] | Some d \<Rightarrow> d) ''lot'' JNull;
          fallback = (case map_of lot_sizes_fallback symbol of None \<Rightarrow> 50 | Some n \<Rightarrow> n)
      in if jval_true lot
         then (case py_int lot of Inr n \<Rightarrow> Inr n | Inl e \<Rightarrow> if caught [TypeError, ValueError] e then Inr fallback else Inl e)
         else Inr fallback)"

definition get_sector_for_symbol :: "string \<Rightarrow> string" where
  "get_sector_for_symbol symbol =
     (case map_of
        [(''NIFTY'', ''INDEX''), (''BANKNIFTY'', ''INDEX''), (''FINNIFTY'', ''INDEX''), (''RELIANCE'', ''ENERGY''), (''TCS'', ''IT''),
         (''HDFCBANK'', ''FINANCIAL''), (''INFY'', ''IT''), (''ICICIBANK'', ''FINANCIAL''), (''KOTAKBANK'', ''FINANCIAL''),
         (''LT'', ''INDUSTRIAL''), (''SBIN'', ''FINANCIAL''), (''BHARTIARTL'', ''TELECOM''), (''ASIANPAINT'', ''CONSUMER''),
         (''MARUTI'', ''AUTOMOBILE''), (''HINDUNILVR'', ''CONSUMER''), (''AXISBANK'', ''FINANCIAL'')] symbol of
        None \<Rightarrow> ''OTHER'' | Some x \<Rightarrow> x)"

definition get_volatility_multiplier :: "risk_config \<Rightarrow> real \<Rightarrow> real" where
  "get_volatility_multiplier c v =
     (if v \<le> rk_vix_low c then rk_vix_mult_low c
      else if v \<ge> rk_vix_high c then rk_vix_mult_high c
      else let ratio = max 0 (min 1 ((v - rk_vix_low c) / (rk_vix_high c - rk_vix_low c)))
           in rk_vix_mult_low c + ratio * (rk_vix_mult_high c - rk_vix_mult_low c))"

definition get_vix_size_multiplier :: "risk_config \<Rightarrow> real \<Rightarrow> real" where
  "get_vix_size_multiplier c v = (if rk_vix_scale c then get_volatility_multiplier c v else 1)"

definition get_single_trade_loss_cap_lots :: "risk_config \<Rightarrow> real \<Rightarrow> real \<Rightarrow> int \<Rightarrow> int" where
  "get_single_trade_loss_cap_lots c capital price_diff lot =
     (if price_diff \<le> 0 \<or> lot \<le> 0 \<or> capital \<le> 0 then 10 ^ 9
      else max 0 (py_trunc (capital * rk_single_loss_pct c / (price_diff * of_int lot))))"

definition check_portfolio_sl_risk :: "risk_config \<Rightarrow> real \<Rightarrow> real \<Rightarrow> real \<Rightarrow> bool" where
  "check_portfolio_sl_risk c open_risk capital new_risk =
     (capital \<le> 0 \<or> open_risk + new_risk \<le> capital * rk_portfolio_sl_pct c)"

definition is_vix_soft_warning :: "risk_config \<Rightarrow> real \<Rightarrow> bool" where
  "is_vix_soft_warning c vix = (vix \<ge> rk_vix_halt c)"

subsection \<open>Position size\<close>

definition get_max_lots_per_trade :: "risk_env \<Rightarrow> risk_config \<Rightarrow> exn + int" where
  "get_max_lots_per_trade env c =
     res_bind (rv_get_capital env) (\<lambda>capital.
       Inr (max 1 (py_trunc (capital * rk_max_risk c / (5 / 100 * 1000 * 50)))))"

definition calculate_max_lots_by_portfolio :: "risk_config \<Rightarrow> sizing_input \<Rightarrow> int \<Rightarrow> int" where
  "calculate_max_lots_by_portfolio c i current_lots =
     (let max_risk = si_capital_available i * rk_max_portfolio_risk c;
          current_risk = si_capital_available i * si_risk_per_trade i
      in if current_risk \<le> 0 then current_lots
         else if current_risk > max_risk then max 1 (py_trunc (of_int current_lots * (max_risk / current_risk)))
         else current_lots)"

definition calculate_max_lots_by_capital :: "risk_config \<Rightarrow> sizing_input \<Rightarrow> int" where
  "calculate_max_lots_by_capital c i =
     (let max_risk = si_capital_available i * rk_max_risk c; price_diff = \<bar>si_entry_price i - si_stop_loss_price i\<bar>
      in if si_risk_per_trade i \<le> 0 then 0
         else if price_diff \<le> 0 \<or> si_lot_size i \<le> 0 then 0
         else max 0 (py_trunc (max_risk / (price_diff * of_int (si_lot_size i)))))"

definition sizing_risk_amount :: "risk_config \<Rightarrow> sizing_input \<Rightarrow> real" where
  "sizing_risk_amount c i =
     (if str_upper (rk_risk_mode c) = ''FIXED'' then rk_risk_fixed_amount c else si_capital_available i * si_risk_per_trade i)"

definition sizing_body :: "risk_env \<Rightarrow> risk_config \<Rightarrow> sizing_input \<Rightarrow> exn + int" where
  "sizing_body env c i =
     (let price_diff = \<bar>si_entry_price i - si_stop_loss_price i\<bar>
      in if si_stop_loss_price i \<le> 0 \<or> si_entry_price i \<le> 0 then Inr 0
         else if price_diff \<le> 0 then Inr 0
         else if price_diff * of_int (si_lot_size i) = 0 then Inl (Exn ZeroDivisionError ''float division by zero'')
         else
           let base_lots = max 1 (py_trunc (sizing_risk_amount c i / (price_diff * of_int (si_lot_size i))));
               adjusted = py_trunc (of_int base_lots * get_volatility_multiplier c (si_volatility i));
               by_portfolio = min adjusted (calculate_max_lots_by_portfolio c i adjusted)
           in res_bind (get_max_lots_per_trade env c) (\<lambda>per_trade.
                Inr (max 0 (min (min by_portfolio per_trade) (calculate_max_lots_by_capital c i)))))"

definition calculate_position_size :: "risk_env \<Rightarrow> risk_config \<Rightarrow> sizing_input \<Rightarrow> exn + int" where
  "calculate_position_size env c i =
     (case sizing_body env c i of
        Inl e \<Rightarrow> if caught [ZeroDivisionError, TypeError, ValueError, AttributeError] e then Inr 0 else Inl e
      | Inr n \<Rightarrow> Inr n)"

text \<open>The simpler sizing of \<open>PositionSizingManager\<close>, with the same volatility multiplier.\<close>

definition manager_calculate_size :: "sizing_input \<Rightarrow> real \<Rightarrow> int" where
  "manager_calculate_size i mult =
     (let price_diff = \<bar>si_entry_price i - si_stop_loss_price i\<bar>; d = price_diff * of_int (si_lot_size i)
      in if si_stop_loss_price i \<le> 0 \<or> si_entry_price i \<le> 0 \<or> price_diff \<le> 0 \<or> d = 0 then 0
         else max 0 (py_trunc (of_int (max 1 (py_trunc (si_capital_available i * si_risk_per_trade i / d))) * mult)))"

definition validate_margin_requirements :: "risk_env \<Rightarrow> risk_config \<Rightarrow> string \<Rightarrow> real \<Rightarrow> real \<Rightarrow> exn + bool" where
  "validate_margin_requirements env c symbol quantity capital =
     (if quantity \<le> 0 then Inr True
      else case rv_get_margin env symbol quantity of
          Inr required \<Rightarrow> Inr (required \<le> capital * rk_margin_safety c)
        | Inl e \<Rightarrow> if caught [TypeError, ValueError, AttributeError, OSError] e then Inr False else Inl e)"

subsection \<open>Portfolio metrics\<close>

definition add_exposure :: "(string, real) dict \<Rightarrow> string \<Rightarrow> real \<Rightarrow> (string, real) dict" where
  "add_exposure d k x = dict_set k ((case map_of d k of None \<Rightarrow> 0 | Some y \<Rightarrow> y) + x) d"

definition exposure_total :: "(string, risk_position) dict \<Rightarrow> real" where
  "exposure_total ps = sum_list (map (\<lambda>(k, p). rp_market_value p) ps)"

definition fail_closed_metrics :: "risk_config \<Rightarrow> risk_metrics" where
  "fail_closed_metrics c =
     \<lparr>pm_total_capital = 0, pm_used_capital = 0, pm_available_capital = 0, pm_daily_pnl = - 999999,
      pm_max_daily_loss = rk_max_daily_loss c, pm_current_drawdown = 1, pm_max_drawdown = 0, pm_open_positions = 999,
      pm_max_open_positions = 0, pm_consecutive_losses = 999, pm_max_consecutive_losses = rk_max_consecutive_losses c,
      pm_sector_exposure = [], pm_symbol_exposure = []\<rparr>"

definition get_portfolio_risk_metrics :: "risk_env \<Rightarrow> risk_state \<Rightarrow> (exn + risk_metrics) \<times> risk_state" where
  "get_portfolio_risk_metrics env =
     x_try
       (x_bind (x_lift (rv_get_capital env)) (\<lambda>capital.
        x_bind (x_lift (rv_get_daily_pnl env)) (\<lambda>pnl.
        x_bind (x_lift (rv_get_open_positions env)) (\<lambda>open_positions.
          (\<lambda>(s, sf).
             let drawdown = rs_peak_pnl s - pnl;
                 s' = s\<lparr>rs_peak_pnl := (if pnl > rs_peak_pnl s then pnl else rs_peak_pnl s),
                        rs_max_drawdown := (if drawdown > rs_max_drawdown s then drawdown else rs_max_drawdown s)\<rparr>;
                 used = exposure_total (rs_positions s)
             in (Inr \<lparr>pm_total_capital = capital, pm_used_capital = used, pm_available_capital = max 0 (capital - used),
                      pm_daily_pnl = pnl, pm_max_daily_loss = rk_max_daily_loss (rs_config s), pm_current_drawdown = drawdown,
                      pm_max_drawdown = rs_max_drawdown s', pm_open_positions = open_positions,
                      pm_max_open_positions = rk_max_open_positions (rs_config s), pm_consecutive_losses = sf_losses sf,
                      pm_max_consecutive_losses = rk_max_consecutive_losses (rs_config s),
                      pm_sector_exposure =
                        fold (\<lambda>(k, p) d. add_exposure d (get_sector_for_symbol k) (rp_market_value p)) (rs_positions s) [],
                      pm_symbol_exposure = map (\<lambda>(k, p). (k, rp_market_value p)) (rs_positions s)\<rparr>,
                 s', sf))))))
       [KeyError, TypeError, ValueError, ZeroDivisionError]
       (\<lambda>e (s, sf). (Inr (fail_closed_metrics (rs_config s)), s, sf))"

definition estimate_portfolio_risk :: "risk_env \<Rightarrow> risk_state \<Rightarrow> (exn + real) \<times> risk_state" where
  "estimate_portfolio_risk env =
     x_try
       (x_bind (get_portfolio_risk_metrics env)
         (\<lambda>m. x_ret (if pm_total_capital m \<le> 0 then 0 else pm_used_capital m / pm_total_capital m)))
       [TypeError, ValueError, ZeroDivisionError, AttributeError]
       (\<lambda>e. x_ret 0)"

subsection \<open>Checks\<close>

definition trip :: "string \<Rightarrow> string \<Rightarrow> risk_state \<Rightarrow> (exn + unit) \<times> risk_state" where
  "trip reason source = x_upd (\<lambda>(s, sf). (s, trip_hard_halt reason source sf))"

definition check_daily_loss_limit :: "risk_env \<Rightarrow> risk_metrics \<Rightarrow> risk_state \<Rightarrow> (exn + risk_evaluation) \<times> risk_state" where
  "check_daily_loss_limit env pm st =
     (let limit = rk_max_daily_loss (rs_config (fst st)); pnl = pm_daily_pnl pm
      in if pnl \<le> limit
         then x_bind (trip (''Daily loss limit breached: '' @ rv_repr env pnl @ '' <= '' @ rv_repr env limit)
                        ''RiskService._check_daily_loss_limit'')
                (\<lambda>_. x_ret (risk_eval RD_DENIED (''Daily loss limit reached: '' @ fmt_f 2 pnl @ '' <= '' @ fmt_f 2 limit) 1)) st
         else x_ret (risk_eval RD_ALLOWED ''Daily loss limit check passed'' 0) st)"

definition check_consecutive_losses :: "risk_metrics \<Rightarrow> risk_state \<Rightarrow> (exn + risk_evaluation) \<times> risk_state" where
  "check_consecutive_losses pm st =
     (let limit = rk_max_consecutive_losses (rs_config (fst st)); n = pm_consecutive_losses pm
      in if n \<ge> limit
         then x_bind (trip (''Consecutive loss limit breached: '' @ show_int n @ '' >= '' @ show_int limit)
                        ''RiskService._check_consecutive_losses'')
                (\<lambda>_. x_ret (risk_eval RD_DENIED (''Consecutive loss limit reached: '' @ show_int n @ '' >= '' @ show_int limit) 1)) st
         else x_ret (risk_eval RD_ALLOWED ''Consecutive loss limit check passed'' 0) st)"

text \<open>\<open>now.replace(hour=0, minute=0, second=0, microsecond=0)\<close> of an instant in IST (UTC + 5:30).\<close>

definition ist_midnight :: "real \<Rightarrow> real" where
  "ist_midnight t = of_int \<lfloor>(t + 19800) / 86400\<rfloor> * 86400 - 19800"

definition record_trade_entry :: "real \<Rightarrow> risk_service \<Rightarrow> risk_service" where
  "record_trade_entry now s = s\<lparr>rs_entries := rs_entries s @ [now]\<rparr>"

definition get_trades_today :: "real \<Rightarrow> risk_service \<Rightarrow> int" where
  "get_trades_today now s = int (length (filter (\<lambda>t. t \<ge> ist_midnight now) (rs_entries s)))"

definition check_daily_trade_count :: "risk_env \<Rightarrow> risk_state \<Rightarrow> (exn + risk_evaluation) \<times> risk_state" where
  "check_daily_trade_count env st =
     (let n = get_trades_today (rv_time env) (fst st); limit = rk_max_daily_trades (rs_config (fst st))
      in x_ret (if n \<ge> limit
                then risk_eval RD_DENIED (''Daily trade count limit reached: '' @ show_int n @ '' >= '' @ show_int limit) (8 / 10)
                else risk_eval RD_ALLOWED ''Daily trade count check passed'' 0) st)"

definition check_portfolio_limits :: "risk_env \<Rightarrow> risk_metrics \<Rightarrow> risk_state \<Rightarrow> (exn + risk_evaluation) \<times> risk_state" where
  "check_portfolio_limits env pm st =
     (let c = rs_config (fst st)
      in if pm_open_positions pm \<ge> rk_max_open_positions c
         then x_ret (risk_eval RD_DENIED (''Maximum open positions reached: '' @ show_int (pm_open_positions pm) @ '' >= ''
                       @ show_int (rk_max_open_positions c)) (8 / 10)) st
         else x_bind (estimate_portfolio_risk env)
                (\<lambda>risk. x_ret (if risk > rk_max_portfolio_risk c
                   then risk_eval RD_DENIED (''Portfolio risk limit reached: '' @ fmt_pct 2 risk @ '' > ''
                          @ fmt_pct 2 (rk_max_portfolio_risk c)) (9 / 10)
                   else risk_eval RD_ALLOWED ''Portfolio limits check passed'' (1 / 10))) st)"

text \<open>\<open>signal_data.get("direction", "").upper()\<close>\<close>

definition signal_direction :: "jdict \<Rightarrow> exn + string" where
  "signal_direction sd =
     (case jget sd ''direction'' (JStr []) of
        JStr d \<Rightarrow> Inr (str_upper d)
      | _ \<Rightarrow> Inl (Exn AttributeError ''object has no attribute upper''))"

definition existing_greeks :: "(string, risk_position) dict \<Rightarrow> greeks_input list" where
  "existing_greeks ps =
     map (\<lambda>(k, p). \<lparr>gi_symbol = k, gi_option_type = (if str_upper (rp_option_type p) = ''CE'' then CE else PE),
                    gi_direction = (if rp_quantity p \<ge> 0 then ''LONG'' else ''SHORT''), gi_spot = rp_entry_price p,
                    gi_strike = rp_strike p, gi_tte_days = rp_tte_days p, gi_iv = rp_iv p,
                    gi_quantity_lots = max 1 \<bar>rp_quantity p\<bar>, gi_rate = 65 / 1000\<rparr>) ps"

fun join_reasons :: "string list \<Rightarrow> string" where
  "join_reasons [] = []"
| "join_reasons [r] = r"
| "join_reasons (r # rs) = r @ ''; '' @ join_reasons rs"

definition proposed_greeks :: "string \<Rightarrow> jdict \<Rightarrow> string \<Rightarrow> option_type \<Rightarrow> real \<Rightarrow> greeks_input" where
  "proposed_greeks symbol sd direction ot entry_price =
     \<lparr>gi_symbol = symbol, gi_option_type = ot,
      gi_direction = (if direction = ''SHORT'' \<or> direction = ''SELL'' then ''SHORT'' else ''LONG''),
      gi_spot = entry_price, gi_strike = safe_num (jget sd ''strike'' JNull) entry_price,
      gi_tte_days = safe_num (jget sd ''tte_days'' JNull) 3, gi_iv = safe_num (jget sd ''iv'' JNull) (15 / 100),
      gi_quantity_lots = max 1 (py_trunc (safe_num (jget sd ''quantity'' JNull) 1)), gi_rate = 65 / 1000\<rparr>"

definition greeks_body :: "risk_env \<Rightarrow> string \<Rightarrow> jdict \<Rightarrow> risk_service \<Rightarrow> exn + risk_evaluation" where
  "greeks_body env symbol sd s =
     res_bind (signal_direction sd) (\<lambda>direction.
       let entry_price = safe_num (jget sd ''price'' (JInt 0)) 0;
           ot = (if direction \<in> {''CE'', ''CALL'', ''LONG''} then Some CE
                 else if direction \<in> {''PE'', ''PUT'', ''SHORT''} then Some PE else None)
       in if direction = [] \<or> entry_price \<le> 0
          then Inr (risk_eval RD_ALLOWED ''Greeks check skipped - missing direction or price'' 0)
          else case ot of
              None \<Rightarrow> Inr (risk_eval RD_ALLOWED ''Greeks check skipped - unknown option type'' 0)
            | Some ot \<Rightarrow>
                res_bind (check_pre_trade_greeks (rv_erf env) (rv_time env) default_greeks_config
                            (proposed_greeks symbol sd direction ot entry_price) (existing_greeks (rs_positions s))) (\<lambda>r.
                  Inr (case gc_status r of
                      GL_BLOCK \<Rightarrow> risk_eval RD_DENIED (''Greeks limit blocked: '' @ join_reasons (gc_reasons r)) (9 / 10)
                    | GL_WARN \<Rightarrow> risk_eval RD_ALLOWED (''Greeks limit warning: '' @ join_reasons (gc_reasons r)) (4 / 10)
                    | GL_PASS \<Rightarrow> risk_eval RD_ALLOWED ''Greeks limits check passed'' 0)))"

definition check_greeks_limits :: "risk_env \<Rightarrow> string \<Rightarrow> jdict \<Rightarrow> risk_state \<Rightarrow> (exn + risk_evaluation) \<times> risk_state" where
  "check_greeks_limits env symbol sd st =
     x_lift (case greeks_body env symbol sd (fst st) of
        Inr r \<Rightarrow> Inr r
      | Inl e \<Rightarrow> if caught [ValueError, TypeError, AttributeError, KeyError, ArithmeticError] e
                 then Inr (risk_eval RD_ALLOWED (''Greeks check errored (non-blocking): '' @ exn_msg e) (2 / 10)) else Inl e) st"

definition risk_based_quantity :: "risk_config \<Rightarrow> int \<Rightarrow> jdict \<Rightarrow> real \<Rightarrow> risk_metrics \<Rightarrow> int" where
  "risk_based_quantity c lot sd entry_price pm =
     (let risk_amount = pm_available_capital pm * rk_default_risk c;
          sl_pct = safe_num (jget sd ''stop_loss_pct'' JNull) (5 / 100);
          per_share = entry_price * sl_pct
      in if sl_pct > 0 \<and> entry_price > 0
         then max 1 (min (if per_share > 0 then py_trunc (risk_amount / per_share) else 1) (lot * 5))
         else 1)"

definition intended_quantity :: "risk_config \<Rightarrow> int \<Rightarrow> jdict \<Rightarrow> real \<Rightarrow> risk_metrics \<Rightarrow> real" where
  "intended_quantity c lot sd entry_price pm =
     (let q = (case safe_float (jget sd ''quantity'' JNull) of
                 Some q \<Rightarrow> if q \<le> 0 then of_int (risk_based_quantity c lot sd entry_price pm) else q
               | None \<Rightarrow> of_int (risk_based_quantity c lot sd entry_price pm))
      in if q \<le> 0 then 1 else q)"

definition check_margin_requirements :: "risk_env \<Rightarrow> string \<Rightarrow> jdict \<Rightarrow> risk_metrics \<Rightarrow> risk_state \<Rightarrow> (exn + risk_evaluation) \<times> risk_state" where
  "check_margin_requirements env symbol sd pm st =
     (let entry_price = safe_num (jget sd ''price'' (JInt 0)) 0; c = rs_config (fst st)
      in if entry_price \<le> 0 then x_ret (risk_eval RD_DENIED ''Invalid price for margin check'' (5 / 10)) st
         else x_lift (res_bind (get_lot_size (fst st) symbol) (\<lambda>lot.
                res_bind (validate_margin_requirements env c symbol (intended_quantity c lot sd entry_price pm) (pm_available_capital pm)) (\<lambda>ok.
                  Inr (if \<not> ok then risk_eval RD_DENIED ''Insufficient margin for position'' (7 / 10)
                       else risk_eval RD_ALLOWED ''Margin requirements check passed'' (1 / 10))))) st)"

definition check_trade_quality :: "jdict \<Rightarrow> risk_state \<Rightarrow> (exn + risk_evaluation) \<times> risk_state" where
  "check_trade_quality sd st =
     (let c = rs_config (fst st); volume = safe_num (jget sd ''volume_ratio'' JNull) 1; spread = safe_num (jget sd ''spread_pct'' JNull) 0
      in x_ret (if volume < rk_min_volume_ratio c
                then risk_eval RD_DENIED (''Insufficient volume ratio: '' @ fmt_f 2 volume @ '' < '' @ fmt_f 2 (rk_min_volume_ratio c)) (6 / 10)
                else if spread > rk_max_spread_pct c
                then risk_eval RD_DENIED (''Excessive bid-ask spread: '' @ fmt_f 2 spread @ ''% > '' @ fmt_f 2 (rk_max_spread_pct c) @ ''%'') (6 / 10)
                else risk_eval RD_ALLOWED ''Trade quality checks passed'' (1 / 10)) st)"

definition check_position_sizing_limits :: "jdict \<Rightarrow> risk_state \<Rightarrow> (exn + risk_evaluation) \<times> risk_state" where
  "check_position_sizing_limits sd st =
     (let entry_price = safe_num (jget sd ''price'' (JInt 0)) 0; stop_loss = safe_num (jget sd ''stop_loss'' (JInt 0)) 0;
          price_diff = \<bar>entry_price - stop_loss\<bar>
      in x_ret (if entry_price > 0 \<and> stop_loss > 0 \<and> price_diff < entry_price * (1 / 100)
                then (risk_eval RD_ALLOWED (''Very tight stop loss: '' @ fmt_pct 2 (price_diff / entry_price) @ '' price distance'') (3 / 10))
                       \<lparr>ev_recommended := Some 1\<rparr>
                else risk_eval RD_ALLOWED ''Position sizing limits check passed'' 0) st)"

definition calculate_risk_score :: "risk_env \<Rightarrow> risk_config \<Rightarrow> string \<Rightarrow> jdict \<Rightarrow> risk_metrics \<Rightarrow> exn + real" where
  "calculate_risk_score env c symbol sd pm =
     (case rv_get_volatility env symbol of
        Inl e \<Rightarrow> if caught [TypeError, ValueError, ZeroDivisionError, AttributeError, KeyError] e then Inr (5 / 10) else Inl e
      | Inr volatility \<Rightarrow>
          let loss = (if rk_max_daily_loss c < 0 then min (3 / 10) (\<bar>pm_daily_pnl pm\<bar> / \<bar>rk_max_daily_loss c\<bar> * (3 / 10)) else 0);
              conc = (if pm_total_capital pm > 0 then min (2 / 10) (pm_used_capital pm / pm_total_capital pm * (2 / 10)) else 0);
              vol = min 1 (volatility / 50) * (2 / 10);
              strength = (100 - safe_num (jget sd ''strength'' (JInt 50)) 50) / 100 * (3 / 10)
          in Inr (min 1 (max 0 (loss + conc + vol + strength))))"

subsection \<open>Evaluating a trade\<close>

text \<open>The checks in order: the first one that denies ends the evaluation.\<close>

fun run_checks :: "(risk_state \<Rightarrow> (exn + risk_evaluation) \<times> risk_state) list \<Rightarrow> risk_state \<Rightarrow> (exn + risk_evaluation option) \<times> risk_state" where
  "run_checks [] = x_ret None"
| "run_checks (chk # chks) =
     x_bind chk (\<lambda>r. if ev_decision r = RD_DENIED then x_ret (Some r) else run_checks chks)"

definition risk_checks :: "risk_env \<Rightarrow> string \<Rightarrow> jdict \<Rightarrow> risk_metrics \<Rightarrow> (risk_state \<Rightarrow> (exn + risk_evaluation) \<times> risk_state) list" where
  "risk_checks env symbol sd pm =
     [check_daily_loss_limit env pm, check_consecutive_losses pm, check_daily_trade_count env, check_portfolio_limits env pm,
      check_greeks_limits env symbol sd, check_margin_requirements env symbol sd pm, check_trade_quality sd,
      check_position_sizing_limits sd]"

definition approve_trade :: "risk_env \<Rightarrow> string \<Rightarrow> jdict \<Rightarrow> risk_metrics \<Rightarrow> risk_service \<Rightarrow> exn + risk_evaluation" where
  "approve_trade env symbol sd pm s =
     res_bind (get_lot_size s symbol) (\<lambda>lot.
     res_bind (rv_get_volatility env symbol) (\<lambda>volatility.
     res_bind (calculate_position_size env (rs_config s)
        \<lparr>si_symbol = symbol, si_entry_price = safe_num (jget sd ''price'' (JInt 0)) 0,
         si_stop_loss_price = safe_num (jget sd ''stop_loss'' (JInt 0)) 0, si_capital_available = pm_available_capital pm,
         si_risk_per_trade = rk_default_risk (rs_config s), si_lot_size = lot, si_volatility = volatility,
         si_existing_exposure = (case map_of (pm_symbol_exposure pm) symbol of None \<Rightarrow> 0 | Some x \<Rightarrow> x)\<rparr>) (\<lambda>n.
     res_bind (calculate_risk_score env (rs_config s) symbol sd pm) (\<lambda>score.
       Inr \<lparr>ev_decision = RD_ALLOWED, ev_reason = ''All risk checks passed'', ev_recommended = Some n, ev_max_allowed = Some n,
            ev_score = score\<rparr>))))"

definition evaluate_body :: "risk_env \<Rightarrow> string \<Rightarrow> jdict \<Rightarrow> risk_metrics \<Rightarrow> risk_state \<Rightarrow> (exn + risk_evaluation) \<times> risk_state" where
  "evaluate_body env symbol sd pm =
     x_bind (x_lift (signal_direction sd)) (\<lambda>direction.
       if direction = [] \<or> safe_num (jget sd ''price'' (JInt 0)) 0 \<le> 0
       then x_ret (risk_eval RD_DENIED ''Invalid signal data: missing direction or price'' 0)
       else x_bind (run_checks (risk_checks env symbol sd pm)) (\<lambda>r.
              case r of Some d \<Rightarrow> x_ret d | None \<Rightarrow> (\<lambda>st. x_lift (approve_trade env symbol sd pm (fst st)) st)))"

definition evaluate_trade :: "risk_env \<Rightarrow> string \<Rightarrow> jdict \<Rightarrow> risk_metrics \<Rightarrow> risk_state \<Rightarrow> (exn + risk_evaluation) \<times> risk_state" where
  "evaluate_trade env symbol sd pm =
     x_try (evaluate_body env symbol sd pm)
       [KeyError, TypeError, ValueError, AttributeError]
       (\<lambda>e. x_ret (risk_eval RD_DENIED (''Risk evaluation error: '' @ exn_msg e) 1))"

subsection \<open>Positions and the trading day\<close>

text \<open>\<open>opt\<close> are the optional strike, volatility and days to expiry.\<close>

definition update_position ::
    "string \<Rightarrow> int \<Rightarrow> real \<Rightarrow> real \<Rightarrow> string \<Rightarrow> real option \<times> real option \<times> real option \<Rightarrow> risk_service \<Rightarrow> exn option \<times> risk_service" where
  "update_position symbol quantity entry_price ts option_type opt s =
     (case get_lot_size s symbol of
        Inl e \<Rightarrow> if caught [KeyError, TypeError, ValueError, AttributeError] e then (None, s) else (Some e, s)
      | Inr lot \<Rightarrow>
          (case opt of (strike, iv, tte) \<Rightarrow>
             (None,
              if quantity = 0 then s\<lparr>rs_positions := dict_del symbol (rs_positions s)\<rparr>
              else s\<lparr>rs_positions := dict_set symbol
                     \<lparr>rp_quantity = quantity, rp_entry_price = entry_price,
                      rp_market_value = of_int quantity * entry_price * of_int lot, rp_timestamp = ts, rp_symbol = symbol,
                      rp_option_type = (if option_type = ''CE'' \<or> option_type = ''PE'' then option_type else ''CE''),
                      rp_strike = (case strike of None \<Rightarrow> entry_price | Some x \<Rightarrow> x),
                      rp_iv = (case iv of None \<Rightarrow> 15 / 100 | Some x \<Rightarrow> x),
                      rp_tte_days = (case tte of None \<Rightarrow> 3 | Some x \<Rightarrow> x)\<rparr> (rs_positions s)\<rparr>)))"

definition remove_position :: "string \<Rightarrow> risk_service \<Rightarrow> risk_service" where
  "remove_position symbol s = s\<lparr>rs_positions := dict_del symbol (rs_positions s)\<rparr>"

definition reset_daily_metrics :: "real \<Rightarrow> risk_state \<Rightarrow> risk_state" where
  "reset_daily_metrics now st =
     (case st of (s, sf) \<Rightarrow>
        let elapsed = (now - rs_last_loss_reset s) / 3600; due = (elapsed \<ge> of_int (rk_loss_reset_hours (rs_config s)))
        in (s\<lparr>rs_peak_pnl := 0, rs_max_drawdown := 0, rs_last_loss_reset := (if due then now else rs_last_loss_reset s),
              rs_entries := filter (\<lambda>t. t \<ge> ist_midnight now) (rs_entries s)\<rparr>,
            if due then reset_consecutive_losses sf else sf))"

definition get_required_margin_per_lot :: "risk_service \<Rightarrow> string \<Rightarrow> real \<Rightarrow> exn + real" where
  "get_required_margin_per_lot s symbol price = res_bind (get_lot_size s symbol) (\<lambda>lot. Inr (price * of_int lot * (20 / 100)))"

subsection \<open>Limits manager\<close>

definition lm_check_daily_loss :: "(real \<Rightarrow> string) \<Rightarrow> limit_config \<Rightarrow> real \<Rightarrow> safety \<Rightarrow> risk_evaluation \<times> safety" where
  "lm_check_daily_loss rp c pnl sf =
     (if pnl \<le> lc_max_daily_loss c
      then (risk_eval RD_DENIED (''Daily loss limit reached: '' @ fmt_f 2 pnl @ '' <= '' @ fmt_f 2 (lc_max_daily_loss c)) 1,
            trip_hard_halt (''Daily loss limit breached: '' @ rp pnl @ '' <= '' @ rp (lc_max_daily_loss c)) ''RiskLimitsManager.check_daily_loss'' sf)
      else (risk_eval RD_ALLOWED ''Daily loss limit check passed'' 0, sf))"

definition lm_check_consecutive_losses :: "limit_config \<Rightarrow> int \<Rightarrow> safety \<Rightarrow> risk_evaluation \<times> safety" where
  "lm_check_consecutive_losses c n sf =
     (if n \<ge> lc_max_consecutive_losses c
      then (risk_eval RD_DENIED (''Consecutive loss limit reached: '' @ show_int n @ '' >= '' @ show_int (lc_max_consecutive_losses c)) 1,
            trip_hard_halt (''Consecutive loss limit breached: '' @ show_int n @ '' >= '' @ show_int (lc_max_consecutive_losses c))
              ''RiskLimitsManager.check_consecutive_losses'' sf)
      else (risk_eval RD_ALLOWED ''Consecutive loss limit check passed'' 0, sf))"

definition lm_check_portfolio_limits :: "limit_config \<Rightarrow> int \<Rightarrow> real \<Rightarrow> risk_evaluation" where
  "lm_check_portfolio_limits c open_positions risk =
     (if open_positions \<ge> lc_max_open_positions c
      then risk_eval RD_DENIED (''Maximum open positions reached: '' @ show_int open_positions @ '' >= '' @ show_int (lc_max_open_positions c)) (8 / 10)
      else if risk > lc_max_portfolio_risk c
      then risk_eval RD_DENIED (''Portfolio risk limit reached: '' @ fmt_pct 2 risk @ '' > '' @ fmt_pct 2 (lc_max_portfolio_risk c)) (9 / 10)
      else risk_eval RD_ALLOWED ''Portfolio limits check passed'' (1 / 10))"

subsection \<open>Capital scaling\<close>

text \<open>The capital manager is created on first use, from the capital of that moment.\<close>

definition get_capital_manager :: "risk_env \<Rightarrow> risk_service \<Rightarrow> (exn + capital_manager) \<times> risk_service" where
  "get_capital_manager env s =
     (case rs_capital s of
        Some cm \<Rightarrow> (Inr cm, s)
      | None \<Rightarrow>
          (case rv_get_capital env of
             Inl e \<Rightarrow> (Inl e, s)
           | Inr capital \<Rightarrow>
               (case new_capital_manager capital (rk_max_daily_loss (rs_config s)) (rk_max_drawdown_pct (rs_config s)) (6 / 10)
                       (rk_drawdown_scale (rs_config s)) of
                  Inl e \<Rightarrow> (Inl e, s)
                | Inr cm \<Rightarrow> (Inr cm, s\<lparr>rs_capital := Some cm\<rparr>))))"

definition capital_catches :: "exn_class list" where
  "capital_catches = [ValueError, TypeError, AttributeError]"

definition scale_position :: "risk_env \<Rightarrow> int \<Rightarrow> int \<Rightarrow> risk_service \<Rightarrow> (exn + scale_result) \<times> risk_service" where
  "scale_position env base_lots max_lots =
     x_try (x_bind (get_capital_manager env) (\<lambda>cm. x_ret (scale base_lots max_lots cm))) capital_catches
       (\<lambda>e. x_ret \<lparr>sr_factor = 1, sr_lots = base_lots, sr_growth = 1, sr_dd_factor = 1, sr_consec_factor = 1, sr_daily_factor = 1,
                   sr_drawdown = 0\<rparr>)"

definition record_trade_result :: "risk_env \<Rightarrow> real \<Rightarrow> bool \<Rightarrow> risk_service \<Rightarrow> (exn + unit) \<times> risk_service" where
  "record_trade_result env net_pnl is_winner =
     x_try (x_bind (get_capital_manager env) (\<lambda>cm. x_upd (\<lambda>s. s\<lparr>rs_capital := Some (cm_record_trade net_pnl is_winner cm)\<rparr>)))
       capital_catches (\<lambda>e. x_ret ())"

definition rs_lock_profits :: "risk_env \<Rightarrow> real \<Rightarrow> risk_service \<Rightarrow> (exn + real) \<times> risk_service" where
  "rs_lock_profits env pct =
     x_try (x_bind (get_capital_manager env)
              (\<lambda>cm s. case cm_lock_profits pct cm of (amount, cm') \<Rightarrow> (Inr amount, s\<lparr>rs_capital := Some cm'\<rparr>)))
       capital_catches (\<lambda>e. x_ret 0)"

subsection \<open>Policy gates\<close>

text \<open>The minute of the day in IST, \<open>now.hour * 60 + now.minute\<close>.\<close>

definition ist_minute :: "real \<Rightarrow> int" where
  "ist_minute t = \<lfloor>(t - ist_midnight t) / 60\<rfloor>"

definition is_in_trading_window :: "real \<Rightarrow> bool" where
  "is_in_trading_window now =
     (let m = ist_minute now in (9 * 60 + 20 \<le> m \<and> m \<le> 11 * 60 + 30) \<or> (13 * 60 \<le> m \<and> m \<le> 14 * 60 + 45))"

definition should_skip_first_20_min :: "real \<Rightarrow> bool" where
  "should_skip_first_20_min now = (ist_minute now < 9 * 60 + 20 + 20)"

definition should_skip_last_45_min :: "real \<Rightarrow> bool" where
  "should_skip_last_45_min now = (ist_minute now > 15 * 60 + 20 - 45)"

definition get_min_score_for_regime :: "string option \<Rightarrow> int" where
  "get_min_score_for_regime regime =
     (let r = str_upper (str_or regime [])
      in if r = ''TRENDING'' \<or> r = ''BULLISH'' then 68
         else if r = ''SIDEWAYS'' \<or> r = ''NEUTRAL'' then 73
         else if r = ''RANGE'' \<or> r = ''CHOPPY'' then 78 else 73)"

definition should_block_false_signal :: "int \<Rightarrow> real \<Rightarrow> bool" where
  "should_block_false_signal score iv_rank = (score \<ge> 75 \<and> iv_rank > 26)"

definition get_max_trades_per_day :: "risk_env \<Rightarrow> real option \<Rightarrow> int \<Rightarrow> exn + int" where
  "get_max_trades_per_day env vix losses =
     res_bind (case vix of Some v \<Rightarrow> Inr v | None \<Rightarrow> rv_get_live_vix env) (\<lambda>v.
       Inr (if v > 28 \<or> losses \<ge> 2 then 1 else if v > 20 then 2 else 4))"

definition get_live_vix :: "risk_env \<Rightarrow> exn + real" where
  "get_live_vix env =
     (case rv_get_live_vix env of
        Inr v \<Rightarrow> Inr v
      | Inl e \<Rightarrow> if caught [TypeError, ValueError, KeyError, AttributeError, OSError] e then Inr 20 else Inl e)"

section \<open>Lemmas\<close>

subsection \<open>Metrics\<close>

text \<open>What the estimate of the portfolio risk leaves alone: all but the peak and the drawdown.\<close>

definition risk_view :: "risk_state \<Rightarrow> _" where
  "risk_view st = (snd st, rs_config (fst st), rs_limits (fst st), rs_index_map (fst st), rs_positions (fst st), rs_entries (fst st),
     rs_capital (fst st), rs_last_loss_reset (fst st))"

lemma metrics_keep [keeps_intros]: "x_keeps risk_view (get_portfolio_risk_metrics env)"
  unfolding get_portfolio_risk_metrics_def
  by (intro keeps_intros) (auto simp: x_keeps_def risk_view_def Let_def)

lemma estimate_keeps [keeps_intros]: "x_keeps risk_view (estimate_portfolio_risk env)"
  unfolding estimate_portfolio_risk_def by (intro keeps_intros)

lemma view_config: "risk_view st = risk_view st' \<Longrightarrow> rs_config (fst st) = rs_config (fst st') \<and> snd st = snd st' \<and>
    rs_index_map (fst st) = rs_index_map (fst st') \<and> rs_positions (fst st) = rs_positions (fst st') \<and> rs_entries (fst st) = rs_entries (fst st')"
  by (simp add: risk_view_def)

subsection \<open>Checks\<close>

named_theorems passes \<open>what it means that a check lets the trade through\<close>

lemma daily_loss_passes [passes]:
  "check_daily_loss_limit env pm st = (Inr r, st') \<Longrightarrow> ev_decision r \<noteq> RD_DENIED \<Longrightarrow>
     st' = st \<and> rk_max_daily_loss (rs_config (fst st)) < pm_daily_pnl pm"
  by (auto simp: check_daily_loss_limit_def Let_def risk_eval_def bind_Inr split: if_splits)

lemma consecutive_passes [passes]:
  "check_consecutive_losses pm st = (Inr r, st') \<Longrightarrow> ev_decision r \<noteq> RD_DENIED \<Longrightarrow>
     st' = st \<and> pm_consecutive_losses pm < rk_max_consecutive_losses (rs_config (fst st))"
  by (auto simp: check_consecutive_losses_def Let_def risk_eval_def bind_Inr split: if_splits)

lemma trade_count_passes [passes]:
  "check_daily_trade_count env st = (Inr r, st') \<Longrightarrow> ev_decision r \<noteq> RD_DENIED \<Longrightarrow>
     st' = st \<and> get_trades_today (rv_time env) (fst st) < rk_max_daily_trades (rs_config (fst st))"
  by (auto simp: check_daily_trade_count_def Let_def risk_eval_def split: if_splits)

lemma portfolio_passes [passes]:
  "check_portfolio_limits env pm st = (Inr r, st') \<Longrightarrow> ev_decision r \<noteq> RD_DENIED \<Longrightarrow>
     risk_view st' = risk_view st \<and> pm_open_positions pm < rk_max_open_positions (rs_config (fst st)) \<and>
     (\<exists>risk. fst (estimate_portfolio_risk env st) = Inr risk \<and> risk \<le> rk_max_portfolio_risk (rs_config (fst st)))"
  using keepsD [OF estimate_keeps, of env st]
  by (auto simp: check_portfolio_limits_def Let_def risk_eval_def bind_Inr split: if_splits)

text \<open>
  What the Greeks check promises about the trade of a call or put direction: unless the computation
  raises, the trade opens no short option and breaches at most two of the seven limits.
\<close>

definition greeks_admit :: "risk_env \<Rightarrow> string \<Rightarrow> jdict \<Rightarrow> risk_service \<Rightarrow> bool" where
  "greeks_admit env symbol sd s \<longleftrightarrow>
     (\<forall>d ot. signal_direction sd = Inr d \<and> (d \<in> {''CE'', ''CALL'', ''LONG''} \<and> ot = CE \<or> d \<in> {''PE'', ''PUT'', ''SHORT''} \<and> ot = PE) \<longrightarrow>
        (case check_pre_trade_greeks (rv_erf env) (rv_time env) default_greeks_config
                (proposed_greeks symbol sd d ot (safe_num (jget sd ''price'' (JInt 0)) 0)) (existing_greeks (rs_positions s)) of
           Inl e \<Rightarrow> True
         | Inr c \<Rightarrow> d \<noteq> ''SHORT'' \<and> gc_status c \<noteq> GL_BLOCK \<and> breaches c \<le> 2))"

lemma greeks_unblocked:
  assumes "check_pre_trade_greeks erf now default_greeks_config p ps = Inr c" "gc_status c \<noteq> GL_BLOCK"
  shows "str_upper (gi_direction p) \<noteq> ''SHORT'' \<and> breaches c \<le> 2"
proof -
  have s: "str_upper (gi_direction p) \<noteq> ''SHORT''"
    using assms by (auto simp: check_pre_trade_greeks_def default_greeks_config_def greeks_check_default_def)
  have "gg_enabled default_greeks_config" by (simp add: default_greeks_config_def)
  from greeks_block_iff [OF assms(1) this s] have "3 \<le> breaches c \<longrightarrow> gc_status c = GL_BLOCK" by (elim exE conjE) simp
  with s assms(2) show ?thesis by simp
qed

lemma greeks_passes [passes]:
  assumes "check_greeks_limits env symbol sd st = (Inr r, st')" "ev_decision r \<noteq> RD_DENIED" "0 < safe_num (jget sd ''price'' (JInt 0)) 0"
  shows "st' = st \<and> greeks_admit env symbol sd (fst st)"
proof -
  let ?p = "safe_num (jget sd ''price'' (JInt 0)) 0"
  have adm: "d \<noteq> ''SHORT'' \<and> gc_status c \<noteq> GL_BLOCK \<and> breaches c \<le> 2"
    if d: "signal_direction sd = Inr d" "d \<in> {''CE'', ''CALL'', ''LONG''} \<and> ot = CE \<or> d \<in> {''PE'', ''PUT'', ''SHORT''} \<and> ot = PE"
      and c: "check_pre_trade_greeks (rv_erf env) (rv_time env) default_greeks_config (proposed_greeks symbol sd d ot ?p)
        (existing_greeks (rs_positions (fst st))) = Inr c" for d ot c
  proof -
    have b: "gc_status c \<noteq> GL_BLOCK"
      using assms d c by (auto simp: check_greeks_limits_def greeks_body_def Let_def risk_eval_def x_lift_def)
    have "d = ''SHORT'' \<Longrightarrow> str_upper (gi_direction (proposed_greeks symbol sd d ot ?p)) = ''SHORT''"
      by (simp add: proposed_greeks_def upper_char_def)
    with greeks_unblocked [OF c b] b show ?thesis by blast
  qed
  have "greeks_admit env symbol sd (fst st)"
    unfolding greeks_admit_def
  proof (intro allI impI)
    fix d ot
    assume d: "signal_direction sd = Inr d \<and> (d \<in> {''CE'', ''CALL'', ''LONG''} \<and> ot = CE \<or> d \<in> {''PE'', ''PUT'', ''SHORT''} \<and> ot = PE)"
    show "case check_pre_trade_greeks (rv_erf env) (rv_time env) default_greeks_config (proposed_greeks symbol sd d ot ?p)
        (existing_greeks (rs_positions (fst st))) of Inl e \<Rightarrow> True | Inr c \<Rightarrow> d \<noteq> ''SHORT'' \<and> gc_status c \<noteq> GL_BLOCK \<and> breaches c \<le> 2"
      using adm [OF conjunct1 [OF d] conjunct2 [OF d]] by (simp only: split: sum.split) blast
  qed
  then show ?thesis using assms(1) by (simp add: check_greeks_limits_def)
qed

lemma margin_passes [passes]:
  "check_margin_requirements env symbol sd pm st = (Inr r, st') \<Longrightarrow> ev_decision r \<noteq> RD_DENIED \<Longrightarrow>
     st' = st \<and> 0 < safe_num (jget sd ''price'' (JInt 0)) 0 \<and>
     (\<exists>lot. get_lot_size (fst st) symbol = Inr lot \<and>
        validate_margin_requirements env (rs_config (fst st)) symbol
          (intended_quantity (rs_config (fst st)) lot sd (safe_num (jget sd ''price'' (JInt 0)) 0) pm) (pm_available_capital pm) = Inr True)"
  by (cases "get_lot_size (fst st) symbol")
    (auto simp: check_margin_requirements_def Let_def risk_eval_def res_bind_def split: if_splits sum.splits)

lemma quality_passes [passes]:
  "check_trade_quality sd st = (Inr r, st') \<Longrightarrow> ev_decision r \<noteq> RD_DENIED \<Longrightarrow>
     st' = st \<and> rk_min_volume_ratio (rs_config (fst st)) \<le> safe_num (jget sd ''volume_ratio'' JNull) 1 \<and>
     safe_num (jget sd ''spread_pct'' JNull) 0 \<le> rk_max_spread_pct (rs_config (fst st))"
  by (auto simp: check_trade_quality_def Let_def risk_eval_def split: if_splits)

lemma sizing_limits_passes [passes]: "check_position_sizing_limits sd st = (Inr r, st') \<Longrightarrow> st' = st"
  by (simp add: check_position_sizing_limits_def Let_def)

lemma run_checks_denied: "run_checks chks st = (Inr (Some r), st') \<Longrightarrow> ev_decision r = RD_DENIED"
  by (induction chks arbitrary: st) (auto simp: bind_Inr split: if_splits)

lemma run_checks_passed:
  "run_checks (chk # chks) st = (Inr None, st'') \<Longrightarrow>
     \<exists>r st'. chk st = (Inr r, st') \<and> ev_decision r \<noteq> RD_DENIED \<and> run_checks chks st' = (Inr None, st'')"
  by (auto simp: bind_Inr split: if_splits)

text \<open>The limits a trade has to respect, in a state and against the metrics of the caller.\<close>

definition within_limits :: "risk_env \<Rightarrow> string \<Rightarrow> jdict \<Rightarrow> risk_metrics \<Rightarrow> risk_state \<Rightarrow> bool" where
  "within_limits env symbol sd pm st \<longleftrightarrow>
     (let c = rs_config (fst st); price = safe_num (jget sd ''price'' (JInt 0)) 0
      in rk_max_daily_loss c < pm_daily_pnl pm \<and> pm_consecutive_losses pm < rk_max_consecutive_losses c \<and>
         get_trades_today (rv_time env) (fst st) < rk_max_daily_trades c \<and> pm_open_positions pm < rk_max_open_positions c \<and>
         (\<exists>risk. fst (estimate_portfolio_risk env st) = Inr risk \<and> risk \<le> rk_max_portfolio_risk c) \<and>
         0 < price \<and> greeks_admit env symbol sd (fst st) \<and>
         (\<exists>lot. get_lot_size (fst st) symbol = Inr lot \<and>
            validate_margin_requirements env c symbol (intended_quantity c lot sd price pm) (pm_available_capital pm) = Inr True) \<and>
         rk_min_volume_ratio c \<le> safe_num (jget sd ''volume_ratio'' JNull) 1 \<and>
         safe_num (jget sd ''spread_pct'' JNull) 0 \<le> rk_max_spread_pct c)"

lemma get_lot_size_view: "rs_index_map s = rs_index_map t \<Longrightarrow> get_lot_size s symbol = get_lot_size t symbol"
  by (simp add: get_lot_size_def)

lemma run_checks_drop:
  assumes "run_checks (drop n cs) st = (Inr None, st'')" "n < length cs"
  shows "\<exists>r st'. (cs ! n) st = (Inr r, st') \<and> ev_decision r \<noteq> RD_DENIED \<and> run_checks (drop (Suc n) cs) st' = (Inr None, st'')"
  using run_checks_passed [of "cs ! n" "drop (Suc n) cs" st st''] assms by (simp add: Cons_nth_drop_Suc)

lemma checks_passed_within:
  assumes "run_checks (risk_checks env symbol sd pm) st = (Inr None, st')"
  shows "within_limits env symbol sd pm st \<and> risk_view st' = risk_view st"
proof -
  define cs where "cs = risk_checks env symbol sd pm"
  have n: "cs ! 0 = check_daily_loss_limit env pm" "cs ! Suc 0 = check_consecutive_losses pm" "cs ! 2 = check_daily_trade_count env"
    "cs ! 3 = check_portfolio_limits env pm" "cs ! 4 = check_greeks_limits env symbol sd"
    "cs ! 5 = check_margin_requirements env symbol sd pm" "cs ! 6 = check_trade_quality sd" "cs ! 7 = check_position_sizing_limits sd"
    and len: "length cs = 8" by (simp_all add: cs_def risk_checks_def)
  have step: "\<exists>r t'. (cs ! k) t = (Inr r, t') \<and> ev_decision r \<noteq> RD_DENIED \<and> run_checks (drop (Suc k) cs) t' = (Inr None, st')"
    if "run_checks (drop k cs) t = (Inr None, st')" "k < 8" for k t
    using run_checks_drop [OF that(1)] that(2) len by simp
  have "run_checks (drop 0 cs) st = (Inr None, st')" using assms by (simp add: cs_def)
  from step [OF this] obtain r1 st1 where 1: "check_daily_loss_limit env pm st = (Inr r1, st1)" "ev_decision r1 \<noteq> RD_DENIED"
    and "run_checks (drop (Suc 0) cs) st1 = (Inr None, st')" by (auto simp: n)
  from step [OF this(3)] obtain r2 st2 where 2: "check_consecutive_losses pm st1 = (Inr r2, st2)" "ev_decision r2 \<noteq> RD_DENIED"
    and "run_checks (drop 2 cs) st2 = (Inr None, st')" by (auto simp: n numeral_2_eq_2)
  from step [OF this(3)] obtain r3 st3 where 3: "check_daily_trade_count env st2 = (Inr r3, st3)" "ev_decision r3 \<noteq> RD_DENIED"
    and "run_checks (drop 3 cs) st3 = (Inr None, st')" by (auto simp: n)
  from step [OF this(3)] obtain r4 st4 where 4: "check_portfolio_limits env pm st3 = (Inr r4, st4)" "ev_decision r4 \<noteq> RD_DENIED"
    and "run_checks (drop 4 cs) st4 = (Inr None, st')" by (auto simp: n)
  from step [OF this(3)] obtain r5 st5 where 5: "check_greeks_limits env symbol sd st4 = (Inr r5, st5)" "ev_decision r5 \<noteq> RD_DENIED"
    and "run_checks (drop 5 cs) st5 = (Inr None, st')" by (auto simp: n)
  from step [OF this(3)] obtain r6 st6 where 6: "check_margin_requirements env symbol sd pm st5 = (Inr r6, st6)" "ev_decision r6 \<noteq> RD_DENIED"
    and "run_checks (drop 6 cs) st6 = (Inr None, st')" by (auto simp: n)
  from step [OF this(3)] obtain r7 st7 where 7: "check_trade_quality sd st6 = (Inr r7, st7)" "ev_decision r7 \<noteq> RD_DENIED"
    and "run_checks (drop 7 cs) st7 = (Inr None, st')" by (auto simp: n)
  from step [OF this(3)] obtain r8 st8 where "check_position_sizing_limits sd st7 = (Inr r8, st8)" "run_checks (drop 8 cs) st8 = (Inr None, st')"
    by (auto simp: n)
  then have "st' = st7" using sizing_limits_passes len by simp
  moreover note daily_loss_passes [OF 1] consecutive_passes [OF 2] trade_count_passes [OF 3] portfolio_passes [OF 4]
    greeks_passes [OF 5 conjunct1 [OF conjunct2 [OF margin_passes [OF 6]]]] margin_passes [OF 6] quality_passes [OF 7]
  ultimately show ?thesis
    using view_config [of st4 st] get_lot_size_view [of "fst st4" "fst st" symbol] by (simp add: within_limits_def greeks_admit_def Let_def)
qed

lemma evaluate_body_allowed:
  assumes "evaluate_body env symbol sd pm st = (Inr r, st')" "ev_decision r = RD_ALLOWED"
  shows "run_checks (risk_checks env symbol sd pm) st = (Inr None, st') \<and> approve_trade env symbol sd pm (fst st') = Inr r"
proof -
  obtain d where d: "signal_direction sd = Inr d" and "\<not> (d = [] \<or> safe_num (jget sd ''price'' (JInt 0)) 0 \<le> 0)"
    using assms by (cases "signal_direction sd") (auto simp: evaluate_body_def x_bind_def x_lift_def risk_eval_def split: if_splits)
  then have "x_bind (run_checks (risk_checks env symbol sd pm)) (\<lambda>r.
      case r of Some d \<Rightarrow> x_ret d | None \<Rightarrow> (\<lambda>st. x_lift (approve_trade env symbol sd pm (fst st)) st)) st = (Inr r, st')"
    using assms(1) by (simp add: evaluate_body_def)
  then obtain o1 st1 where o1: "run_checks (risk_checks env symbol sd pm) st = (Inr o1, st1)"
    "(case o1 of Some d \<Rightarrow> x_ret d | None \<Rightarrow> (\<lambda>st. x_lift (approve_trade env symbol sd pm (fst st)) st)) st1 = (Inr r, st')"
    by (auto simp: bind_Inr)
  with run_checks_denied assms(2) show ?thesis by (cases o1) auto
qed

lemma evaluate_tradeD:
  assumes "evaluate_trade env symbol sd pm st = (Inr r, st')" "ev_decision r = RD_ALLOWED"
  shows "evaluate_body env symbol sd pm st = (Inr r, st')"
proof -
  obtain x t where e: "evaluate_body env symbol sd pm st = (x, t)" by (cases "evaluate_body env symbol sd pm st")
  show ?thesis
  proof (cases x)
    case (Inl ex)
    with e assms show ?thesis by (auto simp: evaluate_trade_def x_try_def risk_eval_def split: if_splits)
  next
    case (Inr y)
    with e assms show ?thesis by (simp add: evaluate_trade_def x_try_def)
  qed
qed

text \<open>A signal that names a direction and a positive price.\<close>

definition signal_ok :: "jdict \<Rightarrow> bool" where
  "signal_ok sd \<longleftrightarrow> (\<exists>d. signal_direction sd = Inr d \<and> d \<noteq> []) \<and> 0 < safe_num (jget sd ''price'' (JInt 0)) 0"

text \<open>
  A breach trips the kill switch. For a signal with a direction and a positive price, a daily
  result at or below its limit, or a loss streak at or above its limit, makes \<open>evaluate_trade\<close> deny
  the trade and set the process-wide kill switch.
\<close>

lemma breach_denies:
  assumes "signal_ok sd"
    and "pm_daily_pnl pm \<le> rk_max_daily_loss (rs_config s) \<or> rk_max_consecutive_losses (rs_config s) \<le> pm_consecutive_losses pm"
  shows "\<exists>r sf'. evaluate_trade env symbol sd pm (s, sf) = (Inr r, s, sf') \<and> ev_decision r = RD_DENIED \<and> is_hard_halted sf'"
proof -
  have "\<exists>r sf'. run_checks (risk_checks env symbol sd pm) (s, sf) = (Inr (Some r), s, sf') \<and> ev_decision r = RD_DENIED \<and> is_hard_halted sf'"
    using assms(2) by (auto simp: risk_checks_def check_daily_loss_limit_def check_consecutive_losses_def trip_def x_bind_def x_upd_def
        x_ret_def Let_def risk_eval_def is_hard_halted_def trip_hard_halt_def)
  then obtain r sf' where r: "run_checks (risk_checks env symbol sd pm) (s, sf) = (Inr (Some r), s, sf')" "ev_decision r = RD_DENIED"
    "is_hard_halted sf'" by blast
  obtain d where d: "signal_direction sd = Inr d" "d \<noteq> []" "0 < safe_num (jget sd ''price'' (JInt 0)) 0"
    using assms(1) by (auto simp: signal_ok_def)
  have "evaluate_body env symbol sd pm (s, sf) = (Inr r, s, sf')"
    using d r(1) by (simp add: evaluate_body_def x_lift_def bind_Inr)
  with r show ?thesis by (simp add: evaluate_trade_def x_try_def)
qed

subsection \<open>Position size\<close>

lemma max_lots_by_capital_bound:
  assumes "0 < n" "n \<le> calculate_max_lots_by_capital c i"
  shows "of_int n * (\<bar>si_entry_price i - si_stop_loss_price i\<bar> * of_int (si_lot_size i)) \<le> si_capital_available i * rk_max_risk c"
proof -
  let ?d = "\<bar>si_entry_price i - si_stop_loss_price i\<bar> * of_int (si_lot_size i)" and ?m = "si_capital_available i * rk_max_risk c"
  have lt: "0 < calculate_max_lots_by_capital c i" using assms by linarith
  then have d: "0 < ?d" by (auto simp: calculate_max_lots_by_capital_def Let_def split: if_splits)
  have eq: "calculate_max_lots_by_capital c i = py_trunc (?m / ?d)"
    using lt by (auto simp: calculate_max_lots_by_capital_def Let_def max_def split: if_splits)
  have "0 \<le> ?m / ?d"
  proof (rule ccontr)
    assume "\<not> 0 \<le> ?m / ?d"
    then have "py_trunc (?m / ?d) \<le> 0" by (intro py_trunc_le_int) simp
    with lt eq show False by simp
  qed
  then have "of_int (py_trunc (?m / ?d)) \<le> ?m / ?d" by (rule py_trunc_le)
  moreover have "real_of_int n \<le> of_int (py_trunc (?m / ?d))" using assms(2) eq by simp
  ultimately have "real_of_int n \<le> ?m / ?d" by (rule order_trans [rotated])
  then show ?thesis using d by (simp add: pos_le_divide_eq)
qed

lemma calculate_position_size_cases:
  assumes "calculate_position_size env c i = Inr n"
  shows "n = 0 \<or> 0 < n \<and> n \<le> calculate_max_lots_by_capital c i"
proof (cases "sizing_body env c i")
  case (Inl e)
  with assms show ?thesis by (auto simp: calculate_position_size_def split: if_splits)
next
  case (Inr m)
  with assms have m: "sizing_body env c i = Inr n" by (simp add: calculate_position_size_def)
  show ?thesis
  proof (cases "rv_get_capital env")
    case (Inl e)
    with m show ?thesis by (auto simp: sizing_body_def get_max_lots_per_trade_def Let_def split: if_splits)
  next
    case (Inr cap)
    with m obtain k where "n = 0 \<or> n = max 0 (min k (calculate_max_lots_by_capital c i))"
      by (auto simp: sizing_body_def get_max_lots_per_trade_def Let_def split: if_splits)
    then show ?thesis by linarith
  qed
qed

lemma approve_tradeD:
  assumes "approve_trade env symbol sd pm s = Inr r"
  shows "\<exists>lot n i. get_lot_size s symbol = Inr lot \<and> calculate_position_size env (rs_config s) i = Inr n \<and>
    si_entry_price i = safe_num (jget sd ''price'' (JInt 0)) 0 \<and> si_stop_loss_price i = safe_num (jget sd ''stop_loss'' (JInt 0)) 0 \<and>
    si_lot_size i = lot \<and> si_capital_available i = pm_available_capital pm \<and> ev_recommended r = Some n"
proof -
  from assms obtain lot vol n score where "get_lot_size s symbol = Inr lot" "rv_get_volatility env symbol = Inr vol"
    and "calculate_position_size env (rs_config s)
        \<lparr>si_symbol = symbol, si_entry_price = safe_num (jget sd ''price'' (JInt 0)) 0,
         si_stop_loss_price = safe_num (jget sd ''stop_loss'' (JInt 0)) 0, si_capital_available = pm_available_capital pm,
         si_risk_per_trade = rk_default_risk (rs_config s), si_lot_size = lot, si_volatility = vol,
         si_existing_exposure = (case map_of (pm_symbol_exposure pm) symbol of None \<Rightarrow> 0 | Some x \<Rightarrow> x)\<rparr> = Inr n"
    and "ev_recommended r = Some n"
    unfolding approve_trade_def res_bind_Inr by auto
  then show ?thesis
    by (intro exI [of _ lot] exI [of _ n] conjI exI) (assumption | simp)+
qed

subsection \<open>Runtime limits\<close>

definition limits_of :: "risk_config \<Rightarrow> limit_config" where
  "limits_of c = \<lparr>lc_max_daily_loss = rk_max_daily_loss c, lc_max_daily_trades = rk_max_daily_trades c,
     lc_max_open_positions = rk_max_open_positions c, lc_max_portfolio_risk = rk_max_portfolio_risk c,
     lc_max_consecutive_losses = rk_max_consecutive_losses c\<rparr>"

definition limits_ok :: "risk_service \<Rightarrow> bool" where
  "limits_ok s \<longleftrightarrow>
     (let c = rs_config s
      in rs_limits s = limits_of c \<and> rk_max_daily_loss c < 0 \<and> 1 \<le> rk_max_daily_trades c \<and> 1 \<le> rk_max_open_positions c \<and>
         0 \<le> rk_max_portfolio_risk c \<and> rk_max_portfolio_risk c \<le> 1 \<and> 1 \<le> rk_max_consecutive_losses c)"

fun limit_step :: "string \<times> jval \<Rightarrow> risk_service \<Rightarrow> risk_service" where
  "limit_step (name, v) s = snd (update_risk_limit name v s)"

lemma convert_limit_kind: "convert_limit key is_int v = Inr c \<Longrightarrow> (case c of LV_int _ \<Rightarrow> is_int | LV_float _ \<Rightarrow> \<not> is_int)"
  by (auto simp: convert_limit_def Let_def split: sum.splits pyfloat.splits if_splits)

definition limit_fits :: "limit_key \<Rightarrow> limit_value \<Rightarrow> bool" where
  "limit_fits k c \<longleftrightarrow>
     (case limit_spec k of (is_int, lo, hi) \<Rightarrow> (case c of LV_int _ \<Rightarrow> is_int | LV_float _ \<Rightarrow> \<not> is_int) \<and>
        (case lo of None \<Rightarrow> True | Some (m, _) \<Rightarrow> m \<le> limit_real c) \<and> (case hi of None \<Rightarrow> True | Some (m, _) \<Rightarrow> limit_real c \<le> m))"

lemma limit_step_cases:
  "limit_step (name, v) s = s \<or> (\<exists>k c. limit_step (name, v) s = set_limit k c s \<and> limit_fits k c)"
proof (cases "map_of limit_keys (str_upper (str_strip name))")
  case None
  then show ?thesis by (simp add: update_risk_limit_def Let_def)
next
  case (Some k)
  obtain is_int lo hi where sp: "limit_spec k = (is_int, lo, hi)" by (cases "limit_spec k")
  show ?thesis
  proof (cases "convert_limit (str_upper (str_strip name)) is_int v")
    case (Inl e)
    with Some sp show ?thesis by (simp add: update_risk_limit_def Let_def)
  next
    case (Inr c)
    show ?thesis
    proof (cases "limit_step (name, v) s = s")
      case False
      with Some sp Inr have "limit_step (name, v) s = set_limit k c s"
        and "case lo of None \<Rightarrow> True | Some (m, _) \<Rightarrow> m \<le> limit_real c" "case hi of None \<Rightarrow> True | Some (m, _) \<Rightarrow> limit_real c \<le> m"
        by (auto simp: update_risk_limit_def Let_def split: option.splits if_splits prod.splits)
      with sp convert_limit_kind [OF Inr] show ?thesis by (intro disjI2 exI [of _ k] exI [of _ c]) (simp add: limit_fits_def)
    qed simp
  qed
qed

lemma limit_step_ok: "limits_ok s \<Longrightarrow> limits_ok (limit_step x s)"
proof -
  assume ok: "limits_ok s"
  obtain name v where x: "x = (name, v)" by (cases x)
  consider "limit_step x s = s" | k c where "limit_step x s = set_limit k c s" "limit_fits k c"
    using limit_step_cases [of name v s] unfolding x by blast
  then show ?thesis
  proof cases
    case 2
    then show ?thesis using ok by (cases k; cases c) (auto simp: limit_fits_def limits_ok_def limits_of_def Let_def)
  qed (use ok in simp)
qed

interpretation limit_sys: op_system limit_step limits_ok
  by unfold_locales (rule limit_step_ok)

section \<open>Properties\<close>

text \<open>An environment in which every callback answers, and a signal that is not an option signal.\<close>

definition demo_risk_env :: risk_env where
  "demo_risk_env = \<lparr>rv_time = 0, rv_get_capital = Inr 1000000, rv_get_open_positions = Inr 0, rv_get_daily_pnl = Inr 0,
     rv_get_volatility = (\<lambda>_. Inr 15), rv_get_margin = (\<lambda>_ _. Inr 0), rv_get_live_vix = Inr 15, rv_repr = (\<lambda>_. []), rv_erf = (\<lambda>_. 0)\<rparr>"

definition demo_signal :: jdict where
  "demo_signal = [(''direction'', JStr ''BUY''), (''price'', JInt 100), (''stop_loss'', JInt 95), (''score'', JInt 80), (''signal_id'', JStr ''S1'')]"

definition demo_metrics :: risk_metrics where
  "demo_metrics = \<lparr>pm_total_capital = 1000000, pm_used_capital = 0, pm_available_capital = 1000000, pm_daily_pnl = 0,
     pm_max_daily_loss = - 2000, pm_current_drawdown = 0, pm_max_drawdown = 0, pm_open_positions = 0, pm_max_open_positions = 1,
     pm_consecutive_losses = 0, pm_max_consecutive_losses = 3, pm_sector_exposure = [], pm_symbol_exposure = []\<rparr>"

definition demo_risk :: risk_service where
  "demo_risk = new_risk_service default_risk_config [] 0"

lemmas demo_risk_defs = demo_risk_env_def demo_signal_def demo_metrics_def demo_risk_def new_risk_service_def default_risk_config_def

lemma demo_signal_price: "safe_num (jget demo_signal ''price'' (JInt 0)) 0 = 100" "safe_num (jget demo_signal ''stop_loss'' (JInt 0)) 0 = 95"
  "signal_direction demo_signal = Inr ''BUY''"
  by (simp_all add: demo_signal_def safe_num_def safe_float_def signal_direction_def upper_char_def)

lemma demo_checks:
  "run_checks (risk_checks demo_risk_env ''NIFTY'' demo_signal demo_metrics) (demo_risk, new_safety) = (Inr None, demo_risk, new_safety)"
proof -
  let ?st = "(demo_risk, new_safety)"
  have 1: "check_daily_loss_limit demo_risk_env demo_metrics ?st = (Inr (risk_eval RD_ALLOWED ''Daily loss limit check passed'' 0), ?st)"
    by (simp add: check_daily_loss_limit_def demo_risk_defs)
  have 2: "check_consecutive_losses demo_metrics ?st = (Inr (risk_eval RD_ALLOWED ''Consecutive loss limit check passed'' 0), ?st)"
    by (simp add: check_consecutive_losses_def demo_risk_defs)
  have 3: "check_daily_trade_count demo_risk_env ?st = (Inr (risk_eval RD_ALLOWED ''Daily trade count check passed'' 0), ?st)"
    by (simp add: check_daily_trade_count_def get_trades_today_def demo_risk_defs)
  have cfg: "rk_max_open_positions (rs_config demo_risk) = 1" "rk_max_portfolio_risk (rs_config demo_risk) = 1 / 4"
    "pm_open_positions demo_metrics = 0" by (simp_all add: demo_risk_defs)
  have "estimate_portfolio_risk demo_risk_env ?st = (Inr 0, ?st)"
    by (simp add: estimate_portfolio_risk_def get_portfolio_risk_metrics_def x_try_def x_bind_def x_ret_def x_lift_def exposure_total_def demo_risk_defs)
  then have 4: "check_portfolio_limits demo_risk_env demo_metrics ?st = (Inr (risk_eval RD_ALLOWED ''Portfolio limits check passed'' (1 / 10)), ?st)"
    using cfg by (simp add: check_portfolio_limits_def Let_def bind_step)
  have 5: "check_greeks_limits demo_risk_env ''NIFTY'' demo_signal ?st = (Inr (risk_eval RD_ALLOWED ''Greeks check skipped - unknown option type'' 0), ?st)"
    by (simp add: check_greeks_limits_def greeks_body_def demo_signal_price)
  have "validate_margin_requirements demo_risk_env c y q (pm_available_capital demo_metrics) = Inr True" if "rk_margin_safety c = 8 / 10" for c y q
    using that by (simp add: validate_margin_requirements_def demo_risk_env_def demo_metrics_def)
  moreover have "rk_margin_safety (rs_config demo_risk) = 8 / 10" by (simp add: demo_risk_defs)
  moreover have "get_lot_size demo_risk ''NIFTY'' = Inr 50" by (simp add: get_lot_size_def lot_sizes_fallback_def demo_risk_defs)
  ultimately have 6: "check_margin_requirements demo_risk_env ''NIFTY'' demo_signal demo_metrics ?st =
      (Inr (risk_eval RD_ALLOWED ''Margin requirements check passed'' (1 / 10)), ?st)"
    by (simp add: check_margin_requirements_def Let_def demo_signal_price)
  have 7: "check_trade_quality demo_signal ?st = (Inr (risk_eval RD_ALLOWED ''Trade quality checks passed'' (1 / 10)), ?st)"
    by (simp add: check_trade_quality_def safe_num_def safe_float_def demo_risk_defs)
  have 8: "check_position_sizing_limits demo_signal ?st = (Inr (risk_eval RD_ALLOWED ''Position sizing limits check passed'' 0), ?st)"
    by (simp add: check_position_sizing_limits_def demo_signal_price)
  have a: "ev_decision (risk_eval RD_ALLOWED m x) \<noteq> RD_DENIED" for m x by (simp add: risk_eval_def)
  show ?thesis
    by (simp add: risk_checks_def bind_step 1 2 3 4 5 6 7 8 a)
qed

lemma demo_size: "\<exists>n. calculate_position_size demo_risk_env c i = Inr n"
proof -
  have "rv_get_capital demo_risk_env = Inr 1000000" by (simp add: demo_risk_env_def)
  then show ?thesis
    by (auto simp: calculate_position_size_def sizing_body_def get_max_lots_per_trade_def Let_def exn_simps)
qed

lemma demo_allowed:
  "\<exists>r. evaluate_trade demo_risk_env ''NIFTY'' demo_signal demo_metrics (demo_risk, new_safety) = (Inr r, demo_risk, new_safety) \<and>
     ev_decision r = RD_ALLOWED"
proof -
  have v: "rv_get_volatility demo_risk_env y = Inr 15" "rv_get_capital demo_risk_env = Inr 1000000" for y by (simp_all add: demo_risk_env_def)
  have l: "get_lot_size demo_risk ''NIFTY'' = Inr 50" by (simp add: get_lot_size_def lot_sizes_fallback_def demo_risk_defs)
  obtain n where n: "calculate_position_size demo_risk_env (rs_config demo_risk)
      \<lparr>si_symbol = ''NIFTY'', si_entry_price = 100, si_stop_loss_price = 95, si_capital_available = pm_available_capital demo_metrics,
       si_risk_per_trade = rk_default_risk (rs_config demo_risk), si_lot_size = 50, si_volatility = 15,
       si_existing_exposure = (case map_of (pm_symbol_exposure demo_metrics) ''NIFTY'' of None \<Rightarrow> 0 | Some x \<Rightarrow> x)\<rparr> = Inr n" using demo_size by blast
  obtain z where "calculate_risk_score demo_risk_env (rs_config demo_risk) ''NIFTY'' demo_signal demo_metrics = Inr z"
    by (simp add: calculate_risk_score_def v Let_def)
  with n l v have "approve_trade demo_risk_env ''NIFTY'' demo_signal demo_metrics demo_risk =
      Inr \<lparr>ev_decision = RD_ALLOWED, ev_reason = ''All risk checks passed'', ev_recommended = Some n, ev_max_allowed = Some n, ev_score = z\<rparr>"
    by (simp add: approve_trade_def demo_signal_price)
  then show ?thesis
    by (simp add: evaluate_trade_def x_try_def evaluate_body_def demo_signal_price bind_step demo_checks) (simp add: x_lift_def)
qed



lemma demo_signal_ok: "signal_ok demo_signal"
  by (simp add: signal_ok_def demo_signal_price)

text \<open>
  C27: Metrics fail closed. If the capital callback raises an exception the service handles, the
  portfolio metrics it returns make \<open>evaluate_trade\<close> deny the trade and set the kill switch, for
  every configured daily loss limit of at least -999999 or loss streak limit of at most 999.
\<close>

theorem metrics_failure_denies:
  assumes "rv_get_capital env = Inl e" "caught [KeyError, TypeError, ValueError, ZeroDivisionError] e" "signal_ok sd"
    and "- 999999 \<le> rk_max_daily_loss (rs_config s) \<or> rk_max_consecutive_losses (rs_config s) \<le> 999"
  shows "\<exists>pm r sf'. get_portfolio_risk_metrics env (s, sf) = (Inr pm, s, sf) \<and>
    evaluate_trade env symbol sd pm (s, sf) = (Inr r, s, sf') \<and> ev_decision r = RD_DENIED \<and> is_hard_halted sf'"
proof -
  have "get_portfolio_risk_metrics env (s, sf) = (Inr (fail_closed_metrics (rs_config s)), s, sf)"
    using assms(1,2) by (simp add: get_portfolio_risk_metrics_def x_try_def)
  moreover have "pm_daily_pnl (fail_closed_metrics (rs_config s)) \<le> rk_max_daily_loss (rs_config s) \<or>
      rk_max_consecutive_losses (rs_config s) \<le> pm_consecutive_losses (fail_closed_metrics (rs_config s))"
    using assms(4) by (simp add: fail_closed_metrics_def)
  ultimately show ?thesis using breach_denies [OF assms(3)] by blast
qed

theorem metrics_failure_denies_witness:
  "\<exists>pm r sf'. get_portfolio_risk_metrics (demo_risk_env\<lparr>rv_get_capital := Inl (Exn ValueError [])\<rparr>) (demo_risk, new_safety) =
       (Inr pm, demo_risk, new_safety) \<and>
     evaluate_trade (demo_risk_env\<lparr>rv_get_capital := Inl (Exn ValueError [])\<rparr>) ''NIFTY'' demo_signal pm (demo_risk, new_safety) =
       (Inr r, demo_risk, sf') \<and> ev_decision r = RD_DENIED \<and> is_hard_halted sf'"
  by (rule metrics_failure_denies [OF _ _ demo_signal_ok, where e = "Exn ValueError []"]) (simp_all add: exn_simps demo_risk_defs)

text \<open>
  The computed position size is bounded. Whatever the mode, the volatility and the callbacks, the
  size is not negative, and the loss of the position at its stop loss is at most the maximum risk per
  trade of the available capital (at most zero lots where that is negative).
\<close>

lemma position_size_bounded:
  assumes "calculate_position_size env c i = Inr n"
  shows "0 \<le> n \<and> of_int n * (\<bar>si_entry_price i - si_stop_loss_price i\<bar> * of_int (si_lot_size i))
    \<le> max 0 (si_capital_available i * rk_max_risk c)"
  using calculate_position_size_cases [OF assms] max_lots_by_capital_bound [of n c i] by auto

text \<open>
  C28: Runtime limits stay valid and in step. From a service whose limits are valid, every sequence of
  \<open>update_risk_limit\<close> calls, with whatever names and values, leaves the limits manager equal to the
  service's configuration, the daily loss limit negative, the counting limits at least 1 and the
  portfolio risk limit between 0 and 1.
\<close>

theorem limits_stay_in_step:
  assumes "limits_ok s"
  shows "limits_ok (fold limit_step updates s)"
  using assms by (rule limit_sys.run_inv)

theorem limits_stay_in_step_witness:
  "limits_ok (fold limit_step [(''max_open'', JInt 0), ('' MAX_OPEN'', JStr ''7''), (''MAX_DAILY_LOSS'', JFloat NaN ''nan'')] demo_risk)"
  by (rule limits_stay_in_step) (simp add: demo_risk_defs limits_ok_def limits_of_def)

text \<open>
  Short positions hide exposure. After a position of negative quantity is recorded in an empty
  service, the reported used capital is negative, the available capital exceeds the capital, and the
  estimated portfolio risk is negative, so the portfolio risk limit cannot be reached.
\<close>

lemma short_position_hides_exposure:
  assumes "get_lot_size s symbol = Inr lot" "0 < lot" "quantity < 0" "0 < price" "rs_positions s = []"
    and "rv_get_capital env = Inr capital" "0 < capital" "rv_get_daily_pnl env = Inr pnl" "rv_get_open_positions env = Inr n"
  shows "\<exists>pm s2 s3 risk. get_portfolio_risk_metrics env (snd (update_position symbol quantity price ts ot (strike, iv, tte) s), sf) = (Inr pm, s2, sf) \<and>
    pm_used_capital pm < 0 \<and> capital < pm_available_capital pm \<and>
    estimate_portfolio_risk env (s2, sf) = (Inr risk, s3, sf) \<and> risk < 0"
proof -
  let ?s = "snd (update_position symbol quantity price ts ot (strike, iv, tte) s)"
  let ?mv = "of_int quantity * price * of_int lot"
  have mv: "?mv < 0" using assms(2-4) by (simp add: mult_neg_pos)
  have u: "exposure_total (rs_positions ?s) = ?mv" using assms(1,3,5) by (simp add: update_position_def exposure_total_def)
  have m: "\<exists>pm t'. get_portfolio_risk_metrics env (t, sf) = (Inr pm, t', sf) \<and> rs_positions t' = rs_positions t \<and>
      pm_used_capital pm = exposure_total (rs_positions t) \<and> pm_total_capital pm = capital \<and>
      pm_available_capital pm = max 0 (capital - exposure_total (rs_positions t))" for t
    using assms(6,8,9) by (simp add: get_portfolio_risk_metrics_def x_try_def Let_def)
  from m [of ?s] obtain pm s2 where 1: "get_portfolio_risk_metrics env (?s, sf) = (Inr pm, s2, sf)" "rs_positions s2 = rs_positions ?s"
    "pm_used_capital pm = ?mv" "pm_available_capital pm = max 0 (capital - ?mv)" using u by auto
  from m [of s2] obtain pm2 s3 where 2: "get_portfolio_risk_metrics env (s2, sf) = (Inr pm2, s3, sf)" "pm_used_capital pm2 = ?mv"
    "pm_total_capital pm2 = capital" using u 1(2) by auto
  have "estimate_portfolio_risk env (s2, sf) = (Inr (?mv / capital), s3, sf)"
    using 2 assms(7) by (simp add: estimate_portfolio_risk_def x_try_def bind_step) (simp add: x_ret_def)
  moreover have "?mv / capital < 0" using mv assms(7) by (rule divide_neg_pos)
  moreover have "capital < pm_available_capital pm" using 1(4) mv assms(7) by simp
  moreover have "pm_used_capital pm < 0" using 1(3) mv by simp
  ultimately show ?thesis using 1(1) by blast
qed

end
