(* ===== verification/Market_Clock.thy ===== *)
theory Market_Clock
  imports Py_Values
begin

text \<open>
  The clock of the trading session and the gates that depend on it: \<open>core/datetime_ist.py\<close>,
  \<open>core/expiry_day_controller.py\<close>, \<open>core/market_warmup.py\<close> and \<open>core/time_of_day_filter.py\<close>.

  A naive IST \<open>datetime\<close> is the number of seconds since 1970-01-01 00:00 IST; a \<open>datetime.time\<close> is the
  number of seconds since midnight. Each operation takes the reading of \<open>now_ist()\<close> it makes as an
  argument (one reading per call). The module-level session bounds are the record \<open>nse_session\<close>.
\<close>

section \<open>Definitions\<close>

subsection \<open>Dates and times\<close>

definition now_ist :: "real \<Rightarrow> real" where
  "now_ist unix = unix + 19800"

definition date_of :: "real \<Rightarrow> int" where
  "date_of dt = \<lfloor>dt / 86400\<rfloor>"

definition time_of :: "real \<Rightarrow> real" where
  "time_of dt = dt - 86400 * of_int (date_of dt)"

text \<open>\<open>datetime.weekday()\<close>: Monday is 0, and 1970-01-01 was a Thursday.\<close>

definition weekday :: "real \<Rightarrow> int" where
  "weekday dt = (date_of dt + 3) mod 7"

definition hour_of :: "real \<Rightarrow> int" where
  "hour_of dt = \<lfloor>time_of dt / 3600\<rfloor>"

definition hm :: "int \<Rightarrow> int \<Rightarrow> real" where
  "hm h m = of_int (3600 * h + 60 * m)"

text \<open>\<open>datetime.time(h, m)\<close>\<close>

definition hm_to_time :: "int \<times> int \<Rightarrow> exn + real" where
  "hm_to_time p =
     (case p of (h, m) \<Rightarrow>
        if \<not> (0 \<le> h \<and> h < 24) then Inl (Exn ValueError ''hour must be in 0..23'')
        else if \<not> (0 \<le> m \<and> m < 60) then Inl (Exn ValueError ''minute must be in 0..59'')
        else Inr (hm h m))"

subsection \<open>Session bounds\<close>

record nse_session =
  ns_open :: "int \<times> int"
  ns_close :: "int \<times> int"
  ns_continuous_open :: "int \<times> int"
  ns_schedule_closed :: "int \<times> int"
  ns_block_entries_from :: "int \<times> int"
  ns_post_open_mins :: int
  ns_early_end :: "int \<times> int"
  ns_saturday :: bool

definition default_session :: nse_session where
  "default_session =
     \<lparr>ns_open = (9, 15), ns_close = (15, 20), ns_continuous_open = (9, 20), ns_schedule_closed = (15, 30),
      ns_block_entries_from = (15, 0), ns_post_open_mins = 10, ns_early_end = (10, 15), ns_saturday = False\<rparr>"

definition configure_nse_cash_session ::
    "int \<times> int \<Rightarrow> int \<times> int \<Rightarrow> (int \<times> int) option \<Rightarrow> (int \<times> int) option \<Rightarrow> (int \<times> int) option \<Rightarrow> int option \<Rightarrow>
     (int \<times> int) option \<Rightarrow> bool option \<Rightarrow> nse_session \<Rightarrow> nse_session" where
  "configure_nse_cash_session open_hm close_hm cont sched block mins early sat ns =
     \<lparr>ns_open = open_hm, ns_close = close_hm,
      ns_continuous_open = (case cont of None \<Rightarrow> ns_continuous_open ns | Some x \<Rightarrow> x),
      ns_schedule_closed = (case sched of None \<Rightarrow> ns_schedule_closed ns | Some x \<Rightarrow> x),
      ns_block_entries_from = (case block of None \<Rightarrow> ns_block_entries_from ns | Some x \<Rightarrow> x),
      ns_post_open_mins = (case mins of None \<Rightarrow> ns_post_open_mins ns | Some m \<Rightarrow> max 0 m),
      ns_early_end = (case early of None \<Rightarrow> ns_early_end ns | Some x \<Rightarrow> x),
      ns_saturday = (case sat of None \<Rightarrow> ns_saturday ns | Some b \<Rightarrow> b)\<rparr>"

definition cfg_int :: "jdict \<Rightarrow> string \<Rightarrow> int \<Rightarrow> exn + int" where
  "cfg_int cfg k d = py_int (jget cfg k (JInt d))"

definition cfg_hm :: "jdict \<Rightarrow> string \<Rightarrow> int \<Rightarrow> string \<Rightarrow> int \<Rightarrow> exn + int \<times> int" where
  "cfg_hm cfg kh h km m = res_bind (cfg_int cfg kh h) (\<lambda>a. res_bind (cfg_int cfg km m) (\<lambda>b. Inr (a, b)))"

definition apply_nse_session_from_cfg :: "jdict \<Rightarrow> nse_session \<Rightarrow> exn option \<times> nse_session" where
  "apply_nse_session_from_cfg cfg ns =
     (case
        res_bind (cfg_hm cfg ''NSE_CASH_SESSION_START_HOUR'' 9 ''NSE_CASH_SESSION_START_MINUTE'' 15) (\<lambda>op.
        res_bind (cfg_hm cfg ''NSE_CASH_SESSION_END_HOUR'' 15 ''NSE_CASH_SESSION_END_MINUTE'' 20) (\<lambda>cl.
        res_bind (cfg_hm cfg ''NSE_CONTINUOUS_TRADE_START_HOUR'' 9 ''NSE_CONTINUOUS_TRADE_START_MINUTE'' 20) (\<lambda>co.
        res_bind (cfg_hm cfg ''NSE_MARKET_STATUS_CLOSED_HOUR'' 15 ''NSE_MARKET_STATUS_CLOSED_MINUTE'' 30) (\<lambda>sc.
        res_bind (cfg_hm cfg ''NSE_BLOCK_NEW_ENTRIES_FROM_HOUR'' 15 ''NSE_BLOCK_NEW_ENTRIES_FROM_MINUTE'' 0) (\<lambda>bl.
        res_bind (cfg_int cfg ''NSE_POST_OPEN_NO_TRADE_MINUTES'' 10) (\<lambda>mins.
        res_bind (cfg_hm cfg ''NSE_EARLY_SESSION_END_HOUR'' 10 ''NSE_EARLY_SESSION_END_MINUTE'' 15) (\<lambda>ea.
          Inr (configure_nse_cash_session op cl (Some co) (Some sc) (Some bl) (Some mins) (Some ea)
                 (Some (jval_true (jget cfg ''NSE_SATURDAY_ALLOWED'' (JBool False)))) ns)))))))) of
        Inr ns' \<Rightarrow> (None, ns')
      | Inl e \<Rightarrow>
          if caught [ValueError, TypeError, KeyError, OtherExn ''IndexError''] e
          then (None, configure_nse_cash_session (9, 15) (15, 20) (Some (9, 20)) (Some (15, 30)) (Some (15, 0))
                        (Some 10) (Some (10, 15)) None ns)
          else (Some e, ns))"

definition set_saturday_allowed :: "bool \<Rightarrow> nse_session \<Rightarrow> nse_session" where
  "set_saturday_allowed b ns = ns\<lparr>ns_saturday := b\<rparr>"

subsection \<open>Session queries\<close>

definition is_nse_cash_session :: "nse_session \<Rightarrow> real \<Rightarrow> exn + bool" where
  "is_nse_cash_session ns dt =
     (if weekday dt \<ge> 5 \<and> \<not> (weekday dt = 5 \<and> ns_saturday ns) then Inr False
      else res_bind (hm_to_time (ns_open ns)) (\<lambda>lo. res_bind (hm_to_time (ns_close ns)) (\<lambda>hi.
             Inr (lo \<le> time_of dt \<and> time_of dt \<le> hi))))"

definition is_nse_continuous_trading_window :: "nse_session \<Rightarrow> real \<Rightarrow> exn + bool" where
  "is_nse_continuous_trading_window ns t =
     res_bind (hm_to_time (ns_continuous_open ns)) (\<lambda>lo. res_bind (hm_to_time (ns_close ns)) (\<lambda>hi. Inr (lo \<le> t \<and> t \<le> hi)))"

text \<open>The end of the zone is a time of day, so it wraps at midnight.\<close>

definition is_nse_post_open_no_trade_zone :: "nse_session \<Rightarrow> real \<Rightarrow> exn + bool" where
  "is_nse_post_open_no_trade_zone ns t =
     res_bind (hm_to_time (ns_open ns)) (\<lambda>start.
       Inr (start \<le> t \<and> t \<le> time_of (start + 60 * of_int (ns_post_open_mins ns))))"

definition mins_until_nse_cash_close :: "nse_session \<Rightarrow> real \<Rightarrow> exn + real" where
  "mins_until_nse_cash_close ns dt =
     res_bind (hm_to_time (ns_close ns)) (\<lambda>c. Inr (max 0 ((86400 * of_int (date_of dt) + c - dt) / 60)))"

definition nse_close_safety_start_time :: "nse_session \<Rightarrow> int \<Rightarrow> exn + real" where
  "nse_close_safety_start_time ns safety_mins =
     res_bind (hm_to_time (ns_close ns)) (\<lambda>c. Inr (time_of (c - 60 * of_int (max 0 safety_mins))))"

definition is_in_auction_session :: "real \<Rightarrow> bool" where
  "is_in_auction_session dt \<longleftrightarrow>
     (hm 9 0 \<le> time_of dt \<and> time_of dt < hm 9 15) \<or> (hm 15 30 \<le> time_of dt \<and> time_of dt < hm 15 45)"

subsection \<open>Expiry day controller\<close>

datatype strategy_type = SY_DIRECTIONAL | SY_SPREAD | SY_STRADDLE | SY_IRON_CONDOR | SY_OPTIONS_SELLING | SY_UNKNOWN

datatype expiry_session = EX_MORNING | EX_MIDDAY | EX_CAUTION | EX_BLOCKED

fun expiry_session_value :: "expiry_session \<Rightarrow> string" where
  "expiry_session_value EX_MORNING = ''MORNING''"
| "expiry_session_value EX_MIDDAY = ''MIDDAY''"
| "expiry_session_value EX_CAUTION = ''CAUTION''"
| "expiry_session_value EX_BLOCKED = ''BLOCKED''"

definition index_expiry_map :: "(string, int) dict" where
  "index_expiry_map =
     [(''NIFTY'', 3), (''BANKNIFTY'', 3), (''FINNIFTY'', 3), (''MIDCPNIFTY'', 3), (''SENSEX'', 4), (''BANKEX'', 4)]"

definition default_expiry_weekday :: int where
  "default_expiry_weekday = 3"

record expiry_result =
  xp_allowed :: bool
  xp_session :: expiry_session
  xp_reason :: string
  xp_risk_level :: string
  xp_warnings :: "string list"

record expiry_controller =
  xk_strategy :: strategy_type
  xk_enabled :: bool
  xk_caution_start :: real
  xk_block_after :: real

definition new_expiry_controller :: "strategy_type \<Rightarrow> bool \<Rightarrow> real option \<Rightarrow> real option \<Rightarrow> expiry_controller" where
  "new_expiry_controller sy enabled caution block =
     \<lparr>xk_strategy = sy, xk_enabled = enabled,
      xk_caution_start = (case caution of None \<Rightarrow> hm 12 30 | Some t \<Rightarrow> t),
      xk_block_after = (case block of None \<Rightarrow> hm 13 0 | Some t \<Rightarrow> t)\<rparr>"

definition set_strategy_type :: "strategy_type \<Rightarrow> expiry_controller \<Rightarrow> expiry_controller" where
  "set_strategy_type sy x = x\<lparr>xk_strategy := sy\<rparr>"

definition get_expiry_weekday :: "string option \<Rightarrow> int" where
  "get_expiry_weekday index_name =
     (case index_name of
        None \<Rightarrow> default_expiry_weekday
      | Some n \<Rightarrow> (case map_of index_expiry_map (str_upper n) of None \<Rightarrow> default_expiry_weekday | Some d \<Rightarrow> d))"

definition is_expiry_day :: "real \<Rightarrow> string option \<Rightarrow> bool" where
  "is_expiry_day dt index_name \<longleftrightarrow> weekday dt = get_expiry_weekday index_name"

definition get_caution_risk_level :: "strategy_type \<Rightarrow> string" where
  "get_caution_risk_level sy =
     (if sy \<in> {SY_OPTIONS_SELLING, SY_IRON_CONDOR, SY_SPREAD} then ''HIGH''
      else if sy = SY_STRADDLE then ''MEDIUM'' else ''LOW'')"

text \<open>\<open>show_time\<close> is \<open>str\<close> of a \<open>datetime.time\<close> in the messages.\<close>

definition can_enter_position :: "(real \<Rightarrow> string) \<Rightarrow> expiry_controller \<Rightarrow> real \<Rightarrow> string option \<Rightarrow> expiry_result" where
  "can_enter_position show_time x now index_name =
     (let mk = (\<lambda>ok se why lvl ws. \<lparr>xp_allowed = ok, xp_session = se, xp_reason = why, xp_risk_level = lvl, xp_warnings = ws\<rparr>);
          t = time_of now
      in if \<not> xk_enabled x then mk True EX_MORNING ''Expiry controls disabled'' ''LOW'' []
         else if index_name \<noteq> None \<and> \<not> is_expiry_day now index_name
         then mk True EX_MORNING (''Today is not '' @ str_upper (the index_name) @ '' expiry day'') ''LOW'' []
         else if t \<ge> xk_block_after x
         then mk False EX_BLOCKED (''Entry blocked after '' @ show_time (xk_block_after x) @ '' on expiry day'') ''HIGH''
                [''Expiry day entry window closed'']
         else if t \<ge> xk_caution_start x
         then (let w = ''Caution period started at '' @ show_time (xk_caution_start x)
               in if xk_strategy x = SY_OPTIONS_SELLING
                  then mk False EX_CAUTION ''Options selling blocked in caution period'' ''HIGH''
                         [w, ''High gamma risk for short options'']
                  else mk True EX_CAUTION ''Entry allowed with caution'' (get_caution_risk_level (xk_strategy x))
                         (w # (if xk_strategy x = SY_IRON_CONDOR then [''Iron condor risky in caution - consider closing''] else [])))
         else mk True (if t < hm 12 0 then EX_MORNING else EX_MIDDAY) ''Entry allowed in morning/midday'' ''LOW'' [])"

definition close_all_by :: real where
  "close_all_by = hm 14 30"

definition should_close_positions :: "(real \<Rightarrow> string) \<Rightarrow> real \<Rightarrow> string option \<Rightarrow> bool \<times> string" where
  "should_close_positions show_time now index_name =
     (if index_name \<noteq> None \<and> \<not> is_expiry_day now index_name then (False, [])
      else if time_of now \<ge> close_all_by then (True, ''Close all positions before '' @ show_time close_all_by)
      else (False, []))"

text \<open>Only the hour and the minute are replaced: the seconds of \<open>now\<close> stay.\<close>

definition get_closing_warning_time :: "real \<Rightarrow> real option" where
  "get_closing_warning_time now =
     (let secs = time_of now - 60 * of_int \<lfloor>time_of now / 60\<rfloor>;
          w = 86400 * of_int (date_of now) + close_all_by + secs - 1800
      in if w > now then Some w else None)"

definition estimate_premium_decay :: "real \<Rightarrow> int \<Rightarrow> real \<Rightarrow> real" where
  "estimate_premium_decay premium dte hours =
     (if dte \<le> 0 \<or> hours \<le> 0 then 0
      else max 0 (premium * (1 - (7 / 100) / (13 / 2) * hours / 24)))"

definition get_expiry_week_type :: "int \<Rightarrow> string" where
  "get_expiry_week_type d =
     (if d \<ge> 25 then ''MONTHLY'' else if d \<ge> 18 then ''WEEKLY_3'' else if d \<ge> 11 then ''WEEKLY_2'' else ''WEEKLY_1'')"

subsection \<open>Warm-up after the opening\<close>

record warmup =
  wu_enabled :: bool
  wu_duration :: int
  wu_size_mult :: real
  wu_score_boost :: int
  wu_max_trades :: int
  wu_entries :: "(string, real) dict"
  wu_day :: "int option"
  wu_end :: "real option"

definition market_open_today :: "real \<Rightarrow> real option" where
  "market_open_today now = (if weekday now \<ge> 5 then None else Some (86400 * of_int (date_of now) + hm 9 15))"

definition maybe_reset_day :: "real \<Rightarrow> warmup \<Rightarrow> warmup" where
  "maybe_reset_day now w =
     (if wu_day w \<noteq> Some (date_of now)
      then w\<lparr>wu_day := Some (date_of now), wu_entries := [],
             wu_end := map_option (\<lambda>o'. o' + 60 * of_int (wu_duration w)) (market_open_today now)\<rparr>
      else w)"

definition is_warmup_active :: "real \<Rightarrow> warmup \<Rightarrow> bool \<times> warmup" where
  "is_warmup_active now w =
     (if \<not> wu_enabled w then (False, w)
      else let w' = maybe_reset_day now w
           in (case wu_end w' of None \<Rightarrow> False | Some e \<Rightarrow> now < e, w'))"

text \<open>\<open>unix\<close> is the reading of \<open>time.time()\<close>.\<close>

definition wu_can_enter :: "real \<Rightarrow> real \<Rightarrow> warmup \<Rightarrow> bool \<times> warmup" where
  "wu_can_enter unix now w =
     (if \<not> wu_enabled w then (True, w)
      else case is_warmup_active now w of
          (False, w') \<Rightarrow> (True, w')
        | (True, w') \<Rightarrow>
            (int (length (filter (\<lambda>ts. unix - ts < 3600) (dict_vals (wu_entries w')))) < wu_max_trades w', w'))"

definition try_mark_entry :: "real \<Rightarrow> real \<Rightarrow> string \<Rightarrow> warmup \<Rightarrow> bool \<times> warmup" where
  "try_mark_entry unix now name w =
     (case wu_can_enter unix now w of
        (False, w') \<Rightarrow> (False, w')
      | (True, w') \<Rightarrow> (True, w'\<lparr>wu_entries := dict_set name unix (wu_entries w')\<rparr>))"

definition position_size_mult :: "real \<Rightarrow> warmup \<Rightarrow> real \<times> warmup" where
  "position_size_mult now w =
     (case is_warmup_active now w of (a, w') \<Rightarrow> (if a then wu_size_mult w' else 1, w'))"

definition score_threshold_adjustment :: "real \<Rightarrow> warmup \<Rightarrow> int \<times> warmup" where
  "score_threshold_adjustment now w =
     (case is_warmup_active now w of (a, w') \<Rightarrow> (if a then wu_score_boost w' else 0, w'))"

definition adjusted_position_size :: "real \<Rightarrow> int \<Rightarrow> warmup \<Rightarrow> int \<times> warmup" where
  "adjusted_position_size now base w =
     (case is_warmup_active now w of
        (a, w') \<Rightarrow> (if a then max 1 (round_half_even (of_int base * wu_size_mult w')) else base, w'))"

definition wu_reset_day :: "warmup \<Rightarrow> warmup" where
  "wu_reset_day w = w\<lparr>wu_day := None, wu_end := None, wu_entries := []\<rparr>"

subsection \<open>Time of day filter\<close>

record tod_config =
  to_enabled :: bool
  to_start_hour :: int
  to_end_hour :: int
  to_trending_only :: bool

definition should_allow_entry :: "tod_config \<Rightarrow> real \<Rightarrow> string option \<Rightarrow> bool \<times> string" where
  "should_allow_entry c now regime =
     (if \<not> to_enabled c then (True, [])
      else let h = hour_of now
           in if to_start_hour c \<le> h \<and> h < to_end_hour c
              then if to_trending_only c \<and> truthy regime
                   then if str_upper (the regime) \<in> {''TRENDING'', ''BULLISH''}
                        then (True, ''Blocked hour but allowing TRENDING regime'')
                        else (False, ''Blocked hour ('' @ show_int h @ '') for non-TRENDING regime'')
                   else (False, ''Blocked trading hours: '' @ show_int (to_start_hour c) @ ''-'' @ show_int (to_end_hour c) @ '' IST'')
              else (True, []))"

definition get_restriction_level :: "tod_config \<Rightarrow> real \<Rightarrow> string" where
  "get_restriction_level c now =
     (if \<not> to_enabled c then ''NONE''
      else if to_start_hour c \<le> hour_of now \<and> hour_of now < to_end_hour c then ''BLOCKED'' else ''ALLOWED'')"

section \<open>Lemmas\<close>

lemma time_of_bounds: "0 \<le> time_of dt" "time_of dt < 86400"
proof -
  have "of_int (date_of dt) \<le> dt / 86400" "dt / 86400 < of_int (date_of dt) + 1"
    using floor_correct [of "dt / 86400"] by (simp_all add: date_of_def)
  then show "0 \<le> time_of dt" "time_of dt < 86400" by (simp_all add: time_of_def field_simps)
qed

lemma weekday_range: "0 \<le> weekday dt" "weekday dt < 7"
  by (simp_all add: weekday_def)

text \<open>
  Without an index name the controller never looks at the date: from the block time on it refuses
  entries on every day of the week.
\<close>

lemma expiry_block_every_day:
  "xk_enabled x \<Longrightarrow> xk_block_after x \<le> time_of now \<Longrightarrow> \<not> xp_allowed (can_enter_position st x now None)"
  by (simp add: can_enter_position_def Let_def)

lemma expiry_block_named:
  "xk_enabled x \<Longrightarrow> \<not> is_expiry_day now (Some n) \<Longrightarrow> xp_allowed (can_enter_position st x now (Some n))"
  by (simp add: can_enter_position_def Let_def)

text \<open>Entries are recorded by \<open>try_mark_entry\<close> only; without it the cap of the warm-up never binds.\<close>

lemma maybe_reset_day_entries: "wu_entries w = [] \<Longrightarrow> wu_entries (maybe_reset_day now w) = []"
  "wu_max_trades (maybe_reset_day now w) = wu_max_trades w" "wu_enabled (maybe_reset_day now w) = wu_enabled w"
  by (simp_all add: maybe_reset_day_def)

lemma unmarked_warmup_admits:
  "wu_entries w = [] \<Longrightarrow> 0 < wu_max_trades w \<Longrightarrow>
     fst (wu_can_enter unix now w) \<and> wu_entries (snd (wu_can_enter unix now w)) = []"
  by (auto simp: wu_can_enter_def is_warmup_active_def maybe_reset_day_entries dict_vals_def Let_def split: bool.splits)

end
