(* ===== verification/Trade_Guards.thy ===== *)
theory Trade_Guards
  imports Market_Clock
begin

text \<open>
  The checks and adjustments around an entry: liquidity of the quote (\<open>core/liquidity_guard.py\<close>),
  margin (\<open>core/risk/margin_validator.py\<close>), re-entry after a stop loss (\<open>core/reentry_evaluator.py\<close>),
  the session's win rate (\<open>core/intraday_performance_monitor.py\<close>) and the choice of the strike
  (\<open>core/strike_selector.py\<close> with \<open>atm_delta\<close> of \<open>core/option_premium_model.py\<close>).

  Configuration values have their documented types and are gathered in a record per component. \<open>fs\<close> is
  the printing of a float by \<open>str\<close>.
\<close>

section \<open>Definitions\<close>

subsection \<open>Liquidity of the quote\<close>

record liq_config =
  lq_enabled :: bool
  lq_max_spread :: real
  lq_min_premium :: real
  lq_min_oi :: int
  lq_min_volume :: int

definition default_liq_config :: liq_config where
  "default_liq_config = \<lparr>lq_enabled = True, lq_max_spread = 3, lq_min_premium = 5, lq_min_oi = 100, lq_min_volume = 10\<rparr>"

record liq_check =
  lc_passed :: bool
  lc_spread_pct :: real
  lc_bid :: real
  lc_ask :: real
  lc_mid :: real
  lc_oi :: int
  lc_volume :: int
  lc_reject_reason :: "string option"

text \<open>\<open>int(v or 0)\<close>; the handler of \<open>TypeError\<close> and \<open>ValueError\<close> answers with an invalid quote.\<close>

definition int_or_zero :: "jval \<Rightarrow> exn + int" where
  "int_or_zero v = (if jval_true v then py_int v else Inr 0)"

definition check_entry_liquidity ::
    "(real \<Rightarrow> string) \<Rightarrow> liq_config \<Rightarrow> real \<Rightarrow> real \<Rightarrow> jval \<Rightarrow> jval \<Rightarrow> exn + liq_check" where
  "check_entry_liquidity fs c bid ask oi volume =
     (case res_bind (int_or_zero oi) (\<lambda>n. res_bind (int_or_zero volume) (\<lambda>v. Inr (n, v))) of
        Inl e \<Rightarrow>
          if caught [TypeError, ValueError] e
          then Inr \<lparr>lc_passed = False, lc_spread_pct = 0, lc_bid = 0, lc_ask = 0, lc_mid = 0, lc_oi = 0, lc_volume = 0,
                    lc_reject_reason = Some ''Invalid quote data''\<rparr>
          else Inl e
      | Inr (n, v) \<Rightarrow>
          let mk = (\<lambda>ok sp mid why. \<lparr>lc_passed = ok, lc_spread_pct = sp, lc_bid = bid, lc_ask = ask, lc_mid = mid,
                                     lc_oi = n, lc_volume = v, lc_reject_reason = why\<rparr>);
              mid = (bid + ask) / 2;
              spread = (if mid > 0 then (ask - bid) / mid * 100 else 999)
          in Inr (if \<not> lq_enabled c then mk True 0 (if bid + ask > 0 then mid else 0) None
                  else if bid \<le> 0 then mk False 0 0 (Some ''No bid quote'')
                  else if ask \<le> 0 then mk False 0 0 (Some ''No ask quote'')
                  else if ask \<le> bid then mk False 0 0 (Some ''Inverted market (ask<=bid)'')
                  else if mid < lq_min_premium c
                  then mk False spread mid (Some (''Premium '' @ fmt_f 2 mid @ '' below minimum '' @ fs (lq_min_premium c)))
                  else if spread > lq_max_spread c
                  then mk False spread mid (Some (''Spread '' @ fmt_f 1 spread @ ''% > max '' @ fs (lq_max_spread c) @ ''%''))
                  else if n < lq_min_oi c
                  then mk False spread mid (Some (''OI '' @ show_int n @ '' < minimum '' @ show_int (lq_min_oi c)))
                  else if v < lq_min_volume c
                  then mk False spread mid (Some (''Volume '' @ show_int v @ '' < minimum '' @ show_int (lq_min_volume c)))
                  else mk True (round_to 2 spread) (round_to 2 mid) None))"

subsection \<open>Margin\<close>

record margin_config =
  mg_reserve_pct :: real
  mg_warn_pct :: real

definition default_margin_config :: margin_config where
  "default_margin_config = \<lparr>mg_reserve_pct = 5 / 100, mg_warn_pct = 80 / 100\<rparr>"

record margin_result =
  mr_allowed :: bool
  mr_required :: real
  mr_available :: real
  mr_buffer :: real
  mr_reserve :: real
  mr_error :: "string option"
  mr_warning :: "string option"

definition margin_usage :: "real \<Rightarrow> real \<Rightarrow> real" where
  "margin_usage required available = (if available > 0 then required / available else 0)"

definition validate_margin :: "margin_config \<Rightarrow> real \<Rightarrow> real \<Rightarrow> int \<Rightarrow> string \<Rightarrow> margin_result" where
  "validate_margin c available per_lot qty name =
     (if qty \<le> 0
      then \<lparr>mr_allowed = False, mr_required = 0, mr_available = available, mr_buffer = 0, mr_reserve = 0,
            mr_error = Some ''Invalid quantity: must be positive'', mr_warning = None\<rparr>
      else
        let required = per_lot * of_int qty; buffer = available - required; reserve = available * mg_reserve_pct c;
            usage = margin_usage required available
        in if buffer < reserve
           then \<lparr>mr_allowed = False, mr_required = required, mr_available = available, mr_buffer = buffer, mr_reserve = reserve,
                 mr_error = Some (''MARGIN INSUFFICIENT for '' @ name @ '': Need '' @ fmt_f 2 required @ '', Have ''
                   @ fmt_f 2 available @ '', Post-trade buffer '' @ fmt_f 2 buffer @ '' below safety reserve '' @ fmt_f 2 reserve),
                 mr_warning = None\<rparr>
           else \<lparr>mr_allowed = True, mr_required = required, mr_available = available, mr_buffer = buffer, mr_reserve = reserve,
                 mr_error = None,
                 mr_warning = (if usage > mg_warn_pct c
                   then Some (''MARGIN WARNING for '' @ name @ '': Using '' @ fmt_pct 1 usage @ '' of available margin (''
                          @ fmt_f 2 required @ '' of '' @ fmt_f 2 available @ '')'') else None)\<rparr>)"

definition validate_with_position :: "margin_config \<Rightarrow> real \<Rightarrow> real \<Rightarrow> real \<Rightarrow> int \<Rightarrow> string \<Rightarrow> margin_result" where
  "validate_with_position c available existing per_lot qty name =
     (let required = existing + per_lot * of_int qty; buffer = available - required; reserve = available * mg_reserve_pct c;
          usage = margin_usage required available
      in if buffer < reserve
         then \<lparr>mr_allowed = False, mr_required = required, mr_available = available, mr_buffer = buffer, mr_reserve = reserve,
               mr_error = Some (''MARGIN INSUFFICIENT for '' @ name @ '' (with existing position): Need '' @ fmt_f 2 required
                 @ '', Have '' @ fmt_f 2 available),
               mr_warning = None\<rparr>
         else \<lparr>mr_allowed = True, mr_required = required, mr_available = available, mr_buffer = buffer, mr_reserve = reserve,
               mr_error = None,
               mr_warning = (if usage > mg_warn_pct c
                 then Some (''MARGIN WARNING: Using '' @ fmt_pct 1 usage @ '' of available margin'') else None)\<rparr>)"

subsection \<open>Re-entry after a stop loss\<close>

record reentry_config =
  re_enabled :: bool
  re_cooldown_mins :: real
  re_score_boost :: int
  re_max :: int
  re_same_dir :: bool

record reentry_tracker =
  rt_index :: string
  rt_sl_ts :: "real option"
  rt_sl_direction :: "string option"
  rt_sl_score :: int
  rt_reentries :: int
  rt_wins :: int
  rt_losses :: int

definition new_tracker :: "string \<Rightarrow> reentry_tracker" where
  "new_tracker name =
     \<lparr>rt_index = name, rt_sl_ts = None, rt_sl_direction = None, rt_sl_score = 0, rt_reentries = 0, rt_wins = 0, rt_losses = 0\<rparr>"

record reentry_decision =
  rd_allowed :: bool
  rd_reason :: string
  rd_cooldown :: int
  rd_score_required :: int
  rd_original_score :: int
  rd_current_score :: int
  rd_direction_intact :: bool

definition record_outcome :: "bool \<Rightarrow> reentry_tracker \<Rightarrow> reentry_tracker" where
  "record_outcome was_profit t = (if was_profit then t\<lparr>rt_wins := rt_wins t + 1\<rparr> else t\<lparr>rt_losses := rt_losses t + 1\<rparr>)"

definition record_stop_loss :: "real \<Rightarrow> string \<Rightarrow> int \<Rightarrow> reentry_tracker \<Rightarrow> reentry_tracker" where
  "record_stop_loss now direction score t =
     t\<lparr>rt_sl_ts := Some now, rt_sl_direction := Some (str_upper direction), rt_sl_score := score\<rparr>"

definition show_opt :: "string option \<Rightarrow> string" where
  "show_opt x = (case x of None \<Rightarrow> ''None'' | Some s \<Rightarrow> s)"

definition evaluate_reentry :: "reentry_config \<Rightarrow> real \<Rightarrow> int \<Rightarrow> string \<Rightarrow> reentry_tracker \<Rightarrow> reentry_decision" where
  "evaluate_reentry c now score direction t =
     (let cooldown = py_trunc (re_cooldown_mins c * 60); dir = str_upper direction;
          required = rt_sl_score t + re_score_boost c;
          pass = (\<lambda>why. \<lparr>rd_allowed = True, rd_reason = why, rd_cooldown = 0, rd_score_required = 0, rd_original_score = 0,
                         rd_current_score = score, rd_direction_intact = True\<rparr>);
          no = (\<lambda>why cd. \<lparr>rd_allowed = False, rd_reason = why, rd_cooldown = cd, rd_score_required = required,
                          rd_original_score = rt_sl_score t, rd_current_score = score,
                          rd_direction_intact = (Some dir = rt_sl_direction t)\<rparr>)
      in if \<not> re_enabled c then pass ''reentry_enabled=false (pass-through)''
         else case rt_sl_ts t of
             None \<Rightarrow> pass ''First entry (no prior SL today)''
           | Some ts \<Rightarrow>
               let elapsed = now - ts; remaining = py_trunc (of_int cooldown - elapsed)
               in if elapsed < of_int cooldown then no (''Cooldown: '' @ show_int remaining @ ''s remaining'') remaining
                  else if re_same_dir c \<and> Some dir \<noteq> rt_sl_direction t
                  then no (''Direction changed: original='' @ show_opt (rt_sl_direction t) @ '' current='' @ dir) 0
                  else if score < required
                  then no (''Score '' @ show_int score @ '' < required '' @ show_int required @ '' (original ''
                         @ show_int (rt_sl_score t) @ '' + boost '' @ show_int (re_score_boost c) @ '')'') 0
                  else if rt_reentries t \<ge> re_max c
                  then no (''Max re-entries reached ('' @ show_int (rt_reentries t) @ ''/'' @ show_int (re_max c) @ '')'') 0
                  else \<lparr>rd_allowed = True,
                        rd_reason = ''Re-entry allowed: score='' @ show_int score @ '' dir='' @ dir @ '' cooldown_elapsed=''
                          @ show_int (py_trunc elapsed) @ ''s'',
                        rd_cooldown = 0, rd_score_required = required, rd_original_score = rt_sl_score t,
                        rd_current_score = score, rd_direction_intact = True\<rparr>)"

definition record_reentry :: "reentry_tracker \<Rightarrow> reentry_tracker" where
  "record_reentry t = t\<lparr>rt_reentries := rt_reentries t + 1\<rparr>"

definition rt_reset_daily :: "reentry_tracker \<Rightarrow> reentry_tracker" where
  "rt_reset_daily t = t\<lparr>rt_sl_ts := None, rt_sl_direction := None, rt_sl_score := 0, rt_reentries := 0\<rparr>"

definition build_reentry_trackers :: "string list \<Rightarrow> (string, reentry_tracker) dict" where
  "build_reentry_trackers names = fold (\<lambda>n d. dict_set n (new_tracker n) d) names []"

subsection \<open>The session's win rate\<close>

datatype adapt_level = AL_NORMAL | AL_CAUTIOUS | AL_DEFENSIVE

record adapt_params =
  ap_boost :: int
  ap_mult :: real
  ap_reason :: string
  ap_level :: adapt_level

definition normal_params :: adapt_params where
  "normal_params = \<lparr>ap_boost = 0, ap_mult = 1, ap_reason = ''Normal session'', ap_level = AL_NORMAL\<rparr>"

record monitor_config =
  ic_enabled :: bool
  ic_min_trades :: int
  ic_def_rate :: real
  ic_cau_rate :: real
  ic_def_mult :: real
  ic_cau_mult :: real
  ic_def_boost :: int
  ic_cau_boost :: int

definition default_monitor_config :: monitor_config where
  "default_monitor_config =
     \<lparr>ic_enabled = True, ic_min_trades = 3, ic_def_rate = 25 / 100, ic_cau_rate = 40 / 100,
      ic_def_mult = 50 / 100, ic_cau_mult = 75 / 100, ic_def_boost = 10, ic_cau_boost = 5\<rparr>"

text \<open>\<open>pm_date\<close> is the session date, \<open>None\<close> before the first use; \<open>_last_level\<close> is never read.\<close>

record perf_monitor =
  pf_cfg :: monitor_config
  pf_date :: "int option"
  pf_trades :: "(real \<times> bool) list"
  pf_consec :: int
  pf_level :: adapt_level

definition new_monitor :: "monitor_config \<Rightarrow> perf_monitor" where
  "new_monitor c = \<lparr>pf_cfg = c, pf_date = None, pf_trades = [], pf_consec = 0, pf_level = AL_NORMAL\<rparr>"

definition pf_reset_state :: "perf_monitor \<Rightarrow> perf_monitor" where
  "pf_reset_state m = m\<lparr>pf_trades := [], pf_consec := 0, pf_level := AL_NORMAL\<rparr>"

definition roll_session_if_new_day :: "real \<Rightarrow> perf_monitor \<Rightarrow> perf_monitor" where
  "roll_session_if_new_day now m =
     (if Some (date_of now) \<noteq> pf_date m then pf_reset_state (m\<lparr>pf_date := Some (date_of now)\<rparr>) else m)"

definition win_rate :: "(real \<times> bool) list \<Rightarrow> real" where
  "win_rate ts = real (length (filter snd ts)) / real (length ts)"

definition recovered_level :: "perf_monitor \<Rightarrow> adapt_level" where
  "recovered_level m =
     (let ts = pf_trades m; n = length ts
      in if n \<ge> 3 \<and> list_all snd (drop (n - 3) ts)
         then (case pf_level m of AL_DEFENSIVE \<Rightarrow> AL_CAUTIOUS | _ \<Rightarrow> AL_NORMAL)
         else pf_level m)"

definition next_level :: "perf_monitor \<Rightarrow> adapt_level" where
  "next_level m =
     (let wr = win_rate (pf_trades m); l = recovered_level m
      in if wr < ic_def_rate (pf_cfg m) then AL_DEFENSIVE
         else if wr < ic_cau_rate (pf_cfg m) then (if l \<noteq> AL_DEFENSIVE then AL_CAUTIOUS else l)
         else l)"

text \<open>\<open>n < min_trades\<close> also covers no trades where the minimum is positive; with a minimum of 0 and no
  trades the division raises.\<close>

definition compute_adaptation :: "perf_monitor \<Rightarrow> (exn + adapt_params) \<times> perf_monitor" where
  "compute_adaptation m =
     (let c = pf_cfg m; ts = pf_trades m
      in if \<not> ic_enabled c \<or> int (length ts) < ic_min_trades c then (Inr normal_params, m)
         else if ts = [] then (Inl (Exn ZeroDivisionError ''division by zero''), m)
         else
           let l = next_level m;
               why = ''Win rate '' @ fmt_0f (win_rate ts * 100) @ ''% over '' @ show_int (int (length ts)) @ '' trades (d<''
                 @ fmt_0f (ic_def_rate c * 100) @ ''% c<'' @ fmt_0f (ic_cau_rate c * 100) @ ''%)''
           in (Inr (case l of
                 AL_DEFENSIVE \<Rightarrow> \<lparr>ap_boost = ic_def_boost c, ap_mult = ic_def_mult c, ap_reason = why, ap_level = AL_DEFENSIVE\<rparr>
               | AL_CAUTIOUS \<Rightarrow> \<lparr>ap_boost = ic_cau_boost c, ap_mult = ic_cau_mult c, ap_reason = why, ap_level = AL_CAUTIOUS\<rparr>
               | AL_NORMAL \<Rightarrow> normal_params), m\<lparr>pf_level := l\<rparr>))"

definition record_trade_close :: "real \<Rightarrow> real \<Rightarrow> bool \<Rightarrow> perf_monitor \<Rightarrow> (exn + adapt_params) \<times> perf_monitor" where
  "record_trade_close now pnl was_winner m =
     (let m1 = roll_session_if_new_day now m
      in compute_adaptation (m1\<lparr>pf_trades := pf_trades m1 @ [(pnl, was_winner)],
                                pf_consec := (if was_winner then 0 else pf_consec m1 + 1)\<rparr>))"

definition get_current_params :: "real \<Rightarrow> perf_monitor \<Rightarrow> (exn + adapt_params) \<times> perf_monitor" where
  "get_current_params now m = compute_adaptation (roll_session_if_new_day now m)"

definition pf_reset_daily :: "perf_monitor \<Rightarrow> perf_monitor" where
  "pf_reset_daily m = pf_reset_state m"

definition pf_update_config :: "monitor_config \<Rightarrow> perf_monitor \<Rightarrow> perf_monitor" where
  "pf_update_config c m = m\<lparr>pf_cfg := c\<rparr>"

record intraday_stats =
  is_trades :: int
  is_wins :: int
  is_losses :: int
  is_win_rate :: real
  is_consec :: int
  is_avg_pnl :: real
  is_level :: adapt_level

definition pf_get_stats :: "real \<Rightarrow> perf_monitor \<Rightarrow> (exn + intraday_stats) \<times> perf_monitor" where
  "pf_get_stats now m =
     (case get_current_params now m of
        (Inl e, m') \<Rightarrow> (Inl e, m')
      | (Inr p, m') \<Rightarrow>
          let ts = pf_trades m'; n = length ts; w = length (filter snd ts)
          in (Inr \<lparr>is_trades = int n, is_wins = int w, is_losses = int n - int w,
                   is_win_rate = (if n = 0 then 0 else round_to 4 (real w / real n)), is_consec = pf_consec m',
                   is_avg_pnl = (if n = 0 then 0 else round_to 2 (sum_list (map fst ts) / real n)),
                   is_level = ap_level p\<rparr>, m'))"

subsection \<open>Strike selection\<close>

record strike_config =
  sk_mode :: string
  sk_otm_global :: int
  sk_otm_strong :: int
  sk_otm_moderate :: int
  sk_otm_weak :: int
  sk_target_delta :: real
  sk_delta_step :: real
  sk_max_otm :: int
  sk_min_dte :: int
  sk_vega_vix :: real

definition default_strike_config :: strike_config where
  "default_strike_config =
     \<lparr>sk_mode = ''ATM'', sk_otm_global = 0, sk_otm_strong = 1, sk_otm_moderate = 0, sk_otm_weak = 0,
      sk_target_delta = 40 / 100, sk_delta_step = 8 / 100, sk_max_otm = 3, sk_min_dte = 1, sk_vega_vix = 30\<rparr>"

definition atm_delta :: "real \<Rightarrow> int \<Rightarrow> real" where
  "atm_delta vix dte =
     round_to 3 (max (35 / 100) (min (55 / 100) (1 / 2 + (- 8 / 1000) * of_int (max 0 (7 - dte)) + (- 1 / 1000) * max 0 (vix - 20))))"

definition otm_steps_for_tier :: "string \<Rightarrow> strike_config \<Rightarrow> int" where
  "otm_steps_for_tier tier c =
     (let t = str_upper tier
      in max 0 (if t = ''STRONG'' then sk_otm_strong c else if t = ''MODERATE'' then sk_otm_moderate c
                else if t = ''WEAK'' then sk_otm_weak c else sk_otm_global c))"

definition otm_steps_for_delta :: "real \<Rightarrow> real \<Rightarrow> real \<Rightarrow> int \<Rightarrow> int" where
  "otm_steps_for_delta atm_d target per_step max_steps =
     (if per_step \<le> 0 \<or> atm_d \<le> target then 0
      else max 0 (min (round_half_even ((atm_d - target) / per_step)) max_steps))"

definition apply_vega_cap :: "int \<Rightarrow> real \<Rightarrow> strike_config \<Rightarrow> int" where
  "apply_vega_cap steps vix c = (if vix > sk_vega_vix c \<and> steps > 0 then steps - 1 else steps)"

definition apply_otm_direction :: "int \<Rightarrow> int \<Rightarrow> string \<Rightarrow> int \<Rightarrow> int" where
  "apply_otm_direction atm steps direction step =
     (if steps \<le> 0 then atm else if str_upper direction = ''CALL'' then atm + steps * step else atm - steps * step)"

text \<open>The number of steps of a mode, and the strike; the descriptive tag is left out.\<close>

definition otm_steps :: "strike_config \<Rightarrow> string \<Rightarrow> real \<Rightarrow> int \<Rightarrow> int" where
  "otm_steps c tier vix dte =
     (let mode = str_upper (sk_mode c); mx = max 0 (sk_max_otm c)
      in if mode = ''OTM'' then min (apply_vega_cap (otm_steps_for_tier tier c) vix c) mx
         else if mode = ''DELTA''
         then apply_vega_cap (otm_steps_for_delta (atm_delta vix dte) (sk_target_delta c) (sk_delta_step c) mx) vix c
         else 0)"

definition select_strike :: "strike_config \<Rightarrow> int \<Rightarrow> string \<Rightarrow> int \<Rightarrow> string \<Rightarrow> real \<Rightarrow> int \<Rightarrow> int" where
  "select_strike c atm direction step tier vix dte = apply_otm_direction atm (otm_steps c tier vix dte) direction step"

definition dte_entry_check :: "strike_config \<Rightarrow> int \<Rightarrow> bool \<times> string" where
  "dte_entry_check c dte =
     (let mn = max 0 (sk_min_dte c)
      in if dte < mn
         then (False, ''DTE='' @ show_int dte @ '' < min_dte_for_entry='' @ show_int mn @ '' - theta too high'')
         else (True, []))"

section \<open>Lemmas\<close>

lemma margin_allowed_iff:
  "mr_allowed (validate_margin c available per_lot qty name) \<longleftrightarrow>
     qty > 0 \<and> available * mg_reserve_pct c \<le> available - per_lot * of_int qty"
  by (auto simp: validate_margin_def Let_def)

lemma liquidity_passed:
  assumes "check_entry_liquidity fs c bid ask oi volume = Inr r" "lq_enabled c" "lc_passed r"
  shows "0 < bid \<and> bid < ask \<and> lq_min_premium c \<le> (bid + ask) / 2
    \<and> (ask - bid) / ((bid + ask) / 2) * 100 \<le> lq_max_spread c \<and> lq_min_oi c \<le> lc_oi r \<and> lq_min_volume c \<le> lc_volume r"
  using assms by (auto simp: check_entry_liquidity_def Let_def split: sum.splits prod.splits if_splits)

lemma otm_steps_bounds: "0 \<le> otm_steps c tier vix dte" "otm_steps c tier vix dte \<le> max 0 (sk_max_otm c)"
  by (auto simp: otm_steps_def Let_def apply_vega_cap_def otm_steps_for_tier_def otm_steps_for_delta_def)

lemma strike_within:
  assumes "0 < step"
  shows "if str_upper direction = ''CALL''
         then atm \<le> select_strike c atm direction step tier vix dte
            \<and> select_strike c atm direction step tier vix dte \<le> atm + max 0 (sk_max_otm c) * step
         else atm - max 0 (sk_max_otm c) * step \<le> select_strike c atm direction step tier vix dte
            \<and> select_strike c atm direction step tier vix dte \<le> atm"
  using otm_steps_bounds [of c tier vix dte] mult_right_mono [OF otm_steps_bounds(2) [of c tier vix dte], of step] assms
  by (auto simp: select_strike_def apply_otm_direction_def)

lemma atm_mode_keeps_strike: "str_upper (sk_mode c) \<notin> {''OTM'', ''DELTA''} \<Longrightarrow> select_strike c atm direction step tier vix dte = atm"
  by (simp add: select_strike_def otm_steps_def apply_otm_direction_def Let_def)

lemma reentry_allowed:
  assumes "rd_allowed (evaluate_reentry c now score direction t)" "re_enabled c" "rt_sl_ts t = Some ts"
  shows "of_int (py_trunc (re_cooldown_mins c * 60)) \<le> now - ts \<and> rt_sl_score t + re_score_boost c \<le> score
    \<and> rt_reentries t < re_max c \<and> (re_same_dir c \<longrightarrow> rt_sl_direction t = Some (str_upper direction))"
  using assms by (auto simp: evaluate_reentry_def Let_def split: if_splits)

end
