(* ===== verification/Portfolio_Service.thy ===== *)
theory Portfolio_Service
  imports Prelude
begin

text \<open>
  The financial state of a session, \<open>core/services/portfolio_service.py\<close>, over the entries of the
  process-wide state dictionary of \<open>core/state_manager.py\<close> that it uses. An entry that is not in the
  dictionary is \<open>None\<close>; \<open>set\<close> also writes the dictionary to a file, and a failure of that is only
  logged, so the file is left out. The services read \<open>BASE_CAPITAL\<close> from one configuration.
\<close>

section \<open>Definitions\<close>

record portfolio =
  pv_base_capital :: real
  pv_capital :: "real option"
  pv_blocked :: "real option"
  pv_daily_pnl :: "real option"
  pv_trade_count :: "int option"
  pv_adj_pending :: "real option"
  pv_last_reset :: "string option"

definition new_portfolio :: "real \<Rightarrow> portfolio" where
  "new_portfolio base =
     \<lparr>pv_base_capital = base, pv_capital = None, pv_blocked = None, pv_daily_pnl = None, pv_trade_count = None,
      pv_adj_pending = None, pv_last_reset = None\<rparr>"

text \<open>\<open>state_manager.get(key, default)\<close>\<close>

definition or_default :: "'a option \<Rightarrow> 'a \<Rightarrow> 'a" where
  "or_default x d = (case x of None \<Rightarrow> d | Some v \<Rightarrow> v)"

definition get_capital :: "portfolio \<Rightarrow> real" where
  "get_capital p = or_default (pv_capital p) (pv_base_capital p)"

definition blocked_margin :: "portfolio \<Rightarrow> real" where
  "blocked_margin p = or_default (pv_blocked p) 0"

definition get_available_margin :: "portfolio \<Rightarrow> real" where
  "get_available_margin p = max 0 (get_capital p - blocked_margin p)"

definition block_margin :: "real \<Rightarrow> portfolio \<Rightarrow> portfolio" where
  "block_margin amount p = p\<lparr>pv_blocked := Some (blocked_margin p + amount)\<rparr>"

definition release_margin :: "real \<Rightarrow> portfolio \<Rightarrow> portfolio" where
  "release_margin amount p = p\<lparr>pv_blocked := Some (max 0 (blocked_margin p - amount))\<rparr>"

definition set_capital :: "real \<Rightarrow> portfolio \<Rightarrow> portfolio" where
  "set_capital v p = p\<lparr>pv_capital := Some v\<rparr>"

definition get_daily_pnl :: "portfolio \<Rightarrow> real" where
  "get_daily_pnl p = or_default (pv_daily_pnl p) 0"

definition update_daily_pnl :: "real \<Rightarrow> portfolio \<Rightarrow> portfolio" where
  "update_daily_pnl amount p = p\<lparr>pv_daily_pnl := Some (get_daily_pnl p + amount)\<rparr>"

definition get_trade_count :: "portfolio \<Rightarrow> int" where
  "get_trade_count p = or_default (pv_trade_count p) 0"

definition increment_trade_count :: "portfolio \<Rightarrow> portfolio" where
  "increment_trade_count p = p\<lparr>pv_trade_count := Some (get_trade_count p + 1)\<rparr>"

definition handle_daily_reset :: "string \<Rightarrow> portfolio \<Rightarrow> bool \<times> portfolio" where
  "handle_daily_reset today p =
     (if truthy (pv_last_reset p) \<and> pv_last_reset p \<noteq> Some today
      then (True, p\<lparr>pv_daily_pnl := Some 0, pv_trade_count := Some 0, pv_adj_pending := Some 0, pv_last_reset := Some today\<rparr>)
      else if \<not> truthy (pv_last_reset p) then (False, p\<lparr>pv_last_reset := Some today\<rparr>)
      else (False, p))"

definition get_pending_adjustment :: "portfolio \<Rightarrow> real" where
  "get_pending_adjustment p = or_default (pv_adj_pending p) 0"

definition clear_pending_adjustment :: "portfolio \<Rightarrow> portfolio" where
  "clear_pending_adjustment p = p\<lparr>pv_adj_pending := Some 0\<rparr>"

section \<open>Lemmas\<close>

lemma or_default_simps [simp]: "or_default None d = d" "or_default (Some v) d = v"
  by (simp_all add: or_default_def)

lemma available_margin_nonneg: "0 \<le> get_available_margin p"
  by (simp add: get_available_margin_def)

lemma block_release: "0 \<le> blocked_margin p \<Longrightarrow> blocked_margin (release_margin a (block_margin a p)) = blocked_margin p"
  by (simp add: release_margin_def block_margin_def blocked_margin_def)

lemma daily_pnl_update: "get_daily_pnl (update_daily_pnl a p) = get_daily_pnl p + a"
  by (simp add: update_daily_pnl_def get_daily_pnl_def)

lemma daily_pnl_others: "get_daily_pnl (increment_trade_count p) = get_daily_pnl p"
  "get_trade_count (update_daily_pnl a p) = get_trade_count p" "get_trade_count (increment_trade_count p) = get_trade_count p + 1"
  by (simp_all add: increment_trade_count_def get_daily_pnl_def update_daily_pnl_def get_trade_count_def)

text \<open>One reset per day: a second call on the same day changes nothing.\<close>

lemma daily_reset_once: "today \<noteq> [] \<Longrightarrow> handle_daily_reset today (snd (handle_daily_reset today p)) = (False, snd (handle_daily_reset today p))"
  by (auto simp: handle_daily_reset_def truthy_def split: option.splits)

end
