(* ===== verification/Position_Service.thy ===== *)
theory Position_Service
  imports Order_Replies Risk_Service Trade_Guards Portfolio_Service
begin

text \<open>
  The position service, \<open>core/position_service.py\<close>: what it stores for an open position, the
  monitoring loop that decides on exits, and the exit of a position through the execution service.
  Entry is the theory \<open>Trade_Entry\<close>.

  The record \<open>pos_service\<close> holds the service's dictionaries together with the states of the services it
  calls; those that were not injected are \<open>None\<close>. A stored position has the keys that
  \<open>_store_position\<close> writes and those that monitoring adds. An option of the configuration that is behind
  an enabling flag is \<open>None\<close> where the flag is off. \<open>ps_notes\<close> collects the notifications sent
  and \<open>ps_closed\<close> the rows written to the legacy trades table. What the environment does during one
  call is the record \<open>pos_env\<close>.
\<close>

section \<open>Definitions\<close>

subsection \<open>Data\<close>

record position =
  po_direction :: string
  po_qty :: int
  po_entry_price :: real
  po_underlying :: real
  po_entry_time :: real
  po_order_id :: string
  po_signal :: string
  po_strike :: int
  po_key :: string
  po_order_direction :: string
  po_score :: int
  po_asset_type :: string
  po_peak :: "real option"
  po_trail :: bool
  po_exit_failed :: bool
  po_exit_retries :: int

record closed_trade =
  ct_ts :: real
  ct_index :: string
  ct_direction :: string
  ct_entry :: real
  ct_exit :: real
  ct_qty :: int
  ct_pnl :: real
  ct_reason :: string
  ct_mode :: string
  ct_score :: int

record pos_config =
  pc_sl_pct :: real
  pc_target_pct :: real
  pc_trail_pct :: real
  pc_trail_activate :: real
  pc_take_profit :: bool
  pc_max_age :: int
  pc_exit_retries :: int
  pc_equity_scaling :: bool
  pc_monitor :: bool
  pc_trades_db :: bool
  pc_broker_api :: bool
  pc_cooldown :: "int option"
  pc_expiry_max :: "int option"
  pc_force_recon :: bool
  pc_tod :: "tod_config option"
  pc_breakout_timeout :: "int option"
  pc_vix_scale :: bool
  pc_loss_cap :: bool
  pc_portfolio_cap :: bool
  pc_base_capital :: real
  pc_strike :: "strike_config option"
  pc_strike_step :: "string \<Rightarrow> int"
  pc_liq :: liq_config
  pc_moderate_min :: real

definition default_pos_config :: pos_config where
  "default_pos_config =
     \<lparr>pc_sl_pct = 92 / 100, pc_target_pct = 13 / 10, pc_trail_pct = 93 / 100, pc_trail_activate = 11 / 10, pc_take_profit = True,
      pc_max_age = 9999, pc_exit_retries = 3, pc_equity_scaling = False, pc_monitor = False, pc_trades_db = True,
      pc_broker_api = False, pc_cooldown = None, pc_expiry_max = None, pc_force_recon = False, pc_tod = None,
      pc_breakout_timeout = None, pc_vix_scale = True, pc_loss_cap = False, pc_portfolio_cap = False, pc_base_capital = 100000,
      pc_strike = None, pc_strike_step = (\<lambda>_. 50), pc_liq = default_liq_config, pc_moderate_min = 70\<rparr>"

record pos_service =
  ps_cfg :: pos_config
  ps_positions :: "(string, position) dict"
  ps_trackers :: "(string, reentry_tracker) dict"
  ps_exec :: "x_service option"
  ps_portfolio :: "portfolio option"
  ps_risk :: "risk_service option"
  ps_safety :: safety
  ps_perf :: perf_monitor
  ps_closed :: "closed_trade list"
  ps_notes :: "string list"
  ps_log :: "(string, string) dict"
  ps_warmup :: "warmup option"
  ps_expiry :: "expiry_controller option"
  ps_margin :: "margin_config option"
  ps_breakout :: "(string, real option) dict"
  ps_last_entry :: "(string, real) dict"
  ps_manual_sent :: "string list"
  ps_manual_only :: bool
  ps_mode :: string
  ps_signal_max_age :: int

text \<open>
  \<open>pe_time\<close> is \<open>time.time()\<close>; \<open>pe_ltp\<close> is the price resolver, \<open>None\<close> where there is none; \<open>pe_db\<close> tells
  whether the insertion of a closed trade succeeds.
\<close>

record pos_env =
  pe_time :: real
  pe_ltp :: "(string \<Rightarrow> exn + real option) option"
  pe_exec :: x_env
  pe_risk :: risk_env
  pe_db :: bool

abbreviation IndexError :: exn_class where "IndexError \<equiv> OtherExn ''IndexError''"

definition pos_catches :: "exn_class list" where
  "pos_catches = [ValueError, TypeError, KeyError, AttributeError, IndexError, OSError]"

subsection \<open>Helpers\<close>

definition get_underlying_ltp :: "pos_env \<Rightarrow> string \<Rightarrow> exn + real option" where
  "get_underlying_ltp env name =
     (case pe_ltp env of
        None \<Rightarrow> Inr None
      | Some f \<Rightarrow> (case f name of Inl e \<Rightarrow> if caught pos_catches e then Inr None else Inl e | Inr p \<Rightarrow> Inr p))"

text \<open>\<open>price or default\<close>\<close>

definition price_or :: "real option \<Rightarrow> real \<Rightarrow> real" where
  "price_or p d = (case p of None \<Rightarrow> d | Some x \<Rightarrow> if x = 0 then d else x)"

definition set_position :: "string \<Rightarrow> position \<Rightarrow> pos_service \<Rightarrow> pos_service" where
  "set_position name p s = s\<lparr>ps_positions := dict_set name p (ps_positions s)\<rparr>"

definition record_sl :: "pos_env \<Rightarrow> string \<Rightarrow> position \<Rightarrow> pos_service \<Rightarrow> pos_service" where
  "record_sl env name p s =
     (case map_of (ps_trackers s) name of
        None \<Rightarrow> s
      | Some t \<Rightarrow> s\<lparr>ps_trackers := dict_set name (record_stop_loss (pe_time env) (po_direction p) (po_score p) t) (ps_trackers s)\<rparr>)"

definition cleanup_position_entry :: "string \<Rightarrow> position \<Rightarrow> bool \<Rightarrow> pos_service \<Rightarrow> pos_service" where
  "cleanup_position_entry name p failed s =
     (if failed
      then let p' = p\<lparr>po_exit_failed := True, po_exit_retries := po_exit_retries p + 1\<rparr>
           in if po_exit_retries p' \<ge> pc_exit_retries (ps_cfg s)
              then s\<lparr>ps_positions := dict_del name (ps_positions s)\<rparr>
              else set_position name p' s
      else s\<lparr>ps_positions := dict_del name (ps_positions s)\<rparr>)"

subsection \<open>Exit\<close>

definition exit_direction :: "position \<Rightarrow> string" where
  "exit_direction p =
     (if po_order_direction p \<noteq> [] then (if po_order_direction p = ''BUY'' then ''SELL'' else ''BUY'')
      else if po_direction p = ''CALL'' then ''SELL'' else ''BUY'')"

definition exit_key :: "string \<Rightarrow> position \<Rightarrow> string \<Rightarrow> string" where
  "exit_key name p reason =
     ''exit_'' @ name @ ''_'' @ show_int (po_qty p) @ ''_'' @ show_int (py_trunc (po_entry_price p)) @ ''_'' @ reason"

definition exit_request :: "pos_env \<Rightarrow> string \<Rightarrow> position \<Rightarrow> real \<Rightarrow> string \<Rightarrow> x_request" where
  "exit_request env name p price reason =
     \<lparr>xr_symbol = name, xr_direction = exit_direction p, xr_strike_price = price, xr_lot_size = po_qty p,
      xr_order_type = OT_MARKET, xr_price = Some price, xr_stop_loss = None, xr_target = None, xr_trail_activate = False,
      xr_trail_percent = None, xr_strategy_id = [], xr_timestamp = xe_now (pe_exec env),
      xr_idempotency_key = Some (exit_key name p reason)\<rparr>"

text \<open>\<open>execute_order\<close> of the execution service, which reads the process-wide safety state.\<close>

definition call_execute_order :: "pos_env \<Rightarrow> x_request \<Rightarrow> x_context option \<Rightarrow> x_service \<Rightarrow> pos_service \<Rightarrow> (exn + x_result) \<times> pos_service" where
  "call_execute_order env rq ctx x s =
     (case execute_order ((pe_exec env)\<lparr>xe_safety := ps_safety s\<rparr>) rq ctx x of (r, x') \<Rightarrow> (r, s\<lparr>ps_exec := Some x'\<rparr>))"

text \<open>The price the exit is booked at: that of the fill, or the entry price for every failure.\<close>

definition place_exit :: "pos_env \<Rightarrow> string \<Rightarrow> position \<Rightarrow> string \<Rightarrow> real \<Rightarrow> pos_service \<Rightarrow> (exn + real) \<times> pos_service" where
  "place_exit env name p reason price =
     x_try
       (\<lambda>s. case ps_exec s of
              None \<Rightarrow> x_ret (po_entry_price p) s
            | Some x \<Rightarrow> x_bind (call_execute_order env (exit_request env name p price reason) None x)
                (\<lambda>r. x_ret (if xo_status r = ST_FILLED \<or> xo_status r = ST_PARTIALLY_FILLED
                            then (if xo_average_price r = 0 then po_entry_price p else xo_average_price r)
                            else po_entry_price p)) s)
       pos_catches
       (\<lambda>e. x_ret (po_entry_price p))"

definition closed_row :: "pos_env \<Rightarrow> string \<Rightarrow> position \<Rightarrow> string \<Rightarrow> real \<Rightarrow> real \<Rightarrow> pos_config \<Rightarrow> closed_trade" where
  "closed_row env name p reason exit_price pnl c =
     \<lparr>ct_ts = xe_now (pe_exec env), ct_index = name, ct_direction = po_direction p, ct_entry = po_entry_price p,
      ct_exit = exit_price, ct_qty = po_qty p, ct_pnl = pnl, ct_reason = reason,
      ct_mode = (if pc_broker_api c then ''LIVE'' else ''PAPER''), ct_score = po_score p\<rparr>"

text \<open>\<open>record_trade_result\<close> of the risk service and \<open>record_trade_close\<close> of the monitor, behind their
  configuration flags; what they raise is caught where the handler names it.\<close>

definition feed_risk :: "pos_env \<Rightarrow> real \<Rightarrow> pos_service \<Rightarrow> (exn + unit) \<times> pos_service" where
  "feed_risk env pnl =
     x_try (\<lambda>s. case ps_risk s of
               None \<Rightarrow> x_ret () s
             | Some r \<Rightarrow>
                 if pc_equity_scaling (ps_cfg s)
                 then (case record_trade_result (pe_risk env) pnl (pnl > 0) r of (v, r') \<Rightarrow> (v, s\<lparr>ps_risk := Some r'\<rparr>))
                 else x_ret () s)
       pos_catches (\<lambda>e. x_ret ())"

definition feed_monitor :: "pos_env \<Rightarrow> real \<Rightarrow> pos_service \<Rightarrow> (exn + unit) \<times> pos_service" where
  "feed_monitor env pnl =
     x_try (\<lambda>s. if pc_monitor (ps_cfg s)
                then (case record_trade_close (xe_now (pe_exec env)) pnl (pnl > 0) (ps_perf s) of
                        (Inl e, m) \<Rightarrow> (Inl e, s\<lparr>ps_perf := m\<rparr>)
                      | (Inr _, m) \<Rightarrow> (Inr (), s\<lparr>ps_perf := m\<rparr>))
                else x_ret () s)
       pos_catches (\<lambda>e. x_ret ())"

definition book_exit :: "pos_env \<Rightarrow> string \<Rightarrow> position \<Rightarrow> string \<Rightarrow> real \<Rightarrow> real \<Rightarrow> pos_service \<Rightarrow> (exn + unit) \<times> pos_service" where
  "book_exit env name p reason exit_price pnl =
     x_bind (x_upd (\<lambda>s. s\<lparr>ps_portfolio := map_option (\<lambda>pf. increment_trade_count (update_daily_pnl pnl pf)) (ps_portfolio s),
                          ps_safety := snd (record_trade_outcome (pnl > 0) (ps_safety s))\<rparr>))
       (\<lambda>_. x_bind (feed_risk env pnl)
       (\<lambda>_. x_bind (feed_monitor env pnl)
       (\<lambda>_. x_upd (\<lambda>s. if pc_trades_db (ps_cfg s) \<and> pe_db env
                       then s\<lparr>ps_closed := ps_closed s @ [closed_row env name p reason exit_price pnl (ps_cfg s)]\<rparr> else s))))"

definition exit_note :: "string \<Rightarrow> string \<Rightarrow> real \<Rightarrow> real \<Rightarrow> string" where
  "exit_note name reason exit_price pnl =
     ''EXIT '' @ name @ '': '' @ reason @ '' @ '' @ fmt_f 2 exit_price @ '' P&L='' @ fmt_0f pnl"

definition exit_failed_at :: "position \<Rightarrow> string \<Rightarrow> real \<Rightarrow> bool" where
  "exit_failed_at p reason exit_price \<longleftrightarrow> exit_price = po_entry_price p \<and> reason \<noteq> ''MANUAL''"

definition exit_position :: "pos_env \<Rightarrow> string \<Rightarrow> string \<Rightarrow> pos_service \<Rightarrow> (exn + unit) \<times> pos_service" where
  "exit_position env name reason s =
     (case map_of (ps_positions s) name of
        None \<Rightarrow> x_ret () s
      | Some p \<Rightarrow>
          x_bind (x_lift (get_underlying_ltp env name))
            (\<lambda>ltp. x_bind (place_exit env name p reason (price_or ltp (po_entry_price p)))
            (\<lambda>exit_price.
               let failed = exit_failed_at p reason exit_price; pnl = (exit_price - po_entry_price p) * of_int (po_qty p)
               in x_bind (if failed then x_ret () else book_exit env name p reason exit_price pnl)
                    (\<lambda>_. x_upd (\<lambda>s. (if failed then id else (\<lambda>s. s\<lparr>ps_notes := ps_notes s @ [exit_note name reason exit_price pnl]\<rparr>))
                                   (cleanup_position_entry name p failed s))))) s)"

subsection \<open>Monitoring\<close>

definition update_peak :: "real \<Rightarrow> position \<Rightarrow> position" where
  "update_peak cur p =
     (let q = (if po_peak p = None then p\<lparr>po_peak := Some cur, po_trail := False\<rparr> else p)
      in q\<lparr>po_peak := Some (max (the (po_peak q)) cur)\<rparr>)"

text \<open>What the price conditions ask for, with the trailing stop's flag updated.\<close>

datatype exit_cause = EC_SL | EC_TARGET | EC_TRAIL

fun cause_reason :: "exit_cause \<Rightarrow> string" where
  "cause_reason EC_SL = ''SL_HIT''"
| "cause_reason EC_TARGET = ''TARGET_HIT''"
| "cause_reason EC_TRAIL = ''TRAIL_HIT''"

definition move_pct :: "real \<Rightarrow> position \<Rightarrow> real" where
  "move_pct cur p = (cur - po_underlying p) / po_underlying p"

definition check_call :: "pos_config \<Rightarrow> real \<Rightarrow> position \<Rightarrow> exit_cause option \<times> position" where
  "check_call c cur p =
     (let mv = move_pct cur p
      in if mv \<le> - (1 - pc_sl_pct c) then (Some EC_SL, p)
         else if pc_take_profit c \<and> mv \<ge> pc_target_pct c - 1 then (Some EC_TARGET, p)
         else let q = (if \<not> po_trail p \<and> mv \<ge> pc_trail_activate c - 1 then p\<lparr>po_trail := True\<rparr> else p)
              in (if po_trail q \<and> cur \<le> the (po_peak q) * pc_trail_pct c then Some EC_TRAIL else None, q))"

definition check_put :: "pos_config \<Rightarrow> real \<Rightarrow> position \<Rightarrow> exit_cause option \<times> position" where
  "check_put c cur p =
     (let mv = move_pct cur p
      in if mv \<ge> 1 - pc_sl_pct c then (Some EC_SL, p)
         else if pc_take_profit c \<and> mv \<le> - (pc_target_pct c - 1) then (Some EC_TARGET, p)
         else let q = (if \<not> po_trail p \<and> mv \<le> - (pc_trail_activate c - 1) then p\<lparr>po_trail := True\<rparr> else p)
              in (if po_trail q \<and> cur \<ge> the (po_peak q) * (2 - pc_trail_pct c) then Some EC_TRAIL else None, q))"

definition check_price :: "pos_config \<Rightarrow> real \<Rightarrow> position \<Rightarrow> exit_cause option \<times> position" where
  "check_price c cur p = (if po_direction p = ''CALL'' then check_call c cur p else check_put c cur p)"

definition too_old :: "pos_config \<Rightarrow> real \<Rightarrow> position \<Rightarrow> bool" where
  "too_old c now p \<longleftrightarrow>
     pc_max_age c < 9999 \<and> po_entry_time p > 0 \<and> (now - po_entry_time p) / 60 \<ge> of_int (pc_max_age c)"

definition monitor_position :: "pos_env \<Rightarrow> string \<Rightarrow> position \<Rightarrow> pos_service \<Rightarrow> (exn + unit) \<times> pos_service" where
  "monitor_position env name p =
     x_try
       (x_bind (x_lift (get_underlying_ltp env name))
         (\<lambda>ltp. case ltp of
            None \<Rightarrow> x_ret ()
          | Some cur \<Rightarrow>
              if po_underlying p \<le> 0 then x_ret ()
              else (\<lambda>s. case check_price (ps_cfg s) cur (update_peak cur p) of
                  (Some cause, q) \<Rightarrow>
                    x_bind (x_upd (\<lambda>s. (if cause = EC_SL then record_sl env name q else id) (set_position name q s)))
                      (\<lambda>_. exit_position env name (cause_reason cause)) s
                | (None, q) \<Rightarrow>
                    x_bind (x_upd (set_position name q))
                      (\<lambda>_. if too_old (ps_cfg s) (pe_time env) q then exit_position env name ''MAX_AGE'' else x_ret ()) s)))
       pos_catches
       (\<lambda>e. x_ret ())"

fun monitor_loop :: "pos_env \<Rightarrow> (string \<times> position) list \<Rightarrow> pos_service \<Rightarrow> (exn + unit) \<times> pos_service" where
  "monitor_loop env [] s = x_ret () s"
| "monitor_loop env ((name, p) # ps) s = x_bind (monitor_position env name p) (\<lambda>_. monitor_loop env ps) s"

definition monitor_positions :: "pos_env \<Rightarrow> pos_service \<Rightarrow> (exn + unit) \<times> pos_service" where
  "monitor_positions env s = monitor_loop env (ps_positions s) s"

section \<open>Lemmas\<close>

lemma price_or_simps [simp]: "price_or None d = d" "price_or (Some x) d = (if x = 0 then d else x)"
  by (simp_all add: price_or_def)

subsection \<open>The exit conditions\<close>

lemma update_peak_ge: "\<exists>k. po_peak (update_peak cur p) = Some k \<and> cur \<le> k"
  by (auto simp: update_peak_def Let_def)

lemma update_peak_keeps [simp]:
  "po_direction (update_peak cur p) = po_direction p" "po_underlying (update_peak cur p) = po_underlying p"
  "po_entry_time (update_peak cur p) = po_entry_time p" "po_qty (update_peak cur p) = po_qty p"
  "po_entry_price (update_peak cur p) = po_entry_price p" "po_order_direction (update_peak cur p) = po_order_direction p"
  "po_exit_retries (update_peak cur p) = po_exit_retries p"
  by (simp_all add: update_peak_def Let_def)

text \<open>
  The trailing stop of a put compares with the highest price instead of the lowest: the level is
  above every price seen so far, so it is never reached.
\<close>

lemma put_trail_never:
  assumes "po_direction p \<noteq> ''CALL''" "0 < cur" "pc_trail_pct c < 1"
  shows "fst (check_price c cur (update_peak cur p)) \<noteq> Some EC_TRAIL"
proof -
  obtain k where k: "po_peak (update_peak cur p) = Some k" "cur \<le> k" using update_peak_ge by blast
  have "k * 1 < k * (2 - pc_trail_pct c)" using assms(2,3) k(2) by (intro mult_strict_left_mono) simp_all
  then have "cur < k * (2 - pc_trail_pct c)" using k(2) by simp
  then show ?thesis using assms(1) k(1) by (simp add: check_price_def check_put_def Let_def)
qed

lemma sl_level_call:
  "0 < po_underlying p \<Longrightarrow> move_pct cur p \<le> - (1 - s) \<longleftrightarrow> cur \<le> po_underlying p * s"
  by (simp add: move_pct_def pos_divide_le_eq) argo

lemma sl_level_put:
  "0 < po_underlying p \<Longrightarrow> move_pct cur p \<ge> 1 - s \<longleftrightarrow> cur \<ge> po_underlying p * (2 - s)"
  by (simp add: move_pct_def pos_le_divide_eq) argo

subsection \<open>Failing exits\<close>

fun exit_step :: "string \<Rightarrow> pos_env \<times> string \<Rightarrow> pos_service \<Rightarrow> pos_service" where
  "exit_step name (env, reason) s = snd (exit_position env name reason s)"

text \<open>The collaborators raise nothing during an attempt to exit, and the attempt is not a manual one.\<close>

definition quiet_exit :: "string \<Rightarrow> pos_env \<times> string \<Rightarrow> bool" where
  "quiet_exit name c \<longleftrightarrow>
     (case c of (env, reason) \<Rightarrow>
        xe_wal_append (pe_exec env) = None \<and> xe_wal_fail (pe_exec env) = None \<and> xe_save_trade (pe_exec env) = None \<and>
        (\<exists>ltp. get_underlying_ltp env name = Inr ltp) \<and> reason \<noteq> ''MANUAL'')"

lemma exit_key_nonempty: "exit_key name p reason \<noteq> []"
  by (simp add: exit_key_def)

lemma exit_key_cong: "po_qty q = po_qty p \<Longrightarrow> po_entry_price q = po_entry_price p \<Longrightarrow> exit_key name q reason = exit_key name p reason"
  by (simp add: exit_key_def)

lemma exit_request_key: "xr_idempotency_key (exit_request env name p price reason) = Some (exit_key name p reason)"
  by (simp add: exit_request_def)

lemma exit_gone: "map_of (ps_positions s) name = None \<Longrightarrow> exit_step name c s = s"
  by (cases c) (simp add: exit_position_def x_ret_def)

lemma exit_gone_fold: "map_of (ps_positions s) name = None \<Longrightarrow> fold (exit_step name) cs s = s"
  by (induction cs) (simp_all add: exit_gone)

text \<open>The parts of the service that an exit without a fill leaves alone.\<close>

definition unbooked :: "pos_service \<Rightarrow> _" where
  "unbooked s = (ps_cfg s, ps_portfolio s, ps_safety s, ps_risk s, ps_perf s, ps_closed s, ps_notes s)"

lemma place_exit_closed:
  assumes x: "ps_exec s = Some x" and h: "is_hard_halted (ps_safety s)" and cf: "cf_duplicate_prevention (es_config x)"
    and q: "quiet_exit name (env, reason)" and c: "map_of (im_cache (es_idem x)) (exit_key name p reason) = None"
  shows "\<exists>x'. place_exit env name p reason price s = (Inr (po_entry_price p), s\<lparr>ps_exec := Some x'\<rparr>) \<and>
    same_front (pe_exec env) x x'"
proof -
  let ?env = "(pe_exec env)\<lparr>xe_safety := ps_safety s\<rparr>"
  have g: "\<not> gates_open ?env x" using h by (simp add: gates_open_def)
  obtain r x' where e: "execute_order ?env (exit_request env name p price reason) None x = (Inr r, x')" "xo_status r = ST_REJECTED"
    and f: "same_front ?env x x'"
    using closed_reply [OF g exit_request_key exit_key_nonempty _ _ _ cf c, of env price None] q
    unfolding quiet_exit_def by auto
  have "same_front (pe_exec env) x x'" using f by (simp add: same_front_def)
  with e x show ?thesis by (auto simp: place_exit_def x_try_def x_bind_def call_execute_order_def x_ret_def)
qed

lemma exit_unfilled:
  assumes p: "map_of (ps_positions s) name = Some p" and q: "quiet_exit name (env, reason)"
    and e: "\<And>price. \<exists>x'. place_exit env name p reason price s = (Inr (po_entry_price p), s\<lparr>ps_exec := Some x'\<rparr>) \<and> F x'"
  shows "\<exists>x'. exit_position env name reason s = (Inr (), cleanup_position_entry name p True (s\<lparr>ps_exec := Some x'\<rparr>)) \<and> F x'"
proof -
  obtain ltp where l: "get_underlying_ltp env name = Inr ltp" and r: "reason \<noteq> ''MANUAL''" using q by (auto simp: quiet_exit_def)
  obtain x' where pl: "place_exit env name p reason (price_or ltp (po_entry_price p)) s = (Inr (po_entry_price p), s\<lparr>ps_exec := Some x'\<rparr>)"
    and F: "F x'"
    using e by blast
  have "exit_position env name reason s = (Inr (), cleanup_position_entry name p True (s\<lparr>ps_exec := Some x'\<rparr>))"
    by (simp add: exit_position_def p l bind_step [where m = "place_exit env name p reason (price_or ltp (po_entry_price p))", OF pl] r exit_failed_at_def Let_def) (simp add: x_bind_def x_ret_def x_upd_def)
  with F show ?thesis by blast
qed

lemma cleanup_failed:
  assumes "map_of (ps_positions s) name = Some p"
  shows "unbooked (cleanup_position_entry name p True s) = unbooked s" "ps_exec (cleanup_position_entry name p True s) = ps_exec s"
    "map_of (ps_positions (cleanup_position_entry name p True s)) name =
       (if po_exit_retries p + 1 \<ge> pc_exit_retries (ps_cfg s) then None
        else Some (p\<lparr>po_exit_failed := True, po_exit_retries := po_exit_retries p + 1\<rparr>))"
  by (simp_all add: cleanup_position_entry_def Let_def set_position_def unbooked_def)

lemma halted_exits:
  assumes "map_of (ps_positions s) name = Some p" "ps_exec s = Some x" "is_hard_halted (ps_safety s)"
    and "cf_duplicate_prevention (es_config x)" "list_all (quiet_exit name) cs" "cs \<noteq> []"
    and "\<forall>c \<in> set cs. map_of (im_cache (es_idem x)) (exit_key name p (snd c)) = None"
    and "pc_exit_retries (ps_cfg s) \<le> po_exit_retries p + int (length cs)"
  shows "map_of (ps_positions (fold (exit_step name) cs s)) name = None \<and>
    (\<exists>x'. ps_exec (fold (exit_step name) cs s) = Some x' \<and> es_placed x' = es_placed x) \<and>
    unbooked (fold (exit_step name) cs s) = unbooked s"
  using assms
proof (induction cs arbitrary: s p x)
  case Nil
  then show ?case by simp
next
  case (Cons c cs)
  obtain env reason where c: "c = (env, reason)" by (cases c)
  have q: "quiet_exit name (env, reason)" and nc: "map_of (im_cache (es_idem x)) (exit_key name p reason) = None"
    using Cons.prems(5,7) by (simp_all add: c)
  obtain x' where e: "exit_position env name reason s = (Inr (), cleanup_position_entry name p True (s\<lparr>ps_exec := Some x'\<rparr>))"
    and f: "same_front (pe_exec env) x x'"
    using exit_unfilled [OF Cons.prems(1) q place_exit_closed [OF Cons.prems(2-4) q nc]] by blast
  let ?t = "s\<lparr>ps_exec := Some x'\<rparr>" and ?s = "exit_step name c s"
  have s: "?s = cleanup_position_entry name p True ?t" using e by (simp add: c)
  have p0: "map_of (ps_positions ?t) name = Some p" using Cons.prems(1) by simp
  note cl = cleanup_failed [OF p0, folded s]
  have u: "unbooked ?s = unbooked s" and x'': "ps_exec ?s = Some x'" using cl by (simp_all add: unbooked_def)
  show ?case
  proof (cases "po_exit_retries p + 1 \<ge> pc_exit_retries (ps_cfg s)")
    case True
    then have "map_of (ps_positions ?s) name = None" using cl(3) by simp
    with u x'' f show ?thesis by (simp add: exit_gone_fold same_front_def)
  next
    case False
    define p' where "p' = p\<lparr>po_exit_failed := True, po_exit_retries := po_exit_retries p + 1\<rparr>"
    have "map_of (ps_positions ?s) name = Some p'" using cl(3) False by (simp add: p'_def)
    moreover have "is_hard_halted (ps_safety ?s)" "ps_cfg ?s = ps_cfg s" using u Cons.prems(3) by (simp_all add: unbooked_def)
    moreover have "cs \<noteq> []" using False Cons.prems(8) by (cases cs) auto
    moreover have "\<forall>c \<in> set cs. map_of (im_cache (es_idem x')) (exit_key name p' (snd c)) = None"
      using Cons.prems(7) same_front_uncached [OF f] exit_key_cong [of p' p] by (simp add: p'_def)
    ultimately have "map_of (ps_positions (fold (exit_step name) cs ?s)) name = None \<and>
      (\<exists>y. ps_exec (fold (exit_step name) cs ?s) = Some y \<and> es_placed y = es_placed x') \<and>
      unbooked (fold (exit_step name) cs ?s) = unbooked ?s"
      using Cons.prems(4,5,8) f x'' by (intro Cons.IH) (auto simp: same_front_def p'_def)
    with u f show ?thesis by (simp add: same_front_def)
  qed
qed

subsection \<open>Exits that are booked\<close>

definition exit_pnl :: "position \<Rightarrow> real \<Rightarrow> real" where
  "exit_pnl p exit_price = (exit_price - po_entry_price p) * of_int (po_qty p)"

definition after_exit :: "pos_env \<Rightarrow> string \<Rightarrow> position \<Rightarrow> string \<Rightarrow> real \<Rightarrow> x_service \<Rightarrow> pos_service \<Rightarrow> pos_service" where
  "after_exit env name p reason exit_price x' s =
     (let pnl = exit_pnl p exit_price
      in s\<lparr>ps_exec := Some x', ps_positions := dict_del name (ps_positions s),
           ps_portfolio := map_option (\<lambda>pf. increment_trade_count (update_daily_pnl pnl pf)) (ps_portfolio s),
           ps_safety := snd (record_trade_outcome (pnl > 0) (ps_safety s)),
           ps_closed := ps_closed s @ (if pc_trades_db (ps_cfg s) \<and> pe_db env then [closed_row env name p reason exit_price pnl (ps_cfg s)] else []),
           ps_notes := ps_notes s @ [exit_note name reason exit_price pnl]\<rparr>)"

definition plain_booking :: "pos_config \<Rightarrow> bool" where
  "plain_booking c \<longleftrightarrow> \<not> pc_equity_scaling c \<and> \<not> pc_monitor c"

lemma book_exit_plain:
  assumes "plain_booking (ps_cfg s)"
  shows "book_exit env name p reason ep pnl s = (Inr (),
    s\<lparr>ps_portfolio := map_option (\<lambda>pf. increment_trade_count (update_daily_pnl pnl pf)) (ps_portfolio s),
      ps_safety := snd (record_trade_outcome (pnl > 0) (ps_safety s)),
      ps_closed := ps_closed s @ (if pc_trades_db (ps_cfg s) \<and> pe_db env then [closed_row env name p reason ep pnl (ps_cfg s)] else [])\<rparr>)"
proof -
  have f: "feed_risk env pnl t = (Inr (), t)" "feed_monitor env pnl t = (Inr (), t)" if "ps_cfg t = ps_cfg s" for t
    using assms that by (auto simp: feed_risk_def feed_monitor_def x_try_def x_ret_def plain_booking_def split: option.split)
  show ?thesis by (simp add: book_exit_def x_bind_def x_upd_def f)
qed

lemma exit_at:
  assumes p: "map_of (ps_positions s) name = Some p" and l: "get_underlying_ltp env name = Inr ltp"
    and pl: "place_exit env name p reason (price_or ltp (po_entry_price p)) s = (Inr ep, s\<lparr>ps_exec := Some x'\<rparr>)"
    and f: "\<not> exit_failed_at p reason ep" and c: "plain_booking (ps_cfg s)"
  shows "exit_position env name reason s = (Inr (), after_exit env name p reason ep x' s)"
proof -
  have b: "plain_booking (ps_cfg (s\<lparr>ps_exec := Some x'\<rparr>))" using c by simp
  show ?thesis
    by (simp add: exit_position_def p l bind_step [where m = "place_exit env name p reason (price_or ltp (po_entry_price p))", OF pl] f Let_def
        book_exit_plain [OF b] bind_step [where m = "book_exit env name p reason ep ((ep - po_entry_price p) * real_of_int (po_qty p))", OF book_exit_plain [OF b]])
      (simp add: x_upd_def after_exit_def exit_pnl_def cleanup_position_entry_def Let_def)
qed

lemma place_exit_reply:
  assumes "ps_exec s = Some x"
    and "execute_order ((pe_exec env)\<lparr>xe_safety := ps_safety s\<rparr>) (exit_request env name p price reason) None x = (Inr r, x')"
    and "xo_status r = ST_FILLED \<or> xo_status r = ST_PARTIALLY_FILLED" "xo_average_price r \<noteq> 0"
  shows "place_exit env name p reason price s = (Inr (xo_average_price r), s\<lparr>ps_exec := Some x'\<rparr>)"
  using assms by (auto simp: place_exit_def x_try_def x_bind_def call_execute_order_def x_ret_def)

section \<open>Properties\<close>

text \<open>A concrete position, service and environment for the witnesses below.\<close>

definition demo_position :: position where
  "demo_position =
     \<lparr>po_direction = ''CALL'', po_qty = 25, po_entry_price = 100, po_underlying = 100, po_entry_time = 1, po_order_id = ''B-1'',
      po_signal = ''CALL'', po_strike = 100, po_key = ''k0'', po_order_direction = ''BUY'', po_score = 80,
      po_asset_type = ''INDEX_OPTIONS'', po_peak = None, po_trail = False, po_exit_failed = False, po_exit_retries = 0\<rparr>"

definition demo_pos_env :: pos_env where
  "demo_pos_env = \<lparr>pe_time = 5, pe_ltp = Some (\<lambda>_. Inr (Some 90)), pe_exec = demo_env, pe_risk = demo_risk_env, pe_db = True\<rparr>"

definition demo_pos_service :: pos_service where
  "demo_pos_service =
     \<lparr>ps_cfg = default_pos_config, ps_positions = [(''NIFTY'', demo_position)], ps_trackers = [], ps_exec = Some demo_service,
      ps_portfolio = Some (new_portfolio 100000), ps_risk = None, ps_safety = new_safety, ps_perf = new_monitor default_monitor_config,
      ps_closed = [], ps_notes = [], ps_log = [], ps_warmup = None, ps_expiry = None, ps_margin = None, ps_breakout = [],
      ps_last_entry = [], ps_manual_sent = [], ps_manual_only = False, ps_mode = ''PAPER'', ps_signal_max_age = 90\<rparr>"

lemma demo_pos_simps [simp]:
  "map_of (ps_positions demo_pos_service) ''NIFTY'' = Some demo_position" "ps_exec demo_pos_service = Some demo_service"
  "ps_cfg demo_pos_service = default_pos_config" "ps_safety demo_pos_service = new_safety" "pe_exec demo_pos_env = demo_env"
  "po_entry_price demo_position = 100" "po_qty demo_position = 25" "po_exit_retries demo_position = 0"
  "ps_mode demo_pos_service = ''PAPER''" "get_underlying_ltp demo_pos_env name = Inr (Some 90)"
  by (simp_all add: demo_pos_service_def demo_pos_env_def demo_position_def get_underlying_ltp_def)

lemma demo_quiet: "reason \<noteq> ''MANUAL'' \<Longrightarrow> quiet_exit name (demo_pos_env, reason)"
  by (simp add: quiet_exit_def)

text \<open>
  C14: The kill switch does not only stop entries. While it is set, every exit is answered with a
  rejection, and after \<open>EXIT_ORDER_RETRIES\<close> attempts, with whatever stop-loss, target or age reasons,
  the position service forgets the position: it is removed from the books although no order reached
  the broker, and no result is booked (the attempts' keys having no cached result).
\<close>

theorem halted_exits_drop_position:
  assumes "map_of (ps_positions s) name = Some p" "ps_exec s = Some x" "is_hard_halted (ps_safety s)"
    and "cf_duplicate_prevention (es_config x)" "list_all (quiet_exit name) cs" "cs \<noteq> []"
    and "\<forall>c \<in> set cs. map_of (im_cache (es_idem x)) (exit_key name p (snd c)) = None"
    and "pc_exit_retries (ps_cfg s) \<le> po_exit_retries p + int (length cs)"
  shows "map_of (ps_positions (fold (exit_step name) cs s)) name = None \<and>
    (\<exists>x'. ps_exec (fold (exit_step name) cs s) = Some x' \<and> es_placed x' = es_placed x) \<and>
    ps_portfolio (fold (exit_step name) cs s) = ps_portfolio s \<and> ps_closed (fold (exit_step name) cs s) = ps_closed s"
  using halted_exits [OF assms] by (simp add: unbooked_def)

theorem halted_exits_drop_position_witness:
  "let s = demo_pos_service\<lparr>ps_safety := trip_hard_halt ''loss'' ''risk'' new_safety\<rparr>;
       cs = [(demo_pos_env, ''SL_HIT''), (demo_pos_env, ''SL_HIT''), (demo_pos_env, ''TARGET_HIT'')]
   in map_of (ps_positions s) ''NIFTY'' \<noteq> None \<and> map_of (ps_positions (fold (exit_step ''NIFTY'') cs s)) ''NIFTY'' = None"
  using halted_exits_drop_position [of "demo_pos_service\<lparr>ps_safety := trip_hard_halt ''loss'' ''risk'' new_safety\<rparr>" "''NIFTY''" demo_position
      demo_service "[(demo_pos_env, ''SL_HIT''), (demo_pos_env, ''SL_HIT''), (demo_pos_env, ''TARGET_HIT'')]"]
  by (simp add: demo_quiet trip_hard_halt_def new_safety_def is_hard_halted_def default_pos_config_def del: exit_step.simps)

text \<open>What an exit needs to be filled by the broker at once.\<close>

definition exit_fills :: "pos_env \<Rightarrow> string \<Rightarrow> position \<Rightarrow> string \<Rightarrow> x_service \<Rightarrow> pos_service \<Rightarrow> x_request \<Rightarrow> x_result \<Rightarrow> bool" where
  "exit_fills env name p reason x s rq r \<longleftrightarrow>
     (let xe = (pe_exec env)\<lparr>xe_safety := ps_safety s\<rparr>; k = exit_key name p reason
      in (\<exists>ltp. get_underlying_ltp env name = Inr ltp \<and> rq = exit_request env name p (price_or ltp (po_entry_price p)) reason) \<and>
         gates_open xe x \<and> \<not> fst (idem_is_duplicate (xe_now xe) k (es_idem x)) \<and> mach (generate_client_order_id k) x = None \<and>
         fills_order x xe rq (default_context xe) r \<and> xe_wal_append xe = None \<and> xe_wal_commit xe = None \<and> xe_wal_fail xe = None \<and>
         xe_save_trade xe = None \<and> xe_up_durable xe \<and> cf_duplicate_prevention (es_config x) \<and> 0 < im_cache_size (es_idem x) \<and>
         int (length (im_cache (es_idem x))) \<le> im_cache_size (es_idem x))"

lemma exit_filled:
  assumes p: "map_of (ps_positions s) name = Some p" and x: "ps_exec s = Some x" and f: "exit_fills env name p reason x s rq r"
    and a: "xo_average_price r \<noteq> 0" "xo_average_price r \<noteq> po_entry_price p" and c: "plain_booking (ps_cfg s)"
  shows "\<exists>x'. exit_position env name reason s = (Inr (), after_exit env name p reason (xo_average_price r) x' s) \<and>
    es_placed x' = es_placed x @ [(exit_key name p reason, rq)] \<and>
    map_of (im_cache (es_idem x')) (exit_key name p reason) = Some (xe_now (pe_exec env), r)"
proof -
  let ?xe = "(pe_exec env)\<lparr>xe_safety := ps_safety s\<rparr>" and ?k = "exit_key name p reason"
  obtain ltp where l: "get_underlying_ltp env name = Inr ltp" and rq: "rq = exit_request env name p (price_or ltp (po_entry_price p)) reason"
    using f by (auto simp: exit_fills_def Let_def)
  have k: "xr_idempotency_key rq = Some ?k" by (simp add: rq exit_request_key)
  obtain x' where e: "execute_order ?xe rq (Some (default_context ?xe)) x = (Inr r, x')" "es_placed x' = es_placed x @ [(?k, rq)]"
    "map_of (im_cache (es_idem x')) ?k = Some (xe_now ?xe, r)"
    using filled_books [of ?xe x rq ?k "default_context ?xe" r] f k exit_key_nonempty [of name p reason]
    by (auto simp: exit_fills_def Let_def)
  have "execute_order ?xe rq None x = (Inr r, x')" using e(1) by (simp add: execute_order_ctx [of ?xe rq None] used_context_def)
  moreover have "xo_status r = ST_FILLED" using f by (simp add: exit_fills_def Let_def fills_order_def)
  ultimately have pl: "place_exit env name p reason (price_or ltp (po_entry_price p)) s = (Inr (xo_average_price r), s\<lparr>ps_exec := Some x'\<rparr>)"
    using x a(1) rq by (intro place_exit_reply) auto
  have "\<not> exit_failed_at p reason (xo_average_price r)" using a(2) by (simp add: exit_failed_at_def)
  from exit_at [OF p l pl this c] e show ?thesis by auto
qed

text \<open>
  C6: An exit that the broker fills at a price other than the entry price is booked exactly once: one
  opposite order for the whole quantity was placed, the position leaves the books and no other one
  does, the daily result changes by the price difference times the quantity, the trade is counted, and
  one row is written to the trades table.
\<close>

theorem filled_exit_books:
  assumes "map_of (ps_positions s) name = Some p" "ps_exec s = Some x" "exit_fills env name p reason x s rq r"
    and "xo_average_price r \<noteq> 0" "xo_average_price r \<noteq> po_entry_price p" "plain_booking (ps_cfg s)"
    and "ps_portfolio s = Some pf" "pc_trades_db (ps_cfg s)" "pe_db env"
  shows "\<exists>s' x' pf' row. exit_position env name reason s = (Inr (), s') \<and> ps_positions s' = dict_del name (ps_positions s) \<and>
    ps_exec s' = Some x' \<and> es_placed x' = es_placed x @ [(exit_key name p reason, rq)] \<and>
    xr_direction rq = exit_direction p \<and> xr_lot_size rq = po_qty p \<and> ps_portfolio s' = Some pf' \<and>
    get_daily_pnl pf' = get_daily_pnl pf + (xo_average_price r - po_entry_price p) * of_int (po_qty p) \<and>
    get_trade_count pf' = get_trade_count pf + 1 \<and> ps_closed s' = ps_closed s @ [row] \<and> ct_index row = name \<and> ct_reason row = reason"
proof -
  obtain x' where e: "exit_position env name reason s = (Inr (), after_exit env name p reason (xo_average_price r) x' s)"
    "es_placed x' = es_placed x @ [(exit_key name p reason, rq)]"
    using exit_filled [OF assms(1-6)] by blast
  have rq: "xr_direction rq = exit_direction p" "xr_lot_size rq = po_qty p"
    using assms(3) by (auto simp: exit_fills_def Let_def exit_request_def)
  show ?thesis
    using e rq assms(7-9)
    by (auto simp: after_exit_def exit_pnl_def Let_def daily_pnl_update daily_pnl_others closed_row_def)
qed

lemma demo_position_sel [simp]:
  "po_direction demo_position = ''CALL''" "po_order_direction demo_position = ''BUY''" "ps_portfolio demo_pos_service = Some (new_portfolio 100000)"
  "pc_trades_db default_pos_config" "plain_booking default_pos_config" "pe_db demo_pos_env" "pc_exit_retries default_pos_config = 3"
  "xo_average_price demo_filled = 101" "ps_closed demo_pos_service = []"
  by (simp_all add: demo_position_def demo_pos_service_def default_pos_config_def plain_booking_def demo_pos_env_def demo_filled_def
      order_result_def)

lemma demo_fills_any: "fills_order demo_service (demo_env\<lparr>xe_safety := new_safety\<rparr>) rq (default_context (demo_env\<lparr>xe_safety := new_safety\<rparr>)) demo_filled"
  using demo_filled_valid
  by (simp add: fills_order_def is_paper_def demo_env_def demo_broker_def demo_context_def default_context_def)

lemma demo_exit_fills:
  "exit_fills demo_pos_env ''NIFTY'' p reason demo_service demo_pos_service (exit_request demo_pos_env ''NIFTY'' p 90 reason) demo_filled"
  using demo_fills_any demo_gates [of "demo_env\<lparr>xe_safety := new_safety\<rparr>" demo_service]
  by (auto simp: exit_fills_def Let_def unknown_key_free)

theorem filled_exit_books_witness:
  "\<exists>s' x' pf'. exit_position demo_pos_env ''NIFTY'' ''SL_HIT'' demo_pos_service = (Inr (), s') \<and> ps_positions s' = [] \<and>
     ps_exec s' = Some x' \<and> length (es_placed x') = 1 \<and> ps_portfolio s' = Some pf' \<and> get_daily_pnl pf' = 25"
proof -
  have "dict_del ''NIFTY'' (ps_positions demo_pos_service) = []" by (simp add: demo_pos_service_def dict_del_def)
  moreover have "get_daily_pnl (new_portfolio 100000) = 0" by (simp add: get_daily_pnl_def new_portfolio_def)
  ultimately show ?thesis
    using filled_exit_books [OF _ _ demo_exit_fills, of demo_position "new_portfolio 100000" "''SL_HIT''"] by force
qed

text \<open>
  A put is entered by selling (the entry's order direction is SELL), so its exit buys back; but the
  booked result is exit price minus entry price whatever the direction was. A short position bought
  back below its entry price is booked as a loss: the daily result falls by the profit made, and the
  process-wide count of consecutive losses, which the risk service limits, goes up.
\<close>

lemma short_profit_booked_as_loss:
  assumes "map_of (ps_positions s) name = Some p" "ps_exec s = Some x" "exit_fills env name p reason x s rq r"
    and "plain_booking (ps_cfg s)" "ps_portfolio s = Some pf"
    and "po_order_direction p = ''SELL''" "0 < po_qty p" "0 < xo_average_price r" "xo_average_price r < po_entry_price p"
  shows "xr_direction rq = ''BUY'' \<and> (\<exists>s' pf'. exit_position env name reason s = (Inr (), s') \<and> ps_portfolio s' = Some pf' \<and>
    get_daily_pnl pf' = get_daily_pnl pf - (po_entry_price p - xo_average_price r) * of_int (po_qty p) \<and>
    get_daily_pnl pf' < get_daily_pnl pf \<and> sf_losses (ps_safety s') = sf_losses (ps_safety s) + 1)"
proof -
  obtain x' where e: "exit_position env name reason s = (Inr (), after_exit env name p reason (xo_average_price r) x' s)"
    using exit_filled [OF assms(1-3) _ _ assms(4)] assms(8,9) by force
  have "xr_direction rq = ''BUY''" using assms(3,6) by (auto simp: exit_fills_def Let_def exit_request_def exit_direction_def)
  moreover have neg: "exit_pnl p (xo_average_price r) < 0" using assms(7,9) by (simp add: exit_pnl_def mult_neg_pos)
  ultimately show ?thesis
    using e assms(5)
    by (auto simp: after_exit_def Let_def daily_pnl_update daily_pnl_others record_trade_outcome_def)
      (simp add: exit_pnl_def algebra_simps)
qed

text \<open>
  The key of an exit consists of symbol, quantity, entry price without its fraction and reason. A
  second position in the symbol with the same quantity, a similar entry price and the same reason gets
  the cached result of the first exit: the position is closed in the books at the old price and its
  result booked, but no order reaches the broker.
\<close>

lemma repeated_exit_sends_nothing:
  assumes "map_of (ps_positions s) name = Some p" "ps_exec s = Some x" "quiet_exit name (env, reason)"
    and "case es_mode x of None \<Rightarrow> True | Some m \<Rightarrow> fst (allows_execution m)" "cf_duplicate_prevention (es_config x)"
    and "map_of (im_cache (idem_cleanup (xe_now (pe_exec env)) (es_idem x))) (exit_key name p reason) = Some (t, r)"
    and "xo_status r = ST_FILLED" "xo_average_price r \<noteq> 0" "xo_average_price r \<noteq> po_entry_price p" "plain_booking (ps_cfg s)"
    and "ps_portfolio s = Some pf"
  shows "\<exists>s' x' pf'. exit_position env name reason s = (Inr (), s') \<and> map_of (ps_positions s') name = None \<and>
    ps_exec s' = Some x' \<and> es_placed x' = es_placed x \<and> ps_portfolio s' = Some pf' \<and>
    get_daily_pnl pf' = get_daily_pnl pf + (xo_average_price r - po_entry_price p) * of_int (po_qty p)"
proof -
  let ?xe = "(pe_exec env)\<lparr>xe_safety := ps_safety s\<rparr>" and ?k = "exit_key name p reason"
  obtain ltp where l: "get_underlying_ltp env name = Inr ltp" using assms(3) by (auto simp: quiet_exit_def)
  let ?rq = "exit_request env name p (price_or ltp (po_entry_price p)) reason"
  have "fst (idem_is_duplicate (xe_now ?xe) ?k (es_idem x))" using assms(6) by (simp add: idem_is_duplicate_def Let_def)
  then have "\<exists>x'. execute_order ?xe ?rq None x = (Inr (duplicate_answer ?xe ?k x), x') \<and> same_front ?xe x x'"
    using assms(3,5) by (intro duplicate_reply [OF assms(4) exit_request_key exit_key_nonempty]) (auto simp: quiet_exit_def)
  then obtain x' where x': "execute_order ?xe ?rq None x = (Inr (duplicate_answer ?xe ?k x), x')" "same_front ?xe x x'" by blast
  have "duplicate_answer ?xe ?k x = r" using assms(6) by (simp add: duplicate_answer_def)
  with x' have pl: "place_exit env name p reason (price_or ltp (po_entry_price p)) s = (Inr (xo_average_price r), s\<lparr>ps_exec := Some x'\<rparr>)"
    using assms(2,7,8) by (intro place_exit_reply) auto
  have "\<not> exit_failed_at p reason (xo_average_price r)" using assms(9) by (simp add: exit_failed_at_def)
  from exit_at [OF assms(1) l pl this assms(10)] x'(2) assms(11) show ?thesis
    by (auto simp: after_exit_def exit_pnl_def Let_def daily_pnl_update daily_pnl_others same_front_def)
qed

text \<open>The exit conditions as price levels: a stop and a target around the entry, and for a call a
  trailing level under the highest price once the activation level was reached.\<close>

definition level_exit :: "pos_config \<Rightarrow> real \<Rightarrow> position \<Rightarrow> exit_cause option" where
  "level_exit c cur p =
     (let u = po_underlying p; top = (case po_peak p of None \<Rightarrow> cur | Some k \<Rightarrow> max k cur); armed = (po_peak p \<noteq> None \<and> po_trail p)
      in if po_direction p = ''CALL''
         then if cur \<le> u * pc_sl_pct c then Some EC_SL
              else if pc_take_profit c \<and> u * pc_target_pct c \<le> cur then Some EC_TARGET
              else if (armed \<or> u * pc_trail_activate c \<le> cur) \<and> cur \<le> top * pc_trail_pct c then Some EC_TRAIL else None
         else if u * (2 - pc_sl_pct c) \<le> cur then Some EC_SL
              else if pc_take_profit c \<and> cur \<le> u * (2 - pc_target_pct c) then Some EC_TARGET else None)"

lemma move_le: "0 < po_underlying p \<Longrightarrow> move_pct cur p \<le> a \<longleftrightarrow> cur \<le> po_underlying p * (1 + a)"
  by (simp add: move_pct_def pos_divide_le_eq) argo

lemma move_ge: "0 < po_underlying p \<Longrightarrow> a \<le> move_pct cur p \<longleftrightarrow> po_underlying p * (1 + a) \<le> cur"
  by (simp add: move_pct_def pos_le_divide_eq) argo

lemma update_peak_vals:
  "po_peak (update_peak cur p) = Some (case po_peak p of None \<Rightarrow> cur | Some k \<Rightarrow> max k cur)"
  "po_trail (update_peak cur p) = (po_peak p \<noteq> None \<and> po_trail p)"
  by (auto simp: update_peak_def Let_def split: option.split)

lemma check_price_levels:
  assumes "0 < po_underlying p" "0 < cur" "pc_trail_pct c < 1"
  shows "fst (check_price c cur (update_peak cur p)) = level_exit c cur p"
proof (cases "po_direction p = ''CALL''")
  case True
  have u: "0 < po_underlying (update_peak cur p)" using assms(1) by simp
  show ?thesis
    by (simp add: True check_price_def check_call_def level_exit_def Let_def move_le [OF u] move_ge [OF u] update_peak_vals
        del: not_None_eq) blast
next
  case False
  have u: "0 < po_underlying (update_peak cur p)" using assms(1) by simp
  have "fst (check_put c cur (update_peak cur p)) \<noteq> Some EC_TRAIL"
    using put_trail_never [OF False assms(2,3)] False by (simp add: check_price_def)
  then show ?thesis
    by (simp add: False check_price_def check_put_def level_exit_def Let_def move_le [OF u] move_ge [OF u] split: if_splits) blast
qed

text \<open>
  C29: The exit decision of the monitoring loop is the one of fixed price levels: for a call the stop at
  \<open>SL_PCT\<close>, the target at \<open>TARGET_PCT\<close> of the entry and the trailing stop below the highest price seen;
  for a put the mirrored stop and target, and no trailing stop at all: the level the code computes for
  it lies above every price seen so far.
\<close>

theorem exit_decision_levels:
  assumes "0 < po_underlying p" "0 < cur" "pc_trail_pct c < 1"
  shows "fst (check_price c cur (update_peak cur p)) = level_exit c cur p"
  using assms by (rule check_price_levels)

theorem exit_decision_levels_witness:
  "fst (check_price default_pos_config 92 (update_peak 92 demo_position)) = Some EC_SL \<and>
   fst (check_price default_pos_config 131 (update_peak 131 demo_position)) = Some EC_TARGET \<and>
   fst (check_price default_pos_config 105 (update_peak 105 (demo_position\<lparr>po_peak := Some 120, po_trail := True\<rparr>))) = Some EC_TRAIL"
proof -
  have c: "pc_trail_pct default_pos_config < 1" by (simp add: default_pos_config_def)
  have u: "po_underlying demo_position = 100" by (simp add: demo_position_def)
  show ?thesis
    using exit_decision_levels [OF _ _ c, of demo_position 92] exit_decision_levels [OF _ _ c, of demo_position 131]
      exit_decision_levels [OF _ _ c, of "demo_position\<lparr>po_peak := Some 120, po_trail := True\<rparr>" 105] u
    by (simp add: level_exit_def Let_def default_pos_config_def demo_position_def)
qed

subsection \<open>A round of monitoring\<close>

text \<open>No price condition holds and the age limit is not reached.\<close>

definition idle_at :: "pos_env \<Rightarrow> pos_config \<Rightarrow> string \<times> position \<Rightarrow> bool" where
  "idle_at env c np \<longleftrightarrow>
     (case np of (name, p) \<Rightarrow>
        (\<exists>ltp. get_underlying_ltp env name = Inr ltp \<and>
           (\<forall>cur. ltp = Some cur \<longrightarrow> 0 < cur \<and> (0 < po_underlying p \<longrightarrow> level_exit c cur p = None))) \<and> \<not> too_old c (pe_time env) p)"

lemma check_price_age: "too_old c now (snd (check_price c cur (update_peak cur p))) = too_old c now p"
  by (simp add: too_old_def check_price_def check_call_def check_put_def Let_def)

lemma monitor_idle:
  assumes "idle_at env (ps_cfg s) (name, p)" "pc_trail_pct (ps_cfg s) < 1"
  shows "\<exists>s'. monitor_position env name p s = (Inr (), s') \<and> (s' = s \<or> (\<exists>q. s' = set_position name q s))"
proof -
  obtain ltp where l: "get_underlying_ltp env name = Inr ltp"
    and c: "\<And>cur. ltp = Some cur \<Longrightarrow> 0 < cur \<and> (0 < po_underlying p \<longrightarrow> level_exit (ps_cfg s) cur p = None)"
    and a: "\<not> too_old (ps_cfg s) (pe_time env) p"
    using assms(1) by (auto simp: idle_at_def)
  show ?thesis
  proof (cases "\<exists>cur. ltp = Some cur \<and> 0 < po_underlying p")
    case False
    then show ?thesis by (auto simp: monitor_position_def x_try_def x_bind_def l x_lift_def x_ret_def split: option.split)
  next
    case True
    then obtain cur where cur: "ltp = Some cur" "0 < po_underlying p" by blast
    obtain q where q: "check_price (ps_cfg s) cur (update_peak cur p) = (None, q)"
      using check_price_levels [OF cur(2) _ assms(2), of cur] c [OF cur(1)] cur(2) by (metis prod.collapse)
    have "\<not> too_old (ps_cfg s) (pe_time env) q"
      using a check_price_age [of "ps_cfg s" "pe_time env" cur p] q by simp
    then have "monitor_position env name p s = (Inr (), set_position name q s)"
      using cur q by (simp add: monitor_position_def x_try_def x_bind_def l x_lift_def x_ret_def x_upd_def)
    then show ?thesis by blast
  qed
qed

lemma monitor_loop_idle:
  assumes "list_all (idle_at env (ps_cfg s)) ps" "pc_trail_pct (ps_cfg s) < 1" "fst ` set ps \<subseteq> dom (map_of (ps_positions s))"
  shows "\<exists>s'. monitor_loop env ps s = (Inr (), s') \<and> dict_keys (ps_positions s') = dict_keys (ps_positions s) \<and>
    ps_exec s' = ps_exec s \<and> unbooked s' = unbooked s"
  using assms
proof (induction ps arbitrary: s)
  case Nil
  then show ?case by (simp add: x_ret_def)
next
  case (Cons np ps)
  obtain name p where np: "np = (name, p)" by (cases np)
  obtain s1 where s1: "monitor_position env name p s = (Inr (), s1)" "s1 = s \<or> (\<exists>q. s1 = set_position name q s)"
    using monitor_idle [of env s name p] Cons.prems(1,2) by (auto simp: np)
  have k: "dict_keys (ps_positions s1) = dict_keys (ps_positions s)" "ps_exec s1 = ps_exec s" "unbooked s1 = unbooked s"
    using s1(2) Cons.prems(3) dict_keys_dom [of "ps_positions s"] by (auto simp: set_position_def dict_keys_set np unbooked_def)
  have "ps_cfg s1 = ps_cfg s" using k(3) by (simp add: unbooked_def)
  moreover have "dom (map_of (ps_positions s1)) = dom (map_of (ps_positions s))" using k(1) by (metis dict_keys_dom)
  ultimately obtain s' where "monitor_loop env ps s1 = (Inr (), s')" "dict_keys (ps_positions s') = dict_keys (ps_positions s1)"
    "ps_exec s' = ps_exec s1" "unbooked s' = unbooked s1"
    using Cons.IH [of s1] Cons.prems by auto
  with s1(1) k show ?case by (simp add: np x_bind_def)
qed

text \<open>
  A round of monitoring in which no position is at one of its levels or over age trades nothing:
  the same positions are open after it, no call was made to the execution service, and nothing was
  booked.
\<close>

lemma idle_round_trades_nothing:
  assumes "list_all (idle_at env (ps_cfg s)) (ps_positions s)" "pc_trail_pct (ps_cfg s) < 1"
  shows "\<exists>s'. monitor_positions env s = (Inr (), s') \<and> dict_keys (ps_positions s') = dict_keys (ps_positions s) \<and>
    ps_exec s' = ps_exec s \<and> ps_portfolio s' = ps_portfolio s \<and> ps_closed s' = ps_closed s"
proof -
  have "fst ` set (ps_positions s) \<subseteq> dom (map_of (ps_positions s))" by (simp add: dom_map_of_conv_image_fst)
  with monitor_loop_idle [OF assms] show ?thesis by (auto simp: monitor_positions_def unbooked_def)
qed

end
