(* ===== verification/Trade_Entry.thy ===== *)
theory Trade_Entry
  imports Position_Service
begin

text \<open>
  Entry of the position service, \<open>enter_trade\<close> of \<open>core/position_service.py\<close>: the gates in their order,
  the adjustments of the quantity, the submission under the lock (margin, second risk evaluation,
  liquidity, order) and the storing of the position.

  A signal is a dictionary of scalars; the entries that are read as numbers without a conversion are
  taken to be numbers. Components that are not modelled answer through the record \<open>entry_env\<close>: the news
  sentinel, the acknowledgement watchdog, the mandate service and the signal tracker. Logging, the
  audit engine, the refresh of tokens and the opt-in feed of live option quotes are left out.
\<close>

section \<open>Definitions\<close>

subsection \<open>Data\<close>

datatype asset_type =
    AT_INDEX_OPTIONS | AT_EQUITY | AT_ETF | AT_REIT | AT_INVIT | AT_SME | AT_FUTURES | AT_COMMODITY | AT_CURRENCY | AT_BOND
  | AT_MUTUAL_FUND | AT_IPO | AT_FPO | AT_OFS | AT_QIP | AT_UNKNOWN

fun asset_value :: "asset_type \<Rightarrow> string" where
  "asset_value AT_INDEX_OPTIONS = ''INDEX_OPTIONS''"
| "asset_value AT_EQUITY = ''EQUITY''"
| "asset_value AT_ETF = ''ETF''"
| "asset_value AT_REIT = ''REIT''"
| "asset_value AT_INVIT = ''INVIT''"
| "asset_value AT_SME = ''SME''"
| "asset_value AT_FUTURES = ''FUTURES''"
| "asset_value AT_COMMODITY = ''COMMODITY''"
| "asset_value AT_CURRENCY = ''CURRENCY''"
| "asset_value AT_BOND = ''BOND''"
| "asset_value AT_MUTUAL_FUND = ''MUTUAL_FUND''"
| "asset_value AT_IPO = ''IPO''"
| "asset_value AT_FPO = ''FPO''"
| "asset_value AT_OFS = ''OFS''"
| "asset_value AT_QIP = ''QIP''"
| "asset_value AT_UNKNOWN = ''UNKNOWN''"

text \<open>
  \<open>en_ist\<close> is \<open>now_ist()\<close>; \<open>en_news\<close> the risk level and headline, \<open>en_pending\<close> the unacknowledged orders,
  \<open>en_mandate\<close> the mandate service's size, each \<open>None\<close> where the service was not injected; \<open>en_persist\<close>
  and \<open>en_persist_force\<close> what the signal tracker answers; \<open>en_show_time\<close> prints a time of day and
  \<open>en_show_float\<close> a float.
\<close>

record entry_env =
  en_pos :: pos_env
  en_ist :: real
  en_kill_file :: bool
  en_news :: "(exn + string \<times> string) option"
  en_pending :: "exn + int"
  en_mandate :: "(exn + int) option"
  en_persist :: "exn + string"
  en_persist_force :: "exn + string"
  en_show_time :: "real \<Rightarrow> string"
  en_show_float :: "real \<Rightarrow> string"

subsection \<open>Reading a signal\<close>

definition sig_price :: "jdict \<Rightarrow> real" where
  "sig_price sig = safe_num (jget sig ''price'' (JInt 0)) 0"

definition sig_direction :: "jdict \<Rightarrow> string" where
  "sig_direction sig = py_str (jget sig ''direction'' (JStr ''CALL''))"

definition sig_signal_ts :: "real \<Rightarrow> jdict \<Rightarrow> real" where
  "sig_signal_ts now sig = (case map_of sig ''signal_ts'' of None \<Rightarrow> now | Some v \<Rightarrow> safe_num v now)"

text \<open>\<open>str(sig.get("signal_ts", sig.get("timestamp", time.time()))).replace(".", "_")\<close>\<close>

definition sig_ts_str :: "(real \<Rightarrow> string) \<Rightarrow> real \<Rightarrow> jdict \<Rightarrow> string" where
  "sig_ts_str fs now sig =
     map (\<lambda>c. if c = CHR ''.'' then CHR ''_'' else c)
       (case map_of sig ''signal_ts'' of
          Some v \<Rightarrow> py_str v
        | None \<Rightarrow> (case map_of sig ''timestamp'' of Some v \<Rightarrow> py_str v | None \<Rightarrow> fs now))"

definition order_direction_of :: "string \<Rightarrow> string" where
  "order_direction_of d = (let u = str_upper d in if u = ''CALL'' then ''BUY'' else if u = ''PUT'' then ''SELL'' else u)"

text \<open>\<open>str(x or "")\<close>\<close>

definition str_or_empty :: "jval \<Rightarrow> string" where
  "str_or_empty v = (if jval_true v then py_str v else [])"

definition sig_id :: "jdict \<Rightarrow> string" where
  "sig_id sig = str_strip (str_or_empty (jget sig ''signal_id'' JNull))"

definition is_qualified_signal :: "real \<Rightarrow> jdict \<Rightarrow> exn + bool" where
  "is_qualified_signal moderate_min sig =
     (if str_upper (str_or_empty (jget sig ''signal'' JNull)) = ''HOLD'' then Inr False
      else
        let t0 = jget sig ''tier'' JNull; tier = str_upper (str_or_empty (if jval_true t0 then t0 else jget sig ''strength'' JNull));
            raw = jget sig ''raw_score'' JNull;
            sc = (if jget sig ''score'' JNull \<noteq> JNull then jget sig ''score'' JNull else if jval_true raw then raw else JInt 0)
        in res_bind (py_float sc) (\<lambda>f.
             Inr (if tier = ''STRONG'' \<or> tier = ''MODERATE'' then True
                  else if tier = ''WEAK'' \<or> tier = ''IGNORE'' then False
                  else (case f of Fin x \<Rightarrow> x \<ge> moderate_min | PosInf \<Rightarrow> True | _ \<Rightarrow> False))))"

subsection \<open>Gates\<close>

text \<open>
  A gate answers \<open>Some msg\<close> to refuse the entry with that entry of the decision log. Most gates let the
  entry pass when their check raises one of the caught exceptions.
\<close>

type_synonym gate = "pos_service \<Rightarrow> (exn + string option) \<times> pos_service"

definition fail_open :: "gate \<Rightarrow> gate" where
  "fail_open g = x_try g pos_catches (\<lambda>e. x_ret None)"

definition gate_halt :: gate where
  "gate_halt s = x_ret (if is_hard_halted (ps_safety s) then Some ''HARD HALT ACTIVE - blocked'' else None) s"

definition gate_intraday :: gate where
  "gate_intraday s =
     (case check_intraday_pnl_and_halt ''enter_trade'' (ps_safety s) of
        (b, sf) \<Rightarrow> x_ret (if b then Some ''INTRADAY_LOSS_LIMIT - hard halt tripped'' else None) (s\<lparr>ps_safety := sf\<rparr>))"

definition gate_news :: "entry_env \<Rightarrow> gate" where
  "gate_news env =
     fail_open (case en_news env of
        None \<Rightarrow> x_ret None
      | Some a \<Rightarrow> x_bind (x_lift a) (\<lambda>(lvl, headline).
          x_ret (if lvl = ''HIGH'' \<or> lvl = ''EXTREME'' then Some (''NEWS_BLOCK: '' @ lvl @ '' - '' @ headline) else None)))"

definition gate_warmup :: "entry_env \<Rightarrow> gate" where
  "gate_warmup env s =
     (case ps_warmup s of
        None \<Rightarrow> x_ret None s
      | Some w \<Rightarrow>
          (case wu_can_enter (pe_time (en_pos env)) (en_ist env) w of
             (ok, w') \<Rightarrow> x_ret (if ok then None
                 else Some (''WARMUP_BLOCK: max entries ('' @ show_int (wu_max_trades w) @ '') reached in warm-up''))
               (s\<lparr>ps_warmup := Some w'\<rparr>)))"

definition gate_cooldown :: "entry_env \<Rightarrow> string \<Rightarrow> gate" where
  "gate_cooldown env name s =
     x_ret (case (pc_cooldown (ps_cfg s), map_of (ps_last_entry s) name) of
         (Some secs, Some ts) \<Rightarrow>
           let age = pe_time (en_pos env) - ts
           in if age < of_int secs
              then Some (''COOLDOWN_BLOCK: '' @ fmt_0f age @ ''s since last entry < '' @ show_int secs @ ''s cooldown'') else None
       | _ \<Rightarrow> None) s"

definition index_options :: "asset_type option \<Rightarrow> bool" where
  "index_options asset \<longleftrightarrow> asset = None \<or> asset = Some AT_INDEX_OPTIONS"

text \<open>The controller is asked without the index, so it does not look at the date.\<close>

definition gate_expiry :: "entry_env \<Rightarrow> asset_type option \<Rightarrow> gate" where
  "gate_expiry env asset s =
     x_ret (case ps_expiry s of
         None \<Rightarrow> None
       | Some x \<Rightarrow>
           if \<not> index_options asset then None
           else let r = can_enter_position (en_show_time env) x (en_ist env) None
                in if xp_allowed r then None
                   else Some (''EXPIRY_BLOCK: '' @ xp_reason r @ '' (session='' @ expiry_session_value (xp_session r) @ '')'')) s"

definition gate_expiry_trades :: "entry_env \<Rightarrow> string \<Rightarrow> asset_type option \<Rightarrow> gate" where
  "gate_expiry_trades env name asset s =
     x_ret (case (pc_expiry_max (ps_cfg s), ps_expiry s, ps_risk s) of
         (Some cap, Some x, Some r) \<Rightarrow>
           if index_options asset \<and> is_expiry_day (en_ist env) (Some name)
           then let n = get_trades_today (rv_time (pe_risk (en_pos env))) r
                in if n \<ge> cap
                   then Some (''EXPIRY_MAX_TRADES_BLOCK: '' @ show_int n @ '' trades today >= expiry-day cap of '' @ show_int cap) else None
           else None
       | _ \<Rightarrow> None) s"

definition gate_auction :: "entry_env \<Rightarrow> asset_type option \<Rightarrow> gate" where
  "gate_auction env asset =
     x_ret (if index_options asset \<and> is_in_auction_session (en_ist env)
            then Some ''AUCTION_BLOCK: Entry blocked during NSE auction session'' else None)"

definition gate_recon :: "entry_env \<Rightarrow> gate" where
  "gate_recon env s =
     fail_open (if pc_force_recon (ps_cfg s) \<and> ps_exec s \<noteq> None
        then x_bind (x_lift (en_pending env)) (\<lambda>n. x_ret (if n > 0
               then Some (''PRE_TRADE_RECON_BLOCK: '' @ show_int n @ '' orders still unacknowledged by broker'') else None))
        else x_ret None) s"

text \<open>\<open>sig.get("regime")\<close>; the filter calls \<open>.upper()\<close> on a true value.\<close>

definition sig_regime :: "jdict \<Rightarrow> exn + string option" where
  "sig_regime sig =
     (case jget sig ''regime'' JNull of
        JStr r \<Rightarrow> Inr (Some r)
      | v \<Rightarrow> if jval_true v then Inl (Exn AttributeError ''object has no attribute upper'') else Inr None)"

definition gate_time_of_day :: "entry_env \<Rightarrow> jdict \<Rightarrow> gate" where
  "gate_time_of_day env sig s =
     fail_open (case pc_tod (ps_cfg s) of
        None \<Rightarrow> x_ret None
      | Some c \<Rightarrow>
          if \<not> to_enabled c \<or> \<not> (to_start_hour c \<le> hour_of (en_ist env) \<and> hour_of (en_ist env) < to_end_hour c) \<or> \<not> to_trending_only c
          then (case should_allow_entry c (en_ist env) None of (ok, why) \<Rightarrow> x_ret (if ok then None else Some (''TIME_OF_DAY_BLOCK: '' @ why)))
          else x_bind (x_lift (sig_regime sig)) (\<lambda>regime.
                 case should_allow_entry c (en_ist env) regime of
                   (ok, why) \<Rightarrow> x_ret (if ok then None else Some (''TIME_OF_DAY_BLOCK: '' @ why)))) s"

text \<open>An operation of the risk service on its state and the safety state.\<close>

definition with_risk :: "(risk_state \<Rightarrow> (exn + 'a) \<times> risk_state) \<Rightarrow> risk_service \<Rightarrow> pos_service \<Rightarrow> (exn + 'a) \<times> pos_service" where
  "with_risk f r s = (case f (r, ps_safety s) of (v, r', sf) \<Rightarrow> (v, s\<lparr>ps_risk := Some r', ps_safety := sf\<rparr>))"

definition evaluate_with_metrics :: "risk_env \<Rightarrow> string \<Rightarrow> jdict \<Rightarrow> risk_state \<Rightarrow> (exn + risk_evaluation) \<times> risk_state" where
  "evaluate_with_metrics renv name sig = x_bind (get_portfolio_risk_metrics renv) (evaluate_trade renv name sig)"

definition gate_risk :: "entry_env \<Rightarrow> string \<Rightarrow> jdict \<Rightarrow> gate" where
  "gate_risk env name sig s =
     (case ps_risk s of
        None \<Rightarrow> x_ret None s
      | Some r \<Rightarrow>
          x_try (x_bind (with_risk (evaluate_with_metrics (pe_risk (en_pos env)) name sig) r)
                   (\<lambda>ev. x_ret (if ev_decision ev = RD_DENIED
                      then Some (''RISK_BLOCK: '' @ ev_reason ev @ '' (score='' @ fmt_f 2 (ev_score ev) @ '')'') else None)))
            pos_catches
            (\<lambda>e. x_ret (Some (''RISK_EVAL_ERROR: '' @ exn_msg e @ '' - trade blocked (fail-closed)''))) s)"

definition gate_stale :: "entry_env \<Rightarrow> string \<Rightarrow> jdict \<Rightarrow> gate" where
  "gate_stale env name sig s =
     (let now = pe_time (en_pos env);
          limit = (case pc_breakout_timeout (ps_cfg s) of None \<Rightarrow> ps_signal_max_age s | Some t \<Rightarrow> t);
          ts = sig_signal_ts now sig
      in x_ret (case map_of (ps_breakout s) name of
           Some (Some c) \<Rightarrow> if now - c > of_int limit then Some (''stale - confirmed_ts '' @ fmt_0f (now - c) @ ''s old'')
                           else if now - ts > of_int (ps_signal_max_age s) then Some (''stale - signal_ts '' @ fmt_0f (now - ts) @ ''s old'') else None
         | _ \<Rightarrow> if now - ts > of_int (ps_signal_max_age s) then Some (''stale - signal_ts '' @ fmt_0f (now - ts) @ ''s old'') else None) s)"

fun run_gates :: "gate list \<Rightarrow> gate" where
  "run_gates [] = x_ret None"
| "run_gates (g # gs) = x_bind g (\<lambda>m. case m of Some msg \<Rightarrow> x_ret (Some msg) | None \<Rightarrow> run_gates gs)"

definition entry_gates :: "entry_env \<Rightarrow> string \<Rightarrow> jdict \<Rightarrow> asset_type option \<Rightarrow> gate list" where
  "entry_gates env name sig asset =
     [gate_intraday, gate_news env, gate_warmup env, gate_cooldown env name, gate_expiry env asset,
      gate_expiry_trades env name asset, gate_auction env asset, gate_recon env, gate_time_of_day env sig,
      gate_risk env name sig, gate_stale env name sig]"

subsection \<open>The quantity\<close>

text \<open>An adjustment of the quantity that keeps it where it raises a caught exception.\<close>

definition adjust :: "(int \<Rightarrow> pos_service \<Rightarrow> (exn + int) \<times> pos_service) \<Rightarrow> int \<Rightarrow> pos_service \<Rightarrow> (exn + int) \<times> pos_service" where
  "adjust f q = x_try (f q) pos_catches (\<lambda>e. x_ret q)"

definition get_position_size :: "entry_env \<Rightarrow> asset_type option \<Rightarrow> exn + int" where
  "get_position_size env asset =
     (case en_mandate env of
        None \<Rightarrow> Inr 1
      | Some a \<Rightarrow> res_bind (a) (\<lambda>q.
          Inr (if asset \<in> {Some AT_ETF, Some AT_REIT, Some AT_INVIT} then max 1 (py_trunc (of_int q * (1 / 2)))
               else if asset = Some AT_SME then 1 else q)))"

definition size_warmup :: "entry_env \<Rightarrow> int \<Rightarrow> pos_service \<Rightarrow> (exn + int) \<times> pos_service" where
  "size_warmup env q s =
     (case ps_warmup s of
        None \<Rightarrow> x_ret q s
      | Some w \<Rightarrow> (case adjusted_position_size (en_ist env) q w of (q', w') \<Rightarrow> x_ret q' (s\<lparr>ps_warmup := Some w'\<rparr>)))"

definition size_equity :: "entry_env \<Rightarrow> int \<Rightarrow> pos_service \<Rightarrow> (exn + int) \<times> pos_service" where
  "size_equity env q s =
     (case ps_risk s of
        None \<Rightarrow> x_ret q s
      | Some r \<Rightarrow>
          if pc_equity_scaling (ps_cfg s)
          then (case scale_position (pe_risk (en_pos env)) q q r of
                  (Inl e, r') \<Rightarrow> (Inl e, s\<lparr>ps_risk := Some r'\<rparr>)
                | (Inr sr, r') \<Rightarrow> x_ret (sr_lots sr) (s\<lparr>ps_risk := Some r'\<rparr>))
          else x_ret q s)"

definition size_session :: "entry_env \<Rightarrow> int \<Rightarrow> pos_service \<Rightarrow> (exn + int) \<times> pos_service" where
  "size_session env q s =
     (if pc_monitor (ps_cfg s)
      then (case get_current_params (en_ist env) (ps_perf s) of
              (Inl e, m) \<Rightarrow> (Inl e, s\<lparr>ps_perf := m\<rparr>)
            | (Inr ap, m) \<Rightarrow> x_ret (max 0 (py_trunc (of_int q * ap_mult ap))) (s\<lparr>ps_perf := m\<rparr>))
      else x_ret q s)"

text \<open>\<open>float(sig.get("vix", 15.0))\<close>, a finite number.\<close>

definition sig_vix :: "jdict \<Rightarrow> exn + real" where
  "sig_vix sig = res_bind (py_float (jget sig ''vix'' (JInt 15))) (\<lambda>f. Inr (case f of Fin x \<Rightarrow> x | _ \<Rightarrow> 0))"

definition size_vix :: "jdict \<Rightarrow> int \<Rightarrow> pos_service \<Rightarrow> (exn + int) \<times> pos_service" where
  "size_vix sig q s =
     (case ps_risk s of
        None \<Rightarrow> x_ret q s
      | Some r \<Rightarrow>
          if pc_vix_scale (ps_cfg s)
          then x_bind (x_lift (sig_vix sig))
                 (\<lambda>v. x_ret (max 0 (py_trunc (of_int q * get_vix_size_multiplier (rs_config r) v)))) s
          else x_ret q s)"

text \<open>The notice of a high VIX, which changes nothing else.\<close>

definition warn_vix :: "string \<Rightarrow> jdict \<Rightarrow> pos_service \<Rightarrow> (exn + unit) \<times> pos_service" where
  "warn_vix name sig s =
     x_try (case ps_risk s of
          None \<Rightarrow> x_ret ()
        | Some r \<Rightarrow> x_bind (x_lift (sig_vix sig)) (\<lambda>v. if is_vix_soft_warning (rs_config r) v
            then x_upd (\<lambda>s. s\<lparr>ps_notes := ps_notes s @ [''VIX_SOFT_WARNING: '' @ name @ '' entry at VIX='' @ fmt_f 1 v @ '' (>= soft threshold)'']\<rparr>)
            else x_ret ()))
       pos_catches (\<lambda>e. x_ret ()) s"

definition sl_distance :: "pos_config \<Rightarrow> real \<Rightarrow> real" where
  "sl_distance c price = \<bar>price - price * pc_sl_pct c\<bar>"

definition size_loss_cap :: "real \<Rightarrow> int \<Rightarrow> pos_service \<Rightarrow> (exn + int) \<times> pos_service" where
  "size_loss_cap price q s =
     x_ret (case ps_risk s of
         Some r \<Rightarrow> if pc_loss_cap (ps_cfg s) \<and> price > 0
                   then min q (get_single_trade_loss_cap_lots (rs_config r) (pc_base_capital (ps_cfg s)) (sl_distance (ps_cfg s) price) 1) else q
       | None \<Rightarrow> q) s"

definition entry_quantity :: "entry_env \<Rightarrow> string \<Rightarrow> jdict \<Rightarrow> asset_type option \<Rightarrow> pos_service \<Rightarrow> (exn + int) \<times> pos_service" where
  "entry_quantity env name sig asset =
     x_bind (x_lift (get_position_size env asset))
       (\<lambda>q0. x_bind (adjust (size_warmup env) q0)
       (\<lambda>q1. x_bind (adjust (size_equity env) q1)
       (\<lambda>q2. x_bind (adjust (size_session env) q2)
       (\<lambda>q3. x_bind (adjust (size_vix sig) q3)
       (\<lambda>q4. x_bind (warn_vix name sig)
       (\<lambda>_. adjust (size_loss_cap (sig_price sig)) q4))))))"

text \<open>The risk at the stops of the open positions.\<close>

definition open_sl_risk :: "pos_config \<Rightarrow> (string, position) dict \<Rightarrow> real" where
  "open_sl_risk c ps = sum_list (map (\<lambda>(n, p). sl_distance c (po_underlying p) * of_int (po_qty p)) ps)"

definition gate_portfolio_risk :: "real \<Rightarrow> int \<Rightarrow> gate" where
  "gate_portfolio_risk price q s =
     x_ret (case ps_risk s of
         Some r \<Rightarrow>
           if pc_portfolio_cap (ps_cfg s) \<and> price > 0 \<and> q > 0 \<and>
              \<not> check_portfolio_sl_risk (rs_config r) (open_sl_risk (ps_cfg s) (ps_positions s)) (pc_base_capital (ps_cfg s))
                  (sl_distance (ps_cfg s) price * of_int q)
           then Some ''PORTFOLIO_SL_RISK_BLOCK: combined open-position stop-loss risk would exceed PORTFOLIO_MAX_SL_RISK_PCT of capital''
           else None
       | None \<Rightarrow> None) s"

subsection \<open>The strike\<close>

definition resolve_dte :: "entry_env \<Rightarrow> string \<Rightarrow> pos_service \<Rightarrow> int" where
  "resolve_dte env name s =
     ((case ps_expiry s of None \<Rightarrow> 3 | Some x \<Rightarrow> get_expiry_weekday (Some name)) - weekday (en_ist env)) mod 7"

definition atm_strike :: "int \<Rightarrow> real \<Rightarrow> int" where
  "atm_strike step price = (if step > 0 then round_half_even (price / of_int step) * step else py_trunc price)"

text \<open>\<open>Inl msg\<close> refuses the entry; otherwise the signal, with its strike where one was selected.\<close>

definition choose_strike :: "entry_env \<Rightarrow> string \<Rightarrow> jdict \<Rightarrow> asset_type option \<Rightarrow> pos_service \<Rightarrow> (exn + string + jdict) \<times> pos_service" where
  "choose_strike env name sig asset s =
     (case pc_strike (ps_cfg s) of
        None \<Rightarrow> x_ret (Inr sig) s
      | Some c \<Rightarrow>
          if \<not> index_options asset then x_ret (Inr sig) s
          else let step = pc_strike_step (ps_cfg s) name; dte = resolve_dte env name s
               in case dte_entry_check c dte of
                   (False, why) \<Rightarrow> x_ret (Inl (''STRIKE_BLOCK: '' @ why)) s
                 | (True, _) \<Rightarrow>
                     x_try (x_bind (x_lift (sig_vix sig)) (\<lambda>v.
                         x_ret (Inr (dict_set ''strike''
                           (JInt (select_strike c (atm_strike step (sig_price sig)) (str_upper (sig_direction sig)) step
                              (py_str (jget sig ''tier'' (JStr ''MODERATE''))) v dte)) sig))))
                       pos_catches (\<lambda>e. x_ret (Inr sig)) s)"

subsection \<open>Submission\<close>

definition check_liquidity_gate :: "entry_env \<Rightarrow> pos_config \<Rightarrow> jdict \<Rightarrow> exn + bool \<times> string" where
  "check_liquidity_gate env c sig =
     (let b = jget sig ''bid'' JNull; a = jget sig ''ask'' JNull
      in if b = JNull \<or> a = JNull then Inr (True, ''no_quote_data'')
         else case (py_float b, py_float a) of
             (Inr (Fin bid), Inr (Fin ask)) \<Rightarrow>
               if bid \<le> 0 \<or> ask \<le> 0 then Inr (True, ''no_quote_data'')
               else res_bind (check_entry_liquidity (en_show_float env) (pc_liq c) bid ask (jget sig ''oi'' (JInt 0)) (jget sig ''volume'' (JInt 0)))
                      (\<lambda>r. Inr (lc_passed r, str_or (lc_reject_reason r) []))
           | _ \<Rightarrow> Inr (True, ''no_quote_data''))"

definition entry_request :: "entry_env \<Rightarrow> string \<Rightarrow> jdict \<Rightarrow> int \<Rightarrow> string \<Rightarrow> string \<Rightarrow> x_request" where
  "entry_request env name sig qty dir key =
     (let price = sig_price sig
      in \<lparr>xr_symbol = name, xr_direction = dir, xr_strike_price = (case map_of sig ''strike'' of None \<Rightarrow> price | Some v \<Rightarrow> safe_num v price),
          xr_lot_size = qty, xr_order_type = OT_MARKET, xr_price = Some price, xr_stop_loss = None, xr_target = None,
          xr_trail_activate = False, xr_trail_percent = None, xr_strategy_id = [], xr_timestamp = xe_now (pe_exec (en_pos env)),
          xr_idempotency_key = Some key\<rparr>)"

definition entry_mode :: "string \<Rightarrow> x_mode" where
  "entry_mode mode =
     (let m = str_upper (if mode = [] then ''MANUAL'' else mode)
      in if m = ''PAPER'' then EM_PAPER else if m = ''AUTO'' \<or> m = ''AUTOMATIC'' then EM_AUTOMATIC else EM_MANUAL)"

text \<open>The time stamp of the context is the dataclass default: a signal's stamp is no \<open>datetime\<close> here.\<close>

definition entry_context :: "entry_env \<Rightarrow> jdict \<Rightarrow> string \<Rightarrow> string \<Rightarrow> string \<Rightarrow> x_context" where
  "entry_context env sig signal_id mode key =
     (let sn = jget sig ''strategy_name'' JNull; st = jget sig ''strategy'' JNull; co = jget sig ''correlation_id'' JNull
      in \<lparr>xc_signal_id = signal_id, xc_signal_timestamp = Some (xe_now (pe_exec (en_pos env))),
          xc_strategy_name = (if jval_true sn then py_str sn else if jval_true st then py_str st else ''position_service''),
          xc_execution_mode = entry_mode mode, xc_correlation_id = Some (if jval_true co then py_str co else key)\<rparr>)"

text \<open>The margin check: \<open>Some msg\<close> blocks the trade.\<close>

definition submit_margin :: "string \<Rightarrow> real \<Rightarrow> int \<Rightarrow> pos_service \<Rightarrow> exn + string option" where
  "submit_margin name price qty s =
     (let available = (case ps_portfolio s of None \<Rightarrow> 0 | Some pf \<Rightarrow> get_available_margin pf);
          base = price * of_int qty * (2 / 10)
      in res_bind (case ps_risk s of
            None \<Rightarrow> Inr base
          | Some r \<Rightarrow> (case get_required_margin_per_lot r name price of
                         Inl e \<Rightarrow> if caught pos_catches e then Inr base else Inl e | Inr m \<Rightarrow> Inr m)) (\<lambda>per_lot.
         Inr (case ps_margin s of
                None \<Rightarrow> None
              | Some c \<Rightarrow> let r = validate_margin c available per_lot qty name
                          in if mr_allowed r then None else Some (''MARGIN_BLOCK: '' @ show_opt (mr_error r)))))"

definition reeval_catches :: "exn_class list" where
  "reeval_catches = [ValueError, TypeError, KeyError]"

definition submit_risk :: "entry_env \<Rightarrow> string \<Rightarrow> jdict \<Rightarrow> gate" where
  "submit_risk env name sig s =
     (case ps_risk s of
        None \<Rightarrow> x_ret None s
      | Some r \<Rightarrow>
          x_try (x_bind (with_risk (evaluate_with_metrics (pe_risk (en_pos env)) name sig) r)
                   (\<lambda>ev. x_ret (if ev_decision ev = RD_DENIED then Some (''RISK_BLOCK_POST_LOCK: '' @ ev_reason ev) else None)))
            reeval_catches
            (\<lambda>e. x_lift (Inl (Exn ValueError (''Risk re-eval failed: '' @ exn_msg e)))) s)"

text \<open>\<open>Inl (reason, msg)\<close> is a raised \<open>TradeBlockError\<close>. First the part after the margin check.\<close>

definition submit_checked ::
    "entry_env \<Rightarrow> string \<Rightarrow> jdict \<Rightarrow> int \<Rightarrow> string \<Rightarrow> string \<Rightarrow> string \<Rightarrow> pos_service \<Rightarrow> (exn + (string \<times> string) + x_result) \<times> pos_service" where
  "submit_checked env name sig qty dir key signal_id =
     x_bind (submit_risk env name sig) (\<lambda>rb.
       case rb of Some msg \<Rightarrow> x_ret (Inl (''risk'', msg))
       | None \<Rightarrow> x_bind (\<lambda>s. x_lift (check_liquidity_gate env (ps_cfg s) sig) s) (\<lambda>(ok, why).
           if \<not> ok then x_ret (Inl (''liquidity'', ''LIQUIDITY_BLOCK: '' @ why))
           else (\<lambda>s. case ps_exec s of
               None \<Rightarrow> (Inl (Exn RuntimeError ''No execution service available''), s)
             | Some x \<Rightarrow> x_bind (call_execute_order (en_pos env) (entry_request env name sig qty dir key)
                           (Some (entry_context env sig signal_id (ps_mode s) key)) x) (\<lambda>r. x_ret (Inr r)) s)))"

definition submit_order_under_lock ::
    "entry_env \<Rightarrow> string \<Rightarrow> jdict \<Rightarrow> int \<Rightarrow> string \<Rightarrow> string \<Rightarrow> pos_service \<Rightarrow> (exn + (string \<times> string) + x_result) \<times> pos_service" where
  "submit_order_under_lock env name sig qty dir key =
     x_bind (x_lift (if sig_id sig \<noteq> [] then Inr (sig_id sig) else en_persist_force env)) (\<lambda>signal_id.
       if signal_id = []
       then x_ret (Inl (''signal_persistence'', ''SIGNAL_PERSISTENCE_BLOCK: durable signal_id unavailable''))
       else x_bind (\<lambda>s. x_lift (submit_margin name (sig_price sig) qty s) s) (\<lambda>mb.
         case mb of Some msg \<Rightarrow> x_ret (Inl (''margin'', msg)) | None \<Rightarrow> submit_checked env name sig qty dir key signal_id))"

text \<open>\<open>classify_broker_exception\<close> by message, for an exception without a code: whether the class is
  \<open>AuthExpiredError\<close> or \<open>OrderRejectedError\<close>.\<close>

definition classified_fatal :: "exn \<Rightarrow> string option" where
  "classified_fatal e =
     (let m = str_lower (exn_msg e); has = (\<lambda>ps. list_ex (\<lambda>p. str_contains p m) ps)
      in if has [''timeout'', ''timed out''] then None
         else if has [''connection'', ''network'', ''reset''] then None
         else if has [''rate limit''] then None
         else if has [''auth'', ''token'', ''session''] then Some ''AuthExpiredError''
         else if has [''margin'', ''insufficient''] then None
         else if has [''rejected'', ''invalid''] then Some ''OrderRejectedError''
         else None)"

subsection \<open>Storing the position\<close>

definition stored_asset :: "asset_type option \<Rightarrow> jdict \<Rightarrow> string" where
  "stored_asset asset sig =
     (case asset of Some a \<Rightarrow> asset_value a | None \<Rightarrow> (case map_of sig ''asset_type'' of Some v \<Rightarrow> py_str v | None \<Rightarrow> ''INDEX_OPTIONS''))"

definition store_position ::
    "entry_env \<Rightarrow> string \<Rightarrow> jdict \<Rightarrow> int \<Rightarrow> string \<Rightarrow> string \<Rightarrow> x_result \<Rightarrow> asset_type option \<Rightarrow> pos_service \<Rightarrow> (exn + unit) \<times> pos_service" where
  "store_position env name sig qty dir key r asset =
     (let price = sig_price sig
      in x_bind (x_lift (get_underlying_ltp (en_pos env) name)) (\<lambda>ltp.
         x_bind (x_lift (py_int (case map_of sig ''strike'' of Some v \<Rightarrow> v | None \<Rightarrow> jget sig ''price'' (JInt 0)))) (\<lambda>strike.
         x_bind (x_lift (py_int (jget sig ''score'' (JInt 0)))) (\<lambda>score.
         x_upd (\<lambda>s.
           let s1 = set_position name
                 \<lparr>po_direction = sig_direction sig, po_qty = qty, po_entry_price = price, po_underlying = price_or ltp price,
                  po_entry_time = pe_time (en_pos env), po_order_id = xo_order_id r, po_signal = sig_direction sig,
                  po_strike = strike, po_key = key, po_order_direction = dir, po_score = score,
                  po_asset_type = stored_asset asset sig, po_peak = None, po_trail = False, po_exit_failed = False,
                  po_exit_retries = 0\<rparr> s
           in case map_of (ps_trackers s) name of
               Some t \<Rightarrow> if rt_sl_ts t \<noteq> None then s1\<lparr>ps_trackers := dict_set name (record_reentry t) (ps_trackers s)\<rparr> else s1
             | None \<Rightarrow> s1)))))"

subsection \<open>Manual mode\<close>

definition is_manual :: "pos_service \<Rightarrow> bool" where
  "is_manual s \<longleftrightarrow> ps_manual_only s \<or> str_upper (ps_mode s) \<in> {''MANUAL'', ''MANUAL_ONLY'', ''SIGNAL_ONLY'', ''SIGNALS_ONLY''}"

definition telegram_action_quality :: "jdict \<Rightarrow> bool \<times> string" where
  "telegram_action_quality sig =
     (if jval_true (jget sig ''breakout_ok'' (JBool True)) then (True, ''ok'') else (False, ''breakout_ok false''))"

definition sig_rr :: "jdict \<Rightarrow> jval" where
  "sig_rr sig =
     (let zero = JFloat (Fin 0) ''0.0'';
          rr = (case map_of sig ''rr'' of Some v \<Rightarrow> v
                | None \<Rightarrow> (case map_of sig ''rr_ratio'' of Some v \<Rightarrow> v | None \<Rightarrow> jget sig ''risk_reward_ratio'' zero))
      in if rr = JNull then zero else rr)"

definition build_manual_signal_message :: "pos_config \<Rightarrow> string \<Rightarrow> jdict \<Rightarrow> string" where
  "build_manual_signal_message c name sig =
     (let dir = str_upper (sig_direction sig); price = sig_price sig;
          (sl, tg) = (if dir = ''PUT'' then (price * (2 - pc_sl_pct c), price * (2 - pc_target_pct c))
                      else (price * pc_sl_pct c, price * pc_target_pct c));
          score = jget sig ''score'' JNull; tier = jget sig ''tier'' JNull; regime = jget sig ''regime'' JNull; vix = jget sig ''vix'' JNull;
          header = ''[MANUAL SIGNAL] '' @ name @ '' '' @ dir @
            (if jval_true tier \<or> score \<noteq> JNull
             then '' (Tier: '' @ (if jval_true tier then py_str tier else ''N/A'') @ '', Score: ''
                    @ (if score \<noteq> JNull then py_str score else ''N/A'') @ '')'' else []);
          line2 = ''Entry: '' @ py_str (jget sig ''price'' (JFloat (Fin 0) ''0.0'')) @ '' | SL: '' @ fmt_f 2 sl @ '' | Target: '' @ fmt_f 2 tg
            @ '' | RR='' @ py_str (sig_rr sig);
          rg = (if jval_true regime then ''Regime: '' @ py_str regime else []);
          vx = (if vix \<noteq> JNull then ''VIX: '' @ py_str vix else []);
          line3 = rg @ (if rg \<noteq> [] \<and> vx \<noteq> [] then '' | '' else []) @ vx
      in header @ [CHR 0x0A] @ line2 @ (if line3 \<noteq> [] then [CHR 0x0A] @ line3 else []))"

definition set_log :: "string \<Rightarrow> string \<Rightarrow> pos_service \<Rightarrow> pos_service" where
  "set_log name msg s = s\<lparr>ps_log := dict_set name msg (ps_log s)\<rparr>"

definition manual_signal :: "string \<Rightarrow> jdict \<Rightarrow> pos_service \<Rightarrow> pos_service" where
  "manual_signal name sig s =
     (case telegram_action_quality sig of
        (False, why) \<Rightarrow> set_log name (''MANUAL SIGNAL BLOCKED: '' @ why) s
      | (True, _) \<Rightarrow>
          let msg = build_manual_signal_message (ps_cfg s) name sig
          in set_log name msg
               (if msg \<in> set (ps_manual_sent s) then s
                else s\<lparr>ps_notes := ps_notes s @ [msg], ps_manual_sent := ps_manual_sent s @ [msg]\<rparr>))"

subsection \<open>Entering a trade\<close>

text \<open>What follows a submission, whether it returned, was blocked or raised.\<close>

definition finish_entry ::
    "entry_env \<Rightarrow> string \<Rightarrow> jdict \<Rightarrow> int \<Rightarrow> string \<Rightarrow> string \<Rightarrow> asset_type option \<Rightarrow> (string \<times> string) + x_result \<Rightarrow> pos_service \<Rightarrow> (exn + unit) \<times> pos_service" where
  "finish_entry env name sig qty dir key asset out =
     (case out of
        Inl (reason, msg) \<Rightarrow>
          x_upd (\<lambda>s. (set_log name (str_upper reason @ ''_BLOCK: '' @ msg) s)
             \<lparr>ps_notes := ps_notes s @ [str_upper reason @ ''_BLOCK: '' @ name @ '' - '' @ msg]\<rparr>)
      | Inr r \<Rightarrow>
          if xo_status r = ST_FILLED \<or> xo_status r = ST_PARTIALLY_FILLED
          then x_bind (store_position env name sig qty dir key r asset)
                 (\<lambda>_. x_upd (\<lambda>s. set_log name (''Executed: '' @ xo_order_id r)
                    (s\<lparr>ps_risk := map_option (record_trade_entry (rv_time (pe_risk (en_pos env)))) (ps_risk s),
                       ps_last_entry := dict_set name (pe_time (en_pos env)) (ps_last_entry s)\<rparr>)))
          else x_upd (set_log name (''Blocked/Failed: '' @ str_or (xo_reject_reason r) (''OrderStatus.'' @ status_value (xo_status r)))))"

definition submit_failed :: "string \<Rightarrow> exn \<Rightarrow> pos_service \<Rightarrow> pos_service" where
  "submit_failed name e s =
     (case classified_fatal e of
        Some cls \<Rightarrow> (set_log name (''BROKER_ERROR: '' @ cls) s)
                     \<lparr>ps_safety := trip_hard_halt (''Margin check failed: '' @ cls) [] (ps_safety s)\<rparr>
      | None \<Rightarrow> set_log name (''ORDER_FAILED: '' @ exn_msg e) s)"

definition entry_key :: "entry_env \<Rightarrow> string \<Rightarrow> jdict \<Rightarrow> int \<Rightarrow> string" where
  "entry_key env name sig qty =
     name @ ''_'' @ sig_direction sig @ ''_'' @ show_int qty @ ''_'' @ sig_ts_str (en_show_float env) (pe_time (en_pos env)) sig"

text \<open>The submission with the handlers around it; the exceptions they name are logged.\<close>

definition submit_entry :: "entry_env \<Rightarrow> string \<Rightarrow> jdict \<Rightarrow> asset_type option \<Rightarrow> int \<Rightarrow> pos_service \<Rightarrow> (exn + unit) \<times> pos_service" where
  "submit_entry env name sig asset qty s =
     (let dir = order_direction_of (sig_direction sig); key = entry_key env name sig qty
      in case submit_order_under_lock env name sig qty dir key s of
          (Inl e, s') \<Rightarrow> if caught pos_catches e then (Inr (), submit_failed name e s') else (Inl e, s')
        | (Inr out, s') \<Rightarrow> finish_entry env name sig qty dir key asset out s')"

definition automatic_entry :: "entry_env \<Rightarrow> string \<Rightarrow> jdict \<Rightarrow> asset_type option \<Rightarrow> pos_service \<Rightarrow> (exn + unit) \<times> pos_service" where
  "automatic_entry env name sig asset =
     x_bind (entry_quantity env name sig asset) (\<lambda>qty.
     x_bind (gate_portfolio_risk (sig_price sig) qty) (\<lambda>b.
       case b of Some msg \<Rightarrow> x_upd (set_log name msg)
       | None \<Rightarrow> x_bind (choose_strike env name sig asset) (\<lambda>c.
           case c of Inl msg \<Rightarrow> x_upd (set_log name msg) | Inr sig' \<Rightarrow> submit_entry env name sig' asset qty)))"

text \<open>A qualified signal is persisted before the gates; every exception of that is swallowed.\<close>

definition persist_signal :: "entry_env \<Rightarrow> pos_config \<Rightarrow> jdict \<Rightarrow> exn + jdict" where
  "persist_signal env c sig =
     res_bind (is_qualified_signal (pc_moderate_min c) sig) (\<lambda>q.
       Inr (if q \<and> sig_id sig = [] then (case en_persist env of Inr i \<Rightarrow> if i = [] then sig else dict_set ''signal_id'' (JStr i) sig | Inl e \<Rightarrow> sig)
            else sig))"

definition enter_trade :: "entry_env \<Rightarrow> string \<Rightarrow> jdict \<Rightarrow> asset_type option \<Rightarrow> pos_service \<Rightarrow> (exn + unit) \<times> pos_service" where
  "enter_trade env name sig asset =
     x_bind (x_upd (\<lambda>s. s\<lparr>ps_safety := check_kill_file_and_halt (en_kill_file env) (ps_safety s)\<rparr>)) (\<lambda>_.
     x_bind gate_halt (\<lambda>h.
       case h of Some msg \<Rightarrow> x_upd (set_log name msg)
       | None \<Rightarrow> x_bind (\<lambda>s. x_lift (persist_signal env (ps_cfg s) sig) s) (\<lambda>sig.
           x_bind (run_gates (entry_gates env name sig asset)) (\<lambda>g.
             case g of Some msg \<Rightarrow> x_upd (set_log name msg)
             | None \<Rightarrow> (\<lambda>s. if is_manual s then (Inr (), manual_signal name sig s) else automatic_entry env name sig asset s)))))"

section \<open>Lemmas\<close>

subsection \<open>What the gates leave alone\<close>

definition entry_frame :: "pos_service \<Rightarrow> _" where
  "entry_frame s = (ps_exec s, ps_cfg s, ps_positions s, ps_portfolio s, ps_expiry s, ps_margin s, ps_breakout s, ps_last_entry s,
     ps_manual_only s, ps_mode s, ps_signal_max_age s)"

lemma entry_frame_upd [simp]:
  "entry_frame (s\<lparr>ps_safety := sf\<rparr>) = entry_frame s" "entry_frame (s\<lparr>ps_risk := r\<rparr>) = entry_frame s"
  "entry_frame (s\<lparr>ps_warmup := w\<rparr>) = entry_frame s" "entry_frame (s\<lparr>ps_perf := m\<rparr>) = entry_frame s"
  "entry_frame (s\<lparr>ps_notes := n\<rparr>) = entry_frame s" "entry_frame (s\<lparr>ps_log := l\<rparr>) = entry_frame s"
  "entry_frame (s\<lparr>ps_risk := r, ps_safety := sf\<rparr>) = entry_frame s"
  by (simp_all add: entry_frame_def)

lemma entry_frame_log [simp]: "entry_frame (set_log name msg s) = entry_frame s"
  by (simp add: set_log_def)

lemma keeps_fail_open [keeps_intros]: "x_keeps view g \<Longrightarrow> x_keeps view (fail_open g)"
  unfolding fail_open_def by (intro keeps_try keeps_ret)

text \<open>A gate that reads the state before it is built.\<close>

lemma keeps_read: "(\<And>s. f s = g s s) \<Longrightarrow> (\<And>t. x_keeps view (g t)) \<Longrightarrow> x_keeps view f"
  by (simp add: x_keeps_def)

lemma with_risk_keeps [keeps_intros]: "x_keeps entry_frame (with_risk f r)"
  by (simp add: x_keeps_def with_risk_def split: prod.split)

lemma gate_news_keeps: "x_keeps entry_frame (gate_news env)"
  unfolding gate_news_def by (intro keeps_intros) (auto split: option.split intro!: keeps_intros)

lemma gate_recon_keeps: "x_keeps entry_frame (gate_recon env)"
  by (rule keeps_read [OF gate_recon_def]) (intro keeps_intros)

lemma gate_time_keeps: "x_keeps entry_frame (gate_time_of_day env sig)"
proof (rule keeps_read [OF gate_time_of_day_def], rule keeps_fail_open)
  fix t
  show "x_keeps entry_frame (case pc_tod (ps_cfg t) of
        None \<Rightarrow> x_ret None
      | Some c \<Rightarrow>
          if \<not> to_enabled c \<or> \<not> (to_start_hour c \<le> hour_of (en_ist env) \<and> hour_of (en_ist env) < to_end_hour c) \<or> \<not> to_trending_only c
          then (case should_allow_entry c (en_ist env) None of (ok, why) \<Rightarrow> x_ret (if ok then None else Some (''TIME_OF_DAY_BLOCK: '' @ why)))
          else x_bind (x_lift (sig_regime sig)) (\<lambda>regime.
                 case should_allow_entry c (en_ist env) regime of
                   (ok, why) \<Rightarrow> x_ret (if ok then None else Some (''TIME_OF_DAY_BLOCK: '' @ why))))"
    by (cases "pc_tod (ps_cfg t)") (auto split: prod.split intro!: keeps_intros)
qed

text \<open>Both risk evaluations.\<close>

lemma risk_try_keeps:
  "(\<And>s. m s = (case ps_risk s of None \<Rightarrow> x_ret None s | Some r \<Rightarrow> x_try (x_bind (with_risk f r) (\<lambda>ev. x_ret (g ev))) cs h s)) \<Longrightarrow>
     (\<And>e. x_keeps entry_frame (h e)) \<Longrightarrow> x_keeps entry_frame m"
proof -
  assume m: "\<And>s. m s = (case ps_risk s of None \<Rightarrow> x_ret None s | Some r \<Rightarrow> x_try (x_bind (with_risk f r) (\<lambda>ev. x_ret (g ev))) cs h s)"
    and h: "\<And>e. x_keeps entry_frame (h e)"
  have "x_keeps entry_frame (x_try (x_bind (with_risk f r) (\<lambda>ev. x_ret (g ev))) cs h)" for r by (intro keeps_intros h)
  then show ?thesis by (simp add: x_keeps_def m x_ret_def split: option.split)
qed

lemma gate_risk_keeps: "x_keeps entry_frame (gate_risk env name sig)"
  by (rule risk_try_keeps [OF gate_risk_def]) (rule keeps_ret)

lemma submit_risk_keeps: "x_keeps entry_frame (submit_risk env name sig)"
  by (rule risk_try_keeps [OF submit_risk_def]) (rule keeps_lift)

lemma entry_gates_keep: "g \<in> set (entry_gates env name sig asset) \<Longrightarrow> x_keeps entry_frame g"
proof -
  have "x_keeps entry_frame gate_intraday" "x_keeps entry_frame (gate_warmup env)" "x_keeps entry_frame (gate_cooldown env name)"
    "x_keeps entry_frame (gate_expiry env asset)" "x_keeps entry_frame (gate_expiry_trades env name asset)"
    "x_keeps entry_frame (gate_auction env asset)" "x_keeps entry_frame (gate_stale env name sig)"
    by (simp_all add: x_keeps_def gate_intraday_def gate_warmup_def gate_cooldown_def gate_expiry_def gate_expiry_trades_def
        gate_auction_def gate_stale_def x_ret_def Let_def split: prod.split option.split)
  then show "g \<in> set (entry_gates env name sig asset) \<Longrightarrow> x_keeps entry_frame g"
    using gate_news_keeps gate_recon_keeps gate_time_keeps gate_risk_keeps by (auto simp: entry_gates_def)
qed

text \<open>Passing all gates means that each of them passed, in a state with the same frame.\<close>

lemma run_gates_passed:
  assumes "run_gates gs s = (Inr None, s')" "\<forall>g \<in> set gs. x_keeps entry_frame g"
  shows "entry_frame s' = entry_frame s \<and> (\<forall>g \<in> set gs. \<exists>t t'. g t = (Inr None, t') \<and> entry_frame t = entry_frame s)"
  using assms
proof (induction gs arbitrary: s)
  case Nil
  then show ?case by simp
next
  case (Cons g gs)
  then obtain t where t: "g s = (Inr None, t)" "run_gates gs t = (Inr None, s')" by (auto simp: bind_Inr split: option.splits)
  moreover have "entry_frame t = entry_frame s" using keepsD [of entry_frame g] Cons.prems(2) t(1) by simp
  ultimately show ?case using Cons.IH [OF t(2)] Cons.prems(2) by auto
qed

lemma run_gates_keeps: "\<forall>g \<in> set gs. x_keeps entry_frame g \<Longrightarrow> x_keeps entry_frame (run_gates gs)"
  by (induction gs) (auto intro!: keeps_intros split: option.split)

text \<open>The facts the gates establish that depend on the frame and the environment only.\<close>

definition entry_cleared :: "entry_env \<Rightarrow> string \<Rightarrow> jdict \<Rightarrow> asset_type option \<Rightarrow> pos_service \<Rightarrow> bool" where
  "entry_cleared env name sig asset s \<longleftrightarrow>
     (\<forall>lvl h. en_news env = Some (Inr (lvl, h)) \<longrightarrow> lvl \<noteq> ''HIGH'' \<and> lvl \<noteq> ''EXTREME'') \<and>
     (\<forall>secs ts. pc_cooldown (ps_cfg s) = Some secs \<longrightarrow> map_of (ps_last_entry s) name = Some ts \<longrightarrow> of_int secs \<le> pe_time (en_pos env) - ts) \<and>
     (index_options asset \<longrightarrow> \<not> is_in_auction_session (en_ist env) \<and>
        (\<forall>x. ps_expiry s = Some x \<longrightarrow> xp_allowed (can_enter_position (en_show_time env) x (en_ist env) None))) \<and>
     pe_time (en_pos env) - sig_signal_ts (pe_time (en_pos env)) sig \<le> of_int (ps_signal_max_age s)"

lemma entry_cleared_frame: "entry_frame t = entry_frame s \<Longrightarrow> entry_cleared env name sig asset t = entry_cleared env name sig asset s"
  by (simp add: entry_cleared_def entry_frame_def)

lemma gates_clear:
  assumes "run_gates (entry_gates env name sig asset) s = (Inr None, s')"
  shows "entry_cleared env name sig asset s" "entry_frame s' = entry_frame s"
proof -
  have p: "\<And>g. g \<in> set (entry_gates env name sig asset) \<Longrightarrow> \<exists>t t'. g t = (Inr None, t') \<and> entry_frame t = entry_frame s"
    and f: "entry_frame s' = entry_frame s"
    using run_gates_passed [OF assms] entry_gates_keep by blast+
  have news: "\<exists>t t'. gate_news env t = (Inr None, t') \<and> entry_frame t = entry_frame s" by (rule p) (simp add: entry_gates_def)
  have cool: "\<exists>t t'. gate_cooldown env name t = (Inr None, t') \<and> entry_frame t = entry_frame s" by (rule p) (simp add: entry_gates_def)
  have auct: "\<exists>t t'. gate_auction env asset t = (Inr None, t') \<and> entry_frame t = entry_frame s" by (rule p) (simp add: entry_gates_def)
  have expi: "\<exists>t t'. gate_expiry env asset t = (Inr None, t') \<and> entry_frame t = entry_frame s" by (rule p) (simp add: entry_gates_def)
  have stal: "\<exists>t t'. gate_stale env name sig t = (Inr None, t') \<and> entry_frame t = entry_frame s" by (rule p) (simp add: entry_gates_def)
  have "lvl \<noteq> ''HIGH'' \<and> lvl \<noteq> ''EXTREME''" if "en_news env = Some (Inr (lvl, h))" for lvl h
    using news that by (auto simp: gate_news_def fail_open_def x_try_def x_ret_def split: if_splits)
  moreover have "of_int secs \<le> pe_time (en_pos env) - ts"
    if "pc_cooldown (ps_cfg s) = Some secs" "map_of (ps_last_entry s) name = Some ts" for secs ts
    using cool that by (auto simp: gate_cooldown_def entry_frame_def Let_def split: if_splits)
  moreover have "index_options asset \<Longrightarrow> \<not> is_in_auction_session (en_ist env)"
    using auct by (auto simp: gate_auction_def split: if_splits)
  moreover have "xp_allowed (can_enter_position (en_show_time env) x (en_ist env) None)" if "index_options asset" "ps_expiry s = Some x" for x
    using expi that by (auto simp: gate_expiry_def entry_frame_def Let_def split: if_splits)
  moreover have "pe_time (en_pos env) - sig_signal_ts (pe_time (en_pos env)) sig \<le> of_int (ps_signal_max_age s)"
    using stal by (auto simp: gate_stale_def entry_frame_def Let_def split: if_splits option.splits)
  ultimately show "entry_cleared env name sig asset s" "entry_frame s' = entry_frame s"
    using f by (simp_all add: entry_cleared_def)
qed

subsection \<open>The quantity and the strike\<close>

lemma size_steps_keep:
  "x_keeps entry_frame (size_warmup env q)" "x_keeps entry_frame (size_equity env q)" "x_keeps entry_frame (size_session env q)"
  "x_keeps entry_frame (size_loss_cap price q)"
  by (simp_all add: x_keeps_def size_warmup_def size_equity_def size_session_def size_loss_cap_def x_ret_def
      split: option.split prod.split sum.split)

lemma size_vix_keeps: "x_keeps entry_frame (size_vix sig q)"
proof -
  have "x_keeps entry_frame (x_bind (x_lift (sig_vix sig)) (\<lambda>v. x_ret (f v)))" for f :: "real \<Rightarrow> int" by (intro keeps_intros)
  then show ?thesis by (simp add: x_keeps_def size_vix_def x_ret_def split: option.split)
qed

lemma warn_vix_keeps: "x_keeps entry_frame (warn_vix name sig)"
proof (rule keeps_read [OF warn_vix_def], rule keeps_try)
  fix t
  show "x_keeps entry_frame (case ps_risk t of
          None \<Rightarrow> x_ret ()
        | Some r \<Rightarrow> x_bind (x_lift (sig_vix sig)) (\<lambda>v. if is_vix_soft_warning (rs_config r) v
            then x_upd (\<lambda>s. s\<lparr>ps_notes := ps_notes s @ [''VIX_SOFT_WARNING: '' @ name @ '' entry at VIX='' @ fmt_f 1 v @ '' (>= soft threshold)'']\<rparr>)
            else x_ret ()))"
    by (cases "ps_risk t") (auto intro!: keeps_intros)
qed (rule keeps_ret)

lemma adjust_keeps: "(\<And>q. x_keeps entry_frame (f q)) \<Longrightarrow> x_keeps entry_frame (adjust f q)"
  unfolding adjust_def by (intro keeps_try keeps_ret)

lemma entry_quantity_keeps: "x_keeps entry_frame (entry_quantity env name sig asset)"
  unfolding entry_quantity_def
  by (intro keeps_bind keeps_lift adjust_keeps size_steps_keep size_vix_keeps warn_vix_keeps)

lemma choose_strike_keeps: "x_keeps entry_frame (choose_strike env name sig asset)"
proof -
  have "x_keeps entry_frame (x_try (x_bind (x_lift (sig_vix sig)) (\<lambda>v. x_ret (f v))) pos_catches (\<lambda>e. x_ret b))"
    for f :: "real \<Rightarrow> string + jdict" and b by (intro keeps_intros)
  then show ?thesis by (simp add: x_keeps_def choose_strike_def x_ret_def Let_def split: option.split prod.split bool.split)
qed

lemma gate_portfolio_keeps: "x_keeps entry_frame (gate_portfolio_risk price q)"
  by (simp add: x_keeps_def gate_portfolio_risk_def x_ret_def split: option.split)

lemma jget_other: "a \<noteq> k \<Longrightarrow> jget (dict_set a v sig) k d = jget sig k d"
  by (simp add: jget_def)

lemma choose_strike_price:
  "choose_strike env name sig asset s = (Inr (Inr sig'), s') \<Longrightarrow> sig_price sig' = sig_price sig"
  by (auto simp: choose_strike_def Let_def x_try_def x_bind_def x_ret_def x_lift_def sig_price_def jget_other
      split: option.splits if_splits prod.splits bool.splits sum.splits)

lemma persist_price: "persist_signal env c sig = Inr sig' \<Longrightarrow> sig_price sig' = sig_price sig \<and> sig_signal_ts now sig' = sig_signal_ts now sig"
  by (auto simp: persist_signal_def res_bind_Inr sig_price_def jget_other sig_signal_ts_def split: sum.splits if_splits)

subsection \<open>Submission\<close>

text \<open>What is known when the execution service is called: the margin check passed for the submitted
  quantity, in a state with the same frame.\<close>

definition margin_passed :: "string \<Rightarrow> real \<Rightarrow> int \<Rightarrow> pos_service \<Rightarrow> bool" where
  "margin_passed name price qty s \<longleftrightarrow>
     (\<exists>t. entry_frame t = entry_frame s \<and> submit_margin name price qty t = Inr None)"

lemma margin_passed_quantity:
  assumes "margin_passed name price qty s" "ps_margin s = Some c"
  shows "0 < qty"
proof -
  obtain t where t: "entry_frame t = entry_frame s" "submit_margin name price qty t = Inr None" using assms(1) by (auto simp: margin_passed_def)
  then have "ps_margin t = Some c" using assms(2) by (simp add: entry_frame_def)
  with t(2) show ?thesis by (auto simp: submit_margin_def Let_def res_bind_Inr margin_allowed_iff split: if_splits)
qed

lemma submit_checked_cases:
  assumes "submit_checked env name sig qty dir key sid s = (v, s')"
  shows "entry_frame s' = entry_frame s \<and> (\<forall>r. v \<noteq> Inr (Inr r)) \<or>
    (\<exists>t x r x'. entry_frame t = entry_frame s \<and> ps_exec s = Some x \<and>
       execute_order ((pe_exec (en_pos env))\<lparr>xe_safety := ps_safety t\<rparr>) (entry_request env name sig qty dir key)
         (Some (entry_context env sig sid (ps_mode s) key)) x = (r, x') \<and> s' = t\<lparr>ps_exec := Some x'\<rparr> \<and>
       v = (case r of Inl e \<Rightarrow> Inl e | Inr y \<Rightarrow> Inr (Inr y)))"
proof -
  obtain w t where w: "submit_risk env name sig s = (w, t)" by fastforce
  note f = keepsD [OF submit_risk_keeps w]
  show ?thesis
  proof (cases "w = Inr None \<and> (\<exists>why. check_liquidity_gate env (ps_cfg t) sig = Inr (True, why)) \<and> ps_exec t \<noteq> None")
    case False
    with assms w f show ?thesis
      by (auto simp: submit_checked_def x_bind_def x_lift_def x_ret_def split: sum.splits option.splits prod.splits if_splits)
  next
    case ok: True
    then obtain x where x: "ps_exec t = Some x" by blast
    obtain r x' where r: "execute_order ((pe_exec (en_pos env))\<lparr>xe_safety := ps_safety t\<rparr>) (entry_request env name sig qty dir key)
       (Some (entry_context env sig sid (ps_mode t) key)) x = (r, x')" by fastforce
    have "submit_checked env name sig qty dir key sid s = ((case r of Inl e \<Rightarrow> Inl e | Inr y \<Rightarrow> Inr (Inr y)), t\<lparr>ps_exec := Some x'\<rparr>)"
      using ok x r w
      by (auto simp: submit_checked_def x_bind_def x_lift_def x_ret_def call_execute_order_def split: sum.split)
    moreover have "ps_mode t = ps_mode s" "ps_exec s = Some x" using f x by (simp_all add: entry_frame_def)
    ultimately show ?thesis using assms f r by auto
  qed
qed

lemma submit_split:
  assumes "submit_order_under_lock env name sig qty dir key s = (v, s')"
  shows "s' = s \<and> (\<forall>r. v \<noteq> Inr (Inr r)) \<or>
    (\<exists>sid. sid \<noteq> [] \<and> margin_passed name (sig_price sig) qty s \<and> submit_checked env name sig qty dir key sid s = (v, s'))"
  using assms
  by (auto simp: submit_order_under_lock_def margin_passed_def x_ret_def x_lift_def x_bind_def split: if_splits sum.splits option.splits)

lemma submit_cases:
  assumes "submit_order_under_lock env name sig qty dir key s = (v, s')"
  shows "entry_frame s' = entry_frame s \<and> (\<forall>r. v \<noteq> Inr (Inr r)) \<or>
    (\<exists>t x sid r x'. entry_frame t = entry_frame s \<and> ps_exec s = Some x \<and> sid \<noteq> [] \<and> margin_passed name (sig_price sig) qty s \<and>
       execute_order ((pe_exec (en_pos env))\<lparr>xe_safety := ps_safety t\<rparr>) (entry_request env name sig qty dir key)
         (Some (entry_context env sig sid (ps_mode s) key)) x = (r, x') \<and> s' = t\<lparr>ps_exec := Some x'\<rparr> \<and>
       v = (case r of Inl e \<Rightarrow> Inl e | Inr y \<Rightarrow> Inr (Inr y)))"
  using submit_split [OF assms] submit_checked_cases by blast

subsection \<open>Orders placed by an entry\<close>

definition placed :: "pos_service \<Rightarrow> (string \<times> x_request) list option" where
  "placed s = map_option es_placed (ps_exec s)"

lemma placed_frame: "entry_frame t = entry_frame s \<Longrightarrow> placed t = placed s"
  by (simp add: placed_def entry_frame_def)

lemma placed_log [simp]: "placed (set_log name msg s) = placed s"
  by (simp add: placed_def set_log_def)

lemma margin_passed_frame: "entry_frame t = entry_frame s \<Longrightarrow> margin_passed name price qty t = margin_passed name price qty s"
  by (simp add: margin_passed_def)

text \<open>A step that keeps the frame cannot be the one that places the order.\<close>

lemma bind_placed:
  assumes "x_keeps entry_frame m" "placed (snd (x_bind m f s)) \<noteq> placed s"
  obtains a t where "m s = (Inr a, t)" "entry_frame t = entry_frame s" "placed (snd (f a t)) \<noteq> placed t"
proof -
  obtain w t where w: "m s = (w, t)" by fastforce
  note t = keepsD [OF assms(1) w]
  show thesis
  proof (cases w)
    case (Inl e)
    with w t assms(2) show ?thesis by (simp add: x_bind_def placed_frame [OF t])
  next
    case (Inr a)
    with w t assms(2) show ?thesis by (intro that [of a t]) (simp_all add: x_bind_def placed_frame [OF t])
  qed
qed

lemma store_position_keeps:
  "x_keeps ps_exec (store_position env name sig qty dir key r asset)"
  unfolding store_position_def Let_def
  by (intro keeps_intros) (auto simp: set_position_def split: option.split)

lemma finish_entry_exec: "ps_exec (snd (finish_entry env name sig qty dir key asset out s)) = ps_exec s"
proof -
  have "x_keeps ps_exec (finish_entry env name sig qty dir key asset out)"
    unfolding finish_entry_def
    by (auto simp: set_log_def intro!: keeps_intros store_position_keeps split: sum.split prod.split)
  then show ?thesis by (simp add: x_keeps_def)
qed

lemma submit_failed_exec: "ps_exec (submit_failed name e s) = ps_exec s"
  by (simp add: submit_failed_def set_log_def split: option.split)

lemma submit_entry_placed:
  assumes "placed (snd (submit_entry env name sig asset qty s)) \<noteq> placed s"
  shows "margin_passed name (sig_price sig) qty s \<and> entry_mode (ps_mode s) \<noteq> EM_PAPER"
proof -
  let ?dir = "order_direction_of (sig_direction sig)" and ?key = "entry_key env name sig qty"
  obtain v s' where v: "submit_order_under_lock env name sig qty ?dir ?key s = (v, s')" by fastforce
  have "ps_exec (snd (submit_entry env name sig asset qty s)) = ps_exec s'"
    using v by (simp add: submit_entry_def Let_def finish_entry_exec submit_failed_exec split: sum.split)
  with assms have n: "placed s' \<noteq> placed s" by (simp add: placed_def)
  then obtain t x sid r x' where c: "ps_exec s = Some x" "margin_passed name (sig_price sig) qty s"
      "execute_order ((pe_exec (en_pos env))\<lparr>xe_safety := ps_safety t\<rparr>) (entry_request env name sig qty ?dir ?key)
         (Some (entry_context env sig sid (ps_mode s) ?key)) x = (r, x')" "s' = t\<lparr>ps_exec := Some x'\<rparr>"
    using submit_cases [OF v] placed_frame [of s' s] by blast
  then have "es_placed x' \<noteq> es_placed x" using n by (simp add: placed_def)
  then have "xc_execution_mode (entry_context env sig sid (ps_mode s) ?key) \<noteq> EM_PAPER"
    using paper_unplaced [of "entry_context env sig sid (ps_mode s) ?key" "(pe_exec (en_pos env))\<lparr>xe_safety := ps_safety t\<rparr>"
        "entry_request env name sig qty ?dir ?key" x] c(3) by auto
  with c(2) show ?thesis by (simp add: entry_context_def Let_def)
qed

lemma automatic_entry_placed:
  assumes "placed (snd (automatic_entry env name sig asset s)) \<noteq> placed s"
  shows "\<exists>qty. margin_passed name (sig_price sig) qty s \<and> entry_mode (ps_mode s) \<noteq> EM_PAPER"
proof -
  obtain qty t1 where 1: "entry_frame t1 = entry_frame s"
      "placed (snd (x_bind (gate_portfolio_risk (sig_price sig) qty) (\<lambda>b.
         case b of Some msg \<Rightarrow> x_upd (set_log name msg)
         | None \<Rightarrow> x_bind (choose_strike env name sig asset) (\<lambda>c.
           case c of Inl msg \<Rightarrow> x_upd (set_log name msg) | Inr sig' \<Rightarrow> submit_entry env name sig' asset qty)) t1)) \<noteq> placed t1"
    using bind_placed [OF entry_quantity_keeps assms [unfolded automatic_entry_def]] by blast
  obtain b t2 where 2: "entry_frame t2 = entry_frame t1" "placed (snd ((case b of Some msg \<Rightarrow> x_upd (set_log name msg)
         | None \<Rightarrow> x_bind (choose_strike env name sig asset) (\<lambda>c.
           case c of Inl msg \<Rightarrow> x_upd (set_log name msg) | Inr sig' \<Rightarrow> submit_entry env name sig' asset qty)) t2)) \<noteq> placed t2"
    using bind_placed [OF gate_portfolio_keeps 1(2)] by blast
  then have "b = None" by (auto simp: x_upd_def split: option.splits)
  with 2 have 3: "placed (snd (x_bind (choose_strike env name sig asset) (\<lambda>c.
           case c of Inl msg \<Rightarrow> x_upd (set_log name msg) | Inr sig' \<Rightarrow> submit_entry env name sig' asset qty) t2)) \<noteq> placed t2" by simp
  obtain c t3 where 4: "choose_strike env name sig asset t2 = (Inr c, t3)" "entry_frame t3 = entry_frame t2"
      "placed (snd ((case c of Inl msg \<Rightarrow> x_upd (set_log name msg) | Inr sig' \<Rightarrow> submit_entry env name sig' asset qty) t3)) \<noteq> placed t3"
    using bind_placed [OF choose_strike_keeps 3] by blast
  then obtain sig' where "c = Inr sig'" "placed (snd (submit_entry env name sig' asset qty t3)) \<noteq> placed t3"
    by (auto simp: x_upd_def split: sum.splits)
  moreover have f: "entry_frame t3 = entry_frame s" using 1(1) 2(1) 4(2) by simp
  ultimately show ?thesis
    using submit_entry_placed choose_strike_price 4(1) margin_passed_frame [OF f] by (fastforce simp: entry_frame_def)
qed

lemma bind_upd: "x_bind (x_upd g) f s = f () (g s)"
  by (simp add: x_bind_def x_upd_def)

lemma enter_trade_start:
  "enter_trade env name sig asset s =
     (let u = s\<lparr>ps_safety := check_kill_file_and_halt (en_kill_file env) (ps_safety s)\<rparr>
      in if is_hard_halted (ps_safety u) then (Inr (), set_log name ''HARD HALT ACTIVE - blocked'' u)
         else x_bind (\<lambda>s. x_lift (persist_signal env (ps_cfg s) sig) s) (\<lambda>sig.
           x_bind (run_gates (entry_gates env name sig asset)) (\<lambda>g.
             case g of Some msg \<Rightarrow> x_upd (set_log name msg)
             | None \<Rightarrow> (\<lambda>s. if is_manual s then (Inr (), manual_signal name sig s) else automatic_entry env name sig asset s))) u)"
proof -
  have "gate_halt u = (Inr (if is_hard_halted (ps_safety u) then Some ''HARD HALT ACTIVE - blocked'' else None), u)" for u
    by (simp add: gate_halt_def x_ret_def)
  then show ?thesis
    by (simp add: enter_trade_def Let_def bind_upd bind_step [where m = gate_halt]) (simp add: x_upd_def)
qed

lemma enter_trade_placed:
  assumes "placed (snd (enter_trade env name sig asset s)) \<noteq> placed s"
  shows "\<not> en_kill_file env \<and> \<not> is_hard_halted (ps_safety s) \<and> \<not> is_manual s \<and> entry_mode (ps_mode s) \<noteq> EM_PAPER \<and>
    entry_cleared env name sig asset s \<and> (\<exists>qty. margin_passed name (sig_price sig) qty s)"
proof -
  define u where "u = s\<lparr>ps_safety := check_kill_file_and_halt (en_kill_file env) (ps_safety s)\<rparr>"
  have fu: "entry_frame u = entry_frame s" by (simp add: u_def)
  have h: "\<not> is_hard_halted (ps_safety u)" and
    1: "placed (snd (x_bind (\<lambda>s. x_lift (persist_signal env (ps_cfg s) sig) s) (\<lambda>sig.
           x_bind (run_gates (entry_gates env name sig asset)) (\<lambda>g.
             case g of Some msg \<Rightarrow> x_upd (set_log name msg)
             | None \<Rightarrow> (\<lambda>s. if is_manual s then (Inr (), manual_signal name sig s) else automatic_entry env name sig asset s))) u)) \<noteq> placed u"
    using assms placed_frame [OF fu] by (auto simp: enter_trade_start Let_def u_def split: if_splits)
  have k: "x_keeps entry_frame (\<lambda>s. x_lift (persist_signal env (ps_cfg s) sig) s)" by (simp add: x_keeps_def x_lift_def)
  obtain sig' t1 where 2: "x_lift (persist_signal env (ps_cfg u) sig) u = (Inr sig', t1)" "entry_frame t1 = entry_frame u"
     "placed (snd (x_bind (run_gates (entry_gates env name sig' asset)) (\<lambda>g.
             case g of Some msg \<Rightarrow> x_upd (set_log name msg)
             | None \<Rightarrow> (\<lambda>s. if is_manual s then (Inr (), manual_signal name sig' s) else automatic_entry env name sig' asset s)) t1)) \<noteq> placed t1"
    using bind_placed [OF k 1] by blast
  have kg: "x_keeps entry_frame (run_gates (entry_gates env name sig' asset))" by (rule run_gates_keeps) (blast intro: entry_gates_keep)
  obtain g t2 where 3: "run_gates (entry_gates env name sig' asset) t1 = (Inr g, t2)" "entry_frame t2 = entry_frame t1"
     "placed (snd ((case g of Some msg \<Rightarrow> x_upd (set_log name msg)
             | None \<Rightarrow> (\<lambda>s. if is_manual s then (Inr (), manual_signal name sig' s) else automatic_entry env name sig' asset s)) t2)) \<noteq> placed t2"
    using bind_placed [OF kg 2(3)] by blast
  then have g: "g = None" by (auto simp: x_upd_def split: option.splits)
  have m: "ps_exec (manual_signal name sig' t2) = ps_exec t2" by (simp add: manual_signal_def set_log_def Let_def split: prod.split bool.split)
  then have 4: "\<not> is_manual t2" "placed (snd (automatic_entry env name sig' asset t2)) \<noteq> placed t2"
    using 3(3) g by (auto simp: placed_def split: if_splits)
  have f: "entry_frame t2 = entry_frame s" "entry_frame t1 = entry_frame s" using 2(2) 3(2) fu by simp_all
  have p: "sig_price sig' = sig_price sig" "\<And>now. sig_signal_ts now sig' = sig_signal_ts now sig"
    using persist_price 2(1) by (auto simp: x_lift_def)
  have "entry_cleared env name sig' asset s"
    using gates_clear(1) [OF 3(1) [unfolded g]] entry_cleared_frame [OF f(2)] by simp
  then have "entry_cleared env name sig asset s" by (simp add: entry_cleared_def p)
  moreover have "\<not> is_manual s" using 4(1) f(1) by (simp add: is_manual_def entry_frame_def)
  moreover have "\<exists>qty. margin_passed name (sig_price sig) qty s \<and> entry_mode (ps_mode s) \<noteq> EM_PAPER"
    using automatic_entry_placed [OF 4(2)] margin_passed_frame [OF f(1)] f(1) by (simp add: p entry_frame_def)
  moreover have "\<not> en_kill_file env \<and> \<not> is_hard_halted (ps_safety s)"
    using h by (auto simp: u_def check_kill_file_and_halt_def trip_hard_halt_def is_hard_halted_def split: if_splits)
  ultimately show ?thesis by blast
qed

subsection \<open>An entry that the broker fills\<close>

text \<open>
  What the submission needs to be filled at once; \<open>k\<close> is the key of the request. The risk service, when
  there is one, is asked again under the lock and must pass; \<open>s1\<close> is the service as that leaves it, and the
  order runs under its kill switch.
\<close>

definition entry_fills :: "entry_env \<Rightarrow> string \<Rightarrow> jdict \<Rightarrow> int \<Rightarrow> x_service \<Rightarrow> pos_service \<Rightarrow> x_result \<Rightarrow> bool" where
  "entry_fills env name sig qty x s r \<longleftrightarrow>
     (let s1 = snd (submit_risk env name sig s);
          xe = (pe_exec (en_pos env))\<lparr>xe_safety := ps_safety s1\<rparr>; k = entry_key env name sig qty;
          rq = entry_request env name sig qty (order_direction_of (sig_direction sig)) k
      in sig_id sig \<noteq> [] \<and> fst (submit_risk env name sig s) = Inr None \<and> submit_margin name (sig_price sig) qty s = Inr None \<and>
         (\<exists>why. check_liquidity_gate env (ps_cfg s) sig = Inr (True, why)) \<and>
         gates_open xe x \<and> \<not> fst (idem_is_duplicate (xe_now xe) k (es_idem x)) \<and> mach (generate_client_order_id k) x = None \<and>
         fills_order x xe rq (entry_context env sig (sig_id sig) (ps_mode s) k) r \<and>
         xe_wal_append xe = None \<and> xe_wal_commit xe = None \<and> xe_wal_fail xe = None \<and>
         xe_save_trade xe = None \<and> xe_up_durable xe \<and> cf_duplicate_prevention (es_config x) \<and> 0 < im_cache_size (es_idem x) \<and>
         int (length (im_cache (es_idem x))) \<le> im_cache_size (es_idem x))"

lemma entry_key_nonempty: "entry_key env name sig qty \<noteq> []"
  by (simp add: entry_key_def)

lemma submit_filled:
  assumes x: "ps_exec s = Some x" and f: "entry_fills env name sig qty x s r"
  defines "k \<equiv> entry_key env name sig qty" and "dir \<equiv> order_direction_of (sig_direction sig)"
  shows "\<exists>x' s1. submit_order_under_lock env name sig qty dir k s = (Inr (Inr r), s1\<lparr>ps_exec := Some x'\<rparr>) \<and>
    entry_frame s1 = entry_frame s \<and> es_placed x' = es_placed x @ [(k, entry_request env name sig qty dir k)]"
proof -
  obtain s1 where r: "submit_risk env name sig s = (Inr None, s1)" using f by (auto simp: entry_fills_def Let_def prod_eq_iff)
  have fr: "entry_frame s1 = entry_frame s" using submit_risk_keeps r by (rule keepsD)
  then have s1: "ps_exec s1 = Some x" "ps_cfg s1 = ps_cfg s" "ps_mode s1 = ps_mode s" "ps_margin s1 = ps_margin s"
    using x by (simp_all add: entry_frame_def)
  let ?xe = "(pe_exec (en_pos env))\<lparr>xe_safety := ps_safety s1\<rparr>" and ?rq = "entry_request env name sig qty dir k"
  let ?ctx = "entry_context env sig (sig_id sig) (ps_mode s) k"
  obtain why where l: "check_liquidity_gate env (ps_cfg s) sig = Inr (True, why)" using f by (auto simp: entry_fills_def Let_def)
  have k: "xr_idempotency_key ?rq = Some k" "k \<noteq> []" by (simp_all add: entry_request_def Let_def k_def entry_key_nonempty)
  obtain x' where e: "execute_order ?xe ?rq (Some ?ctx) x = (Inr r, x')" "es_placed x' = es_placed x @ [(k, ?rq)]"
    using filled_books [of ?xe x ?rq k ?ctx r] f k r by (auto simp: entry_fills_def Let_def k_def dir_def)
  have "submit_checked env name sig qty dir k (sig_id sig) s = (Inr (Inr r), s1\<lparr>ps_exec := Some x'\<rparr>)"
    using f s1 e(1) l r
    by (simp add: submit_checked_def entry_fills_def Let_def x_bind_def x_ret_def x_lift_def call_execute_order_def)
  then have "submit_order_under_lock env name sig qty dir k s = (Inr (Inr r), s1\<lparr>ps_exec := Some x'\<rparr>)"
    using f by (simp add: submit_order_under_lock_def entry_fills_def Let_def) (simp add: x_bind_def x_lift_def)
  with e(2) fr show ?thesis by blast
qed

lemma submit_entry_filled:
  assumes x: "ps_exec s = Some x" and f: "entry_fills env name sig qty x s r"
  defines "k \<equiv> entry_key env name sig qty" and "dir \<equiv> order_direction_of (sig_direction sig)"
  shows "\<exists>x' s1. es_placed x' = es_placed x @ [(k, entry_request env name sig qty dir k)] \<and>
    ps_positions s1 = ps_positions s \<and> ps_last_entry s1 = ps_last_entry s \<and> submit_entry env name sig asset qty s =
      x_bind (store_position env name sig qty dir k r asset)
        (\<lambda>_. x_upd (\<lambda>s. set_log name (''Executed: '' @ xo_order_id r)
           (s\<lparr>ps_risk := map_option (record_trade_entry (rv_time (pe_risk (en_pos env)))) (ps_risk s),
              ps_last_entry := dict_set name (pe_time (en_pos env)) (ps_last_entry s)\<rparr>))) (s1\<lparr>ps_exec := Some x'\<rparr>)"
proof -
  have st: "xo_status r = ST_FILLED" using f by (simp add: entry_fills_def Let_def fills_order_def)
  obtain x' s1 where w: "submit_order_under_lock env name sig qty dir k s = (Inr (Inr r), s1\<lparr>ps_exec := Some x'\<rparr>)"
    "entry_frame s1 = entry_frame s" "es_placed x' = es_placed x @ [(k, entry_request env name sig qty dir k)]"
    using submit_filled [OF x f] unfolding k_def dir_def by blast
  have "ps_positions s1 = ps_positions s" "ps_last_entry s1 = ps_last_entry s" using w(2) by (simp_all add: entry_frame_def)
  moreover have "submit_entry env name sig asset qty s = x_bind (store_position env name sig qty dir k r asset)
        (\<lambda>_. x_upd (\<lambda>s. set_log name (''Executed: '' @ xo_order_id r)
           (s\<lparr>ps_risk := map_option (record_trade_entry (rv_time (pe_risk (en_pos env)))) (ps_risk s),
              ps_last_entry := dict_set name (pe_time (en_pos env)) (ps_last_entry s)\<rparr>))) (s1\<lparr>ps_exec := Some x'\<rparr>)"
    using w(1) st by (simp add: submit_entry_def Let_def finish_entry_def flip: k_def dir_def)
  ultimately show ?thesis using w(3) by blast
qed

lemma store_position_at:
  assumes "get_underlying_ltp (en_pos env) name = Inr ltp"
  shows "store_position env name sig qty dir key r asset s =
     (case py_int (case map_of sig ''strike'' of Some v \<Rightarrow> v | None \<Rightarrow> jget sig ''price'' (JInt 0)) of
        Inl e \<Rightarrow> (Inl e, s)
      | Inr strike \<Rightarrow> (case py_int (jget sig ''score'' (JInt 0)) of
          Inl e \<Rightarrow> (Inl e, s)
        | Inr score \<Rightarrow> (Inr (), snd (store_position env name sig qty dir key r asset s))))"
  using assms by (simp add: store_position_def Let_def x_bind_def x_lift_def x_upd_def split: sum.split)

lemma stored_position:
  assumes "get_underlying_ltp (en_pos env) name = Inr ltp"
    and "py_int (case map_of sig ''strike'' of Some v \<Rightarrow> v | None \<Rightarrow> jget sig ''price'' (JInt 0)) = Inr strike"
    and "py_int (jget sig ''score'' (JInt 0)) = Inr score"
  shows "\<exists>s' p. store_position env name sig qty dir key r asset s = (Inr (), s') \<and> ps_positions s' = dict_set name p (ps_positions s) \<and>
    po_direction p = sig_direction sig \<and> po_qty p = qty \<and> po_entry_price p = sig_price sig \<and> po_order_direction p = dir \<and> po_key p = key \<and>
    po_strike p = strike \<and> po_score p = score \<and> po_order_id p = xo_order_id r \<and>
    ps_exec s' = ps_exec s \<and> ps_last_entry s' = ps_last_entry s \<and> ps_risk s' = ps_risk s"
  using assms
  by (auto simp: store_position_def Let_def x_bind_def x_lift_def x_upd_def set_position_def split: option.split)

section \<open>Properties\<close>

definition demo_entry_env :: entry_env where
  "demo_entry_env = \<lparr>en_pos = demo_pos_env, en_ist = 11 * 3600, en_kill_file = False, en_news = Some (Inr (''LOW'', [])), en_pending = Inr 0,
     en_mandate = Some (Inr 25), en_persist = Inr [], en_persist_force = Inr [], en_show_time = (\<lambda>_. []), en_show_float = (\<lambda>_. ''5.0'')\<rparr>"

definition demo_entry_signal :: jdict where
  "demo_entry_signal = [(''price'', JInt 100), (''score'', JInt 80), (''signal_id'', JStr ''S1''), (''direction'', JStr ''CALL'')]"

definition demo_auto_service :: pos_service where
  "demo_auto_service = demo_pos_service\<lparr>ps_mode := ''AUTO'', ps_positions := []\<rparr>"

lemma demo_entry_simps [simp]:
  "en_pos demo_entry_env = demo_pos_env" "en_ist demo_entry_env = 11 * 3600" "\<not> en_kill_file demo_entry_env"
  "en_news demo_entry_env = Some (Inr (''LOW'', []))" "en_mandate demo_entry_env = Some (Inr 25)"
  "ps_exec demo_auto_service = Some demo_service" "ps_mode demo_auto_service = ''AUTO''" "ps_safety demo_auto_service = new_safety"
  "ps_cfg demo_auto_service = default_pos_config" "ps_risk demo_auto_service = None" "ps_margin demo_auto_service = None"
  "ps_warmup demo_auto_service = None" "ps_expiry demo_auto_service = None" "ps_positions demo_auto_service = []"
  "ps_last_entry demo_auto_service = []" "ps_breakout demo_auto_service = []" "ps_signal_max_age demo_auto_service = 90"
  "\<not> ps_manual_only demo_auto_service" "pe_time demo_pos_env = 5"
  by (simp_all add: demo_entry_env_def demo_auto_service_def demo_pos_service_def demo_pos_env_def)

lemma demo_fills_auto:
  "xc_execution_mode ctx = EM_AUTOMATIC \<Longrightarrow> fills_order demo_service (demo_env\<lparr>xe_safety := new_safety\<rparr>) rq ctx demo_filled"
  using demo_filled_valid by (simp add: fills_order_def is_paper_def demo_env_def demo_broker_def demo_context_def)

lemma demo_entry_fills:
  assumes "sig_id sig \<noteq> []" "jget sig ''bid'' JNull = JNull"
  shows "entry_fills demo_entry_env name sig qty demo_service demo_auto_service demo_filled"
proof -
  have "xc_execution_mode (entry_context demo_entry_env sig i ''AUTO'' k) = EM_AUTOMATIC" for i k
    by (simp add: entry_context_def entry_mode_def Let_def upper_char_def)
  then show ?thesis
    using assms demo_gates [of "demo_env\<lparr>xe_safety := new_safety\<rparr>" demo_service]
    by (auto simp: entry_fills_def Let_def submit_risk_def x_ret_def unknown_key_free submit_margin_def check_liquidity_gate_def demo_fills_auto)
qed

text \<open>The same with a risk service attached, whose second evaluation passes.\<close>

lemma demo_risk_metrics:
  "get_portfolio_risk_metrics demo_risk_env (demo_risk, new_safety) = (Inr demo_metrics, demo_risk, new_safety)"
  by (simp add: get_portfolio_risk_metrics_def x_try_def x_bind_def x_lift_def exposure_total_def new_safety_def demo_risk_defs Let_def)

definition demo_risk_auto :: pos_service where
  "demo_risk_auto = demo_auto_service\<lparr>ps_risk := Some demo_risk\<rparr>"

lemma demo_submit_risk: "submit_risk demo_entry_env ''NIFTY'' demo_signal demo_risk_auto = (Inr None, demo_risk_auto)"
proof -
  obtain r where r: "evaluate_trade demo_risk_env ''NIFTY'' demo_signal demo_metrics (demo_risk, new_safety) = (Inr r, demo_risk, new_safety)"
    "ev_decision r = RD_ALLOWED" using demo_allowed by blast
  have "evaluate_with_metrics demo_risk_env ''NIFTY'' demo_signal (demo_risk, new_safety) = (Inr r, demo_risk, new_safety)"
    by (simp add: evaluate_with_metrics_def x_bind_def demo_risk_metrics r(1))
  moreover have "pe_risk demo_pos_env = demo_risk_env" by (simp add: demo_pos_env_def)
  moreover have "demo_risk_auto\<lparr>ps_safety := new_safety\<rparr> = demo_risk_auto"
    by (simp add: demo_risk_auto_def demo_auto_service_def demo_pos_service_def)
  moreover have "demo_risk_auto\<lparr>ps_risk := Some demo_risk, ps_safety := new_safety\<rparr> = demo_risk_auto" "ps_safety demo_risk_auto = new_safety"
    "ps_risk demo_risk_auto = Some demo_risk"
    by (simp_all add: demo_risk_auto_def demo_auto_service_def demo_pos_service_def)
  ultimately show ?thesis using r(2)
    by (simp add: submit_risk_def with_risk_def x_try_def x_bind_def x_ret_def)
qed

lemma demo_risk_entry_fills:
  "entry_fills demo_entry_env ''NIFTY'' demo_signal 25 demo_service demo_risk_auto demo_filled"
proof -
  have "xc_execution_mode (entry_context demo_entry_env sig i ''AUTO'' k) = EM_AUTOMATIC" for sig i k
    by (simp add: entry_context_def entry_mode_def Let_def upper_char_def)
  moreover have "ps_safety demo_risk_auto = new_safety" "ps_cfg demo_risk_auto = default_pos_config" "ps_mode demo_risk_auto = ''AUTO''"
    "ps_margin demo_risk_auto = None" "ps_portfolio demo_risk_auto = ps_portfolio demo_auto_service" "ps_risk demo_risk_auto = Some demo_risk"
    by (simp_all add: demo_risk_auto_def)
  moreover have "get_required_margin_per_lot demo_risk ''NIFTY'' p = Inr (p * 50 * (20 / 100))" for p
    by (simp add: get_required_margin_per_lot_def get_lot_size_def lot_sizes_fallback_def demo_risk_defs)
  moreover have "sig_id demo_signal \<noteq> []" "jget demo_signal ''bid'' JNull = JNull"
    by (simp_all add: demo_signal_def sig_id_def str_or_empty_def jget_def str_strip_def is_space_def)
  ultimately show ?thesis
    using demo_gates [of "demo_env\<lparr>xe_safety := new_safety\<rparr>" demo_service]
    by (auto simp: entry_fills_def Let_def demo_submit_risk unknown_key_free submit_margin_def check_liquidity_gate_def demo_fills_auto)
qed

text \<open>
  C12: An entry whose order the broker fills is stored: one order with the entry's key and quantity was
  sent, the position of that symbol carries the signal's direction, price, strike and score and the order's
  direction, key, quantity and id, the other positions are as before, and the time of the entry is recorded.
  The conditions are those of a filled submission (\<open>entry_fills\<close>: a signal id, the margin and liquidity
  checks and the second evaluation of the risk service pass, the gates of the execution service are open,
  the key is unused, the broker fills, and no write fails), that the price of the underlying can be read, and
  that strike and score of the signal convert to integers. Without the last one the claim is false: the
  lemma \<open>filled_entry_lost\<close> below shows a filled entry of which no position is stored.
\<close>

theorem filled_entry_stored:
  assumes "ps_exec s = Some x" "entry_fills env name sig qty x s r"
    and "get_underlying_ltp (en_pos env) name = Inr ltp"
    and "py_int (case map_of sig ''strike'' of Some v \<Rightarrow> v | None \<Rightarrow> jget sig ''price'' (JInt 0)) = Inr strike"
    and "py_int (jget sig ''score'' (JInt 0)) = Inr score"
  shows "\<exists>s' x' rq p. submit_entry env name sig asset qty s = (Inr (), s') \<and> ps_exec s' = Some x' \<and>
    es_placed x' = es_placed x @ [(entry_key env name sig qty, rq)] \<and> xr_symbol rq = name \<and> xr_lot_size rq = qty \<and>
    ps_positions s' = dict_set name p (ps_positions s) \<and> po_direction p = sig_direction sig \<and> po_qty p = qty \<and>
    po_entry_price p = sig_price sig \<and> po_strike p = strike \<and> po_score p = score \<and>
    po_order_direction p = xr_direction rq \<and> po_order_id p = xo_order_id r \<and> po_key p = entry_key env name sig qty \<and> ps_last_entry s' = dict_set name (pe_time (en_pos env)) (ps_last_entry s)"
proof -
  let ?k = "entry_key env name sig qty" and ?dir = "order_direction_of (sig_direction sig)"
  obtain x' s1 where x': "es_placed x' = es_placed x @ [(?k, entry_request env name sig qty ?dir ?k)]"
    "ps_positions s1 = ps_positions s" "ps_last_entry s1 = ps_last_entry s" and e: "submit_entry env name sig asset qty s =
      x_bind (store_position env name sig qty ?dir ?k r asset)
        (\<lambda>_. x_upd (\<lambda>s. set_log name (''Executed: '' @ xo_order_id r)
           (s\<lparr>ps_risk := map_option (record_trade_entry (rv_time (pe_risk (en_pos env)))) (ps_risk s),
              ps_last_entry := dict_set name (pe_time (en_pos env)) (ps_last_entry s)\<rparr>))) (s1\<lparr>ps_exec := Some x'\<rparr>)"
    using submit_entry_filled [OF assms(1,2)] by blast
  from stored_position [OF assms(3-5), of qty ?dir ?k r asset "s1\<lparr>ps_exec := Some x'\<rparr>"] x'(2,3) obtain s' p where
    "store_position env name sig qty ?dir ?k r asset (s1\<lparr>ps_exec := Some x'\<rparr>) = (Inr (), s')"
    "ps_positions s' = dict_set name p (ps_positions s)" "po_direction p = sig_direction sig" "po_qty p = qty" "po_entry_price p = sig_price sig"
    "po_order_direction p = ?dir" "po_key p = ?k" "po_strike p = strike" "po_score p = score" "po_order_id p = xo_order_id r" "ps_exec s' = Some x'" "ps_last_entry s' = ps_last_entry s" by auto
  with e x' show ?thesis
    by (simp add: bind_step [where m = "store_position env name sig qty ?dir ?k r asset"]) (auto simp: x_upd_def set_log_def entry_request_def Let_def)
qed

theorem filled_entry_stored_witness:
  "\<exists>s' x' p. submit_entry demo_entry_env ''NIFTY'' demo_signal None 25 demo_risk_auto = (Inr (), s') \<and> ps_exec s' = Some x' \<and>
     length (es_placed x') = 1 \<and> ps_positions s' = [(''NIFTY'', p)] \<and> po_qty p = 25 \<and> po_entry_price p = 100 \<and> po_score p = 80"
proof -
  have p: "sig_price demo_signal = 100" by (simp add: sig_price_def demo_signal_def jget_def safe_num_def safe_float_def)
  have x: "ps_exec demo_risk_auto = Some demo_service" "ps_positions demo_risk_auto = []" by (simp_all add: demo_risk_auto_def)
  show ?thesis
    using filled_entry_stored [OF x(1) demo_risk_entry_fills, of "Some 90" 100 80 None] p x(2)
    by (force simp: demo_signal_def jget_def)
qed

text \<open>
  The score of a signal is converted to an integer after the order was sent, outside every handler.
  A signal whose score is present but \<open>None\<close> passes the qualification check; when its order is filled, the
  entry raises a \<open>TypeError\<close>: the order is at the broker and no position is stored, so neither stop nor
  target will ever be watched for it.
\<close>

lemma filled_entry_lost:
  assumes "ps_exec s = Some x" "entry_fills env name sig qty x s r"
    and "get_underlying_ltp (en_pos env) name = Inr ltp"
    and "py_int (case map_of sig ''strike'' of Some v \<Rightarrow> v | None \<Rightarrow> jget sig ''price'' (JInt 0)) = Inr strike"
    and "map_of sig ''score'' = Some JNull"
  shows "\<exists>e s' x' rq. submit_entry env name sig asset qty s = (Inl e, s') \<and> exn_cls e = TypeError \<and> ps_exec s' = Some x' \<and>
    es_placed x' = es_placed x @ [(entry_key env name sig qty, rq)] \<and> ps_positions s' = ps_positions s"
proof -
  let ?k = "entry_key env name sig qty" and ?dir = "order_direction_of (sig_direction sig)"
  obtain x' s1 where x': "es_placed x' = es_placed x @ [(?k, entry_request env name sig qty ?dir ?k)]"
    "ps_positions s1 = ps_positions s" "ps_last_entry s1 = ps_last_entry s" and e: "submit_entry env name sig asset qty s =
      x_bind (store_position env name sig qty ?dir ?k r asset)
        (\<lambda>_. x_upd (\<lambda>s. set_log name (''Executed: '' @ xo_order_id r)
           (s\<lparr>ps_risk := map_option (record_trade_entry (rv_time (pe_risk (en_pos env)))) (ps_risk s),
              ps_last_entry := dict_set name (pe_time (en_pos env)) (ps_last_entry s)\<rparr>))) (s1\<lparr>ps_exec := Some x'\<rparr>)"
    using submit_entry_filled [OF assms(1,2)] by blast
  have "store_position env name sig qty ?dir ?k r asset (s1\<lparr>ps_exec := Some x'\<rparr>) =
      (Inl (Exn TypeError ''int() argument must be a string or a number''), s1\<lparr>ps_exec := Some x'\<rparr>)"
    using assms(4,5) by (subst store_position_at [OF assms(3)]) (simp add: jget_def)
  with e x' show ?thesis by (auto simp: x_bind_def)
qed

text \<open>
  C7: An entry reaches the broker only through every check: when the call of \<open>enter_trade\<close> places an order,
  the kill file was absent and the kill switch off, the service was neither in a manual nor in the paper
  mode, the news level was neither high nor extreme, the cooldown of the symbol was over, the signal was
  not older than allowed, for index options the auction was not running and the expiry controller
  admitted the entry, and the margin check passed for a quantity.
\<close>

theorem placed_entry_cleared:
  assumes "placed (snd (enter_trade env name sig asset s)) \<noteq> placed s"
  shows "\<not> en_kill_file env \<and> \<not> is_hard_halted (ps_safety s) \<and> \<not> is_manual s \<and> entry_mode (ps_mode s) \<noteq> EM_PAPER \<and>
    entry_cleared env name sig asset s \<and> (\<exists>qty. margin_passed name (sig_price sig) qty s)"
  using assms by (rule enter_trade_placed)

lemma demo_entry_runs:
  "enter_trade demo_entry_env ''NIFTY'' demo_entry_signal (Some AT_EQUITY) demo_auto_service =
     submit_entry demo_entry_env ''NIFTY'' demo_entry_signal (Some AT_EQUITY) 25 demo_auto_service"
proof -
  let ?s = demo_auto_service and ?a = "Some AT_EQUITY"
  have sf: "check_intraday_pnl_and_halt ''enter_trade'' new_safety = (False, new_safety)"
    by (simp add: check_intraday_pnl_and_halt_def new_safety_def)
  have "persist_signal demo_entry_env default_pos_config demo_entry_signal = Inr demo_entry_signal"
    by (simp add: persist_signal_def is_qualified_signal_def demo_entry_signal_def jget_def str_or_empty_def Let_def sig_id_def str_strip_def
        is_space_def default_pos_config_def)
  moreover have g: "run_gates (entry_gates demo_entry_env ''NIFTY'' demo_entry_signal ?a) ?s = (Inr None, ?s)"
    by (simp add: entry_gates_def gate_intraday_def gate_news_def gate_warmup_def gate_cooldown_def gate_expiry_def gate_expiry_trades_def
        gate_auction_def gate_recon_def gate_time_of_day_def gate_risk_def gate_stale_def index_options_def fail_open_def x_bind_def x_ret_def
        x_try_def x_lift_def sf default_pos_config_def Let_def sig_signal_ts_def demo_entry_signal_def)
  moreover have "entry_quantity demo_entry_env ''NIFTY'' demo_entry_signal ?a ?s = (Inr 25, ?s)"
    by (simp add: entry_quantity_def get_position_size_def adjust_def size_warmup_def size_equity_def size_session_def size_vix_def warn_vix_def
        size_loss_cap_def x_try_def x_ret_def x_bind_def x_lift_def default_pos_config_def)
  moreover have "gate_portfolio_risk p q ?s = (Inr None, ?s)" for p q by (simp add: gate_portfolio_risk_def x_ret_def)
  moreover have "choose_strike demo_entry_env ''NIFTY'' demo_entry_signal ?a ?s = (Inr (Inr demo_entry_signal), ?s)"
    by (simp add: choose_strike_def default_pos_config_def x_ret_def)
  moreover have "\<not> is_hard_halted new_safety" "check_kill_file_and_halt False new_safety = new_safety" "\<not> is_manual ?s"
    by (simp_all add: is_hard_halted_def new_safety_def check_kill_file_and_halt_def is_manual_def upper_char_def)
  moreover have i: "?s\<lparr>ps_safety := new_safety\<rparr> = ?s" by (simp add: demo_auto_service_def demo_pos_service_def)
  ultimately show ?thesis
    by (simp add: enter_trade_start Let_def i) (simp add: x_bind_def x_lift_def automatic_entry_def)
qed

theorem placed_entry_cleared_witness:
  "placed (snd (enter_trade demo_entry_env ''NIFTY'' demo_entry_signal (Some AT_EQUITY) demo_auto_service)) \<noteq> placed demo_auto_service \<and>
     entry_cleared demo_entry_env ''NIFTY'' demo_entry_signal (Some AT_EQUITY) demo_auto_service"
proof -
  let ?s = demo_auto_service
  have f: "entry_fills demo_entry_env ''NIFTY'' demo_entry_signal 25 demo_service ?s demo_filled"
    by (rule demo_entry_fills) (simp_all add: demo_entry_signal_def sig_id_def str_or_empty_def jget_def str_strip_def is_space_def)
  have "\<exists>x'. es_placed x' \<noteq> es_placed demo_service \<and>
    ps_exec (snd (submit_entry demo_entry_env ''NIFTY'' demo_entry_signal (Some AT_EQUITY) 25 ?s)) = Some x'"
    using submit_filled [OF _ f] by (auto simp: submit_entry_def Let_def finish_entry_exec)
  then have "placed (snd (enter_trade demo_entry_env ''NIFTY'' demo_entry_signal (Some AT_EQUITY) ?s)) \<noteq> placed ?s"
    by (auto simp: demo_entry_runs placed_def)
  with placed_entry_cleared show ?thesis by blast
qed

text \<open>
  C15: In the paper mode an entry never reaches the broker, but an exit does: \<open>exit_position\<close> calls the
  execution service without a context, whose default mode is automatic. A position opened on paper is
  closed by a real order of the opposite direction for its whole quantity.
\<close>

theorem paper_exit_goes_live:
  assumes "str_upper (ps_mode s) = ''PAPER''" "map_of (ps_positions s) nm = Some p" "ps_exec s = Some x" "exit_fills xenv nm p reason x s rq r"
    and "xo_average_price r \<noteq> 0" "xo_average_price r \<noteq> po_entry_price p" "plain_booking (ps_cfg s)"
  shows "placed (snd (enter_trade env name sig asset s)) = placed s \<and>
    (\<exists>s' x'. exit_position xenv nm reason s = (Inr (), s') \<and> ps_exec s' = Some x' \<and>
       es_placed x' = es_placed x @ [(exit_key nm p reason, rq)] \<and> xr_direction rq = exit_direction p \<and> xr_lot_size rq = po_qty p)"
proof -
  have "ps_mode s \<noteq> []" using assms(1) by auto
  then have "entry_mode (ps_mode s) = EM_PAPER" using assms(1) by (simp add: entry_mode_def Let_def)
  then have "placed (snd (enter_trade env name sig asset s)) = placed s" using enter_trade_placed by blast
  moreover have "xr_direction rq = exit_direction p" "xr_lot_size rq = po_qty p"
    using assms(4) by (auto simp: exit_fills_def Let_def exit_request_def)
  ultimately show ?thesis using exit_filled [OF assms(2-7)] by (auto simp: after_exit_def Let_def)
qed

theorem paper_exit_goes_live_witness:
  "placed (snd (enter_trade demo_entry_env ''BANKNIFTY'' demo_entry_signal None demo_pos_service)) = placed demo_pos_service \<and>
   (\<exists>s' x'. exit_position demo_pos_env ''NIFTY'' ''SL_HIT'' demo_pos_service = (Inr (), s') \<and> ps_exec s' = Some x' \<and> length (es_placed x') = 1)"
  using paper_exit_goes_live [OF _ _ _ demo_exit_fills, of demo_position demo_entry_env "''BANKNIFTY''" demo_entry_signal None "''SL_HIT''"]
  by (fastforce simp: upper_char_def)

end
