(* ===== verification/Mandate.thy ===== *)
theory Mandate
  imports Risk_Service Market_Clock
begin

text \<open>
  The trading mandate: the older enforcer of \<open>core/mandate_enforcer.py\<close>, the mandate service of
  \<open>core/mandate_service.py\<close>, which asks the risk service and falls back to the enforcer, and the
  validation of parameters of \<open>core/mandate_validator.py\<close>.

  The state of the mandate service holds the risk service, the warm-up manager, the enforcer and the
  process-wide safety state. A holiday is a date. \<open>fs\<close> is the printing of a float by \<open>str\<close>.
\<close>

section \<open>Definitions\<close>

subsection \<open>The enforcer\<close>

record enforcer =
  me_max_drawdown :: real
  me_capital :: real
  me_peak :: real
  me_daily_pnl :: real
  me_weekly_pnl :: real
  me_last_trade :: "real option"
  me_trades :: int
  me_vix :: real
  me_stale :: int
  me_halted :: bool

type_synonym enforcer_state = "enforcer \<times> safety"

definition new_enforcer :: "real \<Rightarrow> real \<Rightarrow> enforcer" where
  "new_enforcer max_dd base =
     \<lparr>me_max_drawdown = max_dd, me_capital = base, me_peak = base, me_daily_pnl = 0, me_weekly_pnl = 0, me_last_trade = None,
      me_trades = 0, me_vix = 20, me_stale = 0, me_halted = False\<rparr>"

definition update_market :: "real \<Rightarrow> int \<Rightarrow> enforcer \<Rightarrow> enforcer" where
  "update_market vix age m = m\<lparr>me_vix := vix, me_stale := age\<rparr>"

definition me_update_capital :: "real \<Rightarrow> real \<Rightarrow> real \<Rightarrow> enforcer \<Rightarrow> enforcer" where
  "me_update_capital capital daily weekly m =
     m\<lparr>me_capital := capital, me_daily_pnl := daily, me_weekly_pnl := weekly, me_peak := max (me_peak m) capital\<rparr>"

definition trigger_hard_halt :: "string \<Rightarrow> enforcer_state \<Rightarrow> enforcer_state" where
  "trigger_hard_halt reason st = ((fst st)\<lparr>me_halted := True\<rparr>, trip_hard_halt reason ''ProductionMandateEnforcer'' (snd st))"

definition me_record_trade :: "real \<Rightarrow> real \<Rightarrow> enforcer_state \<Rightarrow> enforcer_state" where
  "me_record_trade now pnl st =
     (case record_trade_outcome (pnl \<ge> 0) (snd st) of
        (n, sf) \<Rightarrow>
          let st' = ((fst st)\<lparr>me_last_trade := Some now, me_trades := me_trades (fst st) + 1\<rparr>, sf)
          in if n \<ge> 3 then trigger_hard_halt (show_int n @ '' consecutive losses'') st' else st')"

definition me_reset_daily :: "enforcer \<Rightarrow> enforcer" where
  "me_reset_daily m = m\<lparr>me_trades := 0\<rparr>"

definition div_or_raise :: "real \<Rightarrow> real \<Rightarrow> exn + real" where
  "div_or_raise a b = (if b = 0 then Inl (Exn ZeroDivisionError ''float division by zero'') else Inr (a / b))"

definition fmt_0pct :: "real \<Rightarrow> string" where
  "fmt_0pct x = fmt_0f (x * 100) @ ''%''"

definition can_trade :: "(real \<Rightarrow> string) \<Rightarrow> real \<Rightarrow> enforcer_state \<Rightarrow> (exn + bool \<times> string) \<times> enforcer_state" where
  "can_trade fs now st =
     (let m = fst st; dd = me_max_drawdown m
      in if me_halted m then (Inr (False, ''HARD_HALT: System halted''), st)
         else case div_or_raise (me_peak m - me_capital m) (me_peak m) of
             Inl e \<Rightarrow> (Inl e, st)
           | Inr drawdown \<Rightarrow>
               if drawdown \<ge> dd
               then (Inr (False, ''MAX_DRAWDOWN: '' @ fmt_0pct dd @ '' protection triggered''), trigger_hard_halt (''Max drawdown '' @ fmt_0pct dd @ '' reached'') st)
               else case div_or_raise (- me_daily_pnl m) (me_capital m) of
                   Inl e \<Rightarrow> (Inl e, st)
                 | Inr daily \<Rightarrow>
                     if daily \<ge> 25 / 1000 then (Inr (False, ''DAILY_STOP: 2.5% hit ('' @ fmt_pct 1 daily @ '')''), st)
                     else if - me_weekly_pnl m / me_capital m \<ge> 5 / 100
                     then (Inr (False, ''WEEKLY_CIRCUIT: 5% hit - trading halted''), trigger_hard_halt ''Weekly circuit breaker 5% hit'' st)
                     else if sf_losses (snd st) \<ge> 3 \<and> (case me_last_trade m of Some t \<Rightarrow> now < t + 7200 | None \<Rightarrow> False)
                     then (Inr (False, ''LOSS_STREAK_COOLDOWN: 2 hours''), st)
                     else if me_vix m \<ge> 30 then (Inr (False, ''VIX_HARD_BLOCK: '' @ fs (me_vix m) @ '' >= 30''), st)
                     else if me_stale m \<ge> 30 then (Inr (False, ''DATA_STALE: '' @ show_int (me_stale m) @ ''s''), st)
                     else (Inr (True, ''MANDATE_CHECK_PASSED''), st))"

definition regime_in :: "string list \<Rightarrow> string \<Rightarrow> bool" where
  "regime_in rs r \<longleftrightarrow> str_upper r \<in> set rs"

definition me_position_size :: "real \<Rightarrow> string \<Rightarrow> real \<Rightarrow> enforcer \<Rightarrow> int" where
  "me_position_size entry regime sl_pct m =
     (if me_capital m \<le> 0 then 0
      else
        let mult = (if regime_in [''TRENDING'', ''BULLISH''] regime then 12 / 10
                    else if regime_in [''SIDEWAYS'', ''NEUTRAL''] regime then 85 / 100
                    else if regime_in [''RANGE'', ''CHOPPY''] regime then 75 / 100 else 5 / 10);
            risk_amount = me_capital m * (15 / 1000 * mult); risk_per_lot = entry * sl_pct
        in if risk_per_lot > 0 then max 1 (min (py_trunc (risk_amount / risk_per_lot)) 25) else 1)"

definition me_max_daily_loss :: "enforcer \<Rightarrow> real" where
  "me_max_daily_loss m = - me_capital m * (25 / 1000)"

definition me_max_trades_today :: "enforcer_state \<Rightarrow> int" where
  "me_max_trades_today st =
     (if me_vix (fst st) > 28 \<or> sf_losses (snd st) \<ge> 2 then 1 else if me_vix (fst st) > 20 then 2 else 4)"

text \<open>The keys of \<open>get_status\<close> that are read: the number of trades, and the maximum, which it does not hold.\<close>

record mandate_status =
  mt_trades :: int
  mt_max_trades :: "int option"

definition me_get_status :: "enforcer \<Rightarrow> exn + mandate_status" where
  "me_get_status m =
     res_bind (div_or_raise (me_peak m - me_capital m) (me_peak m)) (\<lambda>_. Inr \<lparr>mt_trades = me_trades m, mt_max_trades = None\<rparr>)"

subsection \<open>The mandate service\<close>

record mandate =
  ms_sl_pct :: real
  ms_risk :: "risk_service option"
  ms_warmup :: "warmup option"
  ms_enforcer :: "enforcer option"
  ms_holidays :: "int list"
  ms_safety :: safety

definition market_status :: "real \<Rightarrow> int list \<Rightarrow> string" where
  "market_status ist holidays =
     (if weekday ist \<ge> 5 then ''CLOSED''
      else if date_of ist \<in> set holidays then ''HOLIDAY''
      else let mins = \<lfloor>time_of ist / 60\<rfloor> in if 555 \<le> mins \<and> mins \<le> 920 then ''OPEN'' else ''CLOSED'')"

definition mandate_catches :: "exn_class list" where
  "mandate_catches = [ValueError, TypeError, KeyError, AttributeError, OtherExn ''IndexError'', OSError]"

definition fallback_catches :: "exn_class list" where
  "fallback_catches = [ValueError, TypeError, AttributeError, OtherExn ''IndexError'', OSError]"

definition with_ms_risk :: "(risk_state \<Rightarrow> (exn + 'a) \<times> risk_state) \<Rightarrow> risk_service \<Rightarrow> mandate \<Rightarrow> (exn + 'a) \<times> mandate" where
  "with_ms_risk f r s = (case f (r, ms_safety s) of (v, r', sf) \<Rightarrow> (v, s\<lparr>ms_risk := Some r', ms_safety := sf\<rparr>))"

definition with_enforcer :: "(enforcer_state \<Rightarrow> (exn + 'a) \<times> enforcer_state) \<Rightarrow> enforcer \<Rightarrow> mandate \<Rightarrow> (exn + 'a) \<times> mandate" where
  "with_enforcer f m s = (case f (m, ms_safety s) of (v, m', sf) \<Rightarrow> (v, s\<lparr>ms_enforcer := Some m', ms_safety := sf\<rparr>))"

definition risk_sizing :: "risk_env \<Rightarrow> string \<Rightarrow> real \<Rightarrow> real \<Rightarrow> risk_service \<Rightarrow> mandate \<Rightarrow> (exn + int) \<times> mandate" where
  "risk_sizing env name entry sl_pct r =
     x_bind (with_ms_risk (get_portfolio_risk_metrics env) r) (\<lambda>pm.
       x_lift (res_bind (get_lot_size r name) (\<lambda>lot. res_bind (get_live_vix env) (\<lambda>vix.
         calculate_position_size env (rs_config r)
           \<lparr>si_symbol = name, si_entry_price = entry, si_stop_loss_price = entry * sl_pct, si_capital_available = pm_available_capital pm,
            si_risk_per_trade = rk_default_risk (rs_config r), si_lot_size = lot, si_volatility = vix, si_existing_exposure = 0\<rparr>))))"

definition ms_position_size :: "risk_env \<Rightarrow> string \<Rightarrow> real \<Rightarrow> mandate \<Rightarrow> (exn + int) \<times> mandate" where
  "ms_position_size env name entry s =
     (let fallback = (\<lambda>s. x_ret (case ms_enforcer s of None \<Rightarrow> 1 | Some m \<Rightarrow> me_position_size entry ''SIDEWAYS'' (1 - ms_sl_pct s) m) s)
      in case ms_risk s of
          None \<Rightarrow> fallback s
        | Some r \<Rightarrow> x_try (risk_sizing env name entry (ms_sl_pct s) r) mandate_catches (\<lambda>e. fallback) s)"

text \<open>The threshold raised by the warm-up manager.\<close>

definition raised_min_score :: "real \<Rightarrow> int \<Rightarrow> mandate \<Rightarrow> (exn + int) \<times> mandate" where
  "raised_min_score ist base s =
     (case ms_warmup s of
        None \<Rightarrow> x_ret base s
      | Some w \<Rightarrow> (case score_threshold_adjustment ist w of (d, w') \<Rightarrow> x_ret (base + d) (s\<lparr>ms_warmup := Some w'\<rparr>)))"

definition hard_stops_body :: "risk_env \<Rightarrow> risk_service \<Rightarrow> mandate \<Rightarrow> (exn + bool \<times> string) \<times> mandate" where
  "hard_stops_body env r =
     x_bind (with_ms_risk (get_portfolio_risk_metrics env) r) (\<lambda>pm.
       if pm_daily_pnl pm \<le> pm_max_daily_loss pm
       then x_ret (False, ''Daily loss limit: '' @ fmt_f 2 (pm_daily_pnl pm) @ '' <= '' @ fmt_f 2 (pm_max_daily_loss pm))
       else if pm_consecutive_losses pm \<ge> pm_max_consecutive_losses pm
       then x_ret (False, ''Consecutive losses: '' @ show_int (pm_consecutive_losses pm) @ '' >= '' @ show_int (pm_max_consecutive_losses pm))
       else x_bind (x_lift (get_live_vix env)) (\<lambda>v.
              x_ret (if v > 35 then (False, ''VIX too high: '' @ fmt_f 1 v @ '' > 35'') else (True, ''OK''))))"

definition check_hard_stops_via_risk :: "risk_env \<Rightarrow> mandate \<Rightarrow> (exn + bool \<times> string) \<times> mandate" where
  "check_hard_stops_via_risk env s =
     (case ms_risk s of
        None \<Rightarrow> x_ret (True, ''OK'') s
      | Some r \<Rightarrow> x_try (hard_stops_body env r) mandate_catches (\<lambda>e. x_ret (True, ''OK'')) s)"

definition mandate_block :: "string \<Rightarrow> bool \<times> string" where
  "mandate_block msg = (False, ''MANDATE_BLOCK: '' @ msg)"

definition score_block :: "int \<Rightarrow> int \<Rightarrow> string \<Rightarrow> bool \<times> string" where
  "score_block score min_score regime = mandate_block (''Score '' @ show_int score @ '' < '' @ show_int min_score @ '' for '' @ regime)"

definition false_signal_block :: "(real \<Rightarrow> string) \<Rightarrow> int \<Rightarrow> real \<Rightarrow> bool \<times> string" where
  "false_signal_block fs score iv = mandate_block (''False signal (score='' @ show_int score @ '', iv='' @ fs iv @ '')'')"

text \<open>The check through the risk service: the trades of today are the open positions.\<close>

definition risk_mandate :: "risk_env \<Rightarrow> string \<Rightarrow> int \<Rightarrow> real \<Rightarrow> risk_service \<Rightarrow> mandate \<Rightarrow> (exn + bool \<times> string) \<times> mandate" where
  "risk_mandate env regime score iv r =
     (let now = rv_time env
      in if \<not> is_in_trading_window now then x_ret (mandate_block ''Outside trading window'')
         else if should_skip_first_20_min now then x_ret (mandate_block ''First 20 minutes'')
         else if should_skip_last_45_min now then x_ret (mandate_block ''Last 45 minutes'')
         else x_bind (raised_min_score (now_ist now) (get_min_score_for_regime (Some regime))) (\<lambda>min_score.
           if score < min_score then x_ret (score_block score min_score regime)
           else if should_block_false_signal score iv then x_ret (false_signal_block (rv_repr env) score iv)
           else x_bind (with_ms_risk (get_portfolio_risk_metrics env) r) (\<lambda>pm.
             x_bind (x_lift (res_bind (get_live_vix env) (\<lambda>v. get_max_trades_per_day env (Some v) (pm_consecutive_losses pm)))) (\<lambda>cap.
               if pm_open_positions pm \<ge> cap
               then x_ret (mandate_block (''Max trades today ('' @ show_int (pm_open_positions pm) @ '' >= '' @ show_int cap @ '')''))
               else x_bind (check_hard_stops_via_risk env) (\<lambda>(ok, why).
                      x_ret (if ok then (True, ''MANDATE_ALLOWED'') else mandate_block why))))))"

definition enforcer_mandate :: "risk_env \<Rightarrow> string \<Rightarrow> int \<Rightarrow> real \<Rightarrow> enforcer \<Rightarrow> mandate \<Rightarrow> (exn + bool \<times> string) \<times> mandate" where
  "enforcer_mandate env regime score iv m =
     (let now = rv_time env
      in x_bind (with_enforcer (can_trade (rv_repr env) now) m) (\<lambda>(ok, why).
           if \<not> ok then x_ret (mandate_block why)
           else if \<not> is_in_trading_window now then x_ret (mandate_block ''Outside trading window'')
           else if should_skip_first_20_min now then x_ret (mandate_block ''First 20 minutes'')
           else if should_skip_last_45_min now then x_ret (mandate_block ''Last 45 minutes'')
           else x_bind (raised_min_score (now_ist now) (get_min_score_for_regime (Some regime))) (\<lambda>min_score.
             if score < min_score then x_ret (score_block score min_score regime)
             else if should_block_false_signal score iv then x_ret (false_signal_block (rv_repr env) score iv)
             else x_bind (x_lift (me_get_status m)) (\<lambda>t.
               x_ret (if mt_trades t \<ge> (case mt_max_trades t of Some n \<Rightarrow> n | None \<Rightarrow> 99)
                      then mandate_block ''Max trades today reached'' else (True, ''MANDATE_ALLOWED''))))))"

definition check_mandate_trade_allowed :: "risk_env \<Rightarrow> string \<Rightarrow> int \<Rightarrow> real \<Rightarrow> mandate \<Rightarrow> (exn + bool \<times> string) \<times> mandate" where
  "check_mandate_trade_allowed env regime score iv s =
     (let allow = x_ret (True, ''MANDATE_ALLOWED (no enforcer)'');
          fallback = (\<lambda>s. case ms_enforcer s of
              None \<Rightarrow> allow s
            | Some m \<Rightarrow> x_try (enforcer_mandate env regime score iv m) fallback_catches (\<lambda>e. allow) s)
      in case ms_risk s of
          None \<Rightarrow> fallback s
        | Some r \<Rightarrow> x_try (risk_mandate env regime score iv r) mandate_catches (\<lambda>e. fallback) s)"

text \<open>What \<open>get_mandate_status\<close> returns: from the risk service, from the enforcer, or the defaults.\<close>

datatype status_report = SR_Risk int int bool | SR_Enforcer mandate_status | SR_Default

definition get_mandate_status :: "risk_env \<Rightarrow> mandate \<Rightarrow> (exn + status_report) \<times> mandate" where
  "get_mandate_status env s =
     (let fallback = (\<lambda>s. case ms_enforcer s of
              None \<Rightarrow> x_ret SR_Default s
            | Some m \<Rightarrow> x_try (x_lift (res_bind (me_get_status m) (\<lambda>t. Inr (SR_Enforcer t)))) fallback_catches (\<lambda>e. x_ret SR_Default) s)
      in case ms_risk s of
          None \<Rightarrow> fallback s
        | Some r \<Rightarrow>
            x_try (x_bind (with_ms_risk (get_portfolio_risk_metrics env) r) (\<lambda>pm.
                x_lift (res_bind (get_live_vix env) (\<lambda>v. res_bind (get_max_trades_per_day env (Some v) (pm_consecutive_losses pm)) (\<lambda>n.
                  Inr (SR_Risk (pm_open_positions pm) n (pm_open_positions pm < rk_max_open_positions (rs_config r))))))))
              mandate_catches (\<lambda>e. fallback) s)"

text \<open>\<open>float(sd.get(k, d) or d)\<close>, a finite number.\<close>

definition num_or :: "jdict \<Rightarrow> string \<Rightarrow> real \<Rightarrow> exn + real" where
  "num_or sd k d =
     (let v = jget sd k JNull
      in if jval_true v then res_bind (py_float v) (\<lambda>f. Inr (case f of Fin x \<Rightarrow> x | _ \<Rightarrow> d)) else Inr d)"

definition wait_details :: "jdict \<Rightarrow> exn + string list" where
  "wait_details sd =
     res_bind (num_or sd ''adx'' 999) (\<lambda>adx. res_bind (num_or sd ''rr'' 999) (\<lambda>rr. res_bind (num_or sd ''vix'' 0) (\<lambda>vix.
     res_bind (num_or sd ''mins_to_eod'' 999) (\<lambda>eod. res_bind (num_or sd ''cooldown_s'' 0) (\<lambda>cd.
       Inr ((if str_upper (py_str (jget sd ''regime'' (JStr []))) = ''CHOPPY'' \<or> adx < 14 then [''ADX''] else []) @
            (if rr < 3 / 2 then [''RR''] else []) @ (if vix > 27 then [''VIX''] else []) @
            (if eod < 40 then [''EOD''] else []) @ (if cd > 0 then [''Cooldown''] else [])))))))"

text \<open>Score and threshold are numbers where they are present.\<close>

definition get_wait_reason_components :: "jdict option \<Rightarrow> exn + string \<times> string list" where
  "get_wait_reason_components d =
     (case d of
        None \<Rightarrow> Inr (''WAIT'', [])
      | Some sd \<Rightarrow>
          let status = str_upper (py_str (jget sd ''market_status'' (JStr [])));
              market = (if status \<noteq> [] \<and> status \<noteq> ''OPEN'' then [''Market''] else []);
              score = jget sd ''score'' JNull; threshold = jget sd ''threshold'' JNull
          in res_bind (if score = JNull \<or> threshold = JNull then Inr [''Score'']
                       else if safe_num score 0 < safe_num threshold 0 then res_bind (wait_details sd) (\<lambda>ds. Inr (''Score'' # ds))
                       else Inr []) (\<lambda>rest.
               let reasons = market @ rest
               in Inr (if reasons = [] then (''PASS'', [])
                       else (''WAIT: '' @ hd reasons @ (case tl reasons of [] \<Rightarrow> [] | b # _ \<Rightarrow> '', '' @ b), reasons))))"

subsection \<open>Validation of parameters\<close>

record validation_config =
  vc_min_observations :: int
  vc_degradation_max :: real
  vc_min_regimes :: int
  vc_min_win_rate :: real
  vc_negative_weeks :: int

definition default_validation :: validation_config where
  "default_validation = \<lparr>vc_min_observations = 80, vc_degradation_max = 2 / 10, vc_min_regimes = 2, vc_min_win_rate = 48 / 100,
     vc_negative_weeks = 3\<rparr>"

text \<open>An observation is its profit or loss, \<open>o.get("pnl", 0)\<close>; a period is its net result.\<close>

definition check_walkforward :: "validation_config \<Rightarrow> real \<Rightarrow> real \<Rightarrow> bool" where
  "check_walkforward c a b = (if a \<le> 0 then True else (a - b) / a \<le> vc_degradation_max c)"

definition is_positive :: "real list \<Rightarrow> bool" where
  "is_positive xs \<longleftrightarrow> xs \<noteq> [] \<and> sum_list xs > 0"

definition pnl_win_rate :: "real list \<Rightarrow> real" where
  "pnl_win_rate xs = (if xs = [] then 0 else real (length (filter (\<lambda>x. x > 0) xs)) / real (length xs))"

definition validate_parameter ::
    "validation_config \<Rightarrow> real list \<Rightarrow> real option \<Rightarrow> real option \<Rightarrow> (string, real list) dict \<Rightarrow> string \<times> string" where
  "validate_parameter c obs a b regimes =
     (let n = int (length obs); pos = int (length (filter is_positive (map snd regimes))); wr = pnl_win_rate obs
      in if n < vc_min_observations c
         then (''INSUFFICIENT_DATA'', ''Only '' @ show_int n @ '' observations, need '' @ show_int (vc_min_observations c) @ '' minimum'')
         else if (case (a, b) of (Some x, Some y) \<Rightarrow> \<not> check_walkforward c x y | _ \<Rightarrow> False)
         then (''FAILED'', ''Walk-forward test failed: degraded >20%'')
         else if regimes \<noteq> [] \<and> pos < vc_min_regimes c then (''FAILED'', ''Only '' @ show_int pos @ ''/3 regimes positive'')
         else if wr < vc_min_win_rate c
         then (''FAILED'', ''Win rate '' @ fmt_pct 1 wr @ '' below minimum '' @ fmt_pct 1 (vc_min_win_rate c))
         else (''PASSED'', ''All validation gates passed''))"

definition check_system_health :: "validation_config \<Rightarrow> real list \<Rightarrow> real list \<Rightarrow> bool \<times> string" where
  "check_system_health c trades weeks =
     (let wr = pnl_win_rate (drop (length trades - 50) trades); neg = int (length (filter (\<lambda>x. x < 0) weeks))
      in if length trades \<ge> 50 \<and> wr < vc_min_win_rate c then (False, ''Win rate '' @ fmt_pct 1 wr @ '' below threshold'')
         else if neg \<ge> vc_negative_weeks c then (False, show_int neg @ '' consecutive negative weeks'')
         else (True, ''System health OK''))"

section \<open>Lemmas\<close>

text \<open>The older sizing is between one and 25 lots where there is capital.\<close>

lemma me_size_bounds: "me_capital m > 0 \<Longrightarrow> 1 \<le> me_position_size e r p m \<and> me_position_size e r p m \<le> 25"
  by (simp add: me_position_size_def Let_def)

text \<open>Three losing trades in a row trip the process-wide kill switch.\<close>

lemma third_loss_halts: "sf_losses (snd st) \<ge> 2 \<Longrightarrow> pnl < 0 \<Longrightarrow> is_hard_halted (snd (me_record_trade now pnl st)) \<and> me_halted (fst (me_record_trade now pnl st))"
  by (simp add: me_record_trade_def record_trade_outcome_def Let_def trigger_hard_halt_def trip_hard_halt_def is_hard_halted_def)

text \<open>Without capital the enforcer's check raises, and nothing between it and the caller catches that.\<close>

lemma no_capital_raises:
  assumes "ms_risk s = None" "ms_enforcer s = Some m" "\<not> me_halted m" "me_capital m = 0" "me_max_drawdown m > 1" "me_peak m > 0"
  shows "\<exists>e. check_mandate_trade_allowed env regime score iv s = (Inl e, s) \<and> exn_cls e = ZeroDivisionError"
proof -
  have "s\<lparr>ms_enforcer := Some m, ms_safety := ms_safety s\<rparr> = s" using assms(2) by simp
  then show ?thesis
    using assms
    by (simp add: check_mandate_trade_allowed_def Let_def x_try_def enforcer_mandate_def x_bind_def with_enforcer_def can_trade_def
        div_or_raise_def fallback_catches_def caught_def exn_isa_def)
qed

text \<open>What a pass of the policy gates means.\<close>

definition policy_window :: "real \<Rightarrow> bool" where
  "policy_window now \<longleftrightarrow> (let m = ist_minute now in (580 \<le> m \<and> m \<le> 690) \<or> (780 \<le> m \<and> m \<le> 875))"

lemma policy_windowI:
  "is_in_trading_window now \<Longrightarrow> \<not> should_skip_first_20_min now \<Longrightarrow> \<not> should_skip_last_45_min now \<Longrightarrow> policy_window now"
  by (auto simp: policy_window_def is_in_trading_window_def should_skip_first_20_min_def should_skip_last_45_min_def Let_def)

definition boost_ok :: "mandate \<Rightarrow> bool" where
  "boost_ok s \<longleftrightarrow> (\<forall>w. ms_warmup s = Some w \<longrightarrow> 0 \<le> wu_score_boost w)"

lemma warmup_boost: "is_warmup_active now w = (a, w') \<Longrightarrow> wu_score_boost w' = wu_score_boost w"
  by (auto simp: is_warmup_active_def maybe_reset_day_def Let_def split: if_splits option.splits)

lemma raised_min_score_ge: "raised_min_score ist n s = (Inr m, s') \<Longrightarrow> boost_ok s \<Longrightarrow> n \<le> m"
  by (auto simp: raised_min_score_def score_threshold_adjustment_def boost_ok_def x_ret_def split: option.splits prod.splits if_splits
      dest!: warmup_boost)

lemma mandate_block_False [simp]: "mandate_block msg = (True, m) \<longleftrightarrow> False" "score_block a b c = (True, m) \<longleftrightarrow> False"
  "false_signal_block f a b' = (True, m) \<longleftrightarrow> False"
  by (simp_all add: mandate_block_def score_block_def false_signal_block_def)

lemma risk_mandate_passed:
  assumes "risk_mandate env regime score iv r s = (Inr (True, msg), s')" "boost_ok s"
  shows "policy_window (rv_time env) \<and> get_min_score_for_regime (Some regime) \<le> score \<and> \<not> should_block_false_signal score iv"
  using assms raised_min_score_ge [of "now_ist (rv_time env)" "get_min_score_for_regime (Some regime)" s]
  by (fastforce simp: risk_mandate_def Let_def bind_Inr x_ret_def intro: policy_windowI split: if_splits)

lemma with_enforcer_boost: "with_enforcer f m s = (v, s') \<Longrightarrow> boost_ok s' = boost_ok s"
  by (auto simp: with_enforcer_def boost_ok_def split: prod.splits)

lemma enforcer_mandate_passed:
  assumes "enforcer_mandate env regime score iv m s = (Inr (True, msg), s')" "boost_ok s"
  shows "policy_window (rv_time env) \<and> get_min_score_for_regime (Some regime) \<le> score \<and> \<not> should_block_false_signal score iv"
proof -
  obtain ok why t where t: "with_enforcer (can_trade (rv_repr env) (rv_time env)) m s = (Inr (ok, why), t)"
    using assms(1) by (auto simp: enforcer_mandate_def Let_def bind_Inr)
  have "boost_ok t" using with_enforcer_boost [OF t] assms(2) by simp
  with assms(1) t raised_min_score_ge [of "now_ist (rv_time env)" "get_min_score_for_regime (Some regime)" t] show ?thesis
    by (fastforce simp: enforcer_mandate_def Let_def bind_Inr x_ret_def intro: policy_windowI split: if_splits)
qed

lemma raised_min_score_returns: "\<exists>m u. raised_min_score ist n s = (Inr m, u)"
  by (auto simp: raised_min_score_def x_ret_def split: option.split prod.split)

text \<open>The checks through the risk service can only raise once the policy gates are passed.\<close>

lemma risk_mandate_raised:
  assumes "risk_mandate env regime score iv r s = (Inl e, t)" "boost_ok s"
  shows "policy_window (rv_time env) \<and> get_min_score_for_regime (Some regime) \<le> score \<and> \<not> should_block_false_signal score iv"
proof -
  obtain m u where m: "raised_min_score (now_ist (rv_time env)) (get_min_score_for_regime (Some regime)) s = (Inr m, u)"
    using raised_min_score_returns by blast
  have "get_min_score_for_regime (Some regime) \<le> m" using raised_min_score_ge [OF m assms(2)] .
  with assms(1) show ?thesis
    by (auto simp: risk_mandate_def Let_def bind_step [where m = "raised_min_score _ _"] m x_ret_def intro: policy_windowI split: if_splits)
qed

text \<open>The enforcer raises nothing but divisions by zero, which no handler around it names.\<close>

lemma enforcer_mandate_raises: "enforcer_mandate env regime score iv m s = (Inl e, t) \<Longrightarrow> exn_cls e = ZeroDivisionError"
proof -
  assume e: "enforcer_mandate env regime score iv m s = (Inl e, t)"
  have st: "me_get_status m = Inl e' \<Longrightarrow> exn_cls e' = ZeroDivisionError" for e'
    by (auto simp: me_get_status_def div_or_raise_def split: if_splits)
  obtain v u where v: "with_enforcer (can_trade (rv_repr env) (rv_time env)) m s = (v, u)" by fastforce
  show ?thesis
  proof (cases v)
    case (Inl e')
    have "can_trade fs now x = (Inl e', y) \<Longrightarrow> exn_cls e' = ZeroDivisionError" for fs now x y
      by (auto simp: can_trade_def div_or_raise_def Let_def split: if_splits)
    then have "exn_cls e' = ZeroDivisionError" using v Inl by (auto simp: with_enforcer_def split: prod.splits)
    with e v Inl show ?thesis by (simp add: enforcer_mandate_def Let_def x_bind_def)
  next
    case (Inr a)
    obtain b w where "raised_min_score (now_ist (rv_time env)) (get_min_score_for_regime (Some regime)) u = (Inr b, w)" using raised_min_score_returns by blast
    with e v Inr st show ?thesis
      by (cases "me_get_status m") (auto simp: enforcer_mandate_def Let_def bind_step [where m = "with_enforcer _ _"] bind_step x_ret_def x_lift_def x_bind_def split: if_splits prod.splits)
  qed
qed

section \<open>Properties\<close>

text \<open>
  C26: Where a risk service or an enforcer is attached, every trade that the mandate admits lies in the
  policy window (9:40 to 11:30 or 13:00 to 14:35, the trading windows less the first and the last minutes),
  reaches the score its regime demands and is no false signal; that holds also of the trades admitted with
  the message of the missing enforcer, after the checks have raised. As the false-signal filter refuses
  scores from 75 on when the IV rank exceeds 26, and choppy regimes demand 78, nothing is admitted in a
  choppy market with such an IV rank, whatever its score. The boost of the warm-up manager must not be
  negative (\<open>boost_ok\<close>); with neither service attached every trade is admitted, whatever its score.
\<close>

theorem mandate_admits_policy:
  assumes "check_mandate_trade_allowed env regime score iv s = (Inr (True, msg), s')" "boost_ok s"
    and "ms_risk s \<noteq> None \<or> ms_enforcer s \<noteq> None"
  shows "policy_window (rv_time env) \<and> get_min_score_for_regime (Some regime) \<le> score \<and> \<not> (75 \<le> score \<and> 26 < iv) \<and>
    (str_upper regime \<in> {''RANGE'', ''CHOPPY''} \<longrightarrow> iv \<le> 26)"
proof -
  have "policy_window (rv_time env) \<and> get_min_score_for_regime (Some regime) \<le> score \<and> \<not> should_block_false_signal score iv"
  proof (cases "ms_risk s")
    case None
    then obtain m where m: "ms_enforcer s = Some m" using assms(3) by blast
    obtain v t where t: "enforcer_mandate env regime score iv m s = (v, t)" by fastforce
    have "v = Inr (True, msg)"
    proof (cases v)
      case (Inl e)
      then have "\<not> caught fallback_catches e" using enforcer_mandate_raises [of env regime score iv m s e t] t
        by (auto simp: fallback_catches_def exn_simps)
      with None m t Inl assms(1) show ?thesis by (simp add: check_mandate_trade_allowed_def Let_def x_try_def)
    next
      case (Inr a)
      with None m t assms(1) show ?thesis by (simp add: check_mandate_trade_allowed_def Let_def x_try_def)
    qed
    with t show ?thesis using enforcer_mandate_passed assms(2) by blast
  next
    case (Some r)
    obtain v t where t: "risk_mandate env regime score iv r s = (v, t)" by fastforce
    show ?thesis
    proof (cases v)
      case (Inl e)
      then show ?thesis using risk_mandate_raised t assms(2) by blast
    next
      case (Inr a)
      then have "risk_mandate env regime score iv r s = (Inr (True, msg), s')"
        using assms(1) Some t by (simp add: check_mandate_trade_allowed_def Let_def x_try_def)
      then show ?thesis using risk_mandate_passed assms(2) by blast
    qed
  qed
  then show ?thesis by (auto simp: should_block_false_signal_def get_min_score_for_regime_def str_or_def Let_def split: if_splits)
qed

definition demo_mandate :: mandate where
  "demo_mandate = \<lparr>ms_sl_pct = 92 / 100, ms_risk = None, ms_warmup = None, ms_enforcer = Some (new_enforcer (12 / 100) 5000), ms_holidays = [],
     ms_safety = new_safety\<rparr>"

text \<open>10:00 IST.\<close>

definition demo_mandate_env :: risk_env where
  "demo_mandate_env = demo_risk_env\<lparr>rv_time := 16200\<rparr>"

lemma demo_mandate_time: "ist_minute 16200 = 600" "rv_time demo_mandate_env = 16200"
  by (simp_all add: ist_minute_def ist_midnight_def demo_mandate_env_def)

lemma demo_mandate_allows:
  "check_mandate_trade_allowed demo_mandate_env ''SIDEWAYS'' 74 25 demo_mandate = (Inr (True, ''MANDATE_ALLOWED''), demo_mandate)"
proof -
  have "get_min_score_for_regime (Some ''SIDEWAYS'') = 73" by (simp add: get_min_score_for_regime_def str_or_def Let_def upper_char_def)
  then show ?thesis
    by (simp add: check_mandate_trade_allowed_def Let_def demo_mandate_def enforcer_mandate_def with_enforcer_def can_trade_def div_or_raise_def
        new_enforcer_def x_bind_def x_try_def x_ret_def x_lift_def raised_min_score_def is_in_trading_window_def should_skip_first_20_min_def
        should_skip_last_45_min_def demo_mandate_time should_block_false_signal_def me_get_status_def res_bind_def new_safety_def)
qed

theorem mandate_admits_policy_witness:
  "check_mandate_trade_allowed demo_mandate_env ''SIDEWAYS'' 74 25 demo_mandate = (Inr (True, ''MANDATE_ALLOWED''), demo_mandate) \<and> policy_window 16200"
  using mandate_admits_policy [OF demo_mandate_allows] demo_mandate_allows
  by (simp add: boost_ok_def demo_mandate_def demo_mandate_time)

text \<open>The metrics read everything of the risk service but its log of entries.\<close>

lemma metrics_entries:
  "get_portfolio_risk_metrics env (r\<lparr>rs_entries := l\<rparr>, sf) =
     (case get_portfolio_risk_metrics env (r, sf) of (v, r', sf') \<Rightarrow> (v, r'\<lparr>rs_entries := l\<rparr>, sf'))"
  by (simp add: get_portfolio_risk_metrics_def x_try_def x_bind_def x_lift_def Let_def split: sum.split)

definition set_entries :: "real list \<Rightarrow> mandate \<Rightarrow> mandate" where
  "set_entries l s = s\<lparr>ms_risk := map_option (\<lambda>r. r\<lparr>rs_entries := l\<rparr>) (ms_risk s)\<rparr>"

text \<open>Two steps that give the same answer, the second with another log of entries.\<close>

definition upto_entries :: "real list \<Rightarrow> (mandate \<Rightarrow> (exn + 'a) \<times> mandate) \<Rightarrow> (mandate \<Rightarrow> (exn + 'a) \<times> mandate) \<Rightarrow> bool" where
  "upto_entries l m m' \<longleftrightarrow> (\<forall>s. m' (set_entries l s) = (case m s of (v, s') \<Rightarrow> (v, set_entries l s')))"

lemma upto_simple: "upto_entries l (x_ret a) (x_ret a)" "upto_entries l (x_lift v) (x_lift v)"
  by (simp_all add: upto_entries_def x_ret_def x_lift_def)

lemma upto_bind: "upto_entries l m m' \<Longrightarrow> (\<And>a. upto_entries l (f a) (f' a)) \<Longrightarrow> upto_entries l (x_bind m f) (x_bind m' f')"
  by (auto simp: upto_entries_def x_bind_def split: prod.split sum.split)

lemma upto_try: "upto_entries l m m' \<Longrightarrow> (\<And>e. upto_entries l (h e) (h' e)) \<Longrightarrow> upto_entries l (x_try m cs h) (x_try m' cs h')"
  by (auto simp: upto_entries_def x_try_def split: prod.split sum.split)

lemma upto_raised: "upto_entries l (raised_min_score ist n) (raised_min_score ist n)"
  by (auto simp: upto_entries_def raised_min_score_def set_entries_def x_ret_def split: option.split prod.split)

lemma upto_metrics:
  "upto_entries l (with_ms_risk (get_portfolio_risk_metrics env) r) (with_ms_risk (get_portfolio_risk_metrics env) (r\<lparr>rs_entries := l\<rparr>))"
  by (simp add: upto_entries_def with_ms_risk_def metrics_entries set_entries_def split: prod.split)

lemmas upto_intros = upto_simple upto_bind upto_try upto_raised upto_metrics

lemma upto_hard_stops: "upto_entries l (check_hard_stops_via_risk env) (check_hard_stops_via_risk env)"
proof -
  have b: "upto_entries l (x_try (hard_stops_body env r) mandate_catches (\<lambda>e. x_ret (True, ''OK'')))
      (x_try (hard_stops_body env (r\<lparr>rs_entries := l\<rparr>)) mandate_catches (\<lambda>e. x_ret (True, ''OK'')))" for r
    unfolding hard_stops_body_def by (intro upto_try upto_bind upto_metrics upto_simple) (auto intro!: upto_intros)
  show ?thesis
    unfolding upto_entries_def
  proof
    fix s
    show "check_hard_stops_via_risk env (set_entries l s) = (case check_hard_stops_via_risk env s of (v, s') \<Rightarrow> (v, set_entries l s'))"
    proof (cases "ms_risk s")
      case None
      then show ?thesis by (simp add: check_hard_stops_via_risk_def set_entries_def x_ret_def)
    next
      case (Some a)
      then show ?thesis using b [of a, unfolded upto_entries_def, rule_format, of s] by (simp add: check_hard_stops_via_risk_def set_entries_def)
    qed
  qed
qed

lemma upto_risk_mandate: "upto_entries l (risk_mandate env regime score iv r) (risk_mandate env regime score iv (r\<lparr>rs_entries := l\<rparr>))"
  unfolding risk_mandate_def Let_def by (auto intro!: upto_intros upto_hard_stops split: prod.split)

lemma upto_enforcer: "upto_entries l (enforcer_mandate env regime score iv m) (enforcer_mandate env regime score iv m)"
proof -
  have "upto_entries l (with_enforcer f m) (with_enforcer f m)" for f :: "enforcer_state \<Rightarrow> (exn + 'a) \<times> enforcer_state"
    by (simp add: upto_entries_def with_enforcer_def set_entries_def split: prod.split)
  then show ?thesis unfolding enforcer_mandate_def Let_def by (auto intro!: upto_intros split: prod.split)
qed

text \<open>
  The mandate has no limit on the trades of a day. Where it means to compare the trades taken today
  with the maximum for the day, it counts the open positions: its answer is the same whatever entries
  the risk service has recorded, so any number of trades that were closed again passes.
\<close>

lemma mandate_ignores_trades_taken:
  "fst (check_mandate_trade_allowed env regime score iv (s\<lparr>ms_risk := Some (r\<lparr>rs_entries := l\<rparr>)\<rparr>)) =
   fst (check_mandate_trade_allowed env regime score iv (s\<lparr>ms_risk := Some r\<rparr>))"
proof -
  let ?allow = "x_ret (True, ''MANDATE_ALLOWED (no enforcer)'')"
  let ?fb = "\<lambda>u. case ms_enforcer u of None \<Rightarrow> ?allow u
     | Some m \<Rightarrow> x_try (enforcer_mandate env regime score iv m) fallback_catches (\<lambda>e. ?allow) u"
  have e: "upto_entries l (x_try (enforcer_mandate env regime score iv m) fallback_catches (\<lambda>e. ?allow))
      (x_try (enforcer_mandate env regime score iv m) fallback_catches (\<lambda>e. ?allow))" for m
    by (intro upto_try upto_enforcer upto_simple)
  have "upto_entries l ?fb ?fb"
    unfolding upto_entries_def
  proof
    fix u
    show "?fb (set_entries l u) = (case ?fb u of (v, s') \<Rightarrow> (v, set_entries l s'))"
      using e [unfolded upto_entries_def] by (cases "ms_enforcer u") (simp_all add: set_entries_def x_ret_def)
  qed
  then have "upto_entries l (x_try (risk_mandate env regime score iv r) mandate_catches (\<lambda>e. ?fb))
      (x_try (risk_mandate env regime score iv (r\<lparr>rs_entries := l\<rparr>)) mandate_catches (\<lambda>e. ?fb))"
    by (intro upto_try upto_risk_mandate)
  from this [unfolded upto_entries_def, rule_format, of "s\<lparr>ms_risk := Some r\<rparr>"] show ?thesis
    by (simp add: check_mandate_trade_allowed_def Let_def set_entries_def split: prod.split)
qed

end
