(* ===== verification/Exposure_Guards.thy ===== *)
theory Exposure_Guards
  imports Py_Values Safety_Gates
begin

text \<open>
  Limits on concentration and correlation: \<open>core/exposure_limits.py\<close>, \<open>core/equity_protection.py\<close>,
  \<open>core/correlation_guard.py\<close> and the validation of lot sizes, \<open>core/lot_size_validator.py\<close>.

  The interface \<open>guarded_total\<close> states what a total with a limit and a check before every addition
  promises; it is interpreted for each of the four concentrations of the exposure limiter. The time
  stamps of the tracked positions are not read and are left out. \<open>fs\<close> is the printing of a float by \<open>str\<close>.
\<close>

section \<open>Definitions\<close>

subsection \<open>Exposure limits\<close>

record exp_position =
  ep_expiry :: string
  ep_direction :: string
  ep_strategy :: string
  ep_value :: real

record exp_limiter =
  xl_symbol_pct :: real
  xl_expiry_pct :: real
  xl_direction_pct :: real
  xl_strategy_pct :: real
  xl_positions :: "(string, exp_position) dict"

definition new_limiter :: exp_limiter where
  "new_limiter = \<lparr>xl_symbol_pct = 30, xl_expiry_pct = 50, xl_direction_pct = 80, xl_strategy_pct = 40, xl_positions = []\<rparr>"

definition update_exposure :: "string \<Rightarrow> string \<Rightarrow> string \<Rightarrow> string \<Rightarrow> real \<Rightarrow> exp_limiter \<Rightarrow> exp_limiter" where
  "update_exposure symbol expiry dir strategy v l =
     l\<lparr>xl_positions := (if v \<le> 0 then dict_del symbol (xl_positions l)
        else dict_set symbol \<lparr>ep_expiry = expiry, ep_direction = dir, ep_strategy = strategy, ep_value = v\<rparr> (xl_positions l))\<rparr>"

definition remove_exposure :: "string \<Rightarrow> exp_limiter \<Rightarrow> exp_limiter" where
  "remove_exposure symbol l = l\<lparr>xl_positions := dict_del symbol (xl_positions l)\<rparr>"

definition reset_exposure :: "exp_limiter \<Rightarrow> exp_limiter" where
  "reset_exposure l = l\<lparr>xl_positions := []\<rparr>"

record exposure_snapshot =
  sn_total :: real
  sn_symbol :: "(string, real) dict"
  sn_expiry :: "(string, real) dict"
  sn_direction :: "(string, real) dict"
  sn_strategy :: "(string, real) dict"

definition bump :: "string \<Rightarrow> real \<Rightarrow> (string, real) dict \<Rightarrow> (string, real) dict" where
  "bump k v d = dict_set k ((case map_of d k of Some x \<Rightarrow> x | None \<Rightarrow> 0) + v) d"

definition snapshot_step :: "string \<times> exp_position \<Rightarrow> exposure_snapshot \<Rightarrow> exposure_snapshot" where
  "snapshot_step sp n =
     (case sp of (s, p) \<Rightarrow>
        \<lparr>sn_total = sn_total n + ep_value p, sn_symbol = dict_set s (ep_value p) (sn_symbol n),
         sn_expiry = bump (ep_expiry p) (ep_value p) (sn_expiry n), sn_direction = bump (ep_direction p) (ep_value p) (sn_direction n),
         sn_strategy = bump (ep_strategy p) (ep_value p) (sn_strategy n)\<rparr>)"

definition get_exposure_snapshot :: "exp_limiter \<Rightarrow> exposure_snapshot" where
  "get_exposure_snapshot l =
     fold snapshot_step (xl_positions l) \<lparr>sn_total = 0, sn_symbol = [], sn_expiry = [], sn_direction = [], sn_strategy = []\<rparr>"

record exposure_check =
  ec_allowed :: bool
  ec_reason :: string
  ec_pct :: real
  ec_limit :: real
  ec_reduction :: real

text \<open>The value of the positions whose attribute \<open>f\<close> is \<open>k\<close>.\<close>

definition value_by :: "(exp_position \<Rightarrow> string) \<Rightarrow> string \<Rightarrow> (string, exp_position) dict \<Rightarrow> real" where
  "value_by f k ps = sum_list (map (\<lambda>(s, p). if f p = k then ep_value p else 0) ps)"

definition value_of :: "string \<Rightarrow> (string, exp_position) dict \<Rightarrow> real" where
  "value_of s ps = (case map_of ps s of Some p \<Rightarrow> ep_value p | None \<Rightarrow> 0)"

definition value_total :: "(string, exp_position) dict \<Rightarrow> real" where
  "value_total ps = sum_list (map (\<lambda>(s, p). ep_value p) ps)"

definition exposure_denied :: "(real \<Rightarrow> string) \<Rightarrow> string \<Rightarrow> real \<Rightarrow> real \<Rightarrow> real \<Rightarrow> exposure_check" where
  "exposure_denied fs what pct limit reduction =
     \<lparr>ec_allowed = False, ec_reason = what @ '' exposure '' @ fmt_f 1 pct @ ''% > '' @ fs limit @ ''% limit'', ec_pct = pct, ec_limit = limit,
      ec_reduction = reduction\<rparr>"

definition check_limits :: "(real \<Rightarrow> string) \<Rightarrow> string \<Rightarrow> string \<Rightarrow> string \<Rightarrow> string \<Rightarrow> real \<Rightarrow> real \<Rightarrow> exp_limiter \<Rightarrow> exposure_check" where
  "check_limits fs symbol expiry dir strategy v capital l =
     (if capital \<le> 0 then \<lparr>ec_allowed = True, ec_reason = ''No capital'', ec_pct = 0, ec_limit = 0, ec_reduction = 0\<rparr>
      else
        let ps = xl_positions l; pct = (\<lambda>x. (x + v) / capital * 100);
            p1 = pct (value_of symbol ps); p2 = pct (value_by ep_expiry expiry ps);
            p3 = pct (value_by ep_direction dir ps); p4 = pct (value_by ep_strategy strategy ps)
        in if p1 > xl_symbol_pct l
           then exposure_denied fs ''Symbol'' p1 (xl_symbol_pct l) (value_of symbol ps + v - capital * xl_symbol_pct l / 100)
           else if p2 > xl_expiry_pct l then exposure_denied fs ''Expiry'' p2 (xl_expiry_pct l) 0
           else if p3 > xl_direction_pct l then exposure_denied fs ''Direction'' p3 (xl_direction_pct l) 0
           else if p4 > xl_strategy_pct l then exposure_denied fs ''Strategy'' p4 (xl_strategy_pct l) 0
           else \<lparr>ec_allowed = True, ec_reason = ''All exposure limits OK'', ec_pct = pct (value_total ps), ec_limit = 0, ec_reduction = 0\<rparr>)"

definition get_limits_config :: "exp_limiter \<Rightarrow> (string, real) dict" where
  "get_limits_config l =
     [(''max_per_symbol_pct'', xl_symbol_pct l), (''max_per_expiry_pct'', xl_expiry_pct l),
      (''max_per_direction_pct'', xl_direction_pct l), (''max_per_strategy_pct'', xl_strategy_pct l)]"

subsection \<open>Equity protection\<close>

record protection =
  pt_multiplier :: real
  pt_status :: string
  pt_drawdown :: real

definition calculate_multiplier :: "real \<Rightarrow> real \<Rightarrow> protection" where
  "calculate_multiplier current peak =
     (if peak \<le> 0 then \<lparr>pt_multiplier = 1, pt_status = ''NORMAL'', pt_drawdown = 0\<rparr>
      else
        let d = (peak - current) / peak;
            m = (if d < 2 / 100 then 1 else if d < 5 / 100 then 7 / 10 else if d < 10 / 100 then 4 / 10 else 1 / 10);
            st = (if d \<ge> 10 / 100 then ''PROTECTIVE'' else if d \<ge> 5 / 100 then ''CAUTIOUS'' else if m = 1 then ''NORMAL'' else ''REDUCED'')
        in \<lparr>pt_multiplier = m, pt_status = st, pt_drawdown = d\<rparr>)"

text \<open>A lot size of 0 makes the division raise.\<close>

definition apply_protection :: "int \<Rightarrow> real \<Rightarrow> int \<Rightarrow> exn + int" where
  "apply_protection base mult lot =
     (let q = py_trunc (of_int base * mult)
      in if q < lot \<and> mult > 0 then Inr lot
         else if lot = 0 then Inl (Exn ZeroDivisionError ''integer division or modulo by zero'')
         else Inr ((q div lot) * lot))"

subsection \<open>Correlation guard\<close>

definition corr_pairs :: "string set set" where
  "corr_pairs = {{''NIFTY'', ''BANKNIFTY''}, {''NIFTY'', ''FINNIFTY''}, {''BANKNIFTY'', ''FINNIFTY''}}"

definition cache_max :: nat where
  "cache_max = 60"

text \<open>\<open>deque(maxlen=60)\<close>: the oldest entry is dropped; prices that are not positive are skipped.\<close>

definition push_close :: "real \<Rightarrow> real list \<Rightarrow> real list" where
  "push_close x q = (if x > 0 then drop (length q + 1 - cache_max) (q @ [x]) else q)"

definition update_closes :: "string \<Rightarrow> real list \<Rightarrow> (string, real list) dict \<Rightarrow> (string, real list) dict" where
  "update_closes name xs c = dict_set name (fold push_close xs (case map_of c name of Some q \<Rightarrow> q | None \<Rightarrow> [])) c"

text \<open>\<open>list(q)[-n:]\<close>, which for 0 is the whole list and for a negative \<open>n\<close> drops the first \<open>-n\<close>.\<close>

definition get_closes :: "string \<Rightarrow> int \<Rightarrow> (string, real list) dict \<Rightarrow> real list" where
  "get_closes name n c =
     (case map_of c name of
        None \<Rightarrow> []
      | Some q \<Rightarrow> if n \<le> 0 then drop (nat (- n)) q else drop (length q - nat n) q)"

definition pearson_terms :: "real list \<Rightarrow> real list \<Rightarrow> (real \<times> real) list" where
  "pearson_terms xs ys =
     (let n = min (length xs) (length ys); x = drop (length xs - n) xs; y = drop (length ys - n) ys
      in zip (map (\<lambda>a. a - sum_list x / real n) x) (map (\<lambda>b. b - sum_list y / real n) y))"

definition pearson_r :: "real list \<Rightarrow> real list \<Rightarrow> real" where
  "pearson_r xs ys =
     (let ts = pearson_terms xs ys; cov = (\<Sum>(a, b)\<leftarrow>ts. a * b); vx = (\<Sum>(a, b)\<leftarrow>ts. a\<^sup>2); vy = (\<Sum>(a, b)\<leftarrow>ts. b\<^sup>2); denom = sqrt (vx * vy)
      in if min (length xs) (length ys) < 5 then 0 else if denom = 0 then 0 else round_to 4 (cov / denom))"

definition are_correlated_pair :: "string \<Rightarrow> string \<Rightarrow> bool" where
  "are_correlated_pair a b \<longleftrightarrow> {a, b} \<in> corr_pairs"

record corr_config =
  cg_enabled :: bool
  cg_threshold :: real
  cg_lookback :: int

definition corr_blocks :: "corr_config \<Rightarrow> (string, real list) dict \<Rightarrow> string \<Rightarrow> string \<Rightarrow> string \<times> string \<Rightarrow> bool" where
  "corr_blocks c cache new dir pos =
     (case pos of (name, d) \<Rightarrow>
        name \<noteq> new \<and> are_correlated_pair new name \<and> str_upper d = str_upper dir \<and>
        (let x = get_closes new (cg_lookback c) cache; y = get_closes name (cg_lookback c) cache
         in 5 \<le> length x \<and> 5 \<le> length y \<and> pearson_r x y \<ge> cg_threshold c))"

text \<open>
  The open positions are given with the direction of their signal; \<open>Some name\<close> is the position that
  blocks. The sign in front of the threshold of the message is no ASCII character and left out.
\<close>

fun first_blocking :: "corr_config \<Rightarrow> (string, real list) dict \<Rightarrow> string \<Rightarrow> string \<Rightarrow> (string \<times> string) list \<Rightarrow> string option" where
  "first_blocking c cache new dir [] = None"
| "first_blocking c cache new dir (p # ps) = (if corr_blocks c cache new dir p then Some (fst p) else first_blocking c cache new dir ps)"

definition check_portfolio_correlation :: "corr_config \<Rightarrow> (string, real list) dict \<Rightarrow> string \<Rightarrow> string \<Rightarrow> (string \<times> string) list \<Rightarrow> bool \<times> string" where
  "check_portfolio_correlation c cache new dir ps =
     (if \<not> cg_enabled c then (True, [])
      else case first_blocking c cache new dir ps of
          None \<Rightarrow> (True, [])
        | Some n \<Rightarrow>
            (False, ''Correlation guard: '' @ new @ ''/'' @ n @ '' both '' @ str_upper dir @ '', r='' @
               fmt_f 3 (pearson_r (get_closes new (cg_lookback c) cache) (get_closes n (cg_lookback c) cache)) @
               '' threshold='' @ fmt_f 2 (cg_threshold c) @ '' - blocked''))"

text \<open>The pairs \<open>(n1, n2)\<close> with \<open>n1\<close> before \<open>n2\<close>, in the order of the two loops.\<close>

fun name_pairs :: "string list \<Rightarrow> (string \<times> string) list" where
  "name_pairs [] = []"
| "name_pairs (n # ns) = map (Pair n) ns @ name_pairs ns"

fun summary_loop :: "int \<Rightarrow> (string, real list) dict \<Rightarrow> (string \<times> string) list \<Rightarrow> string set list \<Rightarrow> (string, real) dict \<Rightarrow> (string, real) dict" where
  "summary_loop n cache [] seen rs = rs"
| "summary_loop n cache ((a, b) # ps) seen rs =
     (if {a, b} \<in> set seen then summary_loop n cache ps seen rs
      else summary_loop n cache ps ({a, b} # seen) (dict_set (a @ ''/'' @ b) (pearson_r (get_closes a n cache) (get_closes b n cache)) rs))"

definition correlation_summary :: "corr_config \<Rightarrow> (string, real list) dict \<Rightarrow> bool \<times> real \<times> (string, real) dict" where
  "correlation_summary c cache = (cg_enabled c, cg_threshold c, summary_loop (cg_lookback c) cache (name_pairs (dict_keys cache)) [] [])"

subsection \<open>Lot sizes\<close>

definition default_lots :: "(string, int) dict" where
  "default_lots = [(''NIFTY'', 25), (''BANKNIFTY'', 15), (''FINNIFTY'', 40), (''MIDCPNIFTY'', 75), (''SENSEX'', 10), (''BANKEX'', 10)]"

record lot_result =
  lr_index :: string
  lr_config :: int
  lr_live :: "int option"
  lr_valid :: bool
  lr_error :: "string option"

text \<open>
  \<open>lv_cfg\<close> holds the configured lots, by index. The broker's and the exchange's answers are arguments:
  \<open>lb\<close> what the broker returns for an index (\<open>None\<close> without a broker, where it
  raised, or where it has no such instrument and no \<open>get_lot_size\<close>), \<open>lx\<close> what the
  exchange's service returns (\<open>None\<close> where it has no answer or raised).
\<close>

record lot_validator =
  lv_cfg :: "(string, int) dict"
  lv_cache :: "(string, int) dict"
  lv_last :: "real option"

definition cfg_lot_size :: "string \<Rightarrow> lot_validator \<Rightarrow> int" where
  "cfg_lot_size i v =
     (case map_of (lv_cfg v) i of Some n \<Rightarrow> n | None \<Rightarrow> (case map_of default_lots i of Some n \<Rightarrow> n | None \<Rightarrow> 50))"

definition live_lot_size :: "(string \<Rightarrow> int option option) \<Rightarrow> (string \<Rightarrow> int option) \<Rightarrow> string \<Rightarrow> int option" where
  "live_lot_size lb lx i =
     (case lb i of Some r \<Rightarrow> r | None \<Rightarrow> (case lx i of Some n \<Rightarrow> Some n | None \<Rightarrow> map_of default_lots i))"

definition cached_lot_size :: "real \<Rightarrow> (string \<Rightarrow> int option option) \<Rightarrow> (string \<Rightarrow> int option) \<Rightarrow> string \<Rightarrow> lot_validator \<Rightarrow> int option \<times> lot_validator" where
  "cached_lot_size now lb lx i v =
     (let fresh = (case lv_last v of Some t \<Rightarrow> t \<noteq> 0 \<and> now - t < 300 | None \<Rightarrow> False)
      in if fresh \<and> map_of (lv_cache v) i \<noteq> None then (map_of (lv_cache v) i, v)
         else case live_lot_size lb lx i of
             Some n \<Rightarrow> (Some n, if n = 0 then v else v\<lparr>lv_cache := dict_set i n (lv_cache v), lv_last := Some now\<rparr>)
           | None \<Rightarrow> (None, v))"

definition validate_one :: "real \<Rightarrow> (string \<Rightarrow> int option option) \<Rightarrow> (string \<Rightarrow> int option) \<Rightarrow> string \<Rightarrow> lot_validator \<Rightarrow> lot_result \<times> lot_validator" where
  "validate_one now lb lx i v =
     (case cached_lot_size now lb lx i v of
        (live, v') \<Rightarrow>
          (\<lparr>lr_index = i, lr_config = cfg_lot_size i v, lr_live = live, lr_valid = (case live of None \<Rightarrow> True | Some n \<Rightarrow> n = cfg_lot_size i v),
            lr_error = (case live of
                None \<Rightarrow> Some ''Could not fetch live lot size - using config''
              | Some n \<Rightarrow> if n = cfg_lot_size i v then None
                  else Some (''Mismatch: config='' @ show_int (cfg_lot_size i v) @ '', live='' @ show_int n))\<rparr>, v'))"

fun validate_lots :: "real \<Rightarrow> (string \<Rightarrow> int option option) \<Rightarrow> (string \<Rightarrow> int option) \<Rightarrow> string list \<Rightarrow> lot_validator \<Rightarrow> lot_result list \<times> lot_validator" where
  "validate_lots now lb lx [] v = ([], v)"
| "validate_lots now lb lx (i # is) v =
     (case validate_one now lb lx i v of (r, v1) \<Rightarrow> (case validate_lots now lb lx is v1 of (rs, v2) \<Rightarrow> (r # rs, v2)))"

definition validate_all :: "real \<Rightarrow> (string \<Rightarrow> int option option) \<Rightarrow> (string \<Rightarrow> int option) \<Rightarrow> lot_validator \<Rightarrow> lot_result list \<times> lot_validator" where
  "validate_all now lb lx = validate_lots now lb lx (map fst default_lots)"

definition set_lot_config :: "(string, int) dict \<Rightarrow> lot_validator \<Rightarrow> lot_validator" where
  "set_lot_config cfg v = v\<lparr>lv_cfg := cfg\<rparr>"

text \<open>The printed list of strings; the names of the indices hold no character that Python would escape.\<close>

definition show_mismatches :: "lot_result list \<Rightarrow> string" where
  "show_mismatches rs =
     ''['' @ drop 2 (concat (map (\<lambda>r. '', '' @ [CHR 0x27] @ lr_index r @ '': config='' @ show_int (lr_config r) @ '', live='' @
        (case lr_live r of Some n \<Rightarrow> show_int n | None \<Rightarrow> ''None'') @ [CHR 0x27]) rs)) @ '']''"

definition validate_lot_sizes ::
    "real \<Rightarrow> (string \<Rightarrow> int option option) \<Rightarrow> (string \<Rightarrow> int option) \<Rightarrow> bool \<Rightarrow> lot_validator \<times> safety \<Rightarrow> bool \<times> lot_validator \<times> safety" where
  "validate_lot_sizes now lb lx strict st =
     (case validate_all now lb lx (fst st) of
        (rs, v) \<Rightarrow>
          let ok = list_all lr_valid rs; bad = filter (\<lambda>r. \<not> lr_valid r) rs
          in (ok, v, if \<not> ok \<and> strict then trip_hard_halt (''Lot size mismatch detected: '' @ show_mismatches bad) ''LotSizeValidator'' (snd st) else snd st))"

definition validate_order_size ::
    "real \<Rightarrow> (string \<Rightarrow> int option option) \<Rightarrow> (string \<Rightarrow> int option) \<Rightarrow> string \<Rightarrow> int \<Rightarrow> lot_validator \<Rightarrow> (exn + bool \<times> string) \<times> lot_validator" where
  "validate_order_size now lb lx i qty v =
     (case cached_lot_size now lb lx i v of
        (live, v') \<Rightarrow>
          let lot = (case live of Some n \<Rightarrow> if n \<noteq> 0 \<and> n \<noteq> cfg_lot_size i v then n else cfg_lot_size i v | None \<Rightarrow> cfg_lot_size i v)
          in (if lot = 0 then Inl (Exn ZeroDivisionError ''integer modulo by zero'')
              else if qty mod lot \<noteq> 0 then Inr (False, ''Quantity '' @ show_int qty @ '' not multiple of lot size '' @ show_int lot)
              else Inr (True, []), v'))"

definition invalidate_cache :: "lot_validator \<Rightarrow> lot_validator" where
  "invalidate_cache v = v\<lparr>lv_cache := [], lv_last := None\<rparr>"

section \<open>Interfaces\<close>

text \<open>
  Totals under a limit: every admitted step raises a total by at most its contribution, and is admitted
  only where the total with the contribution stays within the limit.
\<close>

locale guarded_total =
  fixes total :: "'s \<Rightarrow> 'k \<Rightarrow> real"
    and step :: "'a \<Rightarrow> 's \<Rightarrow> 's"
    and contrib :: "'a \<Rightarrow> 'k \<Rightarrow> real"
    and admits :: "'a \<Rightarrow> 's \<Rightarrow> bool"
    and limit :: "'s \<Rightarrow> real"
    and ok :: "'s \<Rightarrow> bool"
  assumes step_total: "ok s \<Longrightarrow> total (step a s) k \<le> total s k + max 0 (contrib a k)"
    and admits_limit: "ok s \<Longrightarrow> admits a s \<Longrightarrow> 0 < contrib a k \<Longrightarrow> total s k + contrib a k \<le> limit s"
    and step_limit: "limit (step a s) = limit s"
    and step_ok: "ok s \<Longrightarrow> ok (step a s)"
begin

lemma within_step:
  assumes "ok s" "\<And>k. total s k \<le> limit s" "admits a s"
  shows "total (step a s) k \<le> limit (step a s)"
proof (cases "0 < contrib a k")
  case True
  then show ?thesis using step_total [OF assms(1), of a k] admits_limit [OF assms(1,3) True] by (simp add: step_limit)
next
  case False
  then show ?thesis using step_total [OF assms(1), of a k] assms(2) [of k] by (simp add: step_limit)
qed

lemma within_run:
  assumes "ok s" "\<And>k. total s k \<le> limit s"
  shows "total (fold (\<lambda>a s. if admits a s then step a s else s) as s) k \<le> limit s"
  using assms
proof (induction as arbitrary: s)
  case Nil
  then show ?case by simp
next
  case (Cons a as)
  let ?t = "if admits a s then step a s else s"
  have t: "ok ?t" "limit ?t = limit s" using Cons.prems(1) by (simp_all add: step_ok step_limit)
  have "total ?t j \<le> limit ?t" for j using within_step [OF Cons.prems(1,2)] Cons.prems(2) by simp
  from Cons.IH [OF t(1) this] show ?case by (simp add: t(2) split: if_splits)
qed

end

section \<open>Lemmas\<close>

subsection \<open>Exposure limits\<close>

datatype exp_op = XO_Open string string string string real | XO_Remove string | XO_Reset

fun exp_step :: "exp_op \<Rightarrow> exp_limiter \<Rightarrow> exp_limiter" where
  "exp_step (XO_Open s e d t v) l = update_exposure s e d t v l"
| "exp_step (XO_Remove s) l = remove_exposure s l"
| "exp_step XO_Reset l = reset_exposure l"

text \<open>The operations a caller that respects the check performs, with a positive capital.\<close>

fun exp_admits :: "(real \<Rightarrow> string) \<Rightarrow> real \<Rightarrow> exp_op \<Rightarrow> exp_limiter \<Rightarrow> bool" where
  "exp_admits fs capital (XO_Open s e d t v) l = (0 < capital \<and> ec_allowed (check_limits fs s e d t v capital l))"
| "exp_admits fs capital _ l = True"

definition exp_run :: "(real \<Rightarrow> string) \<Rightarrow> real \<Rightarrow> exp_op list \<Rightarrow> exp_limiter \<Rightarrow> exp_limiter" where
  "exp_run fs capital ops l = fold (\<lambda>a l. if exp_admits fs capital a l then exp_step a l else l) ops l"

definition exp_ok :: "exp_limiter \<Rightarrow> bool" where
  "exp_ok l \<longleftrightarrow> (\<forall>(s, p) \<in> set (xl_positions l). 0 < ep_value p)"

lemma value_by_del: "\<forall>(s, p) \<in> set ps. 0 < ep_value p \<Longrightarrow> value_by f k (dict_del s ps) \<le> value_by f k ps"
proof (induction ps)
  case (Cons a ps)
  then have "value_by f k (dict_del s ps) \<le> value_by f k ps" by simp
  then show ?case using Cons.prems by (cases a) (auto simp: value_by_def dict_del_def)
qed (simp add: value_by_def dict_del_def)

lemma value_by_nonneg: "\<forall>(s, p) \<in> set ps. 0 < ep_value p \<Longrightarrow> 0 \<le> value_by f k ps"
  by (induction ps) (auto simp: value_by_def)

lemma value_by_set:
  "\<forall>(s, p) \<in> set ps. 0 < ep_value p \<Longrightarrow> value_by f k (dict_set s q ps) \<le> value_by f k ps + (if f q = k then ep_value q else 0)"
proof (induction ps)
  case (Cons a ps)
  then have "value_by f k (dict_set s q ps) \<le> value_by f k ps + (if f q = k then ep_value q else 0)" by simp
  then show ?case using Cons.prems by (cases a) (auto simp: value_by_def split: if_splits)
qed (simp add: value_by_def)

lemma value_of_nonneg: "\<forall>(s, p) \<in> set ps. 0 < ep_value p \<Longrightarrow> 0 \<le> value_of s ps"
  by (auto simp: value_of_def split: option.split dest!: map_of_SomeD)

lemma dict_set_cases: "x \<in> set (dict_set k v d) \<Longrightarrow> x = (k, v) \<or> x \<in> set d"
  by (induction d) (auto split: if_splits)

lemma exp_ok_step: "exp_ok l \<Longrightarrow> exp_ok (exp_step a l)"
  by (cases a) (auto simp: exp_ok_def update_exposure_def remove_exposure_def reset_exposure_def dict_del_def dest!: dict_set_cases split: if_splits)

text \<open>The contribution of an operation to the totals of an attribute.\<close>

fun op_contrib :: "(exp_position \<Rightarrow> string) \<Rightarrow> exp_op \<Rightarrow> string \<Rightarrow> real" where
  "op_contrib f (XO_Open s e d t v) k = (if f \<lparr>ep_expiry = e, ep_direction = d, ep_strategy = t, ep_value = v\<rparr> = k then v else 0)"
| "op_contrib f _ k = 0"

lemma value_by_step:
  assumes "exp_ok l"
  shows "value_by f k (xl_positions (exp_step a l)) \<le> value_by f k (xl_positions l) + max 0 (op_contrib f a k)"
proof (cases a)
  case (XO_Open s e d t v)
  then show ?thesis
    using value_by_del [of "xl_positions l" f k s] value_by_set [of "xl_positions l" f k s "\<lparr>ep_expiry = e, ep_direction = d, ep_strategy = t, ep_value = v\<rparr>"] assms
    by (auto simp: exp_ok_def update_exposure_def)
qed (use assms value_by_del [of "xl_positions l" f k] value_by_nonneg [of "xl_positions l" f k] in
    \<open>auto simp: exp_ok_def remove_exposure_def reset_exposure_def value_by_def\<close>)

lemma limits_allowed:
  assumes "0 < capital" "ec_allowed (check_limits fs s e d t v capital l)"
  shows "value_of s (xl_positions l) + v \<le> xl_symbol_pct l * capital / 100"
    "value_by ep_expiry e (xl_positions l) + v \<le> xl_expiry_pct l * capital / 100"
    "value_by ep_direction d (xl_positions l) + v \<le> xl_direction_pct l * capital / 100"
    "value_by ep_strategy t (xl_positions l) + v \<le> xl_strategy_pct l * capital / 100"
  using assms by (auto simp: check_limits_def Let_def exposure_denied_def field_simps split: if_splits)

lemma exp_step_limits [simp]:
  "xl_symbol_pct (exp_step a l) = xl_symbol_pct l" "xl_expiry_pct (exp_step a l) = xl_expiry_pct l"
  "xl_direction_pct (exp_step a l) = xl_direction_pct l" "xl_strategy_pct (exp_step a l) = xl_strategy_pct l"
  by (cases a; simp add: update_exposure_def remove_exposure_def reset_exposure_def)+

fun symbol_contrib :: "exp_op \<Rightarrow> string \<Rightarrow> real" where
  "symbol_contrib (XO_Open s e d t v) k = (if s = k then v else 0)"
| "symbol_contrib _ k = 0"

interpretation by_symbol: guarded_total "\<lambda>l k. value_of k (xl_positions l)" exp_step symbol_contrib "exp_admits fs capital"
  "\<lambda>l. xl_symbol_pct l * capital / 100" exp_ok for fs capital
proof unfold_locales
  fix l a k
  assume l: "exp_ok l"
  then have "0 \<le> value_of k (xl_positions l)" by (intro value_of_nonneg) (simp add: exp_ok_def)
  then show "value_of k (xl_positions (exp_step a l)) \<le> value_of k (xl_positions l) + max 0 (symbol_contrib a k)"
    by (cases a) (auto simp: update_exposure_def remove_exposure_def reset_exposure_def value_of_def)
  show "exp_ok (exp_step a l)" using l by (rule exp_ok_step)
  assume "exp_admits fs capital a l" "0 < symbol_contrib a k"
  then show "value_of k (xl_positions l) + symbol_contrib a k \<le> xl_symbol_pct l * capital / 100"
    using limits_allowed(1) by (cases a) (auto split: if_splits)
qed simp

lemma attr_admits:
  "exp_admits fs capital a l \<Longrightarrow> 0 < op_contrib ep_expiry a k \<Longrightarrow>
     value_by ep_expiry k (xl_positions l) + op_contrib ep_expiry a k \<le> xl_expiry_pct l * capital / 100"
  "exp_admits fs capital a l \<Longrightarrow> 0 < op_contrib ep_direction a k \<Longrightarrow>
     value_by ep_direction k (xl_positions l) + op_contrib ep_direction a k \<le> xl_direction_pct l * capital / 100"
  "exp_admits fs capital a l \<Longrightarrow> 0 < op_contrib ep_strategy a k \<Longrightarrow>
     value_by ep_strategy k (xl_positions l) + op_contrib ep_strategy a k \<le> xl_strategy_pct l * capital / 100"
  using limits_allowed(2-4) by (cases a; auto split: if_splits)+

interpretation by_expiry: guarded_total "\<lambda>l k. value_by ep_expiry k (xl_positions l)" exp_step "op_contrib ep_expiry" "exp_admits fs capital"
  "\<lambda>l. xl_expiry_pct l * capital / 100" exp_ok for fs capital
  by unfold_locales (simp_all only: value_by_step exp_ok_step attr_admits(1) exp_step_limits)

interpretation by_direction: guarded_total "\<lambda>l k. value_by ep_direction k (xl_positions l)" exp_step "op_contrib ep_direction" "exp_admits fs capital"
  "\<lambda>l. xl_direction_pct l * capital / 100" exp_ok for fs capital
  by unfold_locales (simp_all only: value_by_step exp_ok_step attr_admits(2) exp_step_limits)

interpretation by_strategy: guarded_total "\<lambda>l k. value_by ep_strategy k (xl_positions l)" exp_step "op_contrib ep_strategy" "exp_admits fs capital"
  "\<lambda>l. xl_strategy_pct l * capital / 100" exp_ok for fs capital
  by unfold_locales (simp_all only: value_by_step exp_ok_step attr_admits(3) exp_step_limits)

subsection \<open>Snapshot\<close>

definition or_zero :: "real option \<Rightarrow> real" where
  "or_zero x = (case x of Some v \<Rightarrow> v | None \<Rightarrow> 0)"

lemma or_zero_None [simp]: "or_zero None = 0"
  by (simp add: or_zero_def)

lemma bump_get: "or_zero (map_of (bump k v d) j) = or_zero (map_of d j) + (if j = k then v else 0)"
  by (simp add: bump_def or_zero_def split: option.split)

lemma snapshot_fold:
  "sn_total (fold snapshot_step ps n) = sn_total n + value_total ps"
  "or_zero (map_of (sn_expiry (fold snapshot_step ps n)) k) = or_zero (map_of (sn_expiry n) k) + value_by ep_expiry k ps"
  "or_zero (map_of (sn_direction (fold snapshot_step ps n)) k) = or_zero (map_of (sn_direction n) k) + value_by ep_direction k ps"
  "or_zero (map_of (sn_strategy (fold snapshot_step ps n)) k) = or_zero (map_of (sn_strategy n) k) + value_by ep_strategy k ps"
  by (induction ps arbitrary: n) (auto simp: value_total_def value_by_def snapshot_step_def bump_get)

lemma snapshot_symbol:
  "dict_ok ps \<Longrightarrow> or_zero (map_of (sn_symbol (fold snapshot_step ps n)) k) = (if k \<in> set (dict_keys ps) then value_of k ps else or_zero (map_of (sn_symbol n) k))"
  by (induction ps arbitrary: n) (auto simp: value_of_def snapshot_step_def dict_ok_def dict_keys_def or_zero_def split: option.split)

subsection \<open>Correlation\<close>

text \<open>Cauchy and Schwarz, for a list of pairs.\<close>

lemma sum_sq_nonneg: "0 \<le> (\<Sum>(a, b)\<leftarrow>ts. (a :: real)\<^sup>2)" "0 \<le> (\<Sum>(a, b)\<leftarrow>ts. (b :: real)\<^sup>2)"
  by (induction ts) auto

lemma cauchy_step:
  assumes "s\<^sup>2 \<le> x * y" "0 \<le> x" "0 \<le> (y :: real)"
  shows "(a * b + s)\<^sup>2 \<le> (a\<^sup>2 + x) * (b\<^sup>2 + y)"
proof -
  have "2 * (a * b) * s \<le> a\<^sup>2 * y + x * b\<^sup>2"
  proof -
    have "(2 * (a * b) * s)\<^sup>2 \<le> (a\<^sup>2 * y + x * b\<^sup>2)\<^sup>2"
    proof -
      have "(2 * (a * b) * s)\<^sup>2 = 4 * (a\<^sup>2 * b\<^sup>2) * s\<^sup>2" by (simp add: power_mult_distrib)
      also have "\<dots> \<le> 4 * (a\<^sup>2 * b\<^sup>2) * (x * y)" using assms(1) by (intro mult_left_mono) simp_all
      also have "\<dots> = (a\<^sup>2 * y + x * b\<^sup>2)\<^sup>2 - (a\<^sup>2 * y - x * b\<^sup>2)\<^sup>2" by (simp add: power2_eq_square algebra_simps)
      also have "\<dots> \<le> (a\<^sup>2 * y + x * b\<^sup>2)\<^sup>2" by simp
      finally show ?thesis .
    qed
    moreover have "0 \<le> a\<^sup>2 * y + x * b\<^sup>2" using assms(2,3) by simp
    ultimately show ?thesis by (rule power2_le_imp_le)
  qed
  with assms(1) show ?thesis by (simp add: power2_eq_square algebra_simps)
qed

lemma cauchy_list: "(\<Sum>(a, b)\<leftarrow>ts. a * b)\<^sup>2 \<le> (\<Sum>(a, b)\<leftarrow>ts. (a :: real)\<^sup>2) * (\<Sum>(a, b)\<leftarrow>ts. b\<^sup>2)"
proof (induction ts)
  case (Cons t ts)
  obtain a b where "t = (a, b)" by (cases t)
  then show ?case using cauchy_step [OF Cons.IH sum_sq_nonneg] by simp
qed simp

lemma ratio_unit:
  assumes "c\<^sup>2 \<le> x * y" "sqrt (x * y) \<noteq> (0 :: real)"
  shows "\<bar>c / sqrt (x * y)\<bar> \<le> 1"
proof -
  have p: "0 \<le> x * y" using assms(1) zero_le_power2 order_trans by blast
  have "\<bar>c\<bar> = sqrt (c\<^sup>2)" by simp
  also have "\<dots> \<le> sqrt (x * y)" using assms(1) by (rule real_sqrt_le_mono)
  finally show ?thesis using assms(2) p by (simp add: abs_divide divide_le_eq)
qed

subsection \<open>Lot sizes\<close>

definition cache_default :: "lot_validator \<Rightarrow> bool" where
  "cache_default v \<longleftrightarrow> (\<forall>j n. map_of (lv_cache v) j = Some n \<longrightarrow> map_of default_lots j = Some n)"

text \<open>Without an answer from broker and exchange the hard-coded lot takes the place of the live one.\<close>

lemma validate_one_default:
  assumes "cache_default v" "validate_one now (\<lambda>_. None) (\<lambda>_. None) i v = (r, v')"
  shows "lr_live r = map_of default_lots i" "lr_index r = i" "lr_config r = cfg_lot_size i v" "cache_default v'" "lv_cfg v' = lv_cfg v"
    "lr_valid r = (case map_of default_lots i of None \<Rightarrow> True | Some n \<Rightarrow> n = cfg_lot_size i v)"
  using assms by (auto simp: validate_one_def cached_lot_size_def live_lot_size_def cache_default_def Let_def split: if_splits option.splits prod.splits)

lemma validate_lots_default:
  assumes "cache_default v" "i \<in> set is" "map_of default_lots i = Some n" "cfg_lot_size i v \<noteq> n"
  shows "\<not> list_all lr_valid (fst (validate_lots now (\<lambda>_. None) (\<lambda>_. None) is v))"
  using assms(1,2,4)
proof (induction "is" arbitrary: v)
  case (Cons j js)
  obtain r v1 where r: "validate_one now (\<lambda>_. None) (\<lambda>_. None) j v = (r, v1)" by fastforce
  note o = validate_one_default [OF Cons.prems(1) r]
  have c: "cfg_lot_size i v1 = cfg_lot_size i v" using o(5) by (simp add: cfg_lot_size_def)
  show ?case
  proof (cases "i = j")
    case True
    then show ?thesis using o(6) assms(3) Cons.prems(3) r by (simp split: prod.split)
  next
    case False
    then have "\<not> list_all lr_valid (fst (validate_lots now (\<lambda>_. None) (\<lambda>_. None) js v1))"
      using Cons.IH [OF o(4)] Cons.prems(2,3) c by simp
    then show ?thesis using r by (auto split: prod.split)
  qed
qed simp

section \<open>Properties\<close>

text \<open>
  C22: A caller that opens positions only where \<open>check_limits\<close> allows it stays within all four
  concentration limits: after any sequence of admitted openings, removals and resets, the tracked value
  of every symbol, expiry, direction and strategy is at most its share of the capital.
\<close>

theorem exposure_within_limits:
  assumes "xl_positions l = []" "0 < capital" "0 \<le> xl_symbol_pct l" "0 \<le> xl_expiry_pct l" "0 \<le> xl_direction_pct l" "0 \<le> xl_strategy_pct l"
    and "ps = xl_positions (exp_run fs capital ops l)"
  shows "value_of k ps \<le> xl_symbol_pct l * capital / 100 \<and> value_by ep_expiry k ps \<le> xl_expiry_pct l * capital / 100 \<and>
    value_by ep_direction k ps \<le> xl_direction_pct l * capital / 100 \<and> value_by ep_strategy k ps \<le> xl_strategy_pct l * capital / 100"
proof -
  have o: "exp_ok l" using assms(1) by (simp add: exp_ok_def)
  have z: "value_of j (xl_positions l) = 0" "value_by f j (xl_positions l) = 0" for f j by (simp_all add: assms(1) value_of_def value_by_def)
  show ?thesis
    using by_symbol.within_run [OF o, where fs = fs and capital = capital and as = ops and k = k] by_expiry.within_run [OF o, where fs = fs and capital = capital and as = ops and k = k]
      by_direction.within_run [OF o, where fs = fs and capital = capital and as = ops and k = k] by_strategy.within_run [OF o, where fs = fs and capital = capital and as = ops and k = k] assms(2-6)
    by (simp add: z assms(7) exp_run_def)
qed

theorem exposure_within_limits_witness:
  "value_by ep_direction ''CALL'' (xl_positions (exp_run (\<lambda>_. []) 1000
     [XO_Open ''NIFTY'' ''E1'' ''CALL'' ''S1'' 300, XO_Open ''BANKNIFTY'' ''E2'' ''CALL'' ''S2'' 300, XO_Open ''SENSEX'' ''E3'' ''CALL'' ''S3'' 300] new_limiter)) \<le> 800"
  using exposure_within_limits [of new_limiter 1000, OF _ _ _ _ _ _ refl, of "''CALL''"] by (simp add: new_limiter_def)

text \<open>
  The exposure snapshot is exact: the values it accumulates per expiry, direction and strategy, per
  symbol and in total are the sums over the tracked positions that the check of the limits uses.
\<close>

lemma snapshot_exact:
  assumes "dict_ok (xl_positions l)"
  defines "n \<equiv> get_exposure_snapshot l" and "ps \<equiv> xl_positions l"
  shows "sn_total n = value_total ps \<and> or_zero (map_of (sn_symbol n) k) = value_of k ps \<and> or_zero (map_of (sn_expiry n) k) = value_by ep_expiry k ps \<and>
    or_zero (map_of (sn_direction n) k) = value_by ep_direction k ps \<and> or_zero (map_of (sn_strategy n) k) = value_by ep_strategy k ps"
proof -
  have "k \<notin> set (dict_keys ps) \<Longrightarrow> value_of k ps = 0"
    by (auto simp: value_of_def dict_keys_def split: option.split dest!: map_of_SomeD) (metis fst_conv image_eqI)
  then show ?thesis
    using snapshot_symbol [OF assms(1)] by (simp add: n_def ps_def get_exposure_snapshot_def snapshot_fold)
qed

text \<open>
  The correlation the guard compares with its threshold lies between -1 and 1 for all price series,
  rounding included, and is 0 for fewer than five common prices.
\<close>

lemma pearson_bounded: "\<bar>pearson_r xs ys\<bar> \<le> 1 \<and> (length xs < 5 \<or> length ys < 5 \<longrightarrow> pearson_r xs ys = 0)"
proof -
  have "\<bar>round_to 4 (c / sqrt (x * y))\<bar> \<le> 1" if "c\<^sup>2 \<le> x * y" "sqrt (x * y) \<noteq> 0" for c x y
    using round_to_abs [of _ 1] ratio_unit [OF that] by simp
  then show ?thesis using cauchy_list [of "pearson_terms xs ys"] by (auto simp: pearson_r_def Let_def)
qed

text \<open>
  C32: When neither the broker nor the exchange answers, the hard-coded lot sizes are taken for live
  ones. A configured lot size that differs from its hard-coded default, as after a revision by the
  exchange, then fails the validation and trips the process-wide kill switch.
\<close>

theorem unanswered_lot_check_halts:
  assumes "lv_cache v = []" "map_of default_lots i = Some n" "cfg_lot_size i v \<noteq> n"
  shows "\<exists>v' sf'. validate_lot_sizes now (\<lambda>_. None) (\<lambda>_. None) True (v, sf) = (False, v', sf') \<and> is_hard_halted sf'"
proof -
  have "i \<in> set (map fst default_lots)" using map_of_SomeD [OF assms(2)] by force
  then have "\<not> list_all lr_valid (fst (validate_all now (\<lambda>_. None) (\<lambda>_. None) v))"
    unfolding validate_all_def using assms by (intro validate_lots_default) (simp_all add: cache_default_def)
  then show ?thesis by (auto simp: validate_lot_sizes_def Let_def trip_hard_halt_def is_hard_halted_def split: prod.split)
qed

theorem unanswered_lot_check_halts_witness:
  "\<exists>v' sf'. validate_lot_sizes 100 (\<lambda>_. None) (\<lambda>_. None) True (\<lparr>lv_cfg = [(''NIFTY'', 75)], lv_cache = [], lv_last = None\<rparr>, new_safety) = (False, v', sf') \<and>
     is_hard_halted sf'"
  by (rule unanswered_lot_check_halts [of _ "''NIFTY''" 25]) (simp_all add: default_lots_def cfg_lot_size_def)

text \<open>Positions are tracked by symbol: a put opened beside a call of the same symbol replaces it.\<close>

lemma second_position_replaces_first:
  assumes "0 < v" "0 < w"
  shows "value_total (xl_positions (update_exposure s e ''PUT'' t w (update_exposure s e ''CALL'' t v (reset_exposure l)))) = w"
    "value_by ep_direction ''CALL'' (xl_positions (update_exposure s e ''PUT'' t w (update_exposure s e ''CALL'' t v (reset_exposure l)))) = 0"
  using assms by (simp_all add: update_exposure_def reset_exposure_def value_total_def value_by_def)

text \<open>A deeper drawdown never raises the multiplier; a trade is never reduced below one lot.\<close>

lemma multiplier_antimono:
  assumes "0 < peak" "c \<le> c'"
  shows "pt_multiplier (calculate_multiplier c peak) \<le> pt_multiplier (calculate_multiplier c' peak)"
proof -
  define d e where "d = (peak - c) / peak" and "e = (peak - c') / peak"
  have "e \<le> d" using assms by (simp add: d_def e_def divide_right_mono)
  then show ?thesis using assms(1) by (simp add: calculate_multiplier_def Let_def flip: d_def e_def)
qed

lemma protection_at_least_lot: "0 < mult \<Longrightarrow> 0 < lot \<Longrightarrow> \<exists>q. apply_protection base mult lot = Inr q \<and> lot \<le> q \<and> lot dvd q"
proof -
  assume a: "0 < mult" "0 < lot"
  have "lot \<le> (q div lot) * lot" if "\<not> q < lot" for q
    using zdiv_mono1 [of lot q lot] mult_right_mono [of 1 "q div lot" lot] that a(2) by simp
  with a show ?thesis by (simp add: apply_protection_def Let_def)
qed

end
