(* ===== verification/Order_Pricing.thy ===== *)
theory Order_Pricing
  imports Py_Values
begin

text \<open>
  Sizing and pricing helpers: the Kelly sizer (\<open>core/kelly_sizer.py\<close>), the scale-in manager
  (\<open>core/scalein_manager.py\<close>), the limit order engine (\<open>core/limit_order_engine.py\<close>), the slippage
  model (\<open>core/slippage_model.py\<close>, whose least squares are numpy code and an argument) and the cost
  accountant (\<open>core/cost_accountant.py\<close>). The recent results that the Kelly sizer and the samples that the
  slippage model read from their databases are arguments.
\<close>

section \<open>Definitions\<close>

subsection \<open>Kelly sizer\<close>

record kelly_config =
  kc_enabled :: bool
  kc_window :: nat
  kc_min_trades :: nat
  kc_max_mult :: real

definition default_kelly :: kelly_config where
  "default_kelly = \<lparr>kc_enabled = False, kc_window = 50, kc_min_trades = 20, kc_max_mult = 2\<rparr>"

record kelly_result =
  kr_f :: real
  kr_half :: real
  kr_lots :: int
  kr_win_rate :: real
  kr_avg_win :: real
  kr_avg_loss :: real
  kr_trades :: nat
  kr_fallback :: bool

definition kelly_fallback :: "int \<Rightarrow> real \<Rightarrow> real \<Rightarrow> real \<Rightarrow> nat \<Rightarrow> kelly_result" where
  "kelly_fallback base wr w l n =
     \<lparr>kr_f = 0, kr_half = 0, kr_lots = base, kr_win_rate = wr, kr_avg_win = w, kr_avg_loss = l, kr_trades = n, kr_fallback = True\<rparr>"

definition average :: "real list \<Rightarrow> real" where
  "average xs = (if xs = [] then 0 else sum_list xs / real (length xs))"

definition kelly_fraction :: "real \<Rightarrow> real \<Rightarrow> real \<Rightarrow> real" where
  "kelly_fraction wr w l = (wr * w - (1 - wr) * l) / w"

definition kelly_lots :: "kelly_config \<Rightarrow> real \<Rightarrow> int \<Rightarrow> real \<Rightarrow> real \<Rightarrow> int" where
  "kelly_lots c capital base risk_per_lot half =
     (let lots = (if half \<le> 0 \<or> risk_per_lot \<le> 0 \<or> capital \<le> 0 then base else max 1 (py_trunc (capital * half / risk_per_lot)));
          cap = max 1 (py_trunc (of_int base * kc_max_mult c))
      in max 1 (min lots cap))"

text \<open>\<open>results\<close> are the newest results of the database, newest first.\<close>

definition compute_kelly_lots :: "kelly_config \<Rightarrow> real \<Rightarrow> int \<Rightarrow> real \<Rightarrow> real list \<Rightarrow> exn + kelly_result" where
  "compute_kelly_lots c capital base risk_per_lot results =
     (if \<not> kc_enabled c then Inr (kelly_fallback base 0 0 0 0)
      else
        let pnls = take (kc_window c) results; n = length pnls
        in if n < kc_min_trades c then Inr (kelly_fallback base 0 0 0 n)
           else if n = 0 then Inl (Exn ZeroDivisionError ''division by zero'')
           else
             let wins = filter (\<lambda>p. p > 0) pnls; losses = filter (\<lambda>p. p < 0) pnls;
                 wr = real (length wins) / real n; w = average wins; l = \<bar>average losses\<bar>
             in if w \<le> 0 then Inr (kelly_fallback base wr w l n)
                else
                  let f = kelly_fraction wr w l; half = f * (1 / 2)
                  in Inr \<lparr>kr_f = round_to 4 f, kr_half = round_to 4 half, kr_lots = kelly_lots c capital base risk_per_lot half, kr_win_rate = round_to 4 wr,
                      kr_avg_win = round_to 2 w, kr_avg_loss = round_to 2 l, kr_trades = n, kr_fallback = False\<rparr>)"

subsection \<open>Scale-in\<close>

record scalein_config =
  si_enabled :: bool
  si_first_pct :: real
  si_pullback_pct :: real
  si_timeout_mins :: int
  si_min_score :: int

definition default_scalein :: scalein_config where
  "default_scalein = \<lparr>si_enabled = False, si_first_pct = 1 / 2, si_pullback_pct = 3 / 1000, si_timeout_mins = 5, si_min_score = 80\<rparr>"

record scalein_state =
  ss_trade_id :: string
  ss_entry_price :: real
  ss_direction :: string
  ss_trigger :: real
  ss_timeout :: real
  ss_leg1 :: int
  ss_leg2 :: int
  ss_completed :: bool
  ss_leg2_fill :: real

definition qualifies :: "scalein_config \<Rightarrow> int \<Rightarrow> bool" where
  "qualifies c score \<longleftrightarrow> si_enabled c \<and> score \<ge> si_min_score c"

definition leg1_lots :: "scalein_config \<Rightarrow> int \<Rightarrow> int" where
  "leg1_lots c n = max 1 (py_trunc (of_int n * si_first_pct c))"

definition leg2_lots :: "scalein_config \<Rightarrow> int \<Rightarrow> int" where
  "leg2_lots c n = max 1 (n - leg1_lots c n)"

definition create_state :: "scalein_config \<Rightarrow> real \<Rightarrow> string \<Rightarrow> real \<Rightarrow> int \<Rightarrow> string \<Rightarrow> scalein_state" where
  "create_state c now trade_id price n dir =
     (let trigger = (if str_upper dir = ''CALL'' then price * (1 - si_pullback_pct c) else price * (1 + si_pullback_pct c))
      in \<lparr>ss_trade_id = trade_id, ss_entry_price = price, ss_direction = str_upper dir, ss_trigger = round_to 2 trigger,
          ss_timeout = now + of_int (si_timeout_mins c * 60), ss_leg1 = leg1_lots c n, ss_leg2 = leg2_lots c n, ss_completed = False,
          ss_leg2_fill = 0\<rparr>)"

definition should_fill_leg2 :: "scalein_state \<Rightarrow> real \<Rightarrow> real \<Rightarrow> bool" where
  "should_fill_leg2 s price t \<longleftrightarrow>
     \<not> ss_completed s \<and>
     (t \<ge> ss_timeout s \<or> (ss_direction s = ''CALL'' \<and> price \<le> ss_trigger s) \<or> (ss_direction s = ''PUT'' \<and> price \<ge> ss_trigger s))"

definition compute_avg_price :: "scalein_state \<Rightarrow> real \<Rightarrow> real" where
  "compute_avg_price s fill =
     (let n = ss_leg1 s + ss_leg2 s
      in if n = 0 then fill else round_to 2 ((ss_entry_price s * of_int (ss_leg1 s) + fill * of_int (ss_leg2 s)) / of_int n))"

subsection \<open>Limit orders\<close>

record limit_order_config =
  lo_step_pct :: real
  lo_interval :: real
  lo_timeout :: real

definition default_limit_order :: limit_order_config where
  "default_limit_order = \<lparr>lo_step_pct = 5 / 100, lo_interval = 5, lo_timeout = 30\<rparr>"

record limit_result =
  lt_filled :: bool
  lt_fill_price :: real
  lt_limit_price :: real
  lt_elapsed :: real
  lt_timed_out :: bool
  lt_slippage :: real

definition limit_mode :: "string \<Rightarrow> string" where
  "limit_mode mode =
     (let m = str_upper (if mode = [] then ''ADAPTIVE'' else mode) in if m \<in> {''AGGRESSIVE'', ''PASSIVE'', ''ADAPTIVE''} then m else ''ADAPTIVE'')"

definition limit_fraction :: "limit_order_config \<Rightarrow> string \<Rightarrow> real \<Rightarrow> real" where
  "limit_fraction c mode elapsed =
     (let m = limit_mode mode
      in if m = ''AGGRESSIVE'' then 70 / 100 else if m = ''PASSIVE'' then 30 / 100
         else let steps = (if lo_interval c > 0 then \<lfloor>elapsed / max (lo_interval c) 1\<rfloor> else 0)
              in min 1 (30 / 100 + of_int steps * lo_step_pct c))"

definition compute_limit_price :: "limit_order_config \<Rightarrow> real \<Rightarrow> real \<Rightarrow> string \<Rightarrow> real \<Rightarrow> real" where
  "compute_limit_price c bid ask mode elapsed = round_to 2 (bid + max 0 (ask - bid) * limit_fraction c mode elapsed)"

definition simulate_paper_fill :: "limit_order_config \<Rightarrow> real \<Rightarrow> real \<Rightarrow> real \<Rightarrow> real \<Rightarrow> limit_result" where
  "simulate_paper_fill c bid ask price elapsed =
     (let missed = (\<lambda>out. \<lparr>lt_filled = False, lt_fill_price = 0, lt_limit_price = price, lt_elapsed = elapsed, lt_timed_out = out, lt_slippage = 0\<rparr>)
      in if elapsed \<ge> lo_timeout c then missed True
         else if (bid + ask) / 2 \<le> price
         then let fill = min price ask
              in \<lparr>lt_filled = True, lt_fill_price = round_to 2 fill, lt_limit_price = price, lt_elapsed = elapsed, lt_timed_out = False,
                  lt_slippage = round_to 2 (fill - price)\<rparr>
         else missed False)"

subsection \<open>Slippage\<close>

record slippage_model =
  sl_intercept :: real
  sl_lot :: real
  sl_spread :: real
  sl_r2 :: real
  sl_samples :: nat
  sl_at :: string

text \<open>
  \<open>lsq\<close> stands for numpy's least squares: three coefficients and the quality of the fit, or an exception
  (\<open>LinAlgError\<close> is a \<open>ValueError\<close>). Without numpy the except clause itself raises, since it
  names \<open>np\<close>, which the failed import left unbound.
  \<open>rows\<close> are the samples (lots, spread, slippage) read from the journal.
\<close>

definition ols :: "((real \<times> real) list \<Rightarrow> real list \<Rightarrow> exn + (real \<times> real \<times> real) \<times> real) \<Rightarrow> (real \<times> real) list \<Rightarrow> real list \<Rightarrow> exn + (real \<times> real \<times> real) \<times> real" where
  "ols lsq xs ys =
     (if xs = [] then Inl (Exn (OtherExn ''IndexError'') ''list index out of range'')
      else case lsq xs ys of
          Inl e \<Rightarrow>
            if exn_cls e = ImportError then Inl (Exn (OtherExn ''UnboundLocalError'') ''cannot access local variable np'')
            else if caught [ValueError, TypeError] e then Inr ((0, 0, 0), 0) else Inl e
        | Inr (cs, r2) \<Rightarrow> Inr (cs, round_to 4 r2))"

definition calibrate_model ::
    "((real \<times> real) list \<Rightarrow> real list \<Rightarrow> exn + (real \<times> real \<times> real) \<times> real) \<Rightarrow> bool \<Rightarrow> int \<Rightarrow> string \<Rightarrow> (real \<times> real \<times> real) list \<Rightarrow> exn + slippage_model option" where
  "calibrate_model lsq enabled min_samples ts rows =
     (if \<not> enabled then Inr None
      else if int (length rows) < min_samples then Inr None
      else case ols lsq (map (\<lambda>(a, b, _). (a, b)) rows) (map (\<lambda>(_, _, y). y) rows) of
          Inl e \<Rightarrow> Inl e
        | Inr ((c0, c1, c2), r2) \<Rightarrow>
            Inr (Some \<lparr>sl_intercept = round_to 6 c0, sl_lot = round_to 6 c1, sl_spread = round_to 6 c2, sl_r2 = r2, sl_samples = length rows, sl_at = ts\<rparr>))"

definition format_slippage_summary :: "slippage_model option \<Rightarrow> string" where
  "format_slippage_summary m =
     (case m of
        None \<Rightarrow> ''[slippage_model] not calibrated''
      | Some m \<Rightarrow> ''[slippage_model] n='' @ show_int (int (sl_samples m)) @ '' R2='' @ fmt_f 3 (sl_r2 m) @ '' intercept='' @ fmt_f 4 (sl_intercept m) @
          '' lot='' @ fmt_f 4 (sl_lot m) @ '' spread='' @ fmt_f 4 (sl_spread m) @ '' @ '' @ sl_at m)"

definition predict_slippage :: "real \<Rightarrow> real \<Rightarrow> slippage_model option \<Rightarrow> real" where
  "predict_slippage lot spread m =
     (case m of None \<Rightarrow> 0 | Some m \<Rightarrow> round_to 4 (max 0 (sl_intercept m + sl_lot m * lot + sl_spread m * spread)))"

subsection \<open>Costs\<close>

record cost_config =
  co_stt :: real
  co_stt_short :: real
  co_brokerage :: real
  co_gst :: real
  co_stamp :: real
  co_bid_ask :: real

definition default_costs :: cost_config where
  "default_costs = \<lparr>co_stt = 5 / 10000, co_stt_short = 1 / 1000, co_brokerage = 20, co_gst = 18 / 100, co_stamp = 2 / 1000, co_bid_ask = 3\<rparr>"

text \<open>The configuration overrides all rates but the stamp duty.\<close>

definition new_accountant :: "real option \<Rightarrow> real option \<Rightarrow> real option \<Rightarrow> real option \<Rightarrow> real option \<Rightarrow> cost_config" where
  "new_accountant stt stt_short brokerage gst bid_ask =
     (let get = (\<lambda>x d. case x of Some v \<Rightarrow> v | None \<Rightarrow> d); d = default_costs
      in d\<lparr>co_stt := get stt (co_stt d), co_stt_short := get stt_short (co_stt_short d), co_brokerage := get brokerage (co_brokerage d),
           co_gst := get gst (co_gst d), co_bid_ask := get bid_ask (co_bid_ask d)\<rparr>)"

record entry_costs =
  en_premium :: real
  en_brokerage :: real
  en_gst :: real
  en_stamp :: real
  en_total :: real

definition calculate_entry_costs :: "cost_config \<Rightarrow> real \<Rightarrow> int \<Rightarrow> entry_costs" where
  "calculate_entry_costs c premium qty =
     (let b = co_brokerage c; gst = b * co_gst c; stamp = premium * of_int qty * co_stamp c
      in \<lparr>en_premium = premium * of_int qty, en_brokerage = b, en_gst = gst, en_stamp = stamp, en_total = b + gst + stamp\<rparr>)"

record exit_costs =
  ex_premium :: real
  ex_brokerage :: real
  ex_stt :: real
  ex_stamp :: real
  ex_gst :: real
  ex_bid_ask :: real
  ex_total :: real

definition calculate_exit_costs :: "cost_config \<Rightarrow> real \<Rightarrow> int \<Rightarrow> bool \<Rightarrow> exit_costs" where
  "calculate_exit_costs c premium qty is_buy =
     (let p = premium * of_int qty; b = co_brokerage c; stt = (if \<not> is_buy then p * co_stt c else 0); stamp = p * co_stamp c;
          gst = b * co_gst c; ba = co_bid_ask c * of_int qty
      in \<lparr>ex_premium = p, ex_brokerage = b, ex_stt = stt, ex_stamp = stamp, ex_gst = gst, ex_bid_ask = ba,
          ex_total = b + stt + stamp + gst + ba\<rparr>)"

record net_pnl =
  np_gross :: real
  np_entry :: real
  np_exit :: real
  np_costs :: real
  np_net :: real
  np_cost_pct :: real

definition calculate_net_pnl :: "cost_config \<Rightarrow> real \<Rightarrow> real \<Rightarrow> int \<Rightarrow> net_pnl" where
  "calculate_net_pnl c entry exit qty =
     (let e = en_total (calculate_entry_costs c entry qty); x = ex_total (calculate_exit_costs c exit qty False); gross = (exit - entry) * of_int qty
      in \<lparr>np_gross = gross, np_entry = e, np_exit = x, np_costs = e + x, np_net = gross - (e + x),
          np_cost_pct = (if entry * of_int qty > 0 then (e + x) / (entry * of_int qty) else 0)\<rparr>)"

definition calculate_expected_costs :: "cost_config \<Rightarrow> real \<Rightarrow> int \<Rightarrow> real" where
  "calculate_expected_costs c premium qty = en_total (calculate_entry_costs c premium qty) + ex_total (calculate_exit_costs c premium qty False)"

definition calculate_short_expiry_stt :: "cost_config \<Rightarrow> string \<Rightarrow> int \<Rightarrow> real \<Rightarrow> int \<Rightarrow> int \<Rightarrow> real" where
  "calculate_short_expiry_stt c dir strike spot qty lot =
     (let d = str_upper dir
      in if d \<notin> {''SHORT'', ''SELL'', ''CALL'', ''PE''} then 0
         else let intrinsic = (if d \<in> {''CALL'', ''CE''} then max 0 (spot - of_int strike) else max 0 (of_int strike - spot))
              in if intrinsic \<le> 0 then 0 else intrinsic * of_int qty * of_int lot * co_stt_short c)"

section \<open>Lemmas\<close>

lemma round_to_cents [simp]: "round_to 2 (of_int i / 100) = of_int i / 100"
  by (simp add: round_to_def)

lemma limit_fraction_bounds:
  assumes "0 \<le> elapsed" "0 \<le> lo_step_pct c"
  shows "0 \<le> limit_fraction c mode elapsed" "limit_fraction c mode elapsed \<le> 1"
proof -
  have "0 \<le> real_of_int \<lfloor>elapsed / max (lo_interval c) 1\<rfloor> * lo_step_pct c" using assms by (intro mult_nonneg_nonneg) simp_all
  then show "0 \<le> limit_fraction c mode elapsed" "limit_fraction c mode elapsed \<le> 1" by (simp_all add: limit_fraction_def Let_def)
qed

lemma limit_fraction_mono:
  assumes "0 \<le> lo_step_pct c" "s \<le> t"
  shows "limit_fraction c mode s \<le> limit_fraction c mode t"
proof -
  have "\<lfloor>s / max (lo_interval c) 1\<rfloor> \<le> \<lfloor>t / max (lo_interval c) 1\<rfloor>" using assms(2) by (intro floor_mono divide_right_mono) simp_all
  then have "real_of_int \<lfloor>s / max (lo_interval c) 1\<rfloor> * lo_step_pct c \<le> real_of_int \<lfloor>t / max (lo_interval c) 1\<rfloor> * lo_step_pct c"
    using assms(1) by (intro mult_right_mono) simp_all
  then show ?thesis by (simp add: limit_fraction_def Let_def min.coboundedI2 min_le_iff_disj)
qed

text \<open>A negative edge does not lower the size: the base lots are taken.\<close>

lemma kelly_sized:
  assumes "compute_kelly_lots c capital base risk results = Inr r" "\<not> kr_fallback r"
  obtains half where "kr_half r = round_to 4 half" "kr_lots r = kelly_lots c capital base risk half"
  using assms by (auto simp: compute_kelly_lots_def kelly_fallback_def Let_def simp del: filter_True split: if_split_asm)

lemma kelly_negative_edge:
  assumes "1 \<le> base" "1 \<le> kc_max_mult c"
    and "compute_kelly_lots c capital base risk results = Inr r" "\<not> kr_fallback r" "kr_half r < 0"
  shows "kr_lots r = base"
  using assms(3,4)
proof (rule kelly_sized)
  fix half
  assume half: "kr_half r = round_to 4 half" "kr_lots r = kelly_lots c capital base risk half"
  have "half \<le> 0" using round_to_nonneg [of half 4] assms(5) half(1) by linarith
  moreover have "of_int base * 1 \<le> of_int base * kc_max_mult c" using assms(1,2) by (intro mult_left_mono) simp_all
  then have "base \<le> py_trunc (of_int base * kc_max_mult c)" using assms(1,2) by (simp add: py_trunc_def le_floor_iff)
  ultimately show ?thesis using half(2) assms(1) by (simp add: kelly_lots_def)
qed

text \<open>Costs are never negative, so the net result is below the gross one.\<close>

lemma net_below_gross:
  assumes "0 \<le> entry" "0 \<le> exit" "0 \<le> qty" "0 \<le> co_stt c" "0 \<le> co_brokerage c" "0 \<le> co_gst c" "0 \<le> co_stamp c" "0 \<le> co_bid_ask c"
  shows "np_net (calculate_net_pnl c entry exit qty) \<le> np_gross (calculate_net_pnl c entry exit qty)"
proof -
  have "0 \<le> en_total (calculate_entry_costs c entry qty)" "0 \<le> ex_total (calculate_exit_costs c exit qty False)"
    using assms by (simp_all add: calculate_entry_costs_def calculate_exit_costs_def Let_def)
  then show ?thesis by (simp add: calculate_net_pnl_def Let_def)
qed

text \<open>Neither \<open>CE\<close> nor \<open>PUT\<close> passes the first test, so both are free of the tax.\<close>

lemma short_call_untaxed: "calculate_short_expiry_stt c ''CE'' strike spot qty lot = 0" "calculate_short_expiry_stt c ''PUT'' strike spot qty lot = 0"
  by (simp_all add: calculate_short_expiry_stt_def Let_def upper_char_def)

section \<open>Properties\<close>

text \<open>
  C37: A limit price lies between bid and ask, after rounding to the tick of 0.01 on which both are
  quoted, in every mode and at every time; the adaptive price never falls while the order waits.
\<close>

theorem limit_price_in_spread:
  assumes "bid = of_int i / 100" "ask = of_int j / 100" "bid \<le> ask" "0 \<le> s" "s \<le> t" "0 \<le> lo_step_pct c"
  shows "bid \<le> compute_limit_price c bid ask mode s \<and> compute_limit_price c bid ask mode s \<le> compute_limit_price c bid ask mode t \<and>
    compute_limit_price c bid ask mode t \<le> ask"
proof -
  let ?f = "limit_fraction c mode"
  have f: "0 \<le> ?f s" "?f s \<le> ?f t" "?f t \<le> 1" using assms(4-6) limit_fraction_bounds limit_fraction_mono by auto
  have d: "0 \<le> ask - bid" using assms(3) by simp
  have 1: "bid \<le> bid + (ask - bid) * ?f s" using d f(1) by simp
  have 2: "bid + (ask - bid) * ?f s \<le> bid + (ask - bid) * ?f t" using d f(2) by (simp add: mult_left_mono)
  have 3: "bid + (ask - bid) * ?f t \<le> ask" using mult_left_mono [OF f(3) d] by simp
  have m: "max 0 (ask - bid) = ask - bid" using d by simp
  have "round_to 2 bid = bid" "round_to 2 ask = ask" by (simp_all add: assms(1,2))
  with round_to_mono [OF 1, of 2] round_to_mono [OF 2, of 2] round_to_mono [OF 3, of 2] show ?thesis
    by (simp add: compute_limit_price_def m)
qed

theorem limit_price_in_spread_witness:
  "100 \<le> compute_limit_price default_limit_order 100 101 ''ADAPTIVE'' 12 \<and> compute_limit_price default_limit_order 100 101 ''ADAPTIVE'' 12 \<le> 101"
  using limit_price_in_spread [of 100 10000 101 10100 12 12 default_limit_order "''ADAPTIVE''"] by (simp add: default_limit_order_def)

text \<open>
  A size taken from the Kelly formula is at least one lot and at most the configured multiple of the
  base lots, whatever the history, the capital and the risk per lot are.
\<close>

lemma kelly_lots_bounded:
  assumes "compute_kelly_lots c capital base risk results = Inr r" "\<not> kr_fallback r"
  shows "1 \<le> kr_lots r \<and> kr_lots r \<le> max 1 (py_trunc (of_int base * kc_max_mult c))"
  using assms by (rule kelly_sized) (simp add: kelly_lots_def Let_def)

text \<open>
  The two legs of a scaled entry together are the intended position, each of at least one lot,
  whenever the position has two lots or more; a position of one lot is doubled, since both legs have a
  minimum of one lot.
\<close>

lemma scalein_legs:
  assumes "0 \<le> si_first_pct c" "si_first_pct c < 1" "1 \<le> n"
  shows "1 \<le> leg1_lots c n \<and> 1 \<le> leg2_lots c n \<and> leg1_lots c n + leg2_lots c n = (if n = 1 then 2 else n)"
proof -
  have "of_int n * si_first_pct c < of_int n * 1" using assms by (intro mult_strict_left_mono) simp_all
  moreover have "0 \<le> of_int n * si_first_pct c" using assms by simp
  ultimately have "py_trunc (of_int n * si_first_pct c) < n" by (simp add: py_trunc_def floor_less_iff)
  then show ?thesis using assms(3) by (cases "n = 1") (simp_all add: leg1_lots_def leg2_lots_def)
qed

end
