(* ===== verification/Broker_Adapters.thy ===== *)
theory Broker_Adapters
  imports Trade_Entry
begin

text \<open>
  The broker adapters of \<open>core/adapters/broker_adapters.py\<close>: the wrapper through which the execution
  service sees a broker, the paper adapter, the Angel adapter and the choice between them, with the
  order path of the Kite adapter, \<open>infrastructure/adapters/brokers/kite/adapter.py\<close>.

  The SDKs of the brokers are outside the program: what they answer is an argument. Messages that are
  only logged are left out, and so are connecting and the loading of custom factories.

  The adapters are composed with the execution and position services above: what \<open>execute_order\<close> makes of a
  Kite answer and of an exception it has no clause for, and which instrument an exit trades.
\<close>

section \<open>Definitions\<close>

subsection \<open>Requests and answers of a port\<close>

record port_request =
  oq_symbol :: string
  oq_qty :: int
  oq_price :: real
  oq_order_type :: string
  oq_direction :: string
  oq_product :: string
  oq_variety :: string
  oq_tag :: string
  oq_key :: string

definition market_request :: "string \<Rightarrow> int \<Rightarrow> string \<Rightarrow> port_request" where
  "market_request symbol qty dir =
     \<lparr>oq_symbol = symbol, oq_qty = qty, oq_price = 0, oq_order_type = ''MARKET'', oq_direction = dir, oq_product = ''MIS'',
      oq_variety = ''REGULAR'', oq_tag = ''OPB_BOT'', oq_key = []\<rparr>"

text \<open>
  The status of a response is a string, or a member of the plain enum \<open>OrderStatus\<close>, which equals no
  string. A port may also answer with a bare string or truth value.
\<close>

datatype resp_status = RsText string | RsMember string

datatype port_answer = PnResponse string resp_status | PnStr string | PnBool bool

definition no_attribute :: "string \<Rightarrow> string \<Rightarrow> exn" where
  "no_attribute ty a = Exn AttributeError ([CHR 0x27] @ ty @ [CHR 0x27] @ '' object has no attribute '' @ [CHR 0x27] @ a @ [CHR 0x27])"

text \<open>\<open>response.order_id if response.status != "REJECTED" else None\<close>\<close>

fun accepted_id :: "port_answer \<Rightarrow> exn + string option" where
  "accepted_id (PnResponse oid st) = Inr (if st \<noteq> RsText ''REJECTED'' then Some oid else None)"
| "accepted_id (PnStr s) = Inl (no_attribute ''str'' ''status'')"
| "accepted_id (PnBool b) = Inl (no_attribute ''bool'' ''status'')"

subsection \<open>The paper adapter\<close>

record paper_fill =
  pf_order_id :: string
  pf_name :: string
  pf_direction :: string
  pf_strike :: int
  pf_qty :: int
  pf_mid :: real
  pf_price :: real
  pf_slippage :: real
  pf_oi :: int
  pf_volume :: int
  pf_skipped :: bool
  pf_entry :: bool

text \<open>The counter is the one of the class.\<close>

record paper_adapter =
  pa_price_getter :: "(string \<Rightarrow> string \<Rightarrow> int \<Rightarrow> exn + real option) option"
  pa_oi_getter :: "(string \<Rightarrow> string \<Rightarrow> int \<Rightarrow> exn + (int \<times> int) option) option"
  pa_slippage_pct :: real
  pa_min_oi :: int
  pa_min_vol :: int
  pa_fills :: "(string, paper_fill) dict"
  pa_counter :: int

definition new_paper :: "int \<Rightarrow> paper_adapter" where
  "new_paper counter = \<lparr>pa_price_getter = None, pa_oi_getter = None, pa_slippage_pct = 1 / 2, pa_min_oi = 500, pa_min_vol = 100, pa_fills = [],
     pa_counter = counter\<rparr>"

definition configure_paper ::
    "(string \<Rightarrow> string \<Rightarrow> int \<Rightarrow> exn + real option) option \<Rightarrow> (string \<Rightarrow> string \<Rightarrow> int \<Rightarrow> exn + (int \<times> int) option) option \<Rightarrow>
     (real \<times> int \<times> int) option \<Rightarrow> paper_adapter \<Rightarrow> paper_adapter" where
  "configure_paper price oi cfg a =
     (let a1 = (if price \<noteq> None then a\<lparr>pa_price_getter := price\<rparr> else a);
          a2 = (if oi \<noteq> None then a1\<lparr>pa_oi_getter := oi\<rparr> else a1)
      in case cfg of None \<Rightarrow> a2 | Some (sl, mo, mv) \<Rightarrow> a2\<lparr>pa_slippage_pct := sl, pa_min_oi := mo, pa_min_vol := mv\<rparr>)"

definition paper_liquidity :: "string \<Rightarrow> string \<Rightarrow> int \<Rightarrow> paper_adapter \<Rightarrow> exn + bool \<times> int \<times> int" where
  "paper_liquidity name dir strike a =
     (case pa_oi_getter a of
        None \<Rightarrow> Inr (True, 0, 0)
      | Some f \<Rightarrow>
          (case f name dir strike of
             Inl e \<Rightarrow> if caught [TypeError, ValueError, RuntimeError, OSError] e then Inr (True, 0, 0) else Inl e
           | Inr None \<Rightarrow> Inr (True, 0, 0)
           | Inr (Some (oi, vol)) \<Rightarrow> Inr (oi \<ge> pa_min_oi a \<and> vol \<ge> pa_min_vol a, oi, vol)))"

definition paper_price :: "string \<Rightarrow> string \<Rightarrow> int \<Rightarrow> bool \<Rightarrow> paper_adapter \<Rightarrow> exn + real \<times> real" where
  "paper_price name dir strike is_entry a =
     (case pa_price_getter a of
        None \<Rightarrow> Inr (0, 0)
      | Some f \<Rightarrow>
          (case f name dir strike of
             Inl e \<Rightarrow> if caught [TypeError, ValueError, ConnectionError, OSError] e then Inr (0, 0) else Inl e
           | Inr None \<Rightarrow> Inr (0, 0)
           | Inr (Some mid) \<Rightarrow>
               if mid \<le> 0 then Inr (0, 0)
               else let pct = pa_slippage_pct a / 100; fill = (if is_entry then mid * (1 + pct) else mid * (1 - pct))
                    in Inr (round_to 2 fill, round_to 2 mid)))"

definition paper_record :: "string \<Rightarrow> string \<Rightarrow> string \<Rightarrow> int \<Rightarrow> int \<Rightarrow> bool \<Rightarrow> paper_adapter \<Rightarrow> exn + paper_fill" where
  "paper_record oid name dir strike qty is_entry a =
     res_bind (paper_liquidity name dir strike a) (\<lambda>(ok, oi, vol).
     res_bind (paper_price name dir strike is_entry a) (\<lambda>(fill, mid).
       Inr \<lparr>pf_order_id = oid, pf_name = name, pf_direction = dir, pf_strike = strike, pf_qty = qty, pf_mid = mid, pf_price = fill,
            pf_slippage = (if mid > 0 then round_to 2 (fill - mid) else 0), pf_oi = oi, pf_volume = vol, pf_skipped = (\<not> ok), pf_entry = is_entry\<rparr>))"

text \<open>\<open>place_order\<close> and \<open>exit_order\<close>; the order ids differ in their prefix.\<close>

definition paper_order :: "bool \<Rightarrow> real \<Rightarrow> string \<Rightarrow> string \<Rightarrow> int \<Rightarrow> int \<Rightarrow> paper_adapter \<Rightarrow> (exn + string) \<times> paper_adapter" where
  "paper_order is_entry now name dir qty strike a =
     (let c = pa_counter a + 1; a1 = a\<lparr>pa_counter := c\<rparr>;
          oid = (if is_entry then ''PAPER_'' else ''PAPER_EXIT_'') @ show_int (py_trunc (now * 1000)) @ ''_'' @ show_int c
      in case paper_record oid name dir strike qty is_entry a1 of
          Inl e \<Rightarrow> (Inl e, a1)
        | Inr f \<Rightarrow> (Inr oid, a1\<lparr>pa_fills := dict_set oid f (pa_fills a1)\<rparr>))"

definition paper_place_order :: "real \<Rightarrow> string \<Rightarrow> string \<Rightarrow> int \<Rightarrow> int \<Rightarrow> paper_adapter \<Rightarrow> (exn + string) \<times> paper_adapter" where
  "paper_place_order = paper_order True"

definition paper_exit_order :: "real \<Rightarrow> string \<Rightarrow> string \<Rightarrow> int \<Rightarrow> int \<Rightarrow> paper_adapter \<Rightarrow> (exn + string) \<times> paper_adapter" where
  "paper_exit_order = paper_order False"

definition paper_fill_price :: "string \<Rightarrow> paper_adapter \<Rightarrow> real option" where
  "paper_fill_price oid a = (case map_of (pa_fills a) oid of Some f \<Rightarrow> if pf_price f > 0 then Some (pf_price f) else None | None \<Rightarrow> None)"

definition paper_filled_quantity :: "string \<Rightarrow> paper_adapter \<Rightarrow> int option" where
  "paper_filled_quantity oid a =
     (case map_of (pa_fills a) oid of None \<Rightarrow> None | Some f \<Rightarrow> Some (if pf_skipped f then 0 else pf_qty f))"

record paper_stats =
  st_fills :: int
  st_avg_slippage :: real
  st_skipped :: int

definition paper_fill_stats :: "paper_adapter \<Rightarrow> paper_stats" where
  "paper_fill_stats a =
     (let fs = map snd (pa_fills a); sl = map (\<lambda>f. pf_slippage f / pf_mid f * 100) (filter (\<lambda>f. pf_mid f > 0) fs)
      in if fs = [] then \<lparr>st_fills = 0, st_avg_slippage = 0, st_skipped = 0\<rparr>
         else \<lparr>st_fills = int (length fs), st_avg_slippage = (if sl = [] then 0 else round_to 4 (sum_list sl / real (length sl))),
               st_skipped = int (length (filter pf_skipped fs))\<rparr>)"

subsection \<open>The Angel adapter\<close>

text \<open>A call through the circuit breaker, where there is one; \<open>r\<close> is its outcome, \<open>None\<close> a blocked call.\<close>

definition cb_protected :: "bool \<Rightarrow> exn + 'a \<Rightarrow> exn + 'a option" where
  "cb_protected has_cb r =
     (case r of
        Inr x \<Rightarrow> Inr (Some x)
      | Inl e \<Rightarrow>
          if has_cb \<and> caught [OSError, ConnectionError, TimeoutError, RuntimeError] e \<and>
             (str_contains ''Circuit breaker is OPEN'' (exn_msg e) \<or> str_contains ''CIRCUIT_OPEN'' (exn_msg e))
          then Inr None else Inl e)"

record angel =
  an_ready :: bool
  an_breaker :: bool
  an_index_map :: "(string, string) dict"
  an_expiry :: "string \<Rightarrow> string"

definition angel_symbol :: "angel \<Rightarrow> string \<Rightarrow> string \<Rightarrow> int \<Rightarrow> exn + string" where
  "angel_symbol a name dir strike =
     (case map_of (an_index_map a) name of
        None \<Rightarrow> Inl (Exn ValueError (''Unknown index '' @ name))
      | Some nse \<Rightarrow>
          if nse = [] then Inl (Exn ValueError (''Unknown index '' @ name))
          else Inr (nse @ an_expiry a name @ show_int strike @ (if dir = ''CALL'' then ''CE'' else ''PE'')))"

text \<open>
  The payload of an order (the other entries are constant) and the answer of the SDK: nothing, a
  dictionary with its \<open>data\<close> (absent, null or with an order id), its own order id and its printed form, or
  another value, printed.
\<close>

record angel_payload =
  ay_symbol :: string
  ay_side :: string
  ay_quantity :: string

datatype angel_data = AdAbsent | AdNull | AdDict "string option"

datatype angel_answer = AaNothing | AaDict angel_data "string option" string | AaOther string

fun angel_order_id :: "angel_answer \<Rightarrow> exn + string option" where
  "angel_order_id AaNothing = Inr None"
| "angel_order_id (AaOther txt) = Inr (Some txt)"
| "angel_order_id (AaDict AdNull oid txt) = Inl (no_attribute ''NoneType'' ''get'')"
| "angel_order_id (AaDict d oid txt) =
     (let inner = (case d of AdDict i \<Rightarrow> i | _ \<Rightarrow> None); s = str_strip (str_or inner (str_or oid []))
      in Inr (Some (if s = [] then txt else s)))"

definition angel_order :: "(angel_payload \<Rightarrow> exn + angel_answer) \<Rightarrow> string \<Rightarrow> string \<Rightarrow> string \<Rightarrow> int \<Rightarrow> int \<Rightarrow> angel \<Rightarrow> exn + string option" where
  "angel_order call side name dir qty strike a =
     (if \<not> an_ready a then Inr None
      else case res_bind (angel_symbol a name dir strike) (\<lambda>sym.
               res_bind (cb_protected (an_breaker a) (call \<lparr>ay_symbol = sym, ay_side = side, ay_quantity = show_int qty\<rparr>)) (\<lambda>r.
                 case r of None \<Rightarrow> Inr None | Some x \<Rightarrow> angel_order_id x)) of
          Inl e \<Rightarrow> if caught [KeyError, TypeError, ValueError, OSError, ConnectionError] e then Inr None else Inl e
        | Inr r \<Rightarrow> Inr r)"

definition angel_place_order :: "(angel_payload \<Rightarrow> exn + angel_answer) \<Rightarrow> string \<Rightarrow> string \<Rightarrow> int \<Rightarrow> int \<Rightarrow> angel \<Rightarrow> exn + string option" where
  "angel_place_order call = angel_order call ''BUY''"

definition angel_exit_order :: "(angel_payload \<Rightarrow> exn + angel_answer) \<Rightarrow> string \<Rightarrow> string \<Rightarrow> int \<Rightarrow> int \<Rightarrow> angel \<Rightarrow> exn + string option" where
  "angel_exit_order call = angel_order call ''SELL''"

text \<open>\<open>book\<close> is the outcome of the order book query, an empty list for a missing one.\<close>

definition angel_rows :: "exn + jdict list \<Rightarrow> angel \<Rightarrow> exn + jdict list" where
  "angel_rows book a =
     (if \<not> an_ready a then Inr []
      else case cb_protected (an_breaker a) book of
          Inl e \<Rightarrow> if caught [KeyError, TypeError, ValueError, OSError, ConnectionError] e then Inr [] else Inl e
        | Inr None \<Rightarrow> Inr []
        | Inr (Some rows) \<Rightarrow> Inr rows)"

definition angel_row :: "string \<Rightarrow> jdict list \<Rightarrow> jdict option" where
  "angel_row oid rows = find (\<lambda>r. py_str (jget r ''orderid'' (JStr [])) = oid) rows"

definition angel_status :: "exn + jdict list \<Rightarrow> string \<Rightarrow> angel \<Rightarrow> exn + string" where
  "angel_status book oid a =
     res_bind (angel_rows book a) (\<lambda>rows.
       Inr (case angel_row oid rows of
           None \<Rightarrow> ''UNKNOWN''
         | Some r \<Rightarrow>
             let st = str_upper (py_str (jget r ''orderstatus'' (JStr ''UNKNOWN'')))
             in if str_contains ''COMPLETE'' st then ''COMPLETE'' else if str_contains ''REJECTED'' st then ''REJECTED'' else st))"

definition angel_fill_price :: "exn + jdict list \<Rightarrow> string \<Rightarrow> angel \<Rightarrow> exn + pyfloat option" where
  "angel_fill_price book oid a =
     res_bind (angel_rows book a) (\<lambda>rows.
       Inr (case angel_row oid rows of
           None \<Rightarrow> None
         | Some r \<Rightarrow>
             let v = jget r ''averageprice'' JNull
             in case py_float (if jval_true v then v else JInt 0) of Inl e \<Rightarrow> None | Inr x \<Rightarrow> if x = Fin 0 then None else Some x))"

definition angel_filled_quantity :: "exn + jdict list \<Rightarrow> string \<Rightarrow> angel \<Rightarrow> exn + int option" where
  "angel_filled_quantity book oid a =
     res_bind (angel_rows book a) (\<lambda>rows.
       case angel_row oid rows of
         None \<Rightarrow> Inr None
       | Some r \<Rightarrow>
           let v = jget r ''filledshares'' JNull; w = jget r ''filled_qty'' JNull; u = (if jval_true v then v else if jval_true w then w else JInt 0)
           in case res_bind (py_float u) (\<lambda>x. py_int (JFloat x [])) of
               Inl e \<Rightarrow> if caught [TypeError, ValueError, KeyError] e then Inr None else Inl e
             | Inr n \<Rightarrow> Inr (Some n))"

text \<open>
  The waiting loop. A round sees whether to stop, what the status query answers and how long it takes;
  \<open>t\<close> is the time since the start. Rounds that run out before the loop ends give \<open>None\<close>.
\<close>

record wait_round =
  wr_stop :: bool
  wr_status :: "exn + string"
  wr_busy :: real

fun angel_wait :: "int \<Rightarrow> real \<Rightarrow> real \<Rightarrow> wait_round list \<Rightarrow> (exn + bool) option" where
  "angel_wait timeout poll t rs =
     (if \<not> t < of_int (max (timeout * 3) 30) then Some (Inr False)
      else case rs of
          [] \<Rightarrow> None
        | r # rs' \<Rightarrow>
            if wr_stop r then Some (Inr False)
            else case wr_status r of
                Inl e \<Rightarrow> Some (Inl e)
              | Inr st \<Rightarrow>
                  if st \<in> {''COMPLETE'', ''FILLED'', ''TRIGGER PENDING''} then Some (Inr True)
                  else if st \<in> {''CANCELLED'', ''REJECTED''} then Some (Inr False)
                  else if t + wr_busy r > of_int timeout then Some (Inr False)
                  else angel_wait timeout poll (t + wr_busy r + poll) rs')"

declare angel_wait.simps [simp del]

subsection \<open>Orders of the Kite adapter\<close>

definition kite_classify :: "exn \<Rightarrow> string" where
  "kite_classify e =
     (let m = str_lower (exn_msg e); c = exn_cls e; has = (\<lambda>ps. list_ex (\<lambda>p. str_contains p m) ps)
      in if c = OtherExn ''TokenException'' then ''TOKEN_EXPIRED''
         else if c = OtherExn ''OrderException'' then ''ORDER_ERROR''
         else if c = OtherExn ''NetworkException'' then ''NETWORK''
         else if c = OtherExn ''InputException'' then ''INPUT_ERROR''
         else if c = OtherExn ''DataException'' then ''DATA_ERROR''
         else if c = OtherExn ''PermissionException'' then ''PERMISSION_ERROR''
         else if has [''token'', ''auth''] then ''TOKEN_EXPIRED''
         else if has [''timeout'', ''timed out''] then ''TIMEOUT''
         else if has [''rate'', ''limit''] then ''RATE_LIMITED''
         else if has [''rejected''] then ''ORDER_REJECTED''
         else if has [''margin'', ''insufficient''] then ''MARGIN_INSUFFICIENT''
         else ''UNKNOWN'')"

text \<open>\<open>call i\<close> is the outcome of the \<open>i\<close>-th attempt; the second component counts the attempts made.\<close>

fun kite_attempts :: "(nat \<Rightarrow> exn + 'a) \<Rightarrow> nat \<Rightarrow> nat \<Rightarrow> exn \<Rightarrow> (exn + 'a) \<times> nat" where
  "kite_attempts call i 0 last_exc = (Inl last_exc, i)"
| "kite_attempts call i (Suc n) last_exc =
     (case call i of
        Inr x \<Rightarrow> (Inr x, Suc i)
      | Inl e \<Rightarrow>
          if kite_classify e \<in> {''TOKEN_EXPIRED'', ''PERMISSION_ERROR'', ''INPUT_ERROR''} then (Inl e, Suc i)
          else kite_attempts call (Suc i) n e)"

definition kite_request :: "nat \<Rightarrow> (nat \<Rightarrow> exn + 'a) \<Rightarrow> (exn + 'a) \<times> nat" where
  "kite_request retries call =
     (case kite_attempts call 0 retries (Exn (OtherExn ''NoneType'') ''None'') of
        (Inr x, n) \<Rightarrow> (Inr x, n)
      | (Inl e, n) \<Rightarrow>
          (Inl (Exn RuntimeError (''Kite API call failed after '' @ show_int (int retries) @ '' retries: '' @ kite_classify e @ '' - '' @ exn_msg e)), n))"

record kite =
  kt_connected :: bool
  kt_token :: "string \<Rightarrow> int option"
  kt_retries :: nat

record kite_order =
  ko_exchange :: string
  ko_symbol :: string
  ko_side :: string
  ko_quantity :: int
  ko_product :: string
  ko_order_type :: string
  ko_price :: real
  ko_trigger :: real
  ko_tag :: string

text \<open>
  \<open>getattr\<close> with a default on the request of the wrapper, which has no attributes \<open>exchange\<close>, \<open>quantity\<close> and
  \<open>trigger_price\<close>.
\<close>

definition kite_payload :: "port_request \<Rightarrow> kite_order" where
  "kite_payload rq =
     \<lparr>ko_exchange = ''NSE'', ko_symbol = oq_symbol rq, ko_side = (if str_upper (oq_direction rq) = ''BUY'' then ''BUY'' else ''SELL''),
      ko_quantity = 1, ko_product = oq_product rq,
      ko_order_type = (if oq_order_type rq \<in> {''LIMIT'', ''SL'', ''SL-M''} then oq_order_type rq else ''MARKET''),
      ko_price = oq_price rq, ko_trigger = 0, ko_tag = oq_tag rq\<rparr>"

text \<open>The result, and the orders sent.\<close>

definition kite_place_order :: "kite \<Rightarrow> (nat \<Rightarrow> exn + string) \<Rightarrow> port_request \<Rightarrow> (exn + string) \<times> kite_order list" where
  "kite_place_order c call rq =
     (if \<not> kt_connected c then (Inl (Exn RuntimeError ''Kite adapter is not connected - call connect() first''), [])
      else if kt_token c (oq_symbol rq) = None then (Inl (Exn RuntimeError (''Cannot resolve instrument token for '' @ oq_symbol rq)), [])
      else case kite_request (kt_retries c) call of (r, n) \<Rightarrow> (r, replicate n (kite_payload rq)))"

text \<open>The other methods; every exception of a request ends as a \<open>RuntimeError\<close>, which they catch.\<close>

definition kite_done :: "kite \<Rightarrow> (nat \<Rightarrow> exn + unit) \<Rightarrow> bool" where
  "kite_done c call = (kt_connected c \<and> (case fst (kite_request (kt_retries c) call) of Inl _ \<Rightarrow> False | Inr _ \<Rightarrow> True))"

definition kite_rows :: "kite \<Rightarrow> (nat \<Rightarrow> exn + jdict list) \<Rightarrow> jdict list option" where
  "kite_rows c call =
     (if \<not> kt_connected c then None else case fst (kite_request (kt_retries c) call) of Inl _ \<Rightarrow> None | Inr rows \<Rightarrow> Some rows)"

definition kite_row :: "string \<Rightarrow> jdict list \<Rightarrow> jdict option" where
  "kite_row oid rows = find (\<lambda>r. map_of r ''order_id'' = Some (JStr oid)) rows"

definition kite_status :: "kite \<Rightarrow> (nat \<Rightarrow> exn + jdict list) \<Rightarrow> string \<Rightarrow> string" where
  "kite_status c call oid =
     (case kite_rows c call of
        None \<Rightarrow> ''ERROR''
      | Some rows \<Rightarrow> (case kite_row oid rows of None \<Rightarrow> ''UNKNOWN'' | Some r \<Rightarrow> py_str (jget r ''status'' (JStr ''UNKNOWN''))))"

definition kite_fill_price :: "kite \<Rightarrow> (nat \<Rightarrow> exn + jdict list) \<Rightarrow> string \<Rightarrow> pyfloat option" where
  "kite_fill_price c call oid =
     (case kite_rows c call of
        None \<Rightarrow> None
      | Some rows \<Rightarrow>
          (case kite_row oid rows of
             None \<Rightarrow> None
           | Some r \<Rightarrow>
               let v = jget r ''average_price'' JNull
               in case py_float (if jval_true v then v else JInt 0) of Inl e \<Rightarrow> None | Inr x \<Rightarrow> if x = Fin 0 then None else Some x))"

definition kite_filled_quantity :: "kite \<Rightarrow> (nat \<Rightarrow> exn + jdict list) \<Rightarrow> string \<Rightarrow> exn + int option" where
  "kite_filled_quantity c call oid =
     (case kite_rows c call of
        None \<Rightarrow> Inr None
      | Some rows \<Rightarrow>
          (case kite_row oid rows of
             None \<Rightarrow> Inr None
           | Some r \<Rightarrow>
               let v = jget r ''filled_quantity'' JNull
               in case py_int (if jval_true v then v else JInt 0) of
                   Inl e \<Rightarrow> if caught [TypeError, ValueError] e then Inr None else Inl e
                 | Inr n \<Rightarrow> Inr (Some n)))"

subsection \<open>The wrapper\<close>

text \<open>
  The port inside the wrapper: the paper adapter, the Angel adapter, whose \<open>place_order\<close> takes four
  arguments, or an adapter that takes a request.
\<close>

record request_port =
  rp_place :: "port_request \<Rightarrow> exn + port_answer"
  rp_cancel :: "string \<Rightarrow> exn + port_answer"
  rp_status :: "string \<Rightarrow> exn + port_answer"
  rp_modify_quantity :: "string \<Rightarrow> exn + port_answer"
  rp_modify_qty :: "string \<Rightarrow> exn + port_answer"
  rp_fill_price :: "(string \<Rightarrow> exn + pyfloat option) option"
  rp_filled_quantity :: "(string \<Rightarrow> exn + int option) option"

datatype wrapped = WrPaper paper_adapter | WrAngel angel | WrPort request_port

definition option_symbol :: "string \<Rightarrow> string \<Rightarrow> int \<Rightarrow> string" where
  "option_symbol name dir strike = name @ ''_'' @ show_int strike @ ''_'' @ (if dir = ''CALL'' then ''CE'' else ''PE'')"

text \<open>The order a port gets for a purchase of \<open>dir\<close>, in both ways of calling \<open>place_order\<close>.\<close>

definition option_order :: "string \<Rightarrow> string \<Rightarrow> int \<Rightarrow> int \<Rightarrow> port_request" where
  "option_order name dir qty strike = market_request (option_symbol name dir strike) qty (if dir = ''CALL'' then ''BUY'' else ''SELL'')"

definition request_order :: "x_request \<Rightarrow> port_request" where
  "request_order rq =
     option_order (xr_symbol rq) (if str_upper (xr_direction rq) = ''BUY'' then ''CALL'' else ''PUT'') (xr_lot_size rq) (py_trunc (xr_strike_price rq))"

definition arguments_missing :: exn where
  "arguments_missing = Exn TypeError ''place_order() missing 3 required positional arguments''"

definition wrapper_place_order :: "real \<Rightarrow> string \<Rightarrow> string \<Rightarrow> int \<Rightarrow> int \<Rightarrow> wrapped \<Rightarrow> (exn + string option) \<times> wrapped" where
  "wrapper_place_order now name dir qty strike w =
     (case w of
        WrPaper a \<Rightarrow> (case paper_place_order now name dir qty strike a of (r, a') \<Rightarrow> (res_bind r (\<lambda>oid. Inr (Some oid)), WrPaper a'))
      | WrAngel a \<Rightarrow> (Inl arguments_missing, w)
      | WrPort p \<Rightarrow>
          (res_bind (rp_place p (option_order name dir qty strike)) accepted_id, w))"

text \<open>The same method called with a request of the execution service.\<close>

definition wrapper_place_request :: "real \<Rightarrow> x_request \<Rightarrow> wrapped \<Rightarrow> (exn + string option) \<times> wrapped" where
  "wrapper_place_request now rq =
     wrapper_place_order now (xr_symbol rq) (if str_upper (xr_direction rq) = ''BUY'' then ''CALL'' else ''PUT'') (xr_lot_size rq)
       (py_trunc (xr_strike_price rq))"

definition wrapper_exit_order :: "real \<Rightarrow> string \<Rightarrow> string \<Rightarrow> int \<Rightarrow> int \<Rightarrow> wrapped \<Rightarrow> (exn + string option) \<times> wrapped" where
  "wrapper_exit_order now name dir qty strike w =
     (case w of
        WrPaper a \<Rightarrow> (case paper_exit_order now name dir qty strike a of (r, a') \<Rightarrow> (res_bind r (\<lambda>oid. Inr (Some oid)), WrPaper a'))
      | WrAngel a \<Rightarrow> (Inl arguments_missing, w)
      | WrPort p \<Rightarrow>
          (res_bind (rp_place p (market_request (option_symbol name dir strike) qty (if dir = ''CALL'' then ''SELL'' else ''BUY''))) accepted_id, w))"

text \<open>The Angel adapter inherits the wrapper's methods, but has no \<open>_port\<close>.\<close>

definition wrapper_cancel_order :: "string \<Rightarrow> wrapped \<Rightarrow> exn + bool" where
  "wrapper_cancel_order oid w =
     (case w of
        WrPaper a \<Rightarrow> Inr True
      | WrAngel a \<Rightarrow> Inl (no_attribute ''AngelBrokerAdapter'' ''_port'')
      | WrPort p \<Rightarrow> res_bind (rp_cancel p oid) (\<lambda>r. Inr (case r of
            PnResponse _ st \<Rightarrow> st = RsText ''CANCELLED'' | PnStr s \<Rightarrow> s \<noteq> [] | PnBool b \<Rightarrow> b)))"

definition status_upper :: "resp_status \<Rightarrow> string" where
  "status_upper st = (case st of RsText s \<Rightarrow> str_upper s | RsMember m \<Rightarrow> ''ORDERSTATUS.'' @ str_upper m)"

definition modified :: "port_answer \<Rightarrow> bool" where
  "modified r = (case r of PnResponse _ st \<Rightarrow> status_upper st \<in> {''MODIFIED'', ''ACCEPTED'', ''SUCCESS''} | PnStr s \<Rightarrow> s \<noteq> [] | PnBool b \<Rightarrow> b)"

text \<open>First with the keyword \<open>quantity\<close>, after a \<open>TypeError\<close> with \<open>qty\<close>.\<close>

definition wrapper_modify_order :: "string \<Rightarrow> wrapped \<Rightarrow> exn + bool" where
  "wrapper_modify_order oid w =
     (case w of
        WrPaper a \<Rightarrow> Inr True
      | WrAngel a \<Rightarrow> Inr False
      | WrPort p \<Rightarrow>
          (case (case rp_modify_quantity p oid of
                   Inl e \<Rightarrow> if caught [TypeError] e then rp_modify_qty p oid else Inl e
                 | Inr r \<Rightarrow> Inr r) of
             Inl e \<Rightarrow> if caught [AttributeError, TypeError] e then Inr False else Inl e
           | Inr r \<Rightarrow> Inr (modified r)))"

definition wrapper_fill_price :: "exn + jdict list \<Rightarrow> string \<Rightarrow> wrapped \<Rightarrow> exn + pyfloat option" where
  "wrapper_fill_price book oid w =
     (case w of
        WrPaper a \<Rightarrow> Inr (map_option Fin (paper_fill_price oid a))
      | WrAngel a \<Rightarrow> angel_fill_price book oid a
      | WrPort p \<Rightarrow> (case rp_fill_price p of None \<Rightarrow> Inr (Some (Fin 0)) | Some f \<Rightarrow> f oid))"

definition wrapper_filled_quantity :: "exn + jdict list \<Rightarrow> string \<Rightarrow> wrapped \<Rightarrow> exn + int option" where
  "wrapper_filled_quantity book oid w =
     (case w of
        WrPaper a \<Rightarrow> Inr (paper_filled_quantity oid a)
      | WrAngel a \<Rightarrow> angel_filled_quantity book oid a
      | WrPort p \<Rightarrow> (case rp_filled_quantity p of None \<Rightarrow> Inr (Some 0) | Some f \<Rightarrow> f oid))"

text \<open>\<open>response.status\<close>, where both inline adapters return strings.\<close>

definition status_of_answer :: "port_answer \<Rightarrow> exn + resp_status" where
  "status_of_answer r =
     (case r of PnResponse _ st \<Rightarrow> Inr st | PnStr _ \<Rightarrow> Inl (no_attribute ''str'' ''status'') | PnBool _ \<Rightarrow> Inl (no_attribute ''bool'' ''status''))"

definition wrapper_order_status :: "exn + jdict list \<Rightarrow> string \<Rightarrow> wrapped \<Rightarrow> exn + resp_status" where
  "wrapper_order_status book oid w =
     (case w of
        WrPaper a \<Rightarrow> status_of_answer (PnStr ''COMPLETE'')
      | WrAngel a \<Rightarrow> res_bind (angel_status book oid a) (\<lambda>s. status_of_answer (PnStr s))
      | WrPort p \<Rightarrow> res_bind (rp_status p oid) status_of_answer)"

text \<open>
  The Kite adapter as a port: it returns bare order ids, statuses and truth values, and its \<open>modify_order\<close>
  has neither of the keywords \<open>order_type\<close> and \<open>qty\<close>. The SDK's answers, by attempt:
\<close>

record kite_sdk =
  ks_place :: "nat \<Rightarrow> exn + string"
  ks_cancel :: "nat \<Rightarrow> exn + unit"
  ks_orders :: "nat \<Rightarrow> exn + jdict list"

definition kite_port :: "kite \<Rightarrow> kite_sdk \<Rightarrow> request_port" where
  "kite_port c k =
     \<lparr>rp_place = (\<lambda>rq. res_bind (fst (kite_place_order c (ks_place k) rq)) (\<lambda>oid. Inr (PnStr oid))),
      rp_cancel = (\<lambda>_. Inr (PnBool (kite_done c (ks_cancel k)))),
      rp_status = (\<lambda>oid. Inr (PnStr (kite_status c (ks_orders k) oid))),
      rp_modify_quantity = (\<lambda>_. Inl (Exn TypeError ''unexpected keyword argument order_type'')),
      rp_modify_qty = (\<lambda>_. Inl (Exn TypeError ''unexpected keyword argument qty'')),
      rp_fill_price = Some (\<lambda>oid. Inr (kite_fill_price c (ks_orders k) oid)),
      rp_filled_quantity = Some (kite_filled_quantity c (ks_orders k))\<rparr>"

text \<open>The wrapper as the broker port of the execution service.\<close>

definition place_answer_of :: "exn + string option \<Rightarrow> exn + place_answer" where
  "place_answer_of r = res_bind r (\<lambda>oid. Inr (case oid of None \<Rightarrow> PaOther ''NoneType'' | Some s \<Rightarrow> PaId s))"

definition wrapper_place :: "real \<Rightarrow> wrapped \<Rightarrow> x_request \<Rightarrow> exn + place_answer" where
  "wrapper_place now w rq = place_answer_of (fst (wrapper_place_request now rq w))"

subsection \<open>The choice of an adapter\<close>

datatype adapter_kind = AK_PAPER | AK_WRAPPED_PAPER | AK_ANGEL | AK_LIVE string | AK_CUSTOM

text \<open>
  \<open>dr_ready\<close> is the outcome of the readiness check, \<open>dr_custom\<close> the custom factory where one is configured
  (\<open>None\<close> if it was not found), as the outcome of its call: whether it returned a broker port.
\<close>

record driver_setup =
  dr_driver :: string
  dr_cfg_driver :: string
  dr_api :: bool
  dr_paper :: bool
  dr_manual :: bool
  dr_mode :: string
  dr_lockout :: bool
  dr_ready :: "exn + bool"
  dr_custom :: "(exn + bool) option option"

definition paper_drivers :: "string list" where
  "paper_drivers = [''PAPER'', ''SIM'', ''TEST'', '''']"

definition live_drivers :: "string list" where
  "live_drivers = [''KITE'', ''MSTOCK'', ''IIFL'', ''GROWW'', ''UPSTOX'', ''DHAN'', ''ICICIDIRECT'', ''ICICI_DIRECT'', ''BREEZE'']"

definition readiness_refuses :: "driver_setup \<Rightarrow> bool" where
  "readiness_refuses d \<longleftrightarrow>
     str_upper (if dr_driver d = [] then dr_cfg_driver d else dr_driver d) \<notin> set paper_drivers \<and> \<not> dr_manual d \<and> dr_api d \<and> \<not> dr_paper d \<and>
     dr_ready d \<noteq> Inr True"

definition create_broker_adapter :: "driver_setup \<Rightarrow> exn + adapter_kind" where
  "create_broker_adapter d =
     (if dr_lockout d then Inr AK_PAPER
      else if readiness_refuses d then Inr AK_PAPER
      else if dr_manual d \<or> dr_mode d = ''SIGNAL_ONLY'' then Inr AK_PAPER
      else if \<not> (dr_api d \<and> \<not> dr_paper d) then Inr AK_PAPER
      else case dr_custom d of
          Some None \<Rightarrow> Inr AK_PAPER
        | Some (Some r) \<Rightarrow>
            (case r of
               Inl e \<Rightarrow> if caught [ImportError, TypeError, AttributeError, OSError, ConnectionError] e then Inr AK_PAPER else Inl e
             | Inr b \<Rightarrow> Inr (if b then AK_CUSTOM else AK_PAPER))
        | None \<Rightarrow>
            let n = str_upper (if dr_driver d = [] then ''GENERIC'' else dr_driver d)
            in Inr (if n = ''ANGEL'' then AK_ANGEL else if n \<in> set live_drivers then AK_LIVE n else AK_WRAPPED_PAPER))"

section \<open>Lemmas\<close>

subsection \<open>The paper adapter\<close>

datatype paper_op = PoPlace bool real string string int int | PoConfigure real int int

fun paper_step :: "paper_op \<Rightarrow> paper_adapter \<Rightarrow> paper_adapter" where
  "paper_step (PoPlace is_entry now name dir qty strike) a = snd (paper_order is_entry now name dir qty strike a)"
| "paper_step (PoConfigure sl mo mv) a = configure_paper None None (Some (sl, mo, mv)) a"

definition fill_ok :: "string \<Rightarrow> paper_fill \<Rightarrow> bool" where
  "fill_ok oid f \<longleftrightarrow> pf_order_id f = oid \<and> 0 \<le> pf_mid f \<and> (if pf_entry f then pf_mid f \<le> pf_price f else pf_price f \<le> pf_mid f)"

lemma paper_price_side:
  assumes "paper_price name dir strike is_entry a = Inr (fill, mid)" "0 \<le> pa_slippage_pct a"
  shows "0 \<le> mid" "is_entry \<Longrightarrow> mid \<le> fill" "\<not> is_entry \<Longrightarrow> fill \<le> mid"
proof -
  have up: "round_to 2 m \<le> round_to 2 (m * (1 + pa_slippage_pct a / 100))" if "0 < m" for m
    using that assms(2) by (intro round_to_mono) (simp add: algebra_simps)
  have down: "round_to 2 (m * (1 - pa_slippage_pct a / 100)) \<le> round_to 2 m" if "0 < m" for m
    using that assms(2) by (intro round_to_mono) (simp add: algebra_simps)
  show "0 \<le> mid" "is_entry \<Longrightarrow> mid \<le> fill" "\<not> is_entry \<Longrightarrow> fill \<le> mid"
    using assms(1) up down round_to_nonneg
    by (auto simp: paper_price_def Let_def split: option.splits sum.splits if_splits)
qed

lemma paper_record_ok:
  assumes "paper_record oid name dir strike qty is_entry a = Inr f" "0 \<le> pa_slippage_pct a"
  shows "fill_ok oid f"
proof -
  obtain ok oi vol fill mid where "paper_liquidity name dir strike a = Inr (ok, oi, vol)" "paper_price name dir strike is_entry a = Inr (fill, mid)"
    "pf_order_id f = oid" "pf_mid f = mid" "pf_price f = fill" "pf_entry f = is_entry"
    using assms(1) by (auto simp: paper_record_def res_bind_Inr)
  with paper_price_side [of name dir strike is_entry a fill mid] assms(2) show ?thesis by (cases is_entry) (simp_all add: fill_ok_def)
qed

definition paper_ok :: "paper_adapter \<Rightarrow> bool" where
  "paper_ok a \<longleftrightarrow> (\<forall>oid f. map_of (pa_fills a) oid = Some f \<longrightarrow> fill_ok oid f)"

lemma paper_order_ok:
  assumes "paper_ok a" "0 \<le> pa_slippage_pct a"
  shows "paper_ok (snd (paper_order is_entry now name dir qty strike a))"
    "pa_slippage_pct (snd (paper_order is_entry now name dir qty strike a)) = pa_slippage_pct a"
  using assms paper_record_ok [of _ name dir strike qty is_entry "a\<lparr>pa_counter := pa_counter a + 1\<rparr>"]
  by (auto simp: paper_order_def Let_def paper_ok_def split: sum.split)

lemma paper_run_ok:
  assumes "paper_ok a" "0 \<le> pa_slippage_pct a" "\<And>sl mo mv. PoConfigure sl mo mv \<in> set ops \<Longrightarrow> 0 \<le> sl"
  shows "paper_ok (fold paper_step ops a)"
  using assms
proof (induction ops arbitrary: a)
  case (Cons p ops)
  have "paper_ok (paper_step p a) \<and> 0 \<le> pa_slippage_pct (paper_step p a)"
  proof (cases p)
    case (PoPlace e now name dir qty strike)
    then show ?thesis using paper_order_ok [OF Cons.prems(1,2)] Cons.prems(2) by simp
  next
    case (PoConfigure sl mo mv)
    then have "0 \<le> sl" using Cons.prems(3) [of sl mo mv] by simp
    then show ?thesis using PoConfigure Cons.prems(1) by (simp add: configure_paper_def paper_ok_def)
  qed
  then show ?case using Cons.IH Cons.prems(3) by auto
qed simp

subsection \<open>Kite requests\<close>

lemma kite_attempts_count: "kite_attempts call i n l = (r, c) \<Longrightarrow> i \<le> c \<and> c \<le> i + n \<and> (r = Inr x \<longrightarrow> i < c)"
proof (induction n arbitrary: i l)
  case (Suc n)
  show ?case
  proof (cases "call i")
    case (Inl e)
    then show ?thesis using Suc.IH [of "Suc i" e] Suc.prems by (auto split: if_splits)
  qed (use Suc.prems in auto)
qed auto

lemma kite_request_count: "kite_request n call = (r, c) \<Longrightarrow> c \<le> n \<and> (r = Inr x \<longrightarrow> 0 < c)"
  using kite_attempts_count [of call 0 n _ _ _ x] by (fastforce simp: kite_request_def split: prod.splits sum.splits)

lemma kite_request_raises: "fst (kite_request n call) = Inl e \<Longrightarrow> exn_cls e = RuntimeError"
  by (auto simp: kite_request_def split: prod.splits sum.splits)

lemma kite_order_raises: "fst (kite_place_order c call rq) = Inl e \<Longrightarrow> exn_cls e = RuntimeError"
  by (auto simp: kite_place_order_def kite_request_raises split: if_splits prod.splits) (metis fst_conv kite_request_raises)

text \<open>Failures that are retried: a timeout after the broker took the order sends it again.\<close>

lemma kite_attempts_retried:
  assumes "\<And>j. i \<le> j \<Longrightarrow> j < i + m \<Longrightarrow> \<exists>e. call j = Inl e \<and> kite_classify e \<notin> {''TOKEN_EXPIRED'', ''PERMISSION_ERROR'', ''INPUT_ERROR''}"
    and "call (i + m) = Inr x" "m < n"
  shows "kite_attempts call i n l = (Inr x, Suc (i + m))"
  using assms
proof (induction m arbitrary: i n l)
  case 0
  then show ?case by (cases n) auto
next
  case (Suc m)
  obtain e where e: "call i = Inl e" "kite_classify e \<notin> {''TOKEN_EXPIRED'', ''PERMISSION_ERROR'', ''INPUT_ERROR''}" using Suc.prems(1) [of i] by auto
  obtain n' where n: "n = Suc n'" using Suc.prems(3) by (cases n) auto
  have "kite_attempts call (Suc i) n' e = (Inr x, Suc (Suc i + m))"
    using Suc.prems by (intro Suc.IH) (auto simp: n)
  with e n show ?case by simp
qed

lemma timeout_resends_order:
  assumes "kt_connected c" "kt_token c (oq_symbol rq) \<noteq> None" "1 < kt_retries c"
    and "call 0 = Inl (Exn (OtherExn ''ReadTimeout'') ''read timed out'')" "call 1 = Inr oid"
  shows "kite_place_order c call rq = (Inr oid, [kite_payload rq, kite_payload rq])"
proof -
  have "kite_classify (Exn (OtherExn ''ReadTimeout'') ''read timed out'') = ''TIMEOUT''" by code_simp
  then have "kite_attempts call 0 (kt_retries c) l = (Inr oid, Suc (0 + 1))" for l
    using assms(3-5) by (intro kite_attempts_retried) auto
  with assms(1,2) show ?thesis by (simp add: kite_place_order_def kite_request_def numeral_2_eq_2)
qed

subsection \<open>The wait of the Angel adapter\<close>

lemma angel_wait_ends:
  assumes "0 < poll" "list_all (\<lambda>r. 0 \<le> wr_busy r) rs" "of_int (max (timeout * 3) 30) - t \<le> of_nat (length rs) * poll"
  shows "angel_wait timeout poll t rs \<noteq> None"
  using assms(2,3)
proof (induction rs arbitrary: t)
  case Nil
  then show ?case by (simp add: angel_wait.simps)
next
  case (Cons r rs)
  have "angel_wait timeout poll (t + wr_busy r + poll) rs \<noteq> None"
    using Cons.prems by (intro Cons.IH) (auto simp: algebra_simps)
  then show ?case by (simp add: angel_wait.simps [of _ _ _ "r # rs"] split: sum.split)
qed

subsection \<open>Orders through the wrapper\<close>

lemma wrapper_place_kite:
  "wrapper_place now (WrPort (kite_port c k)) rq =
     (case fst (kite_place_order c (ks_place k) (request_order rq)) of Inl e \<Rightarrow> Inl e | Inr oid \<Rightarrow> Inl (no_attribute ''str'' ''status''))"
  by (simp add: wrapper_place_def wrapper_place_request_def wrapper_place_order_def kite_port_def request_order_def place_answer_of_def
      res_bind_def split: sum.split)

lemma attempt_raises:
  assumes "\<not> is_paper env ctx" "es_router s = None" "xb_place (xe_broker env) = Some f" "f rq = Inl e"
  shows "attempt_order_execution env k rq ctx s =
    (if caught [ValueError, OSError, AttributeError, ConnectionError] e
     then (Inr (order_result (xe_now env) ''execution_error'' ST_REJECTED (Some (exn_msg e))), s\<lparr>es_placed := es_placed s @ [(k, rq)]\<rparr>)
     else (Inl e, s\<lparr>es_placed := es_placed s @ [(k, rq)]\<rparr>))"
  using assms by (simp add: attempt_order_execution_def x_try_def place_order_def place_with_broker_def x_ret_def res_bind_def)

subsection \<open>The orders of an exit\<close>

text \<open>Whatever happens in a call of \<open>execute_order\<close>, the only order it can send is the one of its request.\<close>

definition sent_within :: "(string \<times> x_request) set \<Rightarrow> x_service \<Rightarrow> bool" where
  "sent_within P s \<longleftrightarrow> set (es_placed s) \<subseteq> P"

lemma keeps_within: "x_keeps es_placed m \<Longrightarrow> x_keeps (sent_within P) m"
  by (simp add: x_keeps_def sent_within_def)

lemma attempt_within: "(k, rq) \<in> P \<Longrightarrow> x_keeps (sent_within P) (attempt_order_execution env k rq ctx)"
proof -
  assume p: "(k, rq) \<in> P"
  have sent: "\<exists>n. es_placed (snd (place_order env k rq s)) = es_placed s @ replicate n (k, rq)" for s
    by (cases "es_router s"; cases "xb_place (xe_broker env)")
      (auto simp: place_order_def place_with_broker_def place_routed_def map_replicate_const split: prod.split intro: exI [of _ "0::nat"] exI [of _ "1::nat"])
  have "sent_within P (snd (place_order env k rq s)) = sent_within P s" for s
  proof -
    obtain n where "es_placed (snd (place_order env k rq s)) = es_placed s @ replicate n (k, rq)" using sent by blast
    then show ?thesis using p by (auto simp: sent_within_def)
  qed
  then have "x_keeps (sent_within P) (place_order env k rq)" by (simp add: x_keeps_def)
  then show ?thesis
    unfolding attempt_order_execution_def by (intro keeps_try keeps_ret) (auto simp: x_keeps_def)
qed

lemma retries_within: "(k, rq) \<in> P \<Longrightarrow> sent_within P (snd (execute_with_retries env k rq ctx s)) = sent_within P s"
proof -
  assume p: "(k, rq) \<in> P"
  have r: "x_keeps (sent_within P) (record_result env cid rq r)" for cid r by (rule keeps_within [OF keeps_placed [OF record_result_keeps]])
  have t: "x_keeps (sent_within P) (with_esm cid f)" for cid f by (rule with_esm_keeps) (simp add: sent_within_def)
  have "x_keeps (sent_within P) (x_bind (with_esm cid f) (\<lambda>_. x_try (x_bind (attempt_order_execution env k rq ctx) (record_result env cid rq))
      service_catches (\<lambda>e. x_bind (with_esm cid g) (\<lambda>_. x_ret (h e)))))" for cid f g h
    by (intro keeps_bind keeps_try keeps_ret attempt_within p r t)
  then have body: "sent_within P (snd (x_bind (with_esm cid f) (\<lambda>_. x_try (x_bind (attempt_order_execution env k rq ctx) (record_result env cid rq))
      service_catches (\<lambda>e. x_bind (with_esm cid g) (\<lambda>_. x_ret (h e)))) t)) = sent_within P t" for cid f g h t
    by (simp add: x_keeps_def)
  have set_machines: "sent_within P (t\<lparr>es_machines := g\<rparr>) = sent_within P t" for t g by (simp add: sent_within_def)
  define intent where "intent = (if k = [] then order_intent_id env rq else k)"
  obtain m n g where "create_or_get (xe_now env) intent (xr_symbol rq) (xr_lot_size rq) (xr_strike_price rq) (xr_direction rq) (es_machines s) = ((m, n), g)"
    by (metis prod.exhaust)
  note e = execute_with_retries_def [of env k rq ctx s, folded intent_def, unfolded Let_def this prod.case]
  show ?thesis
    unfolding e
    by (simp only: body set_machines snd_conv simp_thms split: if_split)
qed

lemma execute_within:
  assumes "(request_key env rq (used_context env ctx), rq\<lparr>xr_idempotency_key := Some (request_key env rq (used_context env ctx))\<rparr>) \<in> P"
  shows "x_keeps (sent_within P) (execute_order env rq ctx)"
proof -
  let ?c = "used_context env ctx"
  let ?k = "request_key env rq ?c"
  let ?rq = "rq\<lparr>xr_idempotency_key := Some ?k\<rparr>"
  have run: "x_keeps (sent_within P) (run_order env ?k i eid ?rq ?c)" for i eid
    using retries_within [OF assms] by (simp add: x_keeps_def sent_within_def run_order_placed)
  have "x_keeps (sent_within P) (x_bind (admit_order env ?k i ?rq) (\<lambda>a. case a of Inl r \<Rightarrow> x_ret r | Inr eid \<Rightarrow> run_order env ?k i eid ?rq ?c))" for i
    by (intro keeps_bind keeps_within [OF admit_placed]) (auto split: sum.split intro: keeps_ret run)
  then show ?thesis
    unfolding x_keeps_def by (subst execute_order_ctx) (auto simp: execute_order_def Let_def split: prod.split bool.split)
qed

definition exec_within :: "(string \<times> x_request) set \<Rightarrow> pos_service \<Rightarrow> bool" where
  "exec_within P s \<longleftrightarrow> (case ps_exec s of None \<Rightarrow> True | Some x \<Rightarrow> sent_within P x)"

lemma book_exit_exec: "x_keeps (exec_within P) (book_exit env name p reason q pnl)"
proof -
  have "x_keeps (exec_within P) (feed_risk env pnl)" "x_keeps (exec_within P) (feed_monitor env pnl)"
    unfolding feed_risk_def feed_monitor_def
    by (intro keeps_try keeps_ret; auto simp: x_keeps_def x_ret_def exec_within_def split: option.split prod.split sum.split)+
  then show ?thesis
    unfolding book_exit_def by (intro keeps_bind keeps_upd) (simp_all add: exec_within_def)
qed

text \<open>An exit sends no order but that of its request.\<close>

lemma exit_sends:
  assumes p: "map_of (ps_positions s) name = Some p" and l: "get_underlying_ltp env name = Inr ltp"
    and x: "ps_exec s = Some x" "ps_exec (snd (exit_position env name reason s)) = Some x'"
    and kr: "kr \<in> set (es_placed x') - set (es_placed x)"
  shows "\<exists>k. snd kr = (exit_request env name p (price_or ltp (po_entry_price p)) reason)\<lparr>xr_idempotency_key := k\<rparr>"
proof -
  let ?price = "price_or ltp (po_entry_price p)"
  define P where "P = set (es_placed x) \<union> {(k, rq). \<exists>k. rq = (exit_request env name p ?price reason)\<lparr>xr_idempotency_key := k\<rparr>}"
  have e: "x_keeps (sent_within P) (execute_order xe (exit_request env name p ?price reason) None)" for xe
    by (rule execute_within) (auto simp: P_def)
  have "x_keeps (exec_within P) (place_exit env name p reason ?price)"
    unfolding place_exit_def
  proof (intro keeps_try keeps_ret)
    have "exec_within P (snd (x_bind (call_execute_order env (exit_request env name p ?price reason) None y) (\<lambda>r. x_ret (f r)) t)) = exec_within P t"
      if "ps_exec t = Some y" for y t and f :: "x_result \<Rightarrow> real"
      using that e [unfolded x_keeps_def, rule_format, of "(pe_exec env)\<lparr>xe_safety := ps_safety t\<rparr>" y]
      by (auto simp: call_execute_order_def x_bind_def x_ret_def exec_within_def split: prod.split sum.split)
    then show "x_keeps (exec_within P) (\<lambda>s. case ps_exec s of
        None \<Rightarrow> x_ret (po_entry_price p) s
      | Some x \<Rightarrow> x_bind (call_execute_order env (exit_request env name p ?price reason) None x)
          (\<lambda>r. x_ret (if xo_status r = ST_FILLED \<or> xo_status r = ST_PARTIALLY_FILLED
                      then (if xo_average_price r = 0 then po_entry_price p else xo_average_price r)
                      else po_entry_price p)) s)"
      by (simp add: x_keeps_def x_ret_def split: option.split)
  qed
  then have "x_keeps (exec_within P) (\<lambda>s. x_bind (place_exit env name p reason ?price)
            (\<lambda>exit_price.
               let failed = exit_failed_at p reason exit_price; pnl = (exit_price - po_entry_price p) * of_int (po_qty p)
               in x_bind (if failed then x_ret () else book_exit env name p reason exit_price pnl)
                    (\<lambda>_. x_upd (\<lambda>s. (if failed then id else (\<lambda>s. s\<lparr>ps_notes := ps_notes s @ [exit_note name reason exit_price pnl]\<rparr>))
                                   (cleanup_position_entry name p failed s)))) s)"
    unfolding Let_def
    by (intro keeps_bind keeps_if keeps_ret book_exit_exec keeps_upd)
      (simp_all add: exec_within_def cleanup_position_entry_def set_position_def Let_def)
  from this [unfolded x_keeps_def, rule_format, of s] have "exec_within P (snd (exit_position env name reason s)) = exec_within P s"
    by (simp add: exit_position_def p l x_bind_def [of "x_lift _"] x_lift_def)
  moreover have "exec_within P s" by (simp add: exec_within_def sent_within_def x(1) P_def)
  ultimately have "set (es_placed x') \<subseteq> P" by (simp add: exec_within_def sent_within_def x(2))
  then show ?thesis using kr by (cases kr) (auto simp: P_def)
qed

section \<open>Properties\<close>

text \<open>
  C18: An adapter other than the paper one is created only when the lockout is off, the broker API is
  enabled, and neither paper mode, manual mode nor signal-only mode is set; and only after the readiness
  check has passed, unless the driver is named as a paper one, which a configured custom factory does
  not look at.
\<close>

theorem live_adapter_cleared:
  assumes "create_broker_adapter d = Inr k" "k \<notin> {AK_PAPER, AK_WRAPPED_PAPER}"
  shows "\<not> dr_lockout d \<and> dr_api d \<and> \<not> dr_paper d \<and> \<not> dr_manual d \<and> dr_mode d \<noteq> ''SIGNAL_ONLY'' \<and>
    (dr_ready d = Inr True \<or>
     k = AK_CUSTOM \<and> str_upper (if dr_driver d = [] then dr_cfg_driver d else dr_driver d) \<in> set paper_drivers)"
proof -
  have o: "\<not> dr_lockout d" "dr_api d" "\<not> dr_paper d" "\<not> dr_manual d" "dr_mode d \<noteq> ''SIGNAL_ONLY''" "\<not> readiness_refuses d"
    using assms by (auto simp: create_broker_adapter_def split: if_splits)
  have "k = AK_CUSTOM" if "str_upper (if dr_driver d = [] then dr_cfg_driver d else dr_driver d) \<in> set paper_drivers"
  proof (cases "dr_custom d")
    case None
    let ?n = "str_upper (if dr_driver d = [] then ''GENERIC'' else dr_driver d)"
    have "?n \<notin> set live_drivers \<and> ?n \<noteq> ''ANGEL''"
      using that by (cases "dr_driver d = []") (auto simp: paper_drivers_def live_drivers_def upper_char_def)
    then show ?thesis using assms o None by (simp add: create_broker_adapter_def Let_def)
  next
    case (Some r)
    then show ?thesis using assms o by (auto simp: create_broker_adapter_def split: if_splits sum.splits option.splits)
  qed
  then show ?thesis using o by (auto simp: readiness_refuses_def)
qed

definition demo_setup :: driver_setup where
  "demo_setup = \<lparr>dr_driver = ''KITE'', dr_cfg_driver = ''PAPER'', dr_api = True, dr_paper = False, dr_manual = False, dr_mode = ''AUTO'',
     dr_lockout = False, dr_ready = Inr True, dr_custom = None\<rparr>"

theorem live_adapter_cleared_witness:
  "create_broker_adapter demo_setup = Inr (AK_LIVE ''KITE'') \<and> \<not> dr_lockout demo_setup \<and> dr_ready demo_setup = Inr True"
proof -
  have c: "create_broker_adapter demo_setup = Inr (AK_LIVE ''KITE'')" by code_simp
  then show ?thesis using live_adapter_cleared [OF c] by simp
qed

text \<open>
  An order of the Kite adapter reaches the broker at most \<open>max_retries\<close> times, each time as the same
  order for a single unit whatever quantity was asked for; it reports success only after it was sent,
  and every failure is a \<open>RuntimeError\<close>. Without a connection or a known instrument nothing is sent.
\<close>

lemma kite_order_sent:
  assumes "kite_place_order c call rq = (r, sent)"
  shows "set sent \<subseteq> {kite_payload rq} \<and> length sent \<le> kt_retries c \<and> ko_quantity (kite_payload rq) = 1 \<and>
    (\<forall>oid. r = Inr oid \<longrightarrow> sent \<noteq> []) \<and> (\<forall>e. r = Inl e \<longrightarrow> exn_cls e = RuntimeError) \<and>
    (\<not> kt_connected c \<or> kt_token c (oq_symbol rq) = None \<longrightarrow> sent = [])"
proof -
  have e: "\<forall>e. r = Inl e \<longrightarrow> exn_cls e = RuntimeError" using assms kite_order_raises [of c call rq] by simp
  show ?thesis
  proof (cases "kt_connected c \<and> kt_token c (oq_symbol rq) \<noteq> None")
    case True
    then obtain n where n: "kite_request (kt_retries c) call = (r, n)" "sent = replicate n (kite_payload rq)"
      using assms by (auto simp: kite_place_order_def split: prod.splits)
    then show ?thesis using kite_request_count [OF n(1)] e True by (auto simp: kite_payload_def)
  next
    case False
    then show ?thesis using assms e by (auto simp: kite_place_order_def kite_payload_def split: if_splits)
  qed
qed

text \<open>
  C24: Through the wrapper no order at Kite is ever reported as placed. When the adapter gets an order id
  back, one or more orders of quantity 1 are at the broker and \<open>execute_order\<close> answers REJECTED: the wrapper
  asks the id for a status attribute, which a string does not have, and the service takes that for a
  rejection. In every other case, no connection, an unknown instrument or a failed request, the
  \<open>RuntimeError\<close> of the adapter leaves \<open>execute_order\<close>.
\<close>

theorem accepted_kite_order_rejected:
  assumes g: "gates_open env s" and k: "xr_idempotency_key rq = Some k" "k \<noteq> []"
    and d: "\<not> fst (idem_is_duplicate (xe_now env) k (es_idem s))" "mach (generate_client_order_id k) s = None"
    and b: "\<not> is_paper env ctx" "es_router s = None" "xb_place (xe_broker env) = Some (wrapper_place now (WrPort (kite_port c sdk)))"
    and p: "kite_place_order c (ks_place sdk) (request_order rq) = (res, sent)"
    and w: "xe_wal_append env = None" "xe_wal_commit env = None" "xe_wal_fail env = None" "xe_save_trade env = None" "xe_up_durable env"
    and dp: "cf_duplicate_prevention (es_config s)"
  shows "\<exists>out s'. execute_order env rq (Some ctx) s = (out, s') \<and> es_placed s' = es_placed s @ [(k, rq)] \<and>
    (case res of
       Inr oid \<Rightarrow> sent \<noteq> [] \<and> (\<forall>o' \<in> set sent. ko_symbol o' = oq_symbol (request_order rq) \<and> ko_quantity o' = 1) \<and>
         (\<exists>r. out = Inr r \<and> xo_status r = ST_REJECTED)
     | Inl e \<Rightarrow> out = Inl e \<and> exn_cls e = RuntimeError)"
proof (cases res)
  case (Inl e)
  have cls: "exn_cls e = RuntimeError" using kite_order_sent [OF p] Inl by simp
  have f: "wrapper_place now (WrPort (kite_port c sdk)) rq = Inl e" by (simp add: wrapper_place_kite p Inl)
  have nc: "\<not> caught [ValueError, OSError, AttributeError, ConnectionError] e" "\<not> caught service_catches e"
    using cls by (auto simp: service_catches_def exn_simps)
  have att: "attempt_order_execution env k rq ctx s' = (Inl e, s'\<lparr>es_placed := es_placed s' @ [(k, rq)]\<rparr>)" if "es_router s' = None" for s'
    using attempt_raises [OF b(1) that b(3) f] nc(1) by simp
  obtain s' where "execute_order env rq (Some ctx) s = (Inl e, s')" "es_placed s' = es_placed s @ [(k, rq)]"
    using raised_books [OF g k d _ nc(2) w(1) dp, of ctx] att b(2) by auto
  with Inl cls show ?thesis by simp
next
  case (Inr oid)
  have sent: "sent \<noteq> []" "\<forall>o' \<in> set sent. ko_symbol o' = oq_symbol (request_order rq) \<and> ko_quantity o' = 1"
    using kite_order_sent [OF p] Inr by (auto simp: kite_payload_def)
  let ?e = "no_attribute ''str'' ''status''"
  let ?r = "order_result (xe_now env) ''execution_error'' ST_REJECTED (Some (exn_msg ?e))"
  have f: "wrapper_place now (WrPort (kite_port c sdk)) rq = Inl ?e" by (simp add: wrapper_place_kite p Inr)
  have "caught [ValueError, OSError, AttributeError, ConnectionError] ?e" by (simp add: no_attribute_def exn_simps)
  then have att: "attempt_order_execution env k rq ctx s' = (Inr ?r, s'\<lparr>es_placed := es_placed s' @ [(k, rq)]\<rparr>)" if "es_router s' = None" for s'
    using attempt_raises [OF b(1) that b(3) f] by simp
  have st: "xo_status ?r = ST_REJECTED" by (simp add: order_result_def)
  obtain s' where "execute_order env rq (Some ctx) s = (Inr ?r, s')" "es_placed s' = es_placed s @ [(k, rq)]"
    using rejected_books [OF g k d _ st w dp, of ctx] att b(2) by fastforce
  with Inr sent st show ?thesis by simp
qed

definition demo_kite :: kite where
  "demo_kite = \<lparr>kt_connected = True, kt_token = map_of [(''NIFTY_100_CE'', 7)], kt_retries = 3\<rparr>"

definition demo_sdk :: kite_sdk where
  "demo_sdk = \<lparr>ks_place = (\<lambda>_. Inr ''240101''), ks_cancel = (\<lambda>_. Inr ()), ks_orders = (\<lambda>_. Inr [])\<rparr>"

definition demo_wrapped_env :: "wrapped \<Rightarrow> x_env" where
  "demo_wrapped_env w = demo_env\<lparr>xe_broker := demo_broker\<lparr>xb_class := ''BrokerAdapter'', xb_place := Some (wrapper_place 5 w)\<rparr>\<rparr>"

lemma demo_kite_order:
  "kite_place_order demo_kite (ks_place demo_sdk) (request_order demo_request) = (Inr ''240101'', [kite_payload (request_order demo_request)])"
proof -
  have "oq_symbol (request_order demo_request) = ''NIFTY_100_CE''" by code_simp
  then show ?thesis by (simp add: kite_place_order_def kite_request_def demo_kite_def demo_sdk_def numeral_3_eq_3)
qed

theorem accepted_kite_order_rejected_witness:
  "\<exists>r s'. execute_order (demo_wrapped_env (WrPort (kite_port demo_kite demo_sdk))) demo_request (Some demo_context) demo_service = (Inr r, s') \<and>
     xo_status r = ST_REJECTED \<and> es_placed s' = es_placed demo_service @ [(''k1'', demo_request)]"
proof -
  let ?w = "WrPort (kite_port demo_kite demo_sdk)"
  have "\<exists>out s'. execute_order (demo_wrapped_env ?w) demo_request (Some demo_context) demo_service = (out, s') \<and>
      es_placed s' = es_placed demo_service @ [(''k1'', demo_request)] \<and>
      (case Inr ''240101'' of
         Inr oid \<Rightarrow> [kite_payload (request_order demo_request)] \<noteq> [] \<and>
           (\<forall>o' \<in> set [kite_payload (request_order demo_request)]. ko_symbol o' = oq_symbol (request_order demo_request) \<and> ko_quantity o' = 1) \<and>
           (\<exists>r. out = Inr r \<and> xo_status r = ST_REJECTED)
       | Inl e \<Rightarrow> out = Inl e \<and> exn_cls e = RuntimeError)"
    by (rule accepted_kite_order_rejected [OF _ _ _ _ _ _ _ _ demo_kite_order])
      (simp_all add: demo_gates unknown_key_free is_paper_def demo_wrapped_env_def demo_context_def default_context_def)
  then show ?thesis by auto
qed

text \<open>
  C33: An exception of the broker that neither the attempt nor the service has a clause for leaves
  \<open>execute_order\<close>. No booking takes place: the machine of the key stays validated and the key in flight, so
  for an hour every further order with it, after any number of such orders, is refused as a duplicate and
  the broker is not called.
\<close>

theorem broker_error_blocks_key:
  assumes g: "gates_open env s" and k: "xr_idempotency_key rq = Some k" "k \<noteq> []"
    and d: "\<not> fst (idem_is_duplicate (xe_now env) k (es_idem s))" "mach (generate_client_order_id k) s = None"
    and b: "\<not> is_paper env ctx" "es_router s = None" "xb_place (xe_broker env) = Some f" "f rq = Inl e"
    and nc: "\<not> caught [ValueError, OSError, AttributeError, ConnectionError] e" "\<not> caught service_catches e"
    and wa: "xe_wal_append env = None" and dp: "cf_duplicate_prevention (es_config s)"
  shows "\<exists>s' m. execute_order env rq (Some ctx) s = (Inl e, s') \<and> es_placed s' = es_placed s @ [(k, rq)] \<and>
    mach (generate_client_order_id k) s' = Some m \<and> m_state m = XS_VALIDATED \<and>
    (\<forall>cs env2 rq2 ctx2. list_all (repeats_key k (xe_now env)) (cs @ [(env2, rq2, ctx2)]) \<longrightarrow>
       fst (execute_order env2 rq2 ctx2 (fold order_step cs s')) =
         Inr (order_result (xe_now env2) ''duplicate'' ST_REJECTED (Some ''Duplicate order detected'')) \<and>
       es_placed (snd (execute_order env2 rq2 ctx2 (fold order_step cs s'))) = es_placed s')"
proof -
  have att: "attempt_order_execution env k rq ctx s' = (Inl e, s'\<lparr>es_placed := es_placed s' @ [(k, rq)]\<rparr>)" if "es_router s' = None" for s'
    using attempt_raises [OF b(1) that b(3,4)] nc(1) by simp
  obtain s' m where s': "execute_order env rq (Some ctx) s = (Inl e, s')" "es_placed s' = es_placed s @ [(k, rq)]"
      "mach (generate_client_order_id k) s' = Some m" "m_state m = XS_VALIDATED"
    and st: "map_of (im_in_flight (es_idem s')) k = Some (xe_now env)" "map_of (im_cache (es_idem s')) k = None"
      "es_config s' = es_config s" "es_mode s' = es_mode s"
    using raised_books [OF g k d _ nc(2) wa dp, of ctx] att b(2) by (auto simp: mach_def)
  have stuck: "stuck_key k (xe_now env) s'" using st g dp by (simp add: stuck_key_def gates_open_def)
  have "fst (execute_order env2 rq2 ctx2 (fold order_step cs s')) =
         Inr (order_result (xe_now env2) ''duplicate'' ST_REJECTED (Some ''Duplicate order detected'')) \<and>
       es_placed (snd (execute_order env2 rq2 ctx2 (fold order_step cs s'))) = es_placed s'"
    if "list_all (repeats_key k (xe_now env)) (cs @ [(env2, rq2, ctx2)])" for cs env2 rq2 ctx2
  proof -
    have t: "stuck_key k (xe_now env) (fold order_step cs s')" "es_placed (fold order_step cs s') = es_placed s'"
      using stuck_key_stays [OF stuck, of cs] that k(2) by (simp_all del: repeats_key.simps)
    have "repeats_key k (xe_now env) (env2, rq2, ctx2)" using that by (simp del: repeats_key.simps)
    from stuck_key_refused [OF t(1) this k(2)] t(2) show ?thesis by auto
  qed
  with s' show ?thesis by blast
qed

text \<open>Exceptions of that kind: the wrapped Angel adapter for every order, and every failure of Kite.\<close>

lemma wrapper_errors_escape:
  "wrapper_place now (WrAngel a) rq = Inl arguments_missing \<and>
    \<not> caught [ValueError, OSError, AttributeError, ConnectionError] arguments_missing \<and> \<not> caught service_catches arguments_missing"
  "fst (kite_place_order c (ks_place sdk) (request_order rq)) = Inl e \<Longrightarrow>
    wrapper_place now (WrPort (kite_port c sdk)) rq = Inl e \<and>
    \<not> caught [ValueError, OSError, AttributeError, ConnectionError] e \<and> \<not> caught service_catches e"
proof -
  show "wrapper_place now (WrAngel a) rq = Inl arguments_missing \<and>
    \<not> caught [ValueError, OSError, AttributeError, ConnectionError] arguments_missing \<and> \<not> caught service_catches arguments_missing"
    by (simp add: wrapper_place_def wrapper_place_request_def wrapper_place_order_def place_answer_of_def arguments_missing_def
        service_catches_def exn_simps)
  assume f: "fst (kite_place_order c (ks_place sdk) (request_order rq)) = Inl e"
  then have "exn_cls e = RuntimeError"
    using kite_order_sent [of c "ks_place sdk" "request_order rq"] by (metis prod.collapse)
  with f show "wrapper_place now (WrPort (kite_port c sdk)) rq = Inl e \<and>
    \<not> caught [ValueError, OSError, AttributeError, ConnectionError] e \<and> \<not> caught service_catches e"
    by (simp add: wrapper_place_kite service_catches_def exn_simps)
qed

theorem broker_error_blocks_key_witness:
  "\<exists>e s'. execute_order (demo_wrapped_env (WrPort (kite_port (demo_kite\<lparr>kt_connected := False\<rparr>) demo_sdk))) demo_request (Some demo_context)
       demo_service = (Inl e, s') \<and> exn_cls e = RuntimeError \<and>
     (\<exists>r. fst (execute_order (demo_env\<lparr>xe_now := 3000\<rparr>) demo_request None s') = Inr r \<and> xo_status r = ST_REJECTED)"
proof -
  let ?c = "demo_kite\<lparr>kt_connected := False\<rparr>" and ?e = "Exn RuntimeError ''Kite adapter is not connected - call connect() first''"
  let ?env = "demo_wrapped_env (WrPort (kite_port ?c demo_sdk))"
  have e: "wrapper_place 5 (WrPort (kite_port ?c demo_sdk)) demo_request = Inl ?e" "\<not> caught [ValueError, OSError, AttributeError, ConnectionError] ?e"
    "\<not> caught service_catches ?e"
    using wrapper_errors_escape(2) [of ?c demo_sdk demo_request ?e 5] by (simp_all add: kite_place_order_def)
  have "\<exists>s' m. execute_order ?env demo_request (Some demo_context) demo_service = (Inl ?e, s') \<and>
      es_placed s' = es_placed demo_service @ [(''k1'', demo_request)] \<and>
      mach (generate_client_order_id ''k1'') s' = Some m \<and> m_state m = XS_VALIDATED \<and>
      (\<forall>cs env2 rq2 ctx2. list_all (repeats_key ''k1'' (xe_now ?env)) (cs @ [(env2, rq2, ctx2)]) \<longrightarrow>
         fst (execute_order env2 rq2 ctx2 (fold order_step cs s')) =
           Inr (order_result (xe_now env2) ''duplicate'' ST_REJECTED (Some ''Duplicate order detected'')) \<and>
         es_placed (snd (execute_order env2 rq2 ctx2 (fold order_step cs s'))) = es_placed s')"
    by (rule broker_error_blocks_key [where f = "wrapper_place 5 (WrPort (kite_port ?c demo_sdk))"])
      (simp_all add: e demo_gates unknown_key_free is_paper_def demo_wrapped_env_def demo_context_def default_context_def)
  then obtain s' where s': "execute_order ?env demo_request (Some demo_context) demo_service = (Inl ?e, s')" and
    all: "\<forall>cs env2 rq2 ctx2. list_all (repeats_key ''k1'' (xe_now ?env)) (cs @ [(env2, rq2, ctx2)]) \<longrightarrow>
         fst (execute_order env2 rq2 ctx2 (fold order_step cs s')) =
           Inr (order_result (xe_now env2) ''duplicate'' ST_REJECTED (Some ''Duplicate order detected'')) \<and>
         es_placed (snd (execute_order env2 rq2 ctx2 (fold order_step cs s'))) = es_placed s'" by blast
  have "repeats_key ''k1'' (xe_now ?env) (demo_env\<lparr>xe_now := 3000\<rparr>, demo_request, None)" by (simp add: demo_wrapped_env_def demo_env_def demo_request_def)
  then have "fst (execute_order (demo_env\<lparr>xe_now := 3000\<rparr>) demo_request None s') = Inr (order_result 3000 ''duplicate'' ST_REJECTED (Some ''Duplicate order detected''))"
    using all [rule_format, of "[]" "demo_env\<lparr>xe_now := 3000\<rparr>" demo_request None] by (simp del: repeats_key.simps)
  with s' show ?thesis by (simp add: order_result_def)
qed

text \<open>
  C23: An exit does not trade what the entry traded. Every order that \<open>exit_position\<close> sends names as strike
  the price of the underlying it has just read, or the entry price when there is none, and the direction
  opposite to the entry's, and the wrapper reads the direction as the option type. So the entry of a bought
  position buys the \<open>CE\<close> option at the strike of the request, and its exit sells the \<open>PE\<close> option at the price
  of the underlying; the entry of a sold position sells the \<open>PE\<close> option, and its exit buys the \<open>CE\<close> option.
  The two orders never name the same instrument.
\<close>

theorem exit_trades_other_option:
  assumes "dir \<in> {''BUY'', ''SELL''}" "map_of (ps_positions s) name = Some p" "po_order_direction p = dir"
    and "get_underlying_ltp penv name = Inr ltp" "ps_exec s = Some x" "ps_exec (snd (exit_position penv name reason s)) = Some x'"
    and "kr \<in> set (es_placed x') - set (es_placed x)"
    and "o1 = request_order (entry_request env name sig qty dir key)" "o2 = request_order (snd kr)"
  shows "oq_symbol o1 \<noteq> oq_symbol o2 \<and> oq_qty o2 = po_qty p \<and>
    oq_symbol o1 = option_symbol name (if dir = ''BUY'' then ''CALL'' else ''PUT'') (py_trunc (xr_strike_price (entry_request env name sig qty dir key))) \<and>
    oq_symbol o2 = option_symbol name (if dir = ''BUY'' then ''PUT'' else ''CALL'') (py_trunc (price_or ltp (po_entry_price p))) \<and>
    oq_direction o1 = dir \<and> oq_direction o2 = (if dir = ''BUY'' then ''SELL'' else ''BUY'') \<and>
    (\<forall>now q rq. wrapper_place_request now rq (WrPort q) = (res_bind (rp_place q (request_order rq)) accepted_id, WrPort q))"
proof -
  let ?price = "price_or ltp (po_entry_price p)"
  have ne: "option_symbol a ''CALL'' i \<noteq> option_symbol b ''PUT'' j" for a b i j
  proof
    assume "option_symbol a ''CALL'' i = option_symbol b ''PUT'' j"
    then have "take 2 (rev (option_symbol a ''CALL'' i)) = take 2 (rev (option_symbol b ''PUT'' j))" by simp
    then show False by (simp add: option_symbol_def)
  qed
  have o2: "o2 = request_order (exit_request penv name p ?price reason)"
    using exit_sends [OF assms(2,4-7)] assms(9) by (auto simp: request_order_def)
  show ?thesis
    using assms(1,3) ne ne [symmetric]
    by (auto simp: assms(8) o2 request_order_def option_order_def market_request_def entry_request_def exit_request_def exit_direction_def
        Let_def upper_char_def wrapper_place_request_def wrapper_place_order_def)
qed

theorem exit_trades_other_option_witness:
  "\<exists>x' rq. ps_exec (snd (exit_position demo_pos_env ''NIFTY'' ''SL_HIT'' demo_pos_service)) = Some x' \<and> rq \<in> snd ` set (es_placed x') \<and>
     oq_symbol (request_order rq) = ''NIFTY_90_PE'' \<and> oq_direction (request_order rq) = ''SELL''"
proof -
  let ?rq = "exit_request demo_pos_env ''NIFTY'' demo_position 90 ''SL_HIT''" and ?k = "exit_key ''NIFTY'' demo_position ''SL_HIT''"
  obtain x' where x': "exit_position demo_pos_env ''NIFTY'' ''SL_HIT'' demo_pos_service =
      (Inr (), after_exit demo_pos_env ''NIFTY'' demo_position ''SL_HIT'' (xo_average_price demo_filled) x' demo_pos_service)"
      "es_placed x' = es_placed demo_service @ [(?k, ?rq)]"
    using exit_filled [OF _ _ demo_exit_fills, of demo_position "''SL_HIT''"] by force
  then have e: "ps_exec (snd (exit_position demo_pos_env ''NIFTY'' ''SL_HIT'' demo_pos_service)) = Some x'" by (simp add: after_exit_def Let_def)
  have k: "(?k, ?rq) \<in> set (es_placed x') - set (es_placed demo_service)" using x'(2) by simp
  have "option_symbol ''NIFTY'' ''PUT'' 90 = ''NIFTY_90_PE''" by code_simp
  then have "oq_symbol (request_order ?rq) = ''NIFTY_90_PE'' \<and> oq_direction (request_order ?rq) = ''SELL''"
    using exit_trades_other_option [OF _ _ refl _ _ e k refl refl, where ltp = "Some 90" and env = demo_entry_env and sig = "[]" and qty = 25 and key = "[]"] by (simp add: py_trunc_def)
  with e k show ?thesis by force
qed

text \<open>
  A modification through the execution service is always refused. The wrapper reads a status
  attribute of the strings that the paper and the Kite adapter return, the service takes the exception
  for the terminal status REJECTED, and the broker is not asked.
\<close>

lemma modification_always_refused:
  assumes "(\<exists>a. w = WrPaper a) \<or> (\<exists>c sdk. w = WrPort (kite_port c sdk))"
    and "xb_status (xe_broker env) = Some (\<lambda>i. res_bind (wrapper_order_status book i w) (\<lambda>st. Inr (conv st)))"
  shows "get_order_status env oid = Inr ST_REJECTED \<and>
    modify_order env oid qty price trig ot =
      Inr (order_result (xe_now env) oid ST_REJECTED (Some (''Order '' @ oid @ '' has terminal status '' @ status_value ST_REJECTED)))"
proof -
  have e: "wrapper_order_status book oid w = Inl (no_attribute ''str'' ''status'')"
    using assms(1) by (auto simp: wrapper_order_status_def status_of_answer_def kite_port_def)
  have "caught [ValueError, OSError, AttributeError] (no_attribute ''str'' ''status'')" by (simp add: no_attribute_def exn_simps)
  then have "get_order_status env oid = Inr ST_REJECTED" by (simp add: get_order_status_def assms(2) e)
  then show ?thesis by (simp add: modify_order_def Let_def)
qed

text \<open>
  Paper fills are never better than the mid price: after any orders and reconfigurations with slippage
  of at least 0, every recorded entry was filled at or above its mid price and every exit at or below.
\<close>

lemma paper_fills_adverse:
  assumes "\<And>sl mo mv. PoConfigure sl mo mv \<in> set ops \<Longrightarrow> 0 \<le> sl" "map_of (pa_fills (fold paper_step ops (new_paper n))) oid = Some f"
  shows "pf_order_id f = oid \<and> (if pf_entry f then pf_mid f \<le> pf_price f else pf_price f \<le> pf_mid f)"
  using paper_run_ok [of "new_paper n" ops] assms by (auto simp: paper_ok_def new_paper_def fill_ok_def)

text \<open>An open circuit breaker is not taken for a blocked call: its exception is of no class in the clause.\<close>

lemma open_circuit_escapes: "cb_protected True (Inl (Exn CircuitBreakerOpenException m)) = Inl (Exn CircuitBreakerOpenException m)"
  by (simp add: cb_protected_def exn_simps)

text \<open>A failed answer of Angel with no order id becomes the order id, in its printed form.\<close>

lemma angel_failure_is_order_id: "angel_order_id (AaDict AdAbsent None txt) = Inr (Some txt)"
  by (simp add: str_or_def str_strip_def)

text \<open>A stop order that waits for its trigger counts as filled.\<close>

lemma untriggered_counts_as_filled:
  "0 \<le> timeout \<Longrightarrow> wr_status r = Inr ''TRIGGER PENDING'' \<Longrightarrow> \<not> wr_stop r \<Longrightarrow> angel_wait timeout poll 0 (r # rs) = Some (Inr True)"
  by (simp add: angel_wait.simps)

end
