(* ===== verification/Paper_Trader.thy ===== *)
theory Paper_Trader
  imports Execution_Service Order_Pricing
begin

text \<open>
  The simulated execution of orders, \<open>core/services/paper_trader.py\<close>. The pseudo-random draws, the clock,
  the wait for shutdown, the printing of floats and \<open>hash\<close> are arguments; a draw is given as a function
  of its deviation. The table of last trade times, which nothing reads, is left out.
\<close>

section \<open>Definitions\<close>

subsection \<open>Symbols and charges\<close>

record sym_meta =
  sm_price :: real
  sm_volatility :: real
  sm_spread :: real
  sm_lot :: int
  sm_oi :: real

definition mk_meta :: "real \<Rightarrow> real \<Rightarrow> real \<Rightarrow> int \<Rightarrow> real \<Rightarrow> sym_meta" where
  "mk_meta p v s l oi = \<lparr>sm_price = p, sm_volatility = v / 1000, sm_spread = s / 1000, sm_lot = l, sm_oi = oi\<rparr>"

text \<open>Volatilities and spreads in thousandths.\<close>

definition symbol_meta :: "(string, sym_meta) dict" where
  "symbol_meta =
     [(''NIFTY'', mk_meta 23500 8 5 50 150), (''BANKNIFTY'', mk_meta 50500 10 8 25 80), (''FINNIFTY'', mk_meta 22000 7 4 40 60),
      (''NIFTYIT'', mk_meta 35000 12 10 25 20), (''RELIANCE'', mk_meta 3000 15 10 250 200), (''TCS'', mk_meta 3900 12 8 150 100),
      (''HDFCBANK'', mk_meta 1650 14 10 200 180), (''INFY'', mk_meta 1600 16 12 300 120), (''ICICIBANK'', mk_meta 1150 15 12 300 160),
      (''KOTAKBANK'', mk_meta 1750 13 10 150 80), (''SBIN'', mk_meta 800 18 15 350 200), (''LT'', mk_meta 3600 14 10 150 90),
      (''BHARTIARTL'', mk_meta 1300 14 12 300 100), (''ASIANPAINT'', mk_meta 2700 12 10 200 50), (''MARUTI'', mk_meta 11500 11 8 50 30),
      (''HINDUNILVR'', mk_meta 2500 10 8 200 70), (''AXISBANK'', mk_meta 1100 16 13 300 130)]"

definition default_meta :: sym_meta where
  "default_meta = mk_meta 1000 15 10 100 50"

definition meta_of :: "string \<Rightarrow> sym_meta" where
  "meta_of s = (case map_of symbol_meta s of Some m \<Rightarrow> m | None \<Rightarrow> default_meta)"

record charges =
  ic_brokerage :: real
  ic_stt :: real
  ic_exchange :: real
  ic_gst :: real
  ic_sebi :: real
  ic_stamp :: real
  ic_total :: real

definition indian_commission :: "real \<Rightarrow> bool \<Rightarrow> bool \<Rightarrow> charges" where
  "indian_commission v is_options is_intraday =
     (let b = round_to 2 (min (v * (3 / 10000)) 20);
          stt = (if is_options then round_to 2 (v * (5 / 10000)) else round_to 2 (v * (if is_intraday then 25 / 100000 else 1 / 1000)));
          ex = round_to 2 (v * (2 / 100000)); gst = round_to 2 ((b + ex) * (18 / 100)); sebi = round_to 2 (v * (1 / 1000000));
          stamp = round_to 2 (v * (2 / 100000))
      in \<lparr>ic_brokerage = b, ic_stt = stt, ic_exchange = ex, ic_gst = gst, ic_sebi = sebi, ic_stamp = stamp,
          ic_total = round_to 2 (b + stt + ex + gst + sebi + stamp)\<rparr>)"

definition is_index_option :: "string \<Rightarrow> bool" where
  "is_index_option s \<longleftrightarrow> str_contains ''NIFTY'' s \<or> str_contains ''BANKNIFTY'' s \<or> str_contains ''FINNIFTY'' s"

subsection \<open>State\<close>

record paper_cfg =
  pk_delay_ms :: real
  pk_slippage_pct :: real
  pk_cache_max :: int
  pk_walk :: bool
  pk_partial :: bool
  pk_impact :: bool
  pk_spread :: bool
  pk_model :: "slippage_model option"

definition default_paper_cfg :: paper_cfg where
  "default_paper_cfg = \<lparr>pk_delay_ms = 50, pk_slippage_pct = 5 / 100, pk_cache_max = 50, pk_walk = True, pk_partial = True, pk_impact = True,
     pk_spread = True, pk_model = None\<rparr>"

record paper_trader =
  pt_cfg :: paper_cfg
  pt_shutdown :: bool
  pt_prices :: "(string, real) dict"
  pt_stamps :: "(string, real) dict"
  pt_drifts :: "(string, real) dict"
  pt_impacts :: "(string, real) dict"
  pt_recent :: "(string, real list) dict"

definition new_trader :: "paper_cfg \<Rightarrow> paper_trader" where
  "new_trader c = \<lparr>pt_cfg = c, pt_shutdown = False, pt_prices = [], pt_stamps = [], pt_drifts = [], pt_impacts = [], pt_recent = []\<rparr>"

definition reset_trader :: "paper_trader \<Rightarrow> paper_trader" where
  "reset_trader p = p\<lparr>pt_prices := [], pt_stamps := [], pt_drifts := [], pt_impacts := [], pt_recent := []\<rparr>"

definition shutdown_trader :: "paper_trader \<Rightarrow> paper_trader" where
  "shutdown_trader p = p\<lparr>pt_shutdown := True\<rparr>"

subsection \<open>Prices\<close>

record tick =
  tk_now :: real
  tk_init :: "real \<Rightarrow> real"
  tk_noise :: "real \<Rightarrow> real"
  tk_drift :: "real \<Rightarrow> real"

text \<open>The oldest entries are evicted; \<open>evict\<close> drops \<open>n\<close> of them.\<close>

fun evict :: "nat \<Rightarrow> paper_trader \<Rightarrow> paper_trader" where
  "evict 0 p = p"
| "evict (Suc n) p =
     (case pt_prices p of
        [] \<Rightarrow> p
      | (k, _) # ps \<Rightarrow>
          evict n (p\<lparr>pt_prices := ps, pt_stamps := dict_del k (pt_stamps p), pt_drifts := dict_del k (pt_drifts p),
                     pt_impacts := dict_del k (pt_impacts p)\<rparr>))"

definition evict_oldest_prices :: "paper_trader \<Rightarrow> paper_trader" where
  "evict_oldest_prices p = evict (nat (int (length (pt_prices p)) - pk_cache_max (pt_cfg p))) p"

definition dget :: "string \<Rightarrow> 'a \<Rightarrow> (string, 'a) dict \<Rightarrow> 'a" where
  "dget k x d = (case map_of d k of Some v \<Rightarrow> v | None \<Rightarrow> x)"

definition walk_price :: "tick \<Rightarrow> string \<Rightarrow> real \<Rightarrow> paper_trader \<Rightarrow> paper_trader" where
  "walk_price tk s current p =
     (let now = tk_now tk; elapsed = max (1 / 10) (now - dget s now (pt_stamps p)); step = sm_volatility (meta_of s) * sqrt (elapsed / 60);
          noise = tk_noise tk step; drift = dget s 0 (pt_drifts p) * (95 / 100) + tk_drift tk (step * (3 / 10)); impact = dget s 0 (pt_impacts p);
          price = min (max (current + noise + drift + impact) (current * (95 / 100))) (current * (105 / 100))
      in p\<lparr>pt_drifts := dict_set s drift (pt_drifts p), pt_impacts := dict_set s (impact * (9 / 10)) (pt_impacts p),
           pt_prices := dict_set s (round_to 2 price) (pt_prices p), pt_stamps := dict_set s now (pt_stamps p)\<rparr>)"

definition paper_current_price :: "tick \<Rightarrow> string \<Rightarrow> paper_trader \<Rightarrow> (exn + real) \<times> paper_trader" where
  "paper_current_price tk s p =
     (case map_of (pt_prices p) s of
        None \<Rightarrow>
          let m = meta_of s
          in (Inr (sm_price m),
              evict_oldest_prices (p\<lparr>pt_prices := dict_set s (sm_price m) (pt_prices p), pt_stamps := dict_set s (tk_now tk) (pt_stamps p),
                pt_drifts := dict_set s (tk_init tk (sm_volatility m)) (pt_drifts p)\<rparr>))
      | Some current \<Rightarrow>
          let p1 = evict_oldest_prices (if pk_walk (pt_cfg p) then walk_price tk s current p else p)
          in (case map_of (pt_prices p1) s of None \<Rightarrow> Inl (Exn KeyError s) | Some x \<Rightarrow> Inr x, p1))"

definition evolve_price :: "tick \<Rightarrow> string \<Rightarrow> real \<Rightarrow> paper_trader \<Rightarrow> (exn + real) \<times> paper_trader" where
  "evolve_price tk s base p = (if \<not> pk_walk (pt_cfg p) then (Inr base, p) else paper_current_price tk s p)"

record market_snapshot =
  ms_symbol :: string
  ms_last :: real
  ms_bid :: real
  ms_ask :: real
  ms_spread :: real
  ms_spread_pct :: real
  ms_volatility :: real
  ms_lot :: int

definition get_market_snapshot :: "tick \<Rightarrow> string \<Rightarrow> paper_trader \<Rightarrow> (exn + market_snapshot) \<times> paper_trader" where
  "get_market_snapshot tk s =
     x_bind (paper_current_price tk s) (\<lambda>price.
       let m = meta_of s; spread = price * sm_spread m / 100
       in x_ret \<lparr>ms_symbol = s, ms_last = round_to 2 price, ms_bid = round_to 2 (price - spread / 2), ms_ask = round_to 2 (price + spread / 2),
            ms_spread = round_to 2 spread, ms_spread_pct = round_to 4 (sm_spread m), ms_volatility = round_to 4 (sm_volatility m),
            ms_lot = sm_lot m\<rparr>)"

definition get_commission_breakdown :: "string \<Rightarrow> real \<Rightarrow> int \<Rightarrow> charges" where
  "get_commission_breakdown s price qty = indian_commission (price * of_int qty) (is_index_option s) True"

subsection \<open>Fills\<close>

text \<open>\<open>epoch\<close> is the time of the two readings of the clock, \<open>u\<close> the draw from 0.9 to 1.\<close>

definition compute_fill_pct :: "real \<Rightarrow> real \<Rightarrow> string \<Rightarrow> real \<Rightarrow> paper_trader \<Rightarrow> real \<times> paper_trader" where
  "compute_fill_pct epoch u s v p =
     (if \<not> pk_partial (pt_cfg p) then (100, p)
      else if v \<le> 0 then (100, p)
      else
        let m = meta_of s; ratio = v / max (sm_oi m * 100000 * sm_price m) 1;
            fresh = filter (\<lambda>x. x > epoch - 300) (dget s [] (pt_recent p)); n = length fresh;
            base = (if n > 20 then max 20 (100 - real n * 2) else 100);
            base2 = (if ratio > 1 / 100 then min base (max 10 (100 * ((1 / 100) / max ratio (1 / 10000)))) else base);
            fresh2 = fresh @ [epoch]
        in (max 5 (min 100 (if base2 \<ge> 100 then 100 else base2 * u)),
            p\<lparr>pt_recent := dict_set s (drop (length fresh2 - 100) fresh2) (pt_recent p)\<rparr>))"

text \<open>Bid and ask around the price, and the three kinds of orders; \<open>None\<close>: the order is not executed.\<close>

definition half_spread :: "string \<Rightarrow> real \<Rightarrow> paper_trader \<Rightarrow> real" where
  "half_spread s base p = base * (if pk_spread (pt_cfg p) then sm_spread (meta_of s) / 100 else 0) / 2"

definition is_buy :: "x_request \<Rightarrow> bool" where
  "is_buy rq \<longleftrightarrow> str_upper (xr_direction rq) = ''BUY''"

definition slippage_pct :: "x_request \<Rightarrow> paper_trader \<Rightarrow> real" where
  "slippage_pct rq p =
     (case pk_model (pt_cfg p) of
        None \<Rightarrow> pk_slippage_pct (pt_cfg p)
      | Some mo \<Rightarrow> predict_slippage (of_int (xr_lot_size rq)) (sm_spread (meta_of (xr_symbol rq))) (Some mo))"

definition market_fill :: "x_request \<Rightarrow> real \<Rightarrow> paper_trader \<Rightarrow> real" where
  "market_fill rq base p =
     (let half = half_spread (xr_symbol rq) base p; slip = base * (slippage_pct rq p / 100)
      in max (1 / 100) (if is_buy rq then base + half + slip else base - half - slip))"

definition limit_fill :: "x_request \<Rightarrow> real \<Rightarrow> paper_trader \<Rightarrow> real option" where
  "limit_fill rq base p =
     (let half = half_spread (xr_symbol rq) base p; bid = base - half; ask = base + half
      in case xr_price rq of
          None \<Rightarrow> Some base
        | Some q \<Rightarrow>
            if q = 0 then Some base
            else if is_buy rq then (if q \<ge> ask then Some (min q ask) else None)
            else (if q \<le> bid then Some (max q bid) else None))"

definition stop_fill :: "x_request \<Rightarrow> real \<Rightarrow> paper_trader \<Rightarrow> real option" where
  "stop_fill rq base p =
     (let half = half_spread (xr_symbol rq) base p; trigger = (case xr_price rq of None \<Rightarrow> base | Some t \<Rightarrow> if t = 0 then base else t)
      in if is_buy rq then (if base \<ge> trigger then Some (base + half) else None)
         else (if base \<le> trigger then Some (base - half) else None))"

definition fill_price_with_spread :: "real \<Rightarrow> real \<Rightarrow> x_request \<Rightarrow> real \<Rightarrow> paper_trader \<Rightarrow> (real \<times> real) option \<times> paper_trader" where
  "fill_price_with_spread epoch u rq base p =
     (let full = (\<lambda>x. (map_option (\<lambda>f. (f, 100)) x, p))
      in if xr_order_type rq = OT_MARKET then
           let fill = market_fill rq base p
           in (case compute_fill_pct epoch u (xr_symbol rq) (fill * of_int (xr_lot_size rq)) p of (pc, p') \<Rightarrow> (Some (fill, pc), p'))
         else if xr_order_type rq = OT_LIMIT then full (limit_fill rq base p)
         else if xr_order_type rq \<in> {OT_STOP_LOSS, OT_STOP_LOSS_MARKET} then full (stop_fill rq base p)
         else full (Some base))"

definition apply_market_impact :: "string \<Rightarrow> string \<Rightarrow> real \<Rightarrow> real \<Rightarrow> paper_trader \<Rightarrow> paper_trader" where
  "apply_market_impact s dir notional base p =
     (let m = meta_of s; ratio = notional / max (sm_oi m * 100000 * sm_price m) 1; pts = base * (ratio * (1 / 10));
          acc = dget s 0 (pt_impacts p) + (if dir = ''BUY'' then pts else - pts); mx = base * (2 / 1000)
      in p\<lparr>pt_impacts := dict_set s (max (- mx) (min mx acc)) (pt_impacts p)\<rparr>)"

subsection \<open>Execution\<close>

record trade_env =
  te_first :: tick
  te_second :: tick
  te_shutdown :: bool
  te_epoch :: real
  te_uniform :: real
  te_now :: real
  te_hash :: "string \<Rightarrow> int"
  te_str :: "real \<Rightarrow> string"

definition paper_order_id :: "trade_env \<Rightarrow> string \<Rightarrow> string" where
  "paper_order_id env s =
     ''paper_'' @ show_int (py_trunc (te_epoch env * 1000)) @ ''_'' @ pad_zeros 4 (show_int (te_hash env s mod 10000))"

text \<open>The sign in front of 20% in the message of the circuit limit is no ASCII character and left out.\<close>

definition paper_settle :: "trade_env \<Rightarrow> x_request \<Rightarrow> real \<Rightarrow> real \<Rightarrow> real \<Rightarrow> paper_trader \<Rightarrow> x_result \<times> paper_trader" where
  "paper_settle env rq base fill pct p =
     (let s = xr_symbol rq; lot = xr_lot_size rq; notional = fill * of_int lot;
          p1 = (if pk_impact (pt_cfg p) \<and> notional > 500000 then apply_market_impact s (str_upper (xr_direction rq)) notional base p else p);
          com = ic_total (indian_commission notional (is_index_option s) True); r = order_result (te_now env) (paper_order_id env s);
          q = max 1 (py_trunc (of_int lot * pct / 100))
      in (if pct < 100
          then (r ST_PARTIALLY_FILLED None)\<lparr>xo_filled_quantity := q, xo_average_price := round_to 2 fill,
                 xo_commission := round_to 2 (com * of_int q / of_int (max lot 1))\<rparr>
          else (r ST_FILLED None)\<lparr>xo_filled_quantity := lot, xo_average_price := round_to 2 fill, xo_commission := round_to 2 com\<rparr>, p1))"

definition trader_fill :: "trade_env \<Rightarrow> x_request \<Rightarrow> real \<Rightarrow> real \<Rightarrow> paper_trader \<Rightarrow> (exn + x_result) \<times> paper_trader" where
  "trader_fill env rq base current p =
     (case fill_price_with_spread (te_epoch env) (te_uniform env) rq current p of
        (None, p1) \<Rightarrow>
          (Inr (order_result (te_now env) (paper_order_id env (xr_symbol rq)) ST_PENDING (Some ''Limit order not executed - price not reached'')), p1)
      | (Some (fill, pct), p1) \<Rightarrow> (case paper_settle env rq base fill pct p1 of (r, p2) \<Rightarrow> (Inr r, p2)))"

definition paper_body :: "trade_env \<Rightarrow> x_request \<Rightarrow> paper_trader \<Rightarrow> (exn + x_result) \<times> paper_trader" where
  "paper_body env rq =
     x_bind (paper_current_price (te_first env) (xr_symbol rq)) (\<lambda>base.
       let rej = (\<lambda>oid why. x_ret (order_result (te_now env) oid ST_REJECTED (Some why)))
       in if base \<le> 0 then rej ''price_error'' (''Invalid base price '' @ te_str env base @ '' for '' @ xr_symbol rq)
          else if (case xr_price rq of None \<Rightarrow> False | Some q \<Rightarrow> q \<noteq> 0 \<and> \<bar>q - base\<bar> / base > 20 / 100)
          then rej ''circuit_block'' (''Order price '' @ te_str env (the (xr_price rq)) @ '' exceeds 20% circuit limit from '' @ te_str env base)
          else (\<lambda>p. if pt_shutdown p \<or> te_shutdown env then rej ''shutdown'' ''Shutdown requested during paper fill delay'' (p\<lparr>pt_shutdown := True\<rparr>)
            else x_bind (evolve_price (te_second env) (xr_symbol rq) base) (\<lambda>current. trader_fill env rq base current) p))"

definition paper_execute :: "trade_env \<Rightarrow> x_request \<Rightarrow> paper_trader \<Rightarrow> (exn + x_result) \<times> paper_trader" where
  "paper_execute env rq =
     x_try (paper_body env rq) [ValueError, OSError, AttributeError, ConnectionError]
       (\<lambda>e. x_ret (order_result (te_now env) ''paper_error'' ST_REJECTED (Some (exn_msg e))))"

definition legacy_fill_price :: "tick \<Rightarrow> real \<Rightarrow> real \<Rightarrow> x_request \<Rightarrow> paper_trader \<Rightarrow> (exn + real option) \<times> paper_trader" where
  "legacy_fill_price tk epoch u rq =
     x_bind (paper_current_price tk (xr_symbol rq)) (\<lambda>price p.
       case fill_price_with_spread epoch u rq price p of (r, p') \<Rightarrow> (Inr (map_option fst r), p'))"

definition lookup_default_price :: "string \<Rightarrow> real" where
  "lookup_default_price s = sm_price (meta_of s)"

section \<open>Lemmas\<close>

subsection \<open>Prices stay positive\<close>

lemma meta_price: "1 / 100 \<le> sm_price (meta_of s)"
proof -
  have "list_all (\<lambda>(s, m). 1 / 100 \<le> sm_price m) symbol_meta" by (simp add: symbol_meta_def mk_meta_def)
  then have "map_of symbol_meta s = Some m \<Longrightarrow> 1 / 100 \<le> sm_price m" for m by (auto simp: list_all_iff dest: map_of_SomeD)
  then show ?thesis by (simp add: meta_of_def default_meta_def mk_meta_def split: option.split)
qed

definition prices_ok :: "paper_trader \<Rightarrow> bool" where
  "prices_ok p \<longleftrightarrow> (\<forall>(s, x) \<in> set (pt_prices p). 1 / 100 \<le> x) \<and> int (length (pt_prices p)) \<le> pk_cache_max (pt_cfg p)"

lemma prices_ok_shutdown: "prices_ok (p\<lparr>pt_shutdown := x\<rparr>) = prices_ok p"
  by (simp add: prices_ok_def)

lemma walked_price:
  assumes "1 / 100 \<le> c"
  shows "1 / 100 \<le> round_to 2 (min (max x (c * (95 / 100))) (c * (105 / 100)))"
proof -
  have "95 / 10000 \<le> min (max x (c * (95 / 100))) (c * (105 / 100))" using assms by (simp add: min_def max_def)
  then have "round_to 2 (95 / 10000) \<le> round_to 2 (min (max x (c * (95 / 100))) (c * (105 / 100)))" by (rule round_to_mono)
  moreover have "round_to 2 (95 / 10000) = 1 / 100" by (simp add: round_to_def round_half_even_def Let_def)
  ultimately show ?thesis by simp
qed

lemma evict_frame: "pt_cfg (evict n p) = pt_cfg p" "set (pt_prices (evict n p)) \<subseteq> set (pt_prices p)"
  "length (pt_prices (evict n p)) = length (pt_prices p) - n" "pt_shutdown (evict n p) = pt_shutdown p"
proof -
  have "pt_cfg (evict n p) = pt_cfg p \<and> set (pt_prices (evict n p)) \<subseteq> set (pt_prices p) \<and> length (pt_prices (evict n p)) = length (pt_prices p) - n \<and>
    pt_shutdown (evict n p) = pt_shutdown p"
  proof (induction n arbitrary: p)
    case (Suc n)
    show ?case
    proof (cases "pt_prices p")
      case (Cons kv ps)
      obtain k v where "kv = (k, v)" by (cases kv)
      let ?q = "p\<lparr>pt_prices := ps, pt_stamps := dict_del k (pt_stamps p), pt_drifts := dict_del k (pt_drifts p), pt_impacts := dict_del k (pt_impacts p)\<rparr>"
      have "evict (Suc n) p = evict n ?q" using Cons \<open>kv = (k, v)\<close> by simp
      then show ?thesis using Suc.IH [of ?q] Cons by (auto dest: subsetD)
    qed simp
  qed simp
  then show "pt_cfg (evict n p) = pt_cfg p" "set (pt_prices (evict n p)) \<subseteq> set (pt_prices p)"
    "length (pt_prices (evict n p)) = length (pt_prices p) - n" "pt_shutdown (evict n p) = pt_shutdown p" by blast+
qed

lemma evict_oldest_frame: "pt_cfg (evict_oldest_prices p) = pt_cfg p" "set (pt_prices (evict_oldest_prices p)) \<subseteq> set (pt_prices p)"
  by (simp_all add: evict_oldest_prices_def evict_frame)

lemma evict_oldest_length: "0 \<le> pk_cache_max (pt_cfg p) \<Longrightarrow> int (length (pt_prices (evict_oldest_prices p))) \<le> pk_cache_max (pt_cfg p)"
  by (auto simp: evict_oldest_prices_def evict_frame)

lemma evict_nothing: "int (length (pt_prices p)) \<le> pk_cache_max (pt_cfg p) \<Longrightarrow> evict_oldest_prices p = p"
  by (simp add: evict_oldest_prices_def)

lemma dict_set_member: "y \<in> set (dict_set k v d) \<Longrightarrow> y = (k, v) \<or> y \<in> set d"
  by (induction d) (auto split: if_splits)

lemma dict_set_keeps_length: "map_of d k \<noteq> None \<Longrightarrow> length (dict_set k v d) = length d"
  by (induction d) (auto split: if_splits)

lemma walk_frame: "pt_cfg (walk_price tk s c p) = pt_cfg p" "pt_shutdown (walk_price tk s c p) = pt_shutdown p"
  unfolding walk_price_def Let_def by simp_all

lemma walk_sets:
  assumes "1 / 100 \<le> c"
  shows "\<exists>w. pt_prices (walk_price tk s c p) = dict_set s w (pt_prices p) \<and> 1 / 100 \<le> w"
proof -
  have x: "pt_prices (p\<lparr>pt_drifts := a, pt_impacts := b, pt_prices := x, pt_stamps := d\<rparr>) = x" for a b x d by simp
  show ?thesis unfolding walk_price_def Let_def x by (rule exI, rule conjI, rule refl, rule walked_price [OF assms])
qed

lemma current_price_ok:
  assumes "prices_ok p" "0 \<le> pk_cache_max (pt_cfg p)"
  shows "\<exists>x p'. paper_current_price tk s p = (Inr x, p') \<and> 1 / 100 \<le> x \<and> prices_ok p' \<and> pt_cfg p' = pt_cfg p \<and> pt_shutdown p' = pt_shutdown p"
proof (cases "map_of (pt_prices p) s")
  case None
  let ?q = "p\<lparr>pt_prices := dict_set s (sm_price (meta_of s)) (pt_prices p), pt_stamps := dict_set s (tk_now tk) (pt_stamps p),
                pt_drifts := dict_set s (tk_init tk (sm_volatility (meta_of s))) (pt_drifts p)\<rparr>"
  have "prices_ok (evict_oldest_prices ?q)"
    using evict_oldest_frame(2) [of ?q] evict_oldest_length [of ?q] assms meta_price [of s]
    by (force simp: prices_ok_def evict_oldest_frame dest: dict_set_member)
  then show ?thesis using None meta_price by (simp add: paper_current_price_def Let_def evict_oldest_prices_def evict_frame)
next
  case (Some c)
  then have c: "1 / 100 \<le> c" using assms(1) by (auto simp: prices_ok_def dest: map_of_SomeD)
  let ?q = "if pk_walk (pt_cfg p) then walk_price tk s c p else p"
  obtain w where w: "pt_prices (walk_price tk s c p) = dict_set s w (pt_prices p)" "1 / 100 \<le> w"
    using walk_sets [OF c] by blast
  have "prices_ok (walk_price tk s c p)"
    using assms(1) w Some dict_set_keeps_length [of "pt_prices p" s w]
    by (auto simp: prices_ok_def walk_frame dest!: dict_set_member)
  then have q: "prices_ok ?q" "pt_cfg ?q = pt_cfg p" "pt_shutdown ?q = pt_shutdown p" "\<exists>x. map_of (pt_prices ?q) s = Some x \<and> 1 / 100 \<le> x"
    using Some c assms(1) w by (simp_all add: walk_frame)
  have "evict_oldest_prices ?q = ?q" using q(1) by (intro evict_nothing) (simp add: prices_ok_def)
  with Some q show ?thesis by (auto simp: paper_current_price_def Let_def)
qed

lemma evolve_ok:
  assumes "prices_ok p" "0 \<le> pk_cache_max (pt_cfg p)" "1 / 100 \<le> b"
  shows "\<exists>x p'. evolve_price tk s b p = (Inr x, p') \<and> 1 / 100 \<le> x \<and> prices_ok p' \<and> pt_cfg p' = pt_cfg p"
  using current_price_ok [OF assms(1,2), of tk s] assms by (auto simp: evolve_price_def)

subsection \<open>Fills\<close>

lemma fill_pct_state: "\<exists>f. snd (compute_fill_pct ep u s v p) = p\<lparr>pt_recent := f\<rparr>"
proof (cases "pk_partial (pt_cfg p) \<and> \<not> v \<le> 0")
  case True
  then have c: "(\<not> pk_partial (pt_cfg p)) = False" "(v \<le> 0) = False" by simp_all
  show ?thesis unfolding compute_fill_pct_def Let_def c if_False snd_conv by (rule exI, rule refl)
next
  case False
  then have "compute_fill_pct ep u s v p = (100, p)" unfolding compute_fill_pct_def by simp
  then show ?thesis by (intro exI [of _ "pt_recent p"]) simp
qed

lemma fill_pct_frame:
  "compute_fill_pct ep u s v p = (pc, p') \<Longrightarrow> pt_prices p' = pt_prices p \<and> pt_cfg p' = pt_cfg p"
  using fill_pct_state [of ep u s v p] by auto

lemma market_price:
  assumes "xr_order_type rq = OT_MARKET"
  shows "fill_price_with_spread ep u rq b p =
    (case compute_fill_pct ep u (xr_symbol rq) (market_fill rq b p * of_int (xr_lot_size rq)) p of (pc, p') \<Rightarrow> (Some (market_fill rq b p, pc), p'))"
  unfolding fill_price_with_spread_def Let_def by (simp only: assms if_True refl)

lemma limit_price:
  assumes "xr_order_type rq = OT_LIMIT"
  shows "fill_price_with_spread ep u rq b p = (map_option (\<lambda>f. (f, 100)) (limit_fill rq b p), p)"
  unfolding fill_price_with_spread_def Let_def by (simp only: assms x_order_type.distinct if_False if_True refl)

lemma other_price:
  assumes "xr_order_type rq \<noteq> OT_MARKET"
  shows "snd (fill_price_with_spread ep u rq b p) = p"
  unfolding fill_price_with_spread_def Let_def using assms by (simp only: if_False snd_conv split: if_split) blast

lemma fill_price_frame:
  assumes "fill_price_with_spread ep u rq b p = (r, p')"
  shows "pt_prices p' = pt_prices p \<and> pt_cfg p' = pt_cfg p"
proof (cases "xr_order_type rq = OT_MARKET")
  case True
  obtain pc q where "compute_fill_pct ep u (xr_symbol rq) (market_fill rq b p * of_int (xr_lot_size rq)) p = (pc, q)" by fastforce
  then show ?thesis using fill_pct_frame assms market_price [OF True] by auto
next
  case False
  then show ?thesis using other_price [OF False, of ep u b p] assms by simp
qed

lemma settle_frame:
  "paper_settle env rq base fill pct p = (r, p') \<Longrightarrow> pt_prices p' = pt_prices p \<and> pt_cfg p' = pt_cfg p"
  by (auto simp: paper_settle_def Let_def apply_market_impact_def split: if_splits)

lemma limit_fill_bound:
  assumes "limit_fill rq b p = Some f" "xr_price rq = Some q" "q \<noteq> 0"
  shows "if is_buy rq then f \<le> q else q \<le> f"
proof (cases "is_buy rq")
  case True
  with assms have "f = min q (b + half_spread (xr_symbol rq) b p)"
    unfolding limit_fill_def Let_def by (simp only: option.case if_True if_False split: if_split_asm) simp_all
  with True show ?thesis by simp
next
  case False
  with assms have "f = max q (b - half_spread (xr_symbol rq) b p)"
    unfolding limit_fill_def Let_def by (simp only: option.case if_True if_False split: if_split_asm) simp_all
  with False show ?thesis by simp
qed

lemma fill_price_limit:
  assumes "fill_price_with_spread ep u rq b p = (Some (fill, pct), p')" "xr_order_type rq = OT_LIMIT" "xr_price rq = Some q" "q \<noteq> 0"
  shows "if is_buy rq then fill \<le> q else q \<le> fill"
  using assms limit_fill_bound [OF _ assms(3,4), of b p fill] limit_price [OF assms(2), of ep u b p] by auto

lemma partial_quantity:
  assumes "1 \<le> lot" "pct < 100"
  shows "1 \<le> max 1 (py_trunc (of_int lot * pct / 100)) \<and> max 1 (py_trunc (of_int lot * pct / 100)) \<le> lot"
proof -
  have "of_int lot * pct \<le> of_int lot * 100" using assms by (intro mult_left_mono) simp_all
  then have "py_trunc (of_int lot * pct / 100) \<le> lot" by (intro py_trunc_le_int) simp
  with assms(1) show ?thesis by simp
qed

text \<open>What an executed order may look like.\<close>

definition paper_result_ok :: "x_request \<Rightarrow> x_result \<Rightarrow> bool" where
  "paper_result_ok rq r \<longleftrightarrow>
     xo_order_id r \<noteq> ''price_error'' \<and> (xo_status r = ST_FILLED \<longrightarrow> xo_filled_quantity r = xr_lot_size rq) \<and>
     (xo_status r = ST_PARTIALLY_FILLED \<longrightarrow> 1 \<le> xo_filled_quantity r \<and> xo_filled_quantity r \<le> xr_lot_size rq) \<and>
     (xo_status r \<in> {ST_REJECTED, ST_PENDING} \<longrightarrow> xo_filled_quantity r = 0) \<and>
     (\<forall>q. xr_order_type rq = OT_LIMIT \<and> xr_price rq = Some q \<and> q \<noteq> 0 \<and> xo_status r = ST_FILLED \<longrightarrow>
        (if str_upper (xr_direction rq) = ''BUY'' then xo_average_price r \<le> round_to 2 q else round_to 2 q \<le> xo_average_price r))"

lemma order_id_no_error: "paper_order_id env s \<noteq> ''price_error''"
  by (simp add: paper_order_id_def)

lemma trader_fill_ok:
  assumes "prices_ok p" "1 \<le> xr_lot_size rq"
  shows "\<exists>r p'. trader_fill env rq base c p = (Inr r, p') \<and> paper_result_ok rq r \<and> prices_ok p' \<and> pt_cfg p' = pt_cfg p"
proof -
  obtain o' p1 where f: "fill_price_with_spread (te_epoch env) (te_uniform env) rq c p = (o', p1)" by fastforce
  note fr = fill_price_frame [OF f]
  have p1: "prices_ok p1" using assms(1) fr by (simp add: prices_ok_def)
  show ?thesis
  proof (cases o')
    case None
    then show ?thesis using f p1 fr order_id_no_error by (simp add: trader_fill_def paper_result_ok_def order_result_def)
  next
    case (Some fp)
    obtain fill pct where fp: "fp = (fill, pct)" by fastforce
    obtain r p2 where s: "paper_settle env rq base fill pct p1 = (r, p2)" by fastforce
    have "paper_result_ok rq r"
    proof (cases "pct < 100")
      case True
      then have "xo_status r = ST_PARTIALLY_FILLED" "xo_filled_quantity r = max 1 (py_trunc (of_int (xr_lot_size rq) * pct / 100))"
        "xo_order_id r = paper_order_id env (xr_symbol rq)"
        using s by (auto simp: paper_settle_def Let_def order_result_def)
      then show ?thesis using partial_quantity [OF assms(2) True] order_id_no_error by (simp add: paper_result_ok_def)
    next
      case False
      then have "xo_status r = ST_FILLED" "xo_filled_quantity r = xr_lot_size rq" "xo_average_price r = round_to 2 fill"
        "xo_order_id r = paper_order_id env (xr_symbol rq)"
        using s by (auto simp: paper_settle_def Let_def order_result_def)
      then show ?thesis
        using fill_price_limit [OF f [unfolded Some fp]] order_id_no_error by (auto simp: paper_result_ok_def is_buy_def intro: round_to_mono)
    qed
    then show ?thesis using f Some fp s p1 fr settle_frame [OF s] by (simp add: trader_fill_def prices_ok_def)
  qed
qed

lemma rejected_ok: "oid \<noteq> ''price_error'' \<Longrightarrow> paper_result_ok rq (order_result t oid ST_REJECTED why)"
  by (simp add: paper_result_ok_def order_result_def)

lemma paper_execute_ok:
  assumes "prices_ok p" "0 \<le> pk_cache_max (pt_cfg p)" "1 \<le> xr_lot_size rq"
  shows "\<exists>r p'. paper_execute env rq p = (Inr r, p') \<and> paper_result_ok rq r \<and> prices_ok p' \<and> pt_cfg p' = pt_cfg p"
proof -
  obtain base p1 where b: "paper_current_price (te_first env) (xr_symbol rq) p = (Inr base, p1)" "1 / 100 \<le> base" "prices_ok p1" "pt_cfg p1 = pt_cfg p"
    using current_price_ok [OF assms(1,2)] by blast
  obtain cur p2 where c: "evolve_price (te_second env) (xr_symbol rq) base p1 = (Inr cur, p2)" "prices_ok p2" "pt_cfg p2 = pt_cfg p"
    using evolve_ok [OF b(3) _ b(2)] b(4) assms(2) by metis
  obtain r p3 where f: "trader_fill env rq base cur p2 = (Inr r, p3)" "paper_result_ok rq r" "prices_ok p3" "pt_cfg p3 = pt_cfg p"
    using trader_fill_ok [OF c(2) assms(3)] c(3) by metis
  have "\<exists>r p'. paper_body env rq p = (Inr r, p') \<and> paper_result_ok rq r \<and> prices_ok p' \<and> pt_cfg p' = pt_cfg p"
    using b c f prices_ok_shutdown [of _ p1] rejected_ok [of "''circuit_block''" rq] rejected_ok [of "''shutdown''" rq]
    by (auto simp: paper_body_def x_bind_def x_ret_def Let_def)
  then show ?thesis by (auto simp: paper_execute_def x_try_def)
qed

datatype trader_op = ToQuote tick string | ToExecute trade_env x_request | ToReset | ToShutdown

fun trader_step :: "trader_op \<Rightarrow> paper_trader \<Rightarrow> paper_trader" where
  "trader_step (ToQuote tk s) p = snd (paper_current_price tk s p)"
| "trader_step (ToExecute env rq) p = snd (paper_execute env rq p)"
| "trader_step ToReset p = reset_trader p"
| "trader_step ToShutdown p = shutdown_trader p"

definition lots_positive :: "trader_op \<Rightarrow> bool" where
  "lots_positive a \<longleftrightarrow> (case a of ToExecute env rq \<Rightarrow> 1 \<le> xr_lot_size rq | _ \<Rightarrow> True)"

lemma trader_step_ok:
  assumes "prices_ok p" "0 \<le> pk_cache_max (pt_cfg p)" "lots_positive a"
  shows "prices_ok (trader_step a p) \<and> pt_cfg (trader_step a p) = pt_cfg p"
proof (cases a)
  case (ToQuote tk s)
  then show ?thesis using current_price_ok [OF assms(1,2), of tk s] by auto
next
  case (ToExecute env rq)
  then show ?thesis using paper_execute_ok [OF assms(1,2), of rq env] assms(3) by (auto simp: lots_positive_def)
qed (use assms in \<open>simp_all add: reset_trader_def shutdown_trader_def prices_ok_def\<close>)

lemma trader_run_ok:
  assumes "prices_ok p" "0 \<le> pk_cache_max (pt_cfg p)" "list_all lots_positive ops"
  shows "prices_ok (fold trader_step ops p) \<and> pt_cfg (fold trader_step ops p) = pt_cfg p"
  using assms by (induction ops arbitrary: p) (simp_all add: trader_step_ok)

section \<open>Properties\<close>

text \<open>
  C30: Whatever the draws and the clock are, a simulated order in any state reached by orders, quotes and
  resets ends in a result: no exception leaves the trader and its price is never invalid. A full fill
  has the whole quantity, a partial one at least one and at most all of it, other results none, and a
  filled limit order is never worse than its limit.
\<close>

theorem paper_order_sane:
  assumes "0 \<le> pk_cache_max c" "list_all lots_positive ops" "1 \<le> xr_lot_size rq"
  shows "\<exists>r p'. paper_execute env rq (fold trader_step ops (new_trader c)) = (Inr r, p') \<and> paper_result_ok rq r \<and>
    int (length (pt_prices p')) \<le> pk_cache_max c"
proof -
  have "prices_ok (new_trader c)" "pt_cfg (new_trader c) = c" using assms(1) by (simp_all add: prices_ok_def new_trader_def)
  then have p: "prices_ok (fold trader_step ops (new_trader c))" "pt_cfg (fold trader_step ops (new_trader c)) = c"
    using trader_run_ok [of "new_trader c" ops] assms(1,2) by simp_all
  then show ?thesis using paper_execute_ok [OF p(1) _ assms(3), of env] assms(1) by (auto simp: prices_ok_def)
qed

theorem paper_order_sane_witness:
  "\<exists>r p'. paper_execute \<lparr>te_first = \<lparr>tk_now = 0, tk_init = (\<lambda>_. 0), tk_noise = (\<lambda>s. - s), tk_drift = (\<lambda>s. s)\<rparr>,
       te_second = \<lparr>tk_now = 1, tk_init = (\<lambda>_. 0), tk_noise = (\<lambda>s. s), tk_drift = (\<lambda>s. s)\<rparr>, te_shutdown = False, te_epoch = 1, te_uniform = 1,
       te_now = 2, te_hash = (\<lambda>_. 17), te_str = (\<lambda>_. [])\<rparr> demo_request (new_trader default_paper_cfg) = (Inr r, p') \<and>
     paper_result_ok demo_request r \<and> int (length (pt_prices p')) \<le> 50"
  using paper_order_sane [of default_paper_cfg "[]" demo_request] by (simp add: default_paper_cfg_def demo_request_def)

end
