(* ===== verification/Spec2Isabelle.thy ===== *)
theory Spec2Isabelle
  imports Order_Lifecycle Order_Manager Retry_Policy Circuit_Breaker Rate_Limiter Trade_Entry Broker_Routing Mandate Exposure_Guards Order_Pricing Broker_Adapters Paper_Trader
begin

text \<open>
  Verification of the order execution core of a multi-asset trading system (the Python package
  \<open>core\<close> under \<open>src/\<close>).

  \<^bold>\<open>The program.\<close> The position service takes a signal through a sequence of entry gates (kill file, news,
  warm-up, cooldown, expiry, auction, time of day, risk, age of the signal), sizes it, checks margin,
  risk and liquidity again and submits one order; it watches the open positions and exits them at a
  stop, a target, a trailing level or an age. An order goes through the execution service, which checks the operating mode and the kill switch, records its intent in the write-ahead
  journal, refuses duplicates by idempotency key, saves a durable record, drives a state machine per
  order, calls the broker, validates the answer and books the outcome. Around this path stand the
  order manager (an older path with its own database), watchdogs that settle stale orders, the
  reconciliation with the broker's books, and the protective services: retry policy, circuit breaker,
  rate limiter. The risk service and the capital manager trip a process-wide kill switch; the
  execution service reads it.

  \<^bold>\<open>Theories and sources\<close> (paths under \<open>src/core\<close>).
  \<^item> \<open>Prelude\<close>, \<open>Exn_Monad\<close>, \<open>Py_Numbers\<close>, \<open>Py_Values\<close>: Python's exceptions, strings, dictionaries, numbers
    and JSON scalars, SQLite tables, code that may raise, and the interfaces \<open>keyed_store\<close>, \<open>op_system\<close>
    and \<open>op_order\<close> that the components interpret; \<open>guarded_total\<close> of \<open>Exposure_Guards\<close> is interpreted
    for each of the four concentration limits.
  \<^item> \<open>Durable_State\<close>: \<open>execution/durable_state.py\<close>, the durable execution store as a table; it refines a
    map from intents to records, and its reconciliation with the broker is characterised.
  \<^item> \<open>State_Machine\<close>: \<open>execution/deterministic_state_machine.py\<close>, one machine per order and the manager;
    legal histories, at most one submission, persistence before progress, crash recovery, fills.
  \<^item> \<open>Order_Lifecycle\<close>: \<open>execution/order_lifecycle.py\<close>, the stale order and acknowledgement watchdogs.
  \<^item> \<open>Order_Manager\<close>: \<open>execution/order_manager.py\<close>, \<open>broker_gateway.py\<close>, \<open>algo_router.py\<close>; one submission per
    intent, counted at the adapter, recovery after a restart, transitions of an order.
  \<^item> \<open>Idempotency\<close>: \<open>execution/idempotency/manager.py\<close>, \<open>services/idempotency_engine.py\<close> and the data
    classes of \<open>ports/execution/execution_port.py\<close>.
  \<^item> \<open>Retry_Policy\<close>, \<open>Circuit_Breaker\<close>, \<open>Rate_Limiter\<close>: \<open>execution/retry_policy/\<close>,
    \<open>services/circuit_breaker_service.py\<close>, \<open>services/rate_limiting_service.py\<close>.
  \<^item> \<open>Wal_Journal\<close>: \<open>wal/journal.py\<close> and the part of the queued database writer it uses (\<open>AsyncDbWriter\<close> of
    \<open>db_utils.py\<close>), whose worker takes, executes and commits a statement in separate steps that may fail.
  \<^item> \<open>Reconciliation\<close>: \<open>execution/reconciliation/service.py\<close>; detection, freezing and repair.
  \<^item> \<open>Ack_Validator\<close>: \<open>execution/broker_ack_validator.py\<close>.
  \<^item> \<open>Safety_Gates\<close>: \<open>operating_mode.py\<close> and \<open>safety_state.py\<close>, the two gates of execution.
  \<^item> \<open>Execution_Service\<close>: \<open>services/execution_service.py\<close>, composed of the theories above.
  \<^item> \<open>Capital_Manager\<close>, \<open>Greeks_Engine\<close>, \<open>Position_Sizing\<close>: \<open>capital_manager.py\<close>,
    \<open>options_greeks_engine.py\<close>, \<open>tier_engine.py\<close> and \<open>position_sizer.py\<close>.
  \<^item> \<open>Risk_Service\<close>: \<open>services/risk_service.py\<close> with its port, \<open>utils_numeric.py\<close> and the managers under
    \<open>risk/limits\<close> and \<open>risk/sizing\<close>.
  \<^item> \<open>Market_Clock\<close>: \<open>datetime_ist.py\<close>, \<open>expiry_day_controller.py\<close>, \<open>market_warmup.py\<close>, \<open>time_of_day_filter.py\<close>.
  \<^item> \<open>Trade_Guards\<close>: \<open>liquidity_guard.py\<close>, \<open>risk/margin_validator.py\<close>, \<open>reentry_evaluator.py\<close>,
    \<open>intraday_performance_monitor.py\<close>, \<open>strike_selector.py\<close>.
  \<^item> \<open>Portfolio_Service\<close>: \<open>services/portfolio_service.py\<close>.
  \<^item> \<open>Order_Replies\<close>: lemmas on what \<open>execute_order\<close> answers to a duplicate, a refused and a failed order,
    as its callers see it.
  \<^item> \<open>Position_Service\<close>: the monitoring loop and the exits of \<open>position_service.py\<close>, composed of the
    execution, portfolio, risk and safety theories.
  \<^item> \<open>Trade_Entry\<close>: \<open>enter_trade\<close> of \<open>position_service.py\<close>, gate by gate.
  \<^item> \<open>Broker_Routing\<close>: \<open>execution/smart_router.py\<close> and \<open>execution/broker_state_handler.py\<close>.
  \<^item> \<open>Mandate\<close>: \<open>mandate_enforcer.py\<close>, \<open>mandate_service.py\<close>, \<open>mandate_validator.py\<close>.
  \<^item> \<open>Exposure_Guards\<close>: \<open>exposure_limits.py\<close>, \<open>equity_protection.py\<close>, \<open>correlation_guard.py\<close>,
    \<open>lot_size_validator.py\<close>.
  \<^item> \<open>Order_Pricing\<close>: \<open>kelly_sizer.py\<close>, \<open>scalein_manager.py\<close>, \<open>limit_order_engine.py\<close>,
    \<open>slippage_model.py\<close>, \<open>cost_accountant.py\<close>.
  \<^item> \<open>Broker_Adapters\<close>: \<open>adapters/broker_adapters.py\<close>, the wrapper that the execution service calls, the
    paper and the Angel adapter and the choice between them, with the order path of
    \<open>infrastructure/adapters/brokers/kite/adapter.py\<close>; composed with the execution and position services.
  \<^item> \<open>Paper_Trader\<close>: \<open>services/paper_trader.py\<close>, the simulated execution of orders.

  In each theory a class is a record, its methods are functions on it with the source's names (a
  prefix where names would clash), and the section of definitions follows the order of the source.

  \<^bold>\<open>What is shown.\<close> The central safety properties are that the broker is called at most once per
  idempotency key (\<open>one_order_per_key\<close>), that closed gates place nothing, that a risk breach stops all
  orders until an admitted clear (\<open>risk_breach_stops_orders\<close>, below), that an allowed trade is within
  every limit (of the Greeks limits at most two are breached, and a failed computation does not block), that a machine's history follows the transition table with at most one submission, and
  that the books agree after a fill (\<open>filled_order_books\<close>). The other groups are refinements (durable
  store, order of the journal, crash recovery), invariants (capital accounting, runtime limits), bounds (rate
  limits, scaling, position size), exact characterisations (watchdogs, reconciliation, Greeks check,
  circuit breaker, exit levels), round trips through a restart, termination of the polling loop, and
  failures the model exposes: a failed journal commit after a fill lets the same key be placed again, a flush of the journal returns
  with the last statement not executed,
  an exception after placement is reported as a rejection, repair resolves nothing, locked profit
  counts as drawdown, short positions hide exposure. For the position service: an order of \<open>enter_trade\<close>
  passed every gate (\<open>placed_entry_cleared\<close>), filled entries and exits are booked once
  (\<open>filled_entry_stored\<close>, \<open>filled_exit_books\<close>), an idle round changes nothing, and its failures: halted
  exits drop the position, paper exits go live, the profit of a short is booked as a loss, a repeated
  exit key sends nothing, a missing score loses a filled entry. Around it: the router sends an order
  at most once and never uses a failed broker again, an entry admitted by the mandate lies within its
  policy, also where a check has raised (but the trades already taken are not counted), admitted positions stay within the four
  concentration limits, correlations lie in the unit interval, limit prices lie in the spread, and an
  unanswered check of lot sizes halts trading. For the adapters: a live adapter is created only when
  every switch and the readiness check allow it (\<open>live_adapter_cleared\<close>), and the failures of the
  live path, that no Kite order is reported as placed (an accepted one as rejected), that an exit
  trades the option of the other type at the price of the underlying as strike, and that an error outside
  the caught classes blocks its key for an hour. A simulated order
  always ends in a sane result (\<open>paper_order_sane\<close>).

  \<^bold>\<open>Abstractions.\<close> Floats and time stamps are reals, so rounding of floating-point operations is not
  covered; integers are unbounded, as in Python. Locks make an operation one atomic step; where
  interleaving matters (journal writer, concurrent intents) the steps are explicit, and what happens
  during a bounded wait of \<open>flush\<close> or \<open>stop\<close> is a list of steps. What the code
  does not determine is an argument: clock readings, the broker's answers and exceptions, the
  injected callbacks, failures of the databases (flags), pseudo-random draws, SHA-256, \<open>hash\<close>, \<open>math.erf\<close>, the printing of floats.
  There is no fuel: every loop is structural recursion; a polling loop takes the list of its
  iterations, and the one for a fill is shown to end within two iterations per second of timeout.

  \<^bold>\<open>Not modelled.\<close> The connections and credentials of the broker adapters and the adapters of the other
  brokers (their answers are arguments; so is, to the execution service, the result of the paper trader),
  market data adapters, notification and Telegram code, dashboards and reports (input and
  output); signal generation, scanners, strategies, machine learning, backtesting and research;
  portfolio optimisation, the older Greeks engine under \<open>risk/\<close>, event store and buses, authentication,
  configuration loading, governance and self-healing tooling, scripts and tests. These are listed
  with their reasons in the manifest.
\<close>

section \<open>Properties that span components\<close>

text \<open>The safety states a process can be in after a given one while no clear of the kill switch is admitted.\<close>

definition uncleared :: "safety \<Rightarrow> x_call \<Rightarrow> bool" where
  "uncleared sf c \<longleftrightarrow> (case c of (env, rq, ctx) \<Rightarrow> \<exists>ops. no_clear ops sf \<and> xe_safety env = fold safety_step ops sf)"

lemma halted_orders_place_nothing:
  assumes "is_hard_halted sf" "list_all (uncleared sf) cs"
  shows "es_placed (fold order_step cs x) = es_placed x"
  using assms(2)
proof (induction cs arbitrary: x)
  case Nil
  then show ?case by simp
next
  case (Cons c cs)
  obtain env rq ctx where c: "c = (env, rq, ctx)" by (cases c)
  from Cons.prems obtain ops where "no_clear ops sf" "xe_safety env = fold safety_step ops sf" by (auto simp: uncleared_def c)
  then have "is_hard_halted (xe_safety env)" using halted_until_clear [of sf ops] assms(1) by (simp add: is_hard_halted_def)
  then have "es_placed (snd (execute_order env rq ctx x)) = es_placed x" by (intro closed_gates) (simp add: gates_open_def)
  with Cons show ?case by (simp add: c)
qed

text \<open>
  C9: A risk breach stops all orders. Once \<open>evaluate_trade\<close> of the risk service has seen the daily loss
  or the loss streak at its limit, no sequence of \<open>execute_order\<close> calls of the execution service reaches
  the broker, whatever the orders, the broker's answers and the other safety operations between them
  are, until a clear of the kill switch is admitted.
\<close>

theorem risk_breach_stops_orders:
  assumes "signal_ok sd"
    and "pm_daily_pnl pm \<le> rk_max_daily_loss (rs_config s) \<or> rk_max_consecutive_losses (rs_config s) \<le> pm_consecutive_losses pm"
    and "evaluate_trade renv symbol sd pm (s, sf) = (v, s', sf')" "list_all (uncleared sf') cs"
  shows "es_placed (fold order_step cs x) = es_placed x"
proof -
  have "is_hard_halted sf'" using breach_denies [OF assms(1,2), of renv symbol sf] assms(3) by auto
  then show ?thesis using assms(4) by (rule halted_orders_place_nothing)
qed

theorem risk_breach_stops_orders_witness:
  "\<exists>v s' sf'. evaluate_trade demo_risk_env ''NIFTY'' demo_signal (demo_metrics\<lparr>pm_daily_pnl := - 2500\<rparr>) (demo_risk, new_safety) = (v, s', sf') \<and>
     es_placed (order_step (demo_env\<lparr>xe_safety := safety_step (SfOutcome False) sf'\<rparr>, demo_request, None) demo_service) = es_placed demo_service"
proof -
  obtain v s' sf' where e: "evaluate_trade demo_risk_env ''NIFTY'' demo_signal (demo_metrics\<lparr>pm_daily_pnl := - 2500\<rparr>) (demo_risk, new_safety) = (v, s', sf')"
    by (cases "evaluate_trade demo_risk_env ''NIFTY'' demo_signal (demo_metrics\<lparr>pm_daily_pnl := - 2500\<rparr>) (demo_risk, new_safety)")
  let ?env = "demo_env\<lparr>xe_safety := safety_step (SfOutcome False) sf'\<rparr>"
  have "es_placed (fold order_step [(?env, demo_request, None)] demo_service) = es_placed demo_service"
  proof (rule risk_breach_stops_orders [OF demo_signal_ok _ e])
    show "list_all (uncleared sf') [(?env, demo_request, None)]"
      by (auto simp: uncleared_def simp del: safety_step.simps intro: exI [of _ "[SfOutcome False]"])
  qed (simp add: demo_risk_defs)
  with e show ?thesis by (intro exI conjI) (assumption | simp)+
qed

end
